(* ===== verification/Prelude.thy ===== *)
theory Prelude
  imports Main "HOL-Library.Char_ord" "HOL-Library.List_Lexorder" "HOL-Library.Product_Lexorder"
    "HOL-Library.Word" "HOL-Library.Multiset" "HOL-Library.Sublist"
begin

text \<open>
  What every component of the development shares: Go strings as byte lists, the parts of the Go
  standard library the code calls (\<open>strings.TrimSpace\<close>,
  \<open>strings.HasPrefix\<close>, \<open>strconv.Itoa\<close>), instants and 64-bit durations
  (\<open>time.Time\<close>, \<open>time.Duration\<close>), polled contexts (\<open>context.Context\<close>), the
  append-to-a-map-of-slices idiom, and the generic lemmas on sorting, grouping and compaction.

  Go strings are byte sequences and compare bytewise: \<open>string\<close> with the lexicographic order
  of the library is that type.
\<close>

section \<open>Named collections\<close>

named_theorems go_simps \<open>evaluation of the standard library functions\<close>
named_theorems order_facts \<open>sortedness and permutation of the code's sorted results\<close>

section \<open>Strings\<close>

type_synonym gostring = string

text \<open>
  \<open>unicode.IsSpace\<close> on UTF-8: the byte encodings of the white-space code points U+0009..U+000D,
  U+0020, U+0085, U+00A0, U+1680, U+2000..U+200A, U+2028, U+2029, U+202F, U+205F and U+3000.
  A valid encoding at either end of a byte string is always decoded as that code point, so
  trimming runes is removing these encodings.
\<close>

definition space_encodings :: "gostring list" where
  "space_encodings =
    [[CHR 0x09], [CHR 0x0A], [CHR 0x0B], [CHR 0x0C], [CHR 0x0D], [CHR 0x20],
     [CHR 0xC2, CHR 0x85], [CHR 0xC2, CHR 0xA0], [CHR 0xE1, CHR 0x9A, CHR 0x80],
     [CHR 0xE2, CHR 0x80, CHR 0x80], [CHR 0xE2, CHR 0x80, CHR 0x81], [CHR 0xE2, CHR 0x80, CHR 0x82],
     [CHR 0xE2, CHR 0x80, CHR 0x83], [CHR 0xE2, CHR 0x80, CHR 0x84], [CHR 0xE2, CHR 0x80, CHR 0x85],
     [CHR 0xE2, CHR 0x80, CHR 0x86], [CHR 0xE2, CHR 0x80, CHR 0x87], [CHR 0xE2, CHR 0x80, CHR 0x88],
     [CHR 0xE2, CHR 0x80, CHR 0x89], [CHR 0xE2, CHR 0x80, CHR 0x8A], [CHR 0xE2, CHR 0x80, CHR 0xA8],
     [CHR 0xE2, CHR 0x80, CHR 0xA9], [CHR 0xE2, CHR 0x80, CHR 0xAF], [CHR 0xE2, CHR 0x81, CHR 0x9F],
     [CHR 0xE3, CHR 0x80, CHR 0x80]]"

fun strip_prefix :: "gostring \<Rightarrow> gostring \<Rightarrow> gostring option" where
  "strip_prefix [] s = Some s"
| "strip_prefix (p # ps) [] = None"
| "strip_prefix (p # ps) (c # cs) = (if p = c then strip_prefix ps cs else None)"

fun strip_any :: "gostring list \<Rightarrow> gostring \<Rightarrow> gostring option" where
  "strip_any [] s = None"
| "strip_any (p # ps) s = (case strip_prefix p s of Some r \<Rightarrow> Some r | None \<Rightarrow> strip_any ps s)"

lemma strip_prefix_Some_iff: "strip_prefix p s = Some r \<longleftrightarrow> s = p @ r"
  by (induction p s rule: strip_prefix.induct) auto

lemma strip_any_Some: "strip_any ps s = Some r \<Longrightarrow> \<exists>p\<in>set ps. s = p @ r"
  by (induction ps) (auto simp: strip_prefix_Some_iff split: option.splits)

lemma strip_any_None_iff: "strip_any ps s = None \<longleftrightarrow> (\<forall>p\<in>set ps. \<forall>r. s \<noteq> p @ r)"
proof (induction ps)
  case (Cons q ps)
  show ?case
  proof (cases "strip_prefix q s")
    case None
    then have "\<forall>r. s \<noteq> q @ r" by (metis option.distinct(1) strip_prefix_Some_iff)
    with None Cons show ?thesis by simp
  next
    case (Some r)
    then have "s = q @ r" by (simp add: strip_prefix_Some_iff)
    moreover have "strip_any (q # ps) s \<noteq> None" using Some by simp
    ultimately show ?thesis by auto
  qed
qed simp

text \<open>Trimming takes one encoding at a time; the length of the string bounds the rounds.\<close>

fun trim_rounds :: "gostring list \<Rightarrow> nat \<Rightarrow> gostring \<Rightarrow> gostring" where
  "trim_rounds ps 0 s = s"
| "trim_rounds ps (Suc n) s = (case strip_any ps s of None \<Rightarrow> s | Some r \<Rightarrow> trim_rounds ps n r)"

definition trim_left :: "gostring \<Rightarrow> gostring" where
  "trim_left s = trim_rounds space_encodings (length s) s"

definition trim_right :: "gostring \<Rightarrow> gostring" where
  "trim_right s = rev (trim_rounds (map rev space_encodings) (length s) (rev s))"

definition trim_space :: "gostring \<Rightarrow> gostring" where
  "trim_space s = trim_right (trim_left s)"

lemma trim_rounds_stop:
  assumes "\<forall>p\<in>set ps. p \<noteq> []" and "length s \<le> n"
  shows "strip_any ps (trim_rounds ps n s) = None"
  using assms(2)
proof (induction n arbitrary: s)
  case 0
  have "strip_any ps [] = None" if "\<forall>p\<in>set ps. p \<noteq> []" for ps
    using that by (induction ps) (auto split: option.splits simp: strip_prefix_Some_iff)
  with 0 assms(1) show ?case by simp
next
  case (Suc n)
  show ?case
  proof (cases "strip_any ps s")
    case None
    then show ?thesis by simp
  next
    case (Some r)
    from strip_any_Some [OF Some] obtain p where "p \<in> set ps" and s: "s = p @ r" by blast
    with assms(1) have "p \<noteq> []" by blast
    with s have "length r < length s" by simp
    with Suc.prems have "length r \<le> n" by linarith
    then have "strip_any ps (trim_rounds ps n r) = None" by (rule Suc.IH)
    with Some show ?thesis by simp
  qed
qed

lemma trim_rounds_suffix: "\<exists>w. s = w @ trim_rounds ps n s"
proof (induction n arbitrary: s)
  case 0
  show ?case by simp
next
  case (Suc n)
  show ?case
  proof (cases "strip_any ps s")
    case None
    then show ?thesis by simp
  next
    case (Some r)
    from strip_any_Some [OF Some] obtain p where s: "s = p @ r" by blast
    from Suc.IH [of r] obtain w where w: "r = w @ trim_rounds ps n r" by blast
    have "s = (p @ w) @ trim_rounds ps n r" using s w by (metis append.assoc)
    with Some show ?thesis by (metis option.simps(5) trim_rounds.simps(2))
  qed
qed

lemma space_encodings_nonempty: "\<forall>p\<in>set space_encodings. p \<noteq> []"
  by (simp add: space_encodings_def)

lemma trim_left_stop: "strip_any space_encodings (trim_left s) = None"
  unfolding trim_left_def by (rule trim_rounds_stop) (simp_all add: space_encodings_nonempty)

lemma trim_right_stop: "strip_any (map rev space_encodings) (rev (trim_right s)) = None"
  unfolding trim_right_def by (simp, rule trim_rounds_stop) (simp_all add: space_encodings_nonempty)

lemma trim_rounds_id: "strip_any ps s = None \<Longrightarrow> trim_rounds ps n s = s"
  by (cases n) simp_all

lemma trim_right_prefix: "\<exists>w. s = trim_right s @ w"
proof -
  obtain w where "rev s = w @ trim_rounds (map rev space_encodings) (length s) (rev s)"
    using trim_rounds_suffix by blast
  then have "s = rev (trim_rounds (map rev space_encodings) (length s) (rev s)) @ rev w"
    by (metis rev_append rev_rev_ident)
  then show ?thesis unfolding trim_right_def by blast
qed

lemma trim_space_infix: "\<exists>u w. s = u @ trim_space s @ w"
proof -
  obtain u where u: "s = u @ trim_left s"
    unfolding trim_left_def using trim_rounds_suffix by blast
  obtain w where "trim_left s = trim_right (trim_left s) @ w"
    using trim_right_prefix by blast
  with u show ?thesis unfolding trim_space_def by metis
qed

lemma trim_space_idem [simp]: "trim_space (trim_space s) = trim_space s"
proof -
  let ?t = "trim_left s" and ?u = "trim_space s"
  obtain w where w: "?t = ?u @ w" using trim_right_prefix [of ?t] by (auto simp: trim_space_def)
  have "strip_any ps ?u = None" if "strip_any ps ?t = None" for ps
    using that w unfolding strip_any_None_iff by (metis append.assoc)
  then have "trim_left ?u = ?u" using trim_left_stop [of s] by (simp add: trim_left_def trim_rounds_id)
  moreover have "trim_right ?u = ?u"
    using trim_right_stop [of ?t] by (simp add: trim_right_def trim_space_def trim_rounds_id)
  ultimately show ?thesis by (simp add: trim_space_def)
qed

lemma set_trim_space: "set (trim_space s) \<subseteq> set s"
proof -
  obtain u w where "s = u @ trim_space s @ w" using trim_space_infix by blast
  then have "set s = set u \<union> set (trim_space s) \<union> set w" by (metis set_append sup_assoc)
  then show ?thesis by blast
qed

lemma trim_space_Nil [simp]: "trim_space [] = []"
  by (simp add: trim_space_def trim_left_def trim_right_def)

text \<open>The lower case of an ASCII byte.\<close>

definition lower_char :: "char \<Rightarrow> char" where
  "lower_char c = (let n = (of_char c :: nat) in if 65 \<le> n \<and> n \<le> 90 then char_of (n + 32) else c)"

subsection \<open>Splitting and joining\<close>

text \<open>\<open>strings.Split\<close> with a one-byte separator, \<open>strings.Join\<close> and the prefix tests.\<close>

fun split_on :: "char \<Rightarrow> gostring \<Rightarrow> gostring list" where
  "split_on sep [] = [[]]"
| "split_on sep (c # cs) =
    (if c = sep then [] # split_on sep cs
     else (case split_on sep cs of [] \<Rightarrow> [[c]] | p # ps \<Rightarrow> (c # p) # ps))"

fun join_with :: "gostring \<Rightarrow> gostring list \<Rightarrow> gostring" where
  "join_with sep [] = []"
| "join_with sep [p] = p"
| "join_with sep (p # q # ps) = p @ sep @ join_with sep (q # ps)"

definition has_prefix :: "gostring \<Rightarrow> gostring \<Rightarrow> bool" where
  "has_prefix s p = (strip_prefix p s \<noteq> None)"

text \<open>\<open>strings.Contains\<close>.\<close>

fun contains_text :: "gostring \<Rightarrow> gostring \<Rightarrow> bool" where
  "contains_text [] p = (p = [])"
| "contains_text (c # s) p = (has_prefix (c # s) p \<or> contains_text s p)"

lemma split_on_nonempty [simp]: "split_on sep s \<noteq> []"
  by (cases s) (auto split: list.splits)

lemma split_on_no_sep: "sep \<notin> set p \<Longrightarrow> split_on sep p = [p]"
  by (induction p) auto

lemma split_on_append: "sep \<notin> set p \<Longrightarrow> split_on sep (p @ sep # s) = p # split_on sep s"
  by (induction p) auto

lemma split_join:
  assumes "ps \<noteq> []" and "\<forall>p\<in>set ps. sep \<notin> set p"
  shows "split_on sep (join_with [sep] ps) = ps"
  using assms by (induction "[sep]" ps rule: join_with.induct)
    (auto simp: split_on_no_sep split_on_append)

lemma join_split: "join_with [sep] (split_on sep s) = s"
proof (induction s)
  case Nil
  show ?case by simp
next
  case (Cons c s)
  obtain p ps where ps: "split_on sep s = p # ps"
    using split_on_nonempty [of sep s] by (cases "split_on sep s") auto
  with Cons show ?case by (cases ps) auto
qed

lemma split_on_parts: "\<forall>p\<in>set (split_on sep s). sep \<notin> set p"
  by (induction s) (auto split: list.splits)

text \<open>Joining parts free of the separator loses nothing.\<close>

lemma join_with_inj:
  assumes "join_with [sep] ps = join_with [sep] qs" and "ps \<noteq> []" and "qs \<noteq> []"
    and "\<forall>p\<in>set ps. sep \<notin> set p" and "\<forall>q\<in>set qs. sep \<notin> set q"
  shows "ps = qs"
  using assms split_join by metis

lemma has_prefix_iff: "has_prefix s p \<longleftrightarrow> (\<exists>r. s = p @ r)"
  unfolding has_prefix_def by (metis not_None_eq strip_prefix_Some_iff)

subsection \<open>Decimal numbers\<close>

text \<open>\<open>strconv.Itoa\<close> and the verb \<open>%d\<close>.\<close>

fun nat_digits :: "nat \<Rightarrow> gostring" where
  "nat_digits n =
    (if n < 10 then [char_of (48 + n)] else nat_digits (n div 10) @ [char_of (48 + n mod 10)])"

declare nat_digits.simps [simp del]

definition itoa :: "int \<Rightarrow> gostring" where
  "itoa i = (if i < 0 then CHR ''-'' # nat_digits (nat (- i)) else nat_digits (nat i))"

definition digits_value :: "gostring \<Rightarrow> nat" where
  "digits_value s = foldl (\<lambda>a c. a * 10 + (of_char c - 48)) 0 s"

lemma of_char_digit [simp]: "d < 10 \<Longrightarrow> (of_char (char_of (48 + d :: nat)) :: nat) = 48 + d"
  by (simp add: of_char_of)

lemma digits_value_nat_digits: "digits_value (nat_digits n) = n"
proof (induction n rule: nat_digits.induct)
  case (1 n)
  show ?case
  proof (cases "n < 10")
    case True
    then show ?thesis by (subst nat_digits.simps) (simp add: digits_value_def)
  next
    case False
    have "digits_value (nat_digits n) = digits_value (nat_digits (n div 10)) * 10 + n mod 10"
      using False by (subst nat_digits.simps) (simp add: digits_value_def)
    also have "\<dots> = n div 10 * 10 + n mod 10" using "1.IH" [OF False] by simp
    finally show ?thesis by simp
  qed
qed

lemma nat_digits_are_digits: "\<forall>c\<in>set (nat_digits n). 48 \<le> (of_char c :: nat) \<and> (of_char c :: nat) < 58"
proof (induction n rule: nat_digits.induct)
  case (1 n)
  show ?case
  proof (cases "n < 10")
    case True
    then show ?thesis by (subst nat_digits.simps) simp
  next
    case False
    with "1.IH" have "\<forall>c\<in>set (nat_digits (n div 10)). 48 \<le> (of_char c :: nat) \<and> (of_char c :: nat) < 58"
      by simp
    moreover have "(of_char (char_of (48 + n mod 10) :: char) :: nat) = 48 + n mod 10"
      by (rule of_char_digit) simp
    ultimately show ?thesis using False by (subst nat_digits.simps) auto
  qed
qed

lemma nat_digits_inj: "nat_digits m = nat_digits n \<Longrightarrow> m = n"
  by (metis digits_value_nat_digits)

lemma itoa_inj: "itoa i = itoa j \<Longrightarrow> i = j"
proof -
  have dash: "CHR ''-'' \<notin> set (nat_digits n)" for n
    using nat_digits_are_digits [of n] by (auto simp: of_char_def)
  have no: "CHR ''-'' # nat_digits m \<noteq> nat_digits n" for m n
    using dash [of n] by (metis list.set_intros(1))
  show "itoa i = itoa j \<Longrightarrow> i = j"
    using no no [symmetric] by (auto simp: itoa_def dest!: nat_digits_inj split: if_splits)
qed

lemma digit_colon: "CHR '':'' \<notin> set (nat_digits n)"
  using nat_digits_are_digits [of n] by (auto simp: of_char_def)

lemma nat_digits_colon_split:
  assumes "nat_digits m @ CHR '':'' # r = nat_digits n @ CHR '':'' # s"
  shows "m = n \<and> r = s"
proof -
  have *: "takeWhile (\<lambda>c. c \<noteq> CHR '':'') (nat_digits k @ CHR '':'' # t) = nat_digits k" for k t
    using digit_colon [of k] by (subst takeWhile_append2) auto
  from * [of m r] * [of n s] assms have "nat_digits m = nat_digits n" by simp
  with assms show ?thesis using nat_digits_inj by auto
qed

section \<open>Instants and durations\<close>

text \<open>
  A \<open>time.Time\<close> is its number of nanoseconds since the zero instant (year 1, UTC), so
  \<open>IsZero\<close> is equality with 0 and \<open>Before\<close>, \<open>After\<close> and \<open>Equal\<close>
  are the integer comparisons. A \<open>time.Duration\<close> is a signed 64-bit integer; \<open>Sub\<close>
  saturates at its ends, and negation wraps.
\<close>

type_synonym time = int

type_synonym duration = "64 word"

definition time_zero :: time where
  "time_zero = 0"

definition time_sub :: "time \<Rightarrow> time \<Rightarrow> duration" where
  "time_sub t u = word_of_int (max (- (2 ^ 63)) (min (2 ^ 63 - 1) (t - u)))"

definition seconds :: "int \<Rightarrow> duration" where
  "seconds n = word_of_int (n * 1000000000)"

lemma sint_of_int_64: "- (2 ^ 63) \<le> x \<Longrightarrow> x < 2 ^ 63 \<Longrightarrow> sint (word_of_int x :: 64 word) = x"
  by (subst sint_sbintrunc', subst signed_take_bit_int_eq_self) simp_all

lemma sint_time_sub: "sint (time_sub t u) = max (- (2 ^ 63)) (min (2 ^ 63 - 1) (t - u))"
  unfolding time_sub_def by (rule sint_of_int_64) simp_all

section \<open>64-bit integers\<close>

text \<open>An \<open>int64\<close> as an integer: sums and differences wrap.\<close>

definition wrap64 :: "int \<Rightarrow> int" where
  "wrap64 i = (i + 2 ^ 63) mod 2 ^ 64 - 2 ^ 63"

lemma wrap64_add_wrap [simp]: "wrap64 (wrap64 a + b) = wrap64 (a + b)"
proof -
  have "((a + 2 ^ 63) mod 2 ^ 64 - 2 ^ 63 + b + 2 ^ 63) mod 2 ^ 64 = (a + b + 2 ^ 63) mod (2 ^ 64 :: int)"
    by (simp add: mod_simps algebra_simps)
  then show ?thesis by (simp add: wrap64_def)
qed

lemma wrap64_zero [simp]: "wrap64 0 = 0"
  by (simp add: wrap64_def)

lemma wrap64_bounds: "- (2 ^ 63) \<le> wrap64 i \<and> wrap64 i < 2 ^ 63"
  by (simp add: wrap64_def)

lemma wrap64_small: "- (2 ^ 63) \<le> i \<Longrightarrow> i < 2 ^ 63 \<Longrightarrow> wrap64 i = i"
  by (simp add: wrap64_def)

lemma wrap64_idem [simp]: "wrap64 (wrap64 a) = wrap64 a"
  using wrap64_add_wrap [of a 0] by simp

section \<open>Contexts\<close>

text \<open>
  A \<open>context.Context\<close>, as far as the analysis sees it: it is polled, and from some poll on it
  reports that it is done. A context that is never done is \<open>Live\<close>; \<open>DoneAfter n e\<close> answers
  the next \<open>n\<close> polls with nil and every later one with the error \<open>e\<close>. Every sequence of
  answers a run can see is one of these, since a done context stays done.
\<close>

datatype ctx_error = Canceled | DeadlineExceeded

datatype ctx = Live | DoneAfter nat ctx_error

fun ctx_poll :: "ctx \<Rightarrow> ctx_error option \<times> ctx" where
  "ctx_poll Live = (None, Live)"
| "ctx_poll (DoneAfter 0 e) = (Some e, DoneAfter 0 e)"
| "ctx_poll (DoneAfter (Suc n) e) = (None, DoneAfter n e)"

lemma ctx_poll_done: "ctx_poll c = (Some e, c') \<Longrightarrow> c = DoneAfter 0 e \<and> c' = c"
  by (cases c rule: ctx_poll.cases) auto

section \<open>Maps of slices\<close>

text \<open>
  \<open>m[k] = append(m[k], v)\<close> on a \<open>map[string][]T\<close>: an association list in the order in which
  keys appear. \<open>map_get\<close> is Go's lookup, with the nil slice for a missing key.
\<close>

fun map_append :: "('k \<times> 'v list) list \<Rightarrow> 'k \<Rightarrow> 'v \<Rightarrow> ('k \<times> 'v list) list" where
  "map_append [] k v = [(k, [v])]"
| "map_append ((k', vs) # m) k v =
    (if k' = k then (k', vs @ [v]) # m else (k', vs) # map_append m k v)"

definition group_by :: "('v \<Rightarrow> 'k) \<Rightarrow> 'v list \<Rightarrow> ('k \<times> 'v list) list" where
  "group_by f xs = foldl (\<lambda>m x. map_append m (f x) x) [] xs"

definition map_get :: "('k \<times> 'v list) list \<Rightarrow> 'k \<Rightarrow> 'v list" where
  "map_get m k = (case map_of m k of None \<Rightarrow> [] | Some vs \<Rightarrow> vs)"

definition group_pairs :: "('k \<times> 'v) list \<Rightarrow> ('k \<times> 'v list) list" where
  "group_pairs ps = foldl (\<lambda>m (k, v). map_append m k v) [] ps"

text \<open>\<open>sortedKeys\<close>: the keys of a map in ascending order.\<close>

definition sortedKeys :: "('k::linorder \<times> 'v) list \<Rightarrow> 'k list" where
  "sortedKeys m = sort (map fst m)"

lemma keys_map_append: "fst ` set (map_append m k v) = insert k (fst ` set m)"
  by (induction m k v rule: map_append.induct) auto

lemma distinct_map_append: "distinct (map fst m) \<Longrightarrow> distinct (map fst (map_append m k v))"
proof (induction m k v rule: map_append.induct)
  case (2 k' vs m k v)
  then show ?case using keys_map_append [of m k v] by auto
qed simp

lemma map_get_map_append:
  "map_get (map_append m k v) k' = (if k' = k then map_get m k @ [v] else map_get m k')"
  by (induction m k v rule: map_append.induct) (auto simp: map_get_def)

lemma group_by_snoc: "group_by f (xs @ [x]) = map_append (group_by f xs) (f x) x"
  by (simp add: group_by_def)

lemma keys_group_by [simp]: "fst ` set (group_by f xs) = f ` set xs"
  by (induction xs rule: rev_induct) (simp_all add: group_by_snoc keys_map_append, simp add: group_by_def)

lemma distinct_group_by [simp]: "distinct (map fst (group_by f xs))"
proof (induction xs rule: rev_induct)
  case Nil
  show ?case by (simp add: group_by_def)
next
  case (snoc x xs)
  then show ?case by (simp add: group_by_snoc distinct_map_append)
qed

lemma map_get_group_by [simp]: "map_get (group_by f xs) k = filter (\<lambda>x. f x = k) xs"
proof (induction xs rule: rev_induct)
  case Nil
  show ?case by (simp add: group_by_def map_get_def)
next
  case (snoc x xs)
  then show ?case by (auto simp: group_by_snoc map_get_map_append)
qed

lemma group_pairs_snoc: "group_pairs (ps @ [(k, v)]) = map_append (group_pairs ps) k v"
  by (simp add: group_pairs_def)

lemma group_pairs_props:
  "fst ` set (group_pairs ps) = fst ` set ps"
  "distinct (map fst (group_pairs ps))"
  "map_get (group_pairs ps) k = map snd (filter (\<lambda>p. fst p = k) ps)"
proof (induction ps rule: rev_induct)
  case Nil
  {
    case 1
    show ?case by (simp add: group_pairs_def)
  next
    case 2
    show ?case by (simp add: group_pairs_def)
  next
    case 3
    show ?case by (simp add: group_pairs_def map_get_def)
  }
next
  case (snoc p ps)
  obtain k' v where p: "p = (k', v)" by (cases p)
  {
    case 1
    show ?case using snoc.IH(1) by (simp add: p group_pairs_snoc keys_map_append)
  next
    case 2
    show ?case using snoc.IH(2) by (simp add: p group_pairs_snoc distinct_map_append)
  next
    case 3
    show ?case using snoc.IH(3) by (auto simp: p group_pairs_snoc map_get_map_append)
  }
qed

lemma map_get_member: "distinct (map fst m) \<Longrightarrow> (k, vs) \<in> set m \<Longrightarrow> map_get m k = vs"
  by (simp add: map_get_def)

lemma group_pairs_member:
  "(k, vs) \<in> set (group_pairs ps) \<Longrightarrow> vs = map snd (filter (\<lambda>p. fst p = k) ps)"
  using map_get_member [OF group_pairs_props(2)] group_pairs_props(3) by metis

lemma group_by_member: "(k, vs) \<in> set (group_by f xs) \<Longrightarrow> vs = filter (\<lambda>x. f x = k) xs"
  using map_get_member [OF distinct_group_by] map_get_group_by by metis

lemma set_sortedKeys [simp]: "set (sortedKeys m) = fst ` set m"
  by (simp add: sortedKeys_def)

lemma sorted_sortedKeys [order_facts]: "sorted (sortedKeys m)"
  by (simp add: sortedKeys_def)

lemma distinct_sortedKeys: "distinct (map fst m) \<Longrightarrow> distinct (sortedKeys m)"
  by (simp add: sortedKeys_def)

section \<open>Compaction\<close>

text \<open>
  \<open>compactStrings\<close> and \<open>compactComparable\<close>: one pass that keeps an element when it
  differs from the last one kept.
\<close>

definition compact_step :: "'a list \<Rightarrow> 'a \<Rightarrow> 'a list" where
  "compact_step result v = (if v \<noteq> last result then result @ [v] else result)"

definition compactComparable :: "'a list \<Rightarrow> 'a list" where
  "compactComparable values =
    (case values of [] \<Rightarrow> [] | v # vs \<Rightarrow> if length values < 2 then values else foldl compact_step [v] vs)"

lemma compact_fold: "ys \<noteq> [] \<Longrightarrow> foldl compact_step ys vs = butlast ys @ remdups_adj (last ys # vs)"
proof (induction vs arbitrary: ys)
  case Nil
  then show ?case by simp
next
  case (Cons v vs)
  show ?case
  proof (cases "v = last ys")
    case True
    with Cons show ?thesis by (simp add: compact_step_def)
  next
    case False
    then have "foldl compact_step ys (v # vs) = foldl compact_step (ys @ [v]) vs"
      by (simp add: compact_step_def)
    also have "\<dots> = ys @ remdups_adj (v # vs)" by (subst Cons.IH) simp_all
    also have "\<dots> = butlast ys @ last ys # remdups_adj (v # vs)"
      using Cons.prems by (metis append.assoc append_Cons append_Nil append_butlast_last_id)
    finally show ?thesis using False by simp
  qed
qed

lemma compact_eq: "compactComparable xs = remdups_adj xs"
proof (cases xs)
  case (Cons v vs)
  then show ?thesis by (cases vs) (simp_all add: compactComparable_def compact_fold)
qed (simp add: compactComparable_def)

lemma set_compact [simp]: "set (compactComparable xs) = set xs"
  by (simp add: compact_eq)

lemma sorted_distinct_compact: "sorted xs \<Longrightarrow> sorted (compactComparable xs) \<and> distinct (compactComparable xs)"
  unfolding compact_eq
  by (induction xs rule: remdups_adj.induct) (auto simp: less_le)

text \<open>\<open>sortedDistinct\<close>: sort a copy and compact it.\<close>

definition sortedDistinct :: "'a::linorder list \<Rightarrow> 'a list" where
  "sortedDistinct values = compactComparable (sort values)"

lemma sortedDistinct_props [simp]:
  "set (sortedDistinct xs) = set xs" "sorted (sortedDistinct xs)" "distinct (sortedDistinct xs)"
  using sorted_distinct_compact [of "sort xs"] by (simp_all add: sortedDistinct_def)

text \<open>Two sorted duplicate-free lists with the same elements are equal.\<close>

lemma sortedDistinct_set_eq: "set xs = set ys \<Longrightarrow> sortedDistinct xs = sortedDistinct ys"
  by (rule sorted_distinct_set_unique) simp_all

section \<open>Fields\<close>

text \<open>
  \<open>strings.Fields\<close>: the maximal runs of bytes between white space. An encoding of a white space
  rune begins with a byte that no rune continues with, so scanning bytes finds the runes.
\<close>

abbreviation flush :: "gostring \<Rightarrow> gostring list" where
  "flush cur \<equiv> (if cur = [] then [] else [cur])"

lemma strip_space_shorter: "strip_any space_encodings s = Some r \<Longrightarrow> length r < length s"
  using strip_any_Some [of space_encodings s r] space_encodings_nonempty by fastforce

function fields_from :: "gostring \<Rightarrow> gostring \<Rightarrow> gostring list" where
  "fields_from cur [] = flush cur"
| "fields_from cur (c # s) =
    (case strip_any space_encodings (c # s) of
       Some r \<Rightarrow> flush cur @ fields_from [] r
     | None \<Rightarrow> fields_from (cur @ [c]) s)"
  by pat_completeness auto

termination
  by (relation "measure (\<lambda>(cur, s). length s)") (auto dest: strip_space_shorter)

definition string_fields :: "gostring \<Rightarrow> gostring list" where
  "string_fields s = fields_from [] s"

section \<open>UTF-8\<close>

text \<open>\<open>utf8.ValidString\<close>, by the ranges of the leading and continuation bytes.\<close>

abbreviation byte :: "char \<Rightarrow> int" where "byte c \<equiv> of_char c"

definition in_range :: "int \<Rightarrow> int \<Rightarrow> char \<Rightarrow> bool" where
  "in_range lo hi c \<longleftrightarrow> lo \<le> byte c \<and> byte c \<le> hi"

abbreviation continuation :: "char \<Rightarrow> bool" where "continuation \<equiv> in_range 0x80 0xBF"

fun utf8_valid :: "gostring \<Rightarrow> bool" where
  "utf8_valid [] = True"
| "utf8_valid (c # s) =
    (if byte c < 0x80 then utf8_valid s
     else if in_range 0xC2 0xDF c then
       (case s of d # t \<Rightarrow> continuation d \<and> utf8_valid t | _ \<Rightarrow> False)
     else if in_range 0xE0 0xEF c then
       (case s of
          d # e # t \<Rightarrow>
            (if c = CHR 0xE0 then in_range 0xA0 0xBF d
             else if c = CHR 0xED then in_range 0x80 0x9F d else continuation d) \<and>
            continuation e \<and> utf8_valid t
        | _ \<Rightarrow> False)
     else if in_range 0xF0 0xF4 c then
       (case s of
          d # e # f # t \<Rightarrow>
            (if c = CHR 0xF0 then in_range 0x90 0xBF d
             else if c = CHR 0xF4 then in_range 0x80 0x8F d else continuation d) \<and>
            continuation e \<and> continuation f \<and> utf8_valid t
        | _ \<Rightarrow> False)
     else False)"

section \<open>State machines\<close>

text \<open>
  A step relation with an invariant: every state that steps lead to from a state with the
  invariant has it.
\<close>

locale state_machine =
  fixes step :: "'s \<Rightarrow> 's \<Rightarrow> bool" and inv :: "'s \<Rightarrow> bool"
  assumes preserved: "step s t \<Longrightarrow> inv s \<Longrightarrow> inv t"
begin

lemma reachable: "step\<^sup>*\<^sup>* s t \<Longrightarrow> inv s \<Longrightarrow> inv t"
  by (induction rule: rtranclp_induct) (simp_all add: preserved)

end

section \<open>Searches over indexes\<close>

lemma find_upt_Some:
  "find P [m..<n] = Some k \<longleftrightarrow> m \<le> k \<and> k < n \<and> P k \<and> (\<forall>j. m \<le> j \<longrightarrow> j < k \<longrightarrow> \<not> P j)"
proof (induction "n - m" arbitrary: m)
  case (Suc d)
  then have "[m..<n] = m # [Suc m..<n]" by (simp add: upt_conv_Cons)
  moreover from Suc(2) have "d = n - Suc m" by simp
  note IH = Suc(1) [OF this]
  moreover have "(\<forall>j. m \<le> j \<longrightarrow> j < k \<longrightarrow> \<not> P j) \<longleftrightarrow>
      (m < k \<longrightarrow> \<not> P m) \<and> (\<forall>j. Suc m \<le> j \<longrightarrow> j < k \<longrightarrow> \<not> P j)"
    by (metis Suc_leD Suc_leI le_neq_implies_less le_refl)
  ultimately show ?case using Suc(2) by (cases "k = m"; cases "P m") (auto simp: Suc_le_eq)
qed auto

lemma find_upt_None: "find P [m..<n] = None \<longleftrightarrow> (\<forall>j. m \<le> j \<longrightarrow> j < n \<longrightarrow> \<not> P j)"
  by (auto simp: find_None_iff)

lemma find_rev_upt_Some:
  "find P (rev [m..<n]) = Some k \<longleftrightarrow> m \<le> k \<and> k < n \<and> P k \<and> (\<forall>j. k < j \<longrightarrow> j < n \<longrightarrow> \<not> P j)"
proof (induction n)
  case (Suc n)
  show ?case
  proof (cases "m \<le> n")
    case True
    then have "find P (rev [m..<Suc n]) = (if P n then Some n else find P (rev [m..<n]))" by simp
    then show ?thesis using Suc True by (auto simp: less_Suc_eq)
  qed auto
qed simp

lemma find_rev_upt_None: "find P (rev [m..<n]) = None \<longleftrightarrow> (\<forall>j. m \<le> j \<longrightarrow> j < n \<longrightarrow> \<not> P j)"
  by (auto simp: find_None_iff)

lemma set_map_filter: "set (List.map_filter f xs) = {y. \<exists>x\<in>set xs. f x = Some y}"
  by (force simp: List.map_filter_def)

lemma in_set_map_filter: "y \<in> set (List.map_filter f xs) \<longleftrightarrow> (\<exists>x\<in>set xs. f x = Some y)"
  by (simp add: set_map_filter)

end
