(* ===== verification/Event_Model.thy ===== *)
theory Event_Model
  imports Text_Runes
begin

text \<open>
  The canonical event (\<open>internal/canonical/model/event.go\<close>): one record per Go struct, one
  field per struct field under a prefix that names the struct. A pointer field is an option.
\<close>

record Source =
  src_Engine :: gostring
  src_EngineVersion :: gostring
  src_SchemaVersion :: gostring
  src_RecordType :: gostring
  src_RunID :: gostring
  src_RecordID :: gostring
  src_Kind :: gostring
  src_Agent :: gostring
  src_AdapterVersion :: gostring
  src_DeduplicationKey :: gostring
  src_Sequence :: int

record SessionRef =
  ses_Key :: gostring

record Resource =
  res_Kind :: gostring
  res_Name :: gostring

record Details =
  dtl_ToolCallID :: gostring
  dtl_Decision :: gostring
  dtl_ApprovalRequired :: "bool option"
  dtl_ApprovalDecision :: gostring
  dtl_MCPServer :: gostring
  dtl_MCPTool :: gostring
  dtl_Model :: gostring
  dtl_ModelProvider :: gostring
  dtl_CLIVersion :: gostring
  dtl_SubAgent :: gostring
  dtl_DiffSHA256 :: gostring
  dtl_DiffBytes :: int
  dtl_Tags :: "gostring list"

record Observation =
  obs_Type :: gostring
  obs_Actor :: gostring
  obs_Action :: gostring
  obs_Outcome :: gostring
  obs_ExitCode :: "int option"
  obs_DurationMS :: "int option"
  obs_Summary :: gostring
  obs_Resource :: "Resource option"
  obs_Details :: "Details option"

record Coverage =
  cov_Depth :: gostring
  cov_Confidence :: gostring

record Redaction =
  red_PolicyVersion :: gostring
  red_FieldsRemoved :: int
  red_SecretsRemoved :: int

record Historical =
  his_IsHistorical :: bool
  his_ReconstructionSource :: gostring

record Event =
  ev_SchemaVersion :: gostring
  ev_EventID :: gostring
  ev_InstallationID :: gostring
  ev_OccurredAt :: time
  ev_ObservedAt :: time
  ev_Source :: Source
  ev_Session :: SessionRef
  ev_Observation :: Observation
  ev_Coverage :: Coverage
  ev_Redaction :: Redaction
  ev_Historical :: Historical

text \<open>
  The zero values of the structs, from which concrete events are built by record update.
\<close>

definition zero_source :: Source where
  "zero_source = \<lparr>src_Engine = [], src_EngineVersion = [], src_SchemaVersion = [],
     src_RecordType = [], src_RunID = [], src_RecordID = [], src_Kind = [], src_Agent = [],
     src_AdapterVersion = [], src_DeduplicationKey = [], src_Sequence = 0\<rparr>"

definition zero_details :: Details where
  "zero_details = \<lparr>dtl_ToolCallID = [], dtl_Decision = [], dtl_ApprovalRequired = None,
     dtl_ApprovalDecision = [], dtl_MCPServer = [], dtl_MCPTool = [], dtl_Model = [],
     dtl_ModelProvider = [], dtl_CLIVersion = [], dtl_SubAgent = [], dtl_DiffSHA256 = [],
     dtl_DiffBytes = 0, dtl_Tags = []\<rparr>"

definition zero_observation :: Observation where
  "zero_observation = \<lparr>obs_Type = [], obs_Actor = [], obs_Action = [], obs_Outcome = [],
     obs_ExitCode = None, obs_DurationMS = None, obs_Summary = [], obs_Resource = None,
     obs_Details = None\<rparr>"

definition zero_event :: Event where
  "zero_event = \<lparr>ev_SchemaVersion = [], ev_EventID = [], ev_InstallationID = [],
     ev_OccurredAt = time_zero, ev_ObservedAt = time_zero, ev_Source = zero_source,
     ev_Session = \<lparr>ses_Key = []\<rparr>, ev_Observation = zero_observation,
     ev_Coverage = \<lparr>cov_Depth = [], cov_Confidence = []\<rparr>,
     ev_Redaction = \<lparr>red_PolicyVersion = [], red_FieldsRemoved = 0, red_SecretsRemoved = 0\<rparr>,
     ev_Historical = \<lparr>his_IsHistorical = False, his_ReconstructionSource = []\<rparr>\<rparr>"

lemmas zero_defs = zero_source_def zero_details_def zero_observation_def zero_event_def time_zero_def

text \<open>The parts of an event the detectors read.\<close>

abbreviation ev_Type :: "Event \<Rightarrow> gostring" where
  "ev_Type e \<equiv> obs_Type (ev_Observation e)"

abbreviation ev_Kind :: "Event \<Rightarrow> gostring" where
  "ev_Kind e \<equiv> src_Kind (ev_Source e)"

abbreviation ev_Depth :: "Event \<Rightarrow> gostring" where
  "ev_Depth e \<equiv> cov_Depth (ev_Coverage e)"

text \<open>\<open>internal/canonical/model/issue.go\<close>: the four qualities of a project scope.\<close>

datatype ScopeQuality = ScopeResolved | ScopeLexical | ScopeUnscoped | ScopeConflict

fun scope_quality_text :: "ScopeQuality \<Rightarrow> gostring" where
  "scope_quality_text ScopeResolved = ''resolved''"
| "scope_quality_text ScopeLexical = ''lexical''"
| "scope_quality_text ScopeUnscoped = ''unscoped''"
| "scope_quality_text ScopeConflict = ''conflict''"

text \<open>
  \<open>IsSafeSourceSignalCode\<close>, and the component pattern of the tool identities: the regular
  expression \<open>^[a-z0-9][a-z0-9_.-]{0,63}$\<close> on bytes.
\<close>

definition is_lower_alnum :: "char \<Rightarrow> bool" where
  "is_lower_alnum c = (let n = (of_char c :: nat) in (97 \<le> n \<and> n \<le> 122) \<or> (48 \<le> n \<and> n \<le> 57))"

definition is_code_char :: "char \<Rightarrow> bool" where
  "is_code_char c = (is_lower_alnum c \<or> c = CHR ''_'' \<or> c = CHR ''.'' \<or> c = CHR ''-'')"

fun IsSafeSourceSignalCode :: "gostring \<Rightarrow> bool" where
  "IsSafeSourceSignalCode [] = False"
| "IsSafeSourceSignalCode (c # cs) = (is_lower_alnum c \<and> list_all is_code_char cs \<and> length cs \<le> 63)"

definition SafeSourceSignalCode :: "gostring \<Rightarrow> gostring option" where
  "SafeSourceSignalCode value = (if \<not> IsSafeSourceSignalCode value then None else Some value)"

lemma IsSafeSourceSignalCode_bounds:
  "IsSafeSourceSignalCode s \<Longrightarrow> 1 \<le> length s \<and> length s \<le> 64 \<and> (\<forall>c\<in>set s. is_code_char c)"
  by (cases s) (auto simp: is_code_char_def list_all_iff)

end
