(* ===== verification/Detect_Types.thy ===== *)
theory Detect_Types
  imports Event_Model
begin

text \<open>
  The data of the deterministic detectors (\<open>internal/detection/types.go\<close>): limits, the
  session handed to the catalog, enrichments, matches, results and the catalog's entries.
  A typed string constant whose values the package fixes is a datatype; a severity or a
  confidence stays a string, because the catalog checks the strings of detectors it does not own.
\<close>

section \<open>Limits\<close>

definition MaxSessionEvents :: nat where "MaxSessionEvents = 10000"

definition MaxMatches :: nat where "MaxMatches = 100"

definition MaxCitations :: nat where "MaxCitations = 50"

abbreviation CatalogVersion :: gostring where "CatalogVersion \<equiv> ''belay.detectors.v1''"

section \<open>Enumerations\<close>

datatype AnalysisStatus = StatusCurrent | StatusFailed | StatusTruncated

abbreviation ConfidenceLow :: gostring where "ConfidenceLow \<equiv> ''low''"
abbreviation ConfidenceMedium :: gostring where "ConfidenceMedium \<equiv> ''medium''"
abbreviation ConfidenceHigh :: gostring where "ConfidenceHigh \<equiv> ''high''"

abbreviation SeverityInfo :: gostring where "SeverityInfo \<equiv> ''info''"
abbreviation SeverityLow :: gostring where "SeverityLow \<equiv> ''low''"
abbreviation SeverityMedium :: gostring where "SeverityMedium \<equiv> ''medium''"
abbreviation SeverityHigh :: gostring where "SeverityHigh \<equiv> ''high''"

abbreviation CommandClassTest :: gostring where "CommandClassTest \<equiv> ''test''"
abbreviation CommandClassBuild :: gostring where "CommandClassBuild \<equiv> ''build''"
abbreviation CommandClassTypecheck :: gostring where "CommandClassTypecheck \<equiv> ''typecheck''"
abbreviation CommandClassLint :: gostring where "CommandClassLint \<equiv> ''lint''"
abbreviation CommandClassFormatCheck :: gostring where "CommandClassFormatCheck \<equiv> ''format_check''"
abbreviation CommandClassOther :: gostring where "CommandClassOther \<equiv> ''other''"
abbreviation CommandClassUnknown :: gostring where "CommandClassUnknown \<equiv> ''unknown''"

text \<open>
  A detector supplied by a caller may return any string as its capability; every string other
  than the three constants is \<open>AbsenceOther\<close>.
\<close>

datatype AbsenceCapability =
  AbsenceSupported | AbsenceNotApplicable | AbsenceIncomplete | AbsenceOther gostring

section \<open>Session input\<close>

record EventEnrichment =
  enr_CommandSignatureID :: gostring
  enr_CommandClass :: gostring
  enr_PermissionClass :: gostring
  enr_Version :: gostring

definition zero_enrichment :: EventEnrichment where
  "zero_enrichment = \<lparr>enr_CommandSignatureID = [], enr_CommandClass = [],
     enr_PermissionClass = [], enr_Version = []\<rparr>"

record SessionInput =
  in_SessionID :: gostring
  in_ProjectScope :: gostring
  in_ScopeQuality :: gostring
  in_Events :: "Event list"
  in_Enrichments :: "gostring \<rightharpoonup> EventEnrichment"

text \<open>Go's lookup in \<open>input.Enrichments\<close>: the zero enrichment for a missing event.\<close>

definition enrichment_of :: "(gostring \<rightharpoonup> EventEnrichment) \<Rightarrow> gostring \<Rightarrow> EventEnrichment" where
  "enrichment_of m k = (case m k of None \<Rightarrow> zero_enrichment | Some e \<Rightarrow> e)"

section \<open>Matches and results\<close>

record FingerprintDimension =
  dim_Name :: gostring
  dim_Value :: gostring

record Match =
  mt_DetectorID :: gostring
  mt_DetectorVersion :: gostring
  mt_FingerprintVersion :: gostring
  mt_Category :: gostring
  mt_TitleCode :: gostring
  mt_SuggestedActionType :: gostring
  mt_Severity :: gostring
  mt_Confidence :: gostring
  mt_Experimental :: bool
  mt_FirstObservedAt :: time
  mt_LastObservedAt :: time
  mt_CitedEventIDs :: "gostring list"
  mt_EvidenceComplete :: bool
  mt_Fingerprint :: "FingerprintDimension list"

record DetectorResult =
  dr_Matches :: "Match list"
  dr_AbsenceCapability :: AbsenceCapability
  dr_UnavailableReason :: gostring

record DetectorFailure =
  df_DetectorID :: gostring
  df_Code :: gostring

record DetectorApplicability =
  da_DetectorID :: gostring
  da_DetectorVersion :: gostring
  da_FingerprintVersion :: gostring
  da_AbsenceCapability :: AbsenceCapability
  da_UnavailableReason :: gostring

record CatalogResult =
  cr_CatalogVersion :: gostring
  cr_Status :: AnalysisStatus
  cr_Matches :: "Match list"
  cr_Failures :: "DetectorFailure list"
  cr_Applicability :: "DetectorApplicability list"

record CatalogEntry =
  ent_DetectorID :: gostring
  ent_DetectorVersion :: gostring
  ent_FingerprintVersion :: gostring
  ent_Category :: gostring
  ent_TitleCode :: gostring
  ent_SuggestedActionType :: gostring
  ent_Experimental :: bool

text \<open>
  The order of fingerprint dimensions, by name and then by value: an instance of the library's
  linear orders, so that \<open>sort\<close> is the code's \<open>sort.Slice\<close> over them. The pair of name
  and value determines a dimension, so the instability of \<open>sort.Slice\<close> is invisible.
\<close>

abbreviation dim_key :: "FingerprintDimension \<Rightarrow> gostring \<times> gostring" where
  "dim_key d \<equiv> (dim_Name d, dim_Value d)"

lemma dim_key_inj: "dim_key a = dim_key b \<Longrightarrow> a = (b :: FingerprintDimension)"
  by simp

definition sortDimensions :: "FingerprintDimension list \<Rightarrow> FingerprintDimension list" where
  "sortDimensions ds = sort_key dim_key ds"

lemma sortDimensions_props [simp]:
  "set (sortDimensions ds) = set ds" "mset (sortDimensions ds) = mset ds"
  "sorted (map dim_key (sortDimensions ds))" "length (sortDimensions ds) = length ds"
  by (simp_all add: sortDimensions_def)

end
