(* ===== verification/Detect_Prepare.thy ===== *)
theory Detect_Prepare
  imports Detect_Types
begin

text \<open>
  Prepared events and the helpers every detector shares (\<open>internal/detection/prepare.go\<close> and
  the tool identities of \<open>internal/detection/detectors.go\<close>): the order of a session's events,
  cancellation checks, time bounds, fingerprint dimensions and bounded citations.
  \<open>prepareSession\<close> itself, which calls the coalescer, is in \<open>Detect_Session\<close>.
\<close>

section \<open>Prepared events and sessions\<close>

record PreparedEvent =
  pe_event :: Event
  pe_enrichment :: EventEnrichment
  pe_evidenceIDs :: "gostring list"
  pe_historical :: bool
  pe_live :: bool

record PreparedSession =
  ps_sessionID :: gostring
  ps_projectScope :: gostring
  ps_scopeQuality :: gostring
  ps_events :: "PreparedEvent list"

abbreviation pe_Type :: "PreparedEvent \<Rightarrow> gostring" where
  "pe_Type item \<equiv> ev_Type (pe_event item)"

abbreviation pe_At :: "PreparedEvent \<Rightarrow> time" where
  "pe_At item \<equiv> ev_OccurredAt (pe_event item)"

abbreviation pe_Signature :: "PreparedEvent \<Rightarrow> gostring" where
  "pe_Signature item \<equiv> enr_CommandSignatureID (pe_enrichment item)"

text \<open>
  \<open>sortPreparedEvents\<close>: a stable sort by source sequence, then time, then event identifier.
\<close>

definition event_key :: "PreparedEvent \<Rightarrow> int \<times> time \<times> gostring" where
  "event_key item =
    (src_Sequence (ev_Source (pe_event item)), pe_At item, ev_EventID (pe_event item))"

definition sortPreparedEvents :: "PreparedEvent list \<Rightarrow> PreparedEvent list" where
  "sortPreparedEvents events = sort_key event_key events"

lemma sortPreparedEvents_props [simp]:
  "set (sortPreparedEvents es) = set es" "mset (sortPreparedEvents es) = mset es"
  "length (sortPreparedEvents es) = length es" "sorted (map event_key (sortPreparedEvents es))"
  by (simp_all add: sortPreparedEvents_def)

text \<open>
  \<open>publicInput\<close>: the session handed to a detector the package does not own.
\<close>

definition publicInput :: "PreparedSession \<Rightarrow> SessionInput" where
  "publicInput session =
    \<lparr>in_SessionID = ps_sessionID session, in_ProjectScope = ps_projectScope session,
     in_ScopeQuality = ps_scopeQuality session, in_Events = map pe_event (ps_events session),
     in_Enrichments = foldl (\<lambda>m item. m(ev_EventID (pe_event item) \<mapsto> pe_enrichment item))
                        Map.empty (ps_events session)\<rparr>"

section \<open>Cancellation\<close>

unbundle bit_operations_syntax

text \<open>
  \<open>contextCheck\<close> polls the context at every sixty-fourth index. \<open>contextLoop i n c\<close> makes the
  checks of a loop over the indexes \<open>i, ..., i + n - 1\<close> whose body neither polls nor returns.
\<close>

definition contextCheck :: "ctx \<Rightarrow> nat \<Rightarrow> ctx_error option \<times> ctx" where
  "contextCheck c index = (if index AND 63 \<noteq> 0 then (None, c) else ctx_poll c)"

fun contextLoop :: "nat \<Rightarrow> nat \<Rightarrow> ctx \<Rightarrow> ctx_error option \<times> ctx" where
  "contextLoop i 0 c = (None, c)"
| "contextLoop i (Suc n) c =
    (case contextCheck c i of
       (Some e, c') \<Rightarrow> (Some e, c')
     | (None, c') \<Rightarrow> contextLoop (Suc i) n c')"

lemma contextCheck_mod: "contextCheck c i = (if i mod 64 \<noteq> 0 then (None, c) else ctx_poll c)"
proof -
  have "i AND 63 = i mod 64"
    using take_bit_eq_mask [of 6 i] take_bit_eq_mod [of 6 i] by (simp add: mask_eq_exp_minus_1)
  then show ?thesis by (simp add: contextCheck_def)
qed

lemma contextCheck_Live [simp]: "contextCheck Live i = (None, Live)"
  by (simp add: contextCheck_def)

lemma contextLoop_Live [simp]: "contextLoop i n Live = (None, Live)"
  by (induction n arbitrary: i) simp_all

lemma contextCheck_done: "contextCheck c i = (Some e, c') \<Longrightarrow> c = DoneAfter 0 e \<and> c' = c"
  by (auto simp: contextCheck_def dest: ctx_poll_done split: if_splits)

lemma contextLoop_done: "contextLoop i n c = (Some e, c') \<Longrightarrow> c' = DoneAfter 0 e"
proof (induction n arbitrary: i c)
  case (Suc n)
  obtain r c1 where "contextCheck c i = (r, c1)" by (cases "contextCheck c i")
  with Suc show ?case by (cases r) (auto dest: contextCheck_done)
qed simp

section \<open>Reading events\<close>

definition eventToolCallID :: "Event \<Rightarrow> gostring" where
  "eventToolCallID event =
    (case obs_Details (ev_Observation event) of
       None \<Rightarrow> []
     | Some details \<Rightarrow> trim_space (dtl_ToolCallID details))"

definition eventTimeBounds :: "PreparedEvent list \<Rightarrow> time \<times> time" where
  "eventTimeBounds events =
    (case events of
       [] \<Rightarrow> (time_zero, time_zero)
     | e # es \<Rightarrow>
         foldl (\<lambda>(first, last) item.
             ((if pe_At item < first then pe_At item else first),
              (if pe_At item > last then pe_At item else last)))
           (pe_At e, pe_At e) es)"

definition scopeDimensions :: "PreparedSession \<Rightarrow> FingerprintDimension list" where
  "scopeDimensions session =
    (if ps_projectScope session \<noteq> [] \<and> ps_scopeQuality session \<noteq> ''unscoped'' \<and>
        ps_scopeQuality session \<noteq> ''conflict''
     then [\<lparr>dim_Name = ''project_scope_id'', dim_Value = ps_projectScope session\<rparr>]
     else [\<lparr>dim_Name = ''session_id'', dim_Value = ps_sessionID session\<rparr>])"

definition dimensions :: "PreparedSession \<Rightarrow> FingerprintDimension list \<Rightarrow> FingerprintDimension list" where
  "dimensions session values = sortDimensions (scopeDimensions session @ values)"

lemma eventTimeBounds_bounds:
  assumes "item \<in> set events"
  shows "fst (eventTimeBounds events) \<le> pe_At item \<and> pe_At item \<le> snd (eventTimeBounds events)"
proof -
  let ?f = "\<lambda>(first, last) item.
      ((if pe_At item < first then pe_At item else first),
       (if pe_At item > last then pe_At item else last))"
  have grow: "fst (foldl ?f (a, b) es) \<le> a \<and> b \<le> snd (foldl ?f (a, b) es) \<and>
      (\<forall>x\<in>set es. fst (foldl ?f (a, b) es) \<le> pe_At x \<and> pe_At x \<le> snd (foldl ?f (a, b) es))"
    for a b es
  proof (induction es arbitrary: a b)
    case (Cons x es)
    let ?a = "if pe_At x < a then pe_At x else a" and ?b = "if pe_At x > b then pe_At x else b"
    have "?a \<le> a" "?a \<le> pe_At x" "b \<le> ?b" "pe_At x \<le> ?b" by auto
    with Cons.IH [of ?a ?b] show ?case by fastforce
  qed simp
  obtain e es where "events = e # es" using assms by (cases events) auto
  with assms grow [of "pe_At e" "pe_At e" es] show ?thesis by (auto simp: eventTimeBounds_def)
qed

section \<open>Citations\<close>

text \<open>
  \<open>citationIDs\<close>: the identifiers of the cited events in order, each once, at most
  \<open>MaxCitations\<close> of them, and whether all were kept. The loop's state is the set of
  identifiers seen, the result and the flag.
\<close>

fun citeID :: "gostring set \<times> gostring list \<times> bool \<Rightarrow> gostring \<Rightarrow> gostring set \<times> gostring list \<times> bool" where
  "citeID (seen, result, complete) eventID =
    (if eventID = [] then (seen, result, complete)
     else if eventID \<in> seen then (seen, result, complete)
     else if length result = MaxCitations then (insert eventID seen, result, False)
     else (insert eventID seen, result @ [eventID], complete))"

definition citationIDs :: "PreparedEvent list \<Rightarrow> gostring list \<times> bool" where
  "citationIDs events =
    (case foldl citeID ({}, [], True) (concat (map (\<lambda>item. sort (pe_evidenceIDs item)) events)) of
       (seen, result, complete) \<Rightarrow> (result, complete))"

text \<open>The reference: the distinct non-empty identifiers in the order of their first occurrence.\<close>

definition first_occurrences :: "'a list \<Rightarrow> 'a list" where
  "first_occurrences xs = rev (remdups (rev xs))"

definition cited_ids :: "PreparedEvent list \<Rightarrow> gostring list" where
  "cited_ids events =
    first_occurrences (filter (\<lambda>x. x \<noteq> []) (concat (map (\<lambda>item. sort (pe_evidenceIDs item)) events)))"

lemma first_occurrences_snoc:
  "first_occurrences (xs @ [x]) =
    (if x \<in> set xs then first_occurrences xs else first_occurrences xs @ [x])"
  by (simp add: first_occurrences_def)

lemma first_occurrences_props [simp]:
  "set (first_occurrences xs) = set xs" "distinct (first_occurrences xs)"
  by (simp_all add: first_occurrences_def)

lemma citeID_fold:
  "foldl citeID ({}, [], True) ids =
    (let u = first_occurrences (filter (\<lambda>x. x \<noteq> []) ids)
     in (set u, take MaxCitations u, length u \<le> MaxCitations))"
proof (induction ids rule: rev_induct)
  case Nil
  show ?case by (simp add: first_occurrences_def)
next
  case (snoc x ids)
  then show ?case
    by (auto simp: Let_def first_occurrences_snoc MaxCitations_def)
qed

lemma citationIDs_eq:
  "citationIDs events = (take MaxCitations (cited_ids events), length (cited_ids events) \<le> MaxCitations)"
  by (simp add: citationIDs_def citeID_fold Let_def cited_ids_def)

lemma set_cited_ids: "set (cited_ids events) = (\<Union>item\<in>set events. set (pe_evidenceIDs item)) - {[]}"
  by (auto simp: cited_ids_def)

lemma distinct_cited_ids [simp]: "distinct (cited_ids events)"
  by (simp add: cited_ids_def)

lemma citationIDs_subset: "set (fst (citationIDs events)) \<subseteq> set (cited_ids events)"
  by (simp add: citationIDs_eq set_take_subset)

section \<open>Command classes and tool identities\<close>

definition isVerificationClass :: "gostring \<Rightarrow> bool" where
  "isVerificationClass value \<longleftrightarrow>
    value \<in> {CommandClassTest, CommandClassBuild, CommandClassTypecheck, CommandClassLint,
      CommandClassFormatCheck}"

text \<open>\<open>normalizedCommandClass\<close> of \<open>attempts.go\<close>.\<close>

definition normalizedCommandClass :: "gostring \<Rightarrow> gostring" where
  "normalizedCommandClass value =
    (let v = to_lower (trim_space value) in
     if v = CommandClassTest then CommandClassTest
     else if v = CommandClassBuild then CommandClassBuild
     else if v = CommandClassTypecheck then CommandClassTypecheck
     else if v = CommandClassLint then CommandClassLint
     else if v = CommandClassFormatCheck then CommandClassFormatCheck
     else if v = CommandClassOther then CommandClassOther
     else CommandClassUnknown)"

text \<open>
  \<open>normalizeToolIdentityComponent\<close>: its pattern \<open>safeToolIdentityComponent\<close> is the
  pattern of the source signal codes.
\<close>

definition normalizeToolIdentityComponent :: "gostring \<Rightarrow> gostring \<times> bool" where
  "normalizeToolIdentityComponent value =
    (let v = to_lower (trim_space value) in (v, IsSafeSourceSignalCode v))"

definition mcpIdentity :: "gostring \<Rightarrow> gostring \<Rightarrow> gostring option" where
  "mcpIdentity s t =
    (let (server, serverOK) = normalizeToolIdentityComponent s;
         (tool, toolOK) = normalizeToolIdentityComponent t
     in if serverOK \<and> toolOK then Some (''mcp:'' @ server @ ''/'' @ tool) else None)"

definition resourceToolIdentity :: "Resource \<Rightarrow> gostring" where
  "resourceToolIdentity resource =
    (let kind = to_lower (trim_space (res_Kind resource)) in
     if kind = ''mcp'' then
       (case split_on (CHR ''/'') (res_Name resource) of
          [s, t] \<Rightarrow> (case mcpIdentity s t of Some i \<Rightarrow> i | None \<Rightarrow> [])
        | _ \<Rightarrow> [])
     else if kind = ''tool'' then
       (let (name, ok) = normalizeToolIdentityComponent (res_Name resource)
        in if ok then ''tool:'' @ name else [])
     else [])"

definition safeToolIdentity :: "Event \<Rightarrow> gostring" where
  "safeToolIdentity event =
    (let fromResource =
       (case obs_Resource (ev_Observation event) of
          None \<Rightarrow> []
        | Some resource \<Rightarrow> resourceToolIdentity resource)
     in case obs_Details (ev_Observation event) of
          None \<Rightarrow> fromResource
        | Some details \<Rightarrow>
            (case mcpIdentity (dtl_MCPServer details) (dtl_MCPTool details) of
               Some i \<Rightarrow> i
             | None \<Rightarrow> fromResource))"

text \<open>
  Every identity the function returns is bounded and made of the allowed characters, whatever the
  event holds: nothing else of the event reaches a fingerprint through it.
\<close>

definition safe_identity :: "gostring \<Rightarrow> bool" where
  "safe_identity i \<longleftrightarrow>
    (\<exists>n. i = ''tool:'' @ n \<and> IsSafeSourceSignalCode n) \<or>
    (\<exists>s t. i = ''mcp:'' @ s @ ''/'' @ t \<and> IsSafeSourceSignalCode s \<and> IsSafeSourceSignalCode t)"

lemma mcpIdentity_safe: "mcpIdentity s t = Some i \<Longrightarrow> safe_identity i"
  by (auto simp: mcpIdentity_def normalizeToolIdentityComponent_def safe_identity_def Let_def
      split: if_splits)

lemma resourceToolIdentity_safe: "resourceToolIdentity r \<noteq> [] \<Longrightarrow> safe_identity (resourceToolIdentity r)"
  by (auto simp: resourceToolIdentity_def normalizeToolIdentityComponent_def safe_identity_def Let_def
      mcpIdentity_def split: if_splits list.splits option.splits)

lemma safeToolIdentity_safe: "safeToolIdentity e \<noteq> [] \<Longrightarrow> safe_identity (safeToolIdentity e)"
  by (auto simp: safeToolIdentity_def Let_def resourceToolIdentity_safe dest: mcpIdentity_safe
      split: option.splits)

lemma safe_identity_length: "safe_identity i \<Longrightarrow> length i \<le> 133"
  by (auto simp: safe_identity_def dest!: IsSafeSourceSignalCode_bounds)

section \<open>Sample events\<close>

text \<open>Concrete events and items, at which the properties of the detectors are evaluated.\<close>

definition sample_event :: "gostring \<Rightarrow> int \<Rightarrow> time \<Rightarrow> gostring \<Rightarrow> gostring \<Rightarrow> Event" where
  "sample_event eventID seq at kind type =
    zero_event\<lparr>ev_EventID := eventID, ev_OccurredAt := at,
      ev_Source := zero_source\<lparr>src_Kind := kind, src_Agent := ''codex'', src_Sequence := seq\<rparr>,
      ev_Observation := zero_observation\<lparr>obs_Type := type\<rparr>\<rparr>"

definition sample_item :: "Event \<Rightarrow> gostring \<Rightarrow> PreparedEvent" where
  "sample_item event signature =
    \<lparr>pe_event = event,
     pe_enrichment = zero_enrichment\<lparr>enr_CommandSignatureID := signature, enr_CommandClass := ''test''\<rparr>,
     pe_evidenceIDs = [ev_EventID event], pe_historical = (ev_Kind event = ''artifact''),
     pe_live = (ev_Kind event = ''hook'')\<rparr>"

end
