(* ===== verification/Detect_Coalesce.thy ===== *)
theory Detect_Coalesce
  imports Detect_Prepare
begin

text \<open>
  The coalescer (\<open>internal/detection/coalesce.go\<close>). The same activity can arrive twice, from a
  live hook and from a historical artifact. The coalescer groups the events of a session by an
  identity, pairs a live event with a historical one when each is the other's only candidate
  within a second, and merges every pair into one event that cites both.
\<close>

section \<open>Durations\<close>

definition coalesceWindow :: duration where
  "coalesceWindow = seconds 1"

definition maxCoalesceGroup :: nat where
  "maxCoalesceGroup = 256"

text \<open>
  \<open>durationAbsolute\<close> negates a negative duration. Negation wraps, so the least duration stays
  negative: it is what \<open>Sub\<close> returns for instants at least 2^63 nanoseconds apart.
\<close>

definition durationAbsolute :: "duration \<Rightarrow> duration" where
  "durationAbsolute value = (if value <s 0 then - value else value)"

lemma durationAbsolute_exact:
  assumes "\<bar>t - u\<bar> < 2 ^ 63"
  shows "sint (durationAbsolute (time_sub t u)) = \<bar>t - u\<bar>"
proof -
  have lo: "- (2 ^ 63) < t - u" and hi: "t - u < 2 ^ 63" using assms by auto
  have "max (- (2 ^ 63)) (min (2 ^ 63 - 1) (t - u)) = t - u" using lo hi by linarith
  then have sub: "time_sub t u = word_of_int (t - u)" by (simp only: time_sub_def)
  have s: "sint (time_sub t u) = t - u"
    unfolding sub using lo hi by (intro sint_of_int_64) auto
  show ?thesis
  proof (cases "t - u < 0")
    case True
    have "- time_sub t u = word_of_int (u - t)" by (simp add: sub)
    moreover have "sint (word_of_int (u - t) :: 64 word) = u - t"
      using lo True by (intro sint_of_int_64) auto
    ultimately show ?thesis using True s by (simp add: durationAbsolute_def word_sless_alt)
  next
    case False
    then show ?thesis using s by (simp add: durationAbsolute_def word_sless_alt)
  qed
qed

lemma durationAbsolute_wraps:
  assumes "t - u \<le> - (2 ^ 63)"
  shows "sint (durationAbsolute (time_sub t u)) = - (2 ^ 63)"
proof -
  have "time_sub t u = word_of_int (- (2 ^ 63))"
    using assms by (simp add: time_sub_def max_def min_def)
  then show ?thesis by (simp add: durationAbsolute_def word_sless_alt)
qed

text \<open>The comparison \<open>durationAbsolute(t.Sub(u)) <= w\<close> of the code.\<close>

definition within :: "duration \<Rightarrow> time \<Rightarrow> time \<Rightarrow> bool" where
  "within w t u = (durationAbsolute (time_sub t u) \<le>s w)"

lemma within_iff: "\<bar>t - u\<bar> < 2 ^ 63 \<Longrightarrow> within w t u \<longleftrightarrow> \<bar>t - u\<bar> \<le> sint w"
  by (simp add: within_def word_sle_eq durationAbsolute_exact)

lemma within_overflow: "t - u \<le> - (2 ^ 63) \<Longrightarrow> within w t u"
  using sint_ge [of w] by (simp add: within_def word_sle_eq durationAbsolute_wraps)

lemma sint_seconds: "\<bar>n\<bar> < 1000000000 \<Longrightarrow> sint (seconds n) = n * 1000000000"
  unfolding seconds_def by (rule sint_of_int_64) auto

lemma within_seconds:
  "\<bar>t - u\<bar> < 2 ^ 63 \<Longrightarrow> \<bar>n\<bar> < 1000000000 \<Longrightarrow> within (seconds n) t u \<longleftrightarrow> \<bar>t - u\<bar> \<le> n * 1000000000"
  by (simp add: within_iff sint_seconds)

section \<open>Identities\<close>

abbreviation nul :: gostring where "nul \<equiv> [CHR 0x00]"

definition coalesceSource :: "PreparedEvent \<Rightarrow> gostring" where
  "coalesceSource item =
    (if ev_Kind (pe_event item) = ''artifact'' then ''historical''
     else if ev_Kind (pe_event item) = ''hook'' then ''live''
     else [])"

definition coalesceExitCode :: "Event \<Rightarrow> gostring" where
  "coalesceExitCode item =
    (case obs_ExitCode (ev_Observation item) of
       None \<Rightarrow> ''exit:none''
     | Some code \<Rightarrow> ''exit:'' @ itoa code)"

definition coalesceBase :: "Event \<Rightarrow> gostring" where
  "coalesceBase event =
    join_with nul
      [ses_Key (ev_Session event),
       ev_Type event,
       obs_Actor (ev_Observation event),
       to_lower (trim_space (obs_Outcome (ev_Observation event))),
       coalesceExitCode event]"

text \<open>What the identity holds after the base, None where the code returns no identity.\<close>

definition coalesceTail :: "PreparedEvent \<Rightarrow> gostring option" where
  "coalesceTail item =
    (let event = pe_event item; type = ev_Type event in
     if type = ''command.exec'' then
       (if pe_Signature item = [] then None else Some (''command'' @ nul @ pe_Signature item))
     else if type = ''command.result'' then
       (if eventToolCallID event \<noteq> []
        then Some (''command-result-tool-call'' @ nul @ eventToolCallID event)
        else if pe_Signature item = [] then None
        else Some (''command'' @ nul @ pe_Signature item))
     else if type \<in> {''permission.requested'', ''permission.approved'', ''permission.denied''} then
       (if enr_PermissionClass (pe_enrichment item) = [] then None
        else Some (''permission'' @ nul @ enr_PermissionClass (pe_enrichment item)))
     else if type \<in> {''file.read'', ''file.write'', ''file.delete''} then
       (case obs_Resource (ev_Observation event) of
          None \<Rightarrow> None
        | Some resource \<Rightarrow>
            if res_Kind resource = [] \<or> res_Name resource = [] then None
            else Some (''resource'' @ nul @ res_Kind resource @ nul @ res_Name resource))
     else if type = ''tool.result'' then
       (let identity = safeToolIdentity event in
        if identity = [] then None else Some (''tool-result'' @ nul @ identity))
     else None)"

definition coalesceIdentity :: "PreparedEvent \<Rightarrow> gostring" where
  "coalesceIdentity item =
    (case coalesceTail item of
       None \<Rightarrow> []
     | Some t \<Rightarrow> coalesceBase (pe_event item) @ nul @ t)"

section \<open>Candidates and pairs\<close>

record coalesceCandidate =
  cc_index :: nat
  cc_sourceKind :: gostring
  cc_toolCallID :: gostring
  cc_commandSignature :: gostring
  cc_at :: time

definition candidateOf :: "nat \<Rightarrow> PreparedEvent \<Rightarrow> coalesceCandidate" where
  "candidateOf index item =
    \<lparr>cc_index = index, cc_sourceKind = coalesceSource item,
     cc_toolCallID = eventToolCallID (pe_event item),
     cc_commandSignature = pe_Signature item, cc_at = pe_At item\<rparr>"

definition coalesceEntries :: "PreparedEvent list \<Rightarrow> (gostring \<times> coalesceCandidate) list" where
  "coalesceEntries events =
    concat (map (\<lambda>(index, item).
        if coalesceIdentity item = [] \<or> coalesceSource item = [] then []
        else [(coalesceIdentity item, candidateOf index item)])
      (enumerate 0 events))"

definition coalesceGroups :: "PreparedEvent list \<Rightarrow> (gostring \<times> coalesceCandidate list) list" where
  "coalesceGroups events = group_pairs (coalesceEntries events)"

definition oppositeCandidate :: "coalesceCandidate \<Rightarrow> coalesceCandidate \<Rightarrow> bool" where
  "oppositeCandidate candidate other =
    (if cc_index other = cc_index candidate \<or> cc_sourceKind other = cc_sourceKind candidate then False
     else if \<not> within coalesceWindow (cc_at other) (cc_at candidate) then False
     else if cc_toolCallID candidate \<noteq> [] \<and> cc_toolCallID other \<noteq> [] \<and>
       cc_toolCallID candidate \<noteq> cc_toolCallID other then False
     else if cc_commandSignature candidate \<noteq> [] \<and> cc_commandSignature other \<noteq> [] \<and>
       cc_commandSignature candidate \<noteq> cc_commandSignature other then False
     else True)"

text \<open>The scan returns as soon as it holds two candidates.\<close>

definition uniqueOppositeCandidates ::
    "coalesceCandidate \<Rightarrow> coalesceCandidate list \<Rightarrow> coalesceCandidate list" where
  "uniqueOppositeCandidates candidate candidates =
    take 2 (filter (oppositeCandidate candidate) candidates)"

definition pairCandidate ::
    "coalesceCandidate list \<Rightarrow> (nat \<rightharpoonup> nat) \<Rightarrow> coalesceCandidate \<Rightarrow> (nat \<rightharpoonup> nat)" where
  "pairCandidate candidates paired candidate =
    (if paired (cc_index candidate) \<noteq> None then paired
     else case uniqueOppositeCandidates candidate candidates of
       [opposite] \<Rightarrow>
         (if length (uniqueOppositeCandidates opposite candidates) \<noteq> 1 then paired
          else paired(cc_index candidate \<mapsto> cc_index opposite, cc_index opposite \<mapsto> cc_index candidate))
     | _ \<Rightarrow> paired)"

definition pairGroup :: "(nat \<rightharpoonup> nat) \<Rightarrow> coalesceCandidate list \<Rightarrow> (nat \<rightharpoonup> nat)" where
  "pairGroup paired candidates =
    (if length candidates > maxCoalesceGroup then paired
     else foldl (pairCandidate candidates) paired candidates)"

text \<open>
  The pairs of a session. The code visits the groups in Go's unspecified map order; the argument
  is the groups in the order visited.
\<close>

definition pairGroups :: "(gostring \<times> coalesceCandidate list) list \<Rightarrow> (nat \<rightharpoonup> nat)" where
  "pairGroups groups = foldl (\<lambda>paired (identity, candidates). pairGroup paired candidates) Map.empty groups"

section \<open>Merging\<close>

definition depthRank :: "gostring \<Rightarrow> int" where
  "depthRank depth =
    (if depth = ''full'' then 50 else if depth = ''tool_call'' then 40
     else if depth = ''lifecycle'' then 30 else if depth = ''otlp'' then 20
     else if depth = ''artifact'' then 10 else 0)"

definition confidenceRank :: "gostring \<Rightarrow> int" where
  "confidenceRank confidence =
    (if confidence = ConfidenceHigh then 3 else if confidence = ConfidenceMedium then 2
     else if confidence = ConfidenceLow then 1 else 0)"

definition coverageRank :: "PreparedEvent \<Rightarrow> int" where
  "coverageRank item =
    depthRank (cov_Depth (ev_Coverage (pe_event item))) +
    confidenceRank (cov_Confidence (ev_Coverage (pe_event item)))"

definition or_else :: "gostring \<Rightarrow> gostring \<Rightarrow> gostring" where
  "or_else a b = (if a = [] then b else a)"

definition mergeEnrichment :: "EventEnrichment \<Rightarrow> EventEnrichment \<Rightarrow> EventEnrichment" where
  "mergeEnrichment primary secondary =
    \<lparr>enr_CommandSignatureID = or_else (enr_CommandSignatureID primary) (enr_CommandSignatureID secondary),
     enr_CommandClass = or_else (enr_CommandClass primary) (enr_CommandClass secondary),
     enr_PermissionClass = or_else (enr_PermissionClass primary) (enr_PermissionClass secondary),
     enr_Version = or_else (enr_Version primary) (enr_Version secondary)\<rparr>"

definition mergeCoalesced :: "PreparedEvent \<Rightarrow> PreparedEvent \<Rightarrow> PreparedEvent" where
  "mergeCoalesced left right =
    (let (retained, other) =
       (if coverageRank right > coverageRank left then (right, left) else (left, right))
     in \<lparr>pe_event = pe_event retained,
         pe_enrichment = mergeEnrichment (pe_enrichment retained) (pe_enrichment other),
         pe_evidenceIDs = compactComparable (sort (pe_evidenceIDs retained @ pe_evidenceIDs other)),
         pe_historical = (pe_historical retained \<or> pe_historical other),
         pe_live = (pe_live retained \<or> pe_live other)\<rparr>)"

fun coalesceLoop ::
    "(nat \<rightharpoonup> nat) \<Rightarrow> PreparedEvent list \<Rightarrow> nat \<Rightarrow> PreparedEvent list \<Rightarrow> nat set \<Rightarrow>
     PreparedEvent list \<Rightarrow> PreparedEvent list" where
  "coalesceLoop paired events index [] consumed result = result"
| "coalesceLoop paired events index (item # items) consumed result =
    (if index \<in> consumed then coalesceLoop paired events (Suc index) items consumed result
     else case paired index of
       None \<Rightarrow> coalesceLoop paired events (Suc index) items consumed (result @ [item])
     | Some opposite \<Rightarrow>
         coalesceLoop paired events (Suc index) items (insert opposite (insert index consumed))
           (result @ [mergeCoalesced item (events ! opposite)]))"

definition coalesceWith :: "(nat \<rightharpoonup> nat) \<Rightarrow> PreparedEvent list \<Rightarrow> PreparedEvent list" where
  "coalesceWith paired events = sortPreparedEvents (coalesceLoop paired events 0 events {} [])"

definition coalesceEvents :: "ctx \<Rightarrow> PreparedEvent list \<Rightarrow> PreparedEvent list \<times> ctx" where
  "coalesceEvents c events =
    (case contextLoop 0 (length events) c of
       (Some e, c') \<Rightarrow> (events, c')
     | (None, c') \<Rightarrow> (coalesceWith (pairGroups (coalesceGroups events)) events, c'))"


section \<open>The identity groups like with like\<close>

lemma fixes_nul_exit: "CHR 0x00 \<notin> set (coalesceExitCode e)"
proof -
  have "CHR 0x00 \<notin> set (nat_digits n)" for n
    using nat_digits_are_digits [of n] by (auto simp: of_char_def)
  then show ?thesis by (auto simp: coalesceExitCode_def itoa_def split: option.splits)
qed

text \<open>The session, type, actor and outcome of an event hold no NUL byte.\<close>

definition nul_free :: "Event \<Rightarrow> bool" where
  "nul_free e \<longleftrightarrow>
    CHR 0x00 \<notin> set (ses_Key (ev_Session e)) \<union> set (ev_Type e) \<union> set (obs_Actor (ev_Observation e)) \<union>
      set (to_lower (trim_space (obs_Outcome (ev_Observation e))))"

lemma coalesceIdentity_Some:
  "coalesceIdentity item \<noteq> [] \<Longrightarrow>
    \<exists>t. coalesceTail item = Some t \<and> coalesceIdentity item = coalesceBase (pe_event item) @ CHR 0x00 # t"
  by (simp add: coalesceIdentity_def split: option.splits)

lemma split_base:
  assumes "nul_free e"
  shows "split_on (CHR 0x00) (coalesceBase e @ CHR 0x00 # r) =
      ses_Key (ev_Session e) # ev_Type e # obs_Actor (ev_Observation e) #
       to_lower (trim_space (obs_Outcome (ev_Observation e))) # coalesceExitCode e # split_on (CHR 0x00) r"
  using assms fixes_nul_exit [of e] by (simp add: coalesceBase_def nul_free_def split_on_append)

lemma coalesceExitCode_inj: "coalesceExitCode e = coalesceExitCode f \<Longrightarrow>
    obs_ExitCode (ev_Observation e) = obs_ExitCode (ev_Observation f)"
proof -
  have "hd (itoa i) \<noteq> CHR ''n''" for i
  proof -
    have "nat_digits k \<noteq> []" for k by (subst nat_digits.simps) simp
    then have "hd (nat_digits k) \<in> set (nat_digits k)" for k by simp
    then have "48 \<le> (of_char (hd (nat_digits k)) :: nat) \<and> (of_char (hd (nat_digits k)) :: nat) < 58" for k
      using nat_digits_are_digits by blast
    moreover have "\<not> (of_char (CHR ''n'') :: nat) < 58" by simp
    ultimately have "hd (nat_digits k) \<noteq> CHR ''n''" for k by metis
    then show ?thesis by (simp add: itoa_def)
  qed
  then have "itoa i \<noteq> ''none''" "''none'' \<noteq> itoa i" for i by (metis list.sel(1))+
  then show "coalesceExitCode e = coalesceExitCode f \<Longrightarrow> ?thesis"
    by (auto simp: coalesceExitCode_def dest!: itoa_inj split: option.splits)
qed

lemma coalesceBase_eq:
  assumes "nul_free e" and "nul_free f"
    and eq: "coalesceBase e @ CHR 0x00 # r = coalesceBase f @ CHR 0x00 # s"
  shows "ses_Key (ev_Session e) = ses_Key (ev_Session f) \<and> ev_Type e = ev_Type f \<and>
    obs_Actor (ev_Observation e) = obs_Actor (ev_Observation f) \<and>
    obs_ExitCode (ev_Observation e) = obs_ExitCode (ev_Observation f) \<and> r = s"
proof -
  have "split_on (CHR 0x00) (coalesceBase e @ CHR 0x00 # r) = split_on (CHR 0x00) (coalesceBase f @ CHR 0x00 # s)"
    using eq by simp
  then have parts: "ses_Key (ev_Session e) = ses_Key (ev_Session f)" "ev_Type e = ev_Type f"
      "obs_Actor (ev_Observation e) = obs_Actor (ev_Observation f)"
      "coalesceExitCode e = coalesceExitCode f" "split_on (CHR 0x00) r = split_on (CHR 0x00) s"
    unfolding split_base [OF assms(1)] split_base [OF assms(2)] by simp_all
  from parts(5) have "r = s" by (metis join_split)
  with parts show ?thesis by (auto dest: coalesceExitCode_inj)
qed

section \<open>Pairs\<close>

lemma take2_singleton: "take 2 xs = [x] \<longleftrightarrow> xs = [x]"
  by (cases xs; cases "tl xs") auto

lemma uniqueOpposite_one: "uniqueOppositeCandidates c cs = [x] \<longleftrightarrow> filter (oppositeCandidate c) cs = [x]"
  by (simp add: uniqueOppositeCandidates_def take2_singleton)

text \<open>Instants within the range of a duration of each other.\<close>

definition near :: "time \<Rightarrow> time \<Rightarrow> bool" where
  "near t u \<longleftrightarrow> \<bar>t - u\<bar> < 2 ^ 63"

lemma oppositeCandidate_sym:
  "near (cc_at c) (cc_at d) \<Longrightarrow> oppositeCandidate c d = oppositeCandidate d c"
  by (auto simp: oppositeCandidate_def near_def coalesceWindow_def within_seconds abs_minus_commute)

text \<open>Two candidates of a group are mates when each is the other's only opposite candidate.\<close>

definition mates :: "coalesceCandidate list \<Rightarrow> coalesceCandidate \<Rightarrow> coalesceCandidate \<Rightarrow> bool" where
  "mates cs c d \<longleftrightarrow> c \<in> set cs \<and> d \<in> set cs \<and>
    filter (oppositeCandidate c) cs = [d] \<and> filter (oppositeCandidate d) cs = [c]"

lemma mates_sym: "mates cs c d \<longleftrightarrow> mates cs d c"
  by (auto simp: mates_def)

lemma mates_fun: "mates cs c d \<Longrightarrow> mates cs c d' \<Longrightarrow> d = d'"
  by (simp add: mates_def)

lemma mates_opposite: "mates cs c d \<Longrightarrow> oppositeCandidate c d"
proof -
  assume "mates cs c d"
  then have "d \<in> set (filter (oppositeCandidate c) cs)" by (simp add: mates_def)
  then show "oppositeCandidate c d" by simp
qed

definition well_spaced :: "coalesceCandidate list \<Rightarrow> bool" where
  "well_spaced cs \<longleftrightarrow> inj_on cc_index (set cs) \<and>
    (\<forall>c\<in>set cs. \<forall>d\<in>set cs. near (cc_at c) (cc_at d))"

lemma pairCandidate_cases:
  assumes ws: "well_spaced cs" and x: "x \<in> set cs" and free: "p (cc_index x) = None"
  shows "(\<exists>d. mates cs x d \<and> pairCandidate cs p x = p(cc_index x \<mapsto> cc_index d, cc_index d \<mapsto> cc_index x)) \<or>
    ((\<forall>d. \<not> mates cs x d) \<and> pairCandidate cs p x = p)"
proof (cases "\<exists>d. filter (oppositeCandidate x) cs = [d]")
  case False
  then have "\<forall>d. uniqueOppositeCandidates x cs \<noteq> [d]" by (simp add: uniqueOpposite_one)
  then have "pairCandidate cs p x = p"
    by (auto simp: pairCandidate_def split: list.splits)
  moreover have "\<not> mates cs x d" for d using False by (auto simp: mates_def)
  ultimately show ?thesis by blast
next
  case True
  then obtain d where d: "filter (oppositeCandidate x) cs = [d]" by blast
  then have "d \<in> set (filter (oppositeCandidate x) cs)" by simp
  then have dm: "d \<in> set cs" and o: "oppositeCandidate x d" by simp_all
  have "near (cc_at x) (cc_at d)" using ws x dm by (simp add: well_spaced_def)
  with o have xo: "x \<in> set (filter (oppositeCandidate d) cs)" using x oppositeCandidate_sym by auto
  have len: "length (uniqueOppositeCandidates d cs) = 1 \<longleftrightarrow> filter (oppositeCandidate d) cs = [x]"
  proof
    assume "length (uniqueOppositeCandidates d cs) = 1"
    then obtain y where "uniqueOppositeCandidates d cs = [y]" by (cases "uniqueOppositeCandidates d cs") auto
    then have "filter (oppositeCandidate d) cs = [y]" by (simp add: uniqueOpposite_one)
    with xo show "filter (oppositeCandidate d) cs = [x]" by simp
  next
    assume "filter (oppositeCandidate d) cs = [x]"
    then show "length (uniqueOppositeCandidates d cs) = 1" by (simp add: uniqueOppositeCandidates_def)
  qed
  have u: "uniqueOppositeCandidates x cs = [d]" using d by (simp add: uniqueOpposite_one)
  show ?thesis
  proof (cases "filter (oppositeCandidate d) cs = [x]")
    case True
    then have "mates cs x d" using x dm d by (simp add: mates_def)
    moreover have "pairCandidate cs p x = p(cc_index x \<mapsto> cc_index d, cc_index d \<mapsto> cc_index x)"
      using free u len True by (simp add: pairCandidate_def)
    ultimately show ?thesis by blast
  next
    case False
    then have "\<not> mates cs x d'" for d' using d by (auto simp: mates_def)
    moreover have "pairCandidate cs p x = p" using free u len False by (simp add: pairCandidate_def)
    ultimately show ?thesis by blast
  qed
qed

definition pair_of :: "coalesceCandidate list \<Rightarrow> coalesceCandidate list \<Rightarrow> nat \<Rightarrow> nat \<Rightarrow> bool" where
  "pair_of cs xs k v \<longleftrightarrow> (\<exists>c d. mates cs c d \<and> cc_index c = k \<and> cc_index d = v \<and> (c \<in> set xs \<or> d \<in> set xs))"

lemma pair_of_snoc:
  "pair_of cs (xs @ [x]) k v \<longleftrightarrow>
    pair_of cs xs k v \<or>
    (\<exists>d. mates cs x d \<and> (k = cc_index x \<and> v = cc_index d \<or> k = cc_index d \<and> v = cc_index x))"
  (is "?l \<longleftrightarrow> ?a \<or> ?b")
proof
  assume ?l
  then obtain c d where cd: "mates cs c d" "cc_index c = k" "cc_index d = v"
      "c \<in> set xs \<or> d \<in> set xs \<or> c = x \<or> d = x"
    unfolding pair_of_def by auto
  then show "?a \<or> ?b" using mates_sym unfolding pair_of_def by blast
next
  assume "?a \<or> ?b"
  then show ?l
  proof
    assume ?a
    then show ?l unfolding pair_of_def by auto
  next
    assume ?b
    then obtain d where d: "mates cs x d"
        "k = cc_index x \<and> v = cc_index d \<or> k = cc_index d \<and> v = cc_index x" by blast
    moreover have "mates cs d x" using d(1) mates_sym by blast
    moreover have "x \<in> set (xs @ [x])" by simp
    ultimately show ?l unfolding pair_of_def by blast
  qed
qed

lemma pairCandidate_fold:
  assumes ws: "well_spaced cs" and fresh: "\<forall>c\<in>set cs. p0 (cc_index c) = None" and "set xs \<subseteq> set cs"
  shows "foldl (pairCandidate cs) p0 xs k = Some v \<longleftrightarrow> p0 k = Some v \<or> pair_of cs xs k v"
  using assms(3)
proof (induction xs arbitrary: k v rule: rev_induct)
  case Nil
  show ?case by (simp add: pair_of_def)
next
  case (snoc x xs)
  let ?p = "foldl (pairCandidate cs) p0 xs"
  from snoc.prems have x: "x \<in> set cs" by simp
  have IH: "?p k = Some v \<longleftrightarrow> p0 k = Some v \<or> pair_of cs xs k v" for k v
    using snoc by simp
  have inj: "c = d" if "c \<in> set cs" "d \<in> set cs" "cc_index c = cc_index d" for c d
    using ws that by (auto simp: well_spaced_def inj_on_def)
  have ext: "pair_of cs (xs @ [x]) k v \<longleftrightarrow>
      pair_of cs xs k v \<or>
      (\<exists>d. mates cs x d \<and> (k = cc_index x \<and> v = cc_index d \<or> k = cc_index d \<and> v = cc_index x))" for k v
    by (rule pair_of_snoc)
  show ?case
  proof (cases "?p (cc_index x)")
    case None
    have none: "p0 (cc_index x) = None" using fresh x by blast
    from pairCandidate_cases [where p = ?p, OF ws x None] show ?thesis
    proof (elim disjE exE conjE)
      fix d
      assume d: "mates cs x d"
        and eq: "pairCandidate cs ?p x = ?p(cc_index x \<mapsto> cc_index d, cc_index d \<mapsto> cc_index x)"
      have dm: "d \<in> set cs" and ne: "cc_index d \<noteq> cc_index x"
        using d mates_opposite [OF d] by (auto simp: mates_def oppositeCandidate_def)
      have nd: "?p (cc_index d) = None"
      proof (rule ccontr)
        assume "?p (cc_index d) \<noteq> None"
        then obtain w where "?p (cc_index d) = Some w" by blast
        then have "pair_of cs xs (cc_index d) w" using IH fresh dm by auto
        then obtain c e where ce: "mates cs c e" "cc_index c = cc_index d" "c \<in> set xs \<or> e \<in> set xs"
          by (auto simp: pair_of_def)
        then have "c = d" using inj dm by (auto simp: mates_def)
        with ce d have "e = x" using mates_fun mates_sym by blast
        with ce \<open>c = d\<close> have "pair_of cs xs (cc_index x) (cc_index d)"
          unfolding pair_of_def using mates_sym by blast
        with IH [of "cc_index x" "cc_index d"] None show False by simp
      qed
      have "foldl (pairCandidate cs) p0 (xs @ [x]) k = Some v \<longleftrightarrow>
          (k = cc_index d \<and> v = cc_index x) \<or> (k = cc_index x \<and> v = cc_index d) \<or> ?p k = Some v"
        using eq ne None nd by auto
      also have "\<dots> \<longleftrightarrow> p0 k = Some v \<or> pair_of cs (xs @ [x]) k v"
        unfolding ext IH using d mates_fun by auto
      finally show ?thesis .
    next
      assume no: "\<forall>d. \<not> mates cs x d" and eq: "pairCandidate cs ?p x = ?p"
      then show ?thesis using IH ext by simp
    qed
  next
    case (Some w)
    then have "pair_of cs xs (cc_index x) w" using IH fresh x by auto
    then obtain c d where cd: "mates cs c d" "cc_index c = cc_index x" "cc_index d = w" "c \<in> set xs \<or> d \<in> set xs"
      by (auto simp: pair_of_def)
    then have "c = x" using inj x by (auto simp: mates_def)
    have old: "pair_of cs xs k v"
      if m: "mates cs x e" and kv: "k = cc_index x \<and> v = cc_index e \<or> k = cc_index e \<and> v = cc_index x"
      for e k v
    proof -
      have "e = d" using m cd(1) \<open>c = x\<close> mates_fun by blast
      moreover have "mates cs x d" "mates cs d x" using cd(1) \<open>c = x\<close> mates_sym by blast+
      ultimately show ?thesis using kv cd(4) \<open>c = x\<close> unfolding pair_of_def by blast
    qed
    have "foldl (pairCandidate cs) p0 (xs @ [x]) = ?p" using Some by (simp add: pairCandidate_def)
    moreover have "pair_of cs (xs @ [x]) k v \<longleftrightarrow> pair_of cs xs k v"
      unfolding ext [of k v] using old [of _ k v] by blast
    ultimately show ?thesis using IH [of k v] by simp
  qed
qed


lemma pairGroup_char:
  assumes "well_spaced cs" and "\<forall>c\<in>set cs. p (cc_index c) = None"
  shows "pairGroup p cs k = Some v \<longleftrightarrow> p k = Some v \<or> (length cs \<le> maxCoalesceGroup \<and> pair_of cs cs k v)"
  using pairCandidate_fold [OF assms, of cs] by (simp add: pairGroup_def)

lemma pair_of_index: "pair_of cs cs k v \<Longrightarrow> k \<in> cc_index ` set cs \<and> v \<in> cc_index ` set cs"
  by (auto simp: pair_of_def mates_def)

text \<open>The groups of a session: each well spaced, no index in two of them.\<close>

definition well_grouped :: "(gostring \<times> coalesceCandidate list) list \<Rightarrow> bool" where
  "well_grouped gs \<longleftrightarrow> distinct (map fst gs) \<and> (\<forall>i cs. (i, cs) \<in> set gs \<longrightarrow> well_spaced cs) \<and>
    (\<forall>i cs j ds. (i, cs) \<in> set gs \<longrightarrow> (j, ds) \<in> set gs \<longrightarrow> i \<noteq> j \<longrightarrow>
      cc_index ` set cs \<inter> cc_index ` set ds = {})"

definition paired_in :: "(gostring \<times> coalesceCandidate list) set \<Rightarrow> nat \<Rightarrow> nat \<Rightarrow> bool" where
  "paired_in gs k v \<longleftrightarrow> (\<exists>i cs. (i, cs) \<in> gs \<and> length cs \<le> maxCoalesceGroup \<and> pair_of cs cs k v)"

lemma pairGroups_char:
  "well_grouped gs \<Longrightarrow> pairGroups gs k = Some v \<longleftrightarrow> paired_in (set gs) k v"
proof (induction gs arbitrary: k v rule: rev_induct)
  case Nil
  show ?case by (simp add: pairGroups_def paired_in_def)
next
  case (snoc g gs)
  obtain i cs where g: "g = (i, cs)" by (cases g)
  from snoc.prems have wg: "well_grouped gs" by (simp add: well_grouped_def)
  note IH = snoc.IH [OF wg]
  from snoc.prems have ws: "well_spaced cs" by (simp add: well_grouped_def g)
  have "pairGroups gs (cc_index c) = None" if "c \<in> set cs" for c
  proof (rule ccontr)
    assume "pairGroups gs (cc_index c) \<noteq> None"
    then obtain v where "pairGroups gs (cc_index c) = Some v" by blast
    then obtain j ds where ds: "(j, ds) \<in> set gs" "pair_of ds ds (cc_index c) v"
      using IH by (auto simp: paired_in_def)
    from snoc.prems have "i \<notin> fst ` set gs" by (simp add: well_grouped_def g)
    with ds(1) have "i \<noteq> j" by force
    moreover have "(i, cs) \<in> set (gs @ [g])" "(j, ds) \<in> set (gs @ [g])" using ds(1) g by simp_all
    ultimately have "cc_index ` set cs \<inter> cc_index ` set ds = {}"
      using snoc.prems unfolding well_grouped_def by blast
    with pair_of_index [OF ds(2)] that show False by blast
  qed
  then have "pairGroup (pairGroups gs) cs k = Some v \<longleftrightarrow>
      pairGroups gs k = Some v \<or> (length cs \<le> maxCoalesceGroup \<and> pair_of cs cs k v)"
    using pairGroup_char [OF ws] by blast
  moreover have "pairGroups (gs @ [g]) = pairGroup (pairGroups gs) cs"
    by (simp add: pairGroups_def g)
  ultimately show ?case unfolding IH by (auto simp: paired_in_def g)
qed

text \<open>
  The pairs do not depend on the order in which the groups are visited.
\<close>

lemma well_grouped_set:
  "distinct (map fst gs) \<Longrightarrow> distinct (map fst hs) \<Longrightarrow> set gs = set hs \<Longrightarrow> well_grouped gs = well_grouped hs"
  by (simp add: well_grouped_def)

lemma pairGroups_permute:
  assumes "well_grouped gs" and "mset gs = mset hs"
  shows "pairGroups gs = pairGroups hs"
proof -
  have s: "set gs = set hs" using assms(2) by (rule mset_eq_setD)
  have "distinct (map fst hs)"
    using assms by (metis mset_eq_imp_distinct_iff mset_map well_grouped_def)
  with assms(1) s have wh: "well_grouped hs" by (metis well_grouped_def well_grouped_set)
  show ?thesis
  proof (rule ext)
    fix k
    show "pairGroups gs k = pairGroups hs k"
      using pairGroups_char [OF assms(1), of k] pairGroups_char [OF wh, of k] s
      by (metis option.exhaust)
  qed
qed

section \<open>The groups of a session are well grouped\<close>

definition times_near :: "PreparedEvent list \<Rightarrow> bool" where
  "times_near events \<longleftrightarrow> (\<forall>e\<in>set events. \<forall>f\<in>set events. near (pe_At e) (pe_At f))"

lemma set_coalesceEntries:
  "(k, c) \<in> set (coalesceEntries events) \<longleftrightarrow>
    (\<exists>i<length events. k = coalesceIdentity (events ! i) \<and> c = candidateOf i (events ! i) \<and>
      k \<noteq> [] \<and> coalesceSource (events ! i) \<noteq> [])"
proof -
  let ?f = "\<lambda>(index, item).
      if coalesceIdentity item = [] \<or> coalesceSource item = [] then []
      else [(coalesceIdentity item, candidateOf index item)]"
  have "(k, c) \<in> set (coalesceEntries events) \<longleftrightarrow>
      (\<exists>i item. (i, item) \<in> set (enumerate 0 events) \<and> (k, c) \<in> set (?f (i, item)))"
    unfolding coalesceEntries_def by force
  also have "\<dots> \<longleftrightarrow> (\<exists>i<length events. (k, c) \<in> set (?f (i, events ! i)))"
    by (auto simp: in_set_enumerate_eq)
  also have "\<dots> \<longleftrightarrow> (\<exists>i<length events. k = coalesceIdentity (events ! i) \<and> c = candidateOf i (events ! i) \<and>
      k \<noteq> [] \<and> coalesceSource (events ! i) \<noteq> [])"
    by (rule arg_cong [where f = Ex], rule ext) auto
  finally show ?thesis .
qed

lemma coalesceGroups_candidates:
  assumes "(i, cs) \<in> set (coalesceGroups events)" and "c \<in> set cs"
  shows "cc_index c < length events \<and> c = candidateOf (cc_index c) (events ! cc_index c) \<and>
    coalesceIdentity (events ! cc_index c) = i \<and> i \<noteq> []"
proof -
  have "cs = map snd (filter (\<lambda>p. fst p = i) (coalesceEntries events))"
    using assms(1) unfolding coalesceGroups_def by (rule group_pairs_member)
  with assms(2) have "(i, c) \<in> set (coalesceEntries events)" by auto
  then show ?thesis by (auto simp: set_coalesceEntries candidateOf_def)
qed

lemma well_grouped_coalesceGroups:
  assumes "times_near events"
  shows "well_grouped (coalesceGroups events)"
  unfolding well_grouped_def
proof (intro conjI allI impI)
  show "distinct (map fst (coalesceGroups events))"
    unfolding coalesceGroups_def by (rule group_pairs_props)
next
  fix i cs
  assume g: "(i, cs) \<in> set (coalesceGroups events)"
  have "near (cc_at c) (cc_at d)" if "c \<in> set cs" "d \<in> set cs" for c d
  proof -
    have "cc_at c = pe_At (events ! cc_index c)" "cc_at d = pe_At (events ! cc_index d)"
      using coalesceGroups_candidates [OF g that(1)] coalesceGroups_candidates [OF g that(2)]
      by (metis candidateOf_def coalesceCandidate.select_convs(5))+
    then show ?thesis
      using coalesceGroups_candidates [OF g that(1)] coalesceGroups_candidates [OF g that(2)] assms
      by (simp add: times_near_def)
  qed
  moreover have "inj_on cc_index (set cs)"
    using coalesceGroups_candidates [OF g] by (metis inj_onI)
  ultimately show "well_spaced cs" by (simp add: well_spaced_def)
next
  fix i cs j ds
  assume "(i, cs) \<in> set (coalesceGroups events)" "(j, ds) \<in> set (coalesceGroups events)" "i \<noteq> j"
  note ij = this
  have "cc_index c \<noteq> cc_index d" if "c \<in> set cs" "d \<in> set ds" for c d
    using coalesceGroups_candidates [OF ij(1) that(1)] coalesceGroups_candidates [OF ij(2) that(2)] ij(3)
    by metis
  then show "cc_index ` set cs \<inter> cc_index ` set ds = {}" by blast
qed


section \<open>The merge loop\<close>

text \<open>
  A pairing of \<open>n\<close> events: a symmetric map without fixed points on the indexes below \<open>n\<close>.
\<close>

definition pairing :: "nat \<Rightarrow> (nat \<rightharpoonup> nat) \<Rightarrow> bool" where
  "pairing n p \<longleftrightarrow> (\<forall>k v. p k = Some v \<longrightarrow> p v = Some k \<and> k \<noteq> v \<and> k < n \<and> v < n)"

lemma pairingD:
  assumes "pairing n p" and "p k = Some v"
  shows "p v = Some k" and "k \<noteq> v" and "k < n" and "v < n"
  using assms unfolding pairing_def by blast+

text \<open>The indexes consumed when the loop reaches index \<open>i\<close>.\<close>

definition consumed_at :: "(nat \<rightharpoonup> nat) \<Rightarrow> nat \<Rightarrow> nat set" where
  "consumed_at p i = {k. \<exists>j<i. \<exists>v. p j = Some v \<and> (k = j \<or> k = v)}"

lemma consumed_at_0 [simp]: "consumed_at p 0 = {}"
  by (simp add: consumed_at_def)

lemma consumed_at_Suc:
  "consumed_at p (Suc i) = consumed_at p i \<union> (case p i of None \<Rightarrow> {} | Some v \<Rightarrow> {i, v})"
  by (auto simp: consumed_at_def less_Suc_eq split: option.splits)

lemma consumed_at_iff:
  assumes "pairing n p"
  shows "i \<in> consumed_at p i \<longleftrightarrow> (\<exists>v<i. p i = Some v)"
proof
  assume "i \<in> consumed_at p i"
  then obtain j v where j: "j < i" "p j = Some v" "i = j \<or> i = v" by (auto simp: consumed_at_def)
  then have "i = v" by simp
  with pairingD(1) [OF assms j(2)] j(1) show "\<exists>v<i. p i = Some v" by blast
next
  assume "\<exists>v<i. p i = Some v"
  then obtain v where v: "v < i" "p i = Some v" by blast
  with pairingD(1) [OF assms v(2)] show "i \<in> consumed_at p i" by (auto simp: consumed_at_def)
qed

lemma consumed_at_skip:
  assumes "pairing n p" and "i \<in> consumed_at p i"
  shows "consumed_at p (Suc i) = consumed_at p i"
proof -
  obtain v where v: "v < i" "p i = Some v" using assms consumed_at_iff by blast
  have "p v = Some i" using pairingD(1) [OF assms(1) v(2)] .
  with v(1) have "v \<in> consumed_at p i" unfolding consumed_at_def by blast
  with assms(2) v(2) show ?thesis by (auto simp: consumed_at_Suc)
qed

text \<open>The reference: every event but the second of each pair, pairs merged.\<close>

definition kept :: "(nat \<rightharpoonup> nat) \<Rightarrow> nat \<Rightarrow> bool" where
  "kept p i \<longleftrightarrow> (case p i of None \<Rightarrow> True | Some v \<Rightarrow> i < v)"

definition keep :: "(nat \<rightharpoonup> nat) \<Rightarrow> PreparedEvent list \<Rightarrow> nat \<Rightarrow> PreparedEvent" where
  "keep p events i =
    (case p i of None \<Rightarrow> events ! i | Some v \<Rightarrow> mergeCoalesced (events ! i) (events ! v))"

lemma kept_iff: "pairing n p \<Longrightarrow> kept p i \<longleftrightarrow> i \<notin> consumed_at p i"
  using consumed_at_iff [of n p i] pairingD(2) [of n p i] unfolding kept_def
  by (cases "p i") (auto simp: not_less le_less)

lemma coalesceLoop_eq:
  assumes "pairing (length events) p" and "items = drop i events"
  shows "coalesceLoop p events i items (consumed_at p i) result =
    result @ map (keep p events) (filter (kept p) [i..<length events])"
  using assms(2)
proof (induction items arbitrary: i result)
  case Nil
  then show ?case by simp
next
  case (Cons item items)
  from Cons.prems have i: "i < length events" and item: "item = events ! i" and rest: "items = drop (Suc i) events"
    by (metis drop_eq_Nil2 leI list.distinct(1), metis nth_via_drop, metis drop_Suc list.sel(3) tl_drop)
  have upt: "[i..<length events] = i # [Suc i..<length events]" using i by (simp add: upt_conv_Cons)
  note IH = Cons.IH [OF rest]
  show ?case
  proof (cases "i \<in> consumed_at p i")
    case True
    then show ?thesis using IH [of result] consumed_at_skip [OF assms(1) True] kept_iff [OF assms(1), of i] upt
      by simp
  next
    case False
    then have k: "kept p i" using kept_iff [OF assms(1)] by blast
    show ?thesis
    proof (cases "p i")
      case None
      then have "consumed_at p (Suc i) = consumed_at p i" by (simp add: consumed_at_Suc)
      then show ?thesis using IH [of "result @ [item]"] False None k upt item by (simp add: keep_def)
    next
      case (Some v)
      then have "consumed_at p (Suc i) = insert v (insert i (consumed_at p i))"
        by (auto simp: consumed_at_Suc)
      then show ?thesis
        using IH [of "result @ [mergeCoalesced item (events ! v)]"] False Some k upt item
        by (simp add: keep_def)
    qed
  qed
qed

lemma coalesceWith_eq:
  "pairing (length events) p \<Longrightarrow>
    coalesceWith p events = sortPreparedEvents (map (keep p events) (filter (kept p) [0..<length events]))"
  using coalesceLoop_eq [of events p events 0 "[]"] by (simp add: coalesceWith_def)

section \<open>Evidence\<close>

lemma mergeCoalesced_evidence [simp]:
  "set (pe_evidenceIDs (mergeCoalesced l r)) = set (pe_evidenceIDs l) \<union> set (pe_evidenceIDs r)"
  "distinct (pe_evidenceIDs (mergeCoalesced l r))" "sorted (pe_evidenceIDs (mergeCoalesced l r))"
  using sorted_distinct_compact [of "sort (pe_evidenceIDs l @ pe_evidenceIDs r)"]
    sorted_distinct_compact [of "sort (pe_evidenceIDs r @ pe_evidenceIDs l)"]
  by (auto simp: mergeCoalesced_def Let_def)

lemma mergeCoalesced_flags [simp]:
  "pe_historical (mergeCoalesced l r) \<longleftrightarrow> pe_historical l \<or> pe_historical r"
  "pe_live (mergeCoalesced l r) \<longleftrightarrow> pe_live l \<or> pe_live r"
  by (auto simp: mergeCoalesced_def Let_def)

lemma mergeCoalesced_event:
  "pe_event (mergeCoalesced l r) = pe_event l \<or> pe_event (mergeCoalesced l r) = pe_event r"
  by (auto simp: mergeCoalesced_def Let_def)

definition evidence_of :: "PreparedEvent list \<Rightarrow> gostring set" where
  "evidence_of events = (\<Union>e\<in>set events. set (pe_evidenceIDs e))"

text \<open>The indexes of the events a kept index stands for.\<close>

definition members :: "(nat \<rightharpoonup> nat) \<Rightarrow> nat \<Rightarrow> nat set" where
  "members p i = (case p i of None \<Rightarrow> {i} | Some v \<Rightarrow> {i, v})"

lemma keep_evidence:
  "set (pe_evidenceIDs (keep p events i)) = (\<Union>k\<in>members p i. set (pe_evidenceIDs (events ! k)))"
  by (auto simp: keep_def members_def split: option.splits)

lemma members_cover:
  assumes "pairing n p" and "k < n"
  shows "\<exists>i<n. kept p i \<and> k \<in> members p i"
proof (cases "p k")
  case None
  then show ?thesis using assms(2) by (intro exI [of _ k]) (simp add: kept_def members_def)
next
  case (Some v)
  note pv = pairingD [OF assms(1) Some]
  show ?thesis
  proof (cases "k < v")
    case True
    then show ?thesis using assms(2) Some by (intro exI [of _ k]) (simp add: kept_def members_def)
  next
    case False
    then show ?thesis using pv by (intro exI [of _ v]) (auto simp: kept_def members_def)
  qed
qed

lemma members_disjoint:
  assumes "pairing n p" and "kept p i" and "kept p j" and "i \<noteq> j"
  shows "members p i \<inter> members p j = {}"
proof (rule ccontr)
  assume "members p i \<inter> members p j \<noteq> {}"
  then obtain k where "k \<in> members p i" "k \<in> members p j" by blast
  then have "k = i \<or> p i = Some k" "k = j \<or> p j = Some k"
    by (auto simp: members_def split: option.splits)
  then consider "p i = Some j" | "p j = Some i" | "p i = Some k" "p j = Some k"
    using assms(4) by blast
  then show False
  proof cases
    case 1
    with pairingD(1) [OF assms(1) 1] assms(2,3) show False by (simp add: kept_def)
  next
    case 2
    with pairingD(1) [OF assms(1) 2] assms(2,3) show False by (simp add: kept_def)
  next
    case 3
    with pairingD(1) [OF assms(1) 3(1)] pairingD(1) [OF assms(1) 3(2)] assms(4) show False by simp
  qed
qed

lemma members_bound: "pairing n p \<Longrightarrow> i < n \<Longrightarrow> k \<in> members p i \<Longrightarrow> k < n"
  using pairingD(4) [of n p i] by (auto simp: members_def split: option.splits)

lemma finite_members [simp]: "finite (members p i)"
  by (auto simp: members_def split: option.splits)

lemma set_coalesceWith:
  "pairing (length events) p \<Longrightarrow> set (coalesceWith p events) = keep p events ` {i. i < length events \<and> kept p i}"
  by (auto simp: coalesceWith_eq)

lemma members_UN:
  assumes "pairing n p"
  shows "(\<Union>i\<in>{i. i < n \<and> kept p i}. members p i) = {..<n}"
  using members_cover [OF assms] members_bound [OF assms] by blast

lemma coalesceWith_evidence:
  assumes "pairing (length events) p"
  shows "evidence_of (coalesceWith p events) = evidence_of events"
proof -
  have "evidence_of (coalesceWith p events) =
      (\<Union>k\<in>(\<Union>i\<in>{i. i < length events \<and> kept p i}. members p i). set (pe_evidenceIDs (events ! k)))"
    unfolding evidence_of_def set_coalesceWith [OF assms] by (simp add: keep_evidence)
  also have "\<dots> = evidence_of events"
    unfolding members_UN [OF assms] evidence_of_def by (force simp: set_conv_nth)
  finally show ?thesis .
qed

text \<open>With distinct identifiers, each is cited by exactly one of the coalesced events.\<close>

definition cited :: "PreparedEvent list \<Rightarrow> gostring list" where
  "cited events = concat (map pe_evidenceIDs events)"

lemma distinct_cited_nth:
  assumes "distinct (cited events)" and "i < length events"
  shows "distinct (pe_evidenceIDs (events ! i))"
  using assms by (auto simp: cited_def distinct_concat_iff)

lemma distinct_cited_disjoint:
  assumes "distinct (cited events)" and "i < length events" and "j < length events" and "i \<noteq> j"
  shows "set (pe_evidenceIDs (events ! i)) \<inter> set (pe_evidenceIDs (events ! j)) = {}"
  using assms
proof (induction events arbitrary: i j)
  case (Cons e es)
  then show ?case by (cases i; cases j) (auto simp: cited_def, (metis disjoint_iff nth_mem UN_I)+)
qed simp

lemma mset_cited: "mset (cited events) = (\<Sum>i<length events. mset (pe_evidenceIDs (events ! i)))"
proof -
  have "mset (cited events) = sum_list (map (\<lambda>e. mset (pe_evidenceIDs e)) events)"
    by (induction events) (simp_all add: cited_def)
  then show ?thesis by (simp add: sum_list_sum_nth atLeast0LessThan)
qed

lemma mset_keep:
  assumes "pairing (length events) p" and "distinct (cited events)" and "i < length events"
  shows "mset (pe_evidenceIDs (keep p events i)) = (\<Sum>k\<in>members p i. mset (pe_evidenceIDs (events ! k)))"
proof (cases "p i")
  case None
  then show ?thesis by (simp add: keep_def members_def)
next
  case (Some v)
  note pv = pairingD [OF assms(1) Some]
  let ?e = "\<lambda>k. pe_evidenceIDs (events ! k)"
  have "set (?e i) \<inter> set (?e v) = {}" using distinct_cited_disjoint [OF assms(2,3) pv(4) pv(2)] .
  moreover have "mset (?e k) = mset_set (set (?e k))" if "k < length events" for k
    using distinct_cited_nth [OF assms(2) that] by (simp add: mset_set_set)
  moreover have "mset (pe_evidenceIDs (mergeCoalesced (events ! i) (events ! v))) =
      mset_set (set (?e i) \<union> set (?e v))"
    by (subst mset_set_set [symmetric]) simp_all
  ultimately show ?thesis
    using Some pv(2,4) assms(3) by (simp add: keep_def members_def mset_set_Union)
qed

lemma mset_cited_perm: "mset xs = mset ys \<Longrightarrow> mset (cited xs) = mset (cited ys)"
proof -
  have "mset (cited zs) = sum_mset (image_mset (\<lambda>e. mset (pe_evidenceIDs e)) (mset zs))" for zs
    by (induction zs) (simp_all add: cited_def)
  then show "mset xs = mset ys \<Longrightarrow> mset (cited xs) = mset (cited ys)" by simp
qed

lemma coalesceWith_cited:
  assumes "pairing (length events) p" and "distinct (cited events)"
  shows "mset (cited (coalesceWith p events)) = mset (cited events)"
proof -
  let ?n = "length events" and ?f = "\<lambda>k. mset (pe_evidenceIDs (events ! k))"
  let ?K = "{i. i < ?n \<and> kept p i}" and ?is = "filter (kept p) [0..<length events]"
  have "mset (cited (coalesceWith p events)) = mset (cited (map (keep p events) ?is))"
    by (rule mset_cited_perm) (simp add: coalesceWith_eq [OF assms(1)])
  also have "\<dots> = sum_list (map (\<lambda>i. mset (pe_evidenceIDs (keep p events i))) ?is)"
    by (simp add: cited_def mset_concat comp_def)
  also have "\<dots> = (\<Sum>i\<in>?K. mset (pe_evidenceIDs (keep p events i)))"
    by (subst sum_list_distinct_conv_sum_set) (auto intro!: sum.cong)
  also have "\<dots> = (\<Sum>i\<in>?K. \<Sum>k\<in>members p i. ?f k)"
    using mset_keep [OF assms] by (auto intro!: sum.cong)
  also have "\<dots> = (\<Sum>k\<in>(\<Union>i\<in>?K. members p i). ?f k)"
    using members_disjoint [OF assms(1)] by (subst sum.UNION_disjoint) auto
  also have "\<dots> = mset (cited events)"
    unfolding members_UN [OF assms(1)] mset_cited ..
  finally show ?thesis .
qed

section \<open>The coalescer\<close>

lemma pairing_pairGroups:
  assumes "times_near events"
  shows "pairing (length events) (pairGroups (coalesceGroups events))"
  unfolding pairing_def
proof (intro allI impI)
  fix k v
  note wg = well_grouped_coalesceGroups [OF assms]
  assume "pairGroups (coalesceGroups events) k = Some v"
  then have "paired_in (set (coalesceGroups events)) k v" using pairGroups_char [OF wg] by simp
  then obtain i cs where cs: "(i, cs) \<in> set (coalesceGroups events)" "length cs \<le> maxCoalesceGroup"
      "pair_of cs cs k v" by (auto simp: paired_in_def)
  then obtain c d where cd: "mates cs c d" "cc_index c = k" "cc_index d = v" by (auto simp: pair_of_def)
  then have dc: "mates cs d c" and mem: "c \<in> set cs" "d \<in> set cs" by (auto simp: mates_def)
  have "pair_of cs cs v k" using dc cd mem unfolding pair_of_def by blast
  with cs have "paired_in (set (coalesceGroups events)) v k" by (auto simp: paired_in_def)
  then have "pairGroups (coalesceGroups events) v = Some k" using pairGroups_char [OF wg] by simp
  moreover have "k \<noteq> v" using mates_opposite [OF cd(1)] cd by (auto simp: oppositeCandidate_def)
  moreover have "k < length events" "v < length events"
    using coalesceGroups_candidates [OF cs(1)] mem cd by auto
  ultimately show "pairGroups (coalesceGroups events) v = Some k \<and> k \<noteq> v \<and>
      k < length events \<and> v < length events" by blast
qed

text \<open>What a merged pair has in common; two strings agree when they are equal or one is not known.\<close>

definition agree :: "gostring \<Rightarrow> gostring \<Rightarrow> bool" where
  "agree s t \<longleftrightarrow> s = [] \<or> t = [] \<or> s = t"

lemma paired_compatible:
  assumes "times_near events" and "pairGroups (coalesceGroups events) k = Some v"
  shows "coalesceIdentity (events ! k) = coalesceIdentity (events ! v) \<and>
    coalesceSource (events ! k) \<noteq> coalesceSource (events ! v) \<and>
    \<bar>pe_At (events ! k) - pe_At (events ! v)\<bar> \<le> 1000000000 \<and>
    agree (eventToolCallID (pe_event (events ! k))) (eventToolCallID (pe_event (events ! v))) \<and>
    agree (pe_Signature (events ! k)) (pe_Signature (events ! v))"
proof -
  note wg = well_grouped_coalesceGroups [OF assms(1)]
  from assms(2) have "paired_in (set (coalesceGroups events)) k v" using pairGroups_char [OF wg] by simp
  then obtain i cs where cs: "(i, cs) \<in> set (coalesceGroups events)" "pair_of cs cs k v"
    by (auto simp: paired_in_def)
  then obtain c d where cd: "mates cs c d" "cc_index c = k" "cc_index d = v" by (auto simp: pair_of_def)
  then have mem: "c \<in> set cs" "d \<in> set cs" by (auto simp: mates_def)
  note c = coalesceGroups_candidates [OF cs(1) mem(1), unfolded cd]
  note d = coalesceGroups_candidates [OF cs(1) mem(2), unfolded cd]
  have o: "oppositeCandidate (candidateOf k (events ! k)) (candidateOf v (events ! v))"
    using mates_opposite [OF cd(1)] c d by metis
  have "near (pe_At (events ! v)) (pe_At (events ! k))" using assms(1) c d by (auto simp: times_near_def)
  then have "within (seconds 1) (pe_At (events ! v)) (pe_At (events ! k)) \<longleftrightarrow>
      \<bar>pe_At (events ! v) - pe_At (events ! k)\<bar> \<le> 1 * 1000000000"
    unfolding near_def by (rule within_seconds) simp
  with o c d show ?thesis
    by (auto simp: oppositeCandidate_def candidateOf_def coalesceWindow_def abs_minus_commute agree_def
        split: if_splits)
qed

lemma coalesceEvents_cases:
  "fst (coalesceEvents c events) = events \<or>
    fst (coalesceEvents c events) = coalesceWith (pairGroups (coalesceGroups events)) events"
  by (auto simp: coalesceEvents_def split: prod.splits option.splits)

lemma coalesceEvents_Live [simp]:
  "coalesceEvents Live events = (coalesceWith (pairGroups (coalesceGroups events)) events, Live)"
  by (simp add: coalesceEvents_def)

lemma coalesceEvents_cited:
  assumes "times_near events" and "distinct (cited events)"
  shows "mset (cited (fst (coalesceEvents c events))) = mset (cited events)"
  using coalesceEvents_cases [of c events] coalesceWith_cited [OF pairing_pairGroups [OF assms(1)] assms(2)]
  by metis

lemma coalesceEvents_evidence:
  "times_near events \<Longrightarrow> evidence_of (fst (coalesceEvents c events)) = evidence_of events"
  using coalesceEvents_cases [of c events] coalesceWith_evidence [OF pairing_pairGroups] by metis

lemma coalesceEvents_sorted:
  assumes "sorted (map event_key events)"
  shows "sorted (map event_key (fst (coalesceEvents c events)))"
  using coalesceEvents_cases [of c events] assms by (auto simp: coalesceWith_def)

section \<open>Properties of the coalescer\<close>

text \<open>The same command seen by a hook and in an artifact, half a second apart.\<close>

definition sample_twice :: "PreparedEvent list" where
  "sample_twice =
    [sample_item (sample_event ''a'' 1 1000000000 ''hook'' ''command.exec'') ''s'',
     sample_item (sample_event ''b'' 2 1500000000 ''artifact'' ''command.exec'') ''s'']"

lemma sample_twice_facts:
  "coalesceIdentity (sample_twice ! 0) = coalesceIdentity (sample_twice ! 1)"
  "coalesceIdentity (sample_twice ! 0) \<noteq> []"
  "list_all nul_free (map pe_event sample_twice)"
  "pairGroups (coalesceGroups sample_twice) 0 = Some 1"
  "length (coalesceWith (pairGroups (coalesceGroups sample_twice)) sample_twice) = 1"
  by code_simp+

lemma sample_twice_near: "times_near sample_twice"
  by (simp add: times_near_def near_def sample_twice_def sample_item_def sample_event_def)

text \<open>
  Two events with the same non-empty coalescing identity agree on the session, the type, the
  actor and the exit code, and on the part of the identity their type contributes (the command
  signature, the tool call, the permission class, the resource or the tool): the NUL separators
  keep the fields apart when no field holds a NUL byte.
\<close>

theorem coalescing_identity_faithful:
  assumes "coalesceIdentity a = coalesceIdentity b" and "coalesceIdentity a \<noteq> []"
    and "nul_free (pe_event a)" and "nul_free (pe_event b)"
  shows "ses_Key (ev_Session (pe_event a)) = ses_Key (ev_Session (pe_event b)) \<and>
    pe_Type a = pe_Type b \<and>
    obs_Actor (ev_Observation (pe_event a)) = obs_Actor (ev_Observation (pe_event b)) \<and>
    obs_ExitCode (ev_Observation (pe_event a)) = obs_ExitCode (ev_Observation (pe_event b)) \<and>
    coalesceTail a = coalesceTail b"
proof -
  obtain s t where s: "coalesceTail a = Some s" "coalesceIdentity a = coalesceBase (pe_event a) @ CHR 0x00 # s"
    and t: "coalesceTail b = Some t" "coalesceIdentity b = coalesceBase (pe_event b) @ CHR 0x00 # t"
    using coalesceIdentity_Some [of a] coalesceIdentity_Some [of b] assms(1, 2) by auto
  from coalesceBase_eq [OF assms(3, 4), of s t] show ?thesis using assms(1) s t by simp
qed

theorem coalescing_identity_faithful_witness:
  "pe_Type (sample_twice ! 0) = pe_Type (sample_twice ! 1)"
  using coalescing_identity_faithful [OF sample_twice_facts(1, 2)] sample_twice_facts(3)
  by (simp add: sample_twice_def)

text \<open>
  The pairs the coalescer merges are compatible: the pairing is symmetric and joins no event
  with itself, and the two events have the same identity, come from different kinds of source
  (one live, one historical), lie within one second of each other, and agree in their tool call
  identifiers and command signatures wherever both are known.
\<close>

theorem coalesced_pairs_compatible:
  assumes "times_near events" and "pairGroups (coalesceGroups events) k = Some v"
  shows "pairGroups (coalesceGroups events) v = Some k \<and> k \<noteq> v \<and> k < length events \<and> v < length events \<and>
    coalesceIdentity (events ! k) = coalesceIdentity (events ! v) \<and>
    coalesceSource (events ! k) \<noteq> coalesceSource (events ! v) \<and>
    \<bar>pe_At (events ! k) - pe_At (events ! v)\<bar> \<le> 1000000000 \<and>
    agree (eventToolCallID (pe_event (events ! k))) (eventToolCallID (pe_event (events ! v))) \<and>
    agree (pe_Signature (events ! k)) (pe_Signature (events ! v))"
  using paired_compatible [OF assms] pairingD [OF pairing_pairGroups [OF assms(1)] assms(2)] by blast

theorem coalesced_pairs_compatible_witness:
  "coalesceSource (sample_twice ! 0) \<noteq> coalesceSource (sample_twice ! 1)"
  using coalesced_pairs_compatible [OF sample_twice_near sample_twice_facts(4)] by blast

text \<open>
  The order in which Go visits the map of candidate groups does not matter: any order of the
  groups gives the same prepared events.
\<close>

theorem coalescing_map_order_irrelevant:
  assumes "times_near events" and "mset groups = mset (coalesceGroups events)"
  shows "coalesceWith (pairGroups groups) events = fst (coalesceEvents Live events)"
  using pairGroups_permute [OF well_grouped_coalesceGroups [OF assms(1)] assms(2) [symmetric]] by simp

theorem coalescing_map_order_irrelevant_witness:
  "coalesceWith (pairGroups (rev (coalesceGroups sample_twice))) sample_twice = fst (coalesceEvents Live sample_twice)"
  by (rule coalescing_map_order_irrelevant [OF sample_twice_near]) simp

end
