(* ===== verification/Detect_Session.thy ===== *)
theory Detect_Session
  imports Detect_Coalesce
begin

text \<open>
  \<open>prepareSession\<close> (\<open>internal/detection/prepare.go\<close>): it refuses a nil context, a blank
  session identifier, a session over the limit and an event of another session; otherwise it
  wraps the events, sorts them, coalesces them and normalizes the scope.
\<close>

datatype prep_error = ErrInvalidSession | ErrSessionLimit | ErrContext ctx_error

definition prepareEvent :: "SessionInput \<Rightarrow> Event \<Rightarrow> PreparedEvent" where
  "prepareEvent input event =
    \<lparr>pe_event = event,
     pe_enrichment = enrichment_of (in_Enrichments input) (ev_EventID event),
     pe_evidenceIDs = [ev_EventID event],
     pe_historical = (his_IsHistorical (ev_Historical event) \<or> ev_Kind event = ''artifact''),
     pe_live = (\<not> his_IsHistorical (ev_Historical event) \<and> ev_Kind event = ''hook'')\<rparr>"

fun prepareLoop ::
    "SessionInput \<Rightarrow> nat \<Rightarrow> Event list \<Rightarrow> PreparedEvent list \<Rightarrow> ctx \<Rightarrow>
     (prep_error + PreparedEvent list) \<times> ctx" where
  "prepareLoop input index [] events c = (Inr events, c)"
| "prepareLoop input index (event # rest) events c =
    (case contextCheck c index of
       (Some e, c') \<Rightarrow> (Inl (ErrContext e), c')
     | (None, c') \<Rightarrow>
         if ses_Key (ev_Session event) \<noteq> [] \<and> ses_Key (ev_Session event) \<noteq> in_SessionID input
         then (Inl ErrInvalidSession, c')
         else prepareLoop input (Suc index) rest (events @ [prepareEvent input event]) c')"

definition prepareSession ::
    "ctx option \<Rightarrow> SessionInput \<Rightarrow> (prep_error + PreparedSession) \<times> ctx option" where
  "prepareSession c0 input =
    (case c0 of
       None \<Rightarrow> (Inl ErrInvalidSession, None)
     | Some c \<Rightarrow>
         if trim_space (in_SessionID input) = [] then (Inl ErrInvalidSession, Some c)
         else if length (in_Events input) > MaxSessionEvents then (Inl ErrSessionLimit, Some c)
         else case prepareLoop input 0 (in_Events input) [] c of
           (Inl e, c') \<Rightarrow> (Inl e, Some c')
         | (Inr events, c') \<Rightarrow>
             (case coalesceEvents c' (sortPreparedEvents events) of
                (events', c'') \<Rightarrow>
                  (Inr \<lparr>ps_sessionID = in_SessionID input,
                        ps_projectScope = trim_space (in_ProjectScope input),
                        ps_scopeQuality = to_lower (trim_space (in_ScopeQuality input)),
                        ps_events = events'\<rparr>, Some c'')))"

section \<open>The loop\<close>

definition foreign_event :: "SessionInput \<Rightarrow> Event \<Rightarrow> bool" where
  "foreign_event input event \<longleftrightarrow>
    ses_Key (ev_Session event) \<noteq> [] \<and> ses_Key (ev_Session event) \<noteq> in_SessionID input"

lemma prepareLoop_Inr:
  "prepareLoop input i es acc c = (Inr r, c') \<Longrightarrow>
    r = acc @ map (prepareEvent input) es \<and> (\<forall>e\<in>set es. \<not> foreign_event input e)"
proof (induction es arbitrary: i acc c)
  case (Cons e es)
  obtain x c1 where "contextCheck c i = (x, c1)" by (cases "contextCheck c i")
  with Cons.prems have own: "\<not> foreign_event input e"
    and rest: "prepareLoop input (Suc i) es (acc @ [prepareEvent input e]) c1 = (Inr r, c')"
    by (auto simp: foreign_event_def split: option.splits if_splits)
  from Cons.IH [OF rest] own show ?case by simp
qed simp

lemma prepareLoop_Live:
  "prepareLoop input i es acc Live =
    ((if \<exists>e\<in>set es. foreign_event input e then Inl ErrInvalidSession
      else Inr (acc @ map (prepareEvent input) es)), Live)"
  by (induction es arbitrary: i acc) (auto simp: foreign_event_def)

lemma prepareLoop_context: "prepareLoop input i es acc c = (Inl (ErrContext e), c') \<Longrightarrow> c' = DoneAfter 0 e"
proof (induction es arbitrary: i acc c)
  case (Cons x es)
  obtain r c1 where "contextCheck c i = (r, c1)" by (cases "contextCheck c i")
  with Cons show ?case by (cases r) (auto dest: contextCheck_done split: if_splits)
qed simp

lemma prepareLoop_not_limit: "prepareLoop input i es acc c \<noteq> (Inl ErrSessionLimit, c')"
  by (induction es arbitrary: i acc c) (auto split: prod.splits option.splits)

section \<open>The prepared session\<close>

definition raw_events :: "SessionInput \<Rightarrow> PreparedEvent list" where
  "raw_events input = sortPreparedEvents (map (prepareEvent input) (in_Events input))"

lemma prepareSession_Inr:
  assumes "prepareSession c0 input = (Inr s, c')"
  shows "\<exists>c. ps_events s = fst (coalesceEvents c (raw_events input))"
    and "ps_sessionID s = in_SessionID input" and "trim_space (in_SessionID input) \<noteq> []"
    and "length (in_Events input) \<le> MaxSessionEvents"
    and "\<forall>e\<in>set (in_Events input). \<not> foreign_event input e"
proof -
  from assms obtain c where c0: "c0 = Some c" and id: "trim_space (in_SessionID input) \<noteq> []"
    and len: "length (in_Events input) \<le> MaxSessionEvents"
    by (auto simp: prepareSession_def split: option.splits if_splits)
  obtain r c1 where loop: "prepareLoop input 0 (in_Events input) [] c = (r, c1)" by force
  with assms c0 id len obtain es where r: "r = Inr es"
    by (cases r) (auto simp: prepareSession_def)
  from prepareLoop_Inr [OF loop [unfolded r]]
  have es: "es = map (prepareEvent input) (in_Events input)"
    and own: "\<forall>e\<in>set (in_Events input). \<not> foreign_event input e" by simp_all
  from assms c0 id len loop r es have
    "ps_events s = fst (coalesceEvents c1 (raw_events input)) \<and> ps_sessionID s = in_SessionID input"
    by (auto simp: prepareSession_def raw_events_def split: prod.splits)
  then show "\<exists>c. ps_events s = fst (coalesceEvents c (raw_events input))"
    and "ps_sessionID s = in_SessionID input" by blast+
  from id len own show "trim_space (in_SessionID input) \<noteq> []"
    "length (in_Events input) \<le> MaxSessionEvents"
    "\<forall>e\<in>set (in_Events input). \<not> foreign_event input e" by simp_all
qed

lemma prepareSession_Live:
  "prepareSession (Some Live) input =
    ((if trim_space (in_SessionID input) = [] then Inl ErrInvalidSession
      else if length (in_Events input) > MaxSessionEvents then Inl ErrSessionLimit
      else if \<exists>e\<in>set (in_Events input). foreign_event input e then Inl ErrInvalidSession
      else Inr \<lparr>ps_sessionID = in_SessionID input,
                ps_projectScope = trim_space (in_ProjectScope input),
                ps_scopeQuality = to_lower (trim_space (in_ScopeQuality input)),
                ps_events = fst (coalesceEvents Live (raw_events input))\<rparr>), Some Live)"
  by (simp add: prepareSession_def prepareLoop_Live raw_events_def)

text \<open>Every timestamp of the input lies within the range of a duration of every other.\<close>

definition input_near :: "SessionInput \<Rightarrow> bool" where
  "input_near input \<longleftrightarrow>
    (\<forall>e\<in>set (in_Events input). \<forall>f\<in>set (in_Events input). near (ev_OccurredAt e) (ev_OccurredAt f))"

lemma times_near_raw: "input_near input \<Longrightarrow> times_near (raw_events input)"
  by (simp add: input_near_def times_near_def raw_events_def prepareEvent_def)

lemma cited_raw: "mset (cited (raw_events input)) = mset (map ev_EventID (in_Events input))"
proof -
  have "mset (cited (raw_events input)) = mset (cited (map (prepareEvent input) (in_Events input)))"
    by (rule mset_cited_perm) (simp add: raw_events_def)
  also have "cited (map (prepareEvent input) es) = map ev_EventID es" for es
    by (induction es) (simp_all add: cited_def prepareEvent_def)
  finally show ?thesis .
qed

section \<open>Properties of a prepared session\<close>

text \<open>The session of the two events.\<close>

definition sample_input :: SessionInput where
  "sample_input = \<lparr>in_SessionID = ''k'', in_ProjectScope = ''p'', in_ScopeQuality = ''exact'',
     in_Events = map pe_event sample_twice,
     in_Enrichments = [''a'' \<mapsto> pe_enrichment (sample_twice ! 0), ''b'' \<mapsto> pe_enrichment (sample_twice ! 1)]\<rparr>"

text \<open>
  C3. Preparing a session loses and duplicates no evidence: when the events have distinct
  identifiers and times within 292 years of each other, the prepared events cite every
  identifier of the input exactly once, whatever is merged and even when the context ends the
  coalescing, and they are in the order of sequence, time and identifier.
\<close>

theorem prepared_session_cites_every_event_once:
  assumes "prepareSession c0 input = (Inr s, c')" and "input_near input"
    and "distinct (map ev_EventID (in_Events input))"
  shows "mset (cited (ps_events s)) = mset (map ev_EventID (in_Events input)) \<and>
    sorted (map event_key (ps_events s))"
proof -
  obtain c where s: "ps_events s = fst (coalesceEvents c (raw_events input))"
    using prepareSession_Inr(1) [OF assms(1)] by blast
  have "distinct (cited (raw_events input))"
    using assms(3) cited_raw [of input] mset_eq_imp_distinct_iff by blast
  then have "mset (cited (ps_events s)) = mset (cited (raw_events input))"
    unfolding s by (intro coalesceEvents_cited times_near_raw assms(2))
  then show ?thesis using cited_raw [of input] by (simp add: s coalesceEvents_sorted raw_events_def)
qed

theorem prepared_session_cites_every_event_once_witness:
  "\<exists>s. prepareSession (Some Live) sample_input = (Inr s, Some Live) \<and>
    length (ps_events s) = 1 \<and> mset (cited (ps_events s)) = {#''a'', ''b''#}"
proof -
  have 1: "case fst (prepareSession (Some Live) sample_input) of Inl e \<Rightarrow> False | Inr s \<Rightarrow> length (ps_events s) = 1"
    by code_simp
  have 2: "snd (prepareSession (Some Live) sample_input) = Some Live"
    by (simp add: prepareSession_Live)
  obtain r where r: "prepareSession (Some Live) sample_input = (r, Some Live)"
    using 2 by (cases "prepareSession (Some Live) sample_input") simp
  with 1 obtain s where s: "prepareSession (Some Live) sample_input = (Inr s, Some Live)" "length (ps_events s) = 1"
    by (cases r) simp_all
  have 3: "input_near sample_input"
    by (simp add: input_near_def near_def sample_input_def sample_twice_def sample_item_def sample_event_def)
  have 4: "map ev_EventID (in_Events sample_input) = [''a'', ''b'']"
    by (simp add: sample_input_def sample_twice_def sample_item_def sample_event_def)
  show ?thesis
    using s prepared_session_cites_every_event_once [OF s(1) 3] by (auto simp: 4)
qed

end
