(* ===== verification/Detect_Attempts.thy ===== *)
theory Detect_Attempts
  imports Detect_Session
begin

text \<open>
  Command attempts (\<open>internal/detection/attempts.go\<close>). A session's \<open>command.exec\<close> and
  \<open>command.result\<close> events become attempts: an execution and its result are one attempt when a
  tool-call identifier used exactly once on each side links them, or when the result directly
  follows an execution and neither carries an identifier; every other event with a signature is
  an attempt of its own.
\<close>

section \<open>Outcomes\<close>

datatype explicitOutcome = outcomeUnknown | outcomeSucceeded | outcomeFailed

datatype commandAttemptTrust =
  trustUnpairedResult | trustExecObservation | trustAdjacentPair | trustToolCallPair

fun paired :: "commandAttemptTrust \<Rightarrow> bool" where
  "paired trust = (trust = trustAdjacentPair \<or> trust = trustToolCallPair)"

fun trustworthyPair :: "commandAttemptTrust \<Rightarrow> bool" where
  "trustworthyPair trust = paired trust"

fun failureConfidence :: "commandAttemptTrust \<Rightarrow> gostring" where
  "failureConfidence trust = (if trust = trustUnpairedResult then ConfidenceLow else ConfidenceHigh)"

definition adjacentPairWindow :: duration where
  "adjacentPairWindow = seconds 5"

definition outcomeFromCode :: "int option \<Rightarrow> explicitOutcome" where
  "outcomeFromCode exitCode =
    (case exitCode of
       None \<Rightarrow> outcomeUnknown
     | Some code \<Rightarrow> if code = 0 then outcomeSucceeded else outcomeFailed)"

definition outcomeFromValue :: "gostring \<Rightarrow> explicitOutcome" where
  "outcomeFromValue value =
    (let v = to_lower (trim_space value) in
     if v = ''succeeded'' then outcomeSucceeded
     else if v = ''failed'' then outcomeFailed
     else outcomeUnknown)"

definition explicitEventOutcomeDetails :: "int option \<Rightarrow> gostring \<Rightarrow> explicitOutcome \<times> bool" where
  "explicitEventOutcomeDetails exitCode value =
    (let fromCode = outcomeFromCode exitCode; fromValue = outcomeFromValue value in
     if fromCode \<noteq> outcomeUnknown \<and> fromValue \<noteq> outcomeUnknown \<and> fromCode \<noteq> fromValue
     then (outcomeUnknown, True)
     else if fromCode \<noteq> outcomeUnknown then (fromCode, False)
     else (fromValue, False))"

definition explicitEventOutcome :: "int option \<Rightarrow> gostring \<Rightarrow> explicitOutcome" where
  "explicitEventOutcome exitCode value = fst (explicitEventOutcomeDetails exitCode value)"

abbreviation itemOutcome :: "PreparedEvent \<Rightarrow> explicitOutcome \<times> bool" where
  "itemOutcome item \<equiv>
    explicitEventOutcomeDetails (obs_ExitCode (ev_Observation (pe_event item)))
      (obs_Outcome (ev_Observation (pe_event item)))"

text \<open>What an event reports: by its exit code or by its outcome.\<close>

definition reports :: "explicitOutcome \<Rightarrow> PreparedEvent \<Rightarrow> bool" where
  "reports r item \<longleftrightarrow> r \<noteq> outcomeUnknown \<and>
    (outcomeFromCode (obs_ExitCode (ev_Observation (pe_event item))) = r \<or>
     outcomeFromValue (obs_Outcome (ev_Observation (pe_event item))) = r)"

lemma itemOutcome_reports:
  "itemOutcome item =
    (if reports outcomeFailed item \<and> reports outcomeSucceeded item then (outcomeUnknown, True)
     else if reports outcomeFailed item then (outcomeFailed, False)
     else if reports outcomeSucceeded item then (outcomeSucceeded, False)
     else (outcomeUnknown, False))"
  by (cases "outcomeFromCode (obs_ExitCode (ev_Observation (pe_event item)))";
      cases "outcomeFromValue (obs_Outcome (ev_Observation (pe_event item)))")
    (simp_all add: explicitEventOutcomeDetails_def reports_def Let_def)

section \<open>Attempts\<close>

record commandAttempt =
  at_signature :: gostring
  at_class :: gostring
  at_events :: "PreparedEvent list"
  at_first :: time
  at_last :: time
  at_firstPos :: nat
  at_lastPos :: nat
  at_outcome :: explicitOutcome
  at_conflict :: bool
  at_trust :: commandAttemptTrust
  at_repetitionEligible :: bool
  at_classConflict :: bool

definition newAttempt :: "PreparedEvent \<Rightarrow> nat \<Rightarrow> gostring \<Rightarrow> commandAttempt" where
  "newAttempt item position eventType =
    (let (outcome, conflict) = itemOutcome item;
         trust = (if eventType = ''command.exec'' then trustExecObservation else trustUnpairedResult)
     in \<lparr>at_signature = pe_Signature item,
         at_class = normalizedCommandClass (enr_CommandClass (pe_enrichment item)),
         at_events = [item], at_first = pe_At item, at_last = pe_At item,
         at_firstPos = position, at_lastPos = position, at_outcome = outcome,
         at_conflict = conflict, at_trust = trust, at_repetitionEligible = True,
         at_classConflict = False\<rparr>)"

definition mergeOutcome :: "explicitOutcome \<times> bool \<Rightarrow> explicitOutcome \<times> bool \<Rightarrow> explicitOutcome \<times> bool" where
  "mergeOutcome old new =
    (let (attemptOutcome, attemptConflict) = old; (outcome, conflict) = new in
     if conflict then (outcomeUnknown, True)
     else if outcome \<noteq> outcomeUnknown then
       (if attemptConflict then (outcomeUnknown, attemptConflict)
        else if attemptOutcome = outcomeUnknown then (outcome, attemptConflict)
        else if attemptOutcome \<noteq> outcome then (outcomeUnknown, True)
        else (attemptOutcome, attemptConflict))
     else (attemptOutcome, attemptConflict))"

definition mergeClass :: "gostring \<times> bool \<Rightarrow> gostring \<Rightarrow> gostring \<times> bool" where
  "mergeClass old incomingClass =
    (let (class, classConflict) = old in
     if classConflict then (CommandClassUnknown, classConflict)
     else if class = CommandClassUnknown then (incomingClass, classConflict)
     else if incomingClass \<noteq> CommandClassUnknown \<and> incomingClass \<noteq> class
     then (CommandClassUnknown, True)
     else (class, classConflict))"

definition mergeAttempt ::
    "commandAttempt \<Rightarrow> PreparedEvent \<Rightarrow> nat \<Rightarrow> commandAttemptTrust \<Rightarrow> commandAttempt" where
  "mergeAttempt attempt item position trust =
    (let (outcome, conflict) = mergeOutcome (at_outcome attempt, at_conflict attempt) (itemOutcome item);
         (class, classConflict) =
           (if pe_Signature item = [] then (at_class attempt, at_classConflict attempt)
            else mergeClass (at_class attempt, at_classConflict attempt)
                   (normalizedCommandClass (enr_CommandClass (pe_enrichment item))))
     in attempt\<lparr>at_events := at_events attempt @ [item],
          at_first := (if pe_At item < at_first attempt then pe_At item else at_first attempt),
          at_last := (if pe_At item > at_last attempt then pe_At item else at_last attempt),
          at_lastPos := position, at_trust := trust,
          at_outcome := outcome, at_conflict := conflict,
          at_class := class, at_classConflict := classConflict\<rparr>)"

section \<open>Pairing executions and results\<close>

record toolCallMultiplicity =
  tm_execs :: nat
  tm_results :: nat

definition multiplicityOf :: "(gostring \<rightharpoonup> toolCallMultiplicity) \<Rightarrow> gostring \<Rightarrow> toolCallMultiplicity" where
  "multiplicityOf m k = (case m k of None \<Rightarrow> \<lparr>tm_execs = 0, tm_results = 0\<rparr> | Some n \<Rightarrow> n)"

definition countToolCall ::
    "(gostring \<rightharpoonup> toolCallMultiplicity) \<Rightarrow> PreparedEvent \<Rightarrow> (gostring \<rightharpoonup> toolCallMultiplicity)" where
  "countToolCall result item =
    (let toolCallID = eventToolCallID (pe_event item); counts = multiplicityOf result toolCallID in
     if toolCallID = [] then result
     else if pe_Type item = ''command.exec'' then
       result(toolCallID \<mapsto> counts\<lparr>tm_execs := tm_execs counts + 1\<rparr>)
     else if pe_Type item = ''command.result'' then
       result(toolCallID \<mapsto> counts\<lparr>tm_results := tm_results counts + 1\<rparr>)
     else result)"

definition commandToolCallMultiplicity :: "PreparedEvent list \<Rightarrow> (gostring \<rightharpoonup> toolCallMultiplicity)" where
  "commandToolCallMultiplicity events = foldl countToolCall Map.empty events"

definition resultMatchesAttemptIdentity :: "PreparedEvent \<Rightarrow> commandAttempt \<Rightarrow> bool" where
  "resultMatchesAttemptIdentity item attempt \<longleftrightarrow>
    at_signature attempt \<noteq> [] \<and>
    (pe_Signature item = [] \<or> pe_Signature item = at_signature attempt)"

definition adjacentExecWithoutID :: "PreparedEvent list \<Rightarrow> nat \<Rightarrow> bool" where
  "adjacentExecWithoutID events position =
    (if position \<le> 0 then False
     else let previous = events ! (position - 1) in
       pe_Type previous = ''command.exec'' \<and> eventToolCallID (pe_event previous) = [] \<and>
       within adjacentPairWindow (pe_At (events ! position)) (pe_At previous))"

type_synonym attempt_state = "commandAttempt list \<times> (gostring \<rightharpoonup> nat)"

definition once :: "(gostring \<rightharpoonup> toolCallMultiplicity) \<Rightarrow> gostring \<Rightarrow> bool" where
  "once multiplicity toolCallID \<longleftrightarrow>
    tm_execs (multiplicityOf multiplicity toolCallID) = 1 \<and>
    tm_results (multiplicityOf multiplicity toolCallID) = 1"

text \<open>
  A result that completes an earlier execution: the new state of the loop, or None where the
  loop goes on to record the result on its own.
\<close>

definition completeAttempt ::
    "(gostring \<rightharpoonup> toolCallMultiplicity) \<Rightarrow> PreparedEvent list \<Rightarrow> attempt_state \<Rightarrow> nat \<Rightarrow> attempt_state option" where
  "completeAttempt multiplicity events st position =
    (let (attempts, pending) = st; item = events ! position;
         toolCallID = eventToolCallID (pe_event item) in
     if toolCallID \<noteq> [] then
       (if once multiplicity toolCallID then
          (case pending toolCallID of
             None \<Rightarrow> None
           | Some index \<Rightarrow>
               if resultMatchesAttemptIdentity item (attempts ! index)
               then Some (attempts[index := mergeAttempt (attempts ! index) item position trustToolCallPair],
                          pending(toolCallID := None))
               else None)
        else None)
     else if position > 0 \<and> attempts \<noteq> [] then
       (let previous = events ! (position - 1); candidate = last attempts in
        if pe_Type previous = ''command.exec'' \<and> eventToolCallID (pe_event previous) = [] \<and>
           at_lastPos candidate = position - 1 \<and> resultMatchesAttemptIdentity item candidate \<and>
           within adjacentPairWindow (pe_At item) (pe_At previous)
        then Some (attempts[length attempts - 1 := mergeAttempt candidate item position trustAdjacentPair], pending)
        else None)
     else None)"

definition recordAttempt ::
    "(gostring \<rightharpoonup> toolCallMultiplicity) \<Rightarrow> PreparedEvent list \<Rightarrow> attempt_state \<Rightarrow> nat \<Rightarrow> attempt_state" where
  "recordAttempt multiplicity events st position =
    (let (attempts, pending) = st; item = events ! position; eventType = pe_Type item;
         toolCallID = eventToolCallID (pe_event item) in
     if pe_Signature item = [] then st
     else
       let attempt = newAttempt item position eventType;
           ineligible = (eventType = ''command.result'' \<and>
             (if toolCallID \<noteq> [] \<and> tm_execs (multiplicityOf multiplicity toolCallID) > 0 then True
              else adjacentExecWithoutID events position));
           attempt = (if ineligible then attempt\<lparr>at_repetitionEligible := False\<rparr> else attempt);
           pending = (if eventType = ''command.exec'' \<and> toolCallID \<noteq> [] \<and> once multiplicity toolCallID
                      then pending(toolCallID \<mapsto> length attempts) else pending)
       in (attempts @ [attempt], pending))"

definition attemptStep ::
    "(gostring \<rightharpoonup> toolCallMultiplicity) \<Rightarrow> PreparedEvent list \<Rightarrow> attempt_state \<Rightarrow> nat \<Rightarrow> attempt_state" where
  "attemptStep multiplicity events st position =
    (let eventType = pe_Type (events ! position) in
     if eventType \<noteq> ''command.exec'' \<and> eventType \<noteq> ''command.result'' then st
     else if eventType = ''command.result'' then
       (case completeAttempt multiplicity events st position of
          Some st' \<Rightarrow> st'
        | None \<Rightarrow> recordAttempt multiplicity events st position)
     else recordAttempt multiplicity events st position)"

definition attemptsUpTo :: "PreparedEvent list \<Rightarrow> nat \<Rightarrow> attempt_state" where
  "attemptsUpTo events n =
    foldl (attemptStep (commandToolCallMultiplicity events) events) ([], Map.empty) [0..<n]"

definition attemptsOf :: "PreparedEvent list \<Rightarrow> commandAttempt list" where
  "attemptsOf events = fst (attemptsUpTo events (length events))"

text \<open>\<open>commandAttempts\<close>: one checked pass counts the tool calls, another builds the attempts.\<close>

definition commandAttempts ::
    "ctx \<Rightarrow> PreparedSession \<Rightarrow> (ctx_error + commandAttempt list) \<times> ctx" where
  "commandAttempts c session =
    (case contextLoop 0 (length (ps_events session)) c of
       (Some e, c') \<Rightarrow> (Inl e, c')
     | (None, c') \<Rightarrow>
         (case contextLoop 0 (length (ps_events session)) c' of
            (Some e, c'') \<Rightarrow> (Inl e, c'')
          | (None, c'') \<Rightarrow> (Inr (attemptsOf (ps_events session)), c'')))"


section \<open>The shape of an attempt\<close>

text \<open>
  An attempt is one command event, or an execution and a later result of the same command. Its
  trust says how the two were linked.
\<close>

definition single_of :: "PreparedEvent list \<Rightarrow> gostring \<Rightarrow> commandAttempt \<Rightarrow> bool" where
  "single_of events type a \<longleftrightarrow>
    at_lastPos a = at_firstPos a \<and> at_events a = [events ! at_firstPos a] \<and>
    pe_Type (events ! at_firstPos a) = type"

definition pair_shape :: "PreparedEvent list \<Rightarrow> commandAttempt \<Rightarrow> bool" where
  "pair_shape events a \<longleftrightarrow>
    at_firstPos a < at_lastPos a \<and>
    at_events a = [events ! at_firstPos a, events ! at_lastPos a] \<and>
    pe_Type (events ! at_firstPos a) = ''command.exec'' \<and>
    pe_Type (events ! at_lastPos a) = ''command.result'' \<and>
    (pe_Signature (events ! at_lastPos a) = [] \<or> pe_Signature (events ! at_lastPos a) = at_signature a) \<and>
    eventToolCallID (pe_event (events ! at_lastPos a)) = eventToolCallID (pe_event (events ! at_firstPos a))"

definition attempt_shape :: "PreparedEvent list \<Rightarrow> commandAttempt \<Rightarrow> bool" where
  "attempt_shape events a \<longleftrightarrow>
    at_lastPos a < length events \<and>
    at_signature a = pe_Signature (events ! at_firstPos a) \<and> at_signature a \<noteq> [] \<and>
    (case at_trust a of
       trustUnpairedResult \<Rightarrow> single_of events ''command.result'' a
     | trustExecObservation \<Rightarrow> single_of events ''command.exec'' a
     | trustAdjacentPair \<Rightarrow> pair_shape events a \<and> at_lastPos a = at_firstPos a + 1 \<and>
         eventToolCallID (pe_event (events ! at_firstPos a)) = [] \<and>
         within adjacentPairWindow (pe_At (events ! at_lastPos a)) (pe_At (events ! at_firstPos a))
     | trustToolCallPair \<Rightarrow> pair_shape events a \<and>
         eventToolCallID (pe_event (events ! at_firstPos a)) \<noteq> [] \<and>
         once (commandToolCallMultiplicity events) (eventToolCallID (pe_event (events ! at_firstPos a))))"

definition positions :: "commandAttempt \<Rightarrow> nat set" where
  "positions a = {at_firstPos a, at_lastPos a}"

definition command_event :: "PreparedEvent \<Rightarrow> bool" where
  "command_event item \<longleftrightarrow> pe_Type item = ''command.exec'' \<or> pe_Type item = ''command.result''"

section \<open>The loop invariant\<close>

definition attempts_inv :: "PreparedEvent list \<Rightarrow> nat \<Rightarrow> attempt_state \<Rightarrow> bool" where
  "attempts_inv events n st \<longleftrightarrow>
    (\<forall>a\<in>set (fst st). attempt_shape events a \<and> at_firstPos a < n \<and> at_lastPos a < n) \<and>
    (\<forall>i j. i < j \<and> j < length (fst st) \<longrightarrow>
      at_firstPos (fst st ! i) < at_firstPos (fst st ! j) \<and> positions (fst st ! i) \<inter> positions (fst st ! j) = {}) \<and>
    (\<forall>k<n. command_event (events ! k) \<and> pe_Signature (events ! k) \<noteq> [] \<longrightarrow>
      (\<exists>a\<in>set (fst st). k \<in> positions a)) \<and>
    (\<forall>t i. snd st t = Some i \<longrightarrow> t \<noteq> [] \<and> i < length (fst st) \<and>
      at_trust (fst st ! i) = trustExecObservation \<and>
      eventToolCallID (pe_event (events ! at_firstPos (fst st ! i))) = t)"

lemma attempts_inv_init: "attempts_inv events 0 ([], Map.empty)"
  by (simp add: attempts_inv_def)

lemma newAttempt_simps [simp]:
  "at_signature (newAttempt item p t) = pe_Signature item"
  "at_events (newAttempt item p t) = [item]"
  "at_firstPos (newAttempt item p t) = p" "at_lastPos (newAttempt item p t) = p"
  "at_trust (newAttempt item p t) =
    (if t = ''command.exec'' then trustExecObservation else trustUnpairedResult)"
  "at_repetitionEligible (newAttempt item p t)"
  "at_first (newAttempt item p t) = pe_At item" "at_last (newAttempt item p t) = pe_At item"
  by (simp_all add: newAttempt_def split: prod.splits)

lemma mergeAttempt_simps [simp]:
  "at_signature (mergeAttempt a item p t) = at_signature a"
  "at_events (mergeAttempt a item p t) = at_events a @ [item]"
  "at_firstPos (mergeAttempt a item p t) = at_firstPos a" "at_lastPos (mergeAttempt a item p t) = p"
  "at_trust (mergeAttempt a item p t) = t"
  "at_repetitionEligible (mergeAttempt a item p t) = at_repetitionEligible a"
  "at_first (mergeAttempt a item p t) = (if pe_At item < at_first a then pe_At item else at_first a)"
  "at_last (mergeAttempt a item p t) = (if pe_At item > at_last a then pe_At item else at_last a)"
  by (simp_all add: mergeAttempt_def split: prod.splits)

text \<open>An attempt appended for a new position.\<close>

lemma inv_append:
  assumes inv: "attempts_inv events n (as, pd)" and sh: "attempt_shape events a"
    and pos: "at_firstPos a = n" "at_lastPos a = n"
    and pd: "\<forall>t i. pd' t = Some i \<longrightarrow> pd t = Some i \<or>
      (i = length as \<and> t \<noteq> [] \<and> at_trust a = trustExecObservation \<and>
       eventToolCallID (pe_event (events ! n)) = t)"
  shows "attempts_inv events (Suc n) (as @ [a], pd')"
proof -
  have old: "\<forall>x\<in>set as. attempt_shape events x \<and> at_firstPos x < n \<and> at_lastPos x < n"
    using inv by (simp add: attempts_inv_def)
  have 1: "\<forall>x\<in>set (as @ [a]). attempt_shape events x \<and> at_firstPos x < Suc n \<and> at_lastPos x < Suc n"
    using old sh pos by (auto simp: less_Suc_eq)
  have 2: "at_firstPos ((as @ [a]) ! i) < at_firstPos ((as @ [a]) ! j) \<and>
      positions ((as @ [a]) ! i) \<inter> positions ((as @ [a]) ! j) = {}" if "i < j" "j < length (as @ [a])" for i j
  proof (cases "j < length as")
    case True
    then show ?thesis using inv that by (simp add: attempts_inv_def nth_append)
  next
    case False
    with that have j: "j = length as" "i < length as" by auto
    with old have "at_firstPos (as ! i) < n \<and> at_lastPos (as ! i) < n" by simp
    then show ?thesis using j pos by (auto simp: nth_append positions_def)
  qed
  have 3: "\<exists>x\<in>set (as @ [a]). k \<in> positions x"
    if k: "k < Suc n" "command_event (events ! k) \<and> pe_Signature (events ! k) \<noteq> []" for k
  proof (cases "k = n")
    case True
    then show ?thesis using pos by (auto simp: positions_def)
  next
    case False
    then have "k < n" using k by simp
    then obtain x where "x \<in> set as" "k \<in> positions x"
      using inv k(2) by (auto simp: attempts_inv_def)
    then show ?thesis by auto
  qed
  have 4: "t \<noteq> [] \<and> i < length (as @ [a]) \<and> at_trust ((as @ [a]) ! i) = trustExecObservation \<and>
      eventToolCallID (pe_event (events ! at_firstPos ((as @ [a]) ! i))) = t" if "pd' t = Some i" for t i
  proof -
    from that pd consider "pd t = Some i" | "i = length as \<and> t \<noteq> [] \<and> at_trust a = trustExecObservation \<and>
       eventToolCallID (pe_event (events ! n)) = t" by blast
    then show ?thesis
    proof cases
      case 1
      then have "t \<noteq> [] \<and> i < length as \<and> at_trust (as ! i) = trustExecObservation \<and>
          eventToolCallID (pe_event (events ! at_firstPos (as ! i))) = t"
        using inv by (simp add: attempts_inv_def)
      then show ?thesis by (simp add: nth_append)
    next
      case 2
      then show ?thesis using pos by simp
    qed
  qed
  show ?thesis unfolding attempts_inv_def using 1 2 3 4 by simp
qed

text \<open>A position that starts no attempt and ends none.\<close>

lemma inv_skip:
  assumes "attempts_inv events n (as, pd)"
    and "\<not> (command_event (events ! n) \<and> pe_Signature (events ! n) \<noteq> [])"
  shows "attempts_inv events (Suc n) (as, pd)"
  using assms by (auto simp: attempts_inv_def less_Suc_eq)

text \<open>A result merged into the attempt at index \<open>m\<close>.\<close>

lemma inv_merge:
  assumes inv: "attempts_inv events n (as, pd)" and m: "m < length as"
    and sh: "attempt_shape events (mergeAttempt (as ! m) (events ! n) n trust)"
    and tr: "at_trust (as ! m) = trustExecObservation"
    and pd: "\<forall>t i. pd' t = Some i \<longrightarrow> pd t = Some i \<and> i \<noteq> m"
  shows "attempts_inv events (Suc n) (as[m := mergeAttempt (as ! m) (events ! n) n trust], pd')"
proof -
  let ?a = "mergeAttempt (as ! m) (events ! n) n trust" and ?as = "as[m := mergeAttempt (as ! m) (events ! n) n trust]"
  have old: "\<forall>x\<in>set as. attempt_shape events x \<and> at_firstPos x < n \<and> at_lastPos x < n"
    using inv by (simp add: attempts_inv_def)
  have "attempt_shape events (as ! m)" using old m by simp
  then have single: "at_lastPos (as ! m) = at_firstPos (as ! m)"
    using tr by (simp add: attempt_shape_def single_of_def)
  have posa: "positions ?a = insert n (positions (as ! m))"
    using single by (auto simp: positions_def)
  have 1: "\<forall>x\<in>set ?as. attempt_shape events x \<and> at_firstPos x < Suc n \<and> at_lastPos x < Suc n"
  proof
    fix x
    assume "x \<in> set ?as"
    then have "x = ?a \<or> x \<in> set as" using set_update_subset_insert by fastforce
    moreover have "at_firstPos (as ! m) < n" using old m by simp
    ultimately show "attempt_shape events x \<and> at_firstPos x < Suc n \<and> at_lastPos x < Suc n"
      using sh old by auto
  qed
  have new: "n \<notin> positions (as ! i)" if "i < length as" for i
    using old that by (auto simp: positions_def dest: nth_mem)
  have 2: "at_firstPos (?as ! i) < at_firstPos (?as ! j) \<and> positions (?as ! i) \<inter> positions (?as ! j) = {}"
    if "i < j" "j < length ?as" for i j
  proof -
    have ij: "at_firstPos (as ! i) < at_firstPos (as ! j) \<and> positions (as ! i) \<inter> positions (as ! j) = {}"
      using inv that by (simp add: attempts_inv_def)
    have lt: "i < length as" "j < length as" "i \<noteq> j" using that by simp_all
    then show ?thesis using ij posa new [of i] new [of j] m by (auto simp: nth_list_update)
  qed
  have 3: "\<exists>x\<in>set ?as. k \<in> positions x"
    if k: "k < Suc n" "command_event (events ! k) \<and> pe_Signature (events ! k) \<noteq> []" for k
  proof (cases "k = n")
    case True
    then show ?thesis using m posa set_update_memI [OF m] by blast
  next
    case False
    then have "k < n" using k by simp
    then obtain x where "x \<in> set as" "k \<in> positions x"
      using inv k(2) by (auto simp: attempts_inv_def)
    then obtain i where i: "i < length as" "k \<in> positions (as ! i)" by (auto simp: in_set_conv_nth)
    then have "k \<in> positions (?as ! i)" using posa m by (auto simp: nth_list_update)
    then show ?thesis using i(1) nth_mem [of i ?as] by auto
  qed
  have 4: "t \<noteq> [] \<and> i < length ?as \<and> at_trust (?as ! i) = trustExecObservation \<and>
      eventToolCallID (pe_event (events ! at_firstPos (?as ! i))) = t" if "pd' t = Some i" for t i
  proof -
    have "pd t = Some i" "i \<noteq> m" using pd that by auto
    then show ?thesis using inv by (simp add: attempts_inv_def)
  qed
  show ?thesis unfolding attempts_inv_def using 1 2 3 4 by simp
qed


lemma attempt_shape_new:
  assumes "n < length events" and "command_event (events ! n)" and "pe_Signature (events ! n) \<noteq> []"
  shows "attempt_shape events (newAttempt (events ! n) n (pe_Type (events ! n)))"
    and "attempt_shape events ((newAttempt (events ! n) n (pe_Type (events ! n)))\<lparr>at_repetitionEligible := b\<rparr>)"
  using assms by (auto simp: attempt_shape_def single_of_def command_event_def)

lemma recordAttempt_inv:
  assumes inv: "attempts_inv events n st" and n: "n < length events" and cmd: "command_event (events ! n)"
    and st': "recordAttempt (commandToolCallMultiplicity events) events st n = st'"
  shows "attempts_inv events (Suc n) st'"
proof -
  let ?item = "events ! n" and ?M = "commandToolCallMultiplicity events"
  obtain as pd where st: "st = (as, pd)" by (cases st)
  show ?thesis
  proof (cases "pe_Signature ?item = []")
    case True
    then have "st' = (as, pd)" using st' st by (simp add: recordAttempt_def)
    moreover have "attempts_inv events (Suc n) (as, pd)"
      using inv True by (intro inv_skip) (simp_all add: st)
    ultimately show ?thesis by simp
  next
    case False
    let ?t = "eventToolCallID (pe_event ?item)"
    let ?new = "newAttempt ?item n (pe_Type ?item)"
    define a where "a = (if pe_Type ?item = ''command.result'' \<and>
        (if ?t \<noteq> [] \<and> tm_execs (multiplicityOf ?M ?t) > 0 then True else adjacentExecWithoutID events n)
        then ?new\<lparr>at_repetitionEligible := False\<rparr> else ?new)"
    define pd' where "pd' = (if pe_Type ?item = ''command.exec'' \<and> ?t \<noteq> [] \<and> once ?M ?t
        then pd(?t \<mapsto> length as) else pd)"
    have st'_eq: "st' = (as @ [a], pd')"
      using st' False unfolding st recordAttempt_def a_def pd'_def by (simp add: Let_def)
    have sh: "attempt_shape events a"
      unfolding a_def using attempt_shape_new [OF n cmd False] by presburger
    have pos: "at_firstPos a = n" "at_lastPos a = n" by (simp_all add: a_def)
    have tr: "at_trust a = trustExecObservation" if "pe_Type ?item = ''command.exec''"
      using that by (simp add: a_def)
    have "pd t = Some i \<or> (i = length as \<and> t \<noteq> [] \<and> at_trust a = trustExecObservation \<and> ?t = t)"
      if "pd' t = Some i" for t i
      using that tr by (auto simp: pd'_def split: if_splits)
    then show ?thesis unfolding st'_eq using inv sh pos by (intro inv_append) (auto simp: st)
  qed
qed

lemma shape_merge:
  assumes sh: "attempt_shape events a" and tr: "at_trust a = trustExecObservation"
    and pos: "at_firstPos a < n" and n: "n < length events" and res: "pe_Type (events ! n) = ''command.result''"
    and m: "resultMatchesAttemptIdentity (events ! n) a"
    and t: "eventToolCallID (pe_event (events ! n)) = eventToolCallID (pe_event (events ! at_firstPos a))"
  shows "eventToolCallID (pe_event (events ! n)) \<noteq> [] \<Longrightarrow>
      once (commandToolCallMultiplicity events) (eventToolCallID (pe_event (events ! n))) \<Longrightarrow>
      attempt_shape events (mergeAttempt a (events ! n) n trustToolCallPair)"
    and "eventToolCallID (pe_event (events ! n)) = [] \<Longrightarrow> n = at_firstPos a + 1 \<Longrightarrow>
      within adjacentPairWindow (pe_At (events ! n)) (pe_At (events ! at_firstPos a)) \<Longrightarrow>
      attempt_shape events (mergeAttempt a (events ! n) n trustAdjacentPair)"
  using assms by (auto simp: attempt_shape_def single_of_def pair_shape_def resultMatchesAttemptIdentity_def)

lemma shape_exec_last:
  "attempt_shape events a \<Longrightarrow> pe_Type (events ! at_lastPos a) = ''command.exec'' \<Longrightarrow>
    at_trust a = trustExecObservation \<and> at_firstPos a = at_lastPos a"
  by (cases "at_trust a") (auto simp: attempt_shape_def single_of_def pair_shape_def)

lemma completeAttempt_inv:
  assumes inv: "attempts_inv events n st" and n: "n < length events"
    and res: "pe_Type (events ! n) = ''command.result''"
    and st': "completeAttempt (commandToolCallMultiplicity events) events st n = Some st'"
  shows "attempts_inv events (Suc n) st'"
proof -
  let ?item = "events ! n" and ?M = "commandToolCallMultiplicity events"
  let ?t = "eventToolCallID (pe_event ?item)"
  obtain as pd where st: "st = (as, pd)" by (cases st)
  have old: "attempt_shape events (as ! i) \<and> at_firstPos (as ! i) < n \<and> at_lastPos (as ! i) < n"
    if "i < length as" for i
    using inv that by (simp add: attempts_inv_def st)
  show ?thesis
  proof (cases "?t = []")
    case False
    with st' obtain m where m: "pd ?t = Some m" and once: "once ?M ?t"
      and match: "resultMatchesAttemptIdentity ?item (as ! m)"
      and eq: "st' = (as[m := mergeAttempt (as ! m) ?item n trustToolCallPair], pd(?t := None))"
      by (auto simp: completeAttempt_def st Let_def split: if_splits option.splits)
    from inv m have pend: "m < length as" "at_trust (as ! m) = trustExecObservation"
        "eventToolCallID (pe_event (events ! at_firstPos (as ! m))) = ?t"
      by (auto simp: attempts_inv_def st)
    have sh: "attempt_shape events (mergeAttempt (as ! m) ?item n trustToolCallPair)"
      using old [OF pend(1)] by (intro shape_merge(1) [OF _ pend(2) _ n res match pend(3) [symmetric] False once]) simp_all
    have others: "\<forall>t i. (pd(?t := None)) t = Some i \<longrightarrow> pd t = Some i \<and> i \<noteq> m"
    proof (intro allI impI)
      fix t i
      assume ti: "(pd(?t := None)) t = Some i"
      then have "t \<noteq> ?t" "pd t = Some i" by (auto split: if_splits)
      moreover from this inv have "eventToolCallID (pe_event (events ! at_firstPos (as ! i))) = t"
        by (auto simp: attempts_inv_def st)
      ultimately show "pd t = Some i \<and> i \<noteq> m" using pend(3) by auto
    qed
    show ?thesis unfolding eq
      by (rule inv_merge [OF inv [unfolded st] pend(1) sh pend(2) others])
  next
    case True
    let ?c = "last as"
    from st' True have as: "as \<noteq> []" and prev: "pe_Type (events ! (n - 1)) = ''command.exec''"
      "eventToolCallID (pe_event (events ! (n - 1))) = []" and lp: "at_lastPos ?c = n - 1" "n > 0"
      and match: "resultMatchesAttemptIdentity ?item ?c"
      and win: "within adjacentPairWindow (pe_At ?item) (pe_At (events ! (n - 1)))"
      and eq: "st' = (as[length as - 1 := mergeAttempt ?c ?item n trustAdjacentPair], pd)"
      by (auto simp: completeAttempt_def st Let_def split: if_splits)
    let ?m = "length as - 1"
    have m: "?m < length as" and c: "?c = as ! ?m" using as by (simp_all add: last_conv_nth)
    have shc: "attempt_shape events ?c" "at_firstPos ?c < n" using old [OF m] c by simp_all
    have tr: "at_trust ?c = trustExecObservation" and fp: "at_firstPos ?c = n - 1"
      using shape_exec_last [OF shc(1)] prev(1) lp(1) by simp_all
    have t: "?t = eventToolCallID (pe_event (events ! at_firstPos ?c))" using True fp prev(2) by simp
    have sh: "attempt_shape events (mergeAttempt ?c ?item n trustAdjacentPair)"
      using True fp lp(2) win by (intro shape_merge(2) [OF shc(1) tr shc(2) n res match t]) simp_all
    have others: "\<forall>t i. pd t = Some i \<longrightarrow> pd t = Some i \<and> i \<noteq> ?m"
    proof (intro allI impI)
      fix t i
      assume ti: "pd t = Some i"
      with inv have "t \<noteq> [] \<and> eventToolCallID (pe_event (events ! at_firstPos (as ! i))) = t"
        by (auto simp: attempts_inv_def st)
      then show "pd t = Some i \<and> i \<noteq> ?m" using ti fp prev(2) c by auto
    qed
    show ?thesis unfolding eq c
      by (rule inv_merge [OF inv [unfolded st] m sh [unfolded c] tr [unfolded c] others])
  qed
qed

lemma attemptStep_inv:
  assumes "attempts_inv events n st" and "n < length events"
  shows "attempts_inv events (Suc n) (attemptStep (commandToolCallMultiplicity events) events st n)"
proof -
  let ?M = "commandToolCallMultiplicity events"
  consider (other) "\<not> command_event (events ! n)" | (exec) "pe_Type (events ! n) = ''command.exec''"
    | (result) "pe_Type (events ! n) = ''command.result''"
    by (auto simp: command_event_def)
  then show ?thesis
  proof cases
    case other
    then have "attemptStep ?M events st n = st" by (simp add: attemptStep_def command_event_def)
    moreover have "attempts_inv events (Suc n) st" using assms(1) other inv_skip by (cases st) auto
    ultimately show ?thesis by simp
  next
    case exec
    then show ?thesis using recordAttempt_inv [OF assms] by (simp add: attemptStep_def command_event_def)
  next
    case result
    then show ?thesis
      using recordAttempt_inv [OF assms] completeAttempt_inv [OF assms]
      by (auto simp: attemptStep_def command_event_def split: option.splits)
  qed
qed

lemma attemptsUpTo_inv: "n \<le> length events \<Longrightarrow> attempts_inv events n (attemptsUpTo events n)"
proof (induction n)
  case 0
  show ?case using attempts_inv_init by (simp add: attemptsUpTo_def)
next
  case (Suc n)
  then show ?case using attemptStep_inv [of events n "attemptsUpTo events n"] by (simp add: attemptsUpTo_def)
qed

lemma attemptsOf_inv: "attempts_inv events (length events) (attemptsUpTo events (length events))"
  by (rule attemptsUpTo_inv) simp

lemma attemptsOf_shape: "a \<in> set (attemptsOf events) \<Longrightarrow> attempt_shape events a"
  using attemptsOf_inv [of events] by (simp add: attempts_inv_def attemptsOf_def)

lemma attemptsOf_disjoint:
  "i < j \<Longrightarrow> j < length (attemptsOf events) \<Longrightarrow>
    at_firstPos (attemptsOf events ! i) < at_firstPos (attemptsOf events ! j) \<and>
    positions (attemptsOf events ! i) \<inter> positions (attemptsOf events ! j) = {}"
  using attemptsOf_inv [of events] unfolding attempts_inv_def attemptsOf_def by blast

lemma attemptsOf_cover:
  "k < length events \<Longrightarrow> command_event (events ! k) \<Longrightarrow> pe_Signature (events ! k) \<noteq> [] \<Longrightarrow>
    \<exists>a\<in>set (attemptsOf events). k \<in> positions a"
  using attemptsOf_inv [of events] unfolding attempts_inv_def attemptsOf_def by blast


section \<open>What holds of every attempt\<close>

text \<open>A property of new attempts that merging keeps holds of every attempt.\<close>

lemma attemptsOf_all:
  assumes new: "\<And>item p t b. P ((newAttempt item p t)\<lparr>at_repetitionEligible := b\<rparr>)"
    and merge: "\<And>a item p t. P a \<Longrightarrow> P (mergeAttempt a item p t)"
    and "a \<in> set (attemptsOf events)"
  shows "P a"
proof -
  let ?M = "commandToolCallMultiplicity events"
  have new': "P (newAttempt item p t)" for item p t
    using new [where item = item and p = p and t = t and b = True]
    by (cases "itemOutcome item") (simp only: newAttempt_def Let_def prod.case commandAttempt.update_convs)
  have rec: "\<forall>a\<in>set (fst (recordAttempt ?M events st n)). P a" if "\<forall>a\<in>set (fst st). P a" for st n
    using that new new' by (cases st) (simp add: recordAttempt_def Let_def)
  have upd: "\<forall>a\<in>set (xs[i := mergeAttempt y item p t]). P a"
    if "\<forall>a\<in>set xs. P a" "P y" for xs i y item p t
    using that merge set_update_subset_insert [of xs i "mergeAttempt y item p t"] by blast
  have comp: "\<forall>a\<in>set (fst st'). P a"
    if P: "\<forall>a\<in>set (fst st). P a" and inv: "attempts_inv events n st"
      and c: "completeAttempt ?M events st n = Some st'" for st n st'
  proof -
    obtain as pd where st: "st = (as, pd)" by (cases st)
    from inv have pend: "pd t = Some i \<Longrightarrow> i < length as" for t i by (auto simp: attempts_inv_def st)
    show ?thesis
    proof (cases "eventToolCallID (pe_event (events ! n)) = []")
      case True
      with c obtain item p t where "as \<noteq> []" "fst st' = as[length as - 1 := mergeAttempt (last as) item p t]"
        by (auto simp: completeAttempt_def st Let_def split: if_splits)
      with upd [of as "last as"] P show ?thesis by (simp add: st)
    next
      case False
      with c obtain m item p t where "pd (eventToolCallID (pe_event (events ! n))) = Some m"
          "fst st' = as[m := mergeAttempt (as ! m) item p t]"
        by (auto simp: completeAttempt_def st Let_def split: if_splits option.splits)
      with upd [of as "as ! m"] P pend show ?thesis by (simp add: st)
    qed
  qed
  have "\<forall>a\<in>set (fst (attemptsUpTo events n)). P a" if "n \<le> length events" for n
    using that
  proof (induction n)
    case 0
    show ?case by (simp add: attemptsUpTo_def)
  next
    case (Suc n)
    then have inv: "attempts_inv events n (attemptsUpTo events n)" by (simp add: attemptsUpTo_inv)
    have step: "attemptsUpTo events (Suc n) = attemptStep ?M events (attemptsUpTo events n) n"
      by (simp add: attemptsUpTo_def)
    have old: "\<forall>a\<in>set (fst (attemptsUpTo events n)). P a" using Suc by simp
    show ?case
    proof (cases "completeAttempt ?M events (attemptsUpTo events n) n")
      case None
      then show ?thesis using old rec [OF old] by (simp add: step attemptStep_def Let_def)
    next
      case (Some st')
      then show ?thesis using old rec [OF old] comp [OF old inv Some] by (simp add: step attemptStep_def Let_def)
    qed
  qed
  from this [of "length events"] assms(3) show ?thesis by (simp add: attemptsOf_def)
qed

text \<open>The outcome of an attempt is what its events report together.\<close>

definition jointly :: "explicitOutcome \<Rightarrow> PreparedEvent list \<Rightarrow> bool" where
  "jointly r items \<longleftrightarrow> (\<exists>item\<in>set items. reports r item)"

definition joint_outcome :: "PreparedEvent list \<Rightarrow> explicitOutcome \<times> bool" where
  "joint_outcome items =
    (if jointly outcomeFailed items \<and> jointly outcomeSucceeded items then (outcomeUnknown, True)
     else if jointly outcomeFailed items then (outcomeFailed, False)
     else if jointly outcomeSucceeded items then (outcomeSucceeded, False)
     else (outcomeUnknown, False))"

lemma mergeOutcome_joint:
  "mergeOutcome (joint_outcome items) (itemOutcome item) = joint_outcome (items @ [item])"
  unfolding itemOutcome_reports
  by (auto simp: mergeOutcome_def joint_outcome_def jointly_def)

lemma newAttempt_outcome:
  "(at_outcome (newAttempt item p t), at_conflict (newAttempt item p t)) = joint_outcome [item]"
  by (simp add: newAttempt_def itemOutcome_reports joint_outcome_def jointly_def)

lemma mergeAttempt_outcome:
  "(at_outcome (mergeAttempt a item p t), at_conflict (mergeAttempt a item p t)) =
    mergeOutcome (at_outcome a, at_conflict a) (itemOutcome item)"
  by (simp add: mergeAttempt_def split: prod.splits)

lemma attemptsOf_outcome:
  assumes "a \<in> set (attemptsOf events)"
  shows "(at_outcome a, at_conflict a) = joint_outcome (at_events a)"
  using assms
proof (rule attemptsOf_all [rotated 2])
  show "(at_outcome ((newAttempt item p t)\<lparr>at_repetitionEligible := b\<rparr>),
      at_conflict ((newAttempt item p t)\<lparr>at_repetitionEligible := b\<rparr>)) =
      joint_outcome (at_events ((newAttempt item p t)\<lparr>at_repetitionEligible := b\<rparr>))" for item p t b
    using newAttempt_outcome by simp
  show "(at_outcome (mergeAttempt a item p t), at_conflict (mergeAttempt a item p t)) =
      joint_outcome (at_events (mergeAttempt a item p t))"
    if "(at_outcome a, at_conflict a) = joint_outcome (at_events a)" for a item p t
    using that mergeAttempt_outcome [of a item p t] mergeOutcome_joint by simp
qed

text \<open>The times of an attempt bound the times of its events.\<close>

lemma attemptsOf_times:
  assumes "a \<in> set (attemptsOf events)"
  shows "\<forall>item\<in>set (at_events a). at_first a \<le> pe_At item \<and> pe_At item \<le> at_last a"
  using assms by (rule attemptsOf_all [rotated 2]) auto

text \<open>The class of an attempt is one of the seven constants; a conflict makes it unknown.\<close>

definition command_classes :: "gostring set" where
  "command_classes = {CommandClassTest, CommandClassBuild, CommandClassTypecheck, CommandClassLint,
    CommandClassFormatCheck, CommandClassOther, CommandClassUnknown}"

lemma all_classes:
  "CommandClassTest \<in> command_classes" "CommandClassBuild \<in> command_classes"
  "CommandClassTypecheck \<in> command_classes" "CommandClassLint \<in> command_classes"
  "CommandClassFormatCheck \<in> command_classes" "CommandClassOther \<in> command_classes"
  "CommandClassUnknown \<in> command_classes"
  unfolding command_classes_def by (simp_all only: insert_iff simp_thms)

lemma normalizedCommandClass_range: "normalizedCommandClass v \<in> command_classes"
  by (simp only: normalizedCommandClass_def Let_def all_classes simp_thms split: if_split)

definition class_ok :: "gostring \<times> bool \<Rightarrow> bool" where
  "class_ok c \<longleftrightarrow> fst c \<in> command_classes \<and> (snd c \<longrightarrow> fst c = CommandClassUnknown)"

lemma mergeClass_ok: "class_ok c \<Longrightarrow> class_ok (mergeClass c (normalizedCommandClass v))"
  using normalizedCommandClass_range [of v] all_classes(7)
  by (cases c) (simp add: class_ok_def mergeClass_def)

lemma mergeAttempt_class:
  "(at_class (mergeAttempt a item p t), at_classConflict (mergeAttempt a item p t)) =
    (if pe_Signature item = [] then (at_class a, at_classConflict a)
     else mergeClass (at_class a, at_classConflict a)
       (normalizedCommandClass (enr_CommandClass (pe_enrichment item))))"
  by (simp add: mergeAttempt_def split: prod.splits)

lemma attemptsOf_class:
  assumes "a \<in> set (attemptsOf events)"
  shows "class_ok (at_class a, at_classConflict a)"
  using assms
proof (rule attemptsOf_all [rotated 2])
  show "class_ok (at_class ((newAttempt item p t)\<lparr>at_repetitionEligible := b\<rparr>),
      at_classConflict ((newAttempt item p t)\<lparr>at_repetitionEligible := b\<rparr>))" for item p t b
    using normalizedCommandClass_range by (simp add: newAttempt_def class_ok_def split: prod.splits)
  show "class_ok (at_class (mergeAttempt a item p t), at_classConflict (mergeAttempt a item p t))"
    if "class_ok (at_class a, at_classConflict a)" for a item p t
    using that mergeClass_ok [OF that, of "enr_CommandClass (pe_enrichment item)"]
    by (simp only: mergeAttempt_class if_split) simp
qed

text \<open>The counted tool calls.\<close>

definition count_calls :: "PreparedEvent list \<Rightarrow> gostring \<Rightarrow> gostring \<Rightarrow> nat" where
  "count_calls events type t =
    length (filter (\<lambda>item. pe_Type item = type \<and> eventToolCallID (pe_event item) = t) events)"

lemma multiplicityOf_count:
  assumes "t \<noteq> []"
  shows "tm_execs (multiplicityOf (commandToolCallMultiplicity events) t) = count_calls events ''command.exec'' t"
    and "tm_results (multiplicityOf (commandToolCallMultiplicity events) t) = count_calls events ''command.result'' t"
proof (induction events rule: rev_induct)
  case Nil
  {
    case 1
    show ?case by (simp add: commandToolCallMultiplicity_def multiplicityOf_def count_calls_def)
  next
    case 2
    show ?case by (simp add: commandToolCallMultiplicity_def multiplicityOf_def count_calls_def)
  }
next
  case (snoc item events)
  have step: "commandToolCallMultiplicity (events @ [item]) = countToolCall (commandToolCallMultiplicity events) item"
    by (simp add: commandToolCallMultiplicity_def)
  {
    case 1
    show ?case unfolding step using snoc.IH assms
      by (auto simp: countToolCall_def Let_def multiplicityOf_def count_calls_def)
  next
    case 2
    show ?case unfolding step using snoc.IH assms
      by (auto simp: countToolCall_def Let_def multiplicityOf_def count_calls_def)
  }
qed

lemma commandAttempts_Inr: "commandAttempts c s = (Inr as, c') \<Longrightarrow> as = attemptsOf (ps_events s)"
  by (auto simp: commandAttempts_def split: prod.splits option.splits)

lemma commandAttempts_Live [simp]: "commandAttempts Live s = (Inr (attemptsOf (ps_events s)), Live)"
  by (simp add: commandAttempts_def)

lemma attemptsOf_nonempty: "a \<in> set (attemptsOf events) \<Longrightarrow> at_events a \<noteq> [] \<and> set (at_events a) \<subseteq> set events"
proof -
  assume "a \<in> set (attemptsOf events)"
  then have sh: "attempt_shape events a" by (rule attemptsOf_shape)
  then show ?thesis
    by (cases "at_trust a") (auto simp: attempt_shape_def single_of_def pair_shape_def)
qed


section \<open>Properties of attempts\<close>

text \<open>An execution and its failed result under one tool call.\<close>

definition sample_call :: "gostring \<Rightarrow> Event \<Rightarrow> Event" where
  "sample_call toolCallID event =
    event\<lparr>ev_Observation := (ev_Observation event)\<lparr>obs_Details := Some (zero_details\<lparr>dtl_ToolCallID := toolCallID\<rparr>)\<rparr>\<rparr>"

definition sample_exit :: "int \<Rightarrow> Event \<Rightarrow> Event" where
  "sample_exit code event = event\<lparr>ev_Observation := (ev_Observation event)\<lparr>obs_ExitCode := Some code\<rparr>\<rparr>"

definition sample_failure :: "PreparedEvent list" where
  "sample_failure =
    [sample_item (sample_call ''t'' (sample_event ''a'' 1 1000000000 ''hook'' ''command.exec'')) ''s'',
     sample_item (sample_exit 1 (sample_call ''t'' (sample_event ''b'' 2 2000000000 ''hook'' ''command.result''))) ''s'']"

lemma sample_failure_facts:
  "map at_outcome (attemptsOf sample_failure) = [outcomeFailed]"
  "map at_trust (attemptsOf sample_failure) = [trustToolCallPair]"
  "map at_firstPos (attemptsOf sample_failure) = [0]"
  "eventToolCallID (pe_event (sample_failure ! 0)) = ''t''"
  by code_simp+

text \<open>
  The attempts of a session partition its command events: distinct attempts share no event
  position and are in the order of their first events, and every command event with a signature
  belongs to an attempt.
\<close>

theorem attempts_partition_commands:
  assumes "i < j" and "j < length (attemptsOf events)"
    and "k < length events" and "command_event (events ! k)" and "pe_Signature (events ! k) \<noteq> []"
  shows "at_firstPos (attemptsOf events ! i) < at_firstPos (attemptsOf events ! j) \<and>
    positions (attemptsOf events ! i) \<inter> positions (attemptsOf events ! j) = {} \<and>
    (\<exists>a\<in>set (attemptsOf events). k \<in> positions a)"
  using attemptsOf_disjoint [OF assms(1, 2)] attemptsOf_cover [OF assms(3-5)] by blast

lemma sample_twice_attempts: "length (attemptsOf sample_twice) = 2"
  by code_simp

theorem attempts_partition_commands_witness:
  "\<exists>a\<in>set (attemptsOf sample_twice). 1 \<in> positions a"
  using attempts_partition_commands [of 0 1 sample_twice 1]
  by (simp add: sample_twice_attempts) (simp add: sample_twice_def sample_item_def sample_event_def
      command_event_def zero_defs)

text \<open>
  C5. An attempt is one command event, or an execution followed by a result: a pair linked by a
  tool call carries an identifier that exactly one execution and exactly one result of the session
  carry, and an adjacent pair is two neighbouring events without an identifier, within the
  window; the result has the signature of the execution or none.
\<close>

theorem attempt_pairs_are_unambiguous:
  assumes "a \<in> set (attemptsOf events)"
  shows "attempt_shape events a \<and>
    (at_trust a = trustToolCallPair \<longrightarrow>
      (let t = eventToolCallID (pe_event (events ! at_firstPos a)) in
       t \<noteq> [] \<and> count_calls events ''command.exec'' t = 1 \<and> count_calls events ''command.result'' t = 1))"
  using attemptsOf_shape [OF assms] multiplicityOf_count
  by (auto simp: attempt_shape_def Let_def once_def)

theorem attempt_pairs_are_unambiguous_witness:
  "count_calls sample_failure ''command.exec'' ''t'' = 1"
proof -
  obtain a where a: "attemptsOf sample_failure = [a]" "at_trust a = trustToolCallPair" "at_firstPos a = 0"
    using sample_failure_facts(2, 3) by auto
  then have "a \<in> set (attemptsOf sample_failure)" by simp
  from attempt_pairs_are_unambiguous [OF this] a show ?thesis
    by (simp add: sample_failure_facts(4) Let_def)
qed

text \<open>
  The outcome of an attempt is what its events report together, by exit codes and by outcome
  words: failed or succeeded when all reports that are made agree, unknown when none is made, and
  unknown with the conflict recorded when a failure and a success are both reported.
\<close>

theorem attempt_outcome_is_joint_report:
  assumes "a \<in> set (attemptsOf events)"
  shows "(at_outcome a = outcomeFailed \<longleftrightarrow>
      jointly outcomeFailed (at_events a) \<and> \<not> jointly outcomeSucceeded (at_events a)) \<and>
    (at_outcome a = outcomeSucceeded \<longleftrightarrow>
      jointly outcomeSucceeded (at_events a) \<and> \<not> jointly outcomeFailed (at_events a)) \<and>
    (at_conflict a \<longleftrightarrow> jointly outcomeFailed (at_events a) \<and> jointly outcomeSucceeded (at_events a))"
  using attemptsOf_outcome [OF assms] by (auto simp: joint_outcome_def split: if_splits)

theorem attempt_outcome_is_joint_report_witness:
  "\<exists>a\<in>set (attemptsOf sample_failure). jointly outcomeFailed (at_events a)"
proof -
  obtain a where a: "attemptsOf sample_failure = [a]" "at_outcome a = outcomeFailed"
    using sample_failure_facts(1) by auto
  then have "a \<in> set (attemptsOf sample_failure)" by simp
  with attempt_outcome_is_joint_report [OF this] a show ?thesis by blast
qed

end
