(* ===== verification/Detect_Detectors.thy ===== *)
theory Detect_Detectors
  imports Detect_Attempts
begin

text \<open>
  The six built-in detectors (\<open>internal/detection/detectors.go\<close>): the catalog entries, what each
  detector can say of an absent match, and the detection functions. A map of slices is an
  association list; its keys are visited in ascending order, as the code does.
\<close>

section \<open>The entries\<close>

abbreviation builtinVersion :: gostring where "builtinVersion \<equiv> ''1.0.0''"

definition newEntry :: "gostring \<Rightarrow> gostring \<Rightarrow> gostring \<Rightarrow> gostring \<Rightarrow> bool \<Rightarrow> CatalogEntry" where
  "newEntry detectorID category titleCode action experimental =
    \<lparr>ent_DetectorID = detectorID, ent_DetectorVersion = builtinVersion, ent_FingerprintVersion = ''1'',
     ent_Category = category, ent_TitleCode = titleCode, ent_SuggestedActionType = action,
     ent_Experimental = experimental\<rparr>"

definition builtinEntries :: "CatalogEntry list" where
  "builtinEntries =
    [newEntry ''explicit_command_failure'' ''command_failure'' ''issue.explicit_command_failure''
       ''inspect_command_failure'' False,
     newEntry ''explicit_tool_failure'' ''tool_failure'' ''issue.explicit_tool_failure''
       ''inspect_cited_events'' False,
     newEntry ''repeated_command_attempts'' ''attention'' ''issue.repeated_command_attempts''
       ''inspect_repeated_attempts'' True,
     newEntry ''explicit_permission_denial'' ''permission'' ''issue.explicit_permission_denial''
       ''review_permission_boundary'' False,
     newEntry ''retained_verification_gap_after_changes'' ''evidence_gap''
       ''issue.retained_verification_gap_after_changes'' ''inspect_cited_events'' False,
     newEntry ''unresolved_verification_failure_at_completion'' ''unresolved_verification''
       ''issue.unresolved_verification_failure_at_completion'' ''rerun_verification'' False]"

definition zero_entry :: CatalogEntry where
  "zero_entry = \<lparr>ent_DetectorID = [], ent_DetectorVersion = [], ent_FingerprintVersion = [],
     ent_Category = [], ent_TitleCode = [], ent_SuggestedActionType = [], ent_Experimental = False\<rparr>"

definition builtinEntry :: "gostring \<Rightarrow> CatalogEntry" where
  "builtinEntry detectorID =
    (case find (\<lambda>entry. ent_DetectorID entry = detectorID) builtinEntries of
       Some entry \<Rightarrow> entry
     | None \<Rightarrow> zero_entry)"

definition builtinMatch ::
    "PreparedSession \<Rightarrow> gostring \<Rightarrow> gostring \<Rightarrow> gostring \<Rightarrow> time \<Rightarrow> time \<Rightarrow>
     PreparedEvent list \<Rightarrow> FingerprintDimension list \<Rightarrow> Match" where
  "builtinMatch session detectorID severity confidence firstSeen lastSeen evidence fingerprint =
    (let entry = builtinEntry detectorID; (citations, complete) = citationIDs evidence in
     \<lparr>mt_DetectorID = ent_DetectorID entry, mt_DetectorVersion = ent_DetectorVersion entry,
      mt_FingerprintVersion = ent_FingerprintVersion entry, mt_Category = ent_Category entry,
      mt_TitleCode = ent_TitleCode entry, mt_SuggestedActionType = ent_SuggestedActionType entry,
      mt_Severity = severity, mt_Confidence = confidence, mt_Experimental = ent_Experimental entry,
      mt_FirstObservedAt = firstSeen, mt_LastObservedAt = lastSeen, mt_CitedEventIDs = citations,
      mt_EvidenceComplete = complete, mt_Fingerprint = dimensions session fingerprint\<rparr>)"

section \<open>What an absent match means\<close>

definition notApplicableAbsence :: "PreparedSession \<Rightarrow> AbsenceCapability \<times> gostring" where
  "notApplicableAbsence session = (AbsenceNotApplicable, ''experimental_detector'')"

definition commandAbsenceCapability :: "PreparedSession \<Rightarrow> AbsenceCapability \<times> gostring" where
  "commandAbsenceCapability session =
    (if list_ex (\<lambda>item. \<not> pe_historical item \<and>
          (pe_Type item = ''command.exec'' \<or> pe_Type item = ''command.result'') \<and>
          ev_Kind (pe_event item) = ''hook'' \<and> ev_Depth (pe_event item) = ''tool_call'') (ps_events session)
     then (AbsenceSupported, []) else (AbsenceNotApplicable, ''command_coverage_unavailable''))"

definition toolFailureAbsenceCapability :: "PreparedSession \<Rightarrow> AbsenceCapability \<times> gostring" where
  "toolFailureAbsenceCapability session = (AbsenceIncomplete, ''tool_failure_absence_unsupported'')"

definition permissionAbsenceCapability :: "PreparedSession \<Rightarrow> AbsenceCapability \<times> gostring" where
  "permissionAbsenceCapability session =
    (if list_ex (\<lambda>item. \<not> pe_historical item \<and> ev_Kind (pe_event item) = ''hook'' \<and>
          (src_Agent (ev_Source (pe_event item)) = ''codex'' \<or>
           src_Agent (ev_Source (pe_event item)) = ''claude-code'')) (ps_events session)
     then (AbsenceSupported, []) else (AbsenceNotApplicable, ''permission_coverage_unavailable''))"

definition sessionHasHistoricalEvidence :: "PreparedSession \<Rightarrow> bool" where
  "sessionHasHistoricalEvidence session = list_ex pe_historical (ps_events session)"

text \<open>
  The scan of \<open>retainedVerificationLiveCompatible\<close>: the harness seen so far and the two
  coverage flags; a historical event or a second harness ends it with false.
\<close>

fun liveCompatibleScan :: "gostring \<Rightarrow> bool \<Rightarrow> bool \<Rightarrow> PreparedEvent list \<Rightarrow> bool" where
  "liveCompatibleScan harness mutation terminal [] =
    ((harness = ''codex'' \<or> harness = ''claude-code'') \<and> mutation \<and> terminal)"
| "liveCompatibleScan harness mutation terminal (item # rest) =
    (let event = pe_event item; agent = src_Agent (ev_Source event) in
     if pe_historical item then False
     else if agent \<noteq> [] \<and> harness \<noteq> [] \<and> harness \<noteq> agent then False
     else
       let harness = (if agent \<noteq> [] \<and> harness = [] then agent else harness) in
       if ev_Kind event \<noteq> ''hook'' then liveCompatibleScan harness mutation terminal rest
       else if ev_Type event = ''file.write'' \<or> ev_Type event = ''file.delete''
       then liveCompatibleScan harness (mutation \<or> ev_Depth event = ''tool_call'') terminal rest
       else if ev_Type event = ''session.end''
       then liveCompatibleScan harness mutation (terminal \<or> ev_Depth event = ''lifecycle'') rest
       else liveCompatibleScan harness mutation terminal rest)"

definition retainedVerificationLiveCompatible :: "PreparedSession \<Rightarrow> bool" where
  "retainedVerificationLiveCompatible session = liveCompatibleScan [] False False (ps_events session)"

definition retainedVerificationGapAbsenceCapability :: "PreparedSession \<Rightarrow> AbsenceCapability \<times> gostring" where
  "retainedVerificationGapAbsenceCapability session =
    (if sessionHasHistoricalEvidence session
     then (AbsenceIncomplete, ''historical_verification_absence_unsupported'')
     else if retainedVerificationLiveCompatible session then (AbsenceSupported, [])
     else (AbsenceNotApplicable, ''verification_coverage_unavailable''))"

definition unresolvedVerificationAbsenceCapability :: "PreparedSession \<Rightarrow> AbsenceCapability \<times> gostring" where
  "unresolvedVerificationAbsenceCapability session =
    (if list_ex (\<lambda>item. \<not> pe_historical item \<and> pe_Type item = ''session.end'' \<and>
          ev_Kind (pe_event item) = ''hook'' \<and> ev_Depth (pe_event item) = ''lifecycle'') (ps_events session)
     then (AbsenceSupported, []) else (AbsenceIncomplete, ''session_completion_unavailable''))"

section \<open>Detection\<close>

definition attemptBounds :: "commandAttempt list \<Rightarrow> time \<times> time" where
  "attemptBounds attempts =
    (case attempts of
       [] \<Rightarrow> (time_zero, time_zero)
     | a # as \<Rightarrow>
         foldl (\<lambda>(first, last) attempt.
             ((if at_first attempt < first then at_first attempt else first),
              (if at_last attempt > last then at_last attempt else last)))
           (at_first a, at_last a) as)"

text \<open>
  The loop over the sorted keys of a group: a cancellation check, then the match of the key, if
  it has one.
\<close>

fun emitLoop ::
    "(gostring \<Rightarrow> Match option) \<Rightarrow> nat \<Rightarrow> gostring list \<Rightarrow> Match list \<Rightarrow> ctx \<Rightarrow>
     (ctx_error + Match list) \<times> ctx" where
  "emitLoop f index [] matches c = (Inr matches, c)"
| "emitLoop f index (key # keys) matches c =
    (case contextCheck c index of
       (Some e, c') \<Rightarrow> (Inl e, c')
     | (None, c') \<Rightarrow>
         emitLoop f (Suc index) keys
           (case f key of None \<Rightarrow> matches | Some m \<Rightarrow> matches @ [m]) c')"

definition attempt_evidence :: "commandAttempt list \<Rightarrow> PreparedEvent list" where
  "attempt_evidence attempts = concat (map at_events attempts)"

definition commandFailureMatch :: "PreparedSession \<Rightarrow> gostring \<Rightarrow> commandAttempt list \<Rightarrow> Match" where
  "commandFailureMatch session signature failed =
    (let eligible = length (filter at_repetitionEligible failed);
         failedCount = (if eligible = 0 then 1 else eligible);
         confidence = (if list_ex (\<lambda>a. failureConfidence (at_trust a) \<noteq> ConfidenceHigh) failed
                       then ConfidenceLow else ConfidenceHigh);
         (first, last) = attemptBounds failed;
         severity = (if failedCount \<ge> 3 then SeverityMedium else SeverityLow)
     in builtinMatch session ''explicit_command_failure'' severity confidence first last
          (attempt_evidence failed)
          [\<lparr>dim_Name = ''command_signature_id'', dim_Value = signature\<rparr>])"

definition detectExplicitCommandFailures ::
    "ctx \<Rightarrow> PreparedSession \<Rightarrow> (ctx_error + Match list) \<times> ctx" where
  "detectExplicitCommandFailures c session =
    (case commandAttempts c session of
       (Inl e, c') \<Rightarrow> (Inl e, c')
     | (Inr attempts, c') \<Rightarrow>
         let bySignature = group_by at_signature (filter (\<lambda>a. at_outcome a = outcomeFailed) attempts)
         in emitLoop (\<lambda>signature. Some (commandFailureMatch session signature (map_get bySignature signature)))
              0 (sortedKeys bySignature) [] c')"

definition toolFailed :: "PreparedEvent \<Rightarrow> bool" where
  "toolFailed item \<longleftrightarrow>
    \<not> (pe_Type item \<noteq> ''tool.result'' \<or>
       explicitEventOutcome (obs_ExitCode (ev_Observation (pe_event item)))
         (obs_Outcome (ev_Observation (pe_event item))) \<noteq> outcomeFailed) \<and>
    safeToolIdentity (pe_event item) \<noteq> []"

definition toolFailureMatch :: "PreparedSession \<Rightarrow> gostring \<Rightarrow> PreparedEvent list \<Rightarrow> Match" where
  "toolFailureMatch session identity evidence =
    (let severity = (if length evidence \<ge> 3 then SeverityMedium else SeverityLow);
         (first, last) = eventTimeBounds evidence
     in builtinMatch session ''explicit_tool_failure'' severity ConfidenceHigh first last evidence
          [\<lparr>dim_Name = ''tool_identity'', dim_Value = identity\<rparr>])"

definition detectExplicitToolFailures ::
    "ctx \<Rightarrow> PreparedSession \<Rightarrow> (ctx_error + Match list) \<times> ctx" where
  "detectExplicitToolFailures c session =
    (case contextLoop 0 (length (ps_events session)) c of
       (Some e, c') \<Rightarrow> (Inl e, c')
     | (None, c') \<Rightarrow>
         let byIdentity = group_by (\<lambda>item. safeToolIdentity (pe_event item))
               (filter toolFailed (ps_events session))
         in emitLoop (\<lambda>identity. Some (toolFailureMatch session identity (map_get byIdentity identity)))
              0 (sortedKeys byIdentity) [] c')"

definition repeatedAttemptsMatch :: "PreparedSession \<Rightarrow> gostring \<Rightarrow> commandAttempt list \<Rightarrow> Match option" where
  "repeatedAttemptsMatch session signature repeated =
    (if length repeated < 4 then None
     else
       let allPaired = list_all (\<lambda>a. paired (at_trust a)) repeated;
           confidence = (if allPaired then ConfidenceMedium else ConfidenceLow);
           (first, last) = attemptBounds repeated
       in Some (builtinMatch session ''repeated_command_attempts'' SeverityInfo confidence first last
            (attempt_evidence repeated)
            [\<lparr>dim_Name = ''command_signature_id'', dim_Value = signature\<rparr>]))"

definition detectRepeatedCommandAttempts ::
    "ctx \<Rightarrow> PreparedSession \<Rightarrow> (ctx_error + Match list) \<times> ctx" where
  "detectRepeatedCommandAttempts c session =
    (case commandAttempts c session of
       (Inl e, c') \<Rightarrow> (Inl e, c')
     | (Inr attempts, c') \<Rightarrow>
         let bySignature = group_by at_signature (filter at_repetitionEligible attempts)
         in emitLoop (\<lambda>signature. repeatedAttemptsMatch session signature (map_get bySignature signature))
              0 (sortedKeys bySignature) [] c')"

definition permissionClass :: "PreparedEvent \<Rightarrow> gostring" where
  "permissionClass item =
    (let class = trim_space (enr_PermissionClass (pe_enrichment item)) in
     if class = [] then ''permission.unknown'' else class)"

definition permissionMatch :: "PreparedSession \<Rightarrow> gostring \<Rightarrow> PreparedEvent list \<Rightarrow> Match" where
  "permissionMatch session class evidence =
    (let (first, last) = eventTimeBounds evidence;
         confidence = (if class = ''permission.unknown'' then ConfidenceMedium else ConfidenceHigh)
     in builtinMatch session ''explicit_permission_denial'' SeverityLow confidence first last evidence
          [\<lparr>dim_Name = ''permission_class'', dim_Value = class\<rparr>])"

definition detectPermissionDenials ::
    "ctx \<Rightarrow> PreparedSession \<Rightarrow> (ctx_error + Match list) \<times> ctx" where
  "detectPermissionDenials c session =
    (case contextLoop 0 (length (ps_events session)) c of
       (Some e, c') \<Rightarrow> (Inl e, c')
     | (None, c') \<Rightarrow>
         let byClass = group_by permissionClass
               (filter (\<lambda>item. pe_Type item = ''permission.denied'') (ps_events session))
         in (Inr (map (\<lambda>class. permissionMatch session class (map_get byClass class)) (sortedKeys byClass)), c'))"

text \<open>The index of the last element of a kind, None for Go's \<open>-1\<close>.\<close>

definition lastIndex :: "('a \<Rightarrow> bool) \<Rightarrow> 'a list \<Rightarrow> nat option" where
  "lastIndex P xs = foldl (\<lambda>found index. if P (xs ! index) then Some index else found) None [0..<length xs]"

definition retainedVerificationConfidence :: "PreparedSession \<Rightarrow> gostring \<times> bool" where
  "retainedVerificationConfidence session =
    (if sessionHasHistoricalEvidence session then (ConfidenceLow, True)
     else if retainedVerificationLiveCompatible session then (ConfidenceMedium, True)
     else ([], False))"

definition isMutation :: "PreparedEvent \<Rightarrow> bool" where
  "isMutation item \<longleftrightarrow> pe_Type item = ''file.write'' \<or> pe_Type item = ''file.delete''"

definition isVerificationCommand :: "PreparedEvent \<Rightarrow> bool" where
  "isVerificationCommand item \<longleftrightarrow>
    (pe_Type item = ''command.exec'' \<or> pe_Type item = ''command.result'') \<and>
    isVerificationClass (normalizedCommandClass (enr_CommandClass (pe_enrichment item)))"

definition isTerminal :: "PreparedEvent \<Rightarrow> bool" where
  "isTerminal item \<longleftrightarrow> pe_Type item = ''session.end''"

definition retainedGapMatches :: "PreparedSession \<Rightarrow> Match list" where
  "retainedGapMatches session =
    (let events = ps_events session in
     case lastIndex isTerminal events of
       None \<Rightarrow> []
     | Some terminal \<Rightarrow>
         (case lastIndex isMutation (take terminal events) of
            None \<Rightarrow> []
          | Some finalMutation \<Rightarrow>
              if list_ex (\<lambda>index. isVerificationCommand (events ! index)) [finalMutation + 1..<terminal] then []
              else
                let (confidence, supported) = retainedVerificationConfidence session in
                if \<not> supported then []
                else [builtinMatch session ''retained_verification_gap_after_changes'' SeverityInfo confidence
                        (pe_At (events ! finalMutation)) (pe_At (events ! terminal))
                        [events ! finalMutation, events ! terminal]
                        [\<lparr>dim_Name = ''verification_gap'', dim_Value = ''retained_after_final_change''\<rparr>]]))"

definition detectRetainedVerificationGap ::
    "ctx \<Rightarrow> PreparedSession \<Rightarrow> (ctx_error + Match list) \<times> ctx" where
  "detectRetainedVerificationGap c session =
    (case contextLoop 0 (length (ps_events session)) c of
       (Some e, c') \<Rightarrow> (Inl e, c')
     | (None, c') \<Rightarrow> (Inr (retainedGapMatches session), c'))"

definition unresolvedStep :: "commandAttempt option \<Rightarrow> commandAttempt \<Rightarrow> commandAttempt option" where
  "unresolvedStep unresolved attempt =
    (case at_outcome attempt of
       outcomeFailed \<Rightarrow> Some attempt
     | outcomeSucceeded \<Rightarrow> None
     | outcomeUnknown \<Rightarrow> unresolved)"

definition unresolvedMatch ::
    "PreparedSession \<Rightarrow> PreparedEvent \<Rightarrow> gostring \<Rightarrow> commandAttempt list \<Rightarrow> Match option" where
  "unresolvedMatch session terminalEvent signature series =
    (case foldl unresolvedStep None series of
       None \<Rightarrow> None
     | Some unresolved \<Rightarrow>
         Some (builtinMatch session ''unresolved_verification_failure_at_completion'' SeverityHigh ConfidenceHigh
           (at_first unresolved) (pe_At terminalEvent) (at_events unresolved @ [terminalEvent])
           [\<lparr>dim_Name = ''command_class'', dim_Value = at_class unresolved\<rparr>,
            \<lparr>dim_Name = ''command_signature_id'', dim_Value = signature\<rparr>]))"

definition verificationSeries :: "nat \<Rightarrow> commandAttempt \<Rightarrow> bool" where
  "verificationSeries lastTerminal attempt \<longleftrightarrow>
    at_lastPos attempt < lastTerminal \<and> trustworthyPair (at_trust attempt) \<and>
    isVerificationClass (at_class attempt)"

definition detectUnresolvedVerification ::
    "ctx \<Rightarrow> PreparedSession \<Rightarrow> (ctx_error + Match list) \<times> ctx" where
  "detectUnresolvedVerification c session =
    (case commandAttempts c session of
       (Inl e, c') \<Rightarrow> (Inl e, c')
     | (Inr attempts, c') \<Rightarrow>
         (case lastIndex isTerminal (ps_events session) of
            None \<Rightarrow> (Inr [], c')
          | Some lastTerminal \<Rightarrow>
              let bySignature = group_by at_signature (filter (verificationSeries lastTerminal) attempts)
              in emitLoop (\<lambda>signature. unresolvedMatch session (ps_events session ! lastTerminal) signature
                     (map_get bySignature signature))
                   0 (sortedKeys bySignature) [] c'))"

section \<open>The built-in detectors\<close>

record builtinDetector =
  bd_entry :: CatalogEntry
  bd_evaluate :: "ctx \<Rightarrow> PreparedSession \<Rightarrow> (ctx_error + Match list) \<times> ctx"
  bd_absence :: "PreparedSession \<Rightarrow> AbsenceCapability \<times> gostring"

definition newBuiltin ::
    "CatalogEntry \<Rightarrow> (ctx \<Rightarrow> PreparedSession \<Rightarrow> (ctx_error + Match list) \<times> ctx) \<Rightarrow>
     (PreparedSession \<Rightarrow> AbsenceCapability \<times> gostring) \<Rightarrow> builtinDetector" where
  "newBuiltin entry evaluate absence =
    \<lparr>bd_entry = entry, bd_evaluate = evaluate, bd_absence = absence\<rparr>"

definition BuiltinDetectors :: "builtinDetector list" where
  "BuiltinDetectors =
    [newBuiltin (builtinEntries ! 0) detectExplicitCommandFailures commandAbsenceCapability,
     newBuiltin (builtinEntries ! 1) detectExplicitToolFailures toolFailureAbsenceCapability,
     newBuiltin (builtinEntries ! 2) detectRepeatedCommandAttempts notApplicableAbsence,
     newBuiltin (builtinEntries ! 3) detectPermissionDenials permissionAbsenceCapability,
     newBuiltin (builtinEntries ! 4) detectRetainedVerificationGap retainedVerificationGapAbsenceCapability,
     newBuiltin (builtinEntries ! 5) detectUnresolvedVerification unresolvedVerificationAbsenceCapability]"

definition evaluatePrepared ::
    "builtinDetector \<Rightarrow> ctx \<Rightarrow> PreparedSession \<Rightarrow> (ctx_error + DetectorResult) \<times> ctx" where
  "evaluatePrepared d c session =
    (case bd_evaluate d c session of
       (Inl e, c') \<Rightarrow> (Inl e, c')
     | (Inr matches, c') \<Rightarrow>
         let (capability, reason) = bd_absence d session in
         (Inr \<lparr>dr_Matches = matches, dr_AbsenceCapability = capability, dr_UnavailableReason = reason\<rparr>, c'))"

text \<open>\<open>Evaluate\<close>: the same on an unprepared session.\<close>

definition builtinEvaluate ::
    "builtinDetector \<Rightarrow> ctx option \<Rightarrow> SessionInput \<Rightarrow> (prep_error + DetectorResult) \<times> ctx option" where
  "builtinEvaluate d c0 input =
    (case prepareSession c0 input of
       (Inl e, c') \<Rightarrow> (Inl e, c')
     | (Inr session, None) \<Rightarrow> (Inl ErrInvalidSession, None)
     | (Inr session, Some c') \<Rightarrow>
         (case evaluatePrepared d c' session of
            (Inl e, c'') \<Rightarrow> (Inl (ErrContext e), Some c'')
          | (Inr r, c'') \<Rightarrow> (Inr r, Some c'')))"


section \<open>The loops of the detectors\<close>

lemma emitLoop_Inr:
  "emitLoop f i keys ms c = (Inr r, c') \<Longrightarrow> r = ms @ List.map_filter f keys"
proof (induction keys arbitrary: i ms c)
  case (Cons k keys)
  obtain x c1 where "contextCheck c i = (x, c1)" by (cases "contextCheck c i")
  with Cons.prems have "emitLoop f (Suc i) keys (case f k of None \<Rightarrow> ms | Some m \<Rightarrow> ms @ [m]) c1 = (Inr r, c')"
    by (auto split: option.splits)
  from Cons.IH [OF this] show ?case by (simp add: List.map_filter_simps split: option.splits)
qed (simp add: List.map_filter_simps)

lemma emitLoop_Live: "emitLoop f i keys ms Live = (Inr (ms @ List.map_filter f keys), Live)"
  by (induction keys arbitrary: i ms) (simp_all add: List.map_filter_simps split: option.splits)

lemma emitLoop_Inl: "emitLoop f i keys ms c = (Inl e, c') \<Longrightarrow> c' = DoneAfter 0 e"
proof (induction keys arbitrary: i ms c)
  case (Cons k keys)
  obtain x c1 where "contextCheck c i = (x, c1)" by (cases "contextCheck c i")
  with Cons show ?case by (cases x) (auto dest: contextCheck_done split: option.splits)
qed simp

lemma map_filter_Some [simp]: "List.map_filter (\<lambda>k. Some (g k)) ks = map g ks"
  by (induction ks) (simp_all add: List.map_filter_simps)

lemma distinct_map_filter:
  assumes "distinct ks"
    and "\<And>k k' m m'. k \<in> set ks \<Longrightarrow> k' \<in> set ks \<Longrightarrow> f k = Some m \<Longrightarrow> f k' = Some m' \<Longrightarrow> g m = g m' \<Longrightarrow> k = k'"
  shows "distinct (map g (List.map_filter f ks))"
  using assms
proof (induction ks)
  case (Cons k ks)
  have IH: "distinct (map g (List.map_filter f ks))"
    using Cons.prems by (intro Cons.IH) auto
  have "g m \<notin> g ` set (List.map_filter f ks)" if m: "f k = Some m" for m
  proof
    assume "g m \<in> g ` set (List.map_filter f ks)"
    then obtain m' k' where "k' \<in> set ks" "f k' = Some m'" "g m = g m'" by (auto simp: in_set_map_filter)
    with Cons.prems(2) [of k k' m m'] m Cons.prems(1) show False by auto
  qed
  with IH show ?case by (simp add: List.map_filter_simps split: option.splits)
qed (simp add: List.map_filter_simps)

lemma commandAttempts_Inl: "commandAttempts c s = (Inl e, c') \<Longrightarrow> c' = DoneAfter 0 e"
  by (auto simp: commandAttempts_def dest: contextLoop_done split: prod.splits option.splits)

text \<open>The last index of an element.\<close>

lemma lastIndex_fold:
  "foldl (\<lambda>found index. if P (xs ! index) then Some index else found) None [0..<n] = r \<Longrightarrow>
    (case r of None \<Rightarrow> \<forall>j<n. \<not> P (xs ! j)
     | Some i \<Rightarrow> i < n \<and> P (xs ! i) \<and> (\<forall>j. i < j \<and> j < n \<longrightarrow> \<not> P (xs ! j)))"
proof (induction n arbitrary: r)
  case (Suc n)
  then show ?case
    using Suc.IH [OF refl] by (auto split: option.splits if_splits simp: less_Suc_eq)
qed auto

lemma lastIndex_Some:
  "lastIndex P xs = Some i \<Longrightarrow> i < length xs \<and> P (xs ! i) \<and> (\<forall>j. i < j \<and> j < length xs \<longrightarrow> \<not> P (xs ! j))"
  unfolding lastIndex_def by (drule lastIndex_fold) simp

lemma lastIndex_None: "lastIndex P xs = None \<longleftrightarrow> (\<forall>x\<in>set xs. \<not> P x)"
proof
  assume "lastIndex P xs = None"
  then show "\<forall>x\<in>set xs. \<not> P x"
    unfolding lastIndex_def by (drule_tac lastIndex_fold) (auto simp: in_set_conv_nth)
next
  assume a: "\<forall>x\<in>set xs. \<not> P x"
  show "lastIndex P xs = None"
  proof (cases "lastIndex P xs")
    case (Some i)
    with a lastIndex_Some [OF Some] nth_mem [of i xs] show ?thesis by blast
  qed
qed

text \<open>The bounds of a list of attempts or events.\<close>

lemma bounds_fold:
  fixes lo hi :: "'a \<Rightarrow> 'b::linorder"
  defines "f \<equiv> \<lambda>(first, last) a. ((if lo a < first then lo a else first), (if hi a > last then hi a else last))"
  shows "foldl f (b, t) as = (r, q) \<Longrightarrow> r \<in> insert b (lo ` set as) \<and> r \<le> b \<and> t \<le> q \<and>
    (\<forall>a\<in>set as. r \<le> lo a \<and> hi a \<le> q)"
proof (induction as arbitrary: b t)
  case (Cons a as)
  let ?b = "if lo a < b then lo a else b" and ?t = "if hi a > t then hi a else t"
  have "foldl f (?b, ?t) as = (r, q)" using Cons.prems by (simp add: f_def)
  from Cons.IH [OF this] show ?case by (auto split: if_splits)
qed simp

lemma attemptBounds_bounds:
  assumes "as \<noteq> []" and "attemptBounds as = (r, q)"
  shows "r \<in> at_first ` set as" and "\<forall>a\<in>set as. r \<le> at_first a \<and> at_last a \<le> q"
proof -
  obtain a as' where as: "as = a # as'" using assms(1) by (cases as) auto
  from bounds_fold [where lo = at_first and hi = at_last, OF assms(2) [unfolded attemptBounds_def as list.case]]
  show "r \<in> at_first ` set as" and "\<forall>a\<in>set as. r \<le> at_first a \<and> at_last a \<le> q" by (auto simp: as)
qed

lemma eventTimeBounds_pair:
  assumes "es \<noteq> []" and "eventTimeBounds es = (r, q)"
  shows "r \<in> pe_At ` set es" and "\<forall>e\<in>set es. r \<le> pe_At e \<and> pe_At e \<le> q"
proof -
  obtain e es' where es: "es = e # es'" using assms(1) by (cases es) auto
  from bounds_fold [where lo = pe_At and hi = pe_At, OF assms(2) [unfolded eventTimeBounds_def es list.case]]
  show "r \<in> pe_At ` set es" and "\<forall>e\<in>set es. r \<le> pe_At e \<and> pe_At e \<le> q" by (auto simp: es)
qed

lemma attemptsOf_first: "a \<in> set (attemptsOf events) \<Longrightarrow> at_first a \<in> pe_At ` set (at_events a)"
  by (erule attemptsOf_all [rotated 2]) auto

text \<open>A series of attempts ends unresolved when its last decisive attempt failed.\<close>

definition decisive :: "commandAttempt list \<Rightarrow> commandAttempt list" where
  "decisive as = filter (\<lambda>a. at_outcome a \<noteq> outcomeUnknown) as"

lemma unresolved_fold:
  "foldl unresolvedStep None as =
    (if decisive as \<noteq> [] \<and> at_outcome (last (decisive as)) = outcomeFailed then Some (last (decisive as)) else None)"
proof (induction as rule: rev_induct)
  case (snoc a as)
  then show ?case by (cases "at_outcome a") (simp_all add: decisive_def unresolvedStep_def)
qed (simp add: decisive_def)

section \<open>Well-formed matches\<close>

definition valid_dims :: "FingerprintDimension list \<Rightarrow> bool" where
  "valid_dims ds \<longleftrightarrow> ds \<noteq> [] \<and> (\<forall>d\<in>set ds. dim_Name d \<noteq> [] \<and> dim_Value d \<noteq> [])"

definition entry_match :: "CatalogEntry \<Rightarrow> Match \<Rightarrow> bool" where
  "entry_match entry m \<longleftrightarrow>
    mt_DetectorID m = ent_DetectorID entry \<and> mt_DetectorVersion m = ent_DetectorVersion entry \<and>
    mt_FingerprintVersion m = ent_FingerprintVersion entry \<and> mt_Category m = ent_Category entry \<and>
    mt_TitleCode m = ent_TitleCode entry \<and> mt_Experimental m = ent_Experimental entry \<and>
    mt_Category m \<noteq> [] \<and> mt_TitleCode m \<noteq> [] \<and> mt_Severity m \<noteq> [] \<and> mt_Confidence m \<noteq> [] \<and>
    mt_FirstObservedAt m \<noteq> time_zero \<and> mt_FirstObservedAt m \<le> mt_LastObservedAt m \<and>
    distinct (mt_CitedEventIDs m) \<and> length (mt_CitedEventIDs m) \<le> MaxCitations \<and>
    valid_dims (mt_Fingerprint m) \<and> sorted (map dim_key (mt_Fingerprint m))"

lemma valid_dimensions:
  assumes "ps_sessionID s \<noteq> []" and "\<forall>d\<in>set ds. dim_Name d \<noteq> [] \<and> dim_Value d \<noteq> []"
  shows "valid_dims (dimensions s ds)" and "sorted (map dim_key (dimensions s ds))"
proof -
  have "set (dimensions s ds) = set (scopeDimensions s) \<union> set ds" by (simp add: dimensions_def)
  moreover have "\<forall>d\<in>set (scopeDimensions s). dim_Name d \<noteq> [] \<and> dim_Value d \<noteq> []"
    and "set (scopeDimensions s) \<noteq> {}"
    using assms(1) by (auto simp: scopeDimensions_def)
  ultimately show "valid_dims (dimensions s ds)" using assms(2) by (auto simp: valid_dims_def)
  show "sorted (map dim_key (dimensions s ds))" unfolding dimensions_def by (rule sortDimensions_props)
qed

lemma dimensions_inj: "dimensions s [d] = dimensions s [d'] \<Longrightarrow> d = d'"
proof -
  assume "dimensions s [d] = dimensions s [d']"
  then have "mset (dimensions s [d]) = mset (dimensions s [d'])" by simp
  then show ?thesis by (simp add: dimensions_def)
qed

lemma dimensions_inj2:
  assumes "dimensions s [c, d] = dimensions s [c', d']" and "dim_Name c \<noteq> dim_Name d'"
  shows "d = d'"
proof -
  have "mset (dimensions s [c, d]) = mset (dimensions s [c', d'])" using assms(1) by simp
  then have "{#d, c#} = {#d', c'#}" by (simp add: dimensions_def)
  moreover have "c \<noteq> d'" using assms(2) by auto
  ultimately show ?thesis by (auto simp: add_eq_conv_ex)
qed

lemma builtinMatch_simps [simp]:
  "mt_FirstObservedAt (builtinMatch s i sev conf t u ev fp) = t"
  "mt_LastObservedAt (builtinMatch s i sev conf t u ev fp) = u"
  "mt_Severity (builtinMatch s i sev conf t u ev fp) = sev"
  "mt_Confidence (builtinMatch s i sev conf t u ev fp) = conf"
  "mt_Fingerprint (builtinMatch s i sev conf t u ev fp) = dimensions s fp"
  "mt_CitedEventIDs (builtinMatch s i sev conf t u ev fp) = fst (citationIDs ev)"
  "mt_EvidenceComplete (builtinMatch s i sev conf t u ev fp) = snd (citationIDs ev)"
  "mt_DetectorID (builtinMatch s i sev conf t u ev fp) = ent_DetectorID (builtinEntry i)"
  "mt_DetectorVersion (builtinMatch s i sev conf t u ev fp) = ent_DetectorVersion (builtinEntry i)"
  "mt_FingerprintVersion (builtinMatch s i sev conf t u ev fp) = ent_FingerprintVersion (builtinEntry i)"
  "mt_Category (builtinMatch s i sev conf t u ev fp) = ent_Category (builtinEntry i)"
  "mt_TitleCode (builtinMatch s i sev conf t u ev fp) = ent_TitleCode (builtinEntry i)"
  "mt_Experimental (builtinMatch s i sev conf t u ev fp) = ent_Experimental (builtinEntry i)"
  by (simp_all add: builtinMatch_def Let_def split: prod.splits)

definition complete_entry :: "CatalogEntry \<Rightarrow> bool" where
  "complete_entry entry \<longleftrightarrow> ent_Category entry \<noteq> [] \<and> ent_TitleCode entry \<noteq> [] \<and>
    builtinEntry (ent_DetectorID entry) = entry"

lemma builtin_entry_match:
  assumes "complete_entry (builtinEntry i)" and "ps_sessionID s \<noteq> []"
    and "\<forall>d\<in>set fp. dim_Name d \<noteq> [] \<and> dim_Value d \<noteq> []"
    and "sev \<noteq> []" "conf \<noteq> []" "t \<noteq> time_zero" "t \<le> u"
  shows "entry_match (builtinEntry i) (builtinMatch s i sev conf t u ev fp)"
  using assms valid_dimensions [OF assms(2, 3)]
  by (simp add: entry_match_def complete_entry_def citationIDs_eq distinct_take)

lemma builtin_entries_complete: "entry \<in> set builtinEntries \<Longrightarrow> complete_entry entry"
proof -
  have "list_all complete_entry builtinEntries" by code_simp
  then show "entry \<in> set builtinEntries \<Longrightarrow> complete_entry entry" by (simp add: list_all_iff)
qed

lemma distinct_builtin_entries: "distinct (map ent_DetectorID builtinEntries)"
  by code_simp

text \<open>Sessions whose events carry times, and sessions whose times follow the order of the events.\<close>

definition timed :: "PreparedSession \<Rightarrow> bool" where
  "timed s \<longleftrightarrow> (\<forall>item\<in>set (ps_events s). pe_At item \<noteq> time_zero)"

definition monotone_times :: "PreparedSession \<Rightarrow> bool" where
  "monotone_times s \<longleftrightarrow> timed s \<and> sorted (map pe_At (ps_events s))"


section \<open>What each detector finds\<close>

text \<open>
  The matches of each detector as a function of the session alone: the context decides only
  whether an answer is given.
\<close>

lemma sortedKeys_group_by [simp]: "sortedKeys (group_by f xs) = sortedDistinct (map f xs)"
  by (rule sorted_distinct_set_unique) (simp_all add: sorted_sortedKeys distinct_sortedKeys)

definition failed_attempts :: "PreparedSession \<Rightarrow> commandAttempt list" where
  "failed_attempts s = filter (\<lambda>a. at_outcome a = outcomeFailed) (attemptsOf (ps_events s))"

definition of_signature :: "gostring \<Rightarrow> commandAttempt list \<Rightarrow> commandAttempt list" where
  "of_signature signature as = filter (\<lambda>a. at_signature a = signature) as"

definition command_failures :: "PreparedSession \<Rightarrow> Match list" where
  "command_failures s =
    map (\<lambda>k. commandFailureMatch s k (of_signature k (failed_attempts s)))
      (sortedDistinct (map at_signature (failed_attempts s)))"

definition tool_failures :: "PreparedSession \<Rightarrow> Match list" where
  "tool_failures s =
    map (\<lambda>k. toolFailureMatch s k
          (filter (\<lambda>item. safeToolIdentity (pe_event item) = k) (filter toolFailed (ps_events s))))
      (sortedDistinct (map (\<lambda>item. safeToolIdentity (pe_event item)) (filter toolFailed (ps_events s))))"

definition eligible_attempts :: "PreparedSession \<Rightarrow> commandAttempt list" where
  "eligible_attempts s = filter at_repetitionEligible (attemptsOf (ps_events s))"

definition repeated_attempts :: "PreparedSession \<Rightarrow> Match list" where
  "repeated_attempts s =
    List.map_filter (\<lambda>k. repeatedAttemptsMatch s k (of_signature k (eligible_attempts s)))
      (sortedDistinct (map at_signature (eligible_attempts s)))"

definition permission_denials :: "PreparedSession \<Rightarrow> Match list" where
  "permission_denials s =
    map (\<lambda>k. permissionMatch s k (filter (\<lambda>item. permissionClass item = k)
          (filter (\<lambda>item. pe_Type item = ''permission.denied'') (ps_events s))))
      (sortedDistinct (map permissionClass (filter (\<lambda>item. pe_Type item = ''permission.denied'') (ps_events s))))"

definition series_before :: "PreparedSession \<Rightarrow> nat \<Rightarrow> commandAttempt list" where
  "series_before s terminal = filter (verificationSeries terminal) (attemptsOf (ps_events s))"

definition unresolved_verifications :: "PreparedSession \<Rightarrow> Match list" where
  "unresolved_verifications s =
    (case lastIndex isTerminal (ps_events s) of
       None \<Rightarrow> []
     | Some t \<Rightarrow>
         List.map_filter (\<lambda>k. unresolvedMatch s (ps_events s ! t) k (of_signature k (series_before s t)))
           (sortedDistinct (map at_signature (series_before s t))))"

lemmas found_defs = command_failures_def tool_failures_def repeated_attempts_def permission_denials_def
  unresolved_verifications_def failed_attempts_def eligible_attempts_def series_before_def of_signature_def

lemma detectExplicitCommandFailures_Inr:
  "detectExplicitCommandFailures c s = (Inr ms, c') \<Longrightarrow> ms = command_failures s"
  by (auto simp: detectExplicitCommandFailures_def Let_def found_defs
      dest!: commandAttempts_Inr emitLoop_Inr split: prod.splits sum.splits)

lemma detectExplicitToolFailures_Inr:
  "detectExplicitToolFailures c s = (Inr ms, c') \<Longrightarrow> ms = tool_failures s"
  by (auto simp: detectExplicitToolFailures_def Let_def found_defs
      dest!: emitLoop_Inr split: prod.splits option.splits)

lemma detectRepeatedCommandAttempts_Inr:
  "detectRepeatedCommandAttempts c s = (Inr ms, c') \<Longrightarrow> ms = repeated_attempts s"
  by (auto simp: detectRepeatedCommandAttempts_def Let_def found_defs
      dest!: commandAttempts_Inr emitLoop_Inr split: prod.splits sum.splits)

lemma detectPermissionDenials_Inr:
  "detectPermissionDenials c s = (Inr ms, c') \<Longrightarrow> ms = permission_denials s"
  by (auto simp: detectPermissionDenials_def Let_def found_defs split: prod.splits option.splits)

lemma detectRetainedVerificationGap_Inr:
  "detectRetainedVerificationGap c s = (Inr ms, c') \<Longrightarrow> ms = retainedGapMatches s"
  by (auto simp: detectRetainedVerificationGap_def split: prod.splits option.splits)

lemma detectUnresolvedVerification_Inr:
  "detectUnresolvedVerification c s = (Inr ms, c') \<Longrightarrow> ms = unresolved_verifications s"
  by (auto simp: detectUnresolvedVerification_def Let_def found_defs
      dest!: commandAttempts_Inr emitLoop_Inr split: prod.splits sum.splits option.splits)

lemma detectors_Live [simp]:
  "detectExplicitCommandFailures Live s = (Inr (command_failures s), Live)"
  "detectExplicitToolFailures Live s = (Inr (tool_failures s), Live)"
  "detectRepeatedCommandAttempts Live s = (Inr (repeated_attempts s), Live)"
  "detectPermissionDenials Live s = (Inr (permission_denials s), Live)"
  "detectRetainedVerificationGap Live s = (Inr (retainedGapMatches s), Live)"
  "detectUnresolvedVerification Live s = (Inr (unresolved_verifications s), Live)"
  by (simp_all add: detectExplicitCommandFailures_def detectExplicitToolFailures_def
      detectRepeatedCommandAttempts_def detectPermissionDenials_def detectRetainedVerificationGap_def
      detectUnresolvedVerification_def Let_def found_defs emitLoop_Live split: option.splits)

section \<open>The contract of a detector\<close>

text \<open>
  A detector answers whenever the context is never done, its answer does not depend on when the
  context is polled, an error is the context's, and on a session it is \<open>ready\<close> for every match
  is well formed and no two matches share a fingerprint.
\<close>

locale session_detector =
  fixes entry :: CatalogEntry
    and evaluate :: "ctx \<Rightarrow> PreparedSession \<Rightarrow> (ctx_error + Match list) \<times> ctx"
    and ready :: "PreparedSession \<Rightarrow> bool"
    and found :: "PreparedSession \<Rightarrow> Match list"
  assumes known: "complete_entry entry"
    and live: "evaluate Live s = (Inr (found s), Live)"
    and answer: "evaluate c s = (Inr ms, c') \<Longrightarrow> ms = found s"
    and cancelled: "evaluate c s = (Inl e, c') \<Longrightarrow> c' = DoneAfter 0 e"
    and well_formed: "ready s \<Longrightarrow> ps_sessionID s \<noteq> [] \<Longrightarrow> m \<in> set (found s) \<Longrightarrow> entry_match entry m"
    and one_each: "distinct (map mt_Fingerprint (found s))"
begin

lemma answers_found:
  "evaluate c s = (Inr ms, c') \<Longrightarrow> ready s \<Longrightarrow> ps_sessionID s \<noteq> [] \<Longrightarrow>
    (\<forall>m\<in>set ms. entry_match entry m) \<and> distinct (map mt_Fingerprint ms)"
  using answer well_formed one_each by blast

lemma distinct_matches: "distinct (found s)"
  using one_each by (simp add: distinct_map)

end

text \<open>The entries the detectors name.\<close>

lemma builtin_names:
  "builtinEntry ''explicit_command_failure'' = builtinEntries ! 0"
  "builtinEntry ''explicit_tool_failure'' = builtinEntries ! 1"
  "builtinEntry ''repeated_command_attempts'' = builtinEntries ! 2"
  "builtinEntry ''explicit_permission_denial'' = builtinEntries ! 3"
  "builtinEntry ''retained_verification_gap_after_changes'' = builtinEntries ! 4"
  "builtinEntry ''unresolved_verification_failure_at_completion'' = builtinEntries ! 5"
  by code_simp+

lemma builtin_complete:
  "complete_entry (builtinEntries ! 0)" "complete_entry (builtinEntries ! 1)"
  "complete_entry (builtinEntries ! 2)" "complete_entry (builtinEntries ! 3)"
  "complete_entry (builtinEntries ! 4)" "complete_entry (builtinEntries ! 5)"
  by code_simp+

section \<open>The detectors meet the contract\<close>

lemma attempt_in_session:
  assumes "a \<in> set (attemptsOf (ps_events s))"
  shows "at_signature a \<noteq> []" and "at_first a \<in> pe_At ` set (ps_events s)" and "at_first a \<le> at_last a"
proof -
  show "at_signature a \<noteq> []" using attemptsOf_shape [OF assms] unfolding attempt_shape_def by blast
  show "at_first a \<in> pe_At ` set (ps_events s)"
    using attemptsOf_first [OF assms] attemptsOf_nonempty [OF assms] by auto
  show "at_first a \<le> at_last a"
    using attemptsOf_times [OF assms] attemptsOf_nonempty [OF assms]
    by (cases "at_events a") auto
qed

lemma attempt_group_bounds:
  assumes "g \<noteq> []" and "set g \<subseteq> set (attemptsOf (ps_events s))" and "timed s" and b: "attemptBounds g = (r, q)"
  shows "r \<noteq> time_zero" and "r \<le> q"
proof -
  have "r \<in> pe_At ` set (ps_events s)"
    using attemptBounds_bounds(1) [OF assms(1) b] assms(2) attempt_in_session(2) by fastforce
  with assms(3) show "r \<noteq> time_zero" by (auto simp: timed_def)
  obtain a where "a \<in> set g" using assms(1) by (cases g) auto
  then show "r \<le> q"
    using attemptBounds_bounds(2) [OF assms(1) b] attempt_in_session(3) assms(2) by (meson order_trans subsetD)
qed

lemma event_group_bounds:
  assumes "g \<noteq> []" and "set g \<subseteq> set (ps_events s)" and "timed s" and b: "eventTimeBounds g = (r, q)"
  shows "r \<noteq> time_zero" and "r \<le> q"
proof -
  show "r \<noteq> time_zero" using eventTimeBounds_pair(1) [OF assms(1) b] assms(2, 3) by (auto simp: timed_def)
  obtain a where "a \<in> set g" using assms(1) by (cases g) auto
  then show "r \<le> q" using eventTimeBounds_pair(2) [OF assms(1) b] by (meson order_trans)
qed

lemma commandFailureMatch_ok:
  assumes "timed s" "ps_sessionID s \<noteq> []" "g \<noteq> []" "set g \<subseteq> set (attemptsOf (ps_events s))" "k \<noteq> []"
  shows "entry_match (builtinEntries ! 0) (commandFailureMatch s k g)"
proof -
  obtain r q where b: "attemptBounds g = (r, q)" by force
  show ?thesis
    using assms attempt_group_bounds [OF assms(3, 4, 1) b] builtin_complete(1)
    unfolding commandFailureMatch_def Let_def b prod.case builtin_names(1) [symmetric]
    by (intro builtin_entry_match) simp_all
qed

lemma repeatedAttemptsMatch_ok:
  assumes "timed s" "ps_sessionID s \<noteq> []" "set g \<subseteq> set (attemptsOf (ps_events s))" "k \<noteq> []"
    and m: "repeatedAttemptsMatch s k g = Some m"
  shows "entry_match (builtinEntries ! 2) m"
proof -
  obtain r q where b: "attemptBounds g = (r, q)" by force
  from m have len: "4 \<le> length g" by (auto simp: repeatedAttemptsMatch_def split: if_splits)
  then have "g \<noteq> []" by auto
  note rq = attempt_group_bounds [OF this assms(3, 1) b]
  have "m = builtinMatch s ''repeated_command_attempts'' SeverityInfo
      (if list_all (\<lambda>a. paired (at_trust a)) g then ConfidenceMedium else ConfidenceLow) r q
      (attempt_evidence g) [\<lparr>dim_Name = ''command_signature_id'', dim_Value = k\<rparr>]"
    using m len by (simp add: repeatedAttemptsMatch_def b)
  then show ?thesis using assms rq builtin_complete(3)
    unfolding builtin_names(3) [symmetric] by (auto intro!: builtin_entry_match)
qed

lemma toolFailureMatch_ok:
  assumes "timed s" "ps_sessionID s \<noteq> []" "g \<noteq> []" "set g \<subseteq> set (ps_events s)" "k \<noteq> []"
  shows "entry_match (builtinEntries ! 1) (toolFailureMatch s k g)"
proof -
  obtain r q where b: "eventTimeBounds g = (r, q)" by force
  show ?thesis
    using assms event_group_bounds [OF assms(3, 4, 1) b] builtin_complete(2)
    unfolding toolFailureMatch_def Let_def b prod.case builtin_names(2) [symmetric]
    by (intro builtin_entry_match) simp_all
qed

lemma permissionMatch_ok:
  assumes "timed s" "ps_sessionID s \<noteq> []" "g \<noteq> []" "set g \<subseteq> set (ps_events s)" "k \<noteq> []"
  shows "entry_match (builtinEntries ! 3) (permissionMatch s k g)"
proof -
  obtain r q where b: "eventTimeBounds g = (r, q)" by force
  show ?thesis
    using assms event_group_bounds [OF assms(3, 4, 1) b] builtin_complete(4)
    unfolding permissionMatch_def Let_def b prod.case builtin_names(4) [symmetric]
    by (intro builtin_entry_match) simp_all
qed

lemma attempt_before:
  assumes "monotone_times s" and a: "a \<in> set (attemptsOf (ps_events s))"
    and "at_lastPos a < t" "t < length (ps_events s)"
  shows "at_first a \<le> pe_At (ps_events s ! t)"
proof -
  let ?es = "ps_events s"
  have sh: "attempt_shape ?es a" by (rule attemptsOf_shape [OF a])
  then have "set (at_events a) \<subseteq> {?es ! at_firstPos a, ?es ! at_lastPos a} \<and> at_firstPos a \<le> at_lastPos a"
    by (cases "at_trust a") (auto simp: attempt_shape_def single_of_def pair_shape_def)
  moreover have "pe_At (?es ! i) \<le> pe_At (?es ! t)" if "i \<le> t" for i
    using assms(1, 4) that sorted_nth_mono [of "map pe_At ?es" i t] by (simp add: monotone_times_def)
  ultimately show ?thesis using attemptsOf_first [OF a] assms(3) by fastforce
qed

lemma unresolvedMatch_ok:
  assumes "monotone_times s" "ps_sessionID s \<noteq> []" "k \<noteq> []" "t < length (ps_events s)"
    and g: "set g \<subseteq> set (series_before s t)"
    and m: "unresolvedMatch s (ps_events s ! t) k g = Some m"
  shows "entry_match (builtinEntries ! 5) m"
proof -
  from m obtain a where u: "foldl unresolvedStep None g = Some a"
    by (auto simp: unresolvedMatch_def split: option.splits)
  then have "a \<in> set g" by (auto simp: unresolved_fold decisive_def dest: last_in_set split: if_splits)
  then have a: "a \<in> set (attemptsOf (ps_events s))" "at_lastPos a < t" "isVerificationClass (at_class a)"
    using g by (auto simp: series_before_def verificationSeries_def)
  have "at_first a \<noteq> time_zero"
    using attempt_in_session(2) [OF a(1)] assms(1) by (auto simp: monotone_times_def timed_def)
  moreover have "at_class a \<noteq> []" using a(3) by (auto simp: isVerificationClass_def)
  ultimately show ?thesis
    using m u assms(2, 3) attempt_before [OF assms(1) a(1, 2) assms(4)] builtin_complete(6)
    unfolding builtin_names(6) [symmetric]
    by (auto simp: unresolvedMatch_def intro!: builtin_entry_match)
qed

lemma retainedGap_ok:
  assumes "monotone_times s" "ps_sessionID s \<noteq> []" "m \<in> set (retainedGapMatches s)"
  shows "entry_match (builtinEntries ! 4) m"
proof -
  let ?es = "ps_events s"
  obtain t where t: "lastIndex isTerminal ?es = Some t"
    using assms(3) by (cases "lastIndex isTerminal ?es") (simp_all add: retainedGapMatches_def)
  obtain f where f: "lastIndex isMutation (take t ?es) = Some f"
    using assms(3) t by (cases "lastIndex isMutation (take t ?es)") (simp_all add: retainedGapMatches_def)
  obtain conf ok where c: "retainedVerificationConfidence s = (conf, ok)" by force
  have ok: "ok" and m: "m = builtinMatch s ''retained_verification_gap_after_changes'' SeverityInfo
      conf (pe_At (?es ! f)) (pe_At (?es ! t)) [?es ! f, ?es ! t]
      [\<lparr>dim_Name = ''verification_gap'', dim_Value = ''retained_after_final_change''\<rparr>]"
    using assms(3) by (simp_all add: retainedGapMatches_def Let_def t f c split: if_splits)
  have conf: "conf \<noteq> []" using c ok by (auto simp: retainedVerificationConfidence_def split: if_splits)
  have ft: "f < t" "t < length ?es" using lastIndex_Some [OF t] lastIndex_Some [OF f] by auto
  have "pe_At (?es ! f) \<noteq> time_zero" using assms(1) ft by (simp add: monotone_times_def timed_def)
  moreover have "pe_At (?es ! f) \<le> pe_At (?es ! t)"
    using assms(1) ft sorted_nth_mono [of "map pe_At ?es" f t] by (simp add: monotone_times_def)
  ultimately show ?thesis unfolding m builtin_names(5) [symmetric]
    using conf assms(2) builtin_complete(5) by (intro builtin_entry_match) (simp_all add: builtin_names(5))
qed

lemma distinct_fingerprints:
  assumes "\<And>k k' m m'. f k = Some m \<Longrightarrow> f k' = Some m' \<Longrightarrow> mt_Fingerprint m = mt_Fingerprint m' \<Longrightarrow> k = k'"
  shows "distinct (map mt_Fingerprint (List.map_filter f (sortedDistinct ks)))"
  using assms by (intro distinct_map_filter) simp_all

lemma signature_fingerprints:
  "mt_Fingerprint (commandFailureMatch s k g) = dimensions s [\<lparr>dim_Name = ''command_signature_id'', dim_Value = k\<rparr>]"
  "mt_Fingerprint (toolFailureMatch s k es) = dimensions s [\<lparr>dim_Name = ''tool_identity'', dim_Value = k\<rparr>]"
  "mt_Fingerprint (permissionMatch s k es) = dimensions s [\<lparr>dim_Name = ''permission_class'', dim_Value = k\<rparr>]"
  "repeatedAttemptsMatch s k g = Some m \<Longrightarrow>
    mt_Fingerprint m = dimensions s [\<lparr>dim_Name = ''command_signature_id'', dim_Value = k\<rparr>]"
  "unresolvedMatch s t k g = Some m \<Longrightarrow>
    \<exists>c. mt_Fingerprint m = dimensions s [\<lparr>dim_Name = ''command_class'', dim_Value = c\<rparr>,
      \<lparr>dim_Name = ''command_signature_id'', dim_Value = k\<rparr>]"
  by (auto simp: commandFailureMatch_def toolFailureMatch_def permissionMatch_def repeatedAttemptsMatch_def
      unresolvedMatch_def Let_def split: prod.splits if_splits option.splits)

lemma distinct_mapped_fingerprints:
  assumes "\<And>k k'. mt_Fingerprint (f k) = mt_Fingerprint (f k') \<Longrightarrow> k = k'"
  shows "distinct (map mt_Fingerprint (map f (sortedDistinct ks)))"
  using distinct_fingerprints [of "\<lambda>k. Some (f k)" ks] assms by auto

lemma of_signature_group:
  assumes "k \<in> set (sortedDistinct (map at_signature as))" and "set as \<subseteq> set (attemptsOf (ps_events s))"
  shows "of_signature k as \<noteq> []" and "set (of_signature k as) \<subseteq> set (attemptsOf (ps_events s))" and "k \<noteq> []"
  using assms attempt_in_session(1) by (auto simp: of_signature_def filter_empty_conv)

lemma unresolved_dims:
  "dimensions s [\<lparr>dim_Name = ''command_class'', dim_Value = c\<rparr>, \<lparr>dim_Name = ''command_signature_id'', dim_Value = k\<rparr>] =
   dimensions s [\<lparr>dim_Name = ''command_class'', dim_Value = c'\<rparr>, \<lparr>dim_Name = ''command_signature_id'', dim_Value = k'\<rparr>]
   \<Longrightarrow> k = k'"
  by (drule dimensions_inj2) simp_all

lemma permissionClass_nonempty: "permissionClass item \<noteq> []"
  by (simp add: permissionClass_def Let_def)

interpretation command_failure: session_detector "builtinEntries ! 0" detectExplicitCommandFailures timed command_failures
proof unfold_locales
  show "entry_match (builtinEntries ! 0) m"
    if asm: "timed s" "ps_sessionID s \<noteq> []" "m \<in> set (command_failures s)" for s m
  proof -
    obtain k where k: "k \<in> set (sortedDistinct (map at_signature (failed_attempts s)))"
      and m: "m = commandFailureMatch s k (of_signature k (failed_attempts s))"
      using asm(3) unfolding command_failures_def by auto
    have "set (failed_attempts s) \<subseteq> set (attemptsOf (ps_events s))" by (auto simp: failed_attempts_def)
    from of_signature_group [OF k this] show ?thesis
      unfolding m by (intro commandFailureMatch_ok asm(1, 2))
  qed
  show "distinct (map mt_Fingerprint (command_failures s))" for s
    unfolding command_failures_def
    by (rule distinct_mapped_fingerprints) (auto simp: signature_fingerprints dest: dimensions_inj)
  show "c' = DoneAfter 0 e" if "detectExplicitCommandFailures c s = (Inl e, c')" for c s e c'
    using that by (auto simp: detectExplicitCommandFailures_def Let_def
        dest: commandAttempts_Inl emitLoop_Inl split: prod.splits sum.splits)
qed (auto simp: builtin_complete detectExplicitCommandFailures_Inr)

interpretation tool_failure: session_detector "builtinEntries ! 1" detectExplicitToolFailures timed tool_failures
proof unfold_locales
  show "entry_match (builtinEntries ! 1) m"
    if asm: "timed s" "ps_sessionID s \<noteq> []" "m \<in> set (tool_failures s)" for s m
  proof -
    obtain item where item: "item \<in> set (filter toolFailed (ps_events s))"
      and m: "m = toolFailureMatch s (safeToolIdentity (pe_event item))
        (filter (\<lambda>x. safeToolIdentity (pe_event x) = safeToolIdentity (pe_event item))
          (filter toolFailed (ps_events s)))"
      using asm(3) unfolding tool_failures_def by auto
    show ?thesis unfolding m
      by (rule toolFailureMatch_ok [OF asm(1, 2)]) (use item in \<open>auto simp: filter_empty_conv toolFailed_def\<close>)
  qed
  show "distinct (map mt_Fingerprint (tool_failures s))" for s
    unfolding tool_failures_def
    by (rule distinct_mapped_fingerprints) (auto simp: signature_fingerprints dest: dimensions_inj)
  show "c' = DoneAfter 0 e" if "detectExplicitToolFailures c s = (Inl e, c')" for c s e c'
    using that by (auto simp: detectExplicitToolFailures_def Let_def
        dest: contextLoop_done emitLoop_Inl split: prod.splits option.splits)
qed (rule builtin_complete, auto simp: detectExplicitToolFailures_Inr)

interpretation repeated_attempt: session_detector "builtinEntries ! 2" detectRepeatedCommandAttempts timed repeated_attempts
proof unfold_locales
  show "entry_match (builtinEntries ! 2) m"
    if asm: "timed s" "ps_sessionID s \<noteq> []" "m \<in> set (repeated_attempts s)" for s m
  proof -
    obtain k where k: "k \<in> set (sortedDistinct (map at_signature (eligible_attempts s)))"
      and m: "repeatedAttemptsMatch s k (of_signature k (eligible_attempts s)) = Some m"
      using asm(3) unfolding repeated_attempts_def in_set_map_filter by blast
    have "set (eligible_attempts s) \<subseteq> set (attemptsOf (ps_events s))" by (auto simp: eligible_attempts_def)
    from of_signature_group [OF k this] show ?thesis
      using m by (intro repeatedAttemptsMatch_ok [OF asm(1, 2)])
  qed
  show "distinct (map mt_Fingerprint (repeated_attempts s))" for s
    unfolding repeated_attempts_def
    by (rule distinct_fingerprints) (auto dest!: signature_fingerprints(4) dimensions_inj)
  show "c' = DoneAfter 0 e" if "detectRepeatedCommandAttempts c s = (Inl e, c')" for c s e c'
    using that by (auto simp: detectRepeatedCommandAttempts_def Let_def
        dest: commandAttempts_Inl emitLoop_Inl split: prod.splits sum.splits)
qed (auto simp: builtin_complete detectRepeatedCommandAttempts_Inr)

interpretation permission_denial: session_detector "builtinEntries ! 3" detectPermissionDenials timed permission_denials
proof unfold_locales
  show "entry_match (builtinEntries ! 3) m"
    if asm: "timed s" "ps_sessionID s \<noteq> []" "m \<in> set (permission_denials s)" for s m
  proof -
    let ?denied = "filter (\<lambda>item. pe_Type item = ''permission.denied'') (ps_events s)"
    obtain item where item: "item \<in> set ?denied"
      and m: "m = permissionMatch s (permissionClass item) (filter (\<lambda>x. permissionClass x = permissionClass item) ?denied)"
      using asm(3) unfolding permission_denials_def by auto
    show ?thesis unfolding m
      by (rule permissionMatch_ok [OF asm(1, 2)])
        (use item in \<open>auto simp: filter_empty_conv permissionClass_nonempty\<close>)
  qed
  show "distinct (map mt_Fingerprint (permission_denials s))" for s
    unfolding permission_denials_def
    by (rule distinct_mapped_fingerprints) (auto simp: signature_fingerprints dest: dimensions_inj)
  show "c' = DoneAfter 0 e" if "detectPermissionDenials c s = (Inl e, c')" for c s e c'
    using that by (auto simp: detectPermissionDenials_def Let_def
        dest: contextLoop_done split: prod.splits option.splits)
qed (auto simp: builtin_complete detectPermissionDenials_Inr)

interpretation retained_gap: session_detector "builtinEntries ! 4" detectRetainedVerificationGap monotone_times retainedGapMatches
proof unfold_locales
  show "distinct (map mt_Fingerprint (retainedGapMatches s))" for s
    by (auto simp: retainedGapMatches_def Let_def split: option.splits prod.splits)
  show "c' = DoneAfter 0 e" if "detectRetainedVerificationGap c s = (Inl e, c')" for c s e c'
    using that by (auto simp: detectRetainedVerificationGap_def
        dest: contextLoop_done split: prod.splits option.splits)
qed (auto simp: builtin_complete detectRetainedVerificationGap_Inr intro: retainedGap_ok)

interpretation unresolved: session_detector "builtinEntries ! 5" detectUnresolvedVerification monotone_times
  unresolved_verifications
proof unfold_locales
  show "entry_match (builtinEntries ! 5) m"
    if asm: "monotone_times s" "ps_sessionID s \<noteq> []" "m \<in> set (unresolved_verifications s)" for s m
  proof -
    obtain t where t: "lastIndex isTerminal (ps_events s) = Some t"
      using asm(3) by (cases "lastIndex isTerminal (ps_events s)") (simp_all add: unresolved_verifications_def)
    then obtain k where k: "k \<in> set (sortedDistinct (map at_signature (series_before s t)))"
      and m: "unresolvedMatch s (ps_events s ! t) k (of_signature k (series_before s t)) = Some m"
      using asm(3) by (auto simp: unresolved_verifications_def in_set_map_filter)
    have sub: "set (series_before s t) \<subseteq> set (attemptsOf (ps_events s))" by (auto simp: series_before_def)
    have "set (of_signature k (series_before s t)) \<subseteq> set (series_before s t)" by (auto simp: of_signature_def)
    with of_signature_group(3) [OF k sub] lastIndex_Some [OF t] m show ?thesis
      by (intro unresolvedMatch_ok [OF asm(1, 2)]) auto
  qed
  show "distinct (map mt_Fingerprint (unresolved_verifications s))" for s
    unfolding unresolved_verifications_def
    by (cases "lastIndex isTerminal (ps_events s)")
      (auto intro!: distinct_fingerprints dest!: signature_fingerprints(5) unresolved_dims)
  show "c' = DoneAfter 0 e" if "detectUnresolvedVerification c s = (Inl e, c')" for c s e c'
    using that by (auto simp: detectUnresolvedVerification_def Let_def
        dest: commandAttempts_Inl emitLoop_Inl split: prod.splits sum.splits option.splits)
qed (auto simp: builtin_complete detectUnresolvedVerification_Inr)


section \<open>Properties of the detectors\<close>

definition sample_session :: "PreparedEvent list \<Rightarrow> PreparedSession" where
  "sample_session events =
    \<lparr>ps_sessionID = ''k'', ps_projectScope = [], ps_scopeQuality = ''unscoped'', ps_events = events\<rparr>"

text \<open>
  A built-in match cites the distinct identifiers of its evidence in order, at most fifty of
  them, and says that its evidence is complete exactly when none was left out.
\<close>

theorem citations_bounded_and_honest:
  "length (fst (citationIDs evidence)) \<le> MaxCitations \<and> distinct (fst (citationIDs evidence)) \<and>
    set (fst (citationIDs evidence)) \<subseteq> (\<Union>item\<in>set evidence. set (pe_evidenceIDs item)) - {[]} \<and>
    (snd (citationIDs evidence) \<longleftrightarrow>
      set (fst (citationIDs evidence)) = (\<Union>item\<in>set evidence. set (pe_evidenceIDs item)) - {[]})"
proof -
  let ?u = "cited_ids evidence"
  have complete: "set (take MaxCitations ?u) = set ?u \<longleftrightarrow> length ?u \<le> MaxCitations"
  proof
    assume eq: "set (take MaxCitations ?u) = set ?u"
    have "length (take MaxCitations ?u) = length ?u"
      using distinct_card [of "take MaxCitations ?u"] distinct_card [of ?u] eq by (simp add: distinct_take)
    then show "length ?u \<le> MaxCitations" by simp
  qed simp
  show ?thesis
    using complete citationIDs_subset [of evidence]
    by (simp add: citationIDs_eq set_cited_ids [symmetric] distinct_take)
qed

text \<open>
  C30. Nothing of an event reaches the fingerprint of a tool failure except a bounded identity made
  of lower-case letters, digits and the characters \<open>_.-\<close>: either no identity, or \<open>tool:name\<close> or
  \<open>mcp:server/tool\<close> with safe components, at most 133 bytes.
\<close>

theorem tool_identity_bounded:
  "safeToolIdentity event = [] \<or> (safe_identity (safeToolIdentity event) \<and> length (safeToolIdentity event) \<le> 133)"
  using safeToolIdentity_safe [of event] safe_identity_length by blast

text \<open>
  The command failure detector reports a signature exactly when an attempt with it failed, once,
  citing the events of its failed attempts; the severity is medium from three repetition-eligible
  failures on, and the confidence is low exactly when a result without its execution is among them.
\<close>

theorem command_failure_reported:
  assumes "detectExplicitCommandFailures c s = (Inr ms, c')"
  shows "(signature \<in> at_signature ` set (failed_attempts s) \<longleftrightarrow>
      (\<exists>m\<in>set ms. \<lparr>dim_Name = ''command_signature_id'', dim_Value = signature\<rparr> \<in> set (mt_Fingerprint m))) \<and>
    (\<forall>m\<in>set ms. \<exists>k\<in>at_signature ` set (failed_attempts s).
      let g = of_signature k (failed_attempts s) in
      mt_CitedEventIDs m = fst (citationIDs (attempt_evidence g)) \<and>
      (mt_Severity m = SeverityMedium \<longleftrightarrow> length (filter at_repetitionEligible g) \<ge> 3) \<and>
      (mt_Confidence m = ConfidenceLow \<longleftrightarrow> (\<exists>a\<in>set g. at_trust a = trustUnpairedResult)))"
proof -
  have ms: "ms = command_failures s" by (rule detectExplicitCommandFailures_Inr [OF assms])
  have fp: "(\<lparr>dim_Name = ''command_signature_id'', dim_Value = x\<rparr> \<in> set (mt_Fingerprint (commandFailureMatch s k g))) \<longleftrightarrow> x = k"
    for x k g by (auto simp: signature_fingerprints dimensions_def scopeDimensions_def)
  have shape: "mt_CitedEventIDs (commandFailureMatch s k g) = fst (citationIDs (attempt_evidence g)) \<and>
      (mt_Severity (commandFailureMatch s k g) = SeverityMedium \<longleftrightarrow> length (filter at_repetitionEligible g) \<ge> 3) \<and>
      (mt_Confidence (commandFailureMatch s k g) = ConfidenceLow \<longleftrightarrow> (\<exists>a\<in>set g. at_trust a = trustUnpairedResult))"
    for k g
    by (auto simp: commandFailureMatch_def Let_def list_ex_iff split: prod.splits)
  show ?thesis unfolding ms command_failures_def Let_def using fp shape by auto
qed

lemma sample_session_failed: "map at_signature (failed_attempts (sample_session sample_failure)) = [''s'']"
  by code_simp

theorem command_failure_reported_witness:
  "\<exists>m\<in>set (command_failures (sample_session sample_failure)).
    \<lparr>dim_Name = ''command_signature_id'', dim_Value = ''s''\<rparr> \<in> set (mt_Fingerprint m)"
proof -
  have "''s'' \<in> at_signature ` set (failed_attempts (sample_session sample_failure))"
    using sample_session_failed by (metis list.set_intros(1) set_map)
  with command_failure_reported [OF detectors_Live(1)] show ?thesis by blast
qed

text \<open>
  C4. The unresolved verification detector reports a command signature exactly when the session
  ended and, among the trustworthy verification attempts with that signature before its last end,
  the last one with a known outcome failed: a later success resolves it, a later unknown does not.
\<close>

theorem unresolved_verification_reported:
  assumes "detectUnresolvedVerification c s = (Inr ms, c')"
  shows "(\<exists>m\<in>set ms. \<lparr>dim_Name = ''command_signature_id'', dim_Value = signature\<rparr> \<in> set (mt_Fingerprint m)) \<longleftrightarrow>
    (\<exists>t. lastIndex isTerminal (ps_events s) = Some t \<and>
      (let d = decisive (of_signature signature (series_before s t)) in
       d \<noteq> [] \<and> at_outcome (last d) = outcomeFailed))"
proof (cases "lastIndex isTerminal (ps_events s)")
  case None
  then show ?thesis using detectUnresolvedVerification_Inr [OF assms] by (simp add: unresolved_verifications_def)
next
  case (Some t)
  let ?g = "\<lambda>k. of_signature k (series_before s t)" and ?d = "\<lambda>k. decisive (of_signature k (series_before s t))"
  have some: "(\<exists>m. unresolvedMatch s x k (?g k) = Some m) \<longleftrightarrow> ?d k \<noteq> [] \<and> at_outcome (last (?d k)) = outcomeFailed"
    for x k by (simp add: unresolvedMatch_def unresolved_fold)
  have fp: "(\<lparr>dim_Name = ''command_signature_id'', dim_Value = x\<rparr> \<in> set (mt_Fingerprint m)) \<longleftrightarrow> x = k"
    if "unresolvedMatch s y k g = Some m" for x y k g m
    using signature_fingerprints(5) [OF that] by (auto simp: dimensions_def scopeDimensions_def split: if_splits)
  have keys: "k \<in> at_signature ` set (series_before s t)" if "?d k \<noteq> []" for k
    using that by (auto simp: decisive_def of_signature_def filter_empty_conv)
  have ms: "set ms = {m. \<exists>k\<in>at_signature ` set (series_before s t). unresolvedMatch s (ps_events s ! t) k (?g k) = Some m}"
    using detectUnresolvedVerification_Inr [OF assms] Some
    by (auto simp: unresolved_verifications_def in_set_map_filter)
  have "(\<exists>m\<in>set ms. \<lparr>dim_Name = ''command_signature_id'', dim_Value = signature\<rparr> \<in> set (mt_Fingerprint m)) \<longleftrightarrow>
      (signature \<in> at_signature ` set (series_before s t) \<and>
       (\<exists>m. unresolvedMatch s (ps_events s ! t) signature (?g signature) = Some m))"
  proof
    assume "\<exists>m\<in>set ms. \<lparr>dim_Name = ''command_signature_id'', dim_Value = signature\<rparr> \<in> set (mt_Fingerprint m)"
    then obtain m k where mk: "k \<in> at_signature ` set (series_before s t)"
        "unresolvedMatch s (ps_events s ! t) k (?g k) = Some m"
        "\<lparr>dim_Name = ''command_signature_id'', dim_Value = signature\<rparr> \<in> set (mt_Fingerprint m)"
      unfolding ms by blast
    from fp [OF mk(2)] mk(3) have "signature = k" by simp
    with mk(1, 2) show "signature \<in> at_signature ` set (series_before s t) \<and>
       (\<exists>m. unresolvedMatch s (ps_events s ! t) signature (?g signature) = Some m)" by simp
  next
    assume "signature \<in> at_signature ` set (series_before s t) \<and>
       (\<exists>m. unresolvedMatch s (ps_events s ! t) signature (?g signature) = Some m)"
    then obtain m where m: "m \<in> set ms" "unresolvedMatch s (ps_events s ! t) signature (?g signature) = Some m"
      unfolding ms by blast
    from fp [OF m(2)] m(1)
    show "\<exists>m\<in>set ms. \<lparr>dim_Name = ''command_signature_id'', dim_Value = signature\<rparr> \<in> set (mt_Fingerprint m)"
      by blast
  qed
  also have "\<dots> \<longleftrightarrow> ?d signature \<noteq> [] \<and> at_outcome (last (?d signature)) = outcomeFailed"
    unfolding some using keys by blast
  finally show ?thesis by (simp only: Some option.inject ex_simps simp_thms Let_def)
qed

definition sample_unresolved :: PreparedSession where
  "sample_unresolved = sample_session
    (sample_failure @ [sample_item (sample_event ''c'' 3 3000000000 ''hook'' ''session.end'') []])"

lemma sample_unresolved_facts:
  "lastIndex isTerminal (ps_events sample_unresolved) = Some 2"
  "map at_outcome (decisive (of_signature ''s'' (series_before sample_unresolved 2))) = [outcomeFailed]"
  by code_simp+

theorem unresolved_verification_reported_witness:
  "\<exists>m\<in>set (unresolved_verifications sample_unresolved).
    \<lparr>dim_Name = ''command_signature_id'', dim_Value = ''s''\<rparr> \<in> set (mt_Fingerprint m)"
proof -
  let ?d = "decisive (of_signature ''s'' (series_before sample_unresolved 2))"
  obtain a where "?d = [a]" "at_outcome a = outcomeFailed" using sample_unresolved_facts(2) by auto
  with sample_unresolved_facts(1)
  have "\<exists>t. lastIndex isTerminal (ps_events sample_unresolved) = Some t \<and>
      (let d = decisive (of_signature ''s'' (series_before sample_unresolved t)) in
       d \<noteq> [] \<and> at_outcome (last d) = outcomeFailed)" by (intro exI [of _ 2]) (simp add: Let_def)
  with unresolved_verification_reported [OF detectors_Live(6), of sample_unresolved "''s''"] show ?thesis by blast
qed

text \<open>
  The verification gap detector reports at most one match, and exactly when the session ended,
  a file was written or deleted before its last end, no verification command follows the last such
  change before the end, and the session's evidence supports the claim; the confidence is low for
  historical evidence and medium for live evidence.
\<close>

theorem verification_gap_reported:
  assumes "detectRetainedVerificationGap c s = (Inr ms, c')"
  shows "length ms \<le> 1 \<and>
    (ms \<noteq> [] \<longleftrightarrow>
      (\<exists>t f. lastIndex isTerminal (ps_events s) = Some t \<and>
        lastIndex isMutation (take t (ps_events s)) = Some f \<and>
        (\<forall>i. f < i \<and> i < t \<longrightarrow> \<not> isVerificationCommand (ps_events s ! i)) \<and>
        (sessionHasHistoricalEvidence s \<or> retainedVerificationLiveCompatible s))) \<and>
    (\<forall>m\<in>set ms. mt_Confidence m = (if sessionHasHistoricalEvidence s then ConfidenceLow else ConfidenceMedium))"
proof -
  have ms: "ms = retainedGapMatches s" by (rule detectRetainedVerificationGap_Inr [OF assms])
  show ?thesis
  proof (cases "lastIndex isTerminal (ps_events s)")
    case None
    then show ?thesis by (simp add: ms retainedGapMatches_def)
  next
    case (Some t)
    show ?thesis
    proof (cases "lastIndex isMutation (take t (ps_events s))")
      case None
      then show ?thesis using Some by (simp add: ms retainedGapMatches_def Let_def)
    next
      case (Some f)
      with \<open>lastIndex isTerminal (ps_events s) = Some t\<close> show ?thesis
        by (auto simp: ms retainedGapMatches_def retainedVerificationConfidence_def Let_def list_ex_iff Suc_le_eq)
    qed
  qed
qed

definition sample_gap :: PreparedSession where
  "sample_gap = sample_session
    [sample_item (sample_event ''a'' 1 2000000000 ''artifact'' ''file.write'') [],
     sample_item (sample_event ''b'' 2 1000000000 ''artifact'' ''session.end'') []]"

lemma sample_gap_facts:
  "lastIndex isTerminal (ps_events sample_gap) = Some 1"
  "lastIndex isMutation (take 1 (ps_events sample_gap)) = Some 0"
  "sessionHasHistoricalEvidence sample_gap"
  by code_simp+

theorem verification_gap_reported_witness:
  "\<exists>m. retainedGapMatches sample_gap = [m] \<and> mt_Confidence m = ConfidenceLow"
  using verification_gap_reported [OF detectors_Live(5), of sample_gap] sample_gap_facts
  by (cases "retainedGapMatches sample_gap") (auto simp: sample_gap_facts)

end
