(* ===== verification/Detect_Catalog.thy ===== *)
theory Detect_Catalog
  imports Detect_Detectors
begin

text \<open>
  The detector catalog (\<open>internal/detection/catalog.go\<close>): it runs its detectors over one prepared
  session, checks what they return and reports current, failed or truncated. A detector the package
  does not own is a parameter: its \<open>Evaluate\<close> is a function from a context and the public input
  to what the goroutine that runs it observes. Which branch of the \<open>select\<close> is taken, and
  whether the slot of a detector is still held by an earlier run, is an input of the model.
\<close>

section \<open>Detectors and slots\<close>

datatype response = Panicked | Erred prep_error | Errored | Answered DetectorResult

text \<open>\<open>Erred\<close> is an error of the package or of the context, \<open>Errored\<close> any other.\<close>

record externalDetector =
  xd_ID :: gostring
  xd_Version :: gostring
  xd_FingerprintVersion :: gostring
  xd_evaluate :: "ctx \<Rightarrow> SessionInput \<Rightarrow> response"

datatype Detector = Builtin builtinDetector | External externalDetector

fun det_ID :: "Detector \<Rightarrow> gostring" where
  "det_ID (Builtin d) = ent_DetectorID (bd_entry d)"
| "det_ID (External d) = xd_ID d"

fun det_Version :: "Detector \<Rightarrow> gostring" where
  "det_Version (Builtin d) = ent_DetectorVersion (bd_entry d)"
| "det_Version (External d) = xd_Version d"

fun det_FingerprintVersion :: "Detector \<Rightarrow> gostring" where
  "det_FingerprintVersion (Builtin d) = ent_FingerprintVersion (bd_entry d)"
| "det_FingerprintVersion (External d) = xd_FingerprintVersion d"

text \<open>What the goroutine of \<open>runDetector\<close> evaluates.\<close>

fun respond :: "Detector \<Rightarrow> ctx \<Rightarrow> PreparedSession \<Rightarrow> response" where
  "respond (Builtin d) c session =
    (case fst (evaluatePrepared d c session) of Inl e \<Rightarrow> Erred (ErrContext e) | Inr r \<Rightarrow> Answered r)"
| "respond (External d) c session = xd_evaluate d c (publicInput session)"

record detectorSlot =
  sl_detector :: Detector
  sl_running :: bool

record Catalog =
  ca_slots :: "detectorSlot list"
  ca_timeout :: duration

definition defaultDetectorTime :: duration where
  "defaultDetectorTime = seconds 1"

definition catalogFromDetectors :: "Detector list \<Rightarrow> Catalog" where
  "catalogFromDetectors detectors =
    \<lparr>ca_slots = map (\<lambda>d. \<lparr>sl_detector = d, sl_running = False\<rparr>) detectors,
     ca_timeout = defaultDetectorTime\<rparr>"

definition DefaultCatalog :: Catalog where
  "DefaultCatalog = catalogFromDetectors (map Builtin BuiltinDetectors)"

datatype catalog_error = InvalidDetector | DuplicateDetector

text \<open>The loop of \<open>NewCatalog\<close>; None is a nil detector.\<close>

fun newCatalogLoop :: "gostring set \<Rightarrow> Detector list \<Rightarrow> Detector option list \<Rightarrow> catalog_error + Detector list" where
  "newCatalogLoop seen cloned [] = Inr cloned"
| "newCatalogLoop seen cloned (None # rest) = Inl InvalidDetector"
| "newCatalogLoop seen cloned (Some d # rest) =
    (if trim_space (det_ID d) = [] then Inl InvalidDetector
     else if det_ID d \<in> seen then Inl DuplicateDetector
     else newCatalogLoop (insert (det_ID d) seen) (cloned @ [d]) rest)"

definition NewCatalog :: "Detector option list \<Rightarrow> catalog_error + Catalog" where
  "NewCatalog detectors =
    (case newCatalogLoop {} [] detectors of
       Inl e \<Rightarrow> Inl e
     | Inr cloned \<Rightarrow> Inr (catalogFromDetectors cloned))"

definition WithDetectorTimeout :: "Catalog \<Rightarrow> duration \<Rightarrow> Catalog" where
  "WithDetectorTimeout catalog timeout =
    (if sint timeout > 0 then catalog\<lparr>ca_timeout := timeout\<rparr> else catalog)"

fun entryOf :: "Detector \<Rightarrow> CatalogEntry" where
  "entryOf (Builtin d) = bd_entry d"
| "entryOf (External d) =
    zero_entry\<lparr>ent_DetectorID := xd_ID d, ent_DetectorVersion := xd_Version d,
      ent_FingerprintVersion := xd_FingerprintVersion d\<rparr>"

definition Entries :: "Catalog \<Rightarrow> CatalogEntry list" where
  "Entries catalog = map (\<lambda>slot. entryOf (sl_detector slot)) (ca_slots catalog)"

section \<open>Slots\<close>

fun tryStart :: "detectorSlot \<Rightarrow> bool \<times> detectorSlot" where
  "tryStart slot = (if sl_running slot then (False, slot) else (True, slot\<lparr>sl_running := True\<rparr>))"

fun finish :: "detectorSlot \<Rightarrow> detectorSlot" where
  "finish slot = slot\<lparr>sl_running := False\<rparr>"

text \<open>
  One slot shared by concurrent runs: the number of goroutines evaluating its detector, and of
  runs waiting for one. A run starts an evaluation or finds the slot taken; an evaluation ends
  whether or not its run still waits.
\<close>

record slot_world =
  sw_slot :: detectorSlot
  sw_evaluating :: nat

inductive slot_step :: "slot_world \<Rightarrow> slot_world \<Rightarrow> bool" where
  start: "tryStart (sw_slot w) = (True, slot) \<Longrightarrow>
    slot_step w (w\<lparr>sw_slot := slot, sw_evaluating := sw_evaluating w + 1\<rparr>)"
| refused: "tryStart (sw_slot w) = (False, slot) \<Longrightarrow> slot_step w (w\<lparr>sw_slot := slot\<rparr>)"
| ends: "sw_evaluating w > 0 \<Longrightarrow>
    slot_step w (w\<lparr>sw_slot := finish (sw_slot w), sw_evaluating := sw_evaluating w - 1\<rparr>)"

inductive_cases slot_stepE [elim!]: "slot_step w w'"

section \<open>Running one detector\<close>

abbreviation failureCanceled :: gostring where "failureCanceled \<equiv> ''detector_canceled''"
abbreviation failureError :: gostring where "failureError \<equiv> ''detector_error''"
abbreviation failureInvalidOutput :: gostring where "failureInvalidOutput \<equiv> ''detector_invalid_output''"
abbreviation failurePanic :: gostring where "failurePanic \<equiv> ''detector_panic''"
abbreviation failureTimeout :: gostring where "failureTimeout \<equiv> ''detector_timeout''"

fun failureCode :: "prep_error \<Rightarrow> gostring" where
  "failureCode (ErrContext Canceled) = failureCanceled"
| "failureCode (ErrContext DeadlineExceeded) = failureTimeout"
| "failureCode e = failureError"

text \<open>
  How the \<open>select\<close> of a run goes: the context of the detector is done first, with the error of
  the parent context at that moment, or the response arrives, the detector having polled the
  context \<open>c\<close>.
\<close>

datatype selected = CtxDone "ctx_error option" | DoneWith ctx

fun selectedParentErr :: "selected \<Rightarrow> ctx_error option" where
  "selectedParentErr (CtxDone e) = e"
| "selectedParentErr (DoneWith c) = None"

definition checkResponse :: "response \<Rightarrow> gostring + DetectorResult" where
  "checkResponse response =
    (case response of
       Panicked \<Rightarrow> Inl failurePanic
     | Erred e \<Rightarrow> Inl (failureCode e)
     | Errored \<Rightarrow> Inl failureError
     | Answered r \<Rightarrow>
         (if dr_AbsenceCapability r \<noteq> AbsenceSupported \<and> dr_AbsenceCapability r \<noteq> AbsenceNotApplicable \<and>
             dr_AbsenceCapability r \<noteq> AbsenceIncomplete
          then Inl failureInvalidOutput else Inr r))"

text \<open>
  \<open>runDetector\<close>: a taken slot refuses; otherwise the slot is held until the goroutine finishes,
  which it has done before its response is received and may not have done when the context is
  done first.
\<close>

definition runDetector :: "detectorSlot \<Rightarrow> PreparedSession \<Rightarrow> selected \<Rightarrow> (gostring + DetectorResult) \<times> detectorSlot" where
  "runDetector slot session sel =
    (case tryStart slot of
       (False, slot') \<Rightarrow>
         (Inl (if selectedParentErr sel = Some Canceled then failureCanceled else failureTimeout), slot')
     | (True, slot') \<Rightarrow>
         (case sel of
            CtxDone parent \<Rightarrow>
              (Inl (if parent = Some Canceled then failureCanceled
                    else if parent = Some DeadlineExceeded then failureTimeout
                    else failureTimeout), slot')
          | DoneWith c \<Rightarrow> (checkResponse (respond (sl_detector slot) c session), finish slot')))"

section \<open>Checking matches\<close>

definition validateMatch :: "Detector \<Rightarrow> Match \<Rightarrow> Match option" where
  "validateMatch detector match =
    (if mt_DetectorID match \<noteq> det_ID detector \<or> mt_DetectorVersion match \<noteq> det_Version detector \<or>
        mt_FingerprintVersion match \<noteq> det_FingerprintVersion detector \<or>
        mt_Category match = [] \<or> mt_TitleCode match = [] \<or> mt_Severity match = [] \<or>
        mt_Confidence match = [] \<or> mt_FirstObservedAt match = time_zero \<or>
        mt_LastObservedAt match < mt_FirstObservedAt match \<or> length (mt_Fingerprint match) = 0
     then None
     else
       let match = (if length (mt_CitedEventIDs match) > MaxCitations
                    then match\<lparr>mt_CitedEventIDs := take MaxCitations (mt_CitedEventIDs match),
                               mt_EvidenceComplete := False\<rparr>
                    else match)
       in if list_ex (\<lambda>d. dim_Name d = [] \<or> dim_Value d = []) (mt_Fingerprint match) then None
          else Some (match\<lparr>mt_Fingerprint := sortDimensions (mt_Fingerprint match),
                           mt_CitedEventIDs := sortedDistinct (mt_CitedEventIDs match)\<rparr>))"

definition dimensionKey :: "FingerprintDimension list \<Rightarrow> gostring" where
  "dimensionKey dims =
    concat (map (\<lambda>d. itoa (int (length (dim_Name d))) @ '':'' @ dim_Name d @
                     itoa (int (length (dim_Value d))) @ '':'' @ dim_Value d) dims)"

definition matchKey :: "Match \<Rightarrow> gostring" where
  "matchKey match = mt_DetectorID match @ [CHR 0x00] @ dimensionKey (mt_Fingerprint match)"

fun duplicateMatchLoop :: "gostring set \<Rightarrow> Match list \<Rightarrow> bool" where
  "duplicateMatchLoop seen [] = False"
| "duplicateMatchLoop seen (match # rest) =
    (if matchKey match \<in> seen then True else duplicateMatchLoop (insert (matchKey match) seen) rest)"

definition duplicateMatch :: "Match list \<Rightarrow> bool" where
  "duplicateMatch matches = duplicateMatchLoop {} matches"

definition match_order :: "Match \<Rightarrow> gostring \<times> gostring \<times> time \<times> time" where
  "match_order m =
    (mt_DetectorID m, dimensionKey (mt_Fingerprint m), mt_FirstObservedAt m, mt_LastObservedAt m)"

definition sortMatches :: "Match list \<Rightarrow> Match list" where
  "sortMatches matches = sort_key match_order matches"

section \<open>The run\<close>

record run_state =
  rs_matches :: "Match list"
  rs_failures :: "DetectorFailure list"
  rs_applicability :: "DetectorApplicability list"

datatype match_loop = TooMany "Match list" | InvalidAfter "Match list" | AllValid "Match list"

fun takeMatches :: "Detector \<Rightarrow> Match list \<Rightarrow> Match list \<Rightarrow> match_loop" where
  "takeMatches detector acc [] = AllValid acc"
| "takeMatches detector acc (m # ms) =
    (case validateMatch detector m of
       None \<Rightarrow> InvalidAfter acc
     | Some m' \<Rightarrow>
         if length (acc @ [m']) > MaxMatches then TooMany (acc @ [m'])
         else takeMatches detector (acc @ [m']) ms)"

definition applicability :: "Detector \<Rightarrow> AbsenceCapability \<Rightarrow> gostring \<Rightarrow> DetectorApplicability" where
  "applicability detector capability reason =
    \<lparr>da_DetectorID = det_ID detector, da_DetectorVersion = det_Version detector,
     da_FingerprintVersion = det_FingerprintVersion detector,
     da_AbsenceCapability = capability, da_UnavailableReason = reason\<rparr>"

text \<open>One turn of the loop over the slots; None when the catalog is truncated.\<close>

definition runSlot ::
    "Detector \<Rightarrow> gostring + DetectorResult \<Rightarrow> run_state \<Rightarrow> run_state \<times> bool" where
  "runSlot detector outcome st =
    (case outcome of
       Inl code \<Rightarrow>
         (st\<lparr>rs_failures := rs_failures st @ [\<lparr>df_DetectorID = det_ID detector, df_Code = code\<rparr>],
             rs_applicability := rs_applicability st @ [applicability detector AbsenceIncomplete code]\<rparr>, True)
     | Inr r \<Rightarrow>
         let st = st\<lparr>rs_applicability := rs_applicability st @
               [applicability detector (dr_AbsenceCapability r) (dr_UnavailableReason r)]\<rparr>
         in case takeMatches detector (rs_matches st) (dr_Matches r) of
              AllValid ms \<Rightarrow> (st\<lparr>rs_matches := ms\<rparr>, True)
            | InvalidAfter ms \<Rightarrow>
                (st\<lparr>rs_matches := ms, rs_failures := rs_failures st @
                   [\<lparr>df_DetectorID = det_ID detector, df_Code = failureInvalidOutput\<rparr>]\<rparr>, True)
            | TooMany ms \<Rightarrow> (st\<lparr>rs_matches := ms\<rparr>, False))"

fun runSlots ::
    "(nat \<Rightarrow> selected) \<Rightarrow> PreparedSession \<Rightarrow> nat \<Rightarrow> detectorSlot list \<Rightarrow> run_state \<Rightarrow>
     (run_state \<times> bool) \<times> detectorSlot list" where
  "runSlots sel session i [] st = ((st, True), [])"
| "runSlots sel session i (slot # slots) st =
    (let (outcome, slot') = runDetector slot session (sel i);
         (st', continue) = runSlot (sl_detector slot) outcome st
     in if \<not> continue then ((st', False), slot' # slots)
        else let (r, slots') = runSlots sel session (Suc i) slots st' in (r, slot' # slots'))"

definition catalogResult :: "AnalysisStatus \<Rightarrow> Match list \<Rightarrow> DetectorFailure list \<Rightarrow> DetectorApplicability list \<Rightarrow> CatalogResult" where
  "catalogResult status matches failures app =
    \<lparr>cr_CatalogVersion = CatalogVersion, cr_Status = status, cr_Matches = matches,
     cr_Failures = failures, cr_Applicability = app\<rparr>"

definition concludeRun :: "run_state \<times> bool \<Rightarrow> CatalogResult" where
  "concludeRun run =
    (let (st, completed) = run in
     if \<not> completed then
       catalogResult StatusTruncated [] []
         (map (\<lambda>a. a\<lparr>da_AbsenceCapability := AbsenceIncomplete, da_UnavailableReason := ''catalog_truncated''\<rparr>)
            (rs_applicability st))
     else if length (rs_failures st) > 0 then catalogResult StatusFailed [] (rs_failures st) (rs_applicability st)
     else if duplicateMatch (rs_matches st) then
       catalogResult StatusFailed [] [\<lparr>df_DetectorID = [], df_Code = failureInvalidOutput\<rparr>] (rs_applicability st)
     else catalogResult StatusCurrent (sortMatches (rs_matches st)) [] (rs_applicability st))"

definition Run ::
    "Catalog \<Rightarrow> ctx option \<Rightarrow> (nat \<Rightarrow> selected) \<Rightarrow> SessionInput \<Rightarrow> CatalogResult \<times> Catalog" where
  "Run catalog c0 sel input =
    (case c0 of
       None \<Rightarrow> (catalogResult StatusFailed [] [\<lparr>df_DetectorID = [], df_Code = failureCanceled\<rparr>] [], catalog)
     | Some c \<Rightarrow>
         (case fst (prepareSession (Some c) input) of
            Inl e \<Rightarrow>
              if e = ErrSessionLimit then (catalogResult StatusTruncated [] [] [], catalog)
              else (catalogResult StatusFailed [] [\<lparr>df_DetectorID = [], df_Code = failureCode e\<rparr>] [], catalog)
          | Inr session \<Rightarrow>
              let (run, slots) = runSlots sel session 0 (ca_slots catalog)
                    \<lparr>rs_matches = [], rs_failures = [], rs_applicability = []\<rparr>
              in (concludeRun run, catalog\<lparr>ca_slots := slots\<rparr>)))"


section \<open>Slots exclude each other\<close>

definition slot_inv :: "slot_world \<Rightarrow> bool" where
  "slot_inv w \<longleftrightarrow> sw_evaluating w \<le> 1 \<and> (sl_running (sw_slot w) \<longleftrightarrow> sw_evaluating w = 1)"

lemma slot_step_inv: "slot_step w w' \<Longrightarrow> slot_inv w \<Longrightarrow> slot_inv w'"
  by (auto simp: slot_inv_def split: if_splits)

interpretation slot_machine: state_machine slot_step slot_inv
  by unfold_locales (rule slot_step_inv)

section \<open>Keys\<close>

lemma dimensionKey_Cons:
  "dimensionKey (d # ds) = nat_digits (length (dim_Name d)) @ CHR '':'' # dim_Name d @
    nat_digits (length (dim_Value d)) @ CHR '':'' # dim_Value d @ dimensionKey ds"
  by (simp add: dimensionKey_def itoa_def)

lemma nat_digits_nonempty: "nat_digits n \<noteq> []"
  by (subst nat_digits.simps) simp

lemma dimensionKey_inj: "dimensionKey ds = dimensionKey es \<Longrightarrow> ds = es"
proof (induction ds arbitrary: es)
  case Nil
  then show ?case by (cases es) (simp_all add: dimensionKey_Cons nat_digits_nonempty, simp add: dimensionKey_def)
next
  case (Cons d ds)
  then obtain e es' where es: "es = e # es'"
    by (cases es) (auto simp: dimensionKey_Cons nat_digits_nonempty, simp add: dimensionKey_def)
  from Cons.prems [unfolded es dimensionKey_Cons] obtain
    "length (dim_Name d) = length (dim_Name e)"
    and rest: "dim_Name d @ nat_digits (length (dim_Value d)) @ CHR '':'' # dim_Value d @ dimensionKey ds =
      dim_Name e @ nat_digits (length (dim_Value e)) @ CHR '':'' # dim_Value e @ dimensionKey es'"
    by (auto dest: nat_digits_colon_split)
  then have name: "dim_Name d = dim_Name e"
    and rest: "nat_digits (length (dim_Value d)) @ CHR '':'' # dim_Value d @ dimensionKey ds =
      nat_digits (length (dim_Value e)) @ CHR '':'' # dim_Value e @ dimensionKey es'" by simp_all
  from nat_digits_colon_split [OF rest] have "dim_Value d = dim_Value e" "dimensionKey ds = dimensionKey es'"
    by auto
  with name Cons.IH [of es'] es show ?case by simp
qed

lemma matchKey_inj:
  assumes "CHR 0x00 \<notin> set (mt_DetectorID m)" "CHR 0x00 \<notin> set (mt_DetectorID n)" "matchKey m = matchKey n"
  shows "mt_DetectorID m = mt_DetectorID n \<and> mt_Fingerprint m = mt_Fingerprint n"
proof -
  have "split_on (CHR 0x00) (matchKey m) = split_on (CHR 0x00) (matchKey n)" using assms(3) by simp
  then have "mt_DetectorID m = mt_DetectorID n" using assms(1, 2) by (simp add: matchKey_def split_on_append)
  with assms(3) have "dimensionKey (mt_Fingerprint m) = dimensionKey (mt_Fingerprint n)" by (simp add: matchKey_def)
  with \<open>mt_DetectorID m = mt_DetectorID n\<close> show ?thesis by (simp add: dimensionKey_inj)
qed

lemma duplicateMatchLoop_eq:
  "duplicateMatchLoop seen ms \<longleftrightarrow> \<not> distinct (map matchKey ms) \<or> seen \<inter> matchKey ` set ms \<noteq> {}"
  by (induction ms arbitrary: seen) auto

lemma duplicateMatch_eq: "duplicateMatch ms \<longleftrightarrow> \<not> distinct (map matchKey ms)"
  by (simp add: duplicateMatch_def duplicateMatchLoop_eq)

section \<open>The checked matches\<close>

definition checked_for :: "Detector \<Rightarrow> Match \<Rightarrow> bool" where
  "checked_for d m \<longleftrightarrow>
    mt_DetectorID m = det_ID d \<and> mt_DetectorVersion m = det_Version d \<and>
    mt_FingerprintVersion m = det_FingerprintVersion d \<and>
    mt_Category m \<noteq> [] \<and> mt_TitleCode m \<noteq> [] \<and> mt_Severity m \<noteq> [] \<and> mt_Confidence m \<noteq> [] \<and>
    mt_FirstObservedAt m \<noteq> time_zero \<and> mt_FirstObservedAt m \<le> mt_LastObservedAt m \<and>
    valid_dims (mt_Fingerprint m) \<and> sorted (map dim_key (mt_Fingerprint m)) \<and>
    sorted (mt_CitedEventIDs m) \<and> distinct (mt_CitedEventIDs m) \<and> length (mt_CitedEventIDs m) \<le> MaxCitations"

lemma length_sortedDistinct: "length (sortedDistinct xs) \<le> length xs"
  using remdups_adj_length [of "sort xs"] by (simp add: sortedDistinct_def compact_eq)

lemma validateMatch_Some:
  assumes "validateMatch d m = Some m'"
  shows "checked_for d m'" and "set (mt_CitedEventIDs m') \<subseteq> set (mt_CitedEventIDs m)"
    and "set (mt_Fingerprint m') = set (mt_Fingerprint m)"
    and "mt_EvidenceComplete m' \<longleftrightarrow> mt_EvidenceComplete m \<and> length (mt_CitedEventIDs m) \<le> MaxCitations"
proof -
  have l: "length (sortedDistinct (take MaxCitations xs)) \<le> MaxCitations"
    "length xs \<le> MaxCitations \<Longrightarrow> length (sortedDistinct xs) \<le> MaxCitations" for xs :: "gostring list"
    using length_sortedDistinct [of "take MaxCitations xs"] length_sortedDistinct [of xs] by auto
  have *: "sortDimensions xs = [] \<longleftrightarrow> xs = []" for xs
    by (metis length_0_conv sortDimensions_props(4))
  show "checked_for d m'"
    using assms l by (auto simp: validateMatch_def checked_for_def valid_dims_def Let_def list_ex_iff *
        split: if_splits)
  show "set (mt_CitedEventIDs m') \<subseteq> set (mt_CitedEventIDs m)"
    using assms by (auto simp: validateMatch_def Let_def dest: in_set_takeD split: if_splits)
  show "set (mt_Fingerprint m') = set (mt_Fingerprint m)"
    using assms by (auto simp: validateMatch_def Let_def split: if_splits)
  show "mt_EvidenceComplete m' \<longleftrightarrow> mt_EvidenceComplete m \<and> length (mt_CitedEventIDs m) \<le> MaxCitations"
    using assms by (auto simp: validateMatch_def Let_def split: if_splits)
qed

lemma takeMatches_inv:
  assumes "\<forall>m\<in>set acc. P m" and "\<And>m m'. validateMatch d m = Some m' \<Longrightarrow> P m'" and "length acc \<le> MaxMatches"
  shows "case takeMatches d acc ms of
      AllValid r \<Rightarrow> (\<forall>m\<in>set r. P m) \<and> length r \<le> MaxMatches
    | InvalidAfter r \<Rightarrow> (\<forall>m\<in>set r. P m) \<and> length r \<le> MaxMatches
    | TooMany r \<Rightarrow> True"
  using assms by (induction d acc ms rule: takeMatches.induct) (auto split: option.splits)

section \<open>The loop over the slots\<close>

definition run_inv :: "Detector set \<Rightarrow> run_state \<Rightarrow> bool" where
  "run_inv ds st \<longleftrightarrow>
    (\<forall>m\<in>set (rs_matches st). \<exists>d\<in>ds. checked_for d m) \<and> length (rs_matches st) \<le> MaxMatches"

lemma runSlot_inv:
  assumes "run_inv ds st" and "d \<in> ds" and "runSlot d outcome st = (st', True)"
  shows "run_inv ds st'"
    and "map da_DetectorID (rs_applicability st') = map da_DetectorID (rs_applicability st) @ [det_ID d]"
proof -
  have "case takeMatches d (rs_matches st) ms of
      AllValid r \<Rightarrow> (\<forall>m\<in>set r. \<exists>d\<in>ds. checked_for d m) \<and> length r \<le> MaxMatches
    | InvalidAfter r \<Rightarrow> (\<forall>m\<in>set r. \<exists>d\<in>ds. checked_for d m) \<and> length r \<le> MaxMatches
    | TooMany r \<Rightarrow> True" for ms
    using assms(1, 2) by (intro takeMatches_inv) (auto simp: run_inv_def dest: validateMatch_Some(1))
  then show "run_inv ds st'"
    using assms by (fastforce simp: runSlot_def run_inv_def Let_def split: sum.splits match_loop.splits)
  show "map da_DetectorID (rs_applicability st') = map da_DetectorID (rs_applicability st) @ [det_ID d]"
    using assms(3) by (auto simp: runSlot_def applicability_def Let_def split: sum.splits match_loop.splits)
qed

lemma runSlots_inv:
  assumes "run_inv ds st" and "sl_detector ` set slots \<subseteq> ds"
    and "runSlots sel s i slots st = ((st', True), slots')"
  shows "run_inv ds st' \<and> map da_DetectorID (rs_applicability st') =
    map da_DetectorID (rs_applicability st) @ map (\<lambda>slot. det_ID (sl_detector slot)) slots"
  using assms
proof (induction slots arbitrary: i st slots')
  case (Cons slot slots)
  obtain outcome slot' where r: "runDetector slot s (sel i) = (outcome, slot')" by force
  obtain st1 cont where s: "runSlot (sl_detector slot) outcome st = (st1, cont)" by force
  from Cons.prems(3) have cont: "cont" by (auto simp: r s split: if_splits prod.splits)
  obtain res slots1 where rest: "runSlots sel s (Suc i) slots st1 = (res, slots1)"
    by (metis prod.collapse)
  have "res = (st', True)" using Cons.prems(3) by (simp add: r s cont rest)
  with rest have rest': "runSlots sel s (Suc i) slots st1 = ((st', True), slots1)" by simp
  have d: "sl_detector slot \<in> ds" using Cons.prems(2) by simp
  note one = runSlot_inv [OF Cons.prems(1) d s [unfolded eqTrueI [OF cont]]]
  show ?case using Cons.IH [OF one(1) _ rest'] Cons.prems(2) one(2) by simp
qed simp

text \<open>The slots keep their detectors, and a slot whose response arrives is free again.\<close>

lemma runDetector_slot:
  "sl_detector (snd (runDetector slot s x)) = sl_detector slot"
  "\<not> sl_running slot \<Longrightarrow> sl_running (snd (runDetector slot s (CtxDone e)))"
  "\<not> sl_running slot \<Longrightarrow> \<not> sl_running (snd (runDetector slot s (DoneWith c)))"
  by (auto simp: runDetector_def split: selected.splits)

lemma runSlots_detectors: "map sl_detector (snd (runSlots sel s i slots st)) = map sl_detector slots"
proof (induction slots arbitrary: i st)
  case (Cons slot slots)
  obtain outcome slot' where r: "runDetector slot s (sel i) = (outcome, slot')" by force
  obtain st1 cont where s: "runSlot (sl_detector slot) outcome st = (st1, cont)" by force
  have "sl_detector slot' = sl_detector slot" using runDetector_slot(1) [of slot s "sel i"] by (simp add: r)
  then show ?case using Cons [of "Suc i" st1] by (auto simp: r s split: prod.splits)
qed simp

section \<open>The result\<close>

definition sound_result :: "Catalog \<Rightarrow> CatalogResult \<Rightarrow> bool" where
  "sound_result catalog r \<longleftrightarrow>
    (case cr_Status r of
       StatusCurrent \<Rightarrow>
         cr_Failures r = [] \<and> length (cr_Matches r) \<le> MaxMatches \<and>
         (\<forall>m\<in>set (cr_Matches r). \<exists>slot\<in>set (ca_slots catalog). checked_for (sl_detector slot) m) \<and>
         distinct (map matchKey (cr_Matches r)) \<and> sorted (map match_order (cr_Matches r)) \<and>
         map da_DetectorID (cr_Applicability r) = map (\<lambda>slot. det_ID (sl_detector slot)) (ca_slots catalog)
     | StatusFailed \<Rightarrow> cr_Matches r = [] \<and> cr_Failures r \<noteq> []
     | StatusTruncated \<Rightarrow>
         cr_Matches r = [] \<and> cr_Failures r = [] \<and>
         (\<forall>a\<in>set (cr_Applicability r). da_AbsenceCapability a = AbsenceIncomplete))"

lemma distinct_map_mset: "mset xs = mset ys \<Longrightarrow> distinct (map f xs) \<longleftrightarrow> distinct (map f ys)"
  by (metis distinct_count_atmost_1 mset_map set_mset_mset)

lemma sortMatches_props:
  "set (sortMatches ms) = set ms" "mset (sortMatches ms) = mset ms" "length (sortMatches ms) = length ms"
  "sorted (map match_order (sortMatches ms))" "distinct (map f (sortMatches ms)) \<longleftrightarrow> distinct (map f ms)"
  by (simp_all add: sortMatches_def distinct_map_mset [of "sort_key match_order ms" ms])

lemma Run_sound: "sound_result catalog (fst (Run catalog c0 sel input))"
proof (cases c0)
  case None
  then show ?thesis by (simp add: Run_def sound_result_def catalogResult_def)
next
  case (Some c)
  show ?thesis
  proof (cases "fst (prepareSession (Some c) input)")
    case (Inl e)
    then show ?thesis by (simp add: Run_def Some sound_result_def catalogResult_def)
  next
    case (Inr s)
    let ?st = "\<lparr>rs_matches = [], rs_failures = [], rs_applicability = []\<rparr>"
    obtain st ok slots where r: "runSlots sel s 0 (ca_slots catalog) ?st = ((st, ok), slots)"
      by (metis prod.collapse)
    have run: "fst (Run catalog c0 sel input) = concludeRun (st, ok)"
      by (simp add: Run_def Some Inr r)
    show ?thesis
    proof (cases ok)
      case True
      have "run_inv (sl_detector ` set (ca_slots catalog)) ?st" by (simp add: run_inv_def)
      from runSlots_inv [OF this subset_refl r [unfolded eqTrueI [OF True]]] show ?thesis
        unfolding run
        by (simp add: True concludeRun_def sound_result_def catalogResult_def sortMatches_props
            duplicateMatch_eq run_inv_def)
    next
      case False
      then show ?thesis unfolding run
        by (simp add: concludeRun_def sound_result_def catalogResult_def)
    qed
  qed
qed


section \<open>The default catalog\<close>

definition checked :: "Match \<Rightarrow> Match" where
  "checked m = m\<lparr>mt_CitedEventIDs := sortedDistinct (mt_CitedEventIDs m)\<rparr>"

lemma validate_builtin:
  "entry_match (bd_entry d) m \<Longrightarrow> validateMatch (Builtin d) m = Some (checked m)"
  by (auto simp: entry_match_def validateMatch_def checked_def valid_dims_def sortDimensions_def
      sort_key_id_if_sorted list_ex_iff)

lemma takeMatches_valid:
  assumes "\<forall>m\<in>set ms. validateMatch d m = Some (f m)" and "length acc \<le> MaxMatches"
  shows "if length acc + length ms \<le> MaxMatches then takeMatches d acc ms = AllValid (acc @ map f ms)
    else \<exists>r. takeMatches d acc ms = TooMany r"
  using assms by (induction ms arbitrary: acc) auto

text \<open>
  What the catalog relies on of a built-in detector at a session: an answer, a known capability,
  and the contract's match and fingerprint laws.
\<close>

definition found_by :: "builtinDetector \<Rightarrow> PreparedSession \<Rightarrow> Match list" where
  "found_by d s = (case fst (bd_evaluate d Live s) of Inl e \<Rightarrow> [] | Inr ms \<Rightarrow> ms)"

definition sound_at :: "PreparedSession \<Rightarrow> builtinDetector \<Rightarrow> bool" where
  "sound_at s d \<longleftrightarrow>
    bd_evaluate d Live s = (Inr (found_by d s), Live) \<and>
    fst (bd_absence d s) \<in> {AbsenceSupported, AbsenceNotApplicable, AbsenceIncomplete} \<and>
    (\<forall>m\<in>set (found_by d s). entry_match (bd_entry d) m) \<and>
    distinct (map mt_Fingerprint (found_by d s))"

lemma sound_newBuiltin:
  assumes "evaluate Live s = (Inr ms, Live)"
    and "fst (absence s) \<in> {AbsenceSupported, AbsenceNotApplicable, AbsenceIncomplete}"
    and "\<And>m. m \<in> set ms \<Longrightarrow> entry_match entry m" and "distinct (map mt_Fingerprint ms)"
  shows "sound_at s (newBuiltin entry evaluate absence)"
  using assms by (simp add: sound_at_def newBuiltin_def found_by_def)

lemmas absence_defs = notApplicableAbsence_def commandAbsenceCapability_def toolFailureAbsenceCapability_def
  permissionAbsenceCapability_def retainedVerificationGapAbsenceCapability_def
  unresolvedVerificationAbsenceCapability_def

lemma builtins_sound:
  assumes s: "monotone_times s" "ps_sessionID s \<noteq> []" and d: "d \<in> set BuiltinDetectors"
  shows "sound_at s d"
proof -
  have t: "timed s" using s(1) by (simp add: monotone_times_def)
  have "sound_at s (newBuiltin (builtinEntries ! 0) detectExplicitCommandFailures commandAbsenceCapability)"
    by (rule sound_newBuiltin [where evaluate = detectExplicitCommandFailures and s = s,
          OF command_failure.live _ command_failure.well_formed [OF t s(2)]
          command_failure.one_each]) (simp_all add: absence_defs)
  moreover have "sound_at s (newBuiltin (builtinEntries ! 1) detectExplicitToolFailures toolFailureAbsenceCapability)"
    by (rule sound_newBuiltin [where evaluate = detectExplicitToolFailures and s = s,
          OF tool_failure.live _ tool_failure.well_formed [OF t s(2)]
          tool_failure.one_each]) (simp_all add: absence_defs)
  moreover have "sound_at s (newBuiltin (builtinEntries ! 2) detectRepeatedCommandAttempts notApplicableAbsence)"
    by (rule sound_newBuiltin [where evaluate = detectRepeatedCommandAttempts and s = s,
          OF repeated_attempt.live _ repeated_attempt.well_formed [OF t s(2)]
          repeated_attempt.one_each]) (simp_all add: absence_defs)
  moreover have "sound_at s (newBuiltin (builtinEntries ! 3) detectPermissionDenials permissionAbsenceCapability)"
    by (rule sound_newBuiltin [where evaluate = detectPermissionDenials and s = s,
          OF permission_denial.live _ permission_denial.well_formed [OF t s(2)]
          permission_denial.one_each]) (simp_all add: absence_defs)
  moreover have "sound_at s (newBuiltin (builtinEntries ! 4) detectRetainedVerificationGap
      retainedVerificationGapAbsenceCapability)"
    by (rule sound_newBuiltin [where evaluate = detectRetainedVerificationGap and s = s,
          OF retained_gap.live _ retained_gap.well_formed [OF s]
          retained_gap.one_each]) (simp_all add: absence_defs)
  moreover have "sound_at s (newBuiltin (builtinEntries ! 5) detectUnresolvedVerification
      unresolvedVerificationAbsenceCapability)"
    by (rule sound_newBuiltin [where evaluate = detectUnresolvedVerification and s = s,
          OF unresolved.live _ unresolved.well_formed [OF s]
          unresolved.one_each]) (simp_all add: absence_defs)
  ultimately show ?thesis using d unfolding BuiltinDetectors_def list.set insert_iff empty_iff by blast
qed

definition all_found :: "PreparedSession \<Rightarrow> Match list" where
  "all_found s = concat (map (\<lambda>d. found_by d s) BuiltinDetectors)"

lemma all_found_eq:
  "all_found s = command_failures s @ tool_failures s @ repeated_attempts s @ permission_denials s @
    retainedGapMatches s @ unresolved_verifications s"
  by (simp add: all_found_def BuiltinDetectors_def found_by_def newBuiltin_def)

lemma runDetector_sound:
  assumes "sound_at s d" and "\<not> sl_running slot" and "sl_detector slot = Builtin d"
  shows "\<exists>r. fst (runDetector slot s (DoneWith Live)) = Inr r \<and> dr_Matches r = found_by d s"
proof -
  obtain cap reason where ab: "bd_absence d s = (cap, reason)" by force
  show ?thesis using assms
    by (simp add: runDetector_def evaluatePrepared_def checkResponse_def sound_at_def ab)
qed

lemma runSlots_sound:
  assumes "\<forall>d\<in>set ds. sound_at s d" and "\<forall>j. i \<le> j \<and> j < i + length ds \<longrightarrow> sel j = DoneWith Live"
    and "length (rs_matches st) \<le> MaxMatches"
    and "runSlots sel s i (map (\<lambda>d. \<lparr>sl_detector = Builtin d, sl_running = False\<rparr>) ds) st = ((st', ok), slots)"
  shows "(ok \<longleftrightarrow> length (rs_matches st) + length (concat (map (\<lambda>d. found_by d s) ds)) \<le> MaxMatches) \<and>
    (ok \<longrightarrow> rs_matches st' = rs_matches st @ map checked (concat (map (\<lambda>d. found_by d s) ds)) \<and>
      rs_failures st' = rs_failures st)"
  using assms
proof (induction ds arbitrary: i st slots)
  case (Cons d ds)
  let ?slot = "\<lparr>sl_detector = Builtin d, sl_running = False\<rparr>"
  have sel: "sel i = DoneWith Live" using Cons.prems(2) by simp
  have d: "sound_at s d" using Cons.prems(1) by simp
  obtain r slot' where r: "runDetector ?slot s (sel i) = (Inr r, slot')" and ms: "dr_Matches r = found_by d s"
    using runDetector_sound [OF d, of ?slot] unfolding sel by (metis detectorSlot.select_convs fst_conv surj_pair)
  let ?st = "st\<lparr>rs_applicability := rs_applicability st @
    [applicability (Builtin d) (dr_AbsenceCapability r) (dr_UnavailableReason r)]\<rparr>"
  have valid: "\<forall>m\<in>set (found_by d s). validateMatch (Builtin d) m = Some (checked m)"
    using d by (simp add: sound_at_def validate_builtin)
  note take = takeMatches_valid [OF valid Cons.prems(3)]
  show ?case
  proof (cases "length (rs_matches st) + length (found_by d s) \<le> MaxMatches")
    case True
    let ?st1 = "?st\<lparr>rs_matches := rs_matches st @ map checked (found_by d s)\<rparr>"
    have one: "runSlot (Builtin d) (Inr r) st = (?st1, True)"
      using take True by (simp add: runSlot_def Let_def ms)
    obtain res slots1 where rest: "runSlots sel s (Suc i)
        (map (\<lambda>d. \<lparr>sl_detector = Builtin d, sl_running = False\<rparr>) ds) ?st1 = (res, slots1)"
      by (metis prod.collapse)
    then have "res = (st', ok)" using Cons.prems(4) by (simp add: r one)
    with rest have rest: "runSlots sel s (Suc i)
        (map (\<lambda>d. \<lparr>sl_detector = Builtin d, sl_running = False\<rparr>) ds) ?st1 = ((st', ok), slots1)" by simp
    have "length (rs_matches ?st1) \<le> MaxMatches" using True by simp
    from Cons.IH [OF _ _ this rest] Cons.prems(1, 2) show ?thesis by (simp add: algebra_simps)
  next
    case False
    then obtain x where "takeMatches (Builtin d) (rs_matches st) (found_by d s) = TooMany x" using take by auto
    then have "\<not> ok" using Cons.prems(4) by (auto simp: r runSlot_def Let_def ms)
    then show ?thesis using False by simp
  qed
qed simp

lemma builtin_ids:
  "distinct (map (\<lambda>d. ent_DetectorID (bd_entry d)) BuiltinDetectors)"
  "\<forall>d\<in>set BuiltinDetectors. CHR 0x00 \<notin> set (ent_DetectorID (bd_entry d))"
proof -
  have "map bd_entry BuiltinDetectors = builtinEntries"
    unfolding BuiltinDetectors_def newBuiltin_def builtinEntries_def
    by (simp only: list.map builtinDetector.select_convs nth_Cons_0 nth_Cons_numeral nth_Cons_Suc One_nat_def numeral_nat simp_thms)
  from arg_cong [OF this, of "map ent_DetectorID"]
  have m: "map (\<lambda>d. ent_DetectorID (bd_entry d)) BuiltinDetectors = map ent_DetectorID builtinEntries"
    by (simp only: map_map comp_def)
  then show "distinct (map (\<lambda>d. ent_DetectorID (bd_entry d)) BuiltinDetectors)"
    using distinct_builtin_entries by simp
  have "list_all (\<lambda>i. CHR 0x00 \<notin> set i) (map ent_DetectorID builtinEntries)" by code_simp
  then show "\<forall>d\<in>set BuiltinDetectors. CHR 0x00 \<notin> set (ent_DetectorID (bd_entry d))"
    unfolding m [symmetric] by (simp add: list_all_iff)
qed

lemma distinct_keys:
  assumes "distinct (map (\<lambda>d. ent_DetectorID (bd_entry d)) ds)"
    and "\<forall>d\<in>set ds. sound_at s d \<and> CHR 0x00 \<notin> set (ent_DetectorID (bd_entry d))"
  shows "distinct (map matchKey (concat (map (\<lambda>d. found_by d s) ds)))"
  using assms
proof (induction ds)
  case (Cons d ds)
  have ID: "mt_DetectorID m = ent_DetectorID (bd_entry x)" if "x \<in> set (d # ds)" "m \<in> set (found_by x s)" for m x
    using Cons.prems(2) that by (auto simp: sound_at_def entry_match_def)
  have key: "mt_DetectorID m = mt_DetectorID n \<and> mt_Fingerprint m = mt_Fingerprint n"
    if "x \<in> set (d # ds)" "y \<in> set (d # ds)" "m \<in> set (found_by x s)" "n \<in> set (found_by y s)"
      "matchKey m = matchKey n" for m n x y
    using that Cons.prems(2) ID by (intro matchKey_inj) (metis)+
  have "distinct (map matchKey (found_by d s))"
  proof -
    have "distinct (map mt_Fingerprint (found_by d s))" using Cons.prems(2) by (simp add: sound_at_def)
    then show ?thesis unfolding distinct_map
      using key [of d d] by (auto intro!: inj_onI dest: inj_onD)
  qed
  moreover have "matchKey m \<noteq> matchKey n"
    if "m \<in> set (found_by d s)" "x \<in> set ds" "n \<in> set (found_by x s)" for m n x
  proof
    assume "matchKey m = matchKey n"
    then have "mt_DetectorID m = mt_DetectorID n" using key [of d x m n] that by auto
    then have "ent_DetectorID (bd_entry d) = ent_DetectorID (bd_entry x)" using ID [of d m] ID [of x n] that by simp
    with Cons.prems(1) that(2) show False by (auto simp: image_iff)
  qed
  ultimately show ?case using Cons by fastforce
qed simp

lemma default_run:
  assumes prep: "prepareSession (Some c) input = (Inr s, c')" and mono: "monotone_times s"
    and sel: "\<forall>i<6. sel i = DoneWith Live"
  shows "(let r = fst (Run DefaultCatalog (Some c) sel input) in
    if length (all_found s) > MaxMatches then cr_Status r = StatusTruncated
    else cr_Status r = StatusCurrent \<and> cr_Matches r = sortMatches (map checked (all_found s)))"
proof -
  let ?st = "\<lparr>rs_matches = [], rs_failures = [], rs_applicability = []\<rparr>"
  have "ps_sessionID s \<noteq> []" using prepareSession_Inr(2, 3) [OF prep] by auto
  then have sound: "\<forall>d\<in>set BuiltinDetectors. sound_at s d" using builtins_sound [OF mono] by blast
  have n: "length BuiltinDetectors = 6" by (simp add: BuiltinDetectors_def)
  obtain st ok slots where r: "runSlots sel s 0 (map (\<lambda>d. \<lparr>sl_detector = Builtin d, sl_running = False\<rparr>) BuiltinDetectors)
      ?st = ((st, ok), slots)" by (metis prod.collapse)
  have run: "fst (Run DefaultCatalog (Some c) sel input) = concludeRun (st, ok)"
    by (simp add: Run_def prep DefaultCatalog_def catalogFromDetectors_def comp_def r)
  have "(ok \<longleftrightarrow> length (all_found s) \<le> MaxMatches) \<and>
      (ok \<longrightarrow> rs_matches st = map checked (all_found s) \<and> rs_failures st = [])"
    using runSlots_sound [OF sound _ _ r] sel by (simp add: n all_found_def)
  moreover have "\<not> duplicateMatch (map checked (all_found s))"
  proof -
    have k: "matchKey \<circ> checked = matchKey" by (rule ext) (simp add: matchKey_def checked_def)
    have "distinct (map matchKey (all_found s))"
      unfolding all_found_def using sound builtin_ids(2) by (intro distinct_keys [OF builtin_ids(1)]) blast
    then show ?thesis by (simp add: duplicateMatch_eq k)
  qed
  ultimately show ?thesis unfolding run by (auto simp: concludeRun_def catalogResult_def Let_def)
qed

section \<open>Constructing a catalog\<close>

lemma newCatalogLoop_Inr:
  "newCatalogLoop seen cloned ds = Inr r \<Longrightarrow>
    None \<notin> set ds \<and> r = cloned @ map the ds \<and> distinct (map (det_ID \<circ> the) ds) \<and>
    (\<forall>d\<in>set ds. trim_space (det_ID (the d)) \<noteq> [] \<and> det_ID (the d) \<notin> seen)"
proof (induction seen cloned ds rule: newCatalogLoop.induct)
  case (3 seen cloned d rest)
  then have ok: "trim_space (det_ID d) \<noteq> []" "det_ID d \<notin> seen"
    and "newCatalogLoop (insert (det_ID d) seen) (cloned @ [d]) rest = Inr r" by (auto split: if_splits)
  from "3.IH" [OF this(1) this(2) this(3)] ok show ?case by (auto simp: image_iff)
qed simp_all

lemma newCatalogLoop_complete:
  "None \<notin> set ds \<Longrightarrow> distinct (map (det_ID \<circ> the) ds) \<Longrightarrow>
    \<forall>d\<in>set ds. trim_space (det_ID (the d)) \<noteq> [] \<and> det_ID (the d) \<notin> seen \<Longrightarrow>
    newCatalogLoop seen cloned ds = Inr (cloned @ map the ds)"
proof (induction ds arbitrary: seen cloned)
  case (Cons d ds)
  then obtain x where "d = Some x" by (cases d) auto
  with Cons.prems have "newCatalogLoop (insert (det_ID x) seen) (cloned @ [x]) ds = Inr ((cloned @ [x]) @ map the ds)"
    by (intro Cons.IH) (auto simp: image_iff)
  with \<open>d = Some x\<close> Cons.prems show ?case by simp
qed simp

lemma NewCatalog_iff:
  "NewCatalog ds = Inr catalog \<longleftrightarrow>
    None \<notin> set ds \<and> distinct (map (det_ID \<circ> the) ds) \<and>
    (\<forall>d\<in>set ds. trim_space (det_ID (the d)) \<noteq> []) \<and> catalog = catalogFromDetectors (map the ds)"
proof
  assume "NewCatalog ds = Inr catalog"
  then obtain r where "newCatalogLoop {} [] ds = Inr r" "catalog = catalogFromDetectors r"
    by (auto simp: NewCatalog_def split: sum.splits)
  with newCatalogLoop_Inr [OF this(1)] show "None \<notin> set ds \<and> distinct (map (det_ID \<circ> the) ds) \<and>
    (\<forall>d\<in>set ds. trim_space (det_ID (the d)) \<noteq> []) \<and> catalog = catalogFromDetectors (map the ds)" by simp
next
  assume "None \<notin> set ds \<and> distinct (map (det_ID \<circ> the) ds) \<and>
    (\<forall>d\<in>set ds. trim_space (det_ID (the d)) \<noteq> []) \<and> catalog = catalogFromDetectors (map the ds)"
  then show "NewCatalog ds = Inr catalog"
    using newCatalogLoop_complete [of ds "{}" "[]"] by (simp add: NewCatalog_def)
qed


section \<open>Properties of the catalog\<close>

text \<open>
  C2. Whatever the detectors return, however the runs are scheduled and whenever the context ends, a
  result is consistent: a current one has no failure and at most a hundred matches, each checked
  for a detector of the catalog (its identity, non-empty texts, a start that is set and not after
  the end, a sorted non-empty fingerprint and at most fifty sorted distinct citations), no two of
  them with the same key, in the catalog's order, with one applicability per detector; a failed one
  has no match and a failure; a truncated one has neither, and calls every absence incomplete.
\<close>

theorem catalog_result_is_sound: "sound_result catalog (fst (Run catalog c0 sel input))"
  by (rule Run_sound)

text \<open>
  C1. On a session whose events carry times that follow their order, the default catalog does not
  fail: with every detector answering it is truncated when the six detectors find more than a
  hundred matches, and otherwise current with exactly the matches the detectors found, sorted.
\<close>

theorem default_catalog_reports_what_is_found:
  assumes "prepareSession (Some c) input = (Inr s, c')" and "monotone_times s"
    and "\<forall>i<6. sel i = DoneWith Live"
  shows "(let r = fst (Run DefaultCatalog (Some c) sel input) in
    if length (all_found s) > MaxMatches then cr_Status r = StatusTruncated
    else cr_Status r = StatusCurrent \<and> cr_Matches r = sortMatches (map checked (all_found s)))"
  by (rule default_run [OF assms])

lemma sample_input_monotone:
  "case fst (prepareSession (Some Live) sample_input) of Inl e \<Rightarrow> False
   | Inr s \<Rightarrow> list_all (\<lambda>item. pe_At item \<noteq> time_zero) (ps_events s) \<and> sorted (map pe_At (ps_events s)) \<and>
       all_found s = []"
  by code_simp

theorem default_catalog_reports_what_is_found_witness:
  "cr_Status (fst (Run DefaultCatalog (Some Live) (\<lambda>i. DoneWith Live) sample_input)) = StatusCurrent"
proof -
  have "snd (prepareSession (Some Live) sample_input) = Some Live" by (simp add: prepareSession_Live)
  then obtain r where r: "prepareSession (Some Live) sample_input = (r, Some Live)"
    by (cases "prepareSession (Some Live) sample_input") simp
  with sample_input_monotone obtain s where s: "prepareSession (Some Live) sample_input = (Inr s, Some Live)"
      "monotone_times s" "all_found s = []"
    by (cases r) (simp_all add: monotone_times_def timed_def list_all_iff)
  from default_catalog_reports_what_is_found [OF s(1, 2), of "\<lambda>i. DoneWith Live"] s(3)
  show ?thesis by (simp add: Let_def)
qed

definition skewed_input :: SessionInput where
  "skewed_input = \<lparr>in_SessionID = ''k'', in_ProjectScope = ''p'', in_ScopeQuality = ''exact'',
     in_Events =
       [sample_event ''a'' 1 2000000000 ''artifact'' ''file.write'',
        sample_event ''b'' 2 1000000000 ''artifact'' ''session.end''],
     in_Enrichments = Map.empty\<rparr>"

text \<open>
  The order of times is needed: in a session whose last change is recorded before the session's
  end but with a later timestamp, the verification gap match begins after it ends, the catalog
  refuses it, and the whole analysis is reported as failed, without any other match.
\<close>

theorem clock_skew_fails_the_catalog:
  "let r = fst (Run DefaultCatalog (Some Live) (\<lambda>i. DoneWith Live) skewed_input) in
   cr_Status r = StatusFailed \<and> cr_Matches r = [] \<and>
   cr_Failures r = [\<lparr>df_DetectorID = ''retained_verification_gap_after_changes'', df_Code = failureInvalidOutput\<rparr>]"
  by code_simp

text \<open>
  The duplicate check is exact: for detector identifiers without a NUL byte, two matches have
  the same key exactly when they have the same detector and the same fingerprint, so a list has a
  duplicate exactly when two of its matches agree on both.
\<close>

theorem duplicates_are_same_detector_and_fingerprint:
  assumes "\<forall>m\<in>set matches. CHR 0x00 \<notin> set (mt_DetectorID m)"
  shows "duplicateMatch matches \<longleftrightarrow> \<not> distinct (map (\<lambda>m. (mt_DetectorID m, mt_Fingerprint m)) matches)"
proof -
  have "distinct (map matchKey matches) \<longleftrightarrow> distinct (map (\<lambda>m. (mt_DetectorID m, mt_Fingerprint m)) matches)"
    unfolding distinct_map
  proof (intro conj_cong refl iffI inj_onI)
    fix m n
    assume i: "inj_on (\<lambda>m. (mt_DetectorID m, mt_Fingerprint m)) (set matches)"
      and mn: "m \<in> set matches" "n \<in> set matches" "matchKey m = matchKey n"
    from matchKey_inj [of m n] mn assms have "mt_DetectorID m = mt_DetectorID n \<and> mt_Fingerprint m = mt_Fingerprint n"
      by blast
    then show "m = n" using inj_onD [OF i _ mn(1, 2)] by simp
  next
    fix m n
    assume i: "inj_on matchKey (set matches)" and mn: "m \<in> set matches" "n \<in> set matches"
      and eq: "(mt_DetectorID m, mt_Fingerprint m) = (mt_DetectorID n, mt_Fingerprint n)"
    then show "m = n" using inj_onD [OF i _ mn] by (simp add: matchKey_def)
  qed
  then show ?thesis by (simp add: duplicateMatch_eq)
qed

theorem duplicates_are_same_detector_and_fingerprint_witness:
  "duplicateMatch [hd (retainedGapMatches sample_gap), hd (retainedGapMatches sample_gap)]"
proof -
  have "list_all (\<lambda>m. CHR 0x00 \<notin> set (mt_DetectorID m)) [hd (retainedGapMatches sample_gap)]" by code_simp
  then show ?thesis
    using duplicates_are_same_detector_and_fingerprint
      [of "[hd (retainedGapMatches sample_gap), hd (retainedGapMatches sample_gap)]"] by simp
qed

text \<open>
  However runs are interleaved, a detector is never evaluated twice at once: from a state in
  which nothing runs, every reachable state has at most one evaluation, and the slot is marked as
  running exactly while there is one.
\<close>

theorem one_evaluation_per_slot:
  assumes "slot_step\<^sup>*\<^sup>* \<lparr>sw_slot = \<lparr>sl_detector = d, sl_running = False\<rparr>, sw_evaluating = 0\<rparr> w"
  shows "sw_evaluating w \<le> 1 \<and> (sl_running (sw_slot w) \<longleftrightarrow> sw_evaluating w = 1)"
  using slot_machine.reachable [OF assms] by (simp add: slot_inv_def)

theorem one_evaluation_per_slot_witness:
  "\<exists>w. slot_step\<^sup>*\<^sup>* \<lparr>sw_slot = \<lparr>sl_detector = Builtin (BuiltinDetectors ! 0), sl_running = False\<rparr>, sw_evaluating = 0\<rparr> w \<and>
    sl_running (sw_slot w) \<and> sw_evaluating w = 1"
proof -
  let ?w = "\<lparr>sw_slot = \<lparr>sl_detector = Builtin (BuiltinDetectors ! 0), sl_running = False\<rparr>, sw_evaluating = 0\<rparr>"
  let ?slot = "(sw_slot ?w)\<lparr>sl_running := True\<rparr>"
  let ?v = "?w\<lparr>sw_slot := ?slot, sw_evaluating := sw_evaluating ?w + 1\<rparr>"
  have "slot_step ?w ?v" by (rule slot_step.start) simp
  then have reach: "slot_step\<^sup>*\<^sup>* ?w ?v" by (rule r_into_rtranclp)
  from one_evaluation_per_slot [OF reach] have "sl_running (sw_slot ?v) \<longleftrightarrow> sw_evaluating ?v = 1" ..
  with reach show ?thesis by (intro exI [of _ ?v]) simp
qed

text \<open>
  A catalog is constructed exactly from detectors that are not nil, whose identifiers are not
  blank and pairwise distinct; it keeps their order, and every slot starts idle.
\<close>

theorem catalog_construction:
  "(NewCatalog ds = Inr catalog) =
    (None \<notin> set ds \<and> distinct (map (det_ID \<circ> the) ds) \<and>
     list_all (\<lambda>d. trim_space (det_ID (the d)) \<noteq> []) ds \<and> catalog = catalogFromDetectors (map the ds))"
  using NewCatalog_iff [of ds catalog] by (simp add: list_all_iff)

end
