(* ===== verification/Command_Safe.thy ===== *)
theory Command_Safe
  imports Prelude
begin

text \<open>
  The display policy for commands (\<open>internal/canonical/commandsafe/sanitize.go\<close>): a raw command or
  an older summary becomes an allow-listed executable name followed by allow-listed option names,
  or nothing.
\<close>

section \<open>The policy\<close>

definition maxSummaryBytes :: nat where "maxSummaryBytes = 512"

record Display =
  dsp_Executable :: gostring
  dsp_Summary :: gostring

definition executables :: "gostring list" where
  "executables =
    [''git'', ''go'', ''node'', ''npm'', ''npx'', ''pnpm'', ''yarn'', ''bun'',
     ''cargo'', ''rustc'', ''rustfmt'', ''python'', ''python3'', ''pip'', ''pip3'',
     ''pytest'', ''tsc'', ''eslint'', ''prettier'', ''ruff'', ''black'', ''gofmt'',
     ''golangci-lint'', ''shellcheck'', ''hadolint'', ''rg'', ''grep'', ''sed'',
     ''find'', ''pwd'', ''ls'', ''cat'', ''head'', ''tail'', ''wc'', ''jq'', ''gh'',
     ''make'', ''just'', ''task'', ''mvn'', ''mvnw'', ''gradle'', ''gradlew'']"

definition wrappers :: "gostring list" where
  "wrappers = [''env'', ''sh'', ''bash'', ''zsh'', ''fish'', ''sudo'', ''xargs'']"

definition options :: "gostring list" where
  "options =
    [''-a'', ''--all'', ''-c'', ''--check'', ''--changed'', ''--color'', ''--config'',
     ''--count'', ''--cover'', ''--diff'', ''--dry-run'', ''--exclude'', ''-f'',
     ''--files'', ''--filter'', ''--fix'', ''--force'', ''-g'', ''--glob'', ''-h'',
     ''--help'', ''--hidden'', ''-i'', ''--ignore-case'', ''--include'', ''--json'',
     ''-l'', ''--line-number'', ''--locked'', ''-n'', ''--name-only'', ''--no-cache'',
     ''--no-pager'', ''--offline'', ''-o'', ''--output'', ''-p'', ''--package'',
     ''--porcelain'', ''--project'', ''-q'', ''--quiet'', ''-r'', ''-race'', ''--race'',
     ''--recursive'', ''--release'', ''--run'', ''--short'', ''--stat'', ''-t'',
     ''--target'', ''--timeout'', ''--type'', ''-v'', ''--verbose'', ''--version'',
     ''--watch'', ''--workspace'']"

definition is_alnum :: "char \<Rightarrow> bool" where
  "is_alnum c \<longleftrightarrow> (let n = (of_char c :: int) in
    (65 \<le> n \<and> n \<le> 90) \<or> (97 \<le> n \<and> n \<le> 122) \<or> (48 \<le> n \<and> n \<le> 57))"

text \<open>The patterns: an alphanumeric byte, then up to \<open>limit\<close> alphanumeric or listed ones.\<close>

definition word_pattern :: "char list \<Rightarrow> nat \<Rightarrow> gostring \<Rightarrow> bool" where
  "word_pattern extra limit s =
    (case s of
       [] \<Rightarrow> False
     | c # r \<Rightarrow> is_alnum c \<and> length r \<le> limit \<and> list_all (\<lambda>d. is_alnum d \<or> d \<in> set extra) r)"

definition executablePattern :: "gostring \<Rightarrow> bool" where
  "executablePattern s = word_pattern ''._+-'' 63 s"

definition optionPattern :: "gostring \<Rightarrow> bool" where
  "optionPattern s =
    (case strip_prefix ''--'' s of
       Some r \<Rightarrow> word_pattern ''._-'' 31 r
     | None \<Rightarrow>
         (case strip_prefix ''-'' s of
            Some r \<Rightarrow> word_pattern ''._-'' 31 r
          | None \<Rightarrow> False))"

text \<open>
  The code ranges over runes; every rune it looks for is a single byte, and no byte of a longer
  encoding is below 128, so ranging over bytes answers the same.
\<close>

definition unsafe_char :: "char \<Rightarrow> bool" where
  "unsafe_char c \<longleftrightarrow> (let n = (of_char c :: int) in n < 32 \<or> n = 127 \<or>
    c \<in> set ('';&|<>()$'' @ [CHR 0x60, CHR 0x27] @ [CHR 0x22] @ ''{}'' @ [CHR 0x5C] @ ''[]*?!~#''))"

definition containsUnsafeSyntax :: "gostring \<Rightarrow> bool" where
  "containsUnsafeSyntax command = list_ex unsafe_char command"

definition safeFields :: "gostring \<Rightarrow> (gostring \<times> gostring list) option" where
  "safeFields command =
    (if command = [] \<or> containsUnsafeSyntax command then None
     else case string_fields command of
       [] \<Rightarrow> None
     | executable # rest \<Rightarrow>
         if CHR ''='' \<in> set executable \<or> CHR ''/'' \<in> set executable \<or> CHR 0x5C \<in> set executable \<or>
            \<not> executablePattern executable \<or> executable \<in> set wrappers \<or>
            executable \<notin> set executables
         then None else Some (executable, rest))"

fun optionLoop :: "gostring list \<Rightarrow> gostring list \<Rightarrow> gostring list" where
  "optionLoop result [] = result"
| "optionLoop result (field # rest) =
    (if \<not> has_prefix field ''-'' then optionLoop result rest
     else
       let name = takeWhile (\<lambda>c. c \<noteq> CHR ''='') field;
           result = (if optionPattern name \<and> name \<in> set options then result @ [name] else result)
       in if length result = 8 then result else optionLoop result rest)"

definition Normalize :: "gostring \<Rightarrow> Display" where
  "Normalize command =
    (case safeFields command of
       None \<Rightarrow> \<lparr>dsp_Executable = [], dsp_Summary = []\<rparr>
     | Some (executable, rest) \<Rightarrow>
         let summary = join_with '' '' (optionLoop [executable] rest);
             summary = (if length summary > maxSummaryBytes then take maxSummaryBytes summary else summary)
         in \<lparr>dsp_Executable = executable, dsp_Summary = summary\<rparr>)"

section \<open>What a display holds\<close>

lemma listed_words:
  "list_all (\<lambda>w. w \<noteq> [] \<and> length w \<le> 14 \<and> CHR '' '' \<notin> set w \<and> \<not> containsUnsafeSyntax w \<and>
    list_all (\<lambda>c. of_char c < (128 :: int)) w) (executables @ options)"
  "list_all (\<lambda>w. executablePattern w \<and> CHR ''='' \<notin> set w \<and> CHR ''/'' \<notin> set w \<and> CHR 0x5C \<notin> set w \<and>
    w \<notin> set wrappers) executables"
  "list_all (\<lambda>w. has_prefix w ''-'' \<and> optionPattern w \<and> takeWhile (\<lambda>c. c \<noteq> CHR ''='') w = w) options"
  by code_simp+

lemma optionLoop_shape:
  assumes "result \<noteq> []" and "set (tl result) \<subseteq> set options" and "length result < 8"
  shows "\<exists>opts. optionLoop result rest = hd result # opts \<and> set opts \<subseteq> set options \<and> length opts \<le> 7"
  using assms
proof (induction result rest rule: optionLoop.induct)
  case (1 result)
  then show ?case by (cases result) auto
next
  case (2 result field rest)
  let ?name = "takeWhile (\<lambda>c. c \<noteq> CHR ''='') field"
  let ?r = "if optionPattern ?name \<and> ?name \<in> set options then result @ [?name] else result"
  show ?case
  proof (cases "has_prefix field ''-''")
    case False
    then show ?thesis using 2 by simp
  next
    case True
    have r: "?r \<noteq> []" "hd ?r = hd result" "set (tl ?r) \<subseteq> set options"
      using 2(3, 4) by (cases result; auto)+
    show ?thesis
    proof (cases "length ?r = 8")
      case True
      then have "optionLoop result (field # rest) = ?r" using \<open>has_prefix field ''-''\<close> by (simp add: Let_def)
      then show ?thesis using r True by (cases ?r) auto
    next
      case False
      have "length ?r < 8" using 2(5) False by (auto split: if_splits)
      with 2(2) [OF _ refl refl] r False True show ?thesis by (simp add: Let_def)
    qed
  qed
qed

lemma optionLoop_listed:
  "set opts \<subseteq> set options \<Longrightarrow> length result + length opts \<le> 8 \<Longrightarrow>
    optionLoop result opts = result @ opts"
proof (induction opts arbitrary: result)
  case (Cons w opts)
  then have w: "has_prefix w ''-''" "optionPattern w" "takeWhile (\<lambda>c. c \<noteq> CHR ''='') w = w" "w \<in> set options"
    using listed_words(3) by (auto simp: list_all_iff)
  have step: "optionLoop result (w # opts) =
      (if length (result @ [w]) = 8 then result @ [w] else optionLoop (result @ [w]) opts)"
    by (simp only: optionLoop.simps w simp_thms if_True if_False Let_def)
  show ?case
  proof (cases "length (result @ [w]) = 8")
    case True
    with Cons.prems(2) have "opts = []" by simp
    with True step show ?thesis by simp
  next
    case False
    have "optionLoop (result @ [w]) opts = (result @ [w]) @ opts"
      using Cons.prems by (intro Cons.IH) simp_all
    with False step show ?thesis by simp
  qed
qed simp

text \<open>The words of a joined summary.\<close>

definition space_heads :: "char list" where
  "space_heads = map hd space_encodings"

lemma strip_any_no_head: "c \<notin> set space_heads \<Longrightarrow> strip_any space_encodings (c # s) = None"
proof (cases "strip_any space_encodings (c # s)")
  case (Some r)
  then obtain p where p: "p \<in> set space_encodings" "c # s = p @ r" using strip_any_Some by blast
  then have "p \<noteq> []" using space_encodings_nonempty by blast
  then obtain d q where "p = d # q" by (meson neq_Nil_conv)
  with p have "hd p = c" by simp
  with p(1) show "c \<notin> set space_heads \<Longrightarrow> ?thesis" by (auto simp: space_heads_def)
qed simp

lemma fields_from_word: "set w \<inter> set space_heads = {} \<Longrightarrow> fields_from cur (w @ s) = fields_from (cur @ w) s"
  by (induction w arbitrary: cur) (simp_all add: strip_any_no_head)

lemma strip_space: "strip_any space_encodings (CHR '' '' # s) = Some s"
  by (simp add: space_encodings_def)

lemma fields_join:
  "\<forall>w\<in>set ws. w \<noteq> [] \<and> set w \<inter> set space_heads = {} \<Longrightarrow> string_fields (join_with '' '' ws) = ws"
proof (induction ws)
  case (Cons w ws)
  then have w: "w \<noteq> []" "set w \<inter> set space_heads = {}" and IH: "string_fields (join_with '' '' ws) = ws" by simp_all
  show ?case
  proof (cases ws)
    case Nil
    then show ?thesis using w fields_from_word [of w "[]" "[]"] by (simp add: string_fields_def)
  next
    case (Cons v vs)
    then have "join_with '' '' (w # ws) = w @ CHR '' '' # join_with '' '' ws" by simp
    then show ?thesis using w IH fields_from_word [OF w(2), of "[]"] by (simp add: string_fields_def strip_space)
  qed
qed (simp add: string_fields_def)

lemma listed_fields: "\<forall>w\<in>set (executables @ options). w \<noteq> [] \<and> set w \<inter> set space_heads = {}"
proof -
  have "list_all (\<lambda>w. w \<noteq> [] \<and> list_all (\<lambda>c. c \<notin> set space_heads) w) (executables @ options)" by code_simp
  then show ?thesis by (auto simp: list_all_iff)
qed

lemma length_join:
  "\<forall>w\<in>set ws. length w \<le> n \<Longrightarrow> length (join_with '' '' ws) \<le> length ws * Suc n"
proof (induction ws)
  case (Cons w ws)
  then show ?case by (cases ws) auto
qed simp

lemma listed_summary:
  assumes "exe \<in> set executables" and "set opts \<subseteq> set options" and "length opts \<le> 7"
  shows "length (join_with '' '' (exe # opts)) \<le> 120"
    and "Normalize (join_with '' '' (exe # opts)) = \<lparr>dsp_Executable = exe, dsp_Summary = join_with '' '' (exe # opts)\<rparr>"
proof -
  let ?ws = "exe # opts"
  have ws: "set ?ws \<subseteq> set (executables @ options)" using assms(1, 2) by auto
  then have len: "\<forall>w\<in>set ?ws. length w \<le> 14" using listed_words(1) by (auto simp: list_all_iff)
  then show short: "length (join_with '' '' ?ws) \<le> 120"
    using length_join [OF len] assms(3) by simp
  have "string_fields (join_with '' '' ?ws) = ?ws" using listed_fields ws by (intro fields_join) blast
  moreover have "\<not> containsUnsafeSyntax (join_with '' '' ?ws)"
  proof -
    have safe: "\<not> unsafe_char CHR '' ''" by code_simp
    have "\<forall>w\<in>set ?ws. \<not> containsUnsafeSyntax w" using listed_words(1) ws by (auto simp: list_all_iff)
    then show ?thesis
    proof (induction "exe # opts" arbitrary: exe opts)
      case (Cons w ws)
      then show ?case using safe by (cases ws) (auto simp: containsUnsafeSyntax_def)
    qed
  qed
  moreover have "join_with '' '' ?ws \<noteq> []"
    using listed_fields assms(1) by (cases opts) auto
  moreover have "executablePattern exe \<and> CHR ''='' \<notin> set exe \<and> CHR ''/'' \<notin> set exe \<and> CHR 0x5C \<notin> set exe \<and>
      exe \<notin> set wrappers"
    using listed_words(2) assms(1) by (auto simp: list_all_iff)
  ultimately have "safeFields (join_with '' '' ?ws) = Some (exe, opts)"
    using assms(1) by (simp add: safeFields_def)
  then show "Normalize (join_with '' '' ?ws) = \<lparr>dsp_Executable = exe, dsp_Summary = join_with '' '' ?ws\<rparr>"
    using assms(2, 3) short by (simp add: Normalize_def optionLoop_listed maxSummaryBytes_def Let_def)
qed

lemma Normalize_cases:
  "Normalize command = \<lparr>dsp_Executable = [], dsp_Summary = []\<rparr> \<or>
    (\<exists>exe opts. exe \<in> set executables \<and> set opts \<subseteq> set options \<and> length opts \<le> 7 \<and>
      Normalize command = \<lparr>dsp_Executable = exe, dsp_Summary = join_with '' '' (exe # opts)\<rparr>)"
proof (cases "safeFields command")
  case None
  then show ?thesis by (simp add: Normalize_def)
next
  case (Some x)
  obtain exe rest where x: "x = (exe, rest)" by (cases x)
  have exe: "exe \<in> set executables"
    using Some by (auto simp: safeFields_def x split: if_splits list.splits)
  obtain opts where opts: "optionLoop [exe] rest = exe # opts" "set opts \<subseteq> set options" "length opts \<le> 7"
    using optionLoop_shape [of "[exe]" rest] by auto
  have "length (join_with '' '' (exe # opts)) \<le> maxSummaryBytes"
    using listed_summary(1) [OF exe opts(2, 3)] by (simp add: maxSummaryBytes_def)
  then have "Normalize command = \<lparr>dsp_Executable = exe, dsp_Summary = join_with '' '' (exe # opts)\<rparr>"
    by (simp add: Normalize_def Some x opts(1) Let_def)
  then show ?thesis using exe opts by blast
qed

section \<open>Properties\<close>

text \<open>
  A display never shows anything of a command but allow-listed words: it is empty, or it is an
  allow-listed executable followed by at most seven allow-listed option names, joined by spaces, and
  it is far below the summary limit, so nothing is ever cut.
\<close>

theorem display_is_allow_listed:
  "Normalize command = \<lparr>dsp_Executable = [], dsp_Summary = []\<rparr> \<or>
    (\<exists>exe opts. exe \<in> set executables \<and> set opts \<subseteq> set options \<and> length opts \<le> 7 \<and>
      Normalize command = \<lparr>dsp_Executable = exe, dsp_Summary = join_with '' '' (exe # opts)\<rparr> \<and>
      length (dsp_Summary (Normalize command)) \<le> 120)"
  using Normalize_cases [of command] listed_summary(1) by force

text \<open>
  Normalizing is idempotent: a summary the policy produced normalizes to itself, so an older
  stored summary can be passed through it again.
\<close>

theorem normalize_idempotent: "Normalize (dsp_Summary (Normalize command)) = Normalize command"
proof -
  have "Normalize [] = \<lparr>dsp_Executable = [], dsp_Summary = []\<rparr>" by (simp add: Normalize_def safeFields_def)
  then show ?thesis using Normalize_cases [of command] listed_summary(2) by fastforce
qed

end
