(* ===== verification/UUIDv7.thy ===== *)
theory UUIDv7
  imports Prelude
begin

text \<open>
  Version 7 UUIDs (\<open>internal/canonical/model/uuidv7.go\<close>): the constructor from a time and random
  bytes, and the predicate on their canonical text. Bytes and the millisecond count are words.
\<close>

unbundle bit_operations_syntax

section \<open>The canonical form\<close>

definition is_hex :: "char \<Rightarrow> bool" where
  "is_hex c \<longleftrightarrow> (let n = (of_char c :: int) in (48 \<le> n \<and> n \<le> 57) \<or> (97 \<le> n \<and> n \<le> 102))"

text \<open>
  The code ranges over rune positions; the first byte of a longer rune is refused, so ranging over
  all bytes answers the same.
\<close>

definition IsCanonicalUUIDv7 :: "gostring \<Rightarrow> bool" where
  "IsCanonicalUUIDv7 value =
    (if length value \<noteq> 36 \<or> value ! 8 \<noteq> CHR ''-'' \<or> value ! 13 \<noteq> CHR ''-'' \<or> value ! 18 \<noteq> CHR ''-'' \<or>
        value ! 23 \<noteq> CHR ''-'' \<or> value ! 14 \<noteq> CHR ''7'' then False
     else if value ! 19 \<notin> set ''89ab'' then False
     else list_all (\<lambda>index. index \<in> set [8, 13, 18, 23] \<or> is_hex (value ! index)) [0..<36])"

section \<open>The constructor\<close>

text \<open>The first instant of 1970, in nanoseconds since the zero time.\<close>

definition unix_epoch :: time where "unix_epoch = 62135596800 * 1000000000"

definition unix_millis :: "time \<Rightarrow> 64 word" where
  "unix_millis t = word_of_int ((t - unix_epoch) div 1000000)"

definition hex_digit :: "8 word \<Rightarrow> char" where
  "hex_digit w = ''0123456789abcdef'' ! unat w"

definition hex_encode :: "8 word list \<Rightarrow> gostring" where
  "hex_encode bytes = concat (map (\<lambda>b. [hex_digit (drop_bit 4 b), hex_digit (b AND 15)]) bytes)"

definition timestamp_bytes :: "64 word \<Rightarrow> 8 word list" where
  "timestamp_bytes millis =
    [ucast (drop_bit 40 millis), ucast (drop_bit 32 millis), ucast (drop_bit 24 millis),
     ucast (drop_bit 16 millis), ucast (drop_bit 8 millis), ucast millis]"

text \<open>
  \<open>random\<close> is what the reader would deliver; \<open>io.ReadFull\<close> fails with fewer than ten bytes.
\<close>

definition NewUUIDv7 :: "time \<Rightarrow> 8 word list \<Rightarrow> gostring option" where
  "NewUUIDv7 now random =
    (if length random < 10 then None
     else
       let value = timestamp_bytes (unix_millis now) @ take 10 random;
           value = value[6 := (value ! 6 AND 15) OR 112];
           value = value[8 := (value ! 8 AND 63) OR 128]
       in Some (hex_encode (take 4 value) @ ''-'' @ hex_encode (take 2 (drop 4 value)) @ ''-'' @
                hex_encode (take 2 (drop 6 value)) @ ''-'' @ hex_encode (take 2 (drop 8 value)) @ ''-'' @
                hex_encode (drop 10 value)))"

section \<open>Hexadecimal text\<close>

definition hex_value :: "char \<Rightarrow> int" where
  "hex_value c = (let n = (of_char c :: int) in if n < 97 then n - 48 else n - 87)"

definition text_value :: "gostring \<Rightarrow> int" where
  "text_value s = foldl (\<lambda>v c. v * 16 + hex_value c) 0 s"

definition bytes_value :: "8 word list \<Rightarrow> int" where
  "bytes_value bs = foldl (\<lambda>v b. v * 256 + uint b) 0 bs"

lemma all_digits: "list_all (\<lambda>n. is_hex (''0123456789abcdef'' ! n) \<and> hex_value (''0123456789abcdef'' ! n) = int n) [0..<16]"
  by code_simp

lemma hex_digit_ok: "unat w < 16 \<Longrightarrow> is_hex (hex_digit w) \<and> hex_value (hex_digit w) = uint w"
  using all_digits by (auto simp: list_all_iff hex_digit_def)

lemma uint_drop_bit: "uint (drop_bit k w) = uint w div 2 ^ k"
  for w :: "'a::len word"
proof -
  have "uint (drop_bit k w) = drop_bit k (uint w)" 
    using uint_lt2p [of w] by (simp add: unsigned_drop_bit_eq take_bit_int_eq_self)
  then show ?thesis by (simp only: drop_bit_int_def)
qed

lemma small_unat: "uint w < 16 \<Longrightarrow> unat w < 16" for w :: "8 word"
  by (simp only: unat_eq_nat_uint nat_less_iff uint_ge_0)

lemma nibbles:
  fixes b :: "8 word"
  shows "unat (drop_bit 4 b) < 16" and "unat (b AND 15) < 16"
    and "uint (drop_bit 4 b) * 16 + uint (b AND 15) = uint b"
proof -
  have d: "uint (drop_bit 4 b) = uint b div 16" unfolding uint_drop_bit by simp
  have m: "uint (b AND 15) = uint b mod 16"
    using take_bit_eq_mask [of 4 "uint b"] by (simp add: uint_and take_bit_eq_mod mask_eq_exp_minus_1)
  have "uint b < 256" using uint_bounded [of b] by simp
  then have "uint (drop_bit 4 b) < 16" using d by linarith
  then show "unat (drop_bit 4 b) < 16" by (rule small_unat)
  have "uint (b AND 15) < 16" unfolding m by simp
  then show "unat (b AND 15) < 16" by (rule small_unat)
  show "uint (drop_bit 4 b) * 16 + uint (b AND 15) = uint b" unfolding d m by simp
qed

lemma length_hex_encode [simp]: "length (hex_encode bs) = 2 * length bs"
  by (induction bs) (simp_all add: hex_encode_def)

lemma hex_encode_append: "hex_encode (as @ bs) = hex_encode as @ hex_encode bs"
  by (simp add: hex_encode_def)

lemma hex_encode_hex: "c \<in> set (hex_encode bs) \<Longrightarrow> is_hex c"
  using nibbles(1, 2) hex_digit_ok by (auto simp: hex_encode_def)

lemma text_value_hex_encode: "text_value (hex_encode bs) = bytes_value bs"
proof -
  have "foldl (\<lambda>v c. v * 16 + hex_value c) a (hex_encode bs) = foldl (\<lambda>v b. v * 256 + uint b) a bs" for a
  proof (induction bs arbitrary: a)
    case (Cons b bs)
    have "hex_value (hex_digit (drop_bit 4 b)) = uint (drop_bit 4 b)" "hex_value (hex_digit (b AND 15)) = uint (b AND 15)"
      using hex_digit_ok nibbles(1, 2) by blast+
    then have "(a * 16 + hex_value (hex_digit (drop_bit 4 b))) * 16 + hex_value (hex_digit (b AND 15)) = a * 256 + uint b"
      using nibbles(3) [of b] by simp
    moreover have "hex_encode (b # bs) = hex_digit (drop_bit 4 b) # hex_digit (b AND 15) # hex_encode bs"
      by (simp add: hex_encode_def)
    ultimately show ?case using Cons.IH [of "a * 256 + uint b"] by (simp only: foldl_Cons)
  qed (simp add: hex_encode_def)
  then show ?thesis by (simp add: text_value_def bytes_value_def)
qed

lemma byte_of_word:
  fixes w :: "64 word"
  shows "uint (ucast (drop_bit k w) :: 8 word) = uint w div 2 ^ k mod 256"
proof -
  have "uint (ucast (drop_bit k w) :: 8 word) = take_bit 8 (uint (drop_bit k w))" by (simp add: unsigned_ucast_eq)
  also have "\<dots> = uint w div 2 ^ k mod 256" unfolding uint_drop_bit by (simp add: take_bit_eq_mod)
  finally show ?thesis .
qed

lemma mod_step: "(m :: int) div 2 ^ k mod 256 * 2 ^ k + m mod 2 ^ k = m mod 2 ^ (k + 8)"
proof -
  have "m mod (2 ^ k * 256) = 2 ^ k * (m div 2 ^ k mod 256) + m mod 2 ^ k"
    by (rule zmod_zmult2_eq) simp
  then show ?thesis by (simp add: power_add algebra_simps)
qed

lemma mod_steps:
  fixes m :: int
  shows "m div 2 ^ 8 mod 256 * 2 ^ 8 + m mod 2 ^ 8 = m mod 2 ^ 16"
    and "m div 2 ^ 16 mod 256 * 2 ^ 16 + m mod 2 ^ 16 = m mod 2 ^ 24"
    and "m div 2 ^ 24 mod 256 * 2 ^ 24 + m mod 2 ^ 24 = m mod 2 ^ 32"
    and "m div 2 ^ 32 mod 256 * 2 ^ 32 + m mod 2 ^ 32 = m mod 2 ^ 40"
    and "m div 2 ^ 40 mod 256 * 2 ^ 40 + m mod 2 ^ 40 = m mod 2 ^ 48"
  using mod_step [of m 8] mod_step [of m 16] mod_step [of m 24] mod_step [of m 32] mod_step [of m 40]
  by (simp_all only: numeral_plus_numeral semiring_norm)

lemma horner:
  "((((a * 256 + b) * 256 + c) * 256 + d) * 256 + e) * 256 + f =
    a * 2 ^ 40 + (b * 2 ^ 32 + (c * 2 ^ 24 + (d * 2 ^ 16 + (e * 2 ^ 8 + (f :: int)))))"
  by simp

lemma timestamp_value: "bytes_value (timestamp_bytes w) = uint w mod 2 ^ 48"
proof -
  let ?m = "uint w" and ?b = "\<lambda>k. uint w div 2 ^ k mod 256"
  have b0: "uint (ucast w :: 8 word) = ?m mod 2 ^ 8" using byte_of_word [of 0 w] by simp
  have "bytes_value (timestamp_bytes w) =
      ((((?b 40 * 256 + ?b 32) * 256 + ?b 24) * 256 + ?b 16) * 256 + ?b 8) * 256 + ?m mod 2 ^ 8"
    by (simp only: bytes_value_def timestamp_bytes_def foldl.simps byte_of_word b0) simp
  also have "\<dots> = ?b 40 * 2 ^ 40 + (?b 32 * 2 ^ 32 + (?b 24 * 2 ^ 24 + (?b 16 * 2 ^ 16 + (?b 8 * 2 ^ 8 + ?m mod 2 ^ 8))))"
    by (rule horner)
  also have "\<dots> = ?m mod 2 ^ 48"
    by (simp only: mod_steps)
  finally show ?thesis .
qed

section \<open>The text of a new identifier\<close>

lemma version_nibble:
  fixes b :: "8 word"
  shows "drop_bit 4 ((b AND 15) OR 112) = 7"
    and "drop_bit 4 ((b AND 63) OR 128) = (drop_bit 4 b AND 3) OR 8"
  by (simp_all add: drop_bit_or drop_bit_and)

lemma variant_nibble:
  fixes b :: "8 word"
  shows "hex_digit ((b AND 3) OR 8) \<in> set ''89ab''"
proof -
  have "uint (b AND 3) = uint b mod 4"
    using take_bit_eq_mask [of 2 "uint b"] by (simp add: uint_and take_bit_eq_mod mask_eq_exp_minus_1)
  moreover have "uint b mod 4 = 0 \<or> uint b mod 4 = 1 \<or> uint b mod 4 = 2 \<or> uint b mod 4 = 3" by presburger
  ultimately have "uint (b AND 3) \<in> {uint (0 :: 8 word), uint (1 :: 8 word), uint (2 :: 8 word), uint (3 :: 8 word)}"
    by simp
  then have "b AND 3 \<in> {0, 1, 2, 3}" by (auto simp only: insert_iff empty_iff word_uint_eq_iff)
  then show ?thesis by (auto simp: hex_digit_def)
qed

lemma six_bytes: "length (timestamp_bytes w) = 6"
  by (simp add: timestamp_bytes_def)

lemma NewUUIDv7_text:
  assumes "NewUUIDv7 now random = Some u"
  shows "\<exists>v. length v = 16 \<and> take 6 v = timestamp_bytes (unix_millis now) \<and>
    drop_bit 4 (v ! 6) = 7 \<and> (\<exists>b. drop_bit 4 (v ! 8) = (b AND 3) OR 8) \<and>
    u = hex_encode (take 4 v) @ ''-'' @ hex_encode (take 2 (drop 4 v)) @ ''-'' @
        hex_encode (take 2 (drop 6 v)) @ ''-'' @ hex_encode (take 2 (drop 8 v)) @ ''-'' @ hex_encode (drop 10 v)"
proof -
  let ?w = "timestamp_bytes (unix_millis now) @ take 10 random"
  let ?v = "?w[6 := (?w ! 6 AND 15) OR 112, 8 := (?w[6 := (?w ! 6 AND 15) OR 112] ! 8 AND 63) OR 128]"
  from assms have len: "10 \<le> length random"
    and u: "u = hex_encode (take 4 ?v) @ ''-'' @ hex_encode (take 2 (drop 4 ?v)) @ ''-'' @
        hex_encode (take 2 (drop 6 ?v)) @ ''-'' @ hex_encode (take 2 (drop 8 ?v)) @ ''-'' @ hex_encode (drop 10 ?v)"
    by (auto simp: NewUUIDv7_def Let_def split: if_splits)
  have l: "length ?w = 16" using len by (simp add: six_bytes)
  have "take 6 ?v = timestamp_bytes (unix_millis now)" by (simp add: six_bytes)
  moreover have "drop_bit 4 (?v ! 6) = 7" using l by (simp add: version_nibble)
  moreover have "drop_bit 4 (?v ! 8) = (drop_bit 4 (?w ! 8) AND 3) OR 8" using l by (simp add: version_nibble)
  ultimately show ?thesis using l u by (intro exI [of _ ?v]) auto
qed

definition uuid_millis :: "gostring \<Rightarrow> int" where
  "uuid_millis u = text_value (take 8 u @ take 4 (drop 9 u))"

text \<open>
  Every identifier the constructor returns is in the canonical form the rest of the program
  accepts: thirty-six bytes, hyphens in place, lower-case hexadecimal digits, version 7 and the
  variant bits; the constructor fails exactly when the reader delivers fewer than ten bytes.
\<close>

theorem new_uuid_is_canonical:
  "case NewUUIDv7 now random of None \<Rightarrow> length random < 10 | Some u \<Rightarrow> IsCanonicalUUIDv7 u"
proof (cases "NewUUIDv7 now random")
  case None
  then show ?thesis by (simp add: NewUUIDv7_def Let_def split: if_splits)
next
  case (Some u)
  from NewUUIDv7_text [OF Some] obtain v b where v: "length v = 16" "drop_bit 4 (v ! 6) = 7"
      "drop_bit 4 (v ! 8) = (b AND 3) OR 8"
    and u: "u = hex_encode (take 4 v) @ ''-'' @ hex_encode (take 2 (drop 4 v)) @ ''-'' @
        hex_encode (take 2 (drop 6 v)) @ ''-'' @ hex_encode (take 2 (drop 8 v)) @ ''-'' @ hex_encode (drop 10 v)"
    by blast
  have h: "k < 2 * length bs \<Longrightarrow> is_hex (hex_encode bs ! k)" for k bs
    using hex_encode_hex [of "hex_encode bs ! k" bs] by simp
  have len: "length u = 36" using v(1) by (simp add: u)
  have p6: "take 2 (drop 6 v) = [v ! 6, v ! 7]" and p8: "take 2 (drop 8 v) = [v ! 8, v ! 9]"
    using v(1) by (simp_all add: list_eq_iff_nth_eq less_Suc_eq numeral_2_eq_2 nth_append)
  have "hex_encode (take 2 (drop 6 v)) ! 0 = CHR ''7''" using v(2) by (simp add: p6 hex_encode_def hex_digit_def)
  moreover have "hex_encode (take 2 (drop 8 v)) ! 0 \<in> set ''89ab''"
    using v(3) variant_nibble [of b] by (simp only: p8 hex_encode_def list.map concat.simps append.simps nth_Cons_0)
  ultimately have at: "u ! 8 = CHR ''-''" "u ! 13 = CHR ''-''" "u ! 18 = CHR ''-''" "u ! 23 = CHR ''-''"
      "u ! 14 = CHR ''7''" "u ! 19 \<in> set ''89ab''"
    using v(1) unfolding u by (simp_all add: nth_append)
  have "is_hex (u ! i)" if "i < 36" "i \<notin> {8, 13, 18, 23}" for i
  proof -
    consider "i < 8" | "8 < i" "i < 13" | "13 < i" "i < 18" | "18 < i" "i < 23" | "23 < i"
      using \<open>i \<notin> {8, 13, 18, 23}\<close> by fastforce
    then show ?thesis using v(1) \<open>i < 36\<close> unfolding u by cases (auto simp: nth_append nth_Cons' intro!: h)
  qed
  then have "\<forall>i<36. i \<notin> {8, 13, 18, 23} \<longrightarrow> is_hex (u ! i)" by blast
  then have "list_all (\<lambda>index. index \<in> set [8, 13, 18, 23] \<or> is_hex (u ! index)) [0..<36]"
    by (auto simp: list_all_iff)
  with len at show ?thesis by (simp add: Some IsCanonicalUUIDv7_def)
qed

text \<open>
  The identifier carries its time: read back as hexadecimal, its first twelve digits are the
  milliseconds since 1970 modulo 2^48, whatever the random bytes.
\<close>

theorem uuid_timestamp_roundtrip:
  assumes "NewUUIDv7 now random = Some u"
  shows "uuid_millis u = uint (unix_millis now) mod 2 ^ 48"
proof -
  from NewUUIDv7_text [OF assms] obtain v where v: "length v = 16" "take 6 v = timestamp_bytes (unix_millis now)"
    and u: "u = hex_encode (take 4 v) @ ''-'' @ hex_encode (take 2 (drop 4 v)) @ ''-'' @
        hex_encode (take 2 (drop 6 v)) @ ''-'' @ hex_encode (take 2 (drop 8 v)) @ ''-'' @ hex_encode (drop 10 v)"
    by blast
  have "take 8 u @ take 4 (drop 9 u) = hex_encode (take 4 v @ take 2 (drop 4 v))"
    using v(1) by (simp add: u hex_encode_append)
  also have "take 4 v @ take 2 (drop 4 v) = take 6 v" using take_add [of 4 2 v] by simp
  finally show ?thesis by (simp add: uuid_millis_def text_value_hex_encode v(2) timestamp_value)
qed

theorem uuid_timestamp_roundtrip_witness:
  "\<exists>u. NewUUIDv7 unix_epoch (replicate 10 255) = Some u \<and> uuid_millis u = 0"
proof -
  obtain u where u: "NewUUIDv7 unix_epoch (replicate 10 255) = Some u"
    by (cases "NewUUIDv7 unix_epoch (replicate 10 255)") (simp_all add: NewUUIDv7_def Let_def)
  from uuid_timestamp_roundtrip [OF u] have "uuid_millis u = 0" by (simp add: unix_millis_def)
  with u show ?thesis by blast
qed

end
