(* ===== verification/Init_Status.thy ===== *)
theory Init_Status
  imports Prelude
begin

text \<open>
  The status of the historical initialization (\<open>internal/initialization/status.go\<close>): a tracker
  that is completed at most once. The tracker's clock is a parameter: each operation takes the
  instant the clock answers. A pointer is an option; cloning copies values, which HOL's values
  do anyway.
\<close>

section \<open>The tracker\<close>

abbreviation StateInitializing :: gostring where "StateInitializing \<equiv> ''initializing''"
abbreviation StateReady :: gostring where "StateReady \<equiv> ''ready''"
abbreviation StateDegraded :: gostring where "StateDegraded \<equiv> ''degraded''"
abbreviation ErrorHistoricalScanIncomplete :: gostring where
  "ErrorHistoricalScanIncomplete \<equiv> ''historical_scan_incomplete''"

record Status =
  st_State :: gostring
  st_StartedAt :: time
  st_CompletedAt :: "time option"
  st_ErrorCode :: "gostring option"

definition cloneStatus :: "Status \<Rightarrow> Status" where
  "cloneStatus status = status\<lparr>st_CompletedAt := st_CompletedAt status, st_ErrorCode := st_ErrorCode status\<rparr>"

definition NewTracker :: "bool \<Rightarrow> time \<Rightarrow> Status" where
  "NewTracker historicalScanRequested now =
    (let status = \<lparr>st_State = StateInitializing, st_StartedAt = now, st_CompletedAt = None, st_ErrorCode = None\<rparr>
     in if \<not> historicalScanRequested
        then status\<lparr>st_State := StateReady, st_CompletedAt := Some now\<rparr> else status)"

text \<open>A nil tracker is None.\<close>

definition InitializationStatus :: "Status option \<Rightarrow> Status" where
  "InitializationStatus tracker =
    (case tracker of
       None \<Rightarrow> \<lparr>st_State = [], st_StartedAt = time_zero, st_CompletedAt = None, st_ErrorCode = None\<rparr>
     | Some status \<Rightarrow> cloneStatus status)"

definition complete :: "gostring \<Rightarrow> gostring option \<Rightarrow> time \<Rightarrow> Status option \<Rightarrow> Status option" where
  "complete state errorCode now tracker =
    (case tracker of
       None \<Rightarrow> None
     | Some status \<Rightarrow>
         if st_State status \<noteq> StateInitializing then Some status
         else Some (status\<lparr>st_State := state, st_CompletedAt := Some now, st_ErrorCode := errorCode\<rparr>))"

definition MarkReady :: "time \<Rightarrow> Status option \<Rightarrow> Status option" where
  "MarkReady now tracker = complete StateReady None now tracker"

definition MarkHistoricalScanIncomplete :: "time \<Rightarrow> Status option \<Rightarrow> Status option" where
  "MarkHistoricalScanIncomplete now tracker =
    complete StateDegraded (Some ErrorHistoricalScanIncomplete) now tracker"

definition Valid :: "Status \<Rightarrow> bool" where
  "Valid status =
    (if st_StartedAt status = time_zero then False
     else if st_State status = StateInitializing then st_CompletedAt status = None \<and> st_ErrorCode status = None
     else if st_State status = StateReady then
       (case st_CompletedAt status of
          None \<Rightarrow> False
        | Some c \<Rightarrow> \<not> c < st_StartedAt status \<and> st_ErrorCode status = None)
     else if st_State status = StateDegraded then
       (case st_CompletedAt status of
          None \<Rightarrow> False
        | Some c \<Rightarrow> \<not> c < st_StartedAt status \<and> st_ErrorCode status = Some ErrorHistoricalScanIncomplete)
     else False)"

section \<open>Histories of a tracker\<close>

datatype completion = Ready | ScanIncomplete

fun apply_completion :: "completion \<times> time \<Rightarrow> Status option \<Rightarrow> Status option" where
  "apply_completion (Ready, now) tracker = MarkReady now tracker"
| "apply_completion (ScanIncomplete, now) tracker = MarkHistoricalScanIncomplete now tracker"

inductive tracker_step :: "Status option \<Rightarrow> Status option \<Rightarrow> bool" where
  "st_StartedAt s \<le> now \<Longrightarrow> tracker_step (Some s) (apply_completion (how, now) (Some s))"

inductive_cases tracker_stepE: "tracker_step t u"

definition tracker_ok :: "Status option \<Rightarrow> bool" where
  "tracker_ok t \<longleftrightarrow> (case t of None \<Rightarrow> False | Some s \<Rightarrow> Valid s)"

lemma tracker_step_ok: "tracker_step t u \<Longrightarrow> tracker_ok t \<Longrightarrow> tracker_ok u"
  by (erule tracker_stepE, rename_tac s now how, case_tac how)
    (auto simp: tracker_ok_def MarkReady_def MarkHistoricalScanIncomplete_def complete_def Valid_def
      split: if_splits)

interpretation tracker: state_machine tracker_step tracker_ok
  by unfold_locales (rule tracker_step_ok)

lemma NewTracker_ok: "now \<noteq> time_zero \<Longrightarrow> tracker_ok (Some (NewTracker requested now))"
  by (simp add: tracker_ok_def NewTracker_def Valid_def Let_def)

lemma completion_once:
  "st_State s \<noteq> StateInitializing \<Longrightarrow> apply_completion (how, now) (Some s) = Some s"
  by (cases how) (simp_all add: MarkReady_def MarkHistoricalScanIncomplete_def complete_def)

lemma first_completion_wins:
  "foldl (\<lambda>t c. apply_completion c t) (Some (NewTracker True started)) (c # cs) =
    apply_completion c (Some (NewTracker True started))"
proof -
  obtain s where s: "apply_completion c (Some (NewTracker True started)) = Some s" "st_State s \<noteq> StateInitializing"
    by (cases c; cases "fst c") (auto simp: MarkReady_def MarkHistoricalScanIncomplete_def complete_def
        NewTracker_def Let_def)
  have "foldl (\<lambda>t c. apply_completion c t) (Some s) cs = Some s"
    using s(2) completion_once by (induction cs) (auto simp: split_paired_all)
  with s(1) show ?thesis by simp
qed

section \<open>Properties\<close>

text \<open>
  A tracker is completed at most once: whatever completions are requested and in whatever order,
  the status after all of them is the status after the first; the later ones change nothing.
\<close>

theorem completed_once:
  "foldl (\<lambda>t c. apply_completion c t) (Some (NewTracker True started)) (c # cs) =
    apply_completion c (Some (NewTracker True started))"
  by (rule first_completion_wins)

text \<open>
  While the clock does not fall behind the start, every status a tracker reports is valid: an
  initializing one has no completion time, a completed one has a time not before the start, and an
  error code exactly when it is degraded.
\<close>

theorem reported_status_valid:
  assumes "now \<noteq> time_zero" and "tracker_step\<^sup>*\<^sup>* (Some (NewTracker requested now)) t"
  shows "t \<noteq> None \<and> Valid (InitializationStatus t)"
  using tracker.reachable [OF assms(2) NewTracker_ok [OF assms(1)]]
  by (auto simp: tracker_ok_def InitializationStatus_def cloneStatus_def split: option.splits)

theorem reported_status_valid_witness:
  "Valid (InitializationStatus (MarkReady 7 (Some (NewTracker True 5))))"
proof -
  have "tracker_step (Some (NewTracker True 5)) (apply_completion (Ready, 7) (Some (NewTracker True 5)))"
    by (rule tracker_step.intros) (simp add: NewTracker_def Let_def)
  then have "tracker_step\<^sup>*\<^sup>* (Some (NewTracker True 5)) (MarkReady 7 (Some (NewTracker True 5)))" by auto
  from reported_status_valid [OF _ this] show ?thesis by (simp add: time_zero_def)
qed

end
