(* ===== verification/Exp_Model.thy ===== *)
theory Exp_Model
  imports Text_Runes Complex_Main
begin

text \<open>
  The experience contracts (\<open>internal/experience/enums.go\<close>, \<open>model.go\<close> and the types of
  \<open>verifier.go\<close>). A string type with constants is a datatype whose last constructor stands for
  every other string; a field whose empty string means that nothing is set (the harness of a
  provenance, the role of a transcript turn) is an option, as is a pointer. A finite float is the
  rational number it denotes.
\<close>

section \<open>Enumerations\<close>

datatype ExperienceType =
  ExperiencePreference | ExperienceProcedure | ExperienceWarning | ExperienceConstraint
  | ExperienceFact
  | ExperienceTypeOther gostring

fun ExperienceType_Valid :: "ExperienceType \<Rightarrow> bool" where
  "ExperienceType_Valid (ExperienceTypeOther s) = False"
| "ExperienceType_Valid value = True"

datatype CandidateFamily =
  CandidateCorrection | CandidateSuccessfulProcedure | CandidateFailedApproach
  | CandidateFamilyOther gostring

fun CandidateFamily_Valid :: "CandidateFamily \<Rightarrow> bool" where
  "CandidateFamily_Valid (CandidateFamilyOther s) = False"
| "CandidateFamily_Valid value = True"

datatype EvidenceTurnRole =
  EvidenceTurnUser | EvidenceTurnAssistant | EvidenceTurnToolCall | EvidenceTurnToolResult
  | EvidenceTurnSystem | EvidenceTurnCompactionSummary
  | EvidenceTurnRoleOther gostring

fun EvidenceTurnRole_Valid :: "EvidenceTurnRole \<Rightarrow> bool" where
  "EvidenceTurnRole_Valid (EvidenceTurnRoleOther s) = False"
| "EvidenceTurnRole_Valid value = True"

datatype LifecycleState =
  LifecycleCandidate | LifecycleApproved | LifecycleActive | LifecyclePaused
  | LifecycleContradicted | LifecycleSuperseded | LifecycleExpired | LifecycleRejected
  | LifecycleStateOther gostring

fun LifecycleState_Valid :: "LifecycleState \<Rightarrow> bool" where
  "LifecycleState_Valid (LifecycleStateOther s) = False"
| "LifecycleState_Valid value = True"

datatype InterventionStrength =
  InterventionObserve | InterventionAdvise | InterventionClarify
  | InterventionRequireVerification | InterventionDeny
  | InterventionStrengthOther gostring

fun InterventionStrength_Valid :: "InterventionStrength \<Rightarrow> bool" where
  "InterventionStrength_Valid (InterventionStrengthOther s) = False"
| "InterventionStrength_Valid value = True"

datatype InstructionAuthority =
  AuthorityNone | AuthorityUserApproved
  | InstructionAuthorityOther gostring

fun InstructionAuthority_Valid :: "InstructionAuthority \<Rightarrow> bool" where
  "InstructionAuthority_Valid (InstructionAuthorityOther s) = False"
| "InstructionAuthority_Valid value = True"

datatype ScopeKind =
  ScopeProject | ScopeSession
  | ScopeKindOther gostring

fun ScopeKind_Valid :: "ScopeKind \<Rightarrow> bool" where
  "ScopeKind_Valid (ScopeKindOther s) = False"
| "ScopeKind_Valid value = True"

datatype Harness =
  HarnessClaude | HarnessCodex
  | HarnessOther gostring

fun Harness_Valid :: "Harness \<Rightarrow> bool" where
  "Harness_Valid (HarnessOther s) = False"
| "Harness_Valid value = True"

datatype SemanticDisposition =
  SemanticDispositionPropose | SemanticDispositionReject | SemanticDispositionDefer
  | SemanticDispositionOther gostring

fun SemanticDisposition_Valid :: "SemanticDisposition \<Rightarrow> bool" where
  "SemanticDisposition_Valid (SemanticDispositionOther s) = False"
| "SemanticDisposition_Valid value = True"

datatype SemanticDecisionReasonCode =
  SemanticReasonReusableSupported | SemanticReasonTemporaryOrTaskSpecific
  | SemanticReasonInsufficientContext | SemanticReasonUnsafeOrOverbroad
  | SemanticReasonNotReusable
  | SemanticDecisionReasonCodeOther gostring

fun SemanticDecisionReasonCode_Valid :: "SemanticDecisionReasonCode \<Rightarrow> bool" where
  "SemanticDecisionReasonCode_Valid (SemanticDecisionReasonCodeOther s) = False"
| "SemanticDecisionReasonCode_Valid value = True"

datatype DeterministicConditionKind =
  ConditionEventType | ConditionToolName | ConditionCommandClass | ConditionPathPattern
  | ConditionLifecyclePhase | ConditionPriorEventSequence
  | DeterministicConditionKindOther gostring

fun DeterministicConditionKind_Valid :: "DeterministicConditionKind \<Rightarrow> bool" where
  "DeterministicConditionKind_Valid (DeterministicConditionKindOther s) = False"
| "DeterministicConditionKind_Valid value = True"

datatype EvidenceSourceKind =
  EvidenceTranscriptTurn | EvidenceCanonicalEvent | EvidenceOutcomeObservation
  | EvidenceWorkspaceHash | EvidenceUserRecorded
  | EvidenceSourceKindOther gostring

fun EvidenceSourceKind_Valid :: "EvidenceSourceKind \<Rightarrow> bool" where
  "EvidenceSourceKind_Valid (EvidenceSourceKindOther s) = False"
| "EvidenceSourceKind_Valid value = True"

datatype EvidenceAvailability =
  EvidenceAvailable | EvidencePartial | EvidencePruned | EvidenceRetainedSnapshot
  | EvidenceAvailabilityOther gostring

fun EvidenceAvailability_Valid :: "EvidenceAvailability \<Rightarrow> bool" where
  "EvidenceAvailability_Valid (EvidenceAvailabilityOther s) = False"
| "EvidenceAvailability_Valid value = True"

datatype ApprovalMode =
  ApprovalAsProposed | ApprovalNarrowed | ApprovalUserEdited
  | ApprovalModeOther gostring

fun ApprovalMode_Valid :: "ApprovalMode \<Rightarrow> bool" where
  "ApprovalMode_Valid (ApprovalModeOther s) = False"
| "ApprovalMode_Valid value = True"

datatype TransitionActorKind =
  ActorUser | ActorDeterministicWorker
  | TransitionActorKindOther gostring

fun TransitionActorKind_Valid :: "TransitionActorKind \<Rightarrow> bool" where
  "TransitionActorKind_Valid (TransitionActorKindOther s) = False"
| "TransitionActorKind_Valid value = True"

datatype DeliveryKind =
  DeliveryMissionPack | DeliveryHook
  | DeliveryKindOther gostring

fun DeliveryKind_Valid :: "DeliveryKind \<Rightarrow> bool" where
  "DeliveryKind_Valid (DeliveryKindOther s) = False"
| "DeliveryKind_Valid value = True"

datatype DeliveryState =
  DeliveryPending | DeliveryDelivered | DeliveryNotDelivered | DeliveryUnknown
  | DeliveryStateOther gostring

fun DeliveryState_Valid :: "DeliveryState \<Rightarrow> bool" where
  "DeliveryState_Valid (DeliveryStateOther s) = False"
| "DeliveryState_Valid value = True"

datatype OpportunityState =
  OpportunityObserved | OpportunityNotObserved | OpportunityUnknown
  | OpportunityStateOther gostring

fun OpportunityState_Valid :: "OpportunityState \<Rightarrow> bool" where
  "OpportunityState_Valid (OpportunityStateOther s) = False"
| "OpportunityState_Valid value = True"

datatype ApplicabilityState =
  ApplicabilityApplicable | ApplicabilityNotApplicable | ApplicabilityUnknown
  | ApplicabilityStateOther gostring

fun ApplicabilityState_Valid :: "ApplicabilityState \<Rightarrow> bool" where
  "ApplicabilityState_Valid (ApplicabilityStateOther s) = False"
| "ApplicabilityState_Valid value = True"

datatype VerifierState =
  VerifierNotEvaluated | VerifierSatisfied | VerifierViolated | VerifierUnknown
  | VerifierStateOther gostring

fun VerifierState_Valid :: "VerifierState \<Rightarrow> bool" where
  "VerifierState_Valid (VerifierStateOther s) = False"
| "VerifierState_Valid value = True"

datatype TaskOutcomeState =
  TaskOutcomeNotObserved | TaskOutcomeSucceeded | TaskOutcomeFailed | TaskOutcomeUnknown
  | TaskOutcomeStateOther gostring

fun TaskOutcomeState_Valid :: "TaskOutcomeState \<Rightarrow> bool" where
  "TaskOutcomeState_Valid (TaskOutcomeStateOther s) = False"
| "TaskOutcomeState_Valid value = True"

datatype VerifierKind =
  VerifierCommandObserved | VerifierCommandSucceeded | VerifierFileNotModified
  | VerifierFileModified | VerifierPathPatternNotModified
  | VerifierVerificationAfterLastEdit | VerifierNoRepeatFailure
  | VerifierUserCorrectionAbsent | VerifierObservationOnly
  | VerifierKindOther gostring

fun VerifierKind_Valid :: "VerifierKind \<Rightarrow> bool" where
  "VerifierKind_Valid (VerifierKindOther s) = False"
| "VerifierKind_Valid value = True"

datatype CoverageRequirement =
  CoverageTranscriptComplete | CoverageCanonicalComplete | CoverageWorkspaceCaptured
  | CoverageOutcomesComplete
  | CoverageRequirementOther gostring

fun CoverageRequirement_Valid :: "CoverageRequirement \<Rightarrow> bool" where
  "CoverageRequirement_Valid (CoverageRequirementOther s) = False"
| "CoverageRequirement_Valid value = True"

section \<open>Records\<close>

datatype float64 = FloatNaN | FloatInf bool | FloatFinite rat

record CommandVerifierSpec =
  cvs_Command :: gostring
  cvs_CommandClass :: gostring
  cvs_ScrubbingVersion :: gostring

record FileVerifierSpec =
  fvs_Path :: gostring

record PathPatternVerifierSpec =
  pvs_Patterns :: "gostring list"

record VerificationAfterLastEditSpec =
  vle_CommandClasses :: "gostring list"
  vle_RequireSuccess :: bool

record NoRepeatFailureSpec =
  nrf_CommandClass :: gostring
  nrf_NormalizedPattern :: gostring
  nrf_WindowTurns :: int

record UserCorrectionAbsentSpec =
  uca_MarkerFamilies :: "gostring list"

record ObservationOnlySpec =
  oos_Explanation :: gostring

record Verifier =
  vf_Kind :: VerifierKind
  vf_CoverageRequirements :: "CoverageRequirement list"
  vf_Command :: "CommandVerifierSpec option"
  vf_File :: "FileVerifierSpec option"
  vf_PathPattern :: "PathPatternVerifierSpec option"
  vf_VerificationAfterLastEdit :: "VerificationAfterLastEditSpec option"
  vf_NoRepeatFailure :: "NoRepeatFailureSpec option"
  vf_UserCorrectionAbsent :: "UserCorrectionAbsentSpec option"
  vf_ObservationOnly :: "ObservationOnlySpec option"

record ExperienceRef =
  xr_ExperienceID :: gostring
  xr_Version :: int

record Scope =
  scp_Kind :: ScopeKind
  scp_ProjectIdentity :: gostring
  scp_SessionKey :: gostring
  scp_RepositoryPaths :: "gostring list"
  scp_TaskFamilies :: "gostring list"
  scp_Harnesses :: "Harness list"
  scp_Models :: "gostring list"

record DeterministicCondition =
  dc_Kind :: DeterministicConditionKind
  dc_Values :: "gostring list"

record Applicability =
  apl_SemanticDescription :: gostring
  apl_DeterministicConditions :: "DeterministicCondition list"
  apl_Exclusions :: "gostring list"
  apl_ExpiresAt :: "time option"

record Guidance =
  gd_Instruction :: gostring
  gd_Rationale :: gostring
  gd_Exceptions :: "gostring list"
  gd_InterventionStrength :: InterventionStrength

record EvidenceRef =
  er_Kind :: EvidenceSourceKind
  er_SessionKey :: gostring
  er_TurnIndex :: "int option"
  er_TurnRole :: "EvidenceTurnRole option"
  er_ToolName :: gostring
  er_EventID :: gostring
  er_OutcomeID :: gostring
  er_Path :: gostring
  er_SHA256 :: gostring
  er_RecordedBy :: gostring
  er_OccurredAt :: "time option"
  er_Excerpt :: gostring

record EvidenceSet =
  es_EvidenceSetID :: gostring
  es_Availability :: EvidenceAvailability
  es_Refs :: "EvidenceRef list"

record EvidenceSupport =
  esp_GuidanceRefs :: "gostring list"
  esp_ExceptionRefs :: "gostring list list"
  esp_VerifierRefs :: "gostring list"

record Provenance =
  prv_ExtractorVersion :: gostring
  prv_Harness :: "Harness option"
  prv_Model :: gostring
  prv_PromptVersion :: gostring
  prv_InputHash :: gostring
  prv_SourceCandidateID :: gostring
  prv_GeneratedAt :: time

record ApprovalProvenance =
  apv_ApprovedBy :: gostring
  apv_ApprovedAt :: time
  apv_Mode :: ApprovalMode
  apv_CandidateID :: gostring
  apv_ProposedContentHash :: gostring
  apv_ApprovedContentHash :: gostring

record Governance =
  gov_LifecycleState :: LifecycleState
  gov_Authority :: InstructionAuthority
  gov_Approval :: "ApprovalProvenance option"
  gov_StateReason :: gostring

record ExperienceProposal =
  xp_Type :: ExperienceType
  xp_Scope :: Scope
  xp_Applicability :: Applicability
  xp_Guidance :: Guidance
  xp_Verifier :: Verifier
  xp_EvidenceSupport :: "EvidenceSupport option"
  xp_Confidence :: "float64 option"
  xp_SemanticCompilationPending :: bool

record SemanticProposalProvenance =
  spp_Harness :: Harness
  spp_Model :: gostring
  spp_PromptVersion :: gostring
  spp_InputHash :: gostring
  spp_OutputHash :: gostring
  spp_GeneratedAt :: time

record SemanticProposal =
  sp_SchemaVersion :: gostring
  sp_ProposalID :: gostring
  sp_CandidateID :: gostring
  sp_ProjectIdentity :: gostring
  sp_Proposal :: ExperienceProposal
  sp_Provenance :: SemanticProposalProvenance
  sp_Authority :: InstructionAuthority

record SemanticDecision =
  sd_SchemaVersion :: gostring
  sd_DecisionID :: gostring
  sd_CandidateID :: gostring
  sd_ProjectIdentity :: gostring
  sd_Disposition :: SemanticDisposition
  sd_ReasonCode :: SemanticDecisionReasonCode
  sd_Explanation :: gostring
  sd_Confidence :: float64
  sd_ProposalID :: gostring
  sd_Provenance :: SemanticProposalProvenance

record SemanticResult =
  sr_Proposal :: "SemanticProposal option"
  sr_Decision :: SemanticDecision

record Candidate =
  cd_SchemaVersion :: gostring
  cd_CandidateID :: gostring
  cd_Family :: CandidateFamily
  cd_ProjectIdentity :: gostring
  cd_ObservedBehavior :: gostring
  cd_UserFeedback :: gostring
  cd_Evidence :: EvidenceSet
  cd_OutcomeRefs :: "gostring list"
  cd_ExistingRefs :: "ExperienceRef list"
  cd_Proposal :: ExperienceProposal
  cd_Provenance :: Provenance
  cd_Authority :: InstructionAuthority
  cd_LifecycleState :: LifecycleState
  cd_CreatedAt :: time

record Experience =
  ex_SchemaVersion :: gostring
  ex_ExperienceID :: gostring
  ex_OriginCandidateID :: gostring
  ex_Version :: int
  ex_Type :: ExperienceType
  ex_Scope :: Scope
  ex_Applicability :: Applicability
  ex_Guidance :: Guidance
  ex_Verifier :: Verifier
  ex_Evidence :: EvidenceSet
  ex_Provenance :: Provenance
  ex_Governance :: Governance
  ex_ContentHash :: gostring
  ex_PreviousVersion :: "ExperienceRef option"
  ex_CreatedAt :: time

record ExperienceMeasurement =
  em_Experience :: ExperienceRef
  em_Opportunities :: int
  em_Deliveries :: int
  em_Satisfied :: int
  em_Violated :: int
  em_Unknown :: int
  em_ExplicitCorrections :: int
  em_LastAppliedAt :: "time option"
  em_LastValidatedAt :: "time option"

record LifecycleTransition =
  lt_TransitionID :: gostring
  lt_Experience :: ExperienceRef
  lt_FromState :: LifecycleState
  lt_ToState :: LifecycleState
  lt_ReasonCode :: gostring
  lt_ActorKind :: TransitionActorKind
  lt_ActorID :: gostring
  lt_OccurredAt :: time
  lt_SourceEvidence :: "EvidenceRef list"

record Application =
  app_SchemaVersion :: gostring
  app_ApplicationID :: gostring
  app_Experience :: ExperienceRef
  app_ProjectIdentity :: gostring
  app_SessionKey :: gostring
  app_DeliveryKind :: DeliveryKind
  app_DeliveryState :: DeliveryState
  app_DeliveredAt :: "time option"
  app_OpportunityState :: OpportunityState
  app_ApplicabilityState :: ApplicabilityState
  app_VerifierState :: VerifierState
  app_TaskOutcomeState :: TaskOutcomeState
  app_SourceEvidence :: "EvidenceRef list"

record Evaluation =
  evl_SchemaVersion :: gostring
  evl_EvaluationID :: gostring
  evl_ApplicationID :: gostring
  evl_Experience :: ExperienceRef
  evl_EvaluatedAt :: time
  evl_OpportunityState :: OpportunityState
  evl_ApplicabilityState :: ApplicabilityState
  evl_VerifierState :: VerifierState
  evl_TaskOutcomeState :: TaskOutcomeState
  evl_Coverage :: "CoverageRequirement list"
  evl_SourceEvidence :: "EvidenceRef list"
  evl_DerivationVersion :: gostring

abbreviation CandidateSchemaVersion :: gostring where
  "CandidateSchemaVersion \<equiv> ''belay.experience-candidate.v1''"
abbreviation SemanticProposalSchemaVersion :: gostring where
  "SemanticProposalSchemaVersion \<equiv> ''belay.experience-semantic-proposal.v1''"
abbreviation SemanticDecisionSchemaVersion :: gostring where
  "SemanticDecisionSchemaVersion \<equiv> ''belay.experience-semantic-decision.v1''"
abbreviation ExperienceSchemaVersion :: gostring where
  "ExperienceSchemaVersion \<equiv> ''belay.experience.v1''"
abbreviation ApplicationSchemaVersion :: gostring where
  "ApplicationSchemaVersion \<equiv> ''belay.experience-application.v1''"
abbreviation EvaluationSchemaVersion :: gostring where
  "EvaluationSchemaVersion \<equiv> ''belay.experience-evaluation.v1''"

definition SemanticProposalPromptVersions :: "gostring list" where
  "SemanticProposalPromptVersions =
    [''belay.experience-prompt.v1'', ''belay.experience-prompt.v2'', ''belay.experience-prompt.v3'',
     ''belay.experience-prompt.v4'', ''belay.experience-prompt.v5'', ''belay.experience-prompt.v6'',
     ''belay.experience-prompt.v7'', ''belay.experience-prompt.v8'', ''belay.experience-prompt.v9'',
     ''belay.experience-prompt.v10'', ''belay.experience-prompt.v11'', ''belay.experience-prompt.v12'']"

definition absenceBased :: "Verifier \<Rightarrow> bool" where
  "absenceBased value \<longleftrightarrow>
    (case vf_Kind value of
       VerifierFileNotModified \<Rightarrow> True
     | VerifierPathPatternNotModified \<Rightarrow> True
     | VerifierNoRepeatFailure \<Rightarrow> True
     | VerifierUserCorrectionAbsent \<Rightarrow> True
     | _ \<Rightarrow> False)"

end
