(* ===== verification/Exp_Normalize.thy ===== *)
theory Exp_Normalize
  imports Exp_Model
begin

text \<open>
  Canonical content (\<open>internal/experience/hash.go\<close>): the normal form of each contract and the
  identifiers derived from it. The JSON encoder and SHA-256 are parameters: an \<open>encoder\<close> holds the
  JSON text of the two types that are sorted by it and the two texts of the digest of a payload.
\<close>

section \<open>Text of enumerations\<close>

fun Harness_text :: "Harness \<Rightarrow> gostring" where
  "Harness_text HarnessClaude = ''claude''"
| "Harness_text HarnessCodex = ''codex''"
| "Harness_text (HarnessOther s) = s"

fun CoverageRequirement_text :: "CoverageRequirement \<Rightarrow> gostring" where
  "CoverageRequirement_text CoverageTranscriptComplete = ''transcript_complete''"
| "CoverageRequirement_text CoverageCanonicalComplete = ''canonical_events_complete''"
| "CoverageRequirement_text CoverageWorkspaceCaptured = ''workspace_state_captured''"
| "CoverageRequirement_text CoverageOutcomesComplete = ''outcome_observations_complete''"
| "CoverageRequirement_text (CoverageRequirementOther s) = s"

definition turnRoleOf :: "gostring \<Rightarrow> EvidenceTurnRole option" where
  "turnRoleOf s =
    (if s = [] then None
     else if s = ''user'' then Some EvidenceTurnUser
     else if s = ''assistant'' then Some EvidenceTurnAssistant
     else if s = ''tool_call'' then Some EvidenceTurnToolCall
     else if s = ''tool_result'' then Some EvidenceTurnToolResult
     else if s = ''system'' then Some EvidenceTurnSystem
     else if s = ''compaction_summary'' then Some EvidenceTurnCompactionSummary
     else Some (EvidenceTurnRoleOther s))"

definition trimTurnRole :: "EvidenceTurnRole option \<Rightarrow> EvidenceTurnRole option" where
  "trimTurnRole role =
    (case role of
       Some (EvidenceTurnRoleOther s) \<Rightarrow> turnRoleOf (trim_space s)
     | _ \<Rightarrow> role)"

section \<open>Normal forms\<close>

datatype canonical =
  CanonCandidate gostring CandidateFamily gostring gostring gostring
    "EvidenceRef list" "gostring list" "ExperienceRef list"
| CanonProposal gostring gostring gostring ExperienceProposal Harness gostring gostring gostring gostring
| CanonDecision gostring gostring gostring SemanticDisposition SemanticDecisionReasonCode gostring float64
    gostring Harness gostring gostring gostring gostring
| CanonExperience gostring gostring gostring
| CanonContent ExperienceType Scope Applicability Guidance Verifier
| CanonEvidence EvidenceAvailability "EvidenceRef list"
| CanonTransition ExperienceRef LifecycleState LifecycleState gostring TransitionActorKind gostring time
    "EvidenceRef list"
| CanonApplication gostring ExperienceRef gostring gostring DeliveryKind DeliveryState "time option"
| CanonEvaluation gostring gostring ExperienceRef time OpportunityState ApplicabilityState VerifierState
    TaskOutcomeState "CoverageRequirement list" "EvidenceRef list" gostring

record encoder =
  enc_condition :: "DeterministicCondition \<Rightarrow> gostring"
  enc_ref :: "EvidenceRef \<Rightarrow> gostring"
  enc_base32 :: "canonical \<Rightarrow> gostring"
  enc_hex :: "canonical \<Rightarrow> gostring"

definition deterministicID :: "encoder \<Rightarrow> gostring \<Rightarrow> canonical \<Rightarrow> gostring" where
  "deterministicID E idPrefix value = idPrefix @ to_lower (enc_base32 E value)"

definition contentHash :: "encoder \<Rightarrow> canonical \<Rightarrow> gostring" where
  "contentHash E value = ''sha256:'' @ enc_hex E value"

definition normalizedStrings :: "gostring list \<Rightarrow> gostring list" where
  "normalizedStrings values = compactComparable (sort (filter (\<lambda>v. v \<noteq> []) (map trim_space values)))"

definition normalizeSupportRefs :: "gostring list \<Rightarrow> gostring list" where
  "normalizeSupportRefs values = compactComparable (sort (map trim_space values))"

definition normalizedEvidenceSupport :: "EvidenceSupport option \<Rightarrow> EvidenceSupport option" where
  "normalizedEvidenceSupport value =
    map_option (\<lambda>v. \<lparr>esp_GuidanceRefs = normalizeSupportRefs (esp_GuidanceRefs v),
      esp_ExceptionRefs = map normalizeSupportRefs (esp_ExceptionRefs v),
      esp_VerifierRefs = normalizeSupportRefs (esp_VerifierRefs v)\<rparr>) value"

definition normalizedScope :: "Scope \<Rightarrow> Scope" where
  "normalizedScope value =
    value\<lparr>scp_ProjectIdentity := trim_space (scp_ProjectIdentity value),
      scp_SessionKey := trim_space (scp_SessionKey value),
      scp_RepositoryPaths := normalizedStrings (scp_RepositoryPaths value),
      scp_TaskFamilies := normalizedStrings (scp_TaskFamilies value),
      scp_Models := normalizedStrings (scp_Models value),
      scp_Harnesses := compactComparable (sort_key Harness_text (scp_Harnesses value))\<rparr>"

text \<open>\<open>compactConditions\<close> keeps a condition when its JSON text differs from that of the last one kept.\<close>

definition compactConditions :: "encoder \<Rightarrow> DeterministicCondition list \<Rightarrow> DeterministicCondition list" where
  "compactConditions E values =
    (case values of
       [] \<Rightarrow> []
     | v # vs \<Rightarrow>
         if length values < 2 then values
         else foldl (\<lambda>result c. if enc_condition E (last result) \<noteq> enc_condition E c then result @ [c] else result)
                [v] vs)"

definition normalizedApplicability :: "encoder \<Rightarrow> Applicability \<Rightarrow> Applicability" where
  "normalizedApplicability E value =
    value\<lparr>apl_SemanticDescription := trim_space (apl_SemanticDescription value),
      apl_Exclusions := normalizedStrings (apl_Exclusions value),
      apl_DeterministicConditions :=
        compactConditions E (sort_key (enc_condition E)
          (map (\<lambda>c. c\<lparr>dc_Values := normalizedStrings (dc_Values c)\<rparr>) (apl_DeterministicConditions value)))\<rparr>"

definition normalizedGuidance :: "Guidance \<Rightarrow> Guidance" where
  "normalizedGuidance value =
    value\<lparr>gd_Instruction := trim_space (gd_Instruction value),
      gd_Rationale := trim_space (gd_Rationale value),
      gd_Exceptions := normalizedStrings (gd_Exceptions value)\<rparr>"

definition normalizedCoverage :: "CoverageRequirement list \<Rightarrow> CoverageRequirement list" where
  "normalizedCoverage values = compactComparable (sort_key CoverageRequirement_text values)"

definition normalizedVerifier :: "Verifier \<Rightarrow> Verifier" where
  "normalizedVerifier value =
    value\<lparr>vf_CoverageRequirements := normalizedCoverage (vf_CoverageRequirements value),
      vf_PathPattern := map_option (\<lambda>v. v\<lparr>pvs_Patterns := normalizedStrings (pvs_Patterns v)\<rparr>) (vf_PathPattern value),
      vf_VerificationAfterLastEdit := map_option
        (\<lambda>v. v\<lparr>vle_CommandClasses := normalizedStrings (vle_CommandClasses v)\<rparr>) (vf_VerificationAfterLastEdit value),
      vf_UserCorrectionAbsent := map_option
        (\<lambda>v. v\<lparr>uca_MarkerFamilies := normalizedStrings (uca_MarkerFamilies v)\<rparr>) (vf_UserCorrectionAbsent value)\<rparr>"

definition trimmedRef :: "EvidenceRef \<Rightarrow> EvidenceRef" where
  "trimmedRef r =
    r\<lparr>er_SessionKey := trim_space (er_SessionKey r), er_TurnRole := trimTurnRole (er_TurnRole r),
      er_ToolName := trim_space (er_ToolName r), er_EventID := trim_space (er_EventID r),
      er_OutcomeID := trim_space (er_OutcomeID r), er_Path := trim_space (er_Path r),
      er_SHA256 := trim_space (er_SHA256 r), er_RecordedBy := trim_space (er_RecordedBy r),
      er_Excerpt := trim_space (er_Excerpt r)\<rparr>"

definition normalizedEvidenceRefs :: "encoder \<Rightarrow> EvidenceRef list \<Rightarrow> EvidenceRef list" where
  "normalizedEvidenceRefs E values = sort_key (enc_ref E) (map trimmedRef values)"

section \<open>Identifiers\<close>

definition Candidate_DeterministicID :: "encoder \<Rightarrow> Candidate \<Rightarrow> gostring" where
  "Candidate_DeterministicID E value =
    deterministicID E ''exc_'' (CanonCandidate CandidateSchemaVersion (cd_Family value)
      (trim_space (cd_ProjectIdentity value)) (trim_space (cd_ObservedBehavior value))
      (trim_space (cd_UserFeedback value)) (normalizedEvidenceRefs E (es_Refs (cd_Evidence value)))
      (normalizedStrings (cd_OutcomeRefs value))
      (sort_key (\<lambda>r. (xr_ExperienceID r, xr_Version r)) (cd_ExistingRefs value)))"

definition SemanticProposal_DeterministicID :: "encoder \<Rightarrow> SemanticProposal \<Rightarrow> gostring" where
  "SemanticProposal_DeterministicID E value =
    (let p = sp_Proposal value; v = sp_Provenance value in
     deterministicID E ''exs_'' (CanonProposal SemanticProposalSchemaVersion (trim_space (sp_CandidateID value))
       (trim_space (sp_ProjectIdentity value))
       \<lparr>xp_Type = xp_Type p, xp_Scope = normalizedScope (xp_Scope p),
        xp_Applicability = normalizedApplicability E (xp_Applicability p),
        xp_Guidance = normalizedGuidance (xp_Guidance p), xp_Verifier = normalizedVerifier (xp_Verifier p),
        xp_EvidenceSupport = normalizedEvidenceSupport (xp_EvidenceSupport p),
        xp_Confidence = xp_Confidence p, xp_SemanticCompilationPending = False\<rparr>
       (spp_Harness v) (trim_space (spp_Model v)) (trim_space (spp_PromptVersion v))
       (trim_space (spp_InputHash v)) (trim_space (spp_OutputHash v))))"

definition SemanticDecision_DeterministicID :: "encoder \<Rightarrow> SemanticDecision \<Rightarrow> gostring" where
  "SemanticDecision_DeterministicID E value =
    (let v = sd_Provenance value in
     deterministicID E ''exd_'' (CanonDecision SemanticDecisionSchemaVersion (trim_space (sd_CandidateID value))
       (trim_space (sd_ProjectIdentity value)) (sd_Disposition value) (sd_ReasonCode value)
       (trim_space (sd_Explanation value)) (sd_Confidence value) (trim_space (sd_ProposalID value))
       (spp_Harness v) (trim_space (spp_Model v)) (trim_space (spp_PromptVersion v))
       (trim_space (spp_InputHash v)) (trim_space (spp_OutputHash v))))"

definition DeriveExperienceID :: "encoder \<Rightarrow> gostring \<Rightarrow> gostring \<Rightarrow> gostring" where
  "DeriveExperienceID E projectIdentity originCandidateID =
    deterministicID E ''exp_'' (CanonExperience ExperienceSchemaVersion (trim_space projectIdentity)
      (trim_space originCandidateID))"

definition Proposal_CanonicalContentHash :: "encoder \<Rightarrow> ExperienceProposal \<Rightarrow> gostring" where
  "Proposal_CanonicalContentHash E value =
    contentHash E (CanonContent (xp_Type value) (normalizedScope (xp_Scope value))
      (normalizedApplicability E (xp_Applicability value)) (normalizedGuidance (xp_Guidance value))
      (normalizedVerifier (xp_Verifier value)))"

definition Experience_CanonicalContentHash :: "encoder \<Rightarrow> Experience \<Rightarrow> gostring" where
  "Experience_CanonicalContentHash E value =
    Proposal_CanonicalContentHash E
      \<lparr>xp_Type = ex_Type value, xp_Scope = ex_Scope value, xp_Applicability = ex_Applicability value,
       xp_Guidance = ex_Guidance value, xp_Verifier = ex_Verifier value, xp_EvidenceSupport = None,
       xp_Confidence = None, xp_SemanticCompilationPending = False\<rparr>"

definition EvidenceSet_DeterministicID :: "encoder \<Rightarrow> EvidenceSet \<Rightarrow> gostring" where
  "EvidenceSet_DeterministicID E value =
    deterministicID E ''evs_'' (CanonEvidence (es_Availability value) (normalizedEvidenceRefs E (es_Refs value)))"

definition LifecycleTransition_DeterministicID :: "encoder \<Rightarrow> LifecycleTransition \<Rightarrow> gostring" where
  "LifecycleTransition_DeterministicID E value =
    deterministicID E ''ext_'' (CanonTransition (lt_Experience value) (lt_FromState value) (lt_ToState value)
      (trim_space (lt_ReasonCode value)) (lt_ActorKind value) (trim_space (lt_ActorID value))
      (lt_OccurredAt value) (normalizedEvidenceRefs E (lt_SourceEvidence value)))"

definition Application_DeterministicID :: "encoder \<Rightarrow> Application \<Rightarrow> gostring" where
  "Application_DeterministicID E value =
    deterministicID E ''exa_'' (CanonApplication ApplicationSchemaVersion (app_Experience value)
      (trim_space (app_ProjectIdentity value)) (trim_space (app_SessionKey value)) (app_DeliveryKind value)
      (app_DeliveryState value) (app_DeliveredAt value))"

definition Evaluation_DeterministicID :: "encoder \<Rightarrow> Evaluation \<Rightarrow> gostring" where
  "Evaluation_DeterministicID E value =
    deterministicID E ''exv_'' (CanonEvaluation EvaluationSchemaVersion (trim_space (evl_ApplicationID value))
      (evl_Experience value) (evl_EvaluatedAt value) (evl_OpportunityState value)
      (evl_ApplicabilityState value) (evl_VerifierState value) (evl_TaskOutcomeState value)
      (normalizedCoverage (evl_Coverage value)) (normalizedEvidenceRefs E (evl_SourceEvidence value))
      (trim_space (evl_DerivationVersion value)))"

section \<open>Normal forms are canonical\<close>

lemma normalizedStrings_set: "set (normalizedStrings xs) = trim_space ` set xs - {[]}"
  by (auto simp: normalizedStrings_def)

lemma normalizedStrings_props [simp]:
  "sorted (normalizedStrings xs)" "distinct (normalizedStrings xs)"
  using sorted_distinct_compact [of "sort (filter (\<lambda>v. v \<noteq> []) (map trim_space xs))"]
  by (simp_all add: normalizedStrings_def)

lemma normalizedStrings_cong:
  "trim_space ` set xs - {[]} = trim_space ` set ys - {[]} \<Longrightarrow> normalizedStrings xs = normalizedStrings ys"
  by (rule sorted_distinct_set_unique) (simp_all add: normalizedStrings_set)

lemma trim_image_idem: "trim_space ` (trim_space ` A - {[]}) - {[]} = trim_space ` A - {[]}"
proof -
  let ?B = "trim_space ` A - {[]}"
  have B: "trim_space x = x \<and> x \<noteq> []" if "x \<in> ?B" for x using that by auto
  have "trim_space ` ?B = ?B" using B by (intro equalityI subsetI) (metis imageE, metis imageI)
  then show ?thesis by blast
qed

lemma normalizedStrings_idem [simp]: "normalizedStrings (normalizedStrings xs) = normalizedStrings xs"
  by (rule normalizedStrings_cong) (simp add: normalizedStrings_set trim_image_idem)

lemma sorted_compact_key: "sorted (map f xs) \<Longrightarrow> sorted (map f (compactComparable xs))"
proof -
  have "sorted (map f xs) \<Longrightarrow> sorted (map f (remdups_adj xs))"
    by (induction xs rule: remdups_adj.induct) auto
  then show "sorted (map f xs) \<Longrightarrow> sorted (map f (compactComparable xs))" by (simp add: compact_eq)
qed

lemma compact_idem: "compactComparable (compactComparable xs) = compactComparable xs"
proof -
  have "remdups_adj (remdups_adj ys) = remdups_adj ys" for ys :: "'a list"
  proof (induction ys rule: remdups_adj.induct)
    case (3 x y xs)
    obtain zs where zs: "remdups_adj (y # xs) = y # zs" by (metis remdups_adj_Cons_alt)
    with 3 show ?case by auto
  qed simp_all
  then show ?thesis by (simp add: compact_eq)
qed

lemma compact_sort_key_idem [simp]:
  "compactComparable (sort_key f (compactComparable (sort_key f xs))) = compactComparable (sort_key f xs)"
  by (simp add: sort_key_id_if_sorted sorted_compact_key compact_idem)

text \<open>Conditions kept by \<open>compactConditions\<close> differ from their neighbours in JSON text.\<close>

fun steps_differ :: "('a \<Rightarrow> 'b) \<Rightarrow> 'a list \<Rightarrow> bool" where
  "steps_differ f (x # y # zs) \<longleftrightarrow> f x \<noteq> f y \<and> steps_differ f (y # zs)"
| "steps_differ f _ \<longleftrightarrow> True"

lemma steps_differ_snoc: "xs \<noteq> [] \<Longrightarrow> steps_differ f (xs @ [y]) \<longleftrightarrow> steps_differ f xs \<and> f (last xs) \<noteq> f y"
  by (induction f xs rule: steps_differ.induct) auto

abbreviation condition_step :: "encoder \<Rightarrow> DeterministicCondition list \<Rightarrow> DeterministicCondition \<Rightarrow> DeterministicCondition list" where
  "condition_step E \<equiv> \<lambda>result c. if enc_condition E (last result) \<noteq> enc_condition E c then result @ [c] else result"

lemma condition_fold_differ:
  "ys \<noteq> [] \<Longrightarrow> steps_differ (enc_condition E) ys \<Longrightarrow> steps_differ (enc_condition E) (foldl (condition_step E) ys vs)"
  by (induction vs arbitrary: ys) (simp_all add: steps_differ_snoc)

lemma condition_fold_id:
  "ys \<noteq> [] \<Longrightarrow> steps_differ (enc_condition E) (last ys # vs) \<Longrightarrow> foldl (condition_step E) ys vs = ys @ vs"
  by (induction vs arbitrary: ys) simp_all

lemma condition_fold_sorted:
  fixes k :: "DeterministicCondition \<Rightarrow> gostring"
  shows "ys \<noteq> [] \<Longrightarrow> sorted (map k (ys @ vs)) \<Longrightarrow>
    sorted (map k (foldl (condition_step E) ys vs)) \<and> set (foldl (condition_step E) ys vs) \<subseteq> set ys \<union> set vs"
proof (induction vs arbitrary: ys)
  case (Cons v vs)
  have "sorted (map k (ys @ vs))" using Cons.prems(2) by (auto simp: sorted_append)
  moreover have "sorted (map k ((ys @ [v]) @ vs))" using Cons.prems(2) by simp
  ultimately show ?case using Cons.IH [of ys] Cons.IH [of "ys @ [v]"] Cons.prems(1) by auto
qed simp

lemma compactConditions_props:
  assumes "sorted (map (enc_condition E) cs)"
  shows "sorted (map (enc_condition E) (compactConditions E cs))"
    and "set (compactConditions E cs) \<subseteq> set cs"
    and "compactConditions E (compactConditions E cs) = compactConditions E cs"
proof -
  show 1: "sorted (map (enc_condition E) (compactConditions E cs))" and "set (compactConditions E cs) \<subseteq> set cs"
    using condition_fold_sorted [of "[hd cs]" "enc_condition E" "tl cs" E] assms
    by (auto simp: compactConditions_def split: list.splits)
  have "steps_differ (enc_condition E) (compactConditions E cs)"
  proof (cases cs)
    case (Cons v vs)
    then show ?thesis using condition_fold_differ [of "[v]" E vs]
      by (cases vs) (simp_all add: compactConditions_def)
  qed (simp add: compactConditions_def)
  moreover have "compactConditions E ds = ds" if "steps_differ (enc_condition E) ds" for ds
    using that condition_fold_id [of "[hd ds]" E "tl ds"] by (cases ds) (auto simp: compactConditions_def)
  ultimately show "compactConditions E (compactConditions E cs) = compactConditions E cs" by blast
qed

lemma normalizedScope_idem [simp]: "normalizedScope (normalizedScope s) = normalizedScope s"
  by (simp add: normalizedScope_def)

lemma normalizedGuidance_idem [simp]: "normalizedGuidance (normalizedGuidance g) = normalizedGuidance g"
  by (simp add: normalizedGuidance_def)

lemma normalizedVerifier_idem [simp]: "normalizedVerifier (normalizedVerifier v) = normalizedVerifier v"
  by (simp add: normalizedVerifier_def normalizedCoverage_def option.map_comp comp_def)

lemma normalizedApplicability_idem [simp]:
  "normalizedApplicability E (normalizedApplicability E a) = normalizedApplicability E a"
proof -
  let ?n = "\<lambda>c. c\<lparr>dc_Values := normalizedStrings (dc_Values c)\<rparr>"
  let ?cs = "sort_key (enc_condition E) (map ?n (apl_DeterministicConditions a))"
  let ?ds = "compactConditions E ?cs"
  note props = compactConditions_props [of E ?cs]
  have "?n c = c" if "c \<in> set ?ds" for c using props(2) that by auto
  then have "map ?n ?ds = ?ds" by (rule map_idI)
  with props show ?thesis by (simp add: normalizedApplicability_def sort_key_id_if_sorted)
qed

section \<open>Properties\<close>

definition normal_proposal :: "encoder \<Rightarrow> ExperienceProposal \<Rightarrow> ExperienceProposal" where
  "normal_proposal E p =
    p\<lparr>xp_Scope := normalizedScope (xp_Scope p), xp_Applicability := normalizedApplicability E (xp_Applicability p),
      xp_Guidance := normalizedGuidance (xp_Guidance p), xp_Verifier := normalizedVerifier (xp_Verifier p)\<rparr>"

text \<open>
  The content hash depends on the canonical content alone: normalizing is idempotent, so a
  proposal and its normal form have the same hash, and reordering, repeating or padding the entries
  of a scope's lists does not change it, whatever the JSON encoder and the digest are.
\<close>

theorem content_hash_canonical:
  assumes "trim_space ` set paths - {[]} = trim_space ` set (scp_RepositoryPaths (xp_Scope p)) - {[]}"
    and "trim_space ` set families - {[]} = trim_space ` set (scp_TaskFamilies (xp_Scope p)) - {[]}"
    and "trim_space ` set models - {[]} = trim_space ` set (scp_Models (xp_Scope p)) - {[]}"
  shows "Proposal_CanonicalContentHash E (normal_proposal E p) = Proposal_CanonicalContentHash E p \<and>
    Proposal_CanonicalContentHash E (p\<lparr>xp_Scope := (xp_Scope p)\<lparr>scp_RepositoryPaths := paths,
      scp_TaskFamilies := families, scp_Models := models\<rparr>\<rparr>) = Proposal_CanonicalContentHash E p"
proof -
  note cong = assms [THEN normalizedStrings_cong]
  have "normalizedScope ((xp_Scope p)\<lparr>scp_RepositoryPaths := paths, scp_TaskFamilies := families, scp_Models := models\<rparr>) =
      normalizedScope (xp_Scope p)"
    by (simp add: normalizedScope_def cong)
  then show ?thesis by (simp add: Proposal_CanonicalContentHash_def normal_proposal_def)
qed

definition sample_proposal :: ExperienceProposal where
  "sample_proposal =
    \<lparr>xp_Type = ExperienceProcedure,
     xp_Scope = \<lparr>scp_Kind = ScopeProject, scp_ProjectIdentity = ''p'', scp_SessionKey = [],
       scp_RepositoryPaths = [''src''], scp_TaskFamilies = [], scp_Harnesses = [], scp_Models = []\<rparr>,
     xp_Applicability = \<lparr>apl_SemanticDescription = ''d'', apl_DeterministicConditions = [],
       apl_Exclusions = [], apl_ExpiresAt = None\<rparr>,
     xp_Guidance = \<lparr>gd_Instruction = ''i'', gd_Rationale = ''r'', gd_Exceptions = [],
       gd_InterventionStrength = InterventionAdvise\<rparr>,
     xp_Verifier = \<lparr>vf_Kind = VerifierFileModified, vf_CoverageRequirements = [], vf_Command = None,
       vf_File = Some \<lparr>fvs_Path = ''src/a''\<rparr>, vf_PathPattern = None, vf_VerificationAfterLastEdit = None,
       vf_NoRepeatFailure = None, vf_UserCorrectionAbsent = None, vf_ObservationOnly = None\<rparr>,
     xp_EvidenceSupport = None, xp_Confidence = None, xp_SemanticCompilationPending = False\<rparr>"

definition sample_encoder :: encoder where
  "sample_encoder = \<lparr>enc_condition = (\<lambda>c. []), enc_ref = (\<lambda>r. []), enc_base32 = (\<lambda>v. replicate 52 (CHR ''A'')),
     enc_hex = (\<lambda>v. replicate 64 (CHR ''0''))\<rparr>"

theorem content_hash_canonical_witness:
  "Proposal_CanonicalContentHash sample_encoder (sample_proposal\<lparr>xp_Scope := (xp_Scope sample_proposal)
    \<lparr>scp_RepositoryPaths := ['' src'', ''src'', []], scp_TaskFamilies := [[]], scp_Models := []\<rparr>\<rparr>) =
   Proposal_CanonicalContentHash sample_encoder sample_proposal"
proof -
  have "trim_space '' src'' = ''src''" "trim_space ''src'' = ''src''" by code_simp+
  then show ?thesis
    by (intro content_hash_canonical [THEN conjunct2]) (auto simp: sample_proposal_def)
qed

end
