(* ===== verification/Exp_Paths.thy ===== *)
theory Exp_Paths
  imports Exp_Normalize
begin

text \<open>
  The string validators of \<open>internal/experience/validate.go\<close>, each as whether it returns nil, and
  the path patterns of \<open>internal/experience/pathmatch.go\<close>, with the two functions of the package
  \<open>path\<close> they call: \<open>path.Clean\<close> and \<open>path.Match\<close>.
\<close>

section \<open>Text\<close>

abbreviation maxIdentifierBytes :: nat where "maxIdentifierBytes \<equiv> 256"
abbreviation maxPathBytes :: nat where "maxPathBytes \<equiv> 512"
abbreviation maxCommandBytes :: nat where "maxCommandBytes \<equiv> 16384"
abbreviation maxGuidanceBytes :: nat where "maxGuidanceBytes \<equiv> 2048"
abbreviation maxRationaleBytes :: nat where "maxRationaleBytes \<equiv> 8192"
abbreviation maxDecisionBytes :: nat where "maxDecisionBytes \<equiv> 1024"
abbreviation maxExcerptBytes :: nat where "maxExcerptBytes \<equiv> 16384"
abbreviation maxListItems :: nat where "maxListItems \<equiv> 128"

text \<open>A rune below 0x80 is one byte, and no other rune has such a byte.\<close>

definition hasControl :: "gostring \<Rightarrow> bool" where
  "hasControl value \<longleftrightarrow> (\<exists>c\<in>set value. byte c < 0x20 \<or> byte c = 0x7F)"

definition hasDisallowedControl :: "gostring \<Rightarrow> bool" where
  "hasDisallowedControl value \<longleftrightarrow>
    (\<exists>c\<in>set value. (byte c < 0x20 \<and> byte c \<noteq> 0x0A \<and> byte c \<noteq> 0x09) \<or> byte c = 0x7F)"

definition validateIdentifier :: "gostring \<Rightarrow> bool" where
  "validateIdentifier value =
    (if trim_space value = [] then False
     else if value \<noteq> trim_space value \<or> length value > maxIdentifierBytes \<or> \<not> utf8_valid value \<or>
       hasControl value then False
     else True)"

definition validateText :: "gostring \<Rightarrow> nat \<Rightarrow> bool \<Rightarrow> bool" where
  "validateText value limit required =
    (if required \<and> trim_space value = [] then False
     else if value = [] then True
     else if value \<noteq> trim_space value \<or> length value > limit \<or> \<not> utf8_valid value \<or>
       hasDisallowedControl value then False
     else True)"

definition validateOneLine :: "gostring \<Rightarrow> nat \<Rightarrow> bool \<Rightarrow> bool" where
  "validateOneLine value limit required =
    (if \<not> validateText value limit required then False
     else if CHR 0x0D \<in> set value \<or> CHR 0x0A \<in> set value then False
     else True)"

definition hex_byte :: "char \<Rightarrow> bool" where
  "hex_byte c \<longleftrightarrow>
    (48 \<le> byte c \<and> byte c \<le> 57) \<or> (97 \<le> byte c \<and> byte c \<le> 102) \<or> (65 \<le> byte c \<and> byte c \<le> 70)"

definition validSHA256 :: "gostring \<Rightarrow> bool" where
  "validSHA256 value =
    (if \<not> has_prefix value ''sha256:'' \<or> length value \<noteq> 7 + 64 then False
     else even (length (drop 7 value)) \<and> list_all hex_byte (drop 7 value) \<and> to_lower value = value)"

section \<open>Paths\<close>

text \<open>
  \<open>path.Clean\<close>: the elements kept so far are a stack with the last element on top; a dot-dot
  takes the element below it, or stays when there is none and the path is not rooted.
\<close>

definition clean_step :: "bool \<Rightarrow> gostring list \<Rightarrow> gostring \<Rightarrow> gostring list" where
  "clean_step rooted out seg =
    (if seg = [] \<or> seg = ''.'' then out
     else if seg = ''..'' then
       (case out of
          [] \<Rightarrow> if rooted then [] else [''..'']
        | s # rest \<Rightarrow> if s = ''..'' then ''..'' # out else rest)
     else seg # out)"

definition path_clean :: "gostring \<Rightarrow> gostring" where
  "path_clean value =
    (let rooted = has_prefix value ''/'';
         body = join_with ''/'' (rev (foldl (clean_step rooted) [] (split_on (CHR ''/'') value)))
     in if rooted then CHR ''/'' # body else if body = [] then ''.'' else body)"

definition glob_char :: "char \<Rightarrow> bool" where
  "glob_char c \<longleftrightarrow> c \<in> set ''*?[]{}''"

definition validateRelativePath :: "gostring \<Rightarrow> bool" where
  "validateRelativePath value =
    (if trim_space value = [] \<or> value \<noteq> trim_space value \<or> length value > maxPathBytes then False
     else if CHR 0x5C \<in> set value \<or> has_prefix value ''/'' \<or> CHR 0x00 \<in> set value then False
     else let cleaned = path_clean value in
       if cleaned = ''.'' \<or> cleaned \<noteq> value \<or> cleaned = ''..'' \<or> has_prefix cleaned ''../'' then False
       else if (\<exists>c\<in>set value. glob_char c) \<or> hasControl value then False
       else True)"

definition pattern_char :: "char \<Rightarrow> bool" where
  "pattern_char c \<longleftrightarrow>
    (97 \<le> byte c \<and> byte c \<le> 122) \<or> (65 \<le> byte c \<and> byte c \<le> 90) \<or> (48 \<le> byte c \<and> byte c \<le> 57) \<or>
    c \<in> set ''_-.@+*?''"

definition validateRelativePattern :: "gostring \<Rightarrow> bool" where
  "validateRelativePattern value =
    (if trim_space value = [] \<or> value \<noteq> trim_space value \<or> length value > maxPathBytes then False
     else if CHR 0x5C \<in> set value \<or> has_prefix value ''/'' \<or> CHR 0x00 \<in> set value then False
     else list_all (\<lambda>segment. if segment = [] \<or> segment = ''.'' \<or> segment = ''..'' then False
       else list_all pattern_char segment) (split_on (CHR ''/'') value))"

section \<open>Matching one segment\<close>

text \<open>
  \<open>path.Match\<close>: \<open>scanChunk\<close> splits off leading stars and the chunk up to the next star,
  \<open>getEsc\<close> reads a bound of a character class (None for a bad pattern), \<open>matchChunk\<close>
  matches a chunk without stars against the front of a name.
\<close>

fun scan_end :: "bool \<Rightarrow> gostring \<Rightarrow> gostring \<times> gostring" where
  "scan_end inrange [] = ([], [])"
| "scan_end inrange (c # cs) =
    (if c = CHR 0x5C then
       (case cs of
          [] \<Rightarrow> ([c], [])
        | d # ds \<Rightarrow> (let (chunk, rest) = scan_end inrange ds in (c # d # chunk, rest)))
     else if c = CHR ''*'' \<and> \<not> inrange then ([], c # cs)
     else let (chunk, rest) = scan_end (if c = CHR ''['' then True else if c = CHR '']'' then False else inrange) cs
       in (c # chunk, rest))"

definition scanChunk :: "gostring \<Rightarrow> bool \<times> gostring \<times> gostring" where
  "scanChunk p =
    (has_prefix p ''*'', scan_end False (dropWhile (\<lambda>c. c = CHR ''*'') p))"

definition getEsc :: "gostring \<Rightarrow> (int \<times> gostring) option" where
  "getEsc chunk =
    (case chunk of
       [] \<Rightarrow> None
     | c # cs \<Rightarrow>
       if c = CHR ''-'' \<or> c = CHR '']'' then None
       else if c = CHR 0x5C \<and> cs = [] then None
       else let body = (if c = CHR 0x5C then cs else chunk); (r, n) = decode_rune body in
         if r = 0xFFFD \<and> n = 1 then None
         else if drop n body = [] then None
         else Some (r, drop n body))"

lemma decode_rune_width: "s \<noteq> [] \<Longrightarrow> 1 \<le> snd (decode_rune s)"
  by (cases s) (simp_all add: decode_rune_def)

lemma getEsc_shorter: "getEsc chunk = Some (r, rest) \<Longrightarrow> length rest < length chunk"
proof -
  assume asm: "getEsc chunk = Some (r, rest)"
  then obtain c cs where chunk: "chunk = c # cs" by (cases chunk) (auto simp: getEsc_def)
  let ?body = "if c = CHR 0x5C then cs else chunk"
  from asm chunk have "?body \<noteq> []" and rest: "rest = drop (snd (decode_rune ?body)) ?body"
    by (auto simp: getEsc_def Let_def case_prod_beta split: if_splits)
  then have "length rest < length ?body"
    using decode_rune_width [of ?body] by (cases ?body) (auto simp: less_Suc_eq_le)
  with chunk show ?thesis by (auto split: if_splits)
qed

function class_ranges :: "int \<Rightarrow> bool \<Rightarrow> bool \<Rightarrow> gostring \<Rightarrow> (bool \<times> gostring) option" where
  "class_ranges r some_range matched chunk =
    (if some_range \<and> has_prefix chunk '']'' then Some (matched, drop 1 chunk)
     else case getEsc chunk of
       None \<Rightarrow> None
     | Some (lo, rest) \<Rightarrow>
       if has_prefix rest ''-'' then
         (case getEsc (drop 1 rest) of
            None \<Rightarrow> None
          | Some (hi, rest') \<Rightarrow> class_ranges r True (matched \<or> (lo \<le> r \<and> r \<le> hi)) rest')
       else class_ranges r True (matched \<or> lo = r) rest)"
  by pat_completeness auto

termination
  by (relation "measure (\<lambda>(r, some_range, matched, chunk). length chunk)")
    (fastforce dest: getEsc_shorter)+

declare class_ranges.simps [simp del]

lemma class_ranges_shorter: "class_ranges r b m chunk = Some (x, rest) \<Longrightarrow> length rest \<le> length chunk"
proof (induction r b m chunk rule: class_ranges.induct)
  case (1 r b m chunk)
  show ?case
  proof (cases "b \<and> has_prefix chunk '']''")
    case True
    with 1(3) show ?thesis by (subst (asm) class_ranges.simps) auto
  next
    case False
    with 1(3) obtain lo t where g: "getEsc chunk = Some (lo, t)"
      by (subst (asm) class_ranges.simps) (auto split: option.splits)
    show ?thesis
    proof (cases "has_prefix t ''-''")
      case True
      with 1(3) False g obtain hi u where h: "getEsc (drop 1 t) = Some (hi, u)"
        and c: "class_ranges r True (m \<or> (lo \<le> r \<and> r \<le> hi)) u = Some (x, rest)"
        by (subst (asm) class_ranges.simps) (auto split: option.splits)
      from 1(1) [OF False g _ True h _ c] have "length rest \<le> length u" by simp
      with getEsc_shorter [OF g] getEsc_shorter [OF h] show ?thesis by simp
    next
      case no: False
      with 1(3) False g have c: "class_ranges r True (m \<or> lo = r) t = Some (x, rest)"
        by (subst (asm) class_ranges.simps) auto
      from 1(2) [OF False g _ no c] getEsc_shorter [OF g] show ?thesis by simp
    qed
  qed
qed

datatype chunk_match = BadPattern | NoMatch | Rest gostring

function match_chunk :: "bool \<Rightarrow> gostring \<Rightarrow> gostring \<Rightarrow> chunk_match" where
  "match_chunk failed [] s = (if failed then NoMatch else Rest s)"
| "match_chunk failed (c # cs) s =
    (let failed = failed \<or> s = [] in
     if c = CHR ''['' then
       (let r = (if failed then 0 else fst (decode_rune s));
            s = (if failed then s else rune_rest s);
            negated = has_prefix cs ''^'' in
        case class_ranges r False False (if negated then drop 1 cs else cs) of
          None \<Rightarrow> BadPattern
        | Some (matched, rest) \<Rightarrow> match_chunk (failed \<or> matched = negated) rest s)
     else if c = CHR ''?'' then
       match_chunk (failed \<or> has_prefix s ''/'') cs (if failed then s else rune_rest s)
     else if c = CHR 0x5C \<and> cs = [] then BadPattern
     else
       (let (d, ds) = (if c = CHR 0x5C then (hd cs, tl cs) else (c, cs)) in
        match_chunk (failed \<or> hd s \<noteq> d) ds (if failed then s else tl s)))"
  by pat_completeness auto

termination
  by (relation "measure (\<lambda>(failed, chunk, s). length chunk)")
    (auto dest!: class_ranges_shorter split: if_splits)

text \<open>
  The star skips bytes until the chunk matches; a last chunk must exhaust the name.
\<close>

fun skip_match :: "gostring \<Rightarrow> bool \<Rightarrow> gostring \<Rightarrow> chunk_match" where
  "skip_match chunk limit [] = NoMatch"
| "skip_match chunk limit (c # cs) =
    (if c = CHR ''/'' then NoMatch
     else case match_chunk False chunk cs of
       BadPattern \<Rightarrow> BadPattern
     | NoMatch \<Rightarrow> skip_match chunk limit cs
     | Rest t \<Rightarrow> if limit \<and> t \<noteq> [] then skip_match chunk limit cs else Rest t)"

lemma scan_end_append: "fst (scan_end b p) @ snd (scan_end b p) = p"
  by (induction b p rule: scan_end.induct) (auto simp: Let_def case_prod_beta split: list.splits)

lemma scan_end_nonempty: "c \<noteq> CHR ''*'' \<Longrightarrow> fst (scan_end False (c # cs)) \<noteq> []"
proof (cases "c = CHR 0x5C")
  case True
  then show ?thesis by (cases cs) (simp_all add: Let_def case_prod_beta)
next
  case False
  moreover assume "c \<noteq> CHR ''*''"
  ultimately show ?thesis by (simp only: scan_end.simps if_False simp_thms Let_def case_prod_beta fst_conv list.distinct)
qed

lemma scanChunk_shorter: "p \<noteq> [] \<Longrightarrow> scanChunk p = (star, chunk, rest) \<Longrightarrow> length rest < length p"
proof -
  assume asm: "p \<noteq> []" "scanChunk p = (star, chunk, rest)"
  let ?q = "dropWhile (\<lambda>c. c = CHR ''*'') p"
  from asm(2) have q: "scan_end False ?q = (chunk, rest)" by (simp add: scanChunk_def)
  have len: "length ?q \<le> length p" by (rule length_dropWhile_le)
  have sum: "length chunk + length rest = length ?q"
    using scan_end_append [of False ?q] q by (metis fst_conv snd_conv length_append)
  obtain c cs where p: "p = c # cs" using asm(1) by (cases p) auto
  show ?thesis
  proof (cases "c = CHR ''*''")
    case True
    with p have "length ?q \<le> length cs" by (simp add: length_dropWhile_le)
    with sum p show ?thesis by simp
  next
    case False
    with q p scan_end_nonempty [OF False, of cs] have "chunk \<noteq> []" by simp
    with sum len show ?thesis by (cases chunk) auto
  qed
qed


function chunks_valid :: "gostring \<Rightarrow> bool" where
  "chunks_valid p =
    (if p = [] then True
     else let (star, chunk, rest) = scanChunk p in
       if match_chunk False chunk [] = BadPattern then False else chunks_valid rest)"
  by pat_completeness auto

termination
  by (relation "measure length") (auto dest!: scanChunk_shorter [rotated] dest: sym)

declare chunks_valid.simps [simp del]

function path_match :: "gostring \<Rightarrow> gostring \<Rightarrow> bool option" where
  "path_match p name =
    (if p = [] then Some (name = [])
     else let (star, chunk, rest) = scanChunk p in
       if star \<and> chunk = [] then Some (CHR ''/'' \<notin> set name)
       else let direct = match_chunk False chunk name;
                limit = (rest = []);
                found =
                  (case direct of
                     BadPattern \<Rightarrow> BadPattern
                   | NoMatch \<Rightarrow> if star then skip_match chunk limit name else NoMatch
                   | Rest t \<Rightarrow>
                       if t = [] \<or> \<not> limit then Rest t
                       else if star then skip_match chunk limit name else NoMatch)
         in (case found of
               BadPattern \<Rightarrow> None
             | NoMatch \<Rightarrow> if chunks_valid rest then Some False else None
             | Rest t \<Rightarrow> path_match rest t))"
  by pat_completeness auto

termination
  by (relation "measure (\<lambda>(p, name). length p)") (auto dest!: scanChunk_shorter [rotated] dest: sym)

declare path_match.simps [simp del]
declare match_chunk.simps(2) [simp del]

section \<open>Path patterns\<close>

function match_parts :: "gostring list \<Rightarrow> gostring list \<Rightarrow> bool" where
  "match_parts [] files = (files = [])"
| "match_parts (p # ps) files =
    (if p = ''**'' then
       (if match_parts ps files then True
        else if files = [] then False else match_parts (p # ps) (tl files))
     else if files = [] then False
     else if path_match p (hd files) \<noteq> Some True then False
     else match_parts ps (tl files))"
  by pat_completeness auto

termination
  by (relation "measure (\<lambda>(ps, files). length ps + length files)") auto

declare match_parts.simps(2) [simp del]

definition RelativePathPatternMatches :: "gostring \<Rightarrow> gostring \<Rightarrow> bool" where
  "RelativePathPatternMatches p file =
    match_parts (split_on (CHR ''/'') p) (split_on (CHR ''/'') file)"

fun fileMatchesAnyRelativePathPattern :: "gostring \<Rightarrow> gostring list \<Rightarrow> bool" where
  "fileMatchesAnyRelativePathPattern file [] = False"
| "fileMatchesAnyRelativePathPattern file (p # ps) =
    (if RelativePathPatternMatches p file then True else fileMatchesAnyRelativePathPattern file ps)"

lemma fileMatchesAny_iff:
  "fileMatchesAnyRelativePathPattern file ps \<longleftrightarrow> (\<exists>p\<in>set ps. RelativePathPatternMatches p file)"
  by (induction ps) auto

section \<open>What a pattern means\<close>

text \<open>
  The specification: a star stands for any bytes, a question mark for one, and a two-star segment
  for any number of segments.
\<close>

fun glob :: "gostring \<Rightarrow> gostring \<Rightarrow> bool" where
  "glob [] s = (s = [])"
| "glob (p # ps) [] = (p = CHR ''*'' \<and> glob ps [])"
| "glob (p # ps) (c # s) =
    (if p = CHR ''*'' then glob ps (c # s) \<or> glob (p # ps) s
     else (p = CHR ''?'' \<or> p = c) \<and> glob ps s)"

inductive path_pattern :: "gostring list \<Rightarrow> gostring list \<Rightarrow> bool" where
  done_both: "path_pattern [] []"
| deep: "path_pattern ps fs \<Longrightarrow> path_pattern (''**'' # ps) (gs @ fs)"
| segment: "p \<noteq> ''**'' \<Longrightarrow> glob p f \<Longrightarrow> path_pattern ps fs \<Longrightarrow> path_pattern (p # ps) (f # fs)"

inductive_cases path_pattern_nilE: "path_pattern [] fs"
inductive_cases path_pattern_deepE: "path_pattern (''**'' # ps) fs"
inductive_cases path_pattern_segmentE: "path_pattern (p # ps) fs"

definition plain_pattern :: "gostring \<Rightarrow> bool" where
  "plain_pattern p \<longleftrightarrow> CHR ''['' \<notin> set p \<and> CHR 0x5C \<notin> set p"

definition plain_name :: "gostring \<Rightarrow> bool" where
  "plain_name s \<longleftrightarrow> (\<forall>c\<in>set s. byte c < 0x80 \<and> c \<noteq> CHR ''/'')"

fun fits :: "gostring \<Rightarrow> gostring \<Rightarrow> bool" where
  "fits [] s = True"
| "fits (p # ps) [] = False"
| "fits (p # ps) (c # s) = ((p = CHR ''?'' \<or> p = c) \<and> fits ps s)"

lemma match_chunk_plain_step:
  assumes "c \<noteq> CHR ''[''" and "c \<noteq> CHR 0x5C"
  shows "match_chunk True (c # cs) s = match_chunk True cs s"
    and "match_chunk False (c # cs) [] = match_chunk True cs []"
    and "match_chunk False (c # cs) (d # s) =
      (if c = CHR ''?'' then match_chunk (d = CHR ''/'') cs (rune_rest (d # s))
       else match_chunk (d \<noteq> c) cs s)"
proof -
  show "match_chunk True (c # cs) s = match_chunk True cs s"
    using assms by (subst match_chunk.simps) (simp add: Let_def)
  show "match_chunk False (c # cs) [] = match_chunk True cs []"
    using assms by (subst match_chunk.simps) (simp add: Let_def)
  show "match_chunk False (c # cs) (d # s) =
      (if c = CHR ''?'' then match_chunk (d = CHR ''/'') cs (rune_rest (d # s)) else match_chunk (d \<noteq> c) cs s)"
    using assms by (subst match_chunk.simps) (simp add: Let_def has_prefix_def)
qed

lemma match_chunk_failed:
  "plain_pattern chunk \<Longrightarrow> match_chunk True chunk s = NoMatch"
proof (induction chunk arbitrary: s)
  case (Cons c cs)
  then have "c \<noteq> CHR ''[''" "c \<noteq> CHR 0x5C" "plain_pattern cs" by (auto simp: plain_pattern_def)
  with Cons.IH show ?case by (simp add: match_chunk_plain_step)
qed simp

lemma match_chunk_plain:
  "plain_pattern chunk \<Longrightarrow> plain_name s \<Longrightarrow>
    match_chunk False chunk s = (if fits chunk s then Rest (drop (length chunk) s) else NoMatch)"
proof (induction chunk s rule: fits.induct)
  case (2 p ps)
  then have "p \<noteq> CHR ''[''" "p \<noteq> CHR 0x5C" "plain_pattern ps" by (auto simp: plain_pattern_def)
  then show ?case by (simp add: match_chunk_plain_step match_chunk_failed)
next
  case (3 p ps c s)
  then have p: "p \<noteq> CHR ''[''" "p \<noteq> CHR 0x5C" "plain_pattern ps"
    and c: "byte c < 0x80" "c \<noteq> CHR ''/''" "plain_name s"
    by (auto simp: plain_pattern_def plain_name_def)
  have step: "match_chunk False (p # ps) (c # s) =
      (if p = CHR ''?'' then match_chunk False ps s else match_chunk (c \<noteq> p) ps s)"
    using match_chunk_plain_step(3) [OF p(1,2), of ps c s] rune_rest_ascii [OF c(1)] c(2) by simp
  show ?case
  proof (cases "p = CHR ''?'' \<or> p = c")
    case True
    with step have "match_chunk False (p # ps) (c # s) = match_chunk False ps s" by (auto split: if_splits)
    with 3(1) [OF p(3) c(3)] True show ?thesis by simp
  next
    case False
    with step have "match_chunk False (p # ps) (c # s) = match_chunk True ps s" by auto
    with False match_chunk_failed [OF p(3)] show ?thesis by simp
  qed
qed simp

lemma glob_fits:
  "CHR ''*'' \<notin> set chunk \<Longrightarrow> glob (chunk @ rest) s \<longleftrightarrow> fits chunk s \<and> glob rest (drop (length chunk) s)"
  by (induction chunk s rule: fits.induct) auto

lemma glob_star_star: "glob (CHR ''*'' # CHR ''*'' # q) s = glob (CHR ''*'' # q) s"
  by (induction s) auto

lemma glob_star_suffix: "glob (CHR ''*'' # q) s \<Longrightarrow> glob (CHR ''*'' # q) (u @ s)"
  by (induction u) auto

fun seek :: "gostring \<Rightarrow> bool \<Rightarrow> gostring \<Rightarrow> gostring option" where
  "seek chunk limit u =
    (if fits chunk u \<and> (limit \<longrightarrow> drop (length chunk) u = []) then Some (drop (length chunk) u)
     else case u of [] \<Rightarrow> None | c # cs \<Rightarrow> seek chunk limit cs)"

declare seek.simps [simp del]

lemma drop_tail: "\<exists>v. drop n (c # cs) = v @ drop n cs"
proof (induction n arbitrary: c cs)
  case (Suc n)
  show ?case
  proof (cases cs)
    case (Cons d ds)
    with Suc [of d ds] show ?thesis by simp
  qed simp
qed simp

lemma seek_suffix: "seek chunk limit u = Some t \<Longrightarrow> \<exists>w. drop (length chunk) u = w @ t"
proof (induction u)
  case (Cons c cs)
  show ?case
  proof (cases "seek chunk limit cs = Some t \<and> length chunk \<le> length (c # cs)")
    case True
    with Cons(1) obtain w where w: "drop (length chunk) cs = w @ t" by blast
    have "\<exists>v. drop (length chunk) (c # cs) = v @ drop (length chunk) cs"
      by (rule drop_tail)
    with w show ?thesis by (metis append.assoc)
  next
    case False
    with Cons show ?thesis by (subst (asm) seek.simps) (auto split: if_splits)
  qed
qed (simp add: seek.simps split: if_splits)

lemma glob_seek:
  assumes "CHR ''*'' \<notin> set chunk" and "rest = [] \<or> (\<exists>q. rest = CHR ''*'' # q)"
  shows "glob (CHR ''*'' # chunk @ rest) u \<longleftrightarrow>
    (case seek chunk (rest = []) u of None \<Rightarrow> False | Some t \<Rightarrow> glob rest t)"
proof (induction u)
  case Nil
  then show ?case using glob_fits [OF assms(1), of rest "[]"] by (subst seek.simps) auto
next
  case (Cons c cs)
  let ?d = "drop (length chunk) (c # cs)"
  show ?case
  proof (cases "fits chunk (c # cs) \<and> (rest = [] \<longrightarrow> ?d = [])")
    case True
    then have s: "seek chunk (rest = []) (c # cs) = Some ?d" by (subst seek.simps) simp
    have "glob rest ?d" if tail: "glob (CHR ''*'' # chunk @ rest) cs"
    proof (cases "rest = []")
      case False
      with assms(2) obtain q where q: "rest = CHR ''*'' # q" by blast
      from tail Cons obtain t where t: "seek chunk (rest = []) cs = Some t" "glob rest t"
        by (auto split: option.splits)
      from seek_suffix [OF t(1)] obtain w where w: "drop (length chunk) cs = w @ t" by blast
      have "\<exists>v. ?d = v @ drop (length chunk) cs"
      by (rule drop_tail)
      with w have "\<exists>v. ?d = v @ t" by (metis append.assoc)
      with t(2) q glob_star_suffix show ?thesis by metis
    qed (use True in simp)
    with True s glob_fits [OF assms(1), of rest "c # cs"] show ?thesis by auto
  next
    case False
    then have "seek chunk (rest = []) (c # cs) = seek chunk (rest = []) cs" by (subst seek.simps) auto
    moreover have "\<not> glob (chunk @ rest) (c # cs)"
      using False glob_fits [OF assms(1), of rest "c # cs"] by auto
    ultimately show ?thesis using Cons by simp
  qed
qed

lemma skip_match_seek:
  assumes "plain_pattern chunk" and "plain_name s"
  shows "skip_match chunk limit s =
    (case s of [] \<Rightarrow> NoMatch
     | c # cs \<Rightarrow> (case seek chunk limit cs of None \<Rightarrow> NoMatch | Some t \<Rightarrow> Rest t))"
  using assms(2)
proof (induction s)
  case (Cons c cs)
  then have c: "c \<noteq> CHR ''/''" and cs: "plain_name cs" by (auto simp: plain_name_def)
  have "skip_match chunk limit cs = (case cs of [] \<Rightarrow> NoMatch
     | d # ds \<Rightarrow> (case seek chunk limit ds of None \<Rightarrow> NoMatch | Some t \<Rightarrow> Rest t))"
    by (rule Cons.IH [OF cs])
  then show ?case
    unfolding skip_match.simps(2)
    using c match_chunk_plain [OF assms(1) cs] seek.simps [of chunk limit cs]
    by (auto simp del: skip_match.simps split: list.splits)
qed simp

lemma found_seek:
  assumes "plain_pattern chunk" and "plain_name s"
  shows "(case match_chunk False chunk s of
      BadPattern \<Rightarrow> BadPattern
    | NoMatch \<Rightarrow> skip_match chunk limit s
    | Rest t \<Rightarrow> if t = [] \<or> \<not> limit then Rest t else skip_match chunk limit s) =
    (case seek chunk limit s of None \<Rightarrow> NoMatch | Some t \<Rightarrow> Rest t)"
  unfolding match_chunk_plain [OF assms] skip_match_seek [OF assms]
  by (subst seek.simps) (auto split: list.splits)

lemma scan_end_plain:
  "plain_pattern p \<Longrightarrow> scan_end False p = (takeWhile (\<lambda>c. c \<noteq> CHR ''*'') p, dropWhile (\<lambda>c. c \<noteq> CHR ''*'') p)"
  by (induction p) (auto simp: plain_pattern_def Let_def)

lemma plain_pattern_append [simp]: "plain_pattern (u @ v) \<longleftrightarrow> plain_pattern u \<and> plain_pattern v"
  by (auto simp: plain_pattern_def)

lemma scanChunk_plain:
  assumes "plain_pattern p" and "scanChunk p = (star, chunk, rest)"
  shows "plain_pattern chunk" and "plain_pattern rest" and "CHR ''*'' \<notin> set chunk"
    and "rest = [] \<or> (\<exists>q. rest = CHR ''*'' # q)"
    and "if star then \<forall>s. glob p s = glob (CHR ''*'' # chunk @ rest) s else p = chunk @ rest"
    and "chunk = [] \<Longrightarrow> rest = []"
proof -
  let ?q = "dropWhile (\<lambda>c. c = CHR ''*'') p"
  have plain: "plain_pattern ?q"
    using assms(1) set_dropWhileD [of _ "\<lambda>c. c = CHR ''*''" p] by (auto simp: plain_pattern_def)
  with assms(2) have chunk: "chunk = takeWhile (\<lambda>c. c \<noteq> CHR ''*'') ?q"
    and rest: "rest = dropWhile (\<lambda>c. c \<noteq> CHR ''*'') ?q" and star: "star = has_prefix p ''*''"
    by (simp_all add: scanChunk_def scan_end_plain)
  have q: "?q = chunk @ rest" unfolding chunk rest by simp
  with plain show "plain_pattern chunk" "plain_pattern rest" by (metis plain_pattern_append)+
  show "CHR ''*'' \<notin> set chunk" unfolding chunk using set_takeWhileD by fastforce
  show "rest = [] \<or> (\<exists>q. rest = CHR ''*'' # q)"
  proof (cases rest)
    case (Cons c q)
    with hd_dropWhile [of "\<lambda>c. c \<noteq> CHR ''*''" ?q] have "c = CHR ''*''"
      unfolding rest [symmetric] by simp
    with Cons show ?thesis by simp
  qed simp
  have hd: "?q = [] \<or> hd ?q \<noteq> CHR ''*''" using hd_dropWhile [of "\<lambda>c. c = CHR ''*''" p] by auto
  show "chunk = [] \<Longrightarrow> rest = []"
    using hd \<open>rest = [] \<or> (\<exists>q. rest = CHR ''*'' # q)\<close> q by auto
  show "if star then \<forall>s. glob p s = glob (CHR ''*'' # chunk @ rest) s else p = chunk @ rest"
  proof (cases star)
    case True
    have drop: "glob (CHR ''*'' # r) s = glob (CHR ''*'' # dropWhile (\<lambda>c. c = CHR ''*'') r) s" for r s
      by (induction r) (simp_all add: glob_star_star del: glob.simps)
    obtain r where r: "p = CHR ''*'' # r" using True star by (auto simp: has_prefix_iff)
    then have "dropWhile (\<lambda>c. c = CHR ''*'') r = chunk @ rest" using q by simp
    with drop [of r] r True show ?thesis by metis
  next
    case False
    then have "?q = p" using star by (cases p) (auto simp: has_prefix_iff)
    with False q show ?thesis by simp
  qed
qed

lemma chunks_valid_plain: "plain_pattern p \<Longrightarrow> chunks_valid p"
proof (induction p rule: measure_induct_rule [of length])
  case (less p)
  obtain star chunk rest where scan: "scanChunk p = (star, chunk, rest)" by (metis prod_cases3)
  note plain = scanChunk_plain [OF less(2) scan]
  show ?case
  proof (cases "p = []")
    case False
    have "match_chunk False chunk [] \<noteq> BadPattern"
      using match_chunk_plain [OF plain(1), of "[]"] by (simp add: plain_name_def)
    moreover have "chunks_valid rest" using less(1) plain(2) scanChunk_shorter [OF False scan] by simp
    ultimately show ?thesis by (subst chunks_valid.simps) (simp add: scan)
  qed (simp add: chunks_valid.simps)
qed

lemma plain_name_suffix: "plain_name (u @ v) \<Longrightarrow> plain_name v"
  by (simp add: plain_name_def)

lemma plain_name_drop: "plain_name s \<Longrightarrow> plain_name (drop n s)"
  by (metis append_take_drop_id plain_name_suffix)

lemma glob_star: "glob (CHR ''*'' # []) s"
  by (induction s) auto

lemma path_match_glob: "plain_pattern p \<Longrightarrow> plain_name s \<Longrightarrow> path_match p s = Some (glob p s)"
proof (induction p arbitrary: s rule: measure_induct_rule [of length])
  case (less p)
  obtain star chunk rest where scan: "scanChunk p = (star, chunk, rest)" by (metis prod_cases3)
  note plain = scanChunk_plain [OF less(2) scan]
  show ?case
  proof (cases "p = []")
    case False
    have IH: "path_match rest t = Some (glob rest t)" if "plain_name t" for t
      using less(1) [OF scanChunk_shorter [OF False scan] plain(2) that] .
    note valid = chunks_valid_plain [OF plain(2)]
    show ?thesis
    proof (cases star)
      case True
      note g = plain(5) [unfolded if_P [OF True], rule_format, of s]
      show ?thesis
      proof (cases "chunk = []")
        case True
        with \<open>star\<close> False scan plain(6) g glob_star less(3) show ?thesis
          by (subst path_match.simps) (auto simp: plain_name_def)
      next
        case nonempty: False
        have tail: "plain_name t" if "seek chunk (rest = []) s = Some t" for t
          using seek_suffix [OF that] plain_name_drop [OF less(3)] plain_name_suffix by metis
        show ?thesis
          unfolding g glob_seek [OF plain(3,4)] using found_seek [OF plain(1) less(3), of "rest = []"]
          using True False nonempty valid IH [OF tail]
          by (subst path_match.simps) (simp add: scan Let_def split: option.splits)
      qed
    next
      case no: False
      then have p: "p = chunk @ rest" using plain(5) by simp
      have g: "glob p s \<longleftrightarrow> fits chunk s \<and> glob rest (drop (length chunk) s)"
        unfolding p by (rule glob_fits [OF plain(3)])
      show ?thesis
        unfolding g using no False valid IH [OF plain_name_drop [OF less(3), of "length chunk"]]
          match_chunk_plain [OF plain(1) less(3)]
        by (subst path_match.simps) (cases "rest = []"; auto simp: scan Let_def)
    qed
  qed (simp add: path_match.simps)
qed

lemma match_parts_spec:
  assumes "\<forall>p\<in>set ps. plain_pattern p" and "\<forall>f\<in>set fs. plain_name f"
  shows "match_parts ps fs \<longleftrightarrow> path_pattern ps fs"
  using assms
proof (induction ps fs rule: match_parts.induct)
  case (1 files)
  show ?case by (auto intro: path_pattern.intros elim: path_pattern_nilE)
next
  case (2 p ps files)
  show ?case
  proof (cases "p = ''**''")
    case True
    have deep_iff: "path_pattern (''**'' # ps) files \<longleftrightarrow>
        path_pattern ps files \<or> (files \<noteq> [] \<and> path_pattern (''**'' # ps) (tl files))"
    proof
      assume "path_pattern (''**'' # ps) files"
      then obtain gs fs where fs: "files = gs @ fs" "path_pattern ps fs"
        by (cases rule: path_pattern.cases) auto
      then show "path_pattern ps files \<or> (files \<noteq> [] \<and> path_pattern (''**'' # ps) (tl files))"
        by (cases gs) (auto intro: deep)
    next
      assume asm: "path_pattern ps files \<or> (files \<noteq> [] \<and> path_pattern (''**'' # ps) (tl files))"
      then show "path_pattern (''**'' # ps) files"
      proof
        assume "path_pattern ps files"
        from deep [OF this, of "[]"] show ?thesis by simp
      next
        assume tail: "files \<noteq> [] \<and> path_pattern (''**'' # ps) (tl files)"
        then obtain gs fs where "tl files = gs @ fs" "path_pattern ps fs"
          by (auto elim: path_pattern_deepE)
        with tail deep [of ps fs "hd files # gs"] show ?thesis by (metis append_Cons list.collapse)
      qed
    qed
    have "set (tl files) \<subseteq> set files" by (cases files) auto
    then have fs: "\<forall>f\<in>set (tl files). plain_name f" and ps: "\<forall>p\<in>set ps. plain_pattern p"
      using "2.prems" by auto
    have "match_parts ps files \<longleftrightarrow> path_pattern ps files" using "2.IH"(1) True ps "2.prems"(2) by simp
    moreover have "match_parts (p # ps) (tl files) \<longleftrightarrow> path_pattern (p # ps) (tl files)"
      if "\<not> match_parts ps files" "files \<noteq> []"
      using "2.IH"(2) [OF True that] "2.prems"(1) fs by simp
    ultimately show ?thesis
      using True deep_iff by (subst match_parts.simps) auto
  next
    case False
    then have seg: "path_pattern (p # ps) files \<longleftrightarrow> files \<noteq> [] \<and> glob p (hd files) \<and> path_pattern ps (tl files)"
      by (cases files) (auto intro!: segment elim!: path_pattern_segmentE simp del: glob.simps)
    show ?thesis
    proof (cases files)
      case (Cons f fs)
      with "2.prems" have pm: "path_match p f = Some (glob p f)" and ps: "\<forall>p\<in>set ps. plain_pattern p"
        and fs: "\<forall>f\<in>set fs. plain_name f" by (simp_all add: path_match_glob)
      have "match_parts ps fs \<longleftrightarrow> path_pattern ps fs" if "glob p f"
        using "2.IH"(3) [OF False] Cons pm ps fs that by simp
      with seg pm False Cons show ?thesis by (subst match_parts.simps) auto
    qed (use False seg in \<open>simp add: match_parts.simps\<close>)
  qed
qed

section \<open>Clean paths\<close>

definition normal_segment :: "gostring \<Rightarrow> bool" where
  "normal_segment s \<longleftrightarrow> s \<noteq> [] \<and> s \<noteq> ''.'' \<and> s \<noteq> ''..''"

definition clean_stack :: "gostring list \<Rightarrow> bool" where
  "clean_stack out \<longleftrightarrow> (\<exists>a n. out = a @ replicate n ''..'' \<and> (\<forall>s\<in>set a. normal_segment s))"

lemma clean_step_stack: "clean_stack out \<Longrightarrow> clean_stack (clean_step False out seg)"
proof -
  assume "clean_stack out"
  then obtain a n where out: "out = a @ replicate n ''..''" and a: "\<forall>s\<in>set a. normal_segment s"
    by (auto simp: clean_stack_def)
  consider "seg = [] \<or> seg = ''.''" | "seg = ''..''" "a = []" | b bs where "seg = ''..''" "a = b # bs"
    | "normal_segment seg"
    by (cases a) (auto simp: normal_segment_def)
  then show ?thesis
  proof cases
    case 1
    with out a show ?thesis by (auto simp: clean_step_def clean_stack_def)
  next
    case 2
    then have "clean_step False out seg = [] @ replicate (Suc n) ''..''"
      using out by (cases n) (simp_all add: clean_step_def)
    then show ?thesis unfolding clean_stack_def by (metis empty_iff empty_set)
  next
    case 3
    then have "clean_step False out seg = bs @ replicate n ''..''"
      using out a by (auto simp: clean_step_def normal_segment_def)
    with a 3 show ?thesis unfolding clean_stack_def by auto
  next
    case 4
    then have "clean_step False out seg = (seg # a) @ replicate n ''..''"
      using out by (simp add: clean_step_def normal_segment_def)
    with a 4 show ?thesis unfolding clean_stack_def by (metis set_ConsD)
  qed
qed

lemma clean_fold_stack: "clean_stack out \<Longrightarrow> clean_stack (foldl (clean_step False) out segs)"
  by (induction segs arbitrary: out) (simp_all add: clean_step_stack)

lemma clean_fold_set: "set (foldl (clean_step r) out segs) \<subseteq> set out \<union> set segs \<union> {''..''}"
proof (induction segs arbitrary: out)
  case (Cons s segs)
  have "set (clean_step r out s) \<subseteq> set out \<union> {s} \<union> {''..''}"
    by (auto simp: clean_step_def split: list.splits if_splits)
  with Cons [of "clean_step r out s"] show ?case by auto
qed auto

lemma clean_fold_normal:
  "\<forall>s\<in>set segs. normal_segment s \<Longrightarrow> foldl (clean_step r) out segs = rev segs @ out"
  by (induction segs arbitrary: out) (simp_all add: clean_step_def normal_segment_def)

lemma split_on_append_gen: "split_on sep (u @ sep # v) = split_on sep u @ split_on sep v"
  by (induction u) (auto split: list.splits)

lemma join_with_append:
  "xs \<noteq> [] \<Longrightarrow> ys \<noteq> [] \<Longrightarrow> join_with sep (xs @ ys) = join_with sep xs @ sep @ join_with sep ys"
proof (induction sep xs rule: join_with.induct)
  case (2 sep p)
  then show ?case by (cases ys) simp_all
qed simp_all

lemma validated_path_segments:
  assumes "validateRelativePath p"
  shows "\<forall>s\<in>set (split_on (CHR ''/'') p). normal_segment s"
proof -
  let ?out = "foldl (clean_step False) [] (split_on (CHR ''/'') p)"
  from assms have rel: "\<not> has_prefix p ''/''" and clean: "path_clean p = p" and dot: "path_clean p \<noteq> ''.''"
    and up: "p \<noteq> ''..''" "\<not> has_prefix p ''../''"
    by (auto simp: validateRelativePath_def Let_def split: if_splits)
  from rel clean dot have body: "join_with ''/'' (rev ?out) = p" and "p \<noteq> []"
    by (auto simp: path_clean_def Let_def split: if_splits)
  then have ne: "rev ?out \<noteq> []" by auto
  have "\<forall>s\<in>set (rev ?out). CHR ''/'' \<notin> set s"
    using clean_fold_set [of False "[]" "split_on (CHR ''/'') p"] split_on_parts [of "CHR ''/''" p] by fastforce
  from split_join [OF ne this] body have split: "split_on (CHR ''/'') p = rev ?out" by simp
  obtain a n where out: "?out = a @ replicate n ''..''" and a: "\<forall>s\<in>set a. normal_segment s"
    using clean_fold_stack [of "[]" "split_on (CHR ''/'') p"] by (auto simp: clean_stack_def)
  have "n = 0"
  proof (rule ccontr)
    assume "n \<noteq> 0"
    then obtain m where "n = Suc m" by (cases n) auto
    with out have segs: "rev ?out = ''..'' # (replicate m ''..'' @ rev a)"
      by (simp add: replicate_append_same)
    have "p = ''..'' \<or> (\<exists>r. p = ''../'' @ r)"
      using body unfolding segs by (cases "replicate m ''..'' @ rev a") auto
    with up show False by (auto simp: has_prefix_iff)
  qed
  with split out a show ?thesis by simp
qed

section \<open>Properties\<close>

text \<open>
  C9. A validated path stays below any directory: it is relative, every segment names an entry (none
  is empty, a dot or a dot-dot), and cleaning its join with a rooted directory other than the root only
  cleans the directory, so no such path leaves the directory it is joined with (nothing is outside the root).
\<close>

theorem validated_path_is_contained:
  assumes "validateRelativePath p" and "has_prefix dir ''/''" and "path_clean dir \<noteq> ''/''"
  shows "path_clean (dir @ ''/'' @ p) = path_clean dir @ ''/'' @ p \<and>
    (\<forall>s\<in>set (split_on (CHR ''/'') p). normal_segment s)"
proof -
  note segs = validated_path_segments [OF assms(1)]
  let ?out = "foldl (clean_step True) [] (split_on (CHR ''/'') dir)"
  from assms(2) obtain r where "dir = ''/'' @ r" by (auto simp: has_prefix_iff)
  then have rooted: "has_prefix (dir @ ''/'' @ p) ''/''" by (simp add: has_prefix_iff)
  from assms(2,3) have ne: "?out \<noteq> []" by (auto simp: path_clean_def Let_def)
  have "split_on (CHR ''/'') (dir @ ''/'' @ p) = split_on (CHR ''/'') dir @ split_on (CHR ''/'') p"
    by (simp add: split_on_append_gen)
  then have "path_clean (dir @ ''/'' @ p) =
      CHR ''/'' # join_with ''/'' (rev ?out @ split_on (CHR ''/'') p)"
    using rooted segs by (simp add: path_clean_def Let_def clean_fold_normal)
  also have "\<dots> = path_clean dir @ ''/'' @ p"
    using assms(2) ne by (simp add: path_clean_def Let_def join_with_append join_split)
  finally show ?thesis using segs by blast
qed

theorem validated_path_is_contained_witness:
  "path_clean ''/home/../srv//p/src/a.go'' = ''/srv/p/src/a.go''"
proof -
  have "validateRelativePath ''src/a.go''" by code_simp
  moreover have "has_prefix ''/home/../srv//p'' ''/''" by code_simp
  moreover have dir: "path_clean ''/home/../srv//p'' = ''/srv/p''" by code_simp
  ultimately show ?thesis
    using validated_path_is_contained [of "''src/a.go''" "''/home/../srv//p''"] by simp
qed

lemma set_split_on: "x \<in> set (split_on sep s) \<Longrightarrow> set x \<subseteq> set s"
proof (induction s arbitrary: x)
  case (Cons a s)
  obtain q qs where q: "split_on sep s = q # qs" by (cases "split_on sep s") auto
  with Cons.IH have "set q \<subseteq> set s" "\<And>y. y \<in> set qs \<Longrightarrow> set y \<subseteq> set s" by simp_all
  with Cons.prems q show ?case by (auto split: if_splits)
qed simp

text \<open>
  C10. A validated pattern means what it says: on ASCII files the matcher, with the chunk scanning and
  the greedy stars of \<open>path.Match\<close>, accepts exactly the files whose segments follow the pattern,
  where a two-star segment stands for any number of segments, and within a segment a star stands for
  any bytes and a question mark for one.
\<close>

theorem pattern_matches_its_meaning:
  assumes "validateRelativePattern p" and "\<forall>c\<in>set file. byte c < 0x80"
  shows "RelativePathPatternMatches p file \<longleftrightarrow>
    path_pattern (split_on (CHR ''/'') p) (split_on (CHR ''/'') file)"
  unfolding RelativePathPatternMatches_def
proof (rule match_parts_spec)
  have "list_all pattern_char s" if "s \<in> set (split_on (CHR ''/'') p)" for s
    using assms(1) that by (auto simp: validateRelativePattern_def list_all_iff split: if_splits)
  moreover have "\<not> pattern_char (CHR ''['')" "\<not> pattern_char (CHR 0x5C)" by code_simp+
  ultimately show "\<forall>s\<in>set (split_on (CHR ''/'') p). plain_pattern s"
    by (auto simp: plain_pattern_def list_all_iff)
  show "\<forall>s\<in>set (split_on (CHR ''/'') file). plain_name s"
    using assms(2) set_split_on split_on_parts unfolding plain_name_def by blast
qed

theorem pattern_matches_its_meaning_witness:
  "RelativePathPatternMatches ''src/**/*_test.go'' ''src/a/b/x_test.go''"
proof -
  have "validateRelativePattern ''src/**/*_test.go''" by code_simp
  moreover have "list_all (\<lambda>c. byte c < 0x80) ''src/a/b/x_test.go''" by code_simp
  moreover have "path_pattern [''src'', ''**'', ''*_test.go''] ([''src''] @ [''a'', ''b''] @ [''x_test.go''])"
    by (simp, rule segment, simp, code_simp, rule deep [of _ _ "[''a'', ''b'']", simplified], rule segment,
      simp, code_simp, rule done_both)
  moreover have "split_on (CHR ''/'') ''src/**/*_test.go'' = [''src'', ''**'', ''*_test.go'']" by code_simp
  moreover have "split_on (CHR ''/'') ''src/a/b/x_test.go'' = [''src'', ''a'', ''b'', ''x_test.go'']" by code_simp
  ultimately show ?thesis
    using pattern_matches_its_meaning [of "''src/**/*_test.go''" "''src/a/b/x_test.go''"]
    by (simp add: list_all_iff)
qed

end
