(* ===== verification/Exp_Validate.thy ===== *)
theory Exp_Validate
  imports Exp_Paths
begin

text \<open>
  The \<open>Validate\<close> methods of \<open>internal/experience/validate.go\<close>, each as whether it returns
  nil: the conditions and their order are the code's, the texts of the errors are not modelled. A
  method that compares an identifier with the one derived from the content takes the encoder.
\<close>

section \<open>References and evidence\<close>

definition ExperienceRef_Validate :: "ExperienceRef \<Rightarrow> bool" where
  "ExperienceRef_Validate value =
    (if \<not> validateIdentifier (xr_ExperienceID value) then False
     else if xr_Version value < 1 then False
     else True)"

definition noTranscriptFields :: "EvidenceRef \<Rightarrow> bool" where
  "noTranscriptFields value \<longleftrightarrow>
    \<not> (er_SessionKey value \<noteq> [] \<or> er_TurnIndex value \<noteq> None \<or> er_TurnRole value \<noteq> None \<or>
       er_ToolName value \<noteq> [])"

definition EvidenceRef_Validate :: "EvidenceRef \<Rightarrow> bool" where
  "EvidenceRef_Validate value =
    (if \<not> EvidenceSourceKind_Valid (er_Kind value) then False
     else if er_Excerpt value \<noteq> [] \<and> \<not> validateText (er_Excerpt value) maxExcerptBytes False then False
     else if er_OccurredAt value = Some time_zero then False
     else case er_Kind value of
       EvidenceTranscriptTurn \<Rightarrow>
         if \<not> validateIdentifier (er_SessionKey value) then False
         else if (case er_TurnIndex value of None \<Rightarrow> True | Some i \<Rightarrow> i < 0) then False
         else if (case er_TurnRole value of None \<Rightarrow> False | Some r \<Rightarrow> \<not> EvidenceTurnRole_Valid r) then False
         else if er_ToolName value \<noteq> [] \<and> er_TurnRole value \<noteq> Some EvidenceTurnToolCall \<and>
           er_TurnRole value \<noteq> Some EvidenceTurnToolResult then False
         else if er_ToolName value \<noteq> [] \<and> \<not> validateText (er_ToolName value) 256 False then False
         else if er_EventID value \<noteq> [] \<or> er_OutcomeID value \<noteq> [] \<or> er_Path value \<noteq> [] \<or>
           er_SHA256 value \<noteq> [] \<or> er_RecordedBy value \<noteq> [] then False
         else True
     | EvidenceCanonicalEvent \<Rightarrow>
         if \<not> validateIdentifier (er_EventID value) then False
         else if \<not> noTranscriptFields value \<or> er_OutcomeID value \<noteq> [] \<or> er_Path value \<noteq> [] \<or>
           er_SHA256 value \<noteq> [] \<or> er_RecordedBy value \<noteq> [] then False
         else True
     | EvidenceOutcomeObservation \<Rightarrow>
         if \<not> validateIdentifier (er_OutcomeID value) then False
         else if \<not> noTranscriptFields value \<or> er_EventID value \<noteq> [] \<or> er_Path value \<noteq> [] \<or>
           er_SHA256 value \<noteq> [] \<or> er_RecordedBy value \<noteq> [] then False
         else True
     | EvidenceWorkspaceHash \<Rightarrow>
         if \<not> validateRelativePath (er_Path value) then False
         else if \<not> validSHA256 (er_SHA256 value) then False
         else if \<not> noTranscriptFields value \<or> er_EventID value \<noteq> [] \<or> er_OutcomeID value \<noteq> [] \<or>
           er_RecordedBy value \<noteq> [] then False
         else True
     | EvidenceUserRecorded \<Rightarrow>
         if \<not> validateIdentifier (er_RecordedBy value) then False
         else if \<not> noTranscriptFields value \<or> er_EventID value \<noteq> [] \<or> er_OutcomeID value \<noteq> [] \<or>
           er_Path value \<noteq> [] \<or> er_SHA256 value \<noteq> [] then False
         else True
     | _ \<Rightarrow> True)"

definition EvidenceSet_Validate :: "encoder \<Rightarrow> EvidenceSet \<Rightarrow> bool" where
  "EvidenceSet_Validate E value =
    (if \<not> EvidenceAvailability_Valid (es_Availability value) then False
     else if es_Refs value = [] \<or> length (es_Refs value) > maxListItems then False
     else if \<not> list_all EvidenceRef_Validate (es_Refs value) then False
     else if es_EvidenceSetID value = [] \<or> es_EvidenceSetID value \<noteq> EvidenceSet_DeterministicID E value then False
     else True)"

fun distinctIdentifiers :: "gostring list \<Rightarrow> gostring list \<Rightarrow> bool" where
  "distinctIdentifiers seen [] = True"
| "distinctIdentifiers seen (ref # refs) =
    (if \<not> validateIdentifier ref then False
     else if ref \<in> set seen then False
     else distinctIdentifiers (ref # seen) refs)"

definition EvidenceSupport_Validate :: "nat \<Rightarrow> EvidenceSupport \<Rightarrow> bool" where
  "EvidenceSupport_Validate exceptionCount value =
    (if esp_GuidanceRefs value = [] \<or> length (esp_GuidanceRefs value) > maxListItems \<or>
       esp_VerifierRefs value = [] \<or> length (esp_VerifierRefs value) > maxListItems \<or>
       length (esp_ExceptionRefs value) \<noteq> exceptionCount then False
     else list_all
       (\<lambda>refs. if refs = [] \<or> length refs > maxListItems then False else distinctIdentifiers [] refs)
       ([esp_GuidanceRefs value, esp_VerifierRefs value] @ esp_ExceptionRefs value))"

section \<open>Scope, applicability and guidance\<close>

definition Scope_Validate :: "Scope \<Rightarrow> bool" where
  "Scope_Validate value =
    (if \<not> ScopeKind_Valid (scp_Kind value) then False
     else if \<not> validateIdentifier (scp_ProjectIdentity value) then False
     else if scp_Kind value = ScopeSession \<and> \<not> validateIdentifier (scp_SessionKey value) then False
     else if scp_Kind value \<noteq> ScopeSession \<and> scp_SessionKey value \<noteq> [] then False
     else if length (scp_RepositoryPaths value) > maxListItems \<or> length (scp_TaskFamilies value) > maxListItems \<or>
       length (scp_Harnesses value) > maxListItems \<or> length (scp_Models value) > maxListItems then False
     else if \<not> list_all validateRelativePattern (scp_RepositoryPaths value) then False
     else if \<not> list_all validateIdentifier (scp_TaskFamilies value) then False
     else if \<not> list_all Harness_Valid (scp_Harnesses value) then False
     else if \<not> list_all validateIdentifier (scp_Models value) then False
     else True)"

definition DeterministicCondition_Validate :: "DeterministicCondition \<Rightarrow> bool" where
  "DeterministicCondition_Validate value =
    (if \<not> DeterministicConditionKind_Valid (dc_Kind value) then False
     else if dc_Values value = [] \<or> length (dc_Values value) > maxListItems then False
     else list_all (\<lambda>item. if dc_Kind value = ConditionPathPattern then validateRelativePattern item
       else validateIdentifier item) (dc_Values value))"

definition Applicability_Validate :: "Applicability \<Rightarrow> bool" where
  "Applicability_Validate value =
    (if \<not> validateText (apl_SemanticDescription value) maxRationaleBytes True then False
     else if length (apl_DeterministicConditions value) > maxListItems \<or>
       length (apl_Exclusions value) > maxListItems then False
     else if \<not> list_all DeterministicCondition_Validate (apl_DeterministicConditions value) then False
     else if \<not> list_all (\<lambda>e. validateText e maxRationaleBytes True) (apl_Exclusions value) then False
     else if apl_ExpiresAt value = Some time_zero then False
     else True)"

definition Guidance_Validate :: "Guidance \<Rightarrow> bool" where
  "Guidance_Validate value =
    (if \<not> validateOneLine (gd_Instruction value) maxGuidanceBytes True then False
     else if \<not> validateText (gd_Rationale value) maxRationaleBytes True then False
     else if \<not> InterventionStrength_Valid (gd_InterventionStrength value) then False
     else if gd_InterventionStrength value = InterventionDeny then False
     else if length (gd_Exceptions value) > maxListItems then False
     else list_all (\<lambda>item. validateOneLine item maxGuidanceBytes True) (gd_Exceptions value))"

section \<open>Verifiers\<close>

definition CommandVerifierSpec_Validate :: "CommandVerifierSpec \<Rightarrow> bool" where
  "CommandVerifierSpec_Validate value =
    (if \<not> validateOneLine (cvs_Command value) maxCommandBytes True then False
     else if \<not> validateIdentifier (cvs_ScrubbingVersion value) then False
     else if cvs_CommandClass value \<noteq> [] \<and> \<not> validateIdentifier (cvs_CommandClass value) then False
     else True)"

definition FileVerifierSpec_Validate :: "FileVerifierSpec \<Rightarrow> bool" where
  "FileVerifierSpec_Validate value = validateRelativePath (fvs_Path value)"

definition PathPatternVerifierSpec_Validate :: "PathPatternVerifierSpec \<Rightarrow> bool" where
  "PathPatternVerifierSpec_Validate value =
    (if pvs_Patterns value = [] \<or> length (pvs_Patterns value) > maxListItems then False
     else list_all validateRelativePattern (pvs_Patterns value))"

definition VerificationAfterLastEditSpec_Validate :: "VerificationAfterLastEditSpec \<Rightarrow> bool" where
  "VerificationAfterLastEditSpec_Validate value =
    (if length (vle_CommandClasses value) > maxListItems then False
     else list_all validateIdentifier (vle_CommandClasses value))"

definition NoRepeatFailureSpec_Validate :: "NoRepeatFailureSpec \<Rightarrow> bool" where
  "NoRepeatFailureSpec_Validate value =
    (if \<not> validateIdentifier (nrf_CommandClass value) then False
     else if \<not> validateOneLine (nrf_NormalizedPattern value) maxGuidanceBytes True then False
     else if nrf_WindowTurns value < 1 \<or> nrf_WindowTurns value > 1000 then False
     else True)"

definition UserCorrectionAbsentSpec_Validate :: "UserCorrectionAbsentSpec \<Rightarrow> bool" where
  "UserCorrectionAbsentSpec_Validate value =
    (if length (uca_MarkerFamilies value) > maxListItems then False
     else list_all validateIdentifier (uca_MarkerFamilies value))"

definition ObservationOnlySpec_Validate :: "ObservationOnlySpec \<Rightarrow> bool" where
  "ObservationOnlySpec_Validate value = validateText (oos_Explanation value) maxRationaleBytes True"

definition specPresence :: "Verifier \<Rightarrow> bool list" where
  "specPresence value =
    [vf_Command value \<noteq> None, vf_File value \<noteq> None, vf_PathPattern value \<noteq> None,
     vf_VerificationAfterLastEdit value \<noteq> None, vf_NoRepeatFailure value \<noteq> None,
     vf_UserCorrectionAbsent value \<noteq> None, vf_ObservationOnly value \<noteq> None]"

abbreviation required :: "'a option \<Rightarrow> ('a \<Rightarrow> bool) \<Rightarrow> bool" where
  "required pointer valid \<equiv> (case pointer of None \<Rightarrow> False | Some v \<Rightarrow> valid v)"

definition Verifier_Validate :: "Verifier \<Rightarrow> bool" where
  "Verifier_Validate value =
    (if \<not> VerifierKind_Valid (vf_Kind value) then False
     else if length (vf_CoverageRequirements value) > maxListItems then False
     else if \<not> list_all CoverageRequirement_Valid (vf_CoverageRequirements value) then False
     else if absenceBased value \<and> vf_CoverageRequirements value = [] then False
     else if length (filter (\<lambda>present. present) (specPresence value)) \<noteq> 1 then False
     else case vf_Kind value of
       VerifierCommandObserved \<Rightarrow> required (vf_Command value) CommandVerifierSpec_Validate
     | VerifierCommandSucceeded \<Rightarrow> required (vf_Command value) CommandVerifierSpec_Validate
     | VerifierFileNotModified \<Rightarrow> required (vf_File value) FileVerifierSpec_Validate
     | VerifierFileModified \<Rightarrow> required (vf_File value) FileVerifierSpec_Validate
     | VerifierPathPatternNotModified \<Rightarrow> required (vf_PathPattern value) PathPatternVerifierSpec_Validate
     | VerifierVerificationAfterLastEdit \<Rightarrow>
         required (vf_VerificationAfterLastEdit value) VerificationAfterLastEditSpec_Validate
     | VerifierNoRepeatFailure \<Rightarrow> required (vf_NoRepeatFailure value) NoRepeatFailureSpec_Validate
     | VerifierUserCorrectionAbsent \<Rightarrow>
         required (vf_UserCorrectionAbsent value) UserCorrectionAbsentSpec_Validate
     | VerifierObservationOnly \<Rightarrow> required (vf_ObservationOnly value) ObservationOnlySpec_Validate
     | _ \<Rightarrow> False)"

section \<open>Proposals\<close>

definition validUnitInterval :: "float64 \<Rightarrow> bool" where
  "validUnitInterval value = (case value of FloatFinite q \<Rightarrow> 0 \<le> q \<and> q \<le> 1 | _ \<Rightarrow> False)"

definition Proposal_Validate :: "ExperienceProposal \<Rightarrow> bool" where
  "Proposal_Validate value =
    (if \<not> ExperienceType_Valid (xp_Type value) then False
     else if \<not> Scope_Validate (xp_Scope value) then False
     else if \<not> Applicability_Validate (xp_Applicability value) then False
     else if \<not> Guidance_Validate (xp_Guidance value) then False
     else if \<not> Verifier_Validate (xp_Verifier value) then False
     else if (case xp_EvidenceSupport value of None \<Rightarrow> False
       | Some s \<Rightarrow> \<not> EvidenceSupport_Validate (length (gd_Exceptions (xp_Guidance value))) s) then False
     else if (case xp_Confidence value of None \<Rightarrow> False | Some c \<Rightarrow> \<not> validUnitInterval c) then False
     else True)"

definition SemanticProposalProvenance_Validate :: "SemanticProposalProvenance \<Rightarrow> bool" where
  "SemanticProposalProvenance_Validate value =
    (if \<not> Harness_Valid (spp_Harness value) then False
     else if \<not> validateIdentifier (spp_Model value) then False
     else if \<not> validateIdentifier (spp_PromptVersion value) then False
     else if spp_PromptVersion value \<notin> set SemanticProposalPromptVersions then False
     else if \<not> validSHA256 (spp_InputHash value) \<or> \<not> validSHA256 (spp_OutputHash value) then False
     else if spp_GeneratedAt value = time_zero then False
     else True)"

definition SemanticProposal_Validate :: "encoder \<Rightarrow> SemanticProposal \<Rightarrow> bool" where
  "SemanticProposal_Validate E value =
    (if sp_SchemaVersion value \<noteq> SemanticProposalSchemaVersion then False
     else if \<not> validateIdentifier (sp_CandidateID value) then False
     else if \<not> validateIdentifier (sp_ProjectIdentity value) then False
     else if sp_Authority value \<noteq> AuthorityNone then False
     else if \<not> Proposal_Validate (sp_Proposal value) then False
     else if xp_SemanticCompilationPending (sp_Proposal value) then False
     else if xp_Confidence (sp_Proposal value) = None then False
     else if scp_ProjectIdentity (xp_Scope (sp_Proposal value)) \<noteq> sp_ProjectIdentity value then False
     else if \<not> SemanticProposalProvenance_Validate (sp_Provenance value) then False
     else if sp_ProposalID value = [] \<or> sp_ProposalID value \<noteq> SemanticProposal_DeterministicID E value then False
     else True)"

definition decisionConsistent :: "SemanticDecision \<Rightarrow> bool" where
  "decisionConsistent value =
    (case sd_Disposition value of
       SemanticDispositionPropose \<Rightarrow>
         if sd_ReasonCode value \<noteq> SemanticReasonReusableSupported then False
         else validateIdentifier (sd_ProposalID value)
     | SemanticDispositionReject \<Rightarrow>
         if sd_ProposalID value \<noteq> [] then False
         else sd_ReasonCode value \<in> {SemanticReasonTemporaryOrTaskSpecific, SemanticReasonUnsafeOrOverbroad,
           SemanticReasonNotReusable}
     | SemanticDispositionDefer \<Rightarrow>
         if sd_ProposalID value \<noteq> [] then False
         else sd_ReasonCode value = SemanticReasonInsufficientContext
     | _ \<Rightarrow> True)"

definition SemanticDecision_Validate :: "encoder \<Rightarrow> SemanticDecision \<Rightarrow> bool" where
  "SemanticDecision_Validate E value =
    (if sd_SchemaVersion value \<noteq> SemanticDecisionSchemaVersion then False
     else if \<not> validateIdentifier (sd_CandidateID value) then False
     else if \<not> validateIdentifier (sd_ProjectIdentity value) then False
     else if \<not> SemanticDisposition_Valid (sd_Disposition value) then False
     else if \<not> SemanticDecisionReasonCode_Valid (sd_ReasonCode value) then False
     else if \<not> validateOneLine (sd_Explanation value) maxDecisionBytes True then False
     else if \<not> validUnitInterval (sd_Confidence value) then False
     else if \<not> decisionConsistent value then False
     else if \<not> SemanticProposalProvenance_Validate (sd_Provenance value) then False
     else if sd_DecisionID value = [] \<or> sd_DecisionID value \<noteq> SemanticDecision_DeterministicID E value then False
     else True)"

definition SemanticResult_Validate :: "encoder \<Rightarrow> SemanticResult \<Rightarrow> bool" where
  "SemanticResult_Validate E value =
    (let d = sr_Decision value in
     if \<not> SemanticDecision_Validate E d then False
     else if sd_Disposition d \<noteq> SemanticDispositionPropose then sr_Proposal value = None
     else case sr_Proposal value of
       None \<Rightarrow> False
     | Some p \<Rightarrow>
         if \<not> SemanticProposal_Validate E p then False
         else if sp_CandidateID p \<noteq> sd_CandidateID d \<or> sp_ProjectIdentity p \<noteq> sd_ProjectIdentity d \<or>
           sp_ProposalID p \<noteq> sd_ProposalID d \<or> sp_Provenance p \<noteq> sd_Provenance d then False
         else True)"

section \<open>Candidates and experiences\<close>

definition Provenance_Validate :: "Provenance \<Rightarrow> bool" where
  "Provenance_Validate value =
    (let supported = (case prv_Harness value of None \<Rightarrow> False | Some h \<Rightarrow> Harness_Valid h) in
     if \<not> validateIdentifier (prv_ExtractorVersion value) then False
     else if \<not> validSHA256 (prv_InputHash value) then False
     else if prv_GeneratedAt value = time_zero then False
     else if prv_Harness value \<noteq> None \<and> \<not> supported then False
     else if (prv_Model value \<noteq> [] \<or> prv_PromptVersion value \<noteq> []) \<and> \<not> supported then False
     else if prv_PromptVersion value \<noteq> [] \<and> \<not> validateIdentifier (prv_PromptVersion value) then False
     else if prv_Model value \<noteq> [] \<and> \<not> validateIdentifier (prv_Model value) then False
     else if prv_SourceCandidateID value \<noteq> [] \<and> \<not> validateIdentifier (prv_SourceCandidateID value) then False
     else True)"

definition pendingConsistent :: "Candidate \<Rightarrow> bool" where
  "pendingConsistent value =
    (if xp_SemanticCompilationPending (cd_Proposal value) then
       (if xp_Confidence (cd_Proposal value) \<noteq> None then False
        else if gd_InterventionStrength (xp_Guidance (cd_Proposal value)) \<noteq> InterventionObserve then False
        else if prv_Harness (cd_Provenance value) \<noteq> None \<or> trim_space (prv_Model (cd_Provenance value)) \<noteq> [] \<or>
          trim_space (prv_PromptVersion (cd_Provenance value)) \<noteq> [] then False
        else True)
     else if (case prv_Harness (cd_Provenance value) of None \<Rightarrow> True | Some h \<Rightarrow> \<not> Harness_Valid h) \<or>
       trim_space (prv_PromptVersion (cd_Provenance value)) = [] then False
     else True)"

definition Candidate_Validate :: "encoder \<Rightarrow> Candidate \<Rightarrow> bool" where
  "Candidate_Validate E value =
    (if cd_SchemaVersion value \<noteq> CandidateSchemaVersion then False
     else if \<not> CandidateFamily_Valid (cd_Family value) then False
     else if \<not> validateIdentifier (cd_ProjectIdentity value) then False
     else if cd_Authority value \<noteq> AuthorityNone then False
     else if cd_LifecycleState value \<noteq> LifecycleCandidate then False
     else if cd_CreatedAt value = time_zero then False
     else if \<not> validateText (cd_ObservedBehavior value) maxRationaleBytes True then False
     else if cd_Family value = CandidateCorrection \<and> trim_space (cd_UserFeedback value) = [] then False
     else if \<not> validateText (cd_UserFeedback value) maxExcerptBytes False then False
     else if \<not> EvidenceSet_Validate E (cd_Evidence value) then False
     else if \<not> list_all validateIdentifier (cd_OutcomeRefs value) then False
     else if \<not> list_all ExperienceRef_Validate (cd_ExistingRefs value) then False
     else if \<not> Proposal_Validate (cd_Proposal value) then False
     else if scp_ProjectIdentity (xp_Scope (cd_Proposal value)) \<noteq> cd_ProjectIdentity value then False
     else if \<not> Provenance_Validate (cd_Provenance value) then False
     else if \<not> pendingConsistent value then False
     else if cd_CandidateID value = [] \<or> cd_CandidateID value \<noteq> Candidate_DeterministicID E value then False
     else True)"

definition ApprovalProvenance_Validate :: "gostring \<Rightarrow> ApprovalProvenance \<Rightarrow> bool" where
  "ApprovalProvenance_Validate hash value =
    (if \<not> validateIdentifier (apv_ApprovedBy value) then False
     else if apv_ApprovedAt value = time_zero then False
     else if \<not> ApprovalMode_Valid (apv_Mode value) then False
     else if \<not> validateIdentifier (apv_CandidateID value) then False
     else if \<not> validSHA256 (apv_ProposedContentHash value) \<or> \<not> validSHA256 (apv_ApprovedContentHash value) then False
     else if apv_ApprovedContentHash value \<noteq> hash then False
     else True)"

definition Governance_Validate :: "gostring \<Rightarrow> Governance \<Rightarrow> bool" where
  "Governance_Validate hash value =
    (if gov_LifecycleState value \<notin> {LifecycleApproved, LifecycleActive, LifecyclePaused,
       LifecycleContradicted, LifecycleSuperseded, LifecycleExpired} then False
     else if gov_Authority value \<noteq> AuthorityUserApproved then False
     else case gov_Approval value of None \<Rightarrow> False | Some a \<Rightarrow> ApprovalProvenance_Validate hash a)"

definition versionConsistent :: "Experience \<Rightarrow> bool" where
  "versionConsistent value =
    (if ex_Version value = 1 \<and> ex_PreviousVersion value \<noteq> None then False
     else if ex_Version value > 1 then
       (case ex_PreviousVersion value of
          None \<Rightarrow> False
        | Some r \<Rightarrow>
            if \<not> ExperienceRef_Validate r then False
            else if xr_ExperienceID r \<noteq> ex_ExperienceID value then False
            else if xr_Version r \<noteq> ex_Version value - 1 then False
            else True)
     else True)"

definition Experience_Validate :: "encoder \<Rightarrow> Experience \<Rightarrow> bool" where
  "Experience_Validate E value =
    (let source = prv_SourceCandidateID (ex_Provenance value) in
     if ex_SchemaVersion value \<noteq> ExperienceSchemaVersion then False
     else if \<not> validateIdentifier (ex_ExperienceID value) then False
     else if \<not> validateIdentifier (ex_OriginCandidateID value) then False
     else if ex_Version value < 1 then False
     else if \<not> ExperienceType_Valid (ex_Type value) then False
     else if \<not> Scope_Validate (ex_Scope value) then False
     else if \<not> Applicability_Validate (ex_Applicability value) then False
     else if \<not> Guidance_Validate (ex_Guidance value) then False
     else if \<not> Verifier_Validate (ex_Verifier value) then False
     else if \<not> EvidenceSet_Validate E (ex_Evidence value) then False
     else if \<not> Provenance_Validate (ex_Provenance value) then False
     else if \<not> Governance_Validate (ex_ContentHash value) (ex_Governance value) then False
     else if ex_CreatedAt value = time_zero then False
     else if \<not> versionConsistent value then False
     else if ex_ContentHash value = [] \<or> ex_ContentHash value \<noteq> Experience_CanonicalContentHash E value then False
     else if trim_space source = [] then False
     else if ex_Version value = 1 \<and> source \<noteq> ex_OriginCandidateID value then False
     else if ex_ExperienceID value \<noteq>
       DeriveExperienceID E (scp_ProjectIdentity (ex_Scope value)) (ex_OriginCandidateID value) then False
     else case gov_Approval (ex_Governance value) of
       None \<Rightarrow> False
     | Some a \<Rightarrow> apv_CandidateID a = source)"

section \<open>Applications, evaluations and transitions\<close>

definition ExperienceMeasurement_Validate :: "ExperienceMeasurement \<Rightarrow> bool" where
  "ExperienceMeasurement_Validate value =
    (if \<not> ExperienceRef_Validate (em_Experience value) then False
     else if em_Opportunities value < 0 \<or> em_Deliveries value < 0 \<or> em_Satisfied value < 0 \<or>
       em_Violated value < 0 \<or> em_Unknown value < 0 \<or> em_ExplicitCorrections value < 0 then False
     else if em_LastAppliedAt value = Some time_zero then False
     else if em_LastValidatedAt value = Some time_zero then False
     else True)"

definition ValidLifecycleTransition :: "LifecycleState \<Rightarrow> LifecycleState \<Rightarrow> bool" where
  "ValidLifecycleTransition source target =
    (case source of
       LifecycleApproved \<Rightarrow> target = LifecycleActive \<or> target = LifecyclePaused \<or>
         target = LifecycleSuperseded \<or> target = LifecycleExpired
     | LifecycleActive \<Rightarrow> target = LifecyclePaused \<or> target = LifecycleContradicted \<or>
         target = LifecycleSuperseded \<or> target = LifecycleExpired
     | LifecyclePaused \<Rightarrow> target = LifecycleActive \<or> target = LifecycleContradicted \<or>
         target = LifecycleSuperseded \<or> target = LifecycleExpired
     | LifecycleContradicted \<Rightarrow> target = LifecycleActive \<or> target = LifecyclePaused \<or>
         target = LifecycleSuperseded
     | _ \<Rightarrow> False)"

definition LifecycleTransition_Validate :: "encoder \<Rightarrow> LifecycleTransition \<Rightarrow> bool" where
  "LifecycleTransition_Validate E value =
    (if \<not> ExperienceRef_Validate (lt_Experience value) then False
     else if \<not> ValidLifecycleTransition (lt_FromState value) (lt_ToState value) then False
     else if \<not> validateIdentifier (lt_ReasonCode value) then False
     else if \<not> TransitionActorKind_Valid (lt_ActorKind value) then False
     else if \<not> validateIdentifier (lt_ActorID value) then False
     else if lt_OccurredAt value = time_zero then False
     else if \<not> list_all EvidenceRef_Validate (lt_SourceEvidence value) then False
     else if lt_TransitionID value = [] \<or>
       lt_TransitionID value \<noteq> LifecycleTransition_DeterministicID E value then False
     else True)"

definition Application_Validate :: "encoder \<Rightarrow> Application \<Rightarrow> bool" where
  "Application_Validate E value =
    (if app_SchemaVersion value \<noteq> ApplicationSchemaVersion then False
     else if \<not> ExperienceRef_Validate (app_Experience value) then False
     else if \<not> validateIdentifier (app_ProjectIdentity value) then False
     else if \<not> DeliveryKind_Valid (app_DeliveryKind value) \<or> \<not> DeliveryState_Valid (app_DeliveryState value) then False
     else if \<not> OpportunityState_Valid (app_OpportunityState value) \<or>
       \<not> ApplicabilityState_Valid (app_ApplicabilityState value) \<or>
       \<not> VerifierState_Valid (app_VerifierState value) \<or>
       \<not> TaskOutcomeState_Valid (app_TaskOutcomeState value) then False
     else if app_DeliveryState value = DeliveryDelivered \<and>
       (case app_DeliveredAt value of None \<Rightarrow> True | Some t \<Rightarrow> t = time_zero) then False
     else if app_DeliveryState value = DeliveryDelivered \<and> \<not> validateIdentifier (app_SessionKey value) then False
     else if app_DeliveryState value \<noteq> DeliveryDelivered \<and> app_DeliveredAt value \<noteq> None then False
     else if \<not> list_all EvidenceRef_Validate (app_SourceEvidence value) then False
     else if app_ApplicationID value = [] \<or> app_ApplicationID value \<noteq> Application_DeterministicID E value then False
     else True)"

definition Evaluation_Validate :: "encoder \<Rightarrow> Evaluation \<Rightarrow> bool" where
  "Evaluation_Validate E value =
    (if evl_SchemaVersion value \<noteq> EvaluationSchemaVersion then False
     else if \<not> validateIdentifier (evl_ApplicationID value) then False
     else if \<not> ExperienceRef_Validate (evl_Experience value) then False
     else if evl_EvaluatedAt value = time_zero then False
     else if \<not> OpportunityState_Valid (evl_OpportunityState value) \<or>
       \<not> ApplicabilityState_Valid (evl_ApplicabilityState value) \<or>
       \<not> VerifierState_Valid (evl_VerifierState value) \<or>
       \<not> TaskOutcomeState_Valid (evl_TaskOutcomeState value) then False
     else if length (evl_Coverage value) > maxListItems \<or>
       evl_Coverage value = [] \<and> evl_VerifierState value \<noteq> VerifierUnknown then False
     else if \<not> list_all CoverageRequirement_Valid (evl_Coverage value) then False
     else if evl_SourceEvidence value = [] \<or> length (evl_SourceEvidence value) > maxListItems then False
     else if \<not> list_all EvidenceRef_Validate (evl_SourceEvidence value) then False
     else if \<not> validateIdentifier (evl_DerivationVersion value) then False
     else if evl_EvaluationID value = [] \<or> evl_EvaluationID value \<noteq> Evaluation_DeterministicID E value then False
     else True)"

section \<open>What validity gives\<close>

lemmas validator_defs = Proposal_Validate_def SemanticProposal_Validate_def SemanticDecision_Validate_def
  SemanticResult_Validate_def Candidate_Validate_def Experience_Validate_def Governance_Validate_def
  ApprovalProvenance_Validate_def

lemma Experience_ValidateD:
  assumes "Experience_Validate E x"
  shows "Scope_Validate (ex_Scope x)" and "Guidance_Validate (ex_Guidance x)" and "Verifier_Validate (ex_Verifier x)"
    and "validateIdentifier (ex_ExperienceID x)" and "1 \<le> ex_Version x" and "versionConsistent x"
    and "Governance_Validate (ex_ContentHash x) (ex_Governance x)"
    and "ex_ContentHash x = Experience_CanonicalContentHash E x"
    and "ex_ExperienceID x = DeriveExperienceID E (scp_ProjectIdentity (ex_Scope x)) (ex_OriginCandidateID x)"
    and "\<exists>a. gov_Approval (ex_Governance x) = Some a \<and> apv_CandidateID a = prv_SourceCandidateID (ex_Provenance x)"
  using assms unfolding Experience_Validate_def Let_def by (simp_all split: if_splits option.splits)

lemma Proposal_ValidateD:
  assumes "Proposal_Validate p"
  shows "Scope_Validate (xp_Scope p)" and "Guidance_Validate (xp_Guidance p)" and "Verifier_Validate (xp_Verifier p)"
    and "Applicability_Validate (xp_Applicability p)"
  using assms unfolding Proposal_Validate_def by (simp_all split: if_splits)

lemma SemanticProposal_ValidateD:
  assumes "SemanticProposal_Validate E p"
  shows "Proposal_Validate (sp_Proposal p)" and "sp_Authority p = AuthorityNone"
    and "sp_ProposalID p = SemanticProposal_DeterministicID E p"
    and "scp_ProjectIdentity (xp_Scope (sp_Proposal p)) = sp_ProjectIdentity p"
  using assms unfolding SemanticProposal_Validate_def by (simp_all split: if_splits)

lemma no_deny: "Guidance_Validate g \<Longrightarrow> gd_InterventionStrength g \<noteq> InterventionDeny"
  by (simp add: Guidance_Validate_def split: if_splits)

lemma file_verifier_present:
  "Verifier_Validate v \<Longrightarrow> vf_Kind v = VerifierFileModified \<or> vf_Kind v = VerifierFileNotModified \<Longrightarrow>
    \<exists>f. vf_File v = Some f \<and> validateRelativePath (fvs_Path f)"
  by (auto simp: Verifier_Validate_def FileVerifierSpec_Validate_def split: if_splits option.splits)

lemma pattern_verifier_present:
  "Verifier_Validate v \<Longrightarrow> vf_Kind v = VerifierPathPatternNotModified \<Longrightarrow>
    \<exists>s. vf_PathPattern v = Some s \<and> (\<forall>p\<in>set (pvs_Patterns s). validateRelativePattern p)"
  by (auto simp: Verifier_Validate_def PathPatternVerifierSpec_Validate_def list_all_iff
    split: if_splits option.splits)

section \<open>Identifiers of the encoder\<close>

text \<open>
  What the code relies on of \<open>encoding/base32\<close> and \<open>encoding/hex\<close>: a 32-byte digest is 52
  letters and digits, or 64 lower-case hexadecimal digits.
\<close>

definition wf_encoder :: "encoder \<Rightarrow> bool" where
  "wf_encoder E \<longleftrightarrow>
    (\<forall>v. length (enc_base32 E v) = 52 \<and>
       (\<forall>c\<in>set (enc_base32 E v). (65 \<le> byte c \<and> byte c \<le> 90) \<or> (50 \<le> byte c \<and> byte c \<le> 55))) \<and>
    (\<forall>v. length (enc_hex E v) = 64 \<and>
       (\<forall>c\<in>set (enc_hex E v). (48 \<le> byte c \<and> byte c \<le> 57) \<or> (97 \<le> byte c \<and> byte c \<le> 102)))"

definition graphic :: "char \<Rightarrow> bool" where
  "graphic c \<longleftrightarrow> 0x21 \<le> byte c \<and> byte c \<le> 0x7E"

lemma space_ends_not_graphic: "\<forall>e\<in>set space_encodings. \<not> graphic (hd e) \<and> \<not> graphic (last e)"
proof -
  have "list_all (\<lambda>e. \<not> graphic (hd e) \<and> \<not> graphic (last e)) space_encodings" by code_simp
  then show ?thesis by (simp add: list_all_iff)
qed

lemma trim_graphic:
  assumes "\<forall>c\<in>set s. graphic c"
  shows "trim_space s = s"
proof -
  have front: "strip_any space_encodings s = None"
    unfolding strip_any_None_iff
  proof (intro ballI allI notI)
    fix e r assume e: "e \<in> set space_encodings" and s: "s = e @ r"
    with space_encodings_nonempty have "hd e \<in> set s" by (cases e) auto
    with assms e space_ends_not_graphic show False by blast
  qed
  have rear: "strip_any (map rev space_encodings) (rev s) = None"
    unfolding strip_any_None_iff
  proof (intro ballI allI notI)
    fix e r assume e: "e \<in> set (map rev space_encodings)" and s: "rev s = e @ r"
    then obtain d where d: "d \<in> set space_encodings" "e = rev d" by auto
    with space_encodings_nonempty have "last d \<in> set (rev s)" using s by (cases d rule: rev_cases) auto
    with assms d space_ends_not_graphic show False by auto
  qed
  from front have "trim_left s = s" by (simp add: trim_left_def trim_rounds_id)
  with rear show ?thesis by (simp add: trim_space_def trim_right_def trim_rounds_id)
qed

lemma utf8_ascii: "\<forall>c\<in>set s. byte c < 0x80 \<Longrightarrow> utf8_valid s"
  by (induction s) auto

lemma graphic_identifier:
  assumes "\<forall>c\<in>set s. graphic c" and "s \<noteq> []" and "length s \<le> 256"
  shows "validateIdentifier s"
proof -
  have "utf8_valid s" using assms(1) by (intro utf8_ascii) (auto simp: graphic_def)
  moreover have "\<not> hasControl s" using assms(1) by (auto simp: hasControl_def graphic_def)
  ultimately show ?thesis using assms trim_graphic [OF assms(1)] by (simp add: validateIdentifier_def)
qed

lemma lower_graphic:
  assumes "graphic c"
  shows "graphic (lower_char c)"
proof -
  have eq: "byte d = int (of_char d)" for d by (simp add: of_nat_of_char)
  show ?thesis
  proof (cases "65 \<le> (of_char c :: nat) \<and> (of_char c :: nat) \<le> 90")
    case True
    have "byte (char_of ((of_char c :: nat) + 32)) = int (of_char c) + 32"
      using True unfolding eq by (simp add: of_char_of)
    with True show ?thesis by (simp add: lower_char_def Let_def graphic_def)
  next
    case False
    then have "lower_char c = c" unfolding lower_char_def Let_def by (rule if_not_P)
    with assms show ?thesis by simp
  qed
qed

lemma deterministicID_identifier:
  assumes "wf_encoder E" and "\<forall>c\<in>set idPrefix. graphic c" and "length idPrefix \<le> 4"
  shows "validateIdentifier (deterministicID E idPrefix v)"
proof -
  have len: "length (enc_base32 E v) = 52"
    and alpha: "\<forall>c\<in>set (enc_base32 E v). (65 \<le> byte c \<and> byte c \<le> 90) \<or> (50 \<le> byte c \<and> byte c \<le> 55)"
    using assms(1) by (auto simp: wf_encoder_def)
  have low: "to_lower (enc_base32 E v) = map lower_char (enc_base32 E v)"
    using alpha by (intro to_lower_ascii) (auto simp: ascii_def list_all_iff)
  have "\<forall>c\<in>set (enc_base32 E v). graphic c" using alpha by (auto simp: graphic_def)
  with assms(2) lower_graphic have "\<forall>c\<in>set (deterministicID E idPrefix v). graphic c"
    by (auto simp: deterministicID_def low)
  moreover have "length (deterministicID E idPrefix v) \<le> 256" "deterministicID E idPrefix v \<noteq> []"
    using len assms(3) by (auto simp: deterministicID_def low)
  ultimately show ?thesis by (intro graphic_identifier)
qed

section \<open>Properties\<close>

definition specOfKind :: "Verifier \<Rightarrow> bool list" where
  "specOfKind v =
    map (\<lambda>ks. vf_Kind v \<in> set ks)
      [[VerifierCommandObserved, VerifierCommandSucceeded], [VerifierFileNotModified, VerifierFileModified],
       [VerifierPathPatternNotModified], [VerifierVerificationAfterLastEdit], [VerifierNoRepeatFailure],
       [VerifierUserCorrectionAbsent], [VerifierObservationOnly]]"

text \<open>
  C27. A valid verifier is a tagged union: of its seven typed specifications exactly the one its kind
  names is present and the six others are absent, so code that dispatches on the kind never reads a
  missing specification, and a verifier that reads an absence declares the coverage it needs.
\<close>

theorem verifier_is_tagged_union:
  assumes "Verifier_Validate v"
  shows "specPresence v = specOfKind v \<and> (absenceBased v \<longrightarrow> vf_CoverageRequirements v \<noteq> [])"
proof -
  have one: "length (filter (\<lambda>present. present) (specPresence v)) = 1"
    and cov: "absenceBased v \<longrightarrow> vf_CoverageRequirements v \<noteq> []"
    using assms by (auto simp: Verifier_Validate_def split: if_splits)
  have "specPresence v = specOfKind v"
    using assms one unfolding Verifier_Validate_def specOfKind_def specPresence_def
    by (cases "vf_Kind v") (simp_all split: if_splits option.splits)
  with cov show ?thesis by blast
qed

theorem verifier_is_tagged_union_witness:
  "specPresence (xp_Verifier sample_proposal) = [False, True, False, False, False, False, False]"
proof -
  have "Verifier_Validate (xp_Verifier sample_proposal)" by code_simp
  from verifier_is_tagged_union [OF this] show ?thesis by (simp add: specOfKind_def sample_proposal_def)
qed

text \<open>
  C8. Nothing carries instruction authority without the user's approval of exactly that content:
  candidates and semantic proposals have none; a valid experience is approved for the source candidate
  of its provenance with an approved hash that is the canonical hash of its content; and no content
  anywhere may deny an action.
\<close>

theorem authority_only_by_approval:
  "(Candidate_Validate E c \<longrightarrow> cd_Authority c = AuthorityNone \<and> cd_LifecycleState c = LifecycleCandidate \<and>
      gd_InterventionStrength (xp_Guidance (cd_Proposal c)) \<noteq> InterventionDeny) \<and>
   (SemanticProposal_Validate E p \<longrightarrow> sp_Authority p = AuthorityNone \<and>
      gd_InterventionStrength (xp_Guidance (sp_Proposal p)) \<noteq> InterventionDeny) \<and>
   (Experience_Validate E x \<longrightarrow> gov_Authority (ex_Governance x) = AuthorityUserApproved \<and>
      (\<exists>a. gov_Approval (ex_Governance x) = Some a \<and> apv_CandidateID a = prv_SourceCandidateID (ex_Provenance x) \<and>
         apv_ApprovedContentHash a = Experience_CanonicalContentHash E x) \<and>
      gd_InterventionStrength (ex_Guidance x) \<noteq> InterventionDeny)"
proof (intro conjI impI)
  assume c: "Candidate_Validate E c"
  then show "cd_Authority c = AuthorityNone" "cd_LifecycleState c = LifecycleCandidate"
    by (simp_all add: Candidate_Validate_def split: if_splits)
  from c have "Proposal_Validate (cd_Proposal c)" by (simp add: Candidate_Validate_def split: if_splits)
  then show "gd_InterventionStrength (xp_Guidance (cd_Proposal c)) \<noteq> InterventionDeny"
    by (intro no_deny Proposal_ValidateD)
next
  assume p: "SemanticProposal_Validate E p"
  show "sp_Authority p = AuthorityNone" by (rule SemanticProposal_ValidateD [OF p])
  show "gd_InterventionStrength (xp_Guidance (sp_Proposal p)) \<noteq> InterventionDeny"
    by (intro no_deny Proposal_ValidateD SemanticProposal_ValidateD [OF p])
next
  assume x: "Experience_Validate E x"
  note D = Experience_ValidateD [OF x]
  show "gov_Authority (ex_Governance x) = AuthorityUserApproved"
    using D(7) by (simp add: Governance_Validate_def split: if_splits)
  from D(10) obtain a where a: "gov_Approval (ex_Governance x) = Some a"
    "apv_CandidateID a = prv_SourceCandidateID (ex_Provenance x)" by blast
  have "apv_ApprovedContentHash a = ex_ContentHash x"
    using D(7) a(1) by (simp add: Governance_Validate_def ApprovalProvenance_Validate_def split: if_splits)
  with a D(8) show "\<exists>a. gov_Approval (ex_Governance x) = Some a \<and>
      apv_CandidateID a = prv_SourceCandidateID (ex_Provenance x) \<and>
      apv_ApprovedContentHash a = Experience_CanonicalContentHash E x" by auto
  show "gd_InterventionStrength (ex_Guidance x) \<noteq> InterventionDeny" by (rule no_deny [OF D(2)])
qed

section \<open>Concrete contracts\<close>

definition sample_hash :: gostring where
  "sample_hash = ''sha256:'' @ replicate 64 (CHR ''0'')"

definition sample_id :: "gostring \<Rightarrow> gostring" where
  "sample_id idPrefix = idPrefix @ replicate 52 (CHR ''a'')"

definition sample_evidence :: EvidenceSet where
  "sample_evidence = \<lparr>es_EvidenceSetID = sample_id ''evs_'', es_Availability = EvidenceAvailable,
     es_Refs = [\<lparr>er_Kind = EvidenceCanonicalEvent, er_SessionKey = [], er_TurnIndex = None, er_TurnRole = None,
       er_ToolName = [], er_EventID = ''e1'', er_OutcomeID = [], er_Path = [], er_SHA256 = [],
       er_RecordedBy = [], er_OccurredAt = None, er_Excerpt = []\<rparr>]\<rparr>"

definition sample_provenance :: Provenance where
  "sample_provenance = \<lparr>prv_ExtractorVersion = ''v1'', prv_Harness = Some HarnessClaude, prv_Model = [],
     prv_PromptVersion = ''p1'', prv_InputHash = sample_hash, prv_SourceCandidateID = sample_id ''exc_'', prv_GeneratedAt = 1\<rparr>"

definition sample_experience :: Experience where
  "sample_experience = \<lparr>ex_SchemaVersion = ExperienceSchemaVersion, ex_ExperienceID = sample_id ''exp_'',
     ex_OriginCandidateID = sample_id ''exc_'', ex_Version = 1, ex_Type = ExperienceProcedure,
     ex_Scope = xp_Scope sample_proposal, ex_Applicability = xp_Applicability sample_proposal,
     ex_Guidance = xp_Guidance sample_proposal, ex_Verifier = xp_Verifier sample_proposal,
     ex_Evidence = sample_evidence, ex_Provenance = sample_provenance,
     ex_Governance = \<lparr>gov_LifecycleState = LifecycleActive, gov_Authority = AuthorityUserApproved,
       gov_Approval = Some \<lparr>apv_ApprovedBy = ''u'', apv_ApprovedAt = 1, apv_Mode = ApprovalAsProposed,
         apv_CandidateID = sample_id ''exc_'', apv_ProposedContentHash = sample_hash,
         apv_ApprovedContentHash = sample_hash\<rparr>, gov_StateReason = []\<rparr>,
     ex_ContentHash = sample_hash, ex_PreviousVersion = None, ex_CreatedAt = 1\<rparr>"

definition sample_candidate :: Candidate where
  "sample_candidate = \<lparr>cd_SchemaVersion = CandidateSchemaVersion, cd_CandidateID = sample_id ''exc_'',
     cd_Family = CandidateSuccessfulProcedure, cd_ProjectIdentity = ''p'', cd_ObservedBehavior = ''b'',
     cd_UserFeedback = [], cd_Evidence = sample_evidence, cd_OutcomeRefs = [], cd_ExistingRefs = [],
     cd_Proposal = sample_proposal, cd_Provenance = sample_provenance, cd_Authority = AuthorityNone,
     cd_LifecycleState = LifecycleCandidate, cd_CreatedAt = 1\<rparr>"

definition sample_semantic :: SemanticProposal where
  "sample_semantic = \<lparr>sp_SchemaVersion = SemanticProposalSchemaVersion, sp_ProposalID = sample_id ''exs_'',
     sp_CandidateID = sample_id ''exc_'', sp_ProjectIdentity = ''p'',
     sp_Proposal = sample_proposal\<lparr>xp_Confidence := Some (FloatFinite (1 / 2))\<rparr>,
     sp_Provenance = \<lparr>spp_Harness = HarnessClaude, spp_Model = ''m'', spp_PromptVersion = ''belay.experience-prompt.v1'',
       spp_InputHash = sample_hash, spp_OutputHash = sample_hash, spp_GeneratedAt = 1\<rparr>,
     sp_Authority = AuthorityNone\<rparr>"

lemma sample_experience_valid: "Experience_Validate sample_encoder sample_experience"
  by code_simp

lemma sample_candidate_valid: "Candidate_Validate sample_encoder sample_candidate"
  by code_simp

lemma sample_semantic_valid: "SemanticProposal_Validate sample_encoder sample_semantic"
  by code_simp

theorem authority_only_by_approval_witness:
  "cd_Authority sample_candidate = AuthorityNone \<and> sp_Authority sample_semantic = AuthorityNone \<and>
   gov_Authority (ex_Governance sample_experience) = AuthorityUserApproved"
  using authority_only_by_approval [of sample_encoder sample_candidate sample_semantic sample_experience]
    sample_experience_valid sample_candidate_valid sample_semantic_valid by blast

lemma sample_encoder_wf: "wf_encoder sample_encoder"
  by (auto simp: wf_encoder_def sample_encoder_def)

end
