(* ===== verification/Exp_Lifecycle.thy ===== *)
theory Exp_Lifecycle
  imports Exp_Validate
begin

text \<open>
  Lifecycle actions (\<open>internal/experience/lifecycle.go\<close>) over the transitions of
  \<open>ValidLifecycleTransition\<close>, and the lifecycle of an approved experience as a state machine.
\<close>

section \<open>Actions\<close>

datatype LifecycleAction =
  LifecycleActionActivate | LifecycleActionPause | LifecycleActionSupersede | LifecycleActionExpire
  | LifecycleActionOther gostring

fun LifecycleAction_Valid :: "LifecycleAction \<Rightarrow> bool" where
  "LifecycleAction_Valid (LifecycleActionOther s) = False"
| "LifecycleAction_Valid value = True"

fun LifecycleAction_States :: "LifecycleAction \<Rightarrow> LifecycleState \<times> LifecycleState \<times> bool" where
  "LifecycleAction_States LifecycleActionActivate = (LifecycleApproved, LifecycleActive, True)"
| "LifecycleAction_States LifecycleActionPause = (LifecycleActive, LifecyclePaused, True)"
| "LifecycleAction_States value = (LifecycleStateOther [], LifecycleStateOther [], False)"

fun TransitionFrom :: "LifecycleAction \<Rightarrow> LifecycleState \<Rightarrow> LifecycleState \<times> bool" where
  "TransitionFrom LifecycleActionActivate current = (LifecycleActive, current = LifecycleApproved)"
| "TransitionFrom LifecycleActionPause current = (LifecyclePaused, current = LifecycleActive)"
| "TransitionFrom LifecycleActionSupersede current =
    (LifecycleSuperseded, ValidLifecycleTransition current LifecycleSuperseded)"
| "TransitionFrom LifecycleActionExpire current =
    (LifecycleExpired, ValidLifecycleTransition current LifecycleExpired)"
| "TransitionFrom value current = (LifecycleStateOther [], False)"

record LifecycleActionTokenClaims =
  lac_Version :: gostring
  lac_Action :: LifecycleAction
  lac_Experience :: ExperienceRef
  lac_ProjectIdentity :: gostring
  lac_CurrentLifecycle :: LifecycleState
  lac_ContentHash :: gostring
  lac_IssuedAt :: time
  lac_ExpiresAt :: time

abbreviation LifecycleActionTokenVersion :: gostring where
  "LifecycleActionTokenVersion \<equiv> ''belay.experience-lifecycle-token.v1''"

definition LifecycleActionTokenClaims_Validate :: "LifecycleActionTokenClaims \<Rightarrow> bool" where
  "LifecycleActionTokenClaims_Validate value =
    (if lac_Version value \<noteq> LifecycleActionTokenVersion then False
     else if \<not> ExperienceRef_Validate (lac_Experience value) then False
     else if \<not> validateIdentifier (lac_ProjectIdentity value) then False
     else if \<not> LifecycleAction_Valid (lac_Action value) then False
     else if \<not> snd (TransitionFrom (lac_Action value) (lac_CurrentLifecycle value)) then False
     else if \<not> validSHA256 (lac_ContentHash value) then False
     else if lac_IssuedAt value = time_zero \<or> lac_ExpiresAt value = time_zero \<or>
       \<not> lac_ExpiresAt value > lac_IssuedAt value then False
     else True)"

section \<open>The state machine\<close>

inductive lifecycle_step :: "LifecycleState \<Rightarrow> LifecycleState \<Rightarrow> bool" where
  "ValidLifecycleTransition source target \<Longrightarrow> lifecycle_step source target"

inductive_simps lifecycle_step_iff: "lifecycle_step source target"

fun_cases TransitionFrom_activate: "TransitionFrom LifecycleActionActivate s = (t, True)"
  and TransitionFrom_pause: "TransitionFrom LifecycleActionPause s = (t, True)"
  and TransitionFrom_supersede: "TransitionFrom LifecycleActionSupersede s = (t, True)"
  and TransitionFrom_expire: "TransitionFrom LifecycleActionExpire s = (t, True)"
  and TransitionFrom_other: "TransitionFrom (LifecycleActionOther x) s = (t, True)"

definition governed :: "LifecycleState \<Rightarrow> bool" where
  "governed s \<longleftrightarrow> s \<in> {LifecycleApproved, LifecycleActive, LifecyclePaused, LifecycleContradicted,
     LifecycleSuperseded, LifecycleExpired}"

definition inService :: "LifecycleState \<Rightarrow> bool" where
  "inService s \<longleftrightarrow> s \<in> {LifecycleApproved, LifecycleActive, LifecyclePaused, LifecycleContradicted}"

lemma transition_target:
  "ValidLifecycleTransition s t \<Longrightarrow> governed t \<and> t \<noteq> LifecycleApproved \<and> inService s"
  by (cases s) (auto simp: ValidLifecycleTransition_def governed_def inService_def)

interpretation lifecycle: state_machine lifecycle_step governed
  by unfold_locales (simp add: lifecycle_step_iff transition_target)

interpretation activated: state_machine lifecycle_step "\<lambda>s. governed s \<and> s \<noteq> LifecycleApproved"
  by unfold_locales (simp add: lifecycle_step_iff transition_target)

lemma action_is_transition: "TransitionFrom a s = (t, True) \<Longrightarrow> ValidLifecycleTransition s t"
  by (cases a)
    (auto simp: ValidLifecycleTransition_def elim!: TransitionFrom_activate TransitionFrom_pause
      TransitionFrom_supersede TransitionFrom_expire TransitionFrom_other)

lemma retired_is_final: "\<not> inService s \<Longrightarrow> lifecycle_step\<^sup>*\<^sup>* s t \<Longrightarrow> t = s"
  by (erule converse_rtranclpE) (auto simp: lifecycle_step_iff dest: transition_target)

section \<open>Properties\<close>

text \<open>
  The lifecycle of an approved experience: every state it can reach keeps the governance of the
  experience valid; once it has left the approved state it never returns to it; a superseded or expired
  experience stays what it is; and while it is in service it can be superseded.
\<close>

theorem lifecycle_stays_governed:
  assumes "lifecycle_step\<^sup>*\<^sup>* LifecycleApproved s" and "Governance_Validate hash g"
  shows "Governance_Validate hash (g\<lparr>gov_LifecycleState := s\<rparr>) \<and>
    (\<forall>t. lifecycle_step\<^sup>+\<^sup>+ s t \<longrightarrow> t \<noteq> LifecycleApproved) \<and>
    (s \<in> {LifecycleSuperseded, LifecycleExpired} \<longrightarrow> (\<forall>t. lifecycle_step\<^sup>*\<^sup>* s t \<longrightarrow> t = s)) \<and>
    (s \<notin> {LifecycleSuperseded, LifecycleExpired} \<longrightarrow> lifecycle_step s LifecycleSuperseded)"
proof (intro conjI impI allI)
  have gov: "governed s" by (rule lifecycle.reachable [OF assms(1)]) (simp add: governed_def)
  then show "Governance_Validate hash (g\<lparr>gov_LifecycleState := s\<rparr>)"
    using assms(2) by (simp add: Governance_Validate_def governed_def split: if_splits)
  show "t \<noteq> LifecycleApproved" if "lifecycle_step\<^sup>+\<^sup>+ s t" for t
    using that by (induction rule: tranclp_induct) (auto simp: lifecycle_step_iff dest: transition_target)
  show "t = s" if "s \<in> {LifecycleSuperseded, LifecycleExpired}" and "lifecycle_step\<^sup>*\<^sup>* s t" for t
    using that by (intro retired_is_final) (auto simp: inService_def)
  show "lifecycle_step s LifecycleSuperseded" if "s \<notin> {LifecycleSuperseded, LifecycleExpired}"
    using gov that by (auto simp: governed_def lifecycle_step_iff ValidLifecycleTransition_def)
qed

theorem lifecycle_stays_governed_witness:
  "Governance_Validate sample_hash ((ex_Governance sample_experience)\<lparr>gov_LifecycleState := LifecycleExpired\<rparr>) \<and>
   \<not> lifecycle_step\<^sup>+\<^sup>+ LifecycleExpired LifecycleApproved"
proof -
  have "lifecycle_step LifecycleApproved LifecycleActive" "lifecycle_step LifecycleActive LifecycleExpired"
    by (simp_all add: lifecycle_step_iff ValidLifecycleTransition_def)
  then have reach: "lifecycle_step\<^sup>*\<^sup>* LifecycleApproved LifecycleExpired" by auto
  have "Governance_Validate sample_hash (ex_Governance sample_experience)"
    using Experience_ValidateD(7) [OF sample_experience_valid] by (simp add: sample_experience_def)
  from lifecycle_stays_governed [OF reach this] show ?thesis by blast
qed

text \<open>
  A lifecycle token can only ask for a transition the lifecycle allows: when the claims of a token
  are valid, its action leads from the state they name to a state that \<open>ValidLifecycleTransition\<close>
  accepts, the experience is not activated twice, and the token's window is not empty.
\<close>

theorem token_asks_for_valid_transition:
  assumes "LifecycleActionTokenClaims_Validate claims"
  shows "\<exists>t. TransitionFrom (lac_Action claims) (lac_CurrentLifecycle claims) = (t, True) \<and>
      ValidLifecycleTransition (lac_CurrentLifecycle claims) t \<and>
      (lac_Action claims = LifecycleActionActivate \<longrightarrow> lac_CurrentLifecycle claims = LifecycleApproved) \<and>
      \<not> snd (TransitionFrom (lac_Action claims) t) \<and> lac_IssuedAt claims < lac_ExpiresAt claims"
proof -
  let ?a = "lac_Action claims" and ?s = "lac_CurrentLifecycle claims"
  obtain t where t: "TransitionFrom ?a ?s = (t, True)"
    using assms by (cases "TransitionFrom ?a ?s") (auto simp: LifecycleActionTokenClaims_Validate_def split: if_splits)
  then have "?a = LifecycleActionActivate \<longrightarrow> ?s = LifecycleApproved" by auto
  moreover have "\<not> snd (TransitionFrom ?a t)"
    using t by (cases ?a) (auto simp: ValidLifecycleTransition_def)
  moreover have "lac_IssuedAt claims < lac_ExpiresAt claims"
    using assms by (simp add: LifecycleActionTokenClaims_Validate_def split: if_splits)
  ultimately show ?thesis using t action_is_transition [OF t] by blast
qed

theorem token_asks_for_valid_transition_witness:
  "ValidLifecycleTransition LifecycleApproved (fst (TransitionFrom LifecycleActionActivate LifecycleApproved))"
proof -
  let ?c = "\<lparr>lac_Version = LifecycleActionTokenVersion, lac_Action = LifecycleActionActivate,
      lac_Experience = \<lparr>xr_ExperienceID = ''exp_a'', xr_Version = 1\<rparr>, lac_ProjectIdentity = ''p'',
      lac_CurrentLifecycle = LifecycleApproved, lac_ContentHash = sample_hash, lac_IssuedAt = 1, lac_ExpiresAt = 2\<rparr>"
  have "LifecycleActionTokenClaims_Validate ?c" by code_simp
  from token_asks_for_valid_transition [OF this] show ?thesis by auto
qed

end
