(* ===== verification/Exp_Scope.thy ===== *)
theory Exp_Scope
  imports Exp_Lifecycle
begin

text \<open>
  What a scope means: the contexts of work it covers, each one piece of work in one session that touches
  some files, and that every validated path pattern covers some file. The relation \<open>in_scope\<close> is the
  specification that the conflict preflight and the narrowing of approvals are held against; it reads the
  lists of a scope as \<open>evaluateApplicability\<close> does: an empty list allows everything, and repository paths
  ask for one touched file that one of them matches.
\<close>

section \<open>Scopes as sets of contexts\<close>

record context_of_work =
  cw_Project :: gostring
  cw_Session :: gostring
  cw_Harness :: Harness
  cw_Model :: gostring
  cw_TaskFamily :: gostring
  cw_Files :: "gostring list"

definition in_scope :: "Scope \<Rightarrow> context_of_work \<Rightarrow> bool" where
  "in_scope s c \<longleftrightarrow>
    cw_Project c = scp_ProjectIdentity s \<and>
    (scp_Kind s = ScopeSession \<longrightarrow> cw_Session c = scp_SessionKey s) \<and>
    (scp_Harnesses s = [] \<or> cw_Harness c \<in> set (scp_Harnesses s)) \<and>
    (scp_Models s = [] \<or> cw_Model c \<in> set (scp_Models s)) \<and>
    (scp_TaskFamilies s = [] \<or> cw_TaskFamily c \<in> set (scp_TaskFamilies s)) \<and>
    (scp_RepositoryPaths s = [] \<or>
      (\<exists>f\<in>set (cw_Files c). fileMatchesAnyRelativePathPattern f (scp_RepositoryPaths s)))"

definition valid_context :: "context_of_work \<Rightarrow> bool" where
  "valid_context c \<longleftrightarrow> (\<forall>f\<in>set (cw_Files c). validateRelativePath f)"

section \<open>A file for every pattern\<close>

text \<open>A validated pattern matches the file that has the letter a for each star and question mark.\<close>

definition fill_char :: "char \<Rightarrow> char" where
  "fill_char c = (if c = CHR ''*'' \<or> c = CHR ''?'' then CHR ''a'' else c)"

lemma glob_fill: "glob p (map fill_char p)"
proof (induction p)
  case (Cons c p)
  show ?case
  proof (cases "c = CHR ''*''")
    case True
    from Cons have "glob (CHR ''*'' # p) (map fill_char p)" by (cases "map fill_char p") simp_all
    moreover have "fill_char c = CHR ''a''" using True by (simp add: fill_char_def)
    ultimately show ?thesis using True by simp
  qed (use Cons in \<open>simp add: fill_char_def\<close>)
qed simp

lemma path_pattern_fill: "path_pattern ps (map (map fill_char) ps)"
proof (induction ps)
  case (Cons p ps)
  show ?case
  proof (cases "p = ''**''")
    case True
    with deep [OF Cons, of "[map fill_char p]"] show ?thesis by simp
  qed (use Cons in \<open>simp add: segment glob_fill\<close>)
qed (simp add: done_both)

lemma fill_char_slash: "fill_char c = CHR ''/'' \<longleftrightarrow> c = CHR ''/''"
  by (simp add: fill_char_def)

lemma split_on_fill: "split_on (CHR ''/'') (map fill_char p) = map (map fill_char) (split_on (CHR ''/'') p)"
  by (induction p) (auto simp: fill_char_slash split: list.splits)

lemma pattern_char_graphic: "pattern_char c \<Longrightarrow> graphic c \<and> c \<noteq> CHR 0x5C"
  by (auto simp: pattern_char_def graphic_def)

lemma pattern_char_fill: "pattern_char c \<Longrightarrow> pattern_char (fill_char c) \<and> \<not> glob_char (fill_char c)"
  by (auto simp: fill_char_def pattern_char_def glob_char_def)

definition path_char :: "char \<Rightarrow> bool" where
  "path_char c \<longleftrightarrow> graphic c \<and> c \<noteq> CHR 0x5C \<and> \<not> glob_char c"

lemma path_char_ascii: "path_char c \<Longrightarrow> byte c < 0x80"
  by (simp add: path_char_def graphic_def)

lemma path_char_not: "\<not> path_char (CHR 0x5C)" "\<not> path_char (CHR 0x00)"
  by code_simp+

lemma path_chars: "\<forall>c\<in>set s. path_char c \<Longrightarrow> \<not> hasControl s \<and> \<not> (\<exists>c\<in>set s. glob_char c)"
proof -
  have "graphic c \<Longrightarrow> \<not> (byte c < 0x20 \<or> byte c = 0x7F)" for c unfolding graphic_def by linarith
  then show "\<forall>c\<in>set s. path_char c \<Longrightarrow> \<not> hasControl s \<and> \<not> (\<exists>c\<in>set s. glob_char c)"
    unfolding hasControl_def path_char_def by blast
qed

lemma pattern_char_plain: "\<not> pattern_char (CHR ''['')" "\<not> pattern_char (CHR 0x5C)"
  by code_simp+

lemma path_char_fill: "c = CHR ''/'' \<or> pattern_char c \<Longrightarrow> path_char (fill_char c)"
proof -
  have "path_char (CHR ''/'')" "path_char (CHR ''a'')" by code_simp+
  moreover assume "c = CHR ''/'' \<or> pattern_char c"
  ultimately show ?thesis
    using pattern_char_fill [of c] pattern_char_graphic [of c]
    by (auto simp: fill_char_def path_char_def split: if_splits)
qed

lemma pattern_segments:
  assumes "validateRelativePattern p" and "s \<in> set (split_on (CHR ''/'') p)"
  shows "normal_segment s" and "\<forall>c\<in>set s. pattern_char c"
  using assms by (auto simp: validateRelativePattern_def normal_segment_def list_all_iff split: if_splits)

lemma fill_normal:
  assumes "normal_segment s"
  shows "normal_segment (map fill_char s)"
proof -
  have "fill_char c = CHR ''.'' \<longleftrightarrow> c = CHR ''.''" for c by (simp add: fill_char_def)
  with assms show ?thesis by (auto simp: normal_segment_def map_eq_Cons_conv)
qed

lemma join_set: "set (join_with sep ps) \<subseteq> set sep \<union> \<Union> (set ` set ps)"
  by (induction sep ps rule: join_with.induct) auto

lemma pattern_has_file:
  assumes "validateRelativePattern p"
  shows "validateRelativePath (map fill_char p) \<and> RelativePathPatternMatches p (map fill_char p)"
proof
  let ?f = "map fill_char p" and ?ss = "split_on (CHR ''/'') p"
  note segs = pattern_segments [OF assms]
  have "c = CHR ''/'' \<or> pattern_char c" if "c \<in> set p" for c
    using that join_set [of "''/''" ?ss] segs(2) by (auto simp: join_split)
  then have g: "\<forall>c\<in>set ?f. path_char c" using path_char_fill by auto
  have split: "split_on (CHR ''/'') ?f = map (map fill_char) ?ss" by (rule split_on_fill)
  then have norm: "\<forall>s\<in>set (split_on (CHR ''/'') ?f). normal_segment s"
    using segs(1) fill_normal by auto
  have rel: "\<not> has_prefix ?f ''/''"
  proof
    assume "has_prefix ?f ''/''"
    then obtain r where "?f = CHR ''/'' # r" by (auto simp: has_prefix_iff)
    with norm show False by (simp add: normal_segment_def)
  qed
  have up: "\<not> has_prefix ?f ''../''"
  proof
    assume "has_prefix ?f ''../''"
    then obtain r where "?f = ''../'' @ r" by (auto simp: has_prefix_iff)
    with norm show False by (simp add: normal_segment_def)
  qed
  have ne: "?f \<noteq> []" "?f \<noteq> ''.''" "?f \<noteq> ''..''"
  proof -
    have bad: "list_all (\<lambda>t. \<not> list_all normal_segment (split_on (CHR ''/'') t)) [[], ''.'', ''..'']" by code_simp
    have "?f \<notin> set [[], ''.'', ''..'']" using norm bad unfolding list_all_iff by blast
    then show "?f \<noteq> []" "?f \<noteq> ''.''" "?f \<noteq> ''..''" by simp_all
  qed
  have clean: "path_clean ?f = ?f"
    using rel norm ne(1) by (simp add: path_clean_def Let_def clean_fold_normal join_split)
  have "length ?f \<le> maxPathBytes" using assms by (simp add: validateRelativePattern_def split: if_splits)
  moreover have "trim_space ?f = ?f" using g by (intro trim_graphic) (simp add: path_char_def)
  moreover have "CHR 0x5C \<notin> set ?f" "CHR 0x00 \<notin> set ?f" "\<not> (\<exists>c\<in>set ?f. glob_char c)" "\<not> hasControl ?f"
    using g path_char_not path_chars by blast+
  ultimately show "validateRelativePath ?f"
    using rel up clean ne unfolding validateRelativePath_def Let_def by simp
  show "RelativePathPatternMatches p ?f"
    unfolding RelativePathPatternMatches_def split
  proof (subst match_parts_spec)
    show "\<forall>s\<in>set ?ss. plain_pattern s"
      using segs(2) pattern_char_plain by (auto simp: plain_pattern_def)
    show "\<forall>f\<in>set (map (map fill_char) ?ss). plain_name f"
      using split g set_split_on split_on_parts unfolding plain_name_def by (metis path_char_ascii subsetD)
  qed (rule path_pattern_fill)
qed

text \<open>So the repository paths of a valid scope are always met by some file.\<close>

definition scope_files :: "Scope \<Rightarrow> gostring list" where
  "scope_files s = map (map fill_char) (scp_RepositoryPaths s)"

lemma scope_files_valid: "Scope_Validate s \<Longrightarrow> \<forall>f\<in>set (scope_files s). validateRelativePath f"
  using pattern_has_file by (auto simp: scope_files_def Scope_Validate_def list_all_iff split: if_splits)

lemma scope_files_match:
  assumes "Scope_Validate s" and "set (scope_files s) \<subseteq> F"
  shows "scp_RepositoryPaths s = [] \<or> (\<exists>f\<in>F. fileMatchesAnyRelativePathPattern f (scp_RepositoryPaths s))"
proof (cases "scp_RepositoryPaths s")
  case (Cons p ps)
  with assms(1) have "validateRelativePattern p" by (auto simp: Scope_Validate_def list_all_iff split: if_splits)
  from pattern_has_file [OF this] Cons assms(2) show ?thesis by (auto simp: scope_files_def)
qed simp

end
