(* ===== verification/Exp_Conflict.thy ===== *)
theory Exp_Conflict
  imports Exp_Scope
begin

text \<open>
  The conflict preflight (\<open>internal/experience/conflict.go\<close>): a semantic proposal against the
  active experiences. A Go map used as a set is the list of its keys in order of insertion; where the
  code ranges over one it sorts the result. Reading a field of a nil pointer is a panic.
\<close>

section \<open>Advisories\<close>

abbreviation maxConflictExperienceRefs :: nat where "maxConflictExperienceRefs \<equiv> 64"
abbreviation maxConflictReasonCodes :: nat where "maxConflictReasonCodes \<equiv> 16"

datatype ConflictState =
  ConflictNoConflict | ConflictPossibleOverlap | ConflictPossibleContradiction | ConflictStateOther gostring

fun ConflictState_Valid :: "ConflictState \<Rightarrow> bool" where
  "ConflictState_Valid (ConflictStateOther s) = False"
| "ConflictState_Valid value = True"

datatype ConflictReasonCode =
  ConflictReasonNoActiveExperiences | ConflictReasonDifferentProject | ConflictReasonDisjointSession
  | ConflictReasonDisjointHarnesses | ConflictReasonDisjointModels | ConflictReasonDisjointTaskFamilies
  | ConflictReasonOverlappingScope | ConflictReasonFileVerifierOpposition
  | ConflictReasonPatternVerifierOpposition | ConflictReasonExperienceRefsTruncated
  | ConflictReasonActiveQueryCapReached
  | ConflictReasonCodeOther gostring

fun ConflictReasonCode_Valid :: "ConflictReasonCode \<Rightarrow> bool" where
  "ConflictReasonCode_Valid (ConflictReasonCodeOther s) = False"
| "ConflictReasonCode_Valid value = True"

fun ConflictReasonCode_text :: "ConflictReasonCode \<Rightarrow> gostring" where
  "ConflictReasonCode_text ConflictReasonNoActiveExperiences = ''no_active_experiences''"
| "ConflictReasonCode_text ConflictReasonDifferentProject = ''different_project''"
| "ConflictReasonCode_text ConflictReasonDisjointSession = ''disjoint_session''"
| "ConflictReasonCode_text ConflictReasonDisjointHarnesses = ''disjoint_harnesses''"
| "ConflictReasonCode_text ConflictReasonDisjointModels = ''disjoint_models''"
| "ConflictReasonCode_text ConflictReasonDisjointTaskFamilies = ''disjoint_task_families''"
| "ConflictReasonCode_text ConflictReasonOverlappingScope = ''overlapping_scope''"
| "ConflictReasonCode_text ConflictReasonFileVerifierOpposition = ''file_verifier_opposition''"
| "ConflictReasonCode_text ConflictReasonPatternVerifierOpposition = ''path_pattern_verifier_opposition''"
| "ConflictReasonCode_text ConflictReasonExperienceRefsTruncated = ''experience_refs_truncated''"
| "ConflictReasonCode_text ConflictReasonActiveQueryCapReached = ''active_experience_query_cap_reached''"
| "ConflictReasonCode_text (ConflictReasonCodeOther s) = s"

record ConflictAdvisory =
  adv_ProposalID :: gostring
  adv_State :: ConflictState
  adv_ConflictingExperienceRefs :: "ExperienceRef list"
  adv_ReasonCodes :: "ConflictReasonCode list"

definition ConflictAdvisory_Validate :: "ConflictAdvisory \<Rightarrow> bool" where
  "ConflictAdvisory_Validate value =
    (let refs = adv_ConflictingExperienceRefs value; reasons = adv_ReasonCodes value;
         hasQueryCapReason = (ConflictReasonActiveQueryCapReached \<in> set reasons) in
     if \<not> validateIdentifier (adv_ProposalID value) then False
     else if \<not> ConflictState_Valid (adv_State value) then False
     else if length refs > maxConflictExperienceRefs then False
     else if reasons = [] \<or> length reasons > maxConflictReasonCodes then False
     else if adv_State value = ConflictNoConflict \<and> refs \<noteq> [] then False
     else if \<not> list_all ExperienceRef_Validate refs \<or> \<not> distinct refs then False
     else if \<not> list_all ConflictReasonCode_Valid reasons \<or> \<not> distinct reasons then False
     else if adv_State value = ConflictNoConflict \<and> hasQueryCapReason then False
     else if adv_State value = ConflictPossibleOverlap \<and> refs = [] \<and> \<not> hasQueryCapReason then False
     else if adv_State value = ConflictPossibleContradiction \<and> refs = [] then False
     else True)"

section \<open>Scopes and verifiers\<close>

definition exactSetsDisjoint :: "'a list \<Rightarrow> 'a list \<Rightarrow> bool" where
  "exactSetsDisjoint left right =
    (if left = [] \<or> right = [] then False
     else \<not> list_ex (\<lambda>value. value \<in> set left) right)"

definition scopesProvenDisjoint :: "Scope \<Rightarrow> Scope \<Rightarrow> bool \<times> ConflictReasonCode" where
  "scopesProvenDisjoint left right =
    (if scp_ProjectIdentity left \<noteq> scp_ProjectIdentity right then (True, ConflictReasonDifferentProject)
     else if scp_Kind left = ScopeSession \<and> scp_Kind right = ScopeSession \<and>
       scp_SessionKey left \<noteq> scp_SessionKey right then (True, ConflictReasonDisjointSession)
     else if exactSetsDisjoint (scp_Harnesses left) (scp_Harnesses right) then (True, ConflictReasonDisjointHarnesses)
     else if exactSetsDisjoint (scp_Models left) (scp_Models right) then (True, ConflictReasonDisjointModels)
     else if exactSetsDisjoint (scp_TaskFamilies left) (scp_TaskFamilies right)
       then (True, ConflictReasonDisjointTaskFamilies)
     else (False, ConflictReasonCodeOther []))"

text \<open>
  \<open>verifierOpposition\<close>: None is the panic of a nil specification; the conditions are tried in the
  code's order and read a specification only when both kinds match.
\<close>

abbreviation both :: "'a option \<Rightarrow> 'b option \<Rightarrow> ('a \<Rightarrow> 'b \<Rightarrow> bool) \<Rightarrow> bool option" where
  "both a b test \<equiv> (case a of None \<Rightarrow> None | Some x \<Rightarrow> (case b of None \<Rightarrow> None | Some y \<Rightarrow> Some (test x y)))"

definition samePath :: "Verifier \<Rightarrow> Verifier \<Rightarrow> bool option" where
  "samePath left right = both (vf_File left) (vf_File right) (\<lambda>l r. fvs_Path l = fvs_Path r)"

definition pathMatches :: "Verifier \<Rightarrow> Verifier \<Rightarrow> bool option" where
  "pathMatches left right =
    both (vf_File left) (vf_PathPattern right) (\<lambda>l r. fileMatchesAnyRelativePathPattern (fvs_Path l) (pvs_Patterns r))"

definition oppositionCases :: "Verifier \<Rightarrow> Verifier \<Rightarrow> (bool \<times> bool option \<times> ConflictReasonCode) list" where
  "oppositionCases left right =
    [(vf_Kind left = VerifierFileModified \<and> vf_Kind right = VerifierFileNotModified,
        samePath left right, ConflictReasonFileVerifierOpposition),
     (vf_Kind right = VerifierFileModified \<and> vf_Kind left = VerifierFileNotModified,
        samePath right left, ConflictReasonFileVerifierOpposition),
     (vf_Kind left = VerifierFileModified \<and> vf_Kind right = VerifierPathPatternNotModified,
        pathMatches left right, ConflictReasonPatternVerifierOpposition),
     (vf_Kind right = VerifierFileModified \<and> vf_Kind left = VerifierPathPatternNotModified,
        pathMatches right left, ConflictReasonPatternVerifierOpposition)]"

fun firstOpposition :: "(bool \<times> bool option \<times> ConflictReasonCode) list \<Rightarrow> (ConflictReasonCode \<times> bool) option" where
  "firstOpposition [] = Some (ConflictReasonCodeOther [], False)"
| "firstOpposition ((kinds, test, reason) # rest) =
    (if \<not> kinds then firstOpposition rest
     else case test of
       None \<Rightarrow> None
     | Some True \<Rightarrow> Some (reason, True)
     | Some False \<Rightarrow> firstOpposition rest)"

definition verifierOpposition :: "Verifier \<Rightarrow> Verifier \<Rightarrow> (ConflictReasonCode \<times> bool) option" where
  "verifierOpposition left right = firstOpposition (oppositionCases left right)"

section \<open>The preflight\<close>

definition addKey :: "'a \<Rightarrow> 'a list \<Rightarrow> 'a list" where
  "addKey k ks = (if k \<in> set ks then ks else ks @ [k])"

definition sortedConflictRefs :: "ExperienceRef list \<Rightarrow> ExperienceRef list" where
  "sortedConflictRefs values = sort_key (\<lambda>r. (xr_ExperienceID r, xr_Version r)) values"

definition sortedConflictReasons :: "ConflictReasonCode list \<Rightarrow> ConflictReasonCode list" where
  "sortedConflictReasons values = sort_key ConflictReasonCode_text values"

record conflict_tally =
  disjointReasons :: "ConflictReasonCode list"
  conflictReasons :: "ConflictReasonCode list"
  conflictRefs :: "ExperienceRef list"
  contradiction :: bool

datatype preflight_error = NilPointer | InvalidProposal | InvalidExperience | InvalidAdvisory ConflictAdvisory

definition refOf :: "Experience \<Rightarrow> ExperienceRef" where
  "refOf active = \<lparr>xr_ExperienceID = ex_ExperienceID active, xr_Version = ex_Version active\<rparr>"

definition preflightStep ::
    "encoder \<Rightarrow> ExperienceProposal \<Rightarrow> Experience \<Rightarrow> conflict_tally \<Rightarrow> preflight_error + conflict_tally" where
  "preflightStep E p active tally =
    (if \<not> Experience_Validate E active then Inl InvalidExperience
     else let (disjoint, reason) = scopesProvenDisjoint (xp_Scope p) (ex_Scope active) in
       if disjoint then Inr (tally\<lparr>disjointReasons := addKey reason (disjointReasons tally)\<rparr>)
       else let tally = tally\<lparr>conflictRefs := addKey (refOf active) (conflictRefs tally)\<rparr> in
         case verifierOpposition (xp_Verifier p) (ex_Verifier active) of
           None \<Rightarrow> Inl NilPointer
         | Some (reason, opposed) \<Rightarrow>
             if opposed then
               Inr (tally\<lparr>contradiction := True, conflictReasons := addKey reason (conflictReasons tally)\<rparr>)
             else Inr (tally\<lparr>conflictReasons := addKey ConflictReasonOverlappingScope (conflictReasons tally)\<rparr>))"

fun preflightLoop ::
    "encoder \<Rightarrow> ExperienceProposal \<Rightarrow> Experience list \<Rightarrow> conflict_tally \<Rightarrow> preflight_error + conflict_tally" where
  "preflightLoop E p [] tally = Inr tally"
| "preflightLoop E p (active # rest) tally =
    (case preflightStep E p active tally of
       Inl e \<Rightarrow> Inl e
     | Inr tally' \<Rightarrow> preflightLoop E p rest tally')"

definition validated :: "ConflictAdvisory \<Rightarrow> preflight_error + ConflictAdvisory" where
  "validated value = (if ConflictAdvisory_Validate value then Inr value else Inl (InvalidAdvisory value))"

definition concludeTally :: "gostring \<Rightarrow> conflict_tally \<Rightarrow> ConflictAdvisory" where
  "concludeTally proposalID tally =
    (let base = \<lparr>adv_ProposalID = proposalID, adv_State = ConflictNoConflict,
         adv_ConflictingExperienceRefs = [], adv_ReasonCodes = []\<rparr> in
     if conflictRefs tally = [] then base\<lparr>adv_ReasonCodes := sortedConflictReasons (disjointReasons tally)\<rparr>
     else
       let refs = sortedConflictRefs (conflictRefs tally);
           truncated = length refs > maxConflictExperienceRefs;
           reasons = (if truncated then addKey ConflictReasonExperienceRefsTruncated (conflictReasons tally)
             else conflictReasons tally)
       in base\<lparr>adv_State := if contradiction tally then ConflictPossibleContradiction else ConflictPossibleOverlap,
            adv_ConflictingExperienceRefs := if truncated then take maxConflictExperienceRefs refs else refs,
            adv_ReasonCodes := sortedConflictReasons reasons\<rparr>)"

abbreviation empty_tally :: conflict_tally where
  "empty_tally \<equiv> \<lparr>disjointReasons = [], conflictReasons = [], conflictRefs = [], contradiction = False\<rparr>"

definition PreflightSemanticProposalConflict ::
    "encoder \<Rightarrow> SemanticProposal \<Rightarrow> Experience list \<Rightarrow> preflight_error + ConflictAdvisory" where
  "PreflightSemanticProposalConflict E proposal activeExperiences =
    (if \<not> SemanticProposal_Validate E proposal then Inl InvalidProposal
     else if activeExperiences = [] then
       validated \<lparr>adv_ProposalID = sp_ProposalID proposal, adv_State = ConflictNoConflict,
         adv_ConflictingExperienceRefs = [], adv_ReasonCodes = [ConflictReasonNoActiveExperiences]\<rparr>
     else case preflightLoop E (sp_Proposal proposal) activeExperiences empty_tally of
       Inl e \<Rightarrow> Inl e
     | Inr tally \<Rightarrow> validated (concludeTally (sp_ProposalID proposal) tally))"

definition MarkConflictActiveQueryCapReached :: "ConflictAdvisory \<Rightarrow> preflight_error + ConflictAdvisory" where
  "MarkConflictActiveQueryCapReached value =
    (if \<not> ConflictAdvisory_Validate value
     then Inl (InvalidAdvisory \<lparr>adv_ProposalID = [], adv_State = ConflictStateOther [],
       adv_ConflictingExperienceRefs = [], adv_ReasonCodes = []\<rparr>)
     else
       let value = (if adv_State value = ConflictNoConflict then value\<lparr>adv_State := ConflictPossibleOverlap\<rparr> else value);
           found = (ConflictReasonActiveQueryCapReached \<in> set (adv_ReasonCodes value));
           value = (if \<not> found
             then value\<lparr>adv_ReasonCodes := sort_key ConflictReasonCode_text
               (adv_ReasonCodes value @ [ConflictReasonActiveQueryCapReached])\<rparr>
             else value)
       in validated value)"

section \<open>Disjoint scopes\<close>

lemma exactSetsDisjoint_iff:
  "exactSetsDisjoint l r \<longleftrightarrow> \<not> (\<exists>v. (l = [] \<or> v \<in> set l) \<and> (r = [] \<or> v \<in> set r))"
  by (cases l; cases r) (auto simp: exactSetsDisjoint_def list_ex_iff)

lemma scopesProvenDisjoint_sound:
  assumes "fst (scopesProvenDisjoint l r)" and "in_scope l c"
  shows "\<not> in_scope r c"
proof -
  from assms(1) consider "scp_ProjectIdentity l \<noteq> scp_ProjectIdentity r"
    | "scp_Kind l = ScopeSession" "scp_Kind r = ScopeSession" "scp_SessionKey l \<noteq> scp_SessionKey r"
    | "exactSetsDisjoint (scp_Harnesses l) (scp_Harnesses r)"
    | "exactSetsDisjoint (scp_Models l) (scp_Models r)"
    | "exactSetsDisjoint (scp_TaskFamilies l) (scp_TaskFamilies r)"
    unfolding scopesProvenDisjoint_def by (simp split: if_splits)
  then show ?thesis
    using assms(2) by cases (simp_all add: exactSetsDisjoint_iff in_scope_def, metis+)
qed

lemma scopesProvenDisjoint_complete:
  assumes "\<not> fst (scopesProvenDisjoint l r)" and "Scope_Validate l" and "Scope_Validate r"
  shows "\<exists>c. valid_context c \<and> in_scope l c \<and> in_scope r c"
proof -
  from assms(1) have p: "scp_ProjectIdentity l = scp_ProjectIdentity r"
    and s: "scp_Kind l = ScopeSession \<Longrightarrow> scp_Kind r = ScopeSession \<Longrightarrow> scp_SessionKey l = scp_SessionKey r"
    and h: "\<not> exactSetsDisjoint (scp_Harnesses l) (scp_Harnesses r)"
    and m: "\<not> exactSetsDisjoint (scp_Models l) (scp_Models r)"
    and t: "\<not> exactSetsDisjoint (scp_TaskFamilies l) (scp_TaskFamilies r)"
    by (auto simp: scopesProvenDisjoint_def split: if_splits)
  from h obtain hv where hv: "scp_Harnesses l = [] \<or> hv \<in> set (scp_Harnesses l)"
    "scp_Harnesses r = [] \<or> hv \<in> set (scp_Harnesses r)" by (auto simp: exactSetsDisjoint_iff)
  from m obtain mv where mv: "scp_Models l = [] \<or> mv \<in> set (scp_Models l)"
    "scp_Models r = [] \<or> mv \<in> set (scp_Models r)" by (auto simp: exactSetsDisjoint_iff)
  from t obtain tv where tv: "scp_TaskFamilies l = [] \<or> tv \<in> set (scp_TaskFamilies l)"
    "scp_TaskFamilies r = [] \<or> tv \<in> set (scp_TaskFamilies r)" by (auto simp: exactSetsDisjoint_iff)
  let ?files = "scope_files l @ scope_files r"
  let ?c = "\<lparr>cw_Project = scp_ProjectIdentity l,
    cw_Session = (if scp_Kind l = ScopeSession then scp_SessionKey l else scp_SessionKey r),
    cw_Harness = hv, cw_Model = mv, cw_TaskFamily = tv, cw_Files = ?files\<rparr>"
  have "valid_context ?c"
    using scope_files_valid [OF assms(2)] scope_files_valid [OF assms(3)] by (auto simp: valid_context_def)
  moreover have "in_scope l ?c"
    using hv(1) mv(1) tv(1) scope_files_match [OF assms(2), of "set ?files"]
    by (simp add: in_scope_def bex_Un)
  moreover have "in_scope r ?c"
    using p s hv(2) mv(2) tv(2) scope_files_match [OF assms(3), of "set ?files"]
    by (simp add: in_scope_def bex_Un)
  ultimately show ?thesis by blast
qed

text \<open>What a file verifier asks of the set of files a session modified.\<close>

definition satisfied_by :: "Verifier \<Rightarrow> gostring set \<Rightarrow> bool" where
  "satisfied_by v modified \<longleftrightarrow>
    (case vf_Kind v of
       VerifierFileModified \<Rightarrow> (\<forall>f. vf_File v = Some f \<longrightarrow> fvs_Path f \<in> modified)
     | VerifierFileNotModified \<Rightarrow> (\<forall>f. vf_File v = Some f \<longrightarrow> fvs_Path f \<notin> modified)
     | VerifierPathPatternNotModified \<Rightarrow>
         (\<forall>s. vf_PathPattern v = Some s \<longrightarrow>
           (\<forall>f\<in>modified. \<not> fileMatchesAnyRelativePathPattern f (pvs_Patterns s)))
     | _ \<Rightarrow> True)"

definition fileKind :: "Verifier \<Rightarrow> bool" where
  "fileKind v \<longleftrightarrow> vf_Kind v = VerifierFileModified"

lemma satisfied_by_nothing: "\<not> fileKind v \<Longrightarrow> satisfied_by v {}"
  by (cases "vf_Kind v") (simp_all add: satisfied_by_def fileKind_def)

lemma no_opposition:
  "fileKind l = fileKind r \<Longrightarrow> verifierOpposition l r = Some (ConflictReasonCodeOther [], False)"
  by (auto simp: verifierOpposition_def oppositionCases_def fileKind_def)

lemma opposition_modified:
  assumes "vf_Kind l = VerifierFileModified" and "vf_File l = Some f" and "Verifier_Validate r" and "\<not> fileKind r"
  shows "\<exists>reason. verifierOpposition l r = Some (reason, \<not> satisfied_by r {fvs_Path f}) \<and>
      verifierOpposition r l = Some (reason, \<not> satisfied_by r {fvs_Path f}) \<and>
      (\<not> satisfied_by r {fvs_Path f} \<longrightarrow>
        reason \<in> {ConflictReasonFileVerifierOpposition, ConflictReasonPatternVerifierOpposition})"
proof -
  consider "vf_Kind r = VerifierFileNotModified" | "vf_Kind r = VerifierPathPatternNotModified"
    | "vf_Kind r \<noteq> VerifierFileNotModified" "vf_Kind r \<noteq> VerifierPathPatternNotModified" by blast
  then show ?thesis
  proof cases
    case 1
    with file_verifier_present [OF assms(3)] obtain g where "vf_File r = Some g" by blast
    with 1 assms(1,2) show ?thesis
      by (cases "fvs_Path f = fvs_Path g")
        (simp_all add: verifierOpposition_def oppositionCases_def samePath_def satisfied_by_def)
  next
    case 2
    with pattern_verifier_present [OF assms(3)] obtain s where "vf_PathPattern r = Some s" by blast
    with 2 assms(1,2) show ?thesis
      by (cases "fileMatchesAnyRelativePathPattern (fvs_Path f) (pvs_Patterns s)")
        (simp_all add: verifierOpposition_def oppositionCases_def pathMatches_def satisfied_by_def)
  next
    case 3
    with assms(4) have "satisfied_by r {fvs_Path f}"
      by (cases "vf_Kind r") (simp_all add: satisfied_by_def fileKind_def)
    with 3 assms show ?thesis by (simp add: verifierOpposition_def oppositionCases_def fileKind_def)
  qed
qed

lemma satisfied_antimono:
  "\<not> fileKind v \<Longrightarrow> satisfied_by v m \<Longrightarrow> n \<subseteq> m \<Longrightarrow> satisfied_by v n"
  by (cases "vf_Kind v") (auto simp: satisfied_by_def fileKind_def)

definition compatible :: "Verifier \<Rightarrow> Verifier \<Rightarrow> bool" where
  "compatible l r \<longleftrightarrow> (\<exists>m. satisfied_by l m \<and> satisfied_by r m)"

lemma compatible_sym: "compatible l r = compatible r l"
  by (auto simp: compatible_def)

lemma compatible_modified:
  assumes "vf_Kind l = VerifierFileModified" and "vf_File l = Some f" and "\<not> fileKind r"
  shows "compatible l r \<longleftrightarrow> satisfied_by r {fvs_Path f}"
proof
  assume "compatible l r"
  then obtain m where "fvs_Path f \<in> m" "satisfied_by r m"
    using assms(1,2) by (auto simp: compatible_def satisfied_by_def)
  then show "satisfied_by r {fvs_Path f}" using satisfied_antimono [OF assms(3)] by blast
next
  assume "satisfied_by r {fvs_Path f}"
  moreover have "satisfied_by l {fvs_Path f}" using assms(1,2) by (simp add: satisfied_by_def)
  ultimately show "compatible l r" unfolding compatible_def by blast
qed

lemma opposition_spec:
  assumes "Verifier_Validate l" and "Verifier_Validate r"
  shows "\<exists>reason. verifierOpposition l r = Some (reason, \<not> compatible l r) \<and>
    (\<not> compatible l r \<longrightarrow>
      reason \<in> {ConflictReasonFileVerifierOpposition, ConflictReasonPatternVerifierOpposition})"
proof -
  consider "fileKind l" "fileKind r" | "\<not> fileKind l" "\<not> fileKind r" | "fileKind l" "\<not> fileKind r"
    | "\<not> fileKind l" "fileKind r" by blast
  then show ?thesis
  proof cases
    case 1
    then obtain f g where "vf_File l = Some f" "vf_File r = Some g"
      using file_verifier_present [OF assms(1)] file_verifier_present [OF assms(2)] by (auto simp: fileKind_def)
    with 1 have "satisfied_by l {fvs_Path f, fvs_Path g}" "satisfied_by r {fvs_Path f, fvs_Path g}"
      by (simp_all add: satisfied_by_def fileKind_def)
    then have "compatible l r" unfolding compatible_def by blast
    with 1 no_opposition [of l r] show ?thesis by simp
  next
    case 2
    then have "compatible l r" unfolding compatible_def using satisfied_by_nothing by blast
    with 2 no_opposition [of l r] show ?thesis by simp
  next
    case 3
    then obtain f where f: "vf_Kind l = VerifierFileModified" "vf_File l = Some f"
      using file_verifier_present [OF assms(1)] by (auto simp: fileKind_def)
    from opposition_modified [OF f assms(2) 3(2)] show ?thesis
      unfolding compatible_modified [OF f 3(2)] by blast
  next
    case 4
    then obtain f where f: "vf_Kind r = VerifierFileModified" "vf_File r = Some f"
      using file_verifier_present [OF assms(2)] by (auto simp: fileKind_def)
    from opposition_modified [OF f assms(1) 4(1)] show ?thesis
      unfolding compatible_sym [of l r] compatible_modified [OF f 4(1)] by blast
  qed
qed

section \<open>What the preflight finds\<close>

lemma set_addKey [simp]: "set (addKey k ks) = insert k (set ks)"
  by (auto simp: addKey_def)

lemma addKey_nonempty [simp]: "addKey k ks \<noteq> []"
  by (auto simp: addKey_def)

lemma distinct_addKey [simp]: "distinct (addKey k ks) = distinct ks"
  by (simp add: addKey_def)

lemma sort_key_set_unique:
  fixes k :: "'a \<Rightarrow> 'b::linorder"
  assumes "distinct xs" and "distinct ys" and "set xs = set ys" and "inj_on k (set xs)"
  shows "sort_key k xs = sort_key k ys"
proof -
  have "map k (sort_key k xs) = map k (sort_key k ys)"
    by (rule sorted_distinct_set_unique) (use assms in \<open>simp_all add: distinct_map\<close>)
  moreover have "inj_on k (set (sort_key k xs) \<union> set (sort_key k ys))" using assms by simp
  ultimately show ?thesis by (rule inj_on_map_eq_map [THEN iffD1, rotated])
qed

definition conflict_codes :: "ConflictReasonCode list" where
  "conflict_codes =
    [ConflictReasonNoActiveExperiences, ConflictReasonDifferentProject, ConflictReasonDisjointSession,
     ConflictReasonDisjointHarnesses, ConflictReasonDisjointModels, ConflictReasonDisjointTaskFamilies,
     ConflictReasonOverlappingScope, ConflictReasonFileVerifierOpposition,
     ConflictReasonPatternVerifierOpposition, ConflictReasonExperienceRefsTruncated,
     ConflictReasonActiveQueryCapReached]"

lemma ConflictReasonCode_Valid_iff: "ConflictReasonCode_Valid r \<longleftrightarrow> r \<in> set conflict_codes"
  by (cases r) (simp_all add: conflict_codes_def)

lemma ConflictReasonCode_text_inj: "inj_on ConflictReasonCode_text (set conflict_codes)"
proof -
  have "distinct (map ConflictReasonCode_text conflict_codes)" by code_simp
  then show ?thesis by (simp add: distinct_map)
qed

lemma valid_reasons_bound:
  assumes "distinct rs" and "\<forall>r\<in>set rs. ConflictReasonCode_Valid r"
  shows "length rs \<le> 11"
proof -
  have "set rs \<subseteq> set conflict_codes" using assms(2) ConflictReasonCode_Valid_iff by blast
  then have "card (set rs) \<le> card (set conflict_codes)" by (intro card_mono) simp_all
  also have "\<dots> \<le> 11" using card_length [of conflict_codes] by (simp add: conflict_codes_def)
  finally show ?thesis using assms(1) by (simp add: distinct_card)
qed

definition overlapping :: "ExperienceProposal \<Rightarrow> Experience \<Rightarrow> bool" where
  "overlapping p a \<longleftrightarrow> (\<exists>c. valid_context c \<and> in_scope (xp_Scope p) c \<and> in_scope (ex_Scope a) c)"

lemma overlapping_iff:
  assumes "Scope_Validate (xp_Scope p)" and "Experience_Validate E a"
  shows "fst (scopesProvenDisjoint (xp_Scope p) (ex_Scope a)) \<longleftrightarrow> \<not> overlapping p a"
  using scopesProvenDisjoint_sound
    scopesProvenDisjoint_complete [OF _ assms(1) Experience_ValidateD(1) [OF assms(2)]]
  unfolding overlapping_def by blast

definition opposing :: "ExperienceProposal \<Rightarrow> Experience \<Rightarrow> bool" where
  "opposing p a \<longleftrightarrow> overlapping p a \<and> \<not> compatible (xp_Verifier p) (ex_Verifier a)"

definition overlapReason :: "ExperienceProposal \<Rightarrow> Experience \<Rightarrow> ConflictReasonCode" where
  "overlapReason p a =
    (case verifierOpposition (xp_Verifier p) (ex_Verifier a) of
       Some (reason, True) \<Rightarrow> reason
     | _ \<Rightarrow> ConflictReasonOverlappingScope)"

definition disjointReason :: "ExperienceProposal \<Rightarrow> Experience \<Rightarrow> ConflictReasonCode" where
  "disjointReason p a = snd (scopesProvenDisjoint (xp_Scope p) (ex_Scope a))"

definition tally_of :: "ExperienceProposal \<Rightarrow> Experience set \<Rightarrow> conflict_tally \<Rightarrow> bool" where
  "tally_of p A t \<longleftrightarrow>
    set (conflictRefs t) = refOf ` {a \<in> A. overlapping p a} \<and> distinct (conflictRefs t) \<and>
    set (conflictReasons t) = overlapReason p ` {a \<in> A. overlapping p a} \<and> distinct (conflictReasons t) \<and>
    set (disjointReasons t) = disjointReason p ` {a \<in> A. \<not> overlapping p a} \<and> distinct (disjointReasons t) \<and>
    (contradiction t \<longleftrightarrow> (\<exists>a\<in>A. opposing p a))"

lemma insert_where: "{a \<in> insert b A. P a} = (if P b then insert b {a \<in> A. P a} else {a \<in> A. P a})"
  by auto

lemma preflightStep_tally:
  assumes "tally_of p A t" and "Experience_Validate E a" and "Verifier_Validate (xp_Verifier p)"
    and "Scope_Validate (xp_Scope p)"
  shows "\<exists>t'. preflightStep E p a t = Inr t' \<and> tally_of p (insert a A) t'"
proof -
  obtain reason where opp: "verifierOpposition (xp_Verifier p) (ex_Verifier a) =
      Some (reason, \<not> compatible (xp_Verifier p) (ex_Verifier a))"
    using opposition_spec [OF assms(3) Experience_ValidateD(3) [OF assms(2)]] by blast
  note scope = overlapping_iff [OF assms(4,2)]
  show ?thesis
  proof (cases "overlapping p a")
    case True
    with assms(1,2) scope opp show ?thesis
      unfolding tally_of_def insert_where
      by (cases "compatible (xp_Verifier p) (ex_Verifier a)")
        (simp_all add: preflightStep_def case_prod_beta Let_def overlapReason_def opposing_def)
  next
    case False
    with assms(1,2) scope show ?thesis
      unfolding tally_of_def insert_where
      by (simp add: preflightStep_def case_prod_beta Let_def disjointReason_def opposing_def)
  qed
qed

lemma preflightLoop_tally:
  assumes "tally_of p A t" and "\<forall>a\<in>set as. Experience_Validate E a" and "Verifier_Validate (xp_Verifier p)"
    and "Scope_Validate (xp_Scope p)"
  shows "\<exists>t'. preflightLoop E p as t = Inr t' \<and> tally_of p (A \<union> set as) t'"
  using assms(1,2)
proof (induction as arbitrary: A t)
  case (Cons a as)
  from preflightStep_tally [OF Cons.prems(1) _ assms(3,4), of E a] Cons.prems(2)
  obtain u where u: "preflightStep E p a t = Inr u" "tally_of p (insert a A) u" by auto
  from Cons.IH [OF u(2)] Cons.prems(2) u(1) show ?case by simp
qed simp

lemma preflightLoop_invalid:
  assumes "a \<in> set as" and "\<not> Experience_Validate E a" and "tally_of p A t" and "Verifier_Validate (xp_Verifier p)"
    and "Scope_Validate (xp_Scope p)"
  shows "preflightLoop E p as t = Inl InvalidExperience"
  using assms(1,3)
proof (induction as arbitrary: A t)
  case (Cons b as)
  show ?case
  proof (cases "Experience_Validate E b")
    case True
    from preflightStep_tally [OF Cons.prems(2) True assms(4,5)]
    obtain u where u: "preflightStep E p b t = Inr u" "tally_of p (insert b A) u" by blast
    from True assms(2) Cons.prems(1) have "a \<in> set as" by auto
    from Cons.IH [OF this u(2)] u(1) show ?thesis by simp
  qed (simp add: preflightStep_def)
qed simp

lemma empty_tally_of: "tally_of p {} empty_tally"
  by (simp add: tally_of_def)

lemma overlapReason_code:
  assumes "Verifier_Validate (xp_Verifier p)" and "Experience_Validate E a"
  shows "overlapReason p a \<in> {ConflictReasonOverlappingScope, ConflictReasonFileVerifierOpposition,
    ConflictReasonPatternVerifierOpposition}"
  using opposition_spec [OF assms(1) Experience_ValidateD(3) [OF assms(2)]]
  by (auto simp: overlapReason_def split: bool.splits)

lemma disjointReason_code:
  assumes "Scope_Validate (xp_Scope p)" and "Experience_Validate E a" and "\<not> overlapping p a"
  shows "disjointReason p a \<in> {ConflictReasonDifferentProject, ConflictReasonDisjointSession,
    ConflictReasonDisjointHarnesses, ConflictReasonDisjointModels, ConflictReasonDisjointTaskFamilies}"
  using overlapping_iff [OF assms(1,2)] assms(3)
  by (auto simp: disjointReason_def scopesProvenDisjoint_def split: if_splits)

definition ref_key :: "ExperienceRef \<Rightarrow> gostring \<times> int" where
  "ref_key r = (xr_ExperienceID r, xr_Version r)"

lemma ref_key_inj: "inj_on ref_key A"
  by (rule inj_onI) (simp add: ref_key_def)

lemma sortedConflictRefs_key: "sortedConflictRefs = sort_key ref_key"
  by (simp add: fun_eq_iff sortedConflictRefs_def ref_key_def [abs_def])

lemma tally_reasons_valid:
  assumes "tally_of p A t" and "\<forall>a\<in>A. Experience_Validate E a" and "Verifier_Validate (xp_Verifier p)"
    and "Scope_Validate (xp_Scope p)"
  shows "set (conflictReasons t) \<subseteq> set conflict_codes - {ConflictReasonActiveQueryCapReached}"
    and "set (disjointReasons t) \<subseteq> set conflict_codes - {ConflictReasonActiveQueryCapReached}"
proof -
  have "overlapReason p a \<in> set conflict_codes - {ConflictReasonActiveQueryCapReached}" if "a \<in> A" for a
    using overlapReason_code [OF assms(3), of E a] assms(2) that by (auto simp: conflict_codes_def)
  then show "set (conflictReasons t) \<subseteq> set conflict_codes - {ConflictReasonActiveQueryCapReached}"
    using assms(1) by (auto simp: tally_of_def)
  have "disjointReason p a \<in> set conflict_codes - {ConflictReasonActiveQueryCapReached}"
    if "a \<in> A" "\<not> overlapping p a" for a
    using disjointReason_code [OF assms(4) _ that(2), of E] assms(2) that(1) by (auto simp: conflict_codes_def)
  then show "set (disjointReasons t) \<subseteq> set conflict_codes - {ConflictReasonActiveQueryCapReached}"
    using assms(1) by (auto simp: tally_of_def)
qed

lemma sortedConflictReasons_unique:
  assumes "distinct xs" and "distinct ys" and "set xs = set ys" and "set xs \<subseteq> set conflict_codes"
  shows "sortedConflictReasons xs = sortedConflictReasons ys"
  unfolding sortedConflictReasons_def
  by (rule sort_key_set_unique [OF assms(1-3)]) (rule inj_on_subset [OF ConflictReasonCode_text_inj assms(4)])

lemma concludeTally_unique:
  assumes "tally_of p A t" and "tally_of p A u" and "\<forall>a\<in>A. Experience_Validate E a"
    and "Verifier_Validate (xp_Verifier p)" and "Scope_Validate (xp_Scope p)"
  shows "concludeTally i t = concludeTally i u"
proof -
  note valid = tally_reasons_valid [OF assms(1,3,4,5)]
  have sets: "set (conflictRefs t) = set (conflictRefs u)" "set (conflictReasons t) = set (conflictReasons u)"
    "set (disjointReasons t) = set (disjointReasons u)" "contradiction t = contradiction u"
    and dist: "distinct (conflictRefs t)" "distinct (conflictRefs u)" "distinct (conflictReasons t)"
      "distinct (conflictReasons u)" "distinct (disjointReasons t)" "distinct (disjointReasons u)"
    using assms(1,2) by (auto simp: tally_of_def)
  have refs: "sortedConflictRefs (conflictRefs t) = sortedConflictRefs (conflictRefs u)"
    unfolding sortedConflictRefs_key by (rule sort_key_set_unique [OF dist(1,2) sets(1) ref_key_inj])
  have d: "sortedConflictReasons (disjointReasons t) = sortedConflictReasons (disjointReasons u)"
    using dist sets valid by (intro sortedConflictReasons_unique) auto
  have c: "sortedConflictReasons (conflictReasons t) = sortedConflictReasons (conflictReasons u)"
    using dist sets valid by (intro sortedConflictReasons_unique) auto
  have a: "sortedConflictReasons (addKey ConflictReasonExperienceRefsTruncated (conflictReasons t)) =
      sortedConflictReasons (addKey ConflictReasonExperienceRefsTruncated (conflictReasons u))"
    using dist sets valid by (intro sortedConflictReasons_unique) (auto simp: conflict_codes_def)
  have e: "conflictRefs t = [] \<longleftrightarrow> conflictRefs u = []" using sets(1) by (metis set_empty)
  show ?thesis unfolding concludeTally_def Let_def refs e d sets(4) using a c by (simp split: if_splits)
qed

lemma refOf_valid: "Experience_Validate E a \<Longrightarrow> ExperienceRef_Validate (refOf a)"
  using Experience_ValidateD(4,5) [of E a] by (simp add: ExperienceRef_Validate_def refOf_def)

lemma sortedConflictReasons_props [simp]:
  "set (sortedConflictReasons rs) = set rs" "distinct (sortedConflictReasons rs) = distinct rs"
  "length (sortedConflictReasons rs) = length rs" "sortedConflictReasons rs = [] \<longleftrightarrow> rs = []"
proof -
  show "length (sortedConflictReasons rs) = length rs" by (simp add: sortedConflictReasons_def)
  then show "sortedConflictReasons rs = [] \<longleftrightarrow> rs = []" by (metis length_0_conv)
qed (simp_all add: sortedConflictReasons_def)

lemma sortedConflictRefs_props [simp]:
  "set (sortedConflictRefs rs) = set rs" "distinct (sortedConflictRefs rs) = distinct rs"
  "length (sortedConflictRefs rs) = length rs"
  by (simp_all add: sortedConflictRefs_def)

lemma reasons_valid_bounded:
  assumes "distinct rs" and "set rs \<subseteq> set conflict_codes"
  shows "list_all ConflictReasonCode_Valid rs" and "length rs \<le> 16"
proof -
  have v: "\<forall>r\<in>set rs. ConflictReasonCode_Valid r" using assms(2) ConflictReasonCode_Valid_iff by blast
  then show "list_all ConflictReasonCode_Valid rs" by (simp add: list_all_iff)
  from valid_reasons_bound [OF assms(1) v] show "length rs \<le> 16" by simp
qed

lemma sorted_reasons_valid:
  assumes "distinct rs" and "set rs \<subseteq> set conflict_codes"
  shows "list_all ConflictReasonCode_Valid (sortedConflictReasons rs)" and "length (sortedConflictReasons rs) \<le> 16"
  using reasons_valid_bounded [of "sortedConflictReasons rs"] assms by simp_all

definition conflict_refs :: "ExperienceProposal \<Rightarrow> Experience list \<Rightarrow> ExperienceRef set" where
  "conflict_refs p as = refOf ` {a \<in> set as. overlapping p a}"

lemma concludeTally_props:
  assumes tally: "tally_of p (set as) t" and "as \<noteq> []" and exps: "\<forall>a\<in>set as. Experience_Validate E a"
    and ver: "Verifier_Validate (xp_Verifier p)" and scope: "Scope_Validate (xp_Scope p)"
    and pid: "validateIdentifier i"
  shows "ConflictAdvisory_Validate (concludeTally i t)"
    and "adv_State (concludeTally i t) =
      (if \<not> (\<exists>a\<in>set as. overlapping p a) then ConflictNoConflict
       else if \<exists>a\<in>set as. opposing p a then ConflictPossibleContradiction else ConflictPossibleOverlap)"
    and "set (adv_ConflictingExperienceRefs (concludeTally i t)) \<subseteq> conflict_refs p as"
    and "card (conflict_refs p as) \<le> maxConflictExperienceRefs \<Longrightarrow>
      set (adv_ConflictingExperienceRefs (concludeTally i t)) = conflict_refs p as"
proof -
  note valid = tally_reasons_valid [OF tally exps ver scope]
  have sets: "set (conflictRefs t) = conflict_refs p as" "set (conflictReasons t) = overlapReason p ` {a \<in> set as. overlapping p a}"
    "set (disjointReasons t) = disjointReason p ` {a \<in> set as. \<not> overlapping p a}"
    "contradiction t \<longleftrightarrow> (\<exists>a\<in>set as. opposing p a)"
    and dist: "distinct (conflictRefs t)" "distinct (conflictReasons t)" "distinct (disjointReasons t)"
    using tally by (auto simp: tally_of_def conflict_refs_def)
  have none: "conflictRefs t = [] \<longleftrightarrow> \<not> (\<exists>a\<in>set as. overlapping p a)"
    using sets(1) unfolding conflict_refs_def by (metis (mono_tags, lifting) Collect_empty_eq image_is_empty set_empty)
  have refs: "\<forall>r\<in>set (conflictRefs t). ExperienceRef_Validate r"
    using sets(1) exps refOf_valid by (auto simp: conflict_refs_def)
  let ?m = maxConflictExperienceRefs
  let ?rs = "sortedConflictRefs (conflictRefs t)"
  have take: "distinct (take ?m ?rs)" "set (take ?m ?rs) \<subseteq> set (conflictRefs t)"
    using dist(1) set_take_subset [of ?m ?rs] by simp_all
  have len: "length ?rs = card (conflict_refs p as)" using dist(1) sets(1) distinct_card by fastforce
  show "adv_State (concludeTally i t) =
      (if \<not> (\<exists>a\<in>set as. overlapping p a) then ConflictNoConflict
       else if \<exists>a\<in>set as. opposing p a then ConflictPossibleContradiction else ConflictPossibleOverlap)"
    unfolding concludeTally_def Let_def none [symmetric] sets(4) by simp
  have shown: "adv_ConflictingExperienceRefs (concludeTally i t) =
      (if conflictRefs t = [] then [] else if length ?rs > ?m then take ?m ?rs else ?rs)"
    by (simp add: concludeTally_def Let_def)
  then show "set (adv_ConflictingExperienceRefs (concludeTally i t)) \<subseteq> conflict_refs p as"
    using take(2) sets(1) by simp
  show "set (adv_ConflictingExperienceRefs (concludeTally i t)) = conflict_refs p as"
    if "card (conflict_refs p as) \<le> ?m"
    using that len sets(1) shown by auto
  show "ConflictAdvisory_Validate (concludeTally i t)"
  proof (cases "conflictRefs t = []")
    case True
    with none sets(3) \<open>as \<noteq> []\<close> have "disjointReasons t \<noteq> []" by (cases as) auto
    moreover have "list_all ConflictReasonCode_Valid (sortedConflictReasons (disjointReasons t))"
      "length (disjointReasons t) \<le> 16"
      using reasons_valid_bounded [of "sortedConflictReasons (disjointReasons t)"] dist(3) valid(2) by auto
    ultimately show ?thesis
      using True pid dist(3) valid(2) by (auto simp: concludeTally_def ConflictAdvisory_Validate_def Let_def)
  next
    case False
    let ?reasons = "if length ?rs > ?m then addKey ConflictReasonExperienceRefsTruncated (conflictReasons t)
      else conflictReasons t"
    have r: "distinct ?reasons" "set ?reasons \<subseteq> set conflict_codes - {ConflictReasonActiveQueryCapReached}"
      "?reasons \<noteq> []"
    proof -
      show "distinct ?reasons" using dist(2) by simp
      show "set ?reasons \<subseteq> set conflict_codes - {ConflictReasonActiveQueryCapReached}"
        using valid(1) by (auto simp: conflict_codes_def)
      have "set (conflictReasons t) \<noteq> {}" using sets(2) False none by auto
      then have "set ?reasons \<noteq> {}" by simp
      then show "?reasons \<noteq> []" by (metis set_empty)
    qed
    let ?shown = "if length ?rs > ?m then take ?m ?rs else ?rs"
    have s: "length ?shown \<le> ?m" "distinct ?shown" "list_all ExperienceRef_Validate ?shown" "?shown \<noteq> []"
    proof -
      show "length ?shown \<le> ?m" "distinct ?shown" using dist(1) take(1) by simp_all
      show "list_all ExperienceRef_Validate ?shown" using refs take(2) by (auto simp: list_all_iff)
      have "?rs \<noteq> []" using False by (metis length_0_conv sortedConflictRefs_props(3))
      then show "?shown \<noteq> []" by simp
    qed
    have adv: "concludeTally i t = \<lparr>adv_ProposalID = i,
        adv_State = if contradiction t then ConflictPossibleContradiction else ConflictPossibleOverlap,
        adv_ConflictingExperienceRefs = ?shown, adv_ReasonCodes = sortedConflictReasons ?reasons\<rparr>"
      using False by (simp add: concludeTally_def Let_def)
    have rv: "list_all ConflictReasonCode_Valid (sortedConflictReasons ?reasons)"
      "length (sortedConflictReasons ?reasons) \<le> 16"
      using sorted_reasons_valid [OF r(1)] r(2) by blast+
    have st: "ConflictState_Valid (if contradiction t then ConflictPossibleContradiction else ConflictPossibleOverlap)"
      "(if contradiction t then ConflictPossibleContradiction else ConflictPossibleOverlap) \<noteq> ConflictNoConflict" by simp_all
    show ?thesis
      unfolding adv ConflictAdvisory_Validate_def Let_def ConflictAdvisory.simps
      using pid st s r(1,3) rv by (simp del: if_split add: if_bool_eq_disj)
  qed
qed

section \<open>Properties\<close>

text \<open>
  C6. The conflict preflight is exact: on a valid proposal and valid active experiences it reads no
  missing specification and always returns a valid advisory. It says no conflict exactly when no
  context of work (a project, session, harness, model, task family and the files touched, each a valid
  path) lies in the whole scope of the proposal and of an active experience. Repository paths never
  separate two scopes, since one piece of work may touch a file for each. It says possible
  contradiction exactly when some overlapping experience has a verifier that no set of modified files
  can satisfy together with the proposal's; it cites only overlapping experiences, and all of them
  when they are at most 64.
\<close>

theorem preflight_is_exact:
  assumes "wf_encoder E" and "SemanticProposal_Validate E p" and "\<forall>a\<in>set as. Experience_Validate E a"
  shows "\<exists>adv. PreflightSemanticProposalConflict E p as = Inr adv \<and> ConflictAdvisory_Validate adv \<and>
    adv_State adv =
      (if \<not> (\<exists>a\<in>set as. overlapping (sp_Proposal p) a) then ConflictNoConflict
       else if \<exists>a\<in>set as. opposing (sp_Proposal p) a then ConflictPossibleContradiction
       else ConflictPossibleOverlap) \<and>
    set (adv_ConflictingExperienceRefs adv) \<subseteq> conflict_refs (sp_Proposal p) as \<and>
    (card (conflict_refs (sp_Proposal p) as) \<le> maxConflictExperienceRefs \<longrightarrow>
      set (adv_ConflictingExperienceRefs adv) = conflict_refs (sp_Proposal p) as)"
proof -
  have pid: "validateIdentifier (sp_ProposalID p)"
    unfolding SemanticProposal_ValidateD(3) [OF assms(2)] SemanticProposal_DeterministicID_def Let_def
    by (rule deterministicID_identifier [OF assms(1)]) (simp_all add: graphic_def)
  have ver: "Verifier_Validate (xp_Verifier (sp_Proposal p))" "Scope_Validate (xp_Scope (sp_Proposal p))"
    by (rule Proposal_ValidateD(3,1) [OF SemanticProposal_ValidateD(1) [OF assms(2)]])+
  show ?thesis
  proof (cases "as = []")
    case True
    let ?adv = "\<lparr>adv_ProposalID = sp_ProposalID p, adv_State = ConflictNoConflict,
      adv_ConflictingExperienceRefs = [], adv_ReasonCodes = [ConflictReasonNoActiveExperiences]\<rparr>"
    have "ConflictAdvisory_Validate ?adv" using pid by (simp add: ConflictAdvisory_Validate_def Let_def)
    with True assms(2) show ?thesis
      by (intro exI [of _ ?adv]) (simp add: PreflightSemanticProposalConflict_def validated_def conflict_refs_def)
  next
    case False
    from preflightLoop_tally [OF empty_tally_of assms(3) ver]
    obtain t where t: "preflightLoop E (sp_Proposal p) as empty_tally = Inr t" "tally_of (sp_Proposal p) (set as) t"
      by auto
    note props = concludeTally_props [OF t(2) False assms(3) ver pid]
    have "PreflightSemanticProposalConflict E p as = Inr (concludeTally (sp_ProposalID p) t)"
      using assms(2) False t(1) props(1) by (simp add: PreflightSemanticProposalConflict_def validated_def)
    with props show ?thesis by (intro exI [of _ "concludeTally (sp_ProposalID p) t"]) simp
  qed
qed

lemma sample_overlap: "overlapping (sp_Proposal sample_semantic) sample_experience"
proof -
  have "\<not> fst (scopesProvenDisjoint (xp_Scope (sp_Proposal sample_semantic)) (ex_Scope sample_experience))"
    by code_simp
  moreover have "Scope_Validate (xp_Scope (sp_Proposal sample_semantic))"
    by (rule Proposal_ValidateD(1) [OF SemanticProposal_ValidateD(1) [OF sample_semantic_valid]])
  ultimately show ?thesis using overlapping_iff sample_experience_valid by blast
qed

theorem preflight_is_exact_witness:
  "\<exists>adv. PreflightSemanticProposalConflict sample_encoder sample_semantic [sample_experience] = Inr adv \<and>
    adv_State adv \<noteq> ConflictNoConflict \<and>
    set (adv_ConflictingExperienceRefs adv) = {refOf sample_experience}"
proof -
  have refs: "conflict_refs (sp_Proposal sample_semantic) [sample_experience] = {refOf sample_experience}"
    using sample_overlap by (auto simp: conflict_refs_def)
  have "\<forall>a\<in>set [sample_experience]. Experience_Validate sample_encoder a"
    using sample_experience_valid by simp
  from preflight_is_exact [OF sample_encoder_wf sample_semantic_valid this] show ?thesis
    unfolding refs using sample_overlap by auto
qed

text \<open>
  The order in which the active experiences are read, and repetitions among them, never change the
  outcome of the preflight, be it an advisory or an error.
\<close>

theorem preflight_order_irrelevant:
  assumes "set as = set bs"
  shows "PreflightSemanticProposalConflict E p as = PreflightSemanticProposalConflict E p bs"
proof (cases "SemanticProposal_Validate E p")
  case True
  have ver: "Verifier_Validate (xp_Verifier (sp_Proposal p))" "Scope_Validate (xp_Scope (sp_Proposal p))"
    by (rule Proposal_ValidateD(3,1) [OF SemanticProposal_ValidateD(1) [OF True]])+
  have empty: "as = [] \<longleftrightarrow> bs = []" using assms by (metis set_empty)
  show ?thesis
  proof (cases "\<forall>a\<in>set as. Experience_Validate E a")
    case valid: True
    from preflightLoop_tally [OF empty_tally_of valid ver]
    obtain t where t: "preflightLoop E (sp_Proposal p) as empty_tally = Inr t" "tally_of (sp_Proposal p) (set as) t"
      by auto
    have validb: "\<forall>a\<in>set bs. Experience_Validate E a" using valid assms by simp
    from preflightLoop_tally [OF empty_tally_of validb ver]
    obtain u where u: "preflightLoop E (sp_Proposal p) bs empty_tally = Inr u" "tally_of (sp_Proposal p) (set as) u"
      using assms by auto
    from concludeTally_unique [OF t(2) u(2) valid ver] t(1) u(1) empty show ?thesis
      by (simp add: PreflightSemanticProposalConflict_def)
  next
    case False
    then obtain a where a: "a \<in> set as" "\<not> Experience_Validate E a" by blast
    then have "a \<in> set bs" using assms by simp
    from preflightLoop_invalid [OF a empty_tally_of ver] preflightLoop_invalid [OF this a(2) empty_tally_of ver]
    show ?thesis using empty by (simp add: PreflightSemanticProposalConflict_def)
  qed
qed (simp add: PreflightSemanticProposalConflict_def)

theorem preflight_order_irrelevant_witness:
  "PreflightSemanticProposalConflict sample_encoder sample_semantic [sample_experience, sample_experience] =
   PreflightSemanticProposalConflict sample_encoder sample_semantic [sample_experience]"
  by (rule preflight_order_irrelevant) auto

text \<open>
  Marking a capped query keeps what is known and never claims completeness: from any valid advisory
  it returns a valid one that does not say no conflict, names the cap among its reasons, cites the same
  experiences, keeps a known conflict state, and is not changed by marking again.
\<close>

theorem query_cap_is_explicit:
  assumes "ConflictAdvisory_Validate value"
  shows "\<exists>v. MarkConflictActiveQueryCapReached value = Inr v \<and> ConflictAdvisory_Validate v \<and>
    adv_State v \<noteq> ConflictNoConflict \<and>
    (adv_State value \<noteq> ConflictNoConflict \<longrightarrow> adv_State v = adv_State value) \<and>
    set (adv_ReasonCodes v) = insert ConflictReasonActiveQueryCapReached (set (adv_ReasonCodes value)) \<and>
    adv_ConflictingExperienceRefs v = adv_ConflictingExperienceRefs value \<and>
    MarkConflictActiveQueryCapReached v = Inr v"
proof -
  let ?cap = ConflictReasonActiveQueryCapReached
  let ?rs = "adv_ReasonCodes value"
  let ?state = "if adv_State value = ConflictNoConflict then ConflictPossibleOverlap else adv_State value"
  let ?reasons = "if ?cap \<in> set ?rs then ?rs else sort_key ConflictReasonCode_text (?rs @ [?cap])"
  let ?v = "value\<lparr>adv_State := ?state, adv_ReasonCodes := ?reasons\<rparr>"
  have rs: "list_all ConflictReasonCode_Valid ?rs" "distinct ?rs" "?rs \<noteq> []"
    and st: "ConflictState_Valid (adv_State value)"
    using assms by (auto simp: ConflictAdvisory_Validate_def Let_def split: if_splits)
  have reasons: "set ?reasons = insert ?cap (set ?rs)" "distinct ?reasons" "?reasons \<noteq> []"
    using rs(2,3) by (auto, metis list.set(1) set_sort snoc_eq_iff_butlast set_empty)
  have codes: "list_all ConflictReasonCode_Valid ?reasons"
    using rs(1) reasons(1) by (simp add: list_all_iff)
  then have "length ?reasons \<le> 16"
    using valid_reasons_bound [OF reasons(2)] by (simp add: list_all_iff)
  with codes reasons st assms have v: "ConflictAdvisory_Validate ?v"
    unfolding ConflictAdvisory_Validate_def Let_def by (simp split: if_splits)
  have mark: "MarkConflictActiveQueryCapReached value = Inr ?v"
    using assms v by (simp add: MarkConflictActiveQueryCapReached_def validated_def Let_def split: if_splits)
  have "?cap \<in> set (adv_ReasonCodes ?v)" "adv_State ?v \<noteq> ConflictNoConflict" using reasons(1) by auto
  then have "MarkConflictActiveQueryCapReached ?v = Inr ?v"
    using v by (simp add: MarkConflictActiveQueryCapReached_def validated_def Let_def)
  with mark v reasons(1) show ?thesis by (intro exI [of _ ?v]) simp
qed

theorem query_cap_is_explicit_witness:
  "\<exists>v. MarkConflictActiveQueryCapReached \<lparr>adv_ProposalID = ''p'', adv_State = ConflictNoConflict,
    adv_ConflictingExperienceRefs = [], adv_ReasonCodes = [ConflictReasonDifferentProject]\<rparr> = Inr v \<and>
    adv_State v \<noteq> ConflictNoConflict"
proof -
  have "ConflictAdvisory_Validate \<lparr>adv_ProposalID = ''p'', adv_State = ConflictNoConflict,
    adv_ConflictingExperienceRefs = [], adv_ReasonCodes = [ConflictReasonDifferentProject]\<rparr>" by code_simp
  from query_cap_is_explicit [OF this] show ?thesis by blast
qed

end
