(* ===== verification/Exp_Approval.thy ===== *)
theory Exp_Approval
  imports Exp_Conflict
begin

text \<open>
  Approval of edited content (\<open>internal/experience/approval.go\<close>): the claims of an approval token
  and the contract of a narrowed or user-edited approval. \<open>reflect.DeepEqual\<close> compares normal forms,
  whose slices are nil exactly when they are empty, so it is equality.
\<close>

section \<open>Tokens\<close>

record ApprovalTokenClaims =
  atc_Version :: gostring
  atc_CandidateID :: gostring
  atc_ProposalID :: gostring
  atc_ProjectIdentity :: gostring
  atc_SemanticInputHash :: gostring
  atc_ProposedContentHash :: gostring
  atc_EvidenceGeneration :: gostring
  atc_IssuedAt :: time
  atc_ExpiresAt :: time

abbreviation ApprovalTokenVersion :: gostring where
  "ApprovalTokenVersion \<equiv> ''belay.experience-approval-token.v1''"

definition ApprovalTokenClaims_Validate :: "ApprovalTokenClaims \<Rightarrow> bool" where
  "ApprovalTokenClaims_Validate value =
    (if atc_Version value \<noteq> ApprovalTokenVersion then False
     else if \<not> list_all validateIdentifier
       [atc_CandidateID value, atc_ProposalID value, atc_ProjectIdentity value] then False
     else if \<not> validSHA256 (atc_SemanticInputHash value) \<or> \<not> validSHA256 (atc_ProposedContentHash value) \<or>
       \<not> validSHA256 (atc_EvidenceGeneration value) then False
     else if atc_IssuedAt value = time_zero \<or> atc_ExpiresAt value = time_zero \<or>
       \<not> atc_ExpiresAt value > atc_IssuedAt value then False
     else True)"

section \<open>Narrowing\<close>

definition narrowedComparableSet :: "'a list \<Rightarrow> 'a list \<Rightarrow> bool \<times> bool" where
  "narrowedComparableSet original approved =
    (if original = [] then (True, length approved > 0)
     else if approved = [] then (False, False)
     else if \<not> list_all (\<lambda>value. value \<in> set original) approved then (False, False)
     else (True, length approved < length original))"

definition narrowedExpiry :: "time option \<Rightarrow> time option \<Rightarrow> bool" where
  "narrowedExpiry original approved =
    (case original of
       None \<Rightarrow> True
     | Some o' \<Rightarrow> (case approved of None \<Rightarrow> False | Some a \<Rightarrow> \<not> a > o'))"

fun narrowedLists :: "(gostring list \<times> gostring list) list \<Rightarrow> bool \<Rightarrow> bool option" where
  "narrowedLists [] strictlyNarrower = Some strictlyNarrower"
| "narrowedLists ((original, approved) # rest) strictlyNarrower =
    (let (valid, strict) = narrowedComparableSet original approved in
     if \<not> valid then None else narrowedLists rest (strictlyNarrower \<or> strict))"

definition validateNarrowedProposal :: "encoder \<Rightarrow> ExperienceProposal \<Rightarrow> ExperienceProposal \<Rightarrow> bool" where
  "validateNarrowedProposal E original approved =
    (let originalScope = normalizedScope (xp_Scope original);
         approvedScope = normalizedScope (xp_Scope approved);
         originalApplicability = normalizedApplicability E (xp_Applicability original);
         approvedApplicability = normalizedApplicability E (xp_Applicability approved) in
     if xp_Type approved \<noteq> xp_Type original \<or>
        scp_Kind approvedScope \<noteq> scp_Kind originalScope \<or>
        scp_ProjectIdentity approvedScope \<noteq> scp_ProjectIdentity originalScope \<or>
        scp_SessionKey approvedScope \<noteq> scp_SessionKey originalScope \<or>
        normalizedGuidance (xp_Guidance approved) \<noteq> normalizedGuidance (xp_Guidance original) \<or>
        normalizedVerifier (xp_Verifier approved) \<noteq> normalizedVerifier (xp_Verifier original) \<or>
        apl_SemanticDescription approvedApplicability \<noteq> apl_SemanticDescription originalApplicability \<or>
        apl_DeterministicConditions approvedApplicability \<noteq> apl_DeterministicConditions originalApplicability \<or>
        apl_Exclusions approvedApplicability \<noteq> apl_Exclusions originalApplicability then False
     else case narrowedLists
         [(scp_RepositoryPaths originalScope, scp_RepositoryPaths approvedScope),
          (scp_TaskFamilies originalScope, scp_TaskFamilies approvedScope),
          (scp_Models originalScope, scp_Models approvedScope)] False of
       None \<Rightarrow> False
     | Some strictlyNarrower \<Rightarrow>
         let (valid, strict) = narrowedComparableSet (scp_Harnesses originalScope) (scp_Harnesses approvedScope);
             strictlyNarrower = strictlyNarrower \<or> strict in
         if \<not> valid then False
         else if \<not> narrowedExpiry (apl_ExpiresAt originalApplicability) (apl_ExpiresAt approvedApplicability) then False
         else if \<not> strictlyNarrower then False
         else True)"

definition ValidateApprovedProposal ::
    "encoder \<Rightarrow> ExperienceProposal \<Rightarrow> ExperienceProposal \<Rightarrow> ApprovalMode \<Rightarrow> bool" where
  "ValidateApprovedProposal E original approved mode =
    (if mode \<noteq> ApprovalNarrowed \<and> mode \<noteq> ApprovalUserEdited then False
     else if \<not> Proposal_Validate approved then False
     else if xp_SemanticCompilationPending approved then False
     else if scp_ProjectIdentity (xp_Scope approved) \<noteq> scp_ProjectIdentity (xp_Scope original) then False
     else if mode = ApprovalUserEdited then
       (if Proposal_CanonicalContentHash E approved = Proposal_CanonicalContentHash E original then False else True)
     else validateNarrowedProposal E original approved)"

section \<open>What narrowing gives\<close>

text \<open>An empty list of a scope allows everything.\<close>

definition allows :: "'a list \<Rightarrow> 'a \<Rightarrow> bool" where
  "allows values v \<longleftrightarrow> values = [] \<or> v \<in> set values"

definition restricts :: "'a list \<Rightarrow> 'a list \<Rightarrow> bool" where
  "restricts approved original \<longleftrightarrow>
    (original = [] \<and> approved \<noteq> []) \<or> (approved \<noteq> [] \<and> set approved \<subset> set original)"

lemma narrowed_allows: "fst (narrowedComparableSet original approved) \<Longrightarrow> allows approved v \<Longrightarrow> allows original v"
  by (auto simp: narrowedComparableSet_def allows_def list_all_iff split: if_splits)

lemma narrowed_subset:
  "fst (narrowedComparableSet original approved) \<Longrightarrow> original \<noteq> [] \<Longrightarrow> approved \<noteq> [] \<and> set approved \<subseteq> set original"
  by (auto simp: narrowedComparableSet_def list_all_iff split: if_splits)

lemma narrowed_strict:
  assumes "narrowedComparableSet original approved = (True, True)" and "distinct original"
  shows "restricts approved original"
proof (cases "original = []")
  case True
  with assms(1) show ?thesis by (simp add: narrowedComparableSet_def restricts_def)
next
  case False
  with assms(1) have a: "approved \<noteq> []" "set approved \<subseteq> set original" "length approved < length original"
    by (auto simp: narrowedComparableSet_def list_all_iff split: if_splits)
  have "card (set approved) < card (set original)"
    using a(3) assms(2) card_length [of approved] distinct_card [of original] by linarith
  with a show ?thesis by (auto simp: restricts_def)
qed

lemma narrowedExpiry_earlier:
  "narrowedExpiry original approved \<Longrightarrow> original = Some t \<Longrightarrow> \<exists>a. approved = Some a \<and> a \<le> t"
  by (auto simp: narrowedExpiry_def split: option.splits)

text \<open>On a valid scope normalizing changes no list but its order and repetitions.\<close>

lemma validateIdentifier_trimmed: "validateIdentifier v \<Longrightarrow> trim_space v = v \<and> v \<noteq> []"
  by (auto simp: validateIdentifier_def split: if_splits)

lemma validateRelativePattern_trimmed: "validateRelativePattern v \<Longrightarrow> trim_space v = v \<and> v \<noteq> []"
  by (auto simp: validateRelativePattern_def split: if_splits)

lemma normalizedStrings_trimmed:
  assumes "\<forall>v\<in>set xs. trim_space v = v \<and> v \<noteq> []"
  shows "set (normalizedStrings xs) = set xs" and "normalizedStrings xs = [] \<longleftrightarrow> xs = []"
proof -
  show set: "set (normalizedStrings xs) = set xs"
    unfolding normalizedStrings_set using assms by force
  show "normalizedStrings xs = [] \<longleftrightarrow> xs = []" using set by (metis set_empty)
qed

lemma Scope_Validate_normal:
  assumes "Scope_Validate s"
  shows "in_scope (normalizedScope s) c \<longleftrightarrow> in_scope s c"
proof -
  have id: "validateIdentifier (scp_ProjectIdentity s)" "\<forall>v\<in>set (scp_TaskFamilies s). validateIdentifier v"
    "\<forall>v\<in>set (scp_Models s). validateIdentifier v" "\<forall>v\<in>set (scp_RepositoryPaths s). validateRelativePattern v"
    "scp_Kind s = ScopeSession \<Longrightarrow> validateIdentifier (scp_SessionKey s)"
    using assms unfolding Scope_Validate_def by (auto simp: list_all_iff split: if_splits)
  then have "trim_space (scp_ProjectIdentity s) = scp_ProjectIdentity s"
    "\<forall>v\<in>set (scp_TaskFamilies s). trim_space v = v \<and> v \<noteq> []"
    "\<forall>v\<in>set (scp_Models s). trim_space v = v \<and> v \<noteq> []"
    "\<forall>v\<in>set (scp_RepositoryPaths s). trim_space v = v \<and> v \<noteq> []"
    "scp_Kind s = ScopeSession \<Longrightarrow> trim_space (scp_SessionKey s) = scp_SessionKey s"
    using validateIdentifier_trimmed validateRelativePattern_trimmed by blast+
  note trimmed = this
  have harness: "set (scp_Harnesses (normalizedScope s)) = set (scp_Harnesses s)"
    by (simp add: normalizedScope_def)
  then have "scp_Harnesses (normalizedScope s) = [] \<longleftrightarrow> scp_Harnesses s = []" by (metis set_empty)
  with harness trimmed show ?thesis
    by (auto simp: in_scope_def fileMatchesAny_iff normalizedScope_def normalizedStrings_trimmed)
qed

definition applies_to :: "ExperienceProposal \<Rightarrow> context_of_work \<Rightarrow> time \<Rightarrow> bool" where
  "applies_to p c now \<longleftrightarrow>
    in_scope (xp_Scope p) c \<and>
    (\<forall>e. apl_ExpiresAt (xp_Applicability p) = Some e \<longrightarrow> now < e)"

definition scope_restricted :: "ExperienceProposal \<Rightarrow> ExperienceProposal \<Rightarrow> bool" where
  "scope_restricted approved original \<longleftrightarrow>
    (let a = normalizedScope (xp_Scope approved); o' = normalizedScope (xp_Scope original) in
     restricts (scp_RepositoryPaths a) (scp_RepositoryPaths o') \<or> restricts (scp_TaskFamilies a) (scp_TaskFamilies o') \<or>
     restricts (scp_Models a) (scp_Models o') \<or> restricts (scp_Harnesses a) (scp_Harnesses o'))"

lemma narrowedLists_Some:
  "narrowedLists ps b = Some s \<Longrightarrow>
    (\<forall>(original, approved)\<in>set ps. fst (narrowedComparableSet original approved)) \<and>
    (s \<longrightarrow> b \<or> (\<exists>(original, approved)\<in>set ps. narrowedComparableSet original approved = (True, True)))"
proof (induction ps b rule: narrowedLists.induct)
  case (2 original approved rest b)
  obtain v st where n: "narrowedComparableSet original approved = (v, st)" by fastforce
  with 2 show ?case by (auto split: if_splits)
qed simp

lemma normalizedScope_distinct:
  "distinct (scp_RepositoryPaths (normalizedScope s))" "distinct (scp_TaskFamilies (normalizedScope s))"
  "distinct (scp_Models (normalizedScope s))"
  by (simp_all add: normalizedScope_def)

lemma distinct_compact_key:
  fixes f :: "'a \<Rightarrow> 'b::linorder"
  assumes "sorted (map f xs)" and "inj_on f (set xs)"
  shows "distinct (remdups_adj xs)"
  using assms
proof (induction xs rule: remdups_adj.induct)
  case (3 x y xs)
  show ?case
  proof (cases "x = y")
    case False
    have "x \<notin> set (y # xs)"
    proof
      assume "x \<in> set (y # xs)"
      then have "f y \<le> f x" "f x \<le> f y" using "3.prems"(1) by auto
      then have "f x = f y" by simp
      with "3.prems"(2) False show False by (simp add: inj_on_def)
    qed
    moreover have "distinct (remdups_adj (y # xs))"
      using "3.IH"(2) [OF False] "3.prems" by (simp add: inj_on_def)
    ultimately show ?thesis using False by simp
  qed (use 3 in simp)
qed simp_all

lemma valid_harness_inj: "inj_on Harness_text {h. Harness_Valid h}"
proof (rule inj_onI)
  fix g h :: Harness assume "g \<in> {h. Harness_Valid h}" "h \<in> {h. Harness_Valid h}" "Harness_text g = Harness_text h"
  then show "g = h" by (cases g; cases h) simp_all
qed

lemma harnesses_distinct:
  assumes "Scope_Validate s"
  shows "distinct (scp_Harnesses (normalizedScope s))"
proof -
  have "set (scp_Harnesses s) \<subseteq> {h. Harness_Valid h}"
    using assms unfolding Scope_Validate_def by (auto simp: list_all_iff split: if_splits)
  then have "inj_on Harness_text (set (sort_key Harness_text (scp_Harnesses s)))"
    using valid_harness_inj inj_on_subset by simp blast
  from distinct_compact_key [OF _ this] show ?thesis by (simp add: normalizedScope_def compact_eq)
qed

lemma narrowed_paths:
  assumes "fst (narrowedComparableSet original approved)"
    and "approved = [] \<or> (\<exists>f\<in>F. fileMatchesAnyRelativePathPattern f approved)"
  shows "original = [] \<or> (\<exists>f\<in>F. fileMatchesAnyRelativePathPattern f original)"
  using narrowed_subset [OF assms(1)] assms(2) by (auto simp: fileMatchesAny_iff)

lemma narrowed_in_scope:
  assumes "scp_ProjectIdentity a = scp_ProjectIdentity b" and "scp_Kind a = scp_Kind b"
    and "scp_SessionKey a = scp_SessionKey b"
    and "fst (narrowedComparableSet (scp_Harnesses b) (scp_Harnesses a))"
    and "fst (narrowedComparableSet (scp_Models b) (scp_Models a))"
    and "fst (narrowedComparableSet (scp_TaskFamilies b) (scp_TaskFamilies a))"
    and "fst (narrowedComparableSet (scp_RepositoryPaths b) (scp_RepositoryPaths a))"
    and "in_scope a c"
  shows "in_scope b c"
  using assms(1-3,8) narrowed_allows [OF assms(4), of "cw_Harness c"] narrowed_allows [OF assms(5), of "cw_Model c"]
    narrowed_allows [OF assms(6), of "cw_TaskFamily c"] narrowed_paths [OF assms(7), of "set (cw_Files c)"]
  by (simp add: in_scope_def allows_def)

section \<open>Properties\<close>

text \<open>
  C7. A narrowed approval only narrows: when the code accepts it for a proposal whose scope is valid, the
  approved experience has the type, guidance and verifier the proposal had (up to normal form), it applies
  to no context of work (with the files it touches) and time to which the proposal did not apply, and at
  least one list of its scope is properly restricted.
\<close>

theorem narrowed_approval_is_narrower:
  assumes "ValidateApprovedProposal E original approved ApprovalNarrowed" and "Scope_Validate (xp_Scope original)"
  shows "xp_Type approved = xp_Type original \<and>
    normalizedGuidance (xp_Guidance approved) = normalizedGuidance (xp_Guidance original) \<and>
    normalizedVerifier (xp_Verifier approved) = normalizedVerifier (xp_Verifier original) \<and>
    (applies_to approved c now \<longrightarrow> applies_to original c now) \<and>
    scope_restricted approved original"
proof -
  let ?a = "normalizedScope (xp_Scope approved)" and ?o = "normalizedScope (xp_Scope original)"
  let ?lists = "[(scp_RepositoryPaths ?o, scp_RepositoryPaths ?a), (scp_TaskFamilies ?o, scp_TaskFamilies ?a),
    (scp_Models ?o, scp_Models ?a)]"
  from assms(1) have valid: "Scope_Validate (xp_Scope approved)"
    and N: "validateNarrowedProposal E original approved"
    by (auto simp: ValidateApprovedProposal_def Proposal_Validate_def split: if_splits)
  obtain s where lists: "narrowedLists ?lists False = Some s"
    using N by (auto simp: validateNarrowedProposal_def Let_def split: if_splits option.splits)
  obtain v st where har: "narrowedComparableSet (scp_Harnesses ?o) (scp_Harnesses ?a) = (v, st)" by fastforce
  from N lists har have same: "xp_Type approved = xp_Type original" "scp_Kind ?a = scp_Kind ?o"
      "scp_ProjectIdentity ?a = scp_ProjectIdentity ?o" "scp_SessionKey ?a = scp_SessionKey ?o"
      "normalizedGuidance (xp_Guidance approved) = normalizedGuidance (xp_Guidance original)"
      "normalizedVerifier (xp_Verifier approved) = normalizedVerifier (xp_Verifier original)"
    and v: "v" and strict: "s \<or> st"
    and expiry: "narrowedExpiry (apl_ExpiresAt (xp_Applicability original)) (apl_ExpiresAt (xp_Applicability approved))"
    by (simp_all add: validateNarrowedProposal_def Let_def normalizedApplicability_def split: if_splits)
  from narrowedLists_Some [OF lists]
  have sub: "fst (narrowedComparableSet (scp_RepositoryPaths ?o) (scp_RepositoryPaths ?a))"
      "fst (narrowedComparableSet (scp_TaskFamilies ?o) (scp_TaskFamilies ?a))"
      "fst (narrowedComparableSet (scp_Models ?o) (scp_Models ?a))"
    and some: "s \<Longrightarrow> \<exists>(o', a)\<in>set ?lists. narrowedComparableSet o' a = (True, True)"
    by auto
  have "scope_restricted approved original"
  proof (cases st)
    case True
    with har v have "narrowedComparableSet (scp_Harnesses ?o) (scp_Harnesses ?a) = (True, True)" by simp
    from narrowed_strict [OF this harnesses_distinct [OF assms(2)]] show ?thesis
      by (simp add: scope_restricted_def Let_def)
  next
    case False
    with strict some have "\<exists>(o', a)\<in>set ?lists. narrowedComparableSet o' a = (True, True)" by blast
    then show ?thesis
      using narrowed_strict normalizedScope_distinct [of "xp_Scope original"]
      by (auto simp: scope_restricted_def Let_def)
  qed
  moreover have "applies_to original c now" if app: "applies_to approved c now"
  proof -
    have "in_scope (xp_Scope original) c"
      using app narrowed_in_scope [OF same(3,2,4) _ sub(3,2,1)] har v
      by (simp add: applies_to_def Scope_Validate_normal [OF valid, symmetric]
        Scope_Validate_normal [OF assms(2), symmetric])
    with app show ?thesis
      using narrowedExpiry_earlier [OF expiry] by (fastforce simp: applies_to_def)
  qed
  ultimately show ?thesis using same by blast
qed

theorem narrowed_approval_is_narrower_witness:
  "scope_restricted (sample_proposal\<lparr>xp_Scope := (xp_Scope sample_proposal)\<lparr>scp_Harnesses := [HarnessCodex]\<rparr>\<rparr>)
     sample_proposal"
proof -
  have "ValidateApprovedProposal sample_encoder sample_proposal
      (sample_proposal\<lparr>xp_Scope := (xp_Scope sample_proposal)\<lparr>scp_Harnesses := [HarnessCodex]\<rparr>\<rparr>) ApprovalNarrowed"
    by code_simp
  moreover have "Scope_Validate (xp_Scope sample_proposal)" by code_simp
  ultimately show ?thesis using narrowed_approval_is_narrower by blast
qed

text \<open>
  An approval that edits content says so: a user-edited approval is accepted only when its content
  hash differs from the proposal's, and no edited approval changes the project, leaves compilation
  pending, or denies an action.
\<close>

theorem edited_approval_changes_content:
  assumes "ValidateApprovedProposal E original approved mode"
  shows "scp_ProjectIdentity (xp_Scope approved) = scp_ProjectIdentity (xp_Scope original) \<and>
    \<not> xp_SemanticCompilationPending approved \<and>
    gd_InterventionStrength (xp_Guidance approved) \<noteq> InterventionDeny \<and>
    (mode = ApprovalUserEdited \<and>
       Proposal_CanonicalContentHash E approved \<noteq> Proposal_CanonicalContentHash E original \<or>
     mode = ApprovalNarrowed \<and> validateNarrowedProposal E original approved)"
proof -
  have "Proposal_Validate approved" using assms by (simp add: ValidateApprovedProposal_def split: if_splits)
  then have "gd_InterventionStrength (xp_Guidance approved) \<noteq> InterventionDeny"
    by (intro no_deny Proposal_ValidateD(2))
  with assms show ?thesis by (auto simp: ValidateApprovedProposal_def split: if_splits)
qed

theorem edited_approval_changes_content_witness:
  "validateNarrowedProposal sample_encoder sample_proposal
     (sample_proposal\<lparr>xp_Scope := (xp_Scope sample_proposal)\<lparr>scp_Models := [''m'']\<rparr>\<rparr>)"
proof -
  have "ValidateApprovedProposal sample_encoder sample_proposal
      (sample_proposal\<lparr>xp_Scope := (xp_Scope sample_proposal)\<lparr>scp_Models := [''m'']\<rparr>\<rparr>) ApprovalNarrowed"
    by code_simp
  from edited_approval_changes_content [OF this] show ?thesis by simp
qed

end
