(* ===== verification/Eval_Model.thy ===== *)
theory Eval_Model
  imports Exp_Approval
begin

text \<open>
  The types and the input validation of the deterministic evaluation
  (\<open>internal/experience/evaluate/types.go\<close>, \<open>evaluate.go\<close>): facts of a session, the evidence
  for what its records cover, and the result with its gaps and citations. A harness that may be empty is
  an option, as are the two fields of a gap that may be empty. Orders of facts are turn numbers, which
  validation keeps non-negative, so their differences never wrap.
\<close>

abbreviation EvaluationVersion :: gostring where "EvaluationVersion \<equiv> ''belay.experience-evaluate.v1''"
abbreviation MaxFacts :: nat where "MaxFacts \<equiv> 4096"
abbreviation MaxEvidencePerFact :: nat where "MaxEvidencePerFact \<equiv> 8"
abbreviation MaxResultEvidence :: nat where "MaxResultEvidence \<equiv> 64"
abbreviation MaxResultGaps :: nat where "MaxResultGaps \<equiv> 32"

datatype Component = ComponentOpportunity | ComponentApplicability | ComponentVerifier | ComponentTaskOutcome

datatype GapCode =
  GapCoverageMissing | GapCoverageNotDeclared | GapFactsIncomplete | GapAmbiguousMatch
  | GapUnsupportedMatch | GapNoOpportunityObservation | GapNoApplicableObservation
  | GapSemanticExclusion | GapNoEditObserved | GapNoTaskOutcomeObservation | GapObservationOnly
  | GapEvidenceTruncated

record Gap =
  gap_Component :: Component
  gap_Code :: GapCode
  gap_Coverage :: "CoverageRequirement option"
  gap_ConditionKind :: "DeterministicConditionKind option"

record CoverageEvidence =
  cve_Requirement :: CoverageRequirement
  cve_Evidence :: "EvidenceRef list"

record EvaluationCoverage =
  cvg_TranscriptComplete :: bool
  cvg_CanonicalEventsComplete :: bool
  cvg_WorkspaceStateCaptured :: bool
  cvg_OutcomeObservationsComplete :: bool
  cvg_Evidence :: "CoverageEvidence list"

fun Coverage_Complete :: "EvaluationCoverage \<Rightarrow> CoverageRequirement \<Rightarrow> bool" where
  "Coverage_Complete value CoverageTranscriptComplete = cvg_TranscriptComplete value"
| "Coverage_Complete value CoverageCanonicalComplete = cvg_CanonicalEventsComplete value"
| "Coverage_Complete value CoverageWorkspaceCaptured = cvg_WorkspaceStateCaptured value"
| "Coverage_Complete value CoverageOutcomesComplete = cvg_OutcomeObservationsComplete value"
| "Coverage_Complete value (CoverageRequirementOther s) = False"

record CoverageStatus =
  cvt_Requirement :: CoverageRequirement
  cvt_Complete :: bool

record EvaluationContext =
  ctx_ProjectIdentity :: gostring
  ctx_SessionKey :: gostring
  ctx_Harness :: "Harness option"
  ctx_Model :: gostring
  ctx_TaskFamilies :: "gostring list"
  ctx_RepositoryPaths :: "gostring list"
  ctx_CompleteConditionKinds :: "DeterministicConditionKind list"
  ctx_LastTurnIndex :: "int option"
  ctx_AsOf :: time
  ctx_Evidence :: "EvidenceRef list"

record NormalizedVerifier =
  nv_DeclaredCommand :: gostring
  nv_CommandSignature :: gostring
  nv_CommandScrubbingVersion :: gostring

datatype FactResult = FactResultUnknown | FactResultSucceeded | FactResultFailed | FactResultOther gostring

fun FactResult_Valid :: "FactResult \<Rightarrow> bool" where
  "FactResult_Valid value =
    (value = FactResultUnknown \<or> value = FactResultSucceeded \<or> value = FactResultFailed)"

record FactMeta =
  fm_Order :: int
  fm_Ambiguous :: bool
  fm_Evidence :: "EvidenceRef list"

record OpportunityFact =
  opf_Meta :: FactMeta
  opf_State :: OpportunityState

record ConditionFact =
  cof_Meta :: FactMeta
  cof_Kind :: DeterministicConditionKind
  cof_Values :: "gostring list"

record CommandFact =
  cmf_Meta :: FactMeta
  cmf_Signature :: gostring
  cmf_Class :: gostring
  cmf_Result :: FactResult

record FileChangeFact =
  fcf_Meta :: FactMeta
  fcf_Path :: gostring

record VerificationFact =
  vff_Meta :: FactMeta
  vff_CommandClass :: gostring
  vff_Result :: FactResult

record FailureFact =
  flf_Meta :: FactMeta
  flf_CommandClass :: gostring
  flf_NormalizedPattern :: gostring

record CorrectionFact =
  crf_Meta :: FactMeta
  crf_MarkerFamily :: gostring

record TaskOutcomeFact =
  tof_Meta :: FactMeta
  tof_State :: TaskOutcomeState

record Facts =
  fx_Opportunities :: "OpportunityFact list"
  fx_Conditions :: "ConditionFact list"
  fx_Commands :: "CommandFact list"
  fx_FileChanges :: "FileChangeFact list"
  fx_Verifications :: "VerificationFact list"
  fx_Failures :: "FailureFact list"
  fx_Corrections :: "CorrectionFact list"
  fx_TaskOutcomes :: "TaskOutcomeFact list"

record EvaluationInput =
  evi_Application :: Application
  evi_Experience :: Experience
  evi_Context :: EvaluationContext
  evi_Coverage :: EvaluationCoverage
  evi_NormalizedVerifier :: NormalizedVerifier
  evi_Facts :: Facts

record CitedEvidence =
  ce_Component :: Component
  ce_Ref :: EvidenceRef

record EvaluationResult =
  evr_DerivationVersion :: gostring
  evr_OpportunityState :: OpportunityState
  evr_ApplicabilityState :: ApplicabilityState
  evr_VerifierState :: VerifierState
  evr_TaskOutcomeState :: TaskOutcomeState
  evr_Coverage :: "CoverageStatus list"
  evr_Gaps :: "Gap list"
  evr_Evidence :: "CitedEvidence list"

section \<open>Input validation\<close>

text \<open>\<open>validateInput\<close> and what it calls, as whether it returns nil.\<close>

definition validateNormalizedString :: "gostring \<Rightarrow> bool \<Rightarrow> bool" where
  "validateNormalizedString value mandatory =
    (if mandatory \<and> value = [] then False
     else if value = [] then True
     else if value \<noteq> trim_space value \<or> length value > 16384 \<or> \<not> utf8_valid value then False
     else \<not> hasControl value)"

definition validateEvidence :: "EvaluationContext \<Rightarrow> EvidenceRef list \<Rightarrow> nat \<Rightarrow> bool \<Rightarrow> bool" where
  "validateEvidence ctx values limit mandatory =
    (if (mandatory \<and> values = []) \<or> length values > limit then False
     else list_all (\<lambda>ref. if \<not> EvidenceRef_Validate ref then False
       else if er_Kind ref = EvidenceTranscriptTurn \<and> er_SessionKey ref \<noteq> ctx_SessionKey ctx then False
       else True) values)"

definition validateFactMeta :: "EvaluationContext \<Rightarrow> FactMeta \<Rightarrow> bool" where
  "validateFactMeta ctx value =
    (if fm_Order value < 0 \<or>
       (case ctx_LastTurnIndex ctx of None \<Rightarrow> False | Some lastTurn \<Rightarrow> fm_Order value > lastTurn) then False
     else validateEvidence ctx (fm_Evidence value) MaxEvidencePerFact True)"

fun coverageEvidenceLoop :: "EvaluationContext \<Rightarrow> CoverageRequirement list \<Rightarrow> CoverageEvidence list \<Rightarrow> bool" where
  "coverageEvidenceLoop ctx seen [] = True"
| "coverageEvidenceLoop ctx seen (item # rest) =
    (if \<not> CoverageRequirement_Valid (cve_Requirement item) \<or> cve_Requirement item \<in> set seen then False
     else if \<not> validateEvidence ctx (cve_Evidence item) MaxEvidencePerFact True then False
     else coverageEvidenceLoop ctx (cve_Requirement item # seen) rest)"

definition validateCoverageEvidence :: "EvaluationContext \<Rightarrow> EvaluationCoverage \<Rightarrow> bool" where
  "validateCoverageEvidence ctx value = coverageEvidenceLoop ctx [] (cvg_Evidence value)"

definition validateNormalizedVerifier :: "Verifier \<Rightarrow> NormalizedVerifier \<Rightarrow> bool" where
  "validateNormalizedVerifier verifier normalized =
    (if vf_Kind verifier \<noteq> VerifierCommandObserved \<and> vf_Kind verifier \<noteq> VerifierCommandSucceeded then
       (if nv_DeclaredCommand normalized \<noteq> [] \<or> nv_CommandSignature normalized \<noteq> [] \<or>
          nv_CommandScrubbingVersion normalized \<noteq> [] then False
        else True)
     else if nv_DeclaredCommand normalized = [] \<and> nv_CommandSignature normalized = [] \<and>
       nv_CommandScrubbingVersion normalized = [] then True
     else if (case vf_Command verifier of None \<Rightarrow> True | Some c \<Rightarrow> nv_DeclaredCommand normalized \<noteq> cvs_Command c)
       then False
     else if \<not> validateNormalizedString (nv_DeclaredCommand normalized) True then False
     else if \<not> validateNormalizedString (nv_CommandSignature normalized) True then False
     else if to_lower (nv_CommandSignature normalized) \<noteq> nv_CommandSignature normalized then False
     else validateNormalizedString (nv_CommandScrubbingVersion normalized) True)"

definition validPath :: "gostring \<Rightarrow> bool" where
  "validPath value = FileVerifierSpec_Validate \<lparr>fvs_Path = value\<rparr>"

definition validateFacts :: "EvaluationContext \<Rightarrow> Facts \<Rightarrow> bool" where
  "validateFacts ctx facts =
    (if length (fx_Opportunities facts) + length (fx_Conditions facts) + length (fx_Commands facts) +
        length (fx_FileChanges facts) + length (fx_Verifications facts) + length (fx_Failures facts) +
        length (fx_Corrections facts) + length (fx_TaskOutcomes facts) > MaxFacts then False
     else if \<not> list_all (\<lambda>f. OpportunityState_Valid (opf_State f) \<and> validateFactMeta ctx (opf_Meta f))
       (fx_Opportunities facts) then False
     else if \<not> list_all (\<lambda>f. DeterministicConditionKind_Valid (cof_Kind f) \<and> cof_Values f \<noteq> [] \<and>
         validateFactMeta ctx (cof_Meta f) \<and>
         list_all (\<lambda>value. if cof_Kind f = ConditionPathPattern then validPath value
           else validateNormalizedString value True) (cof_Values f))
       (fx_Conditions facts) then False
     else if \<not> list_all (\<lambda>f. validateFactMeta ctx (cmf_Meta f) \<and> validateNormalizedString (cmf_Signature f) True \<and>
         to_lower (cmf_Signature f) = cmf_Signature f \<and> validateNormalizedString (cmf_Class f) False \<and>
         FactResult_Valid (cmf_Result f))
       (fx_Commands facts) then False
     else if \<not> list_all (\<lambda>f. validateFactMeta ctx (fcf_Meta f) \<and> validPath (fcf_Path f)) (fx_FileChanges facts) then False
     else if \<not> list_all (\<lambda>f. validateFactMeta ctx (vff_Meta f) \<and> validateNormalizedString (vff_CommandClass f) True \<and>
         FactResult_Valid (vff_Result f))
       (fx_Verifications facts) then False
     else if \<not> list_all (\<lambda>f. validateFactMeta ctx (flf_Meta f) \<and> validateNormalizedString (flf_CommandClass f) True \<and>
         validateNormalizedString (flf_NormalizedPattern f) True)
       (fx_Failures facts) then False
     else if \<not> list_all (\<lambda>f. validateFactMeta ctx (crf_Meta f) \<and> validateNormalizedString (crf_MarkerFamily f) True)
       (fx_Corrections facts) then False
     else if \<not> list_all (\<lambda>f. TaskOutcomeState_Valid (tof_State f) \<and> validateFactMeta ctx (tof_Meta f))
       (fx_TaskOutcomes facts) then False
     else True)"

text \<open>A delivered application that is valid has its time of delivery, so the pointer is never nil.\<close>

definition validateInput :: "encoder \<Rightarrow> EvaluationInput \<Rightarrow> bool" where
  "validateInput E input =
    (let app = evi_Application input; value = evi_Experience input; ctx = evi_Context input in
     if \<not> Application_Validate E app then False
     else if \<not> Experience_Validate E value then False
     else if app_DeliveryState app \<noteq> DeliveryDelivered then False
     else if xr_ExperienceID (app_Experience app) \<noteq> ex_ExperienceID value \<or>
       xr_Version (app_Experience app) \<noteq> ex_Version value then False
     else if app_ProjectIdentity app \<noteq> scp_ProjectIdentity (ex_Scope value) \<or>
       ctx_ProjectIdentity ctx \<noteq> app_ProjectIdentity app then False
     else if ctx_SessionKey ctx \<noteq> app_SessionKey app then False
     else if scp_Kind (ex_Scope value) = ScopeSession \<and> scp_SessionKey (ex_Scope value) \<noteq> app_SessionKey app then False
     else if ctx_AsOf ctx = time_zero \<or>
       (case app_DeliveredAt app of None \<Rightarrow> True | Some d \<Rightarrow> ctx_AsOf ctx < d) then False
     else if (case ctx_Harness ctx of None \<Rightarrow> False | Some h \<Rightarrow> \<not> Harness_Valid h) then False
     else if \<not> validateNormalizedString (ctx_Model ctx) False then False
     else if \<not> list_all (\<lambda>value. validateNormalizedString value True) (ctx_TaskFamilies ctx) then False
     else if \<not> list_all validPath (ctx_RepositoryPaths ctx) then False
     else if \<not> list_all DeterministicConditionKind_Valid (ctx_CompleteConditionKinds ctx) \<or>
       \<not> distinct (ctx_CompleteConditionKinds ctx) then False
     else if (case ctx_LastTurnIndex ctx of None \<Rightarrow> False | Some i \<Rightarrow> i < 0) then False
     else if \<not> validateEvidence ctx (ctx_Evidence ctx) MaxEvidencePerFact False then False
     else if \<not> validateCoverageEvidence ctx (evi_Coverage input) then False
     else if \<not> validateNormalizedVerifier (ex_Verifier value) (evi_NormalizedVerifier input) then False
     else validateFacts ctx (evi_Facts input))"

end
