(* ===== verification/Eval_Verify.thy ===== *)
theory Eval_Verify
  imports Eval_Model
begin

text \<open>
  The evaluators of the nine kinds of verifiers (\<open>internal/experience/evaluate/evaluate.go\<close>). The
  result builder is passed along and only ever appended to. None is the panic of a verifier whose
  specification is missing; the model reads the specification on entry.
\<close>

section \<open>The builder\<close>

definition addGap :: "Gap \<Rightarrow> EvaluationResult \<Rightarrow> EvaluationResult" where
  "addGap value builder = builder\<lparr>evr_Gaps := evr_Gaps builder @ [value]\<rparr>"

definition addEvidence :: "Component \<Rightarrow> EvidenceRef list \<Rightarrow> EvaluationResult \<Rightarrow> EvaluationResult" where
  "addEvidence component refs builder =
    foldl (\<lambda>b ref. b\<lparr>evr_Evidence := evr_Evidence b @ [\<lparr>ce_Component = component, ce_Ref = ref\<rparr>]\<rparr>) builder refs"

abbreviation gap :: "Component \<Rightarrow> GapCode \<Rightarrow> Gap" where
  "gap component code \<equiv> \<lparr>gap_Component = component, gap_Code = code, gap_Coverage = None, gap_ConditionKind = None\<rparr>"

abbreviation coverage_gap :: "GapCode \<Rightarrow> CoverageRequirement \<Rightarrow> Gap" where
  "coverage_gap code requirement \<equiv> \<lparr>gap_Component = ComponentVerifier, gap_Code = code,
     gap_Coverage = Some requirement, gap_ConditionKind = None\<rparr>"

abbreviation undecided :: "Gap \<Rightarrow> EvaluationResult \<Rightarrow> VerifierState \<times> EvaluationResult" where
  "undecided g builder \<equiv> (VerifierUnknown, addGap g builder)"

abbreviation decided :: "VerifierState \<Rightarrow> EvidenceRef list \<Rightarrow> EvaluationResult \<Rightarrow> VerifierState \<times> EvaluationResult" where
  "decided state evidence builder \<equiv> (state, addEvidence ComponentVerifier evidence builder)"

section \<open>Coverage\<close>

definition normalizedCoverageRequirements :: "CoverageRequirement list \<Rightarrow> CoverageRequirement list" where
  "normalizedCoverageRequirements values = compactComparable (sort_key CoverageRequirement_text values)"

definition declaredCoverage :: "Verifier \<Rightarrow> CoverageRequirement \<Rightarrow> bool" where
  "declaredCoverage verifier requirement \<longleftrightarrow> requirement \<in> set (vf_CoverageRequirements verifier)"

definition coverageEvidence :: "EvaluationCoverage \<Rightarrow> CoverageRequirement \<Rightarrow> EvidenceRef list" where
  "coverageEvidence coverage requirement =
    (case find (\<lambda>item. cve_Requirement item = requirement) (cvg_Evidence coverage) of
       None \<Rightarrow> []
     | Some item \<Rightarrow> cve_Evidence item)"

definition verifierCoverageEvidence :: "EvaluationInput \<Rightarrow> EvidenceRef list" where
  "verifierCoverageEvidence input =
    concat (map (coverageEvidence (evi_Coverage input))
      (normalizedCoverageRequirements (vf_CoverageRequirements (ex_Verifier (evi_Experience input)))))"

definition fileAbsenceEvidence :: "EvaluationInput \<Rightarrow> EvidenceRef list" where
  "fileAbsenceEvidence input =
    concat (map (\<lambda>requirement.
        if declaredCoverage (ex_Verifier (evi_Experience input)) requirement
        then coverageEvidence (evi_Coverage input) requirement else [])
      [CoverageWorkspaceCaptured, CoverageCanonicalComplete])"

definition fileAbsenceCoverageDeclared :: "Verifier \<Rightarrow> bool" where
  "fileAbsenceCoverageDeclared verifier \<longleftrightarrow>
    declaredCoverage verifier CoverageWorkspaceCaptured \<or> declaredCoverage verifier CoverageCanonicalComplete"

section \<open>Paths\<close>

definition safeRelativePath :: "gostring \<Rightarrow> bool" where
  "safeRelativePath value = FileVerifierSpec_Validate \<lparr>fvs_Path = value\<rparr>"

definition safePattern :: "gostring \<Rightarrow> bool" where
  "safePattern value \<longleftrightarrow> PathPatternVerifierSpec_Validate \<lparr>pvs_Patterns = [value]\<rparr> \<and> path_clean value = value"

fun matchPaths :: "gostring \<Rightarrow> gostring list \<Rightarrow> bool option" where
  "matchPaths p [] = None"
| "matchPaths p (value # rest) =
    (if \<not> safeRelativePath value then Some False
     else if RelativePathPatternMatches p value then Some True
     else matchPaths p rest)"

fun matchAnyPath :: "gostring list \<Rightarrow> gostring list \<Rightarrow> bool" where
  "matchAnyPath [] paths = False"
| "matchAnyPath (p # ps) paths =
    (if \<not> safePattern p then False
     else case matchPaths p paths of
       Some answer \<Rightarrow> answer
     | None \<Rightarrow> matchAnyPath ps paths)"

section \<open>Commands\<close>

fun commandFactsConflict :: "CommandFact list \<Rightarrow> bool" where
  "commandFactsConflict [] = False"
| "commandFactsConflict (f # fs) =
    (list_ex (\<lambda>g. fm_Order (cmf_Meta f) = fm_Order (cmf_Meta g) \<and> cmf_Result f \<noteq> cmf_Result g) fs \<or>
     commandFactsConflict fs)"

fun verificationFactsConflict :: "VerificationFact list \<Rightarrow> bool" where
  "verificationFactsConflict [] = False"
| "verificationFactsConflict (f # fs) =
    (list_ex (\<lambda>g. fm_Order (vff_Meta f) = fm_Order (vff_Meta g) \<and> vff_CommandClass f = vff_CommandClass g \<and>
        vff_Result f \<noteq> vff_Result g) fs \<or>
     verificationFactsConflict fs)"

definition commandEvidence :: "CommandFact list \<Rightarrow> EvidenceRef list" where
  "commandEvidence values = concat (map (\<lambda>f. fm_Evidence (cmf_Meta f)) values)"

definition verificationEvidence :: "VerificationFact list \<Rightarrow> EvidenceRef list" where
  "verificationEvidence values = concat (map (\<lambda>f. fm_Evidence (vff_Meta f)) values)"

text \<open>The loop over the matching facts: the flags for a failure and for an unknown result.\<close>

fun resultLoop :: "FactResult list \<Rightarrow> bool \<Rightarrow> bool \<Rightarrow> VerifierState option" where
  "resultLoop [] hasFailure hasUnknown =
    (if hasUnknown then None
     else if hasFailure then Some VerifierViolated
     else Some VerifierUnknown)"
| "resultLoop (r # rs) hasFailure hasUnknown =
    (if r = FactResultSucceeded then Some VerifierSatisfied
     else if r = FactResultFailed then resultLoop rs True hasUnknown
     else resultLoop rs hasFailure True)"

definition concludeResults ::
    "FactResult list \<Rightarrow> EvidenceRef list \<Rightarrow> EvaluationResult \<Rightarrow> VerifierState \<times> EvaluationResult" where
  "concludeResults results evidence builder =
    (case resultLoop results False False of
       None \<Rightarrow> undecided (gap ComponentVerifier GapFactsIncomplete) builder
     | Some VerifierUnknown \<Rightarrow> (VerifierUnknown, builder)
     | Some state \<Rightarrow> decided state evidence builder)"

text \<open>When the session has no matching record, only a complete transcript makes that a violation.\<close>

definition absentInTranscript ::
    "EvaluationInput \<Rightarrow> EvidenceRef list \<Rightarrow> EvaluationResult \<Rightarrow> VerifierState \<times> EvaluationResult" where
  "absentInTranscript input prior builder =
    (if declaredCoverage (ex_Verifier (evi_Experience input)) CoverageTranscriptComplete then
       (let evidence = coverageEvidence (evi_Coverage input) CoverageTranscriptComplete in
        if length evidence > 0 then decided VerifierViolated (prior @ evidence) builder
        else undecided (gap ComponentVerifier GapFactsIncomplete) builder)
     else undecided (coverage_gap GapCoverageNotDeclared CoverageTranscriptComplete) builder)"

definition commandMatches :: "CommandVerifierSpec \<Rightarrow> EvaluationInput \<Rightarrow> CommandFact list" where
  "commandMatches spec input =
    filter (\<lambda>f. cmf_Signature f = nv_CommandSignature (evi_NormalizedVerifier input) \<and>
        \<not> (cvs_CommandClass spec \<noteq> [] \<and> cmf_Class f \<noteq> cvs_CommandClass spec) \<and>
        \<not> fm_Ambiguous (cmf_Meta f))
      (fx_Commands (evi_Facts input))"

definition commandAmbiguous :: "CommandVerifierSpec \<Rightarrow> EvaluationInput \<Rightarrow> bool" where
  "commandAmbiguous spec input =
    list_ex (\<lambda>f. cmf_Signature f = nv_CommandSignature (evi_NormalizedVerifier input) \<and>
        (cvs_CommandClass spec \<noteq> [] \<and> cmf_Class f \<noteq> cvs_CommandClass spec \<or> fm_Ambiguous (cmf_Meta f)))
      (fx_Commands (evi_Facts input))"

definition evaluateCommand ::
    "EvaluationInput \<Rightarrow> bool \<Rightarrow> EvaluationResult \<Rightarrow> (VerifierState \<times> EvaluationResult) option" where
  "evaluateCommand input requireSuccess builder =
    (case vf_Command (ex_Verifier (evi_Experience input)) of
       None \<Rightarrow> None
     | Some spec \<Rightarrow>
       let normalized = evi_NormalizedVerifier input in
       if nv_CommandSignature normalized = [] \<or> nv_CommandScrubbingVersion normalized \<noteq> cvs_ScrubbingVersion spec then
         Some (undecided (gap ComponentVerifier GapUnsupportedMatch) builder)
       else
         let matches = commandMatches spec input;
             ambiguous = commandAmbiguous spec input \<or> commandFactsConflict matches in
         if ambiguous then Some (undecided (gap ComponentVerifier GapAmbiguousMatch) builder)
         else if matches = [] then Some (absentInTranscript input [] builder)
         else let evidence = commandEvidence matches in
           if \<not> requireSuccess then Some (decided VerifierSatisfied evidence builder)
           else Some (concludeResults (map cmf_Result matches) evidence builder))"

section \<open>Files\<close>

text \<open>
  The common form of the two file evaluators: the evidence of the unambiguous changes that match,
  whether a matching change is ambiguous, and the verdicts for a change and for its absence.
\<close>

definition changeEvidence :: "(gostring \<Rightarrow> bool) \<Rightarrow> EvaluationInput \<Rightarrow> EvidenceRef list" where
  "changeEvidence matching input =
    concat (map (\<lambda>f. fm_Evidence (fcf_Meta f))
      (filter (\<lambda>f. matching (fcf_Path f) \<and> \<not> fm_Ambiguous (fcf_Meta f)) (fx_FileChanges (evi_Facts input))))"

definition changeAmbiguous :: "(gostring \<Rightarrow> bool) \<Rightarrow> EvaluationInput \<Rightarrow> bool" where
  "changeAmbiguous matching input =
    list_ex (\<lambda>f. matching (fcf_Path f) \<and> fm_Ambiguous (fcf_Meta f)) (fx_FileChanges (evi_Facts input))"

definition evaluateChanges ::
    "EvaluationInput \<Rightarrow> (gostring \<Rightarrow> bool) \<Rightarrow> bool \<Rightarrow> EvaluationResult \<Rightarrow> VerifierState \<times> EvaluationResult" where
  "evaluateChanges input matching wantModified builder =
    (let evidence = changeEvidence matching input in
     if changeAmbiguous matching input then undecided (gap ComponentVerifier GapAmbiguousMatch) builder
     else if length evidence > 0 then
       decided (if wantModified then VerifierSatisfied else VerifierViolated) evidence builder
     else if \<not> fileAbsenceCoverageDeclared (ex_Verifier (evi_Experience input)) then
       undecided (gap ComponentVerifier GapCoverageNotDeclared) builder
     else let evidence = fileAbsenceEvidence input in
       if length evidence = 0 then undecided (gap ComponentVerifier GapFactsIncomplete) builder
       else decided (if wantModified then VerifierViolated else VerifierSatisfied) evidence builder)"

definition evaluateFile ::
    "EvaluationInput \<Rightarrow> bool \<Rightarrow> EvaluationResult \<Rightarrow> (VerifierState \<times> EvaluationResult) option" where
  "evaluateFile input wantModified builder =
    (case vf_File (ex_Verifier (evi_Experience input)) of
       None \<Rightarrow> None
     | Some spec \<Rightarrow> Some (evaluateChanges input (\<lambda>path. path = fvs_Path spec) wantModified builder))"

definition evaluatePathPattern ::
    "EvaluationInput \<Rightarrow> EvaluationResult \<Rightarrow> (VerifierState \<times> EvaluationResult) option" where
  "evaluatePathPattern input builder =
    (case vf_PathPattern (ex_Verifier (evi_Experience input)) of
       None \<Rightarrow> None
     | Some spec \<Rightarrow> Some (evaluateChanges input (\<lambda>path. matchAnyPath (pvs_Patterns spec) [path]) False builder))"

section \<open>Verification after the last edit\<close>

text \<open>None is an ambiguous change; otherwise the latest order and the evidence of its changes.\<close>

fun latestEdit :: "FileChangeFact list \<Rightarrow> int \<Rightarrow> EvidenceRef list \<Rightarrow> (int \<times> EvidenceRef list) option" where
  "latestEdit [] latest evidence = Some (latest, evidence)"
| "latestEdit (f # fs) latest evidence =
    (if fm_Ambiguous (fcf_Meta f) then None
     else if fm_Order (fcf_Meta f) > latest then
       latestEdit fs (fm_Order (fcf_Meta f)) (fm_Evidence (fcf_Meta f))
     else if fm_Order (fcf_Meta f) = latest then latestEdit fs latest (evidence @ fm_Evidence (fcf_Meta f))
     else latestEdit fs latest evidence)"

definition verificationRelevant :: "VerificationAfterLastEditSpec \<Rightarrow> int \<Rightarrow> VerificationFact \<Rightarrow> bool" where
  "verificationRelevant spec latest f \<longleftrightarrow>
    \<not> (fm_Order (vff_Meta f) \<le> latest \<or>
       (length (vle_CommandClasses spec) > 0 \<and> vff_CommandClass f \<notin> set (vle_CommandClasses spec)))"

definition evaluateVerificationAfterLastEdit ::
    "EvaluationInput \<Rightarrow> EvaluationResult \<Rightarrow> (VerifierState \<times> EvaluationResult) option" where
  "evaluateVerificationAfterLastEdit input builder =
    (case vf_VerificationAfterLastEdit (ex_Verifier (evi_Experience input)) of
       None \<Rightarrow> None
     | Some spec \<Rightarrow> Some (
       case latestEdit (fx_FileChanges (evi_Facts input)) (- 1) [] of
         None \<Rightarrow> undecided (gap ComponentVerifier GapAmbiguousMatch) builder
       | Some (latest, latestEditEvidence) \<Rightarrow>
         if latest < 0 then undecided (gap ComponentVerifier GapNoEditObserved) builder
         else let matches = filter (verificationRelevant spec latest) (fx_Verifications (evi_Facts input)) in
           if list_ex (\<lambda>f. fm_Ambiguous (vff_Meta f)) matches then
             undecided (gap ComponentVerifier GapAmbiguousMatch) builder
           else if verificationFactsConflict matches then
             undecided (gap ComponentVerifier GapAmbiguousMatch) builder
           else if matches = [] then absentInTranscript input latestEditEvidence builder
           else let evidence = latestEditEvidence @ verificationEvidence matches in
             if \<not> vle_RequireSuccess spec then decided VerifierSatisfied evidence builder
             else concludeResults (map vff_Result matches) evidence builder))"

section \<open>Repeated failures and corrections\<close>

definition failureRelevant :: "NoRepeatFailureSpec \<Rightarrow> FailureFact \<Rightarrow> bool" where
  "failureRelevant spec f \<longleftrightarrow>
    flf_CommandClass f = nrf_CommandClass spec \<and> flf_NormalizedPattern f = nrf_NormalizedPattern spec"

text \<open>Orders are \<open>int64\<close>, so their difference wraps.\<close>

fun repeatedWithin :: "int \<Rightarrow> int list \<Rightarrow> bool" where
  "repeatedWithin window (x # y # rest) =
    (if wrap64 (y - x) > window then repeatedWithin window (y # rest) else True)"
| "repeatedWithin window _ = False"

definition evaluateNoRepeatFailure ::
    "EvaluationInput \<Rightarrow> EvaluationResult \<Rightarrow> (VerifierState \<times> EvaluationResult) option" where
  "evaluateNoRepeatFailure input builder =
    (case vf_NoRepeatFailure (ex_Verifier (evi_Experience input)) of
       None \<Rightarrow> None
     | Some spec \<Rightarrow> Some (
       if ctx_LastTurnIndex (evi_Context input) = None then
         undecided (gap ComponentVerifier GapFactsIncomplete) builder
       else
         let relevant = filter (failureRelevant spec) (fx_Failures (evi_Facts input));
             evidence = concat (map (\<lambda>f. fm_Evidence (flf_Meta f)) relevant);
             builder = addEvidence ComponentVerifier evidence builder;
             matches = filter (\<lambda>f. \<not> fm_Ambiguous (flf_Meta f)) relevant in
         if list_ex (\<lambda>f. fm_Ambiguous (flf_Meta f)) relevant then
           undecided (gap ComponentVerifier GapAmbiguousMatch) builder
         else if repeatedWithin (nrf_WindowTurns spec)
             (map (\<lambda>f. fm_Order (flf_Meta f)) (sort_key (\<lambda>f. fm_Order (flf_Meta f)) matches)) then
           (VerifierViolated, builder)
         else if \<not> declaredCoverage (ex_Verifier (evi_Experience input)) CoverageTranscriptComplete then
           undecided (coverage_gap GapCoverageNotDeclared CoverageTranscriptComplete) builder
         else if \<not> Coverage_Complete (evi_Coverage input) CoverageTranscriptComplete then
           undecided (gap ComponentVerifier GapFactsIncomplete) builder
         else let coverage = coverageEvidence (evi_Coverage input) CoverageTranscriptComplete in
           if length coverage = 0 then undecided (gap ComponentVerifier GapFactsIncomplete) builder
           else decided VerifierSatisfied coverage builder))"

definition correctionRelevant :: "UserCorrectionAbsentSpec \<Rightarrow> CorrectionFact \<Rightarrow> bool" where
  "correctionRelevant spec f \<longleftrightarrow>
    \<not> (length (uca_MarkerFamilies spec) > 0 \<and> crf_MarkerFamily f \<notin> set (uca_MarkerFamilies spec))"

definition evaluateUserCorrectionAbsent ::
    "EvaluationInput \<Rightarrow> EvaluationResult \<Rightarrow> (VerifierState \<times> EvaluationResult) option" where
  "evaluateUserCorrectionAbsent input builder =
    (case vf_UserCorrectionAbsent (ex_Verifier (evi_Experience input)) of
       None \<Rightarrow> None
     | Some spec \<Rightarrow> Some (
       let relevant = filter (correctionRelevant spec) (fx_Corrections (evi_Facts input));
           evidence = concat (map (\<lambda>f. fm_Evidence (crf_Meta f))
             (filter (\<lambda>f. \<not> fm_Ambiguous (crf_Meta f)) relevant)) in
       if list_ex (\<lambda>f. fm_Ambiguous (crf_Meta f)) relevant then
         undecided (gap ComponentVerifier GapAmbiguousMatch) builder
       else if length evidence > 0 then decided VerifierViolated evidence builder
       else if \<not> declaredCoverage (ex_Verifier (evi_Experience input)) CoverageTranscriptComplete then
         undecided (coverage_gap GapCoverageNotDeclared CoverageTranscriptComplete) builder
       else let evidence = coverageEvidence (evi_Coverage input) CoverageTranscriptComplete in
         if length evidence = 0 then undecided (gap ComponentVerifier GapFactsIncomplete) builder
         else decided VerifierSatisfied evidence builder))"

section \<open>Dispatch\<close>

definition evaluateVerifier ::
    "EvaluationInput \<Rightarrow> EvaluationResult \<Rightarrow> (VerifierState \<times> EvaluationResult) option" where
  "evaluateVerifier input builder =
    (case vf_Kind (ex_Verifier (evi_Experience input)) of
       VerifierCommandObserved \<Rightarrow> evaluateCommand input False builder
     | VerifierCommandSucceeded \<Rightarrow> evaluateCommand input True builder
     | VerifierFileNotModified \<Rightarrow> evaluateFile input False builder
     | VerifierFileModified \<Rightarrow> evaluateFile input True builder
     | VerifierPathPatternNotModified \<Rightarrow> evaluatePathPattern input builder
     | VerifierVerificationAfterLastEdit \<Rightarrow> evaluateVerificationAfterLastEdit input builder
     | VerifierNoRepeatFailure \<Rightarrow> evaluateNoRepeatFailure input builder
     | VerifierUserCorrectionAbsent \<Rightarrow> evaluateUserCorrectionAbsent input builder
     | VerifierObservationOnly \<Rightarrow> Some (undecided (gap ComponentVerifier GapObservationOnly) builder)
     | _ \<Rightarrow> Some (undecided (gap ComponentVerifier GapUnsupportedMatch) builder))"

end
