(* ===== verification/Eval_Evaluate.thy ===== *)
theory Eval_Evaluate
  imports Eval_Verify
begin

text \<open>
  The evaluation of one delivered experience (\<open>internal/experience/evaluate/evaluate.go\<close>):
  opportunity, applicability, task outcome and verifier, and the bounded result. The JSON texts by which
  gaps and citations are sorted and compared are parameters.
\<close>

record result_encoder =
  enc_gap :: "Gap \<Rightarrow> gostring"
  enc_cited :: "CitedEvidence \<Rightarrow> gostring"

section \<open>Opportunity and task outcome\<close>

definition evaluateOpportunity :: "OpportunityFact list \<Rightarrow> EvaluationResult \<Rightarrow> OpportunityState \<times> EvaluationResult" where
  "evaluateOpportunity facts builder =
    (if facts = [] then (OpportunityUnknown, addGap (gap ComponentOpportunity GapNoOpportunityObservation) builder)
     else
       let states = remdups (map opf_State facts);
           ambiguous = list_ex (\<lambda>f. fm_Ambiguous (opf_Meta f)) facts;
           evidence = concat (map (\<lambda>f. fm_Evidence (opf_Meta f)) facts) in
       if ambiguous \<or> length states \<noteq> 1 then
         (OpportunityUnknown, addGap (gap ComponentOpportunity GapAmbiguousMatch) builder)
       else (hd states, addEvidence ComponentOpportunity evidence builder))"

definition evaluateTaskOutcome :: "TaskOutcomeFact list \<Rightarrow> EvaluationResult \<Rightarrow> TaskOutcomeState \<times> EvaluationResult" where
  "evaluateTaskOutcome facts builder =
    (if facts = [] then (TaskOutcomeUnknown, addGap (gap ComponentTaskOutcome GapNoTaskOutcomeObservation) builder)
     else
       let states = remdups (map tof_State facts);
           ambiguous = list_ex (\<lambda>f. fm_Ambiguous (tof_Meta f)) facts;
           evidence = concat (map (\<lambda>f. fm_Evidence (tof_Meta f)) facts) in
       if ambiguous \<or> length states \<noteq> 1 then
         (TaskOutcomeUnknown, addGap (gap ComponentTaskOutcome GapAmbiguousMatch) builder)
       else (hd states, addEvidence ComponentTaskOutcome evidence builder))"

section \<open>Applicability\<close>

definition overlap :: "'a list \<Rightarrow> 'a list \<Rightarrow> bool" where
  "overlap left right \<longleftrightarrow> list_ex (\<lambda>value. value \<in> set right) left"

definition conditionValuesMatch :: "DeterministicCondition \<Rightarrow> gostring list \<Rightarrow> bool" where
  "conditionValuesMatch condition factValues =
    (case dc_Kind condition of
       ConditionPathPattern \<Rightarrow> matchAnyPath (dc_Values condition) factValues
     | ConditionPriorEventSequence \<Rightarrow> dc_Values condition = factValues
     | _ \<Rightarrow> overlap (dc_Values condition) factValues)"

definition matchCondition :: "DeterministicCondition \<Rightarrow> ConditionFact list \<Rightarrow> bool \<times> bool \<times> EvidenceRef list" where
  "matchCondition condition facts =
    (let relevant = filter (\<lambda>f. \<not> (cof_Kind f \<noteq> dc_Kind condition \<or>
           \<not> conditionValuesMatch condition (cof_Values f))) facts;
         evidence = concat (map (\<lambda>f. fm_Evidence (cof_Meta f)) (filter (\<lambda>f. \<not> fm_Ambiguous (cof_Meta f)) relevant))
     in (length evidence > 0, list_ex (\<lambda>f. fm_Ambiguous (cof_Meta f)) relevant, evidence))"

definition applicabilityDecision ::
    "ApplicabilityState \<Rightarrow> EvidenceRef list \<Rightarrow> EvaluationResult \<Rightarrow> ApplicabilityState \<times> EvaluationResult" where
  "applicabilityDecision state evidence builder =
    (if evidence = [] then (ApplicabilityUnknown, addGap (gap ComponentApplicability GapFactsIncomplete) builder)
     else (state, addEvidence ComponentApplicability evidence builder))"

abbreviation condition_gap :: "GapCode \<Rightarrow> DeterministicConditionKind \<Rightarrow> Gap" where
  "condition_gap code kind \<equiv> \<lparr>gap_Component = ComponentApplicability, gap_Code = code,
     gap_Coverage = None, gap_ConditionKind = Some kind\<rparr>"

text \<open>A step either returns from the function or goes on, with whether anything is unknown so far.\<close>

datatype applicability_step =
  Returned "ApplicabilityState \<times> EvaluationResult"
| Continue bool EvaluationResult

fun andThen :: "applicability_step \<Rightarrow> (bool \<Rightarrow> EvaluationResult \<Rightarrow> applicability_step) \<Rightarrow> applicability_step" where
  "andThen (Returned r) next_step = Returned r"
| "andThen (Continue unknown builder) next_step = next_step unknown builder"

definition scopeStep :: "bool \<Rightarrow> bool \<Rightarrow> bool \<Rightarrow> EvidenceRef list \<Rightarrow> bool \<Rightarrow> EvaluationResult \<Rightarrow> applicability_step" where
  "scopeStep restricted absent found evidence unknown builder =
    (if restricted then
       (if absent then Continue True builder
        else if \<not> found then Returned (applicabilityDecision ApplicabilityNotApplicable evidence builder)
        else Continue unknown builder)
     else Continue unknown builder)"

definition pathStep :: "Scope \<Rightarrow> EvaluationContext \<Rightarrow> EvidenceRef list \<Rightarrow> bool \<Rightarrow> EvaluationResult \<Rightarrow> applicability_step" where
  "pathStep scope ctx evidence unknown builder =
    (if length (scp_RepositoryPaths scope) > 0 then
       (if matchAnyPath (scp_RepositoryPaths scope) (ctx_RepositoryPaths ctx) then Continue unknown builder
        else if ConditionPathPattern \<in> set (ctx_CompleteConditionKinds ctx) then
          Returned (applicabilityDecision ApplicabilityNotApplicable evidence builder)
        else Continue True (addGap (condition_gap GapFactsIncomplete ConditionPathPattern) builder))
     else Continue unknown builder)"

fun conditionSteps ::
    "DeterministicCondition list \<Rightarrow> ConditionFact list \<Rightarrow> EvaluationContext \<Rightarrow> EvidenceRef list \<Rightarrow> bool \<Rightarrow>
      EvaluationResult \<Rightarrow> applicability_step" where
  "conditionSteps [] facts ctx contextEvidence unknown builder = Continue unknown builder"
| "conditionSteps (condition # rest) facts ctx contextEvidence unknown builder =
    (let (matched, ambiguous, evidence) = matchCondition condition facts in
     if ambiguous then
       conditionSteps rest facts ctx contextEvidence True
         (addGap (condition_gap GapAmbiguousMatch (dc_Kind condition)) builder)
     else if matched then
       conditionSteps rest facts ctx contextEvidence unknown (addEvidence ComponentApplicability evidence builder)
     else if dc_Kind condition \<in> set (ctx_CompleteConditionKinds ctx) then
       Returned (applicabilityDecision ApplicabilityNotApplicable contextEvidence builder)
     else
       conditionSteps rest facts ctx contextEvidence True
         (addGap (condition_gap GapFactsIncomplete (dc_Kind condition)) builder))"

definition exclusionStep :: "Applicability \<Rightarrow> bool \<Rightarrow> EvaluationResult \<Rightarrow> applicability_step" where
  "exclusionStep applicability unknown builder =
    (if length (apl_Exclusions applicability) > 0
     then Continue True (addGap (gap ComponentApplicability GapSemanticExclusion) builder)
     else Continue unknown builder)"

definition contextEvidenceOf :: "EvaluationInput \<Rightarrow> EvidenceRef list" where
  "contextEvidenceOf input =
    (if ctx_Evidence (evi_Context input) = [] then app_SourceEvidence (evi_Application input)
     else ctx_Evidence (evi_Context input))"

definition applicabilitySteps :: "EvaluationInput \<Rightarrow> EvaluationResult \<Rightarrow> applicability_step" where
  "applicabilitySteps input builder =
    (let value = evi_Experience input; ctx = evi_Context input; scope = ex_Scope value;
         evidence = contextEvidenceOf input in
     andThen (case apl_ExpiresAt (ex_Applicability value) of
         Some e \<Rightarrow> if \<not> ctx_AsOf ctx < e
           then Returned (applicabilityDecision ApplicabilityNotApplicable evidence builder)
           else Continue False builder
       | None \<Rightarrow> Continue False builder) (\<lambda>unknown builder.
     andThen (scopeStep (length (scp_Harnesses scope) > 0) (ctx_Harness ctx = None)
         (case ctx_Harness ctx of None \<Rightarrow> False | Some h \<Rightarrow> h \<in> set (scp_Harnesses scope)) evidence unknown builder)
       (\<lambda>unknown builder.
     andThen (scopeStep (length (scp_Models scope) > 0) (ctx_Model ctx = [])
         (ctx_Model ctx \<in> set (scp_Models scope)) evidence unknown builder) (\<lambda>unknown builder.
     andThen (scopeStep (length (scp_TaskFamilies scope) > 0) (ctx_TaskFamilies ctx = [])
         (overlap (scp_TaskFamilies scope) (ctx_TaskFamilies ctx)) evidence unknown builder) (\<lambda>unknown builder.
     andThen (pathStep scope ctx evidence unknown builder) (\<lambda>unknown builder.
     andThen (conditionSteps (apl_DeterministicConditions (ex_Applicability value)) (fx_Conditions (evi_Facts input))
         ctx evidence unknown builder)
       (exclusionStep (ex_Applicability value))))))))"

definition evaluateApplicability :: "EvaluationInput \<Rightarrow> EvaluationResult \<Rightarrow> ApplicabilityState \<times> EvaluationResult" where
  "evaluateApplicability input builder =
    (case applicabilitySteps input builder of
       Returned r \<Rightarrow> r
     | Continue unknown builder \<Rightarrow>
         if unknown then
           (ApplicabilityUnknown, addGap (gap ComponentApplicability GapNoApplicableObservation) builder)
         else applicabilityDecision ApplicabilityApplicable (contextEvidenceOf input) builder)"

section \<open>The bounded result\<close>

definition compactBy :: "('a \<Rightarrow> gostring) \<Rightarrow> 'a list \<Rightarrow> 'a list" where
  "compactBy text values =
    (case values of
       [] \<Rightarrow> []
     | v # vs \<Rightarrow> if length values < 2 then values
         else foldl (\<lambda>result c. if text c = text (last result) then result else result @ [c]) [v] vs)"

definition boundGaps :: "result_encoder \<Rightarrow> Gap list \<Rightarrow> Gap list" where
  "boundGaps J gaps =
    (let gaps = compactBy (enc_gap J) (sort_key (enc_gap J) gaps) in
     if length gaps > MaxResultGaps then take MaxResultGaps gaps else gaps)"

definition requiredComponent :: "EvaluationResult \<Rightarrow> Component \<Rightarrow> bool" where
  "requiredComponent result component =
    (case component of
       ComponentOpportunity \<Rightarrow> evr_OpportunityState result \<noteq> OpportunityUnknown
     | ComponentApplicability \<Rightarrow> evr_ApplicabilityState result \<noteq> ApplicabilityUnknown
     | ComponentVerifier \<Rightarrow> evr_VerifierState result = VerifierSatisfied \<or> evr_VerifierState result = VerifierViolated
     | ComponentTaskOutcome \<Rightarrow> evr_TaskOutcomeState result \<noteq> TaskOutcomeUnknown)"

fun anchorLoop :: "(Component \<Rightarrow> bool) \<Rightarrow> Component list \<Rightarrow> CitedEvidence list \<Rightarrow> bool list" where
  "anchorLoop needed anchored [] = []"
| "anchorLoop needed anchored (cited # rest) =
    (if \<not> needed (ce_Component cited) \<or> ce_Component cited \<in> set anchored
     then False # anchorLoop needed anchored rest
     else True # anchorLoop needed (ce_Component cited # anchored) rest)"

fun fillLoop :: "nat \<Rightarrow> nat \<Rightarrow> bool list \<Rightarrow> bool list" where
  "fillLoop kept limit [] = []"
| "fillLoop kept limit (k # ks) =
    (if kept = limit then k # ks
     else if k then True # fillLoop kept limit ks
     else True # fillLoop (Suc kept) limit ks)"

definition boundedEvidence :: "EvaluationResult \<Rightarrow> nat \<Rightarrow> CitedEvidence list" where
  "boundedEvidence result limit =
    (let anchors = anchorLoop (requiredComponent result) [] (evr_Evidence result);
         keep = fillLoop (length (filter (\<lambda>k. k) anchors)) limit anchors
     in map fst (filter snd (zip (evr_Evidence result) keep)))"

definition finishResult :: "result_encoder \<Rightarrow> EvaluationResult \<Rightarrow> EvaluationResult" where
  "finishResult J result =
    (let result = result\<lparr>evr_Gaps := boundGaps J (evr_Gaps result),
           evr_Evidence := compactBy (enc_cited J) (sort_key (enc_cited J) (evr_Evidence result))\<rparr> in
     if length (evr_Evidence result) > MaxResultEvidence then
       let result = addGap (gap ComponentVerifier GapEvidenceTruncated)
             (result\<lparr>evr_Evidence := boundedEvidence result MaxResultEvidence\<rparr>)
       in result\<lparr>evr_Gaps := boundGaps J (evr_Gaps result)\<rparr>
     else result)"

section \<open>Evaluation\<close>

datatype evaluation_error = ErrInvalidInput | NilSpecification

definition coverageStatuses :: "EvaluationInput \<Rightarrow> CoverageStatus list" where
  "coverageStatuses input =
    map (\<lambda>requirement. \<lparr>cvt_Requirement = requirement,
        cvt_Complete = Coverage_Complete (evi_Coverage input) requirement\<rparr>)
      (normalizedCoverageRequirements (vf_CoverageRequirements (ex_Verifier (evi_Experience input))))"

definition coverageLoop :: "CoverageStatus list \<Rightarrow> EvaluationResult \<Rightarrow> bool \<times> EvaluationResult" where
  "coverageLoop statuses builder =
    foldl (\<lambda>(missing, b) status.
        let b = b\<lparr>evr_Coverage := evr_Coverage b @ [status]\<rparr> in
        if \<not> cvt_Complete status then (True, addGap (coverage_gap GapCoverageMissing (cvt_Requirement status)) b)
        else (missing, b))
      (False, builder) statuses"

definition emptyResult :: EvaluationResult where
  "emptyResult = \<lparr>evr_DerivationVersion = EvaluationVersion, evr_OpportunityState = OpportunityUnknown,
     evr_ApplicabilityState = ApplicabilityUnknown, evr_VerifierState = VerifierUnknown,
     evr_TaskOutcomeState = TaskOutcomeUnknown, evr_Coverage = [], evr_Gaps = [], evr_Evidence = []\<rparr>"

definition Evaluate :: "encoder \<Rightarrow> result_encoder \<Rightarrow> EvaluationInput \<Rightarrow> evaluation_error + EvaluationResult" where
  "Evaluate E J input =
    (if \<not> validateInput E input then Inl ErrInvalidInput
     else
       let (opportunity, b) = evaluateOpportunity (fx_Opportunities (evi_Facts input)) emptyResult;
           (applicability, b) = evaluateApplicability input (b\<lparr>evr_OpportunityState := opportunity\<rparr>);
           (outcome, b) = evaluateTaskOutcome (fx_TaskOutcomes (evi_Facts input))
             (b\<lparr>evr_ApplicabilityState := applicability\<rparr>);
           (missingCoverage, b) = coverageLoop (coverageStatuses input) (b\<lparr>evr_TaskOutcomeState := outcome\<rparr>) in
       case (if missingCoverage then Some (evr_VerifierState b, b) else evaluateVerifier input b) of
         None \<Rightarrow> Inl NilSpecification
       | Some (verifier, b) \<Rightarrow>
           let b = b\<lparr>evr_VerifierState := verifier\<rparr>;
               b = (if evr_VerifierState b = VerifierUnknown
                 then addEvidence ComponentVerifier (verifierCoverageEvidence input) b else b)
           in Inr (finishResult J b))"

end
