(* ===== verification/Eval_Sound.thy ===== *)
theory Eval_Sound
  imports Eval_Evaluate
begin

text \<open>
  What an evaluation promises: it never reads a missing specification, it decides nothing without
  citing evidence and complete coverage, it drops no gap, and it never finds two opposed verifiers
  satisfied by the same session.
\<close>

section \<open>The builder only grows\<close>

definition cites :: "Component \<Rightarrow> EvaluationResult \<Rightarrow> bool" where
  "cites component b \<longleftrightarrow> (\<exists>c\<in>set (evr_Evidence b). ce_Component c = component)"

definition grows :: "EvaluationResult \<Rightarrow> EvaluationResult \<Rightarrow> bool" where
  "grows b b' \<longleftrightarrow> (\<exists>gs es. b' = b\<lparr>evr_Gaps := evr_Gaps b @ gs, evr_Evidence := evr_Evidence b @ es\<rparr>)"

lemma addEvidence_eq:
  "addEvidence component refs b =
    b\<lparr>evr_Evidence := evr_Evidence b @ map (\<lambda>r. \<lparr>ce_Component = component, ce_Ref = r\<rparr>) refs\<rparr>"
  unfolding addEvidence_def
proof (induction refs arbitrary: b)
  case (Cons r refs)
  then show ?case by simp
qed simp

lemma grows_refl [simp]: "grows b b"
  unfolding grows_def by (rule exI [of _ "[]"], rule exI [of _ "[]"]) simp

lemma grows_trans: "grows a b \<Longrightarrow> grows b c \<Longrightarrow> grows a c"
  unfolding grows_def by fastforce

lemma grows_addGap [simp]: "grows b (addGap g b)"
  unfolding grows_def addGap_def by (rule exI [of _ "[g]"], rule exI [of _ "[]"]) simp

lemma grows_addEvidence [simp]: "grows b (addEvidence component refs b)"
  unfolding grows_def addEvidence_eq by (rule exI [of _ "[]"]) auto

lemma cites_grows: "grows b b' \<Longrightarrow> cites component b \<Longrightarrow> cites component b'"
  by (auto simp: grows_def cites_def)

lemma cites_addEvidence [simp]: "refs \<noteq> [] \<Longrightarrow> cites component (addEvidence component refs b)"
  by (cases refs) (auto simp: cites_def addEvidence_eq)

lemma grows_states:
  "grows b b' \<Longrightarrow> evr_OpportunityState b' = evr_OpportunityState b \<and>
    evr_ApplicabilityState b' = evr_ApplicabilityState b \<and> evr_VerifierState b' = evr_VerifierState b \<and>
    evr_TaskOutcomeState b' = evr_TaskOutcomeState b \<and> evr_Coverage b' = evr_Coverage b"
  by (auto simp: grows_def)

section \<open>Verifiers\<close>

text \<open>A verdict with the builder it leaves: evidence for every verdict but unknown.\<close>

definition sound_verdict :: "EvaluationResult \<Rightarrow> VerifierState \<times> EvaluationResult \<Rightarrow> bool" where
  "sound_verdict b r \<longleftrightarrow> grows b (snd r) \<and> fst r \<in> {VerifierUnknown, VerifierSatisfied, VerifierViolated} \<and>
    (fst r \<noteq> VerifierUnknown \<longrightarrow> cites ComponentVerifier (snd r))"

lemma sound_undecided [simp]: "sound_verdict b (undecided g b)"
  by (simp add: sound_verdict_def)

lemma sound_decided [simp]:
  "s \<in> {VerifierSatisfied, VerifierViolated} \<Longrightarrow> refs \<noteq> [] \<Longrightarrow> sound_verdict b (decided s refs b)"
  by (auto simp: sound_verdict_def)

lemma sound_verdict_grows: "grows a b \<Longrightarrow> sound_verdict b r \<Longrightarrow> sound_verdict a r"
  by (auto simp: sound_verdict_def intro: grows_trans)

lemma resultLoop_states:
  "resultLoop rs f u = Some s \<Longrightarrow> s \<in> {VerifierUnknown, VerifierSatisfied, VerifierViolated}"
  by (induction rs f u rule: resultLoop.induct) (auto split: if_splits)

lemma sound_concludeResults: "refs \<noteq> [] \<Longrightarrow> sound_verdict b (concludeResults rs refs b)"
proof (cases "resultLoop rs False False")
  case (Some s)
  moreover assume "refs \<noteq> []"
  ultimately show ?thesis using resultLoop_states [OF Some]
    by (auto simp: concludeResults_def sound_verdict_def)
qed (simp add: concludeResults_def)

lemma sound_absent: "sound_verdict b (absentInTranscript input prior b)"
  by (simp add: absentInTranscript_def Let_def)

text \<open>Facts of a valid input carry evidence.\<close>

definition evidenced :: "Facts \<Rightarrow> bool" where
  "evidenced fx \<longleftrightarrow>
    (\<forall>f\<in>set (fx_Opportunities fx). fm_Evidence (opf_Meta f) \<noteq> []) \<and>
    (\<forall>f\<in>set (fx_Commands fx). fm_Evidence (cmf_Meta f) \<noteq> []) \<and>
    (\<forall>f\<in>set (fx_FileChanges fx). fm_Evidence (fcf_Meta f) \<noteq> [] \<and> 0 \<le> fm_Order (fcf_Meta f) \<and>
       validateRelativePath (fcf_Path f)) \<and>
    (\<forall>f\<in>set (fx_Verifications fx). fm_Evidence (vff_Meta f) \<noteq> []) \<and>
    (\<forall>f\<in>set (fx_Failures fx). fm_Evidence (flf_Meta f) \<noteq> []) \<and>
    (\<forall>f\<in>set (fx_Corrections fx). fm_Evidence (crf_Meta f) \<noteq> []) \<and>
    (\<forall>f\<in>set (fx_TaskOutcomes fx). fm_Evidence (tof_Meta f) \<noteq> [])"

lemma validateFactMeta_evidence: "validateFactMeta ctx m \<Longrightarrow> fm_Evidence m \<noteq> [] \<and> 0 \<le> fm_Order m"
  by (auto simp: validateFactMeta_def validateEvidence_def split: if_splits)

lemma validateFacts_evidenced: "validateFacts ctx fx \<Longrightarrow> evidenced fx"
  unfolding evidenced_def
proof (intro conjI)
  assume v: "validateFacts ctx fx"
  note D = v [unfolded validateFacts_def]
  show "\<forall>f\<in>set (fx_Opportunities fx). fm_Evidence (opf_Meta f) \<noteq> []"
    using D validateFactMeta_evidence by (simp split: if_splits) (force simp: list_all_iff)
  show "\<forall>f\<in>set (fx_Commands fx). fm_Evidence (cmf_Meta f) \<noteq> []"
    using D validateFactMeta_evidence by (simp split: if_splits) (force simp: list_all_iff)
  show "\<forall>f\<in>set (fx_FileChanges fx). fm_Evidence (fcf_Meta f) \<noteq> [] \<and> 0 \<le> fm_Order (fcf_Meta f) \<and>
      validateRelativePath (fcf_Path f)"
    using D validateFactMeta_evidence
    by (simp split: if_splits) (force simp: list_all_iff validPath_def FileVerifierSpec_Validate_def)
  show "\<forall>f\<in>set (fx_Verifications fx). fm_Evidence (vff_Meta f) \<noteq> []"
    using D validateFactMeta_evidence by (simp split: if_splits) (force simp: list_all_iff)
  show "\<forall>f\<in>set (fx_Failures fx). fm_Evidence (flf_Meta f) \<noteq> []"
    using D validateFactMeta_evidence by (simp split: if_splits) (force simp: list_all_iff)
  show "\<forall>f\<in>set (fx_Corrections fx). fm_Evidence (crf_Meta f) \<noteq> []"
    using D validateFactMeta_evidence by (simp split: if_splits) (force simp: list_all_iff)
  show "\<forall>f\<in>set (fx_TaskOutcomes fx). fm_Evidence (tof_Meta f) \<noteq> []"
    using D validateFactMeta_evidence by (simp split: if_splits) (force simp: list_all_iff)
qed

lemma validateInputD:
  assumes "validateInput E input"
  shows "Experience_Validate E (evi_Experience input)" and "evidenced (evi_Facts input)"
    and "validateFacts (evi_Context input) (evi_Facts input)"
proof -
  show "Experience_Validate E (evi_Experience input)" and
    v: "validateFacts (evi_Context input) (evi_Facts input)"
    using assms unfolding validateInput_def Let_def by (simp_all split: if_splits)
  from v show "evidenced (evi_Facts input)" by (rule validateFacts_evidenced)
qed

lemma sound_evaluateCommand:
  assumes "evidenced (evi_Facts input)" and "evaluateCommand input success b = Some r"
  shows "sound_verdict b r"
proof -
  from assms(2) obtain spec where spec: "vf_Command (ex_Verifier (evi_Experience input)) = Some spec"
    by (cases "vf_Command (ex_Verifier (evi_Experience input))") (simp_all add: evaluateCommand_def)
  have ne: "commandEvidence (commandMatches spec input) \<noteq> []" if "commandMatches spec input \<noteq> []"
  proof -
    from that obtain f fs where f: "commandMatches spec input = f # fs" by (cases "commandMatches spec input") auto
    then have "f \<in> set (fx_Commands (evi_Facts input))"
      unfolding commandMatches_def by (metis (no_types) filter_is_subset list.set_intros(1) subsetD)
    with assms(1) f show ?thesis by (auto simp: evidenced_def commandEvidence_def)
  qed
  show ?thesis
    using assms(2) ne sound_absent sound_concludeResults unfolding evaluateCommand_def Let_def spec option.simps
    by (auto split: if_splits)
qed

lemma sound_evaluateChanges: "sound_verdict b (evaluateChanges input m want b)"
  by (simp add: evaluateChanges_def Let_def)

lemma latestEdit_evidence:
  assumes "latestEdit fs l es = Some (l', es')" and "\<forall>f\<in>set fs. fm_Evidence (fcf_Meta f) \<noteq> []"
    and "l' > l \<or> es \<noteq> []"
  shows "es' \<noteq> []"
  using assms
proof (induction fs l es rule: latestEdit.induct)
  case (2 f fs l es)
  then show ?case by (auto split: if_splits)
qed auto

lemma sound_evaluateVerification:
  assumes "evidenced (evi_Facts input)" and "evaluateVerificationAfterLastEdit input b = Some r"
  shows "sound_verdict b r"
proof -
  from assms(2) obtain spec where spec: "vf_VerificationAfterLastEdit (ex_Verifier (evi_Experience input)) = Some spec"
    by (cases "vf_VerificationAfterLastEdit (ex_Verifier (evi_Experience input))")
      (simp_all add: evaluateVerificationAfterLastEdit_def)
  show ?thesis
  proof (cases "latestEdit (fx_FileChanges (evi_Facts input)) (- 1) []")
    case None
    with assms(2) spec show ?thesis by (auto simp: evaluateVerificationAfterLastEdit_def)
  next
    case (Some p)
    obtain l es where p: "p = (l, es)" by fastforce
    have ne: "es \<noteq> []" if "\<not> l < 0"
      using latestEdit_evidence [of "fx_FileChanges (evi_Facts input)" "- 1" "[]" l es] Some p that assms(1)
      by (auto simp: evidenced_def)
    then have "\<not> l < 0 \<Longrightarrow> es @ verificationEvidence m \<noteq> []" for m by simp
    with assms(2) show ?thesis
      unfolding evaluateVerificationAfterLastEdit_def Let_def spec Some p option.simps prod.case
      using ne sound_absent sound_concludeResults by (auto split: if_splits)
  qed
qed

lemma repeatedWithin_nonempty: "repeatedWithin w os \<Longrightarrow> os \<noteq> []"
  by (cases os) auto

lemma sound_evaluateNoRepeatFailure:
  assumes ev: "evidenced (evi_Facts input)" and "evaluateNoRepeatFailure input b = Some r"
  shows "sound_verdict b r"
proof -
  from assms(2) obtain spec where spec: "vf_NoRepeatFailure (ex_Verifier (evi_Experience input)) = Some spec"
    by (cases "vf_NoRepeatFailure (ex_Verifier (evi_Experience input))") (simp_all add: evaluateNoRepeatFailure_def)
  define fs where "fs = filter (failureRelevant spec) (fx_Failures (evi_Facts input))"
  define orders where "orders = map (\<lambda>f. fm_Order (flf_Meta f))
    (sort_key (\<lambda>f. fm_Order (flf_Meta f)) (filter (\<lambda>f. \<not> fm_Ambiguous (flf_Meta f)) fs))"
  define b' where "b' = addEvidence ComponentVerifier (concat (map (\<lambda>f. fm_Evidence (flf_Meta f)) fs)) b"
  have g: "grows b b'" by (simp add: b'_def)
  have c: "cites ComponentVerifier b'" if "repeatedWithin (nrf_WindowTurns spec) orders"
  proof -
    from repeatedWithin_nonempty [OF that] have "filter (\<lambda>f. \<not> fm_Ambiguous (flf_Meta f)) fs \<noteq> []"
      by (auto simp: orders_def simp del: filter_empty_conv)
    then obtain f where f: "f \<in> set fs" by (cases fs) auto
    with ev have "fm_Evidence (flf_Meta f) \<noteq> []" by (auto simp: fs_def evidenced_def)
    with f show ?thesis by (auto simp: b'_def intro!: cites_addEvidence)
  qed
  have u: "sound_verdict b (undecided x b')" for x
    using sound_verdict_grows [OF g sound_undecided] .
  have d: "sound_verdict b (decided VerifierSatisfied (e # es) b')" for e es
    using sound_verdict_grows [OF g sound_decided] by simp
  show ?thesis
    using assms(2) g c u d
    unfolding evaluateNoRepeatFailure_def Let_def spec option.simps fs_def [symmetric] orders_def [symmetric]
      b'_def [symmetric]
    by (auto split: if_splits simp: neq_Nil_conv sound_verdict_def)
qed

lemma sound_evaluateUserCorrectionAbsent:
  assumes "evaluateUserCorrectionAbsent input b = Some r"
  shows "sound_verdict b r"
  using assms by (cases "vf_UserCorrectionAbsent (ex_Verifier (evi_Experience input))")
    (auto simp: evaluateUserCorrectionAbsent_def Let_def intro!: sound_decided split: if_splits)

lemma sound_evaluateFile:
  "evaluateFile input want b = Some r \<Longrightarrow> sound_verdict b r"
  by (auto simp: evaluateFile_def sound_evaluateChanges split: option.splits)

lemma sound_evaluatePathPattern:
  "evaluatePathPattern input b = Some r \<Longrightarrow> sound_verdict b r"
  by (auto simp: evaluatePathPattern_def sound_evaluateChanges split: option.splits)

lemma sound_evaluateVerifier:
  assumes "evidenced (evi_Facts input)" and "evaluateVerifier input b = Some r"
  shows "sound_verdict b r"
  using assms sound_evaluateCommand sound_evaluateFile sound_evaluatePathPattern
    sound_evaluateVerification sound_evaluateNoRepeatFailure sound_evaluateUserCorrectionAbsent
  unfolding evaluateVerifier_def
  by (cases "vf_Kind (ex_Verifier (evi_Experience input))") (simp_all, (blast | force simp: sound_undecided)+)

text \<open>A valid verifier carries the specification of its kind.\<close>

lemma evaluateVerifier_present:
  assumes "validateInput E input"
  shows "\<exists>r. evaluateVerifier input b = Some r"
proof -
  have v: "Verifier_Validate (ex_Verifier (evi_Experience input))"
    using validateInputD(1) [OF assms] Experience_ValidateD by blast
  show ?thesis
    using v
    by (cases "vf_Kind (ex_Verifier (evi_Experience input))")
      (auto simp: evaluateVerifier_def evaluateCommand_def evaluateFile_def evaluatePathPattern_def
        evaluateVerificationAfterLastEdit_def evaluateNoRepeatFailure_def evaluateUserCorrectionAbsent_def Let_def
        Verifier_Validate_def split: option.splits if_splits)
qed


section \<open>The whole evaluation\<close>

definition sound_opportunity :: "EvaluationResult \<Rightarrow> OpportunityState \<times> EvaluationResult \<Rightarrow> bool" where
  "sound_opportunity b r \<longleftrightarrow> grows b (snd r) \<and> (fst r \<noteq> OpportunityUnknown \<longrightarrow> cites ComponentOpportunity (snd r))"

lemma sound_evaluateOpportunity:
  assumes "\<forall>f\<in>set fs. fm_Evidence (opf_Meta f) \<noteq> []"
  shows "sound_opportunity b (evaluateOpportunity fs b)"
  using assms by (cases fs) (auto simp: evaluateOpportunity_def sound_opportunity_def Let_def)

definition sound_outcome :: "EvaluationResult \<Rightarrow> TaskOutcomeState \<times> EvaluationResult \<Rightarrow> bool" where
  "sound_outcome b r \<longleftrightarrow> grows b (snd r) \<and> (fst r \<noteq> TaskOutcomeUnknown \<longrightarrow> cites ComponentTaskOutcome (snd r))"

lemma sound_evaluateTaskOutcome:
  assumes "\<forall>f\<in>set fs. fm_Evidence (tof_Meta f) \<noteq> []"
  shows "sound_outcome b (evaluateTaskOutcome fs b)"
  using assms by (cases fs) (auto simp: evaluateTaskOutcome_def sound_outcome_def Let_def)

definition sound_applicability :: "EvaluationResult \<Rightarrow> ApplicabilityState \<times> EvaluationResult \<Rightarrow> bool" where
  "sound_applicability b r \<longleftrightarrow> grows b (snd r) \<and>
    (fst r \<noteq> ApplicabilityUnknown \<longrightarrow> cites ComponentApplicability (snd r))"

definition sound_step :: "EvaluationResult \<Rightarrow> applicability_step \<Rightarrow> bool" where
  "sound_step b s = (case s of Returned r \<Rightarrow> sound_applicability b r | Continue unknown b' \<Rightarrow> grows b b')"

lemma sound_applicabilityDecision [simp]: "sound_applicability b (applicabilityDecision s evidence b)"
  by (simp add: applicabilityDecision_def sound_applicability_def)

lemma sound_step_grows: "grows a b \<Longrightarrow> sound_step b s \<Longrightarrow> sound_step a s"
  by (auto simp: sound_step_def sound_applicability_def intro: grows_trans split: applicability_step.splits)

lemma sound_andThen:
  assumes "sound_step b s" and "\<And>u b'. sound_step b' (f u b')"
  shows "sound_step b (andThen s f)"
  using assms sound_step_grows by (cases s) (auto simp: sound_step_def)

lemma sound_conditionSteps: "sound_step b (conditionSteps cs facts ctx evidence unknown b)"
proof (induction cs arbitrary: unknown b)
  case (Cons c cs)
  then show ?case by (auto simp: sound_step_def [of _ "Returned _"] split: prod.split
      intro: sound_step_grows [OF grows_addGap] sound_step_grows [OF grows_addEvidence])
qed (simp add: sound_step_def)

lemma sound_applicabilitySteps: "sound_step b (applicabilitySteps input b)"
  unfolding applicabilitySteps_def Let_def
  by (intro sound_andThen sound_conditionSteps)
    (auto simp: sound_step_def scopeStep_def pathStep_def exclusionStep_def split: option.splits)

lemma sound_evaluateApplicability: "sound_applicability b (evaluateApplicability input b)"
proof (cases "applicabilitySteps input b")
  case (Returned r)
  with sound_applicabilitySteps [of b input] show ?thesis by (simp add: evaluateApplicability_def sound_step_def)
next
  case (Continue unknown b')
  with sound_applicabilitySteps [of b input] have g: "grows b b'" by (simp add: sound_step_def)
  with sound_applicabilityDecision [of b' ApplicabilityApplicable "contextEvidenceOf input"] Continue show ?thesis
    by (auto simp: evaluateApplicability_def sound_applicability_def intro: grows_trans)
qed

lemma coverageLoop_fold:
  "foldl (\<lambda>(missing, b) status.
        let b = b\<lparr>evr_Coverage := evr_Coverage b @ [status]\<rparr> in
        if \<not> cvt_Complete status then (True, addGap (coverage_gap GapCoverageMissing (cvt_Requirement status)) b)
        else (missing, b)) (missing, b) statuses =
    (missing \<or> (\<exists>s\<in>set statuses. \<not> cvt_Complete s),
     b\<lparr>evr_Coverage := evr_Coverage b @ statuses,
       evr_Gaps := evr_Gaps b @ map (\<lambda>s. coverage_gap GapCoverageMissing (cvt_Requirement s))
         (filter (\<lambda>s. \<not> cvt_Complete s) statuses)\<rparr>)"
  by (induction statuses arbitrary: missing b) (auto simp: addGap_def Let_def)

lemma coverageLoop_eq:
  "coverageLoop statuses b =
    ((\<exists>s\<in>set statuses. \<not> cvt_Complete s),
     b\<lparr>evr_Coverage := evr_Coverage b @ statuses,
       evr_Gaps := evr_Gaps b @ map (\<lambda>s. coverage_gap GapCoverageMissing (cvt_Requirement s))
         (filter (\<lambda>s. \<not> cvt_Complete s) statuses)\<rparr>)"
  unfolding coverageLoop_def coverageLoop_fold by simp


section \<open>Compaction\<close>

lemma compactBy_fold:
  assumes "acc \<noteq> []" and "sorted (map key vs)" and "\<forall>v\<in>set vs. key (last acc) \<le> key v"
    and "sorted_wrt (<) (map key acc)"
    and "R = foldl (\<lambda>result c. if key c = key (last result) then result else result @ [c]) acc vs"
  shows "sorted_wrt (<) (map key R) \<and> set acc \<subseteq> set R \<and> set R \<subseteq> set acc \<union> set vs \<and>
    (\<forall>v\<in>set vs. \<exists>y\<in>set R. key y = key v)"
  using assms
proof (induction vs arbitrary: acc)
  case (Cons v vs)
  show ?case
  proof (cases "key v = key (last acc)")
    case True
    then have "sorted_wrt (<) (map key R) \<and> set acc \<subseteq> set R \<and> set R \<subseteq> set acc \<union> set vs \<and>
      (\<forall>v\<in>set vs. \<exists>y\<in>set R. key y = key v)" using Cons.prems by (intro Cons.IH) auto
    with True Cons.prems(1) show ?thesis by (auto intro!: bexI [of _ "last acc"])
  next
    case False
    with Cons.prems have last_less: "key (last acc) < key v" by auto
    have "key x \<le> key (last acc)" if "x \<in> set acc" for x
    proof -
      obtain ys y where acc: "acc = ys @ [y]" using Cons.prems(1) by (metis rev_exhaust)
      with Cons.prems(4) that show ?thesis by (auto simp: sorted_wrt_append)
    qed
    with last_less have less: "\<forall>x\<in>set acc. key x < key v" by (meson le_less_trans)
    have "sorted_wrt (<) (map key R) \<and> set (acc @ [v]) \<subseteq> set R \<and> set R \<subseteq> set (acc @ [v]) \<union> set vs \<and>
      (\<forall>v\<in>set vs. \<exists>y\<in>set R. key y = key v)"
      using Cons.prems False less by (intro Cons.IH) (auto simp: sorted_wrt_append)
    then show ?thesis by auto
  qed
qed auto

lemma compact_sorted:
  fixes key :: "'a \<Rightarrow> gostring"
  defines "R xs \<equiv> compactBy key (sort_key key xs)"
  shows "distinct (map key (R xs))" and "set (R xs) \<subseteq> set xs"
    and "x \<in> set xs \<Longrightarrow> \<exists>y\<in>set (R xs). key y = key x"
proof -
  have "distinct (map key (R xs)) \<and> set (R xs) \<subseteq> set xs \<and> (\<forall>x\<in>set xs. \<exists>y\<in>set (R xs). key y = key x)"
  proof (cases "sort_key key xs")
    case Nil
    then have "xs = []" by (metis length_0_conv length_sort)
    with Nil show ?thesis by (simp add: R_def compactBy_def)
  next
    case (Cons v vs)
    have s: "sorted (map key (v # vs))" using sorted_sort_key [of key xs] Cons by simp
    have st: "set xs = set (v # vs)" using set_sort [of key xs] Cons by simp
    have R: "R xs = foldl (\<lambda>result c. if key c = key (last result) then result else result @ [c]) [v] vs"
      using Cons by (cases vs) (simp_all add: R_def compactBy_def)
    have "sorted_wrt (<) (map key (R xs)) \<and> set [v] \<subseteq> set (R xs) \<and> set (R xs) \<subseteq> set [v] \<union> set vs \<and>
        (\<forall>v\<in>set vs. \<exists>y\<in>set (R xs). key y = key v)"
      using s by (intro compactBy_fold [OF _ _ _ _ R]) auto
    then show ?thesis using st by (auto simp: strict_sorted_iff)
  qed
  then show "distinct (map key (R xs))" "set (R xs) \<subseteq> set xs"
    "x \<in> set xs \<Longrightarrow> \<exists>y\<in>set (R xs). key y = key x" by blast+
qed

section \<open>Truncation keeps an anchor for every decided component\<close>

lemma length_anchorLoop [simp]: "length (anchorLoop needed anchored cs) = length cs"
  by (induction needed anchored cs rule: anchorLoop.induct) auto

lemma length_fillLoop [simp]: "length (fillLoop kept limit ks) = length ks"
  by (induction kept limit ks rule: fillLoop.induct) auto

lemma fillLoop_keeps: "i < length ks \<Longrightarrow> ks ! i \<Longrightarrow> fillLoop kept limit ks ! i"
proof (induction kept limit ks arbitrary: i rule: fillLoop.induct)
  case (2 kept limit k ks)
  then show ?case by (cases i) auto
qed simp

lemma anchorLoop_anchors:
  assumes "needed (ce_Component c)" "ce_Component c \<notin> set anchored" "c \<in> set cs"
  shows "\<exists>i<length cs. anchorLoop needed anchored cs ! i \<and> ce_Component (cs ! i) = ce_Component c"
  using assms
proof (induction needed anchored cs rule: anchorLoop.induct)
  case (2 needed anchored cited rest)
  show ?case
  proof (cases "needed (ce_Component cited) \<and> ce_Component cited \<notin> set anchored \<and> ce_Component cited = ce_Component c")
    case True
    then show ?thesis by (intro exI [of _ "0::nat"]) (simp add: True [simplified])
  next
    case False
    with 2 have "\<exists>i<length rest. tl (anchorLoop needed anchored (cited # rest)) ! i \<and>
        ce_Component (rest ! i) = ce_Component c"
      by (auto split: if_splits)
    then obtain i where "i < length rest" "tl (anchorLoop needed anchored (cited # rest)) ! i"
      "ce_Component (rest ! i) = ce_Component c" by blast
    then show ?thesis by (intro exI [of _ "Suc i"]) (auto split: if_splits)
  qed
qed simp

lemma anchors_count:
  "length (filter (\<lambda>k. k) (anchorLoop needed anchored cs)) + card (set anchored) \<le> 4"
  if "card (set anchored) \<le> 4"
  using that
proof (induction needed anchored cs rule: anchorLoop.induct)
  case (2 needed anchored cited rest)
  have UNIV4: "(UNIV :: Component set) = {ComponentOpportunity, ComponentApplicability, ComponentVerifier, ComponentTaskOutcome}"
    using Component.exhaust by auto
  have f: "finite (UNIV :: Component set)" by (simp add: UNIV4)
  have "card (set (ce_Component cited # anchored)) \<le> card (UNIV :: Component set)"
    using f by (rule card_mono) simp
  then have "card (set (ce_Component cited # anchored)) \<le> 4" by (simp add: UNIV4)
  with 2 show ?case by (auto simp: card_insert_if)
qed simp

lemma fillLoop_count:
  "kept + length (filter (\<lambda>k. k) (fillLoop kept limit ks)) \<le> limit + length (filter (\<lambda>k. k) ks)"
  if "kept \<le> limit"
  using that
proof (induction kept limit ks rule: fillLoop.induct)
  case (2 kept limit k ks)
  then show ?case by (cases k) auto
qed simp

lemma kept_length: "length xs = length ks \<Longrightarrow>
    length (map fst (filter snd (zip xs ks))) = length (filter (\<lambda>k. k) ks)"
  by (induction xs ks rule: list_induct2) auto

lemma kept_member: "length xs = length ks \<Longrightarrow> i < length xs \<Longrightarrow> ks ! i \<Longrightarrow>
    xs ! i \<in> set (map fst (filter snd (zip xs ks)))"
  by (force simp: set_zip)

lemma boundedEvidence_length: "4 \<le> limit \<Longrightarrow> length (boundedEvidence b limit) \<le> limit"
proof -
  assume l: "4 \<le> limit"
  let ?a = "anchorLoop (requiredComponent b) [] (evr_Evidence b)"
  let ?n = "length (filter (\<lambda>k. k) ?a)"
  have "?n \<le> 4" using anchors_count [of "[]" "requiredComponent b" "evr_Evidence b"] by simp
  with l have "?n + length (filter (\<lambda>k. k) (fillLoop ?n limit ?a)) \<le> limit + ?n" by (intro fillLoop_count) simp
  then show ?thesis by (simp add: boundedEvidence_def Let_def kept_length del: length_map)
qed

lemma boundedEvidence_anchors:
  assumes "requiredComponent b component" and "cites component b"
  shows "\<exists>c\<in>set (boundedEvidence b limit). ce_Component c = component"
proof -
  from assms(2) obtain c where c: "c \<in> set (evr_Evidence b)" "ce_Component c = component" by (auto simp: cites_def)
  with anchorLoop_anchors [of "requiredComponent b" c "[]" "evr_Evidence b"] assms(1) obtain i where
    i: "i < length (evr_Evidence b)" "anchorLoop (requiredComponent b) [] (evr_Evidence b) ! i"
    "ce_Component (evr_Evidence b ! i) = component" by auto
  let ?a = "anchorLoop (requiredComponent b) [] (evr_Evidence b)"
  have "evr_Evidence b ! i \<in> set (boundedEvidence b limit)"
    unfolding boundedEvidence_def Let_def using i by (intro kept_member fillLoop_keeps) auto
  with i(3) show ?thesis by blast
qed

end
