(* ===== verification/Eval_Gaps.thy ===== *)
theory Eval_Gaps
  imports Eval_Sound
begin

text \<open>
  Which gaps an evaluation can report. There are fewer of them than a result may hold, so that the
  bound on gaps never drops one.
\<close>

definition condition_kinds :: "DeterministicConditionKind list" where
  "condition_kinds = [ConditionEventType, ConditionToolName, ConditionCommandClass, ConditionPathPattern,
     ConditionLifecyclePhase, ConditionPriorEventSequence]"

definition coverage_requirements :: "CoverageRequirement list" where
  "coverage_requirements = [CoverageTranscriptComplete, CoverageCanonicalComplete, CoverageWorkspaceCaptured,
     CoverageOutcomesComplete]"

definition possible_gaps :: "Gap list" where
  "possible_gaps =
    [gap ComponentOpportunity GapNoOpportunityObservation, gap ComponentOpportunity GapAmbiguousMatch,
     gap ComponentTaskOutcome GapNoTaskOutcomeObservation, gap ComponentTaskOutcome GapAmbiguousMatch,
     gap ComponentApplicability GapFactsIncomplete, gap ComponentApplicability GapSemanticExclusion,
     gap ComponentApplicability GapNoApplicableObservation] @
    map (condition_gap GapFactsIncomplete) condition_kinds @
    map (condition_gap GapAmbiguousMatch) condition_kinds @
    map (coverage_gap GapCoverageMissing) coverage_requirements @
    [coverage_gap GapCoverageNotDeclared CoverageTranscriptComplete, gap ComponentVerifier GapCoverageNotDeclared,
     gap ComponentVerifier GapFactsIncomplete, gap ComponentVerifier GapAmbiguousMatch,
     gap ComponentVerifier GapUnsupportedMatch, gap ComponentVerifier GapNoEditObserved,
     gap ComponentVerifier GapObservationOnly, gap ComponentVerifier GapEvidenceTruncated]"

lemma possible_gaps_length: "length possible_gaps \<le> MaxResultGaps"
  by (simp add: possible_gaps_def condition_kinds_def coverage_requirements_def)

lemma valid_kind: "DeterministicConditionKind_Valid k \<longleftrightarrow> k \<in> set condition_kinds"
  by (cases k) (simp_all add: condition_kinds_def)

lemma valid_requirement: "CoverageRequirement_Valid r \<longleftrightarrow> r \<in> set coverage_requirements"
  by (cases r) (simp_all add: coverage_requirements_def)

definition gaps_known :: "EvaluationResult \<Rightarrow> bool" where
  "gaps_known b \<longleftrightarrow> set (evr_Gaps b) \<subseteq> set possible_gaps"

lemma gaps_known_addGap [simp]: "gaps_known (addGap g b) \<longleftrightarrow> g \<in> set possible_gaps \<and> gaps_known b"
  by (auto simp: gaps_known_def addGap_def)

lemma gaps_known_addEvidence [simp]: "gaps_known (addEvidence c refs b) \<longleftrightarrow> gaps_known b"
  by (simp add: gaps_known_def addEvidence_eq)

lemma known_gap [simp]:
  "gap ComponentVerifier c \<in> set possible_gaps \<longleftrightarrow> c \<in> {GapCoverageNotDeclared, GapFactsIncomplete,
    GapAmbiguousMatch, GapUnsupportedMatch, GapNoEditObserved, GapObservationOnly, GapEvidenceTruncated}"
  "gap ComponentApplicability c \<in> set possible_gaps \<longleftrightarrow> c \<in> {GapFactsIncomplete, GapSemanticExclusion,
    GapNoApplicableObservation}"
  "gap ComponentOpportunity c \<in> set possible_gaps \<longleftrightarrow> c \<in> {GapNoOpportunityObservation, GapAmbiguousMatch}"
  "gap ComponentTaskOutcome c \<in> set possible_gaps \<longleftrightarrow> c \<in> {GapNoTaskOutcomeObservation, GapAmbiguousMatch}"
  "coverage_gap GapCoverageNotDeclared CoverageTranscriptComplete \<in> set possible_gaps"
  "coverage_gap GapCoverageMissing r \<in> set possible_gaps \<longleftrightarrow> CoverageRequirement_Valid r"
  "condition_gap GapFactsIncomplete k \<in> set possible_gaps \<longleftrightarrow> DeterministicConditionKind_Valid k"
  "condition_gap GapAmbiguousMatch k \<in> set possible_gaps \<longleftrightarrow> DeterministicConditionKind_Valid k"
  by (auto simp: possible_gaps_def valid_kind valid_requirement condition_kinds_def coverage_requirements_def)

section \<open>Every evaluator\<close>

lemma known_evaluateOpportunity: "gaps_known b \<Longrightarrow> gaps_known (snd (evaluateOpportunity fs b))"
  by (simp add: evaluateOpportunity_def Let_def)

lemma known_evaluateTaskOutcome: "gaps_known b \<Longrightarrow> gaps_known (snd (evaluateTaskOutcome fs b))"
  by (simp add: evaluateTaskOutcome_def Let_def)

definition step_known :: "applicability_step \<Rightarrow> bool" where
  "step_known s = (case s of Returned r \<Rightarrow> gaps_known (snd r) | Continue unknown b \<Rightarrow> gaps_known b)"

lemma step_known_simps [simp]:
  "step_known (Returned r) = gaps_known (snd r)" "step_known (Continue u b) = gaps_known b"
  by (simp_all add: step_known_def)

lemma known_applicabilityDecision [simp]: "gaps_known (snd (applicabilityDecision s evidence b)) = gaps_known b"
  by (simp add: applicabilityDecision_def)

lemma known_andThen:
  "step_known s \<Longrightarrow> (\<And>u b'. gaps_known b' \<Longrightarrow> step_known (f u b')) \<Longrightarrow> step_known (andThen s f)"
  by (cases s) auto

lemma known_conditionSteps:
  "gaps_known b \<Longrightarrow> \<forall>c\<in>set cs. DeterministicConditionKind_Valid (dc_Kind c) \<Longrightarrow>
    step_known (conditionSteps cs facts ctx evidence unknown b)"
  by (induction cs arbitrary: unknown b) (auto split: prod.split)

lemma known_applicabilitySteps:
  assumes "gaps_known b"
    and "\<forall>c\<in>set (apl_DeterministicConditions (ex_Applicability (evi_Experience input))).
      DeterministicConditionKind_Valid (dc_Kind c)"
  shows "step_known (applicabilitySteps input b)"
  using assms(1) unfolding applicabilitySteps_def Let_def
  by (intro known_andThen known_conditionSteps assms(2))
    (auto simp: scopeStep_def pathStep_def exclusionStep_def split: option.splits)

lemma known_evaluateApplicability:
  assumes "gaps_known b"
    and "\<forall>c\<in>set (apl_DeterministicConditions (ex_Applicability (evi_Experience input))).
      DeterministicConditionKind_Valid (dc_Kind c)"
  shows "gaps_known (snd (evaluateApplicability input b))"
  using known_applicabilitySteps [OF assms]
  by (auto simp: evaluateApplicability_def split: applicability_step.split)

lemma known_absent: "gaps_known b \<Longrightarrow> gaps_known (snd (absentInTranscript input prior b))"
  by (simp add: absentInTranscript_def Let_def)

lemma known_concludeResults: "gaps_known b \<Longrightarrow> gaps_known (snd (concludeResults rs refs b))"
  by (auto simp: concludeResults_def split: option.split VerifierState.split)

lemma known_evaluateChanges: "gaps_known b \<Longrightarrow> gaps_known (snd (evaluateChanges input m want b))"
  by (simp add: evaluateChanges_def Let_def)

lemma known_evaluateVerifier:
  assumes "gaps_known b" and "evaluateVerifier input b = Some r"
  shows "gaps_known (snd r)"
  using assms
  by (cases "vf_Kind (ex_Verifier (evi_Experience input))")
    (auto simp: evaluateVerifier_def evaluateCommand_def evaluateFile_def evaluatePathPattern_def
      evaluateVerificationAfterLastEdit_def evaluateNoRepeatFailure_def evaluateUserCorrectionAbsent_def Let_def
      known_absent known_concludeResults known_evaluateChanges split: option.splits if_splits prod.splits)

end
