(* ===== verification/Eval_Properties.thy ===== *)
theory Eval_Properties
  imports Eval_Gaps
begin

text \<open>
  What an evaluation promises about its result: it answers every valid input, it cites evidence for
  every state it decides even after truncation, it reports every gap it found, and it never finds two
  opposed verifiers satisfied by the same session.
\<close>

section \<open>The result before it is bounded\<close>

definition evaluated :: "EvaluationInput \<Rightarrow> EvaluationResult \<Rightarrow> bool" where
  "evaluated input b \<longleftrightarrow> gaps_known b \<and> evr_Coverage b = coverageStatuses input \<and>
    (\<forall>component. requiredComponent b component \<longrightarrow> cites component b) \<and>
    evr_VerifierState b \<in> {VerifierUnknown, VerifierSatisfied, VerifierViolated} \<and>
    (\<forall>s\<in>set (coverageStatuses input). \<not> cvt_Complete s \<longrightarrow>
       coverage_gap GapCoverageMissing (cvt_Requirement s) \<in> set (evr_Gaps b) \<and> evr_VerifierState b = VerifierUnknown)"

lemma gaps_known_states [simp]:
  "gaps_known (b\<lparr>evr_OpportunityState := x1\<rparr>) = gaps_known b"
  "gaps_known (b\<lparr>evr_ApplicabilityState := x2\<rparr>) = gaps_known b"
  "gaps_known (b\<lparr>evr_TaskOutcomeState := x3\<rparr>) = gaps_known b"
  "gaps_known (b\<lparr>evr_VerifierState := x4\<rparr>) = gaps_known b"
  by (simp_all add: gaps_known_def)

lemma gaps_known_empty [simp]: "gaps_known emptyResult"
  by (simp add: gaps_known_def emptyResult_def)

lemma cites_verifier_state [simp]: "cites k (b\<lparr>evr_VerifierState := x\<rparr>) = cites k b"
  by (simp add: cites_def)

lemma coverageStatuses_valid:
  assumes "validateInput E input" "s \<in> set (coverageStatuses input)"
  shows "CoverageRequirement_Valid (cvt_Requirement s)"
proof -
  have "Verifier_Validate (ex_Verifier (evi_Experience input))"
    using validateInputD(1) [OF assms(1)] Experience_ValidateD(3) by blast
  then have "\<forall>r\<in>set (vf_CoverageRequirements (ex_Verifier (evi_Experience input))). CoverageRequirement_Valid r"
    by (auto simp: Verifier_Validate_def list_all_iff split: if_splits)
  with assms(2) show ?thesis
    by (auto simp: coverageStatuses_def normalizedCoverageRequirements_def compact_eq)
qed

lemma condition_kinds_valid:
  assumes "validateInput E input" "c \<in> set (apl_DeterministicConditions (ex_Applicability (evi_Experience input)))"
  shows "DeterministicConditionKind_Valid (dc_Kind c)"
proof -
  have "Applicability_Validate (ex_Applicability (evi_Experience input))"
    using validateInputD(1) [OF assms(1)] unfolding Experience_Validate_def Let_def by (simp split: if_splits)
  with assms(2) show ?thesis
    by (auto simp: Applicability_Validate_def DeterministicCondition_Validate_def list_all_iff split: if_splits)
qed

text \<open>The first three states and the coverage; the verifier has not been evaluated yet.\<close>

definition observed :: "EvaluationInput \<Rightarrow> EvaluationResult \<Rightarrow> bool" where
  "observed input b \<longleftrightarrow> gaps_known b \<and> evr_Coverage b = coverageStatuses input \<and>
    evr_VerifierState b = VerifierUnknown \<and>
    (\<forall>component. requiredComponent b component \<longrightarrow> cites component b) \<and>
    (\<forall>s\<in>set (coverageStatuses input). \<not> cvt_Complete s \<longrightarrow>
       coverage_gap GapCoverageMissing (cvt_Requirement s) \<in> set (evr_Gaps b))"

definition verdict :: "EvaluationInput \<Rightarrow> EvaluationResult \<Rightarrow> (VerifierState \<times> EvaluationResult) option" where
  "verdict input b =
    (if \<exists>s\<in>set (coverageStatuses input). \<not> cvt_Complete s then Some (evr_VerifierState b, b)
     else evaluateVerifier input b)"

definition concluded :: "EvaluationInput \<Rightarrow> VerifierState \<times> EvaluationResult \<Rightarrow> EvaluationResult" where
  "concluded input r =
    (let b = (snd r)\<lparr>evr_VerifierState := fst r\<rparr> in
     if fst r = VerifierUnknown then addEvidence ComponentVerifier (verifierCoverageEvidence input) b else b)"

lemma Evaluate_observed:
  assumes v: "validateInput E input"
  obtains b where "observed input b"
    and "Evaluate E J input = (case verdict input b of None \<Rightarrow> Inl NilSpecification
      | Some r \<Rightarrow> Inr (finishResult J (concluded input r)))"
proof -
  note ev = validateInputD(2) [OF v]
  obtain opp b1 where 1: "evaluateOpportunity (fx_Opportunities (evi_Facts input)) emptyResult = (opp, b1)" by fastforce
  define b1' where "b1' = b1\<lparr>evr_OpportunityState := opp\<rparr>"
  obtain app b2 where 2: "evaluateApplicability input b1' = (app, b2)" by fastforce
  define b2' where "b2' = b2\<lparr>evr_ApplicabilityState := app\<rparr>"
  obtain out b3 where 3: "evaluateTaskOutcome (fx_TaskOutcomes (evi_Facts input)) b2' = (out, b3)" by fastforce
  define b3' where "b3' = b3\<lparr>evr_TaskOutcomeState := out\<rparr>"
  define b4 where "b4 = snd (coverageLoop (coverageStatuses input) b3')"
  have loop: "coverageLoop (coverageStatuses input) b3' =
      ((\<exists>s\<in>set (coverageStatuses input). \<not> cvt_Complete s), b4)" by (simp add: b4_def coverageLoop_eq)
  have sound: "sound_opportunity emptyResult (opp, b1)" "sound_applicability b1' (app, b2)" "sound_outcome b2' (out, b3)"
    using sound_evaluateOpportunity [of "fx_Opportunities (evi_Facts input)" emptyResult]
      sound_evaluateTaskOutcome [of "fx_TaskOutcomes (evi_Facts input)" b2']
      sound_evaluateApplicability [of b1' input] ev 1 2 3 by (auto simp: evidenced_def)
  have "gaps_known b1'" using known_evaluateOpportunity [of emptyResult "fx_Opportunities (evi_Facts input)"] 1
    by (simp add: b1'_def)
  then have "gaps_known b2'"
    using known_evaluateApplicability [of b1' input] condition_kinds_valid [OF v] 2 by (simp add: b2'_def)
  then have g3: "gaps_known b3'"
    using known_evaluateTaskOutcome [of b2' "fx_TaskOutcomes (evi_Facts input)"] 3 by (simp add: b3'_def)
  have states: "evr_OpportunityState b4 = opp" "evr_ApplicabilityState b4 = app" "evr_TaskOutcomeState b4 = out"
    "evr_VerifierState b4 = VerifierUnknown" "evr_Coverage b4 = coverageStatuses input"
    using sound by (auto simp: b4_def coverageLoop_eq b3'_def b2'_def b1'_def sound_opportunity_def
        sound_applicability_def sound_outcome_def grows_def emptyResult_def)
  have u: "cites k b4 = cites k b3" "cites k b2' = cites k b2" "cites k b1' = cites k b1" for k
    by (simp_all add: b4_def coverageLoop_eq b3'_def b2'_def b1'_def cites_def)
  have "grows b1' b2" "grows b2' b3" using sound by (simp_all add: sound_applicability_def sound_outcome_def)
  then have "cites k b1 \<Longrightarrow> cites k b4" "cites k b2 \<Longrightarrow> cites k b4" for k
    using cites_grows u by blast+
  with sound u states have "cites k b4" if "requiredComponent b4 k" for k
    using that by (cases k)
      (auto simp: requiredComponent_def sound_opportunity_def sound_applicability_def sound_outcome_def)
  then have "observed input b4"
    using states g3 coverageStatuses_valid [OF v] unfolding observed_def
    by (auto simp: b4_def coverageLoop_eq gaps_known_def)
  moreover have "Evaluate E J input = (case verdict input b4 of None \<Rightarrow> Inl NilSpecification
      | Some r \<Rightarrow> Inr (finishResult J (concluded input r)))"
    using v unfolding Evaluate_def Let_def verdict_def concluded_def
    by (simp add: 1 2 3 loop b1'_def [symmetric] b2'_def [symmetric] b3'_def [symmetric]
        split: option.split prod.split)
  ultimately show thesis by (rule that)
qed

lemma concluded_evaluated:
  assumes ev: "evidenced (evi_Facts input)" and b: "observed input b" and r: "verdict input b = Some r"
  shows "evaluated input (concluded input r)"
proof -
  note O = b [unfolded observed_def]
  have sr: "sound_verdict b r" "gaps_known (snd r)"
    "(\<exists>s\<in>set (coverageStatuses input). \<not> cvt_Complete s) \<Longrightarrow> r = (VerifierUnknown, b)"
    using r sound_evaluateVerifier [OF ev, of b r] known_evaluateVerifier [of b input r] O
    by (auto simp: verdict_def sound_verdict_def split: if_splits)
  define b5 where "b5 = (snd r)\<lparr>evr_VerifierState := fst r\<rparr>"
  define b6 where "b6 = concluded input r"
  have g: "grows b (snd r)" using sr(1) by (simp add: sound_verdict_def)
  have g5: "grows b5 b6" by (simp add: b6_def b5_def concluded_def Let_def)
  have c6: "cites k (snd r) \<Longrightarrow> cites k b6" for k using cites_grows [OF g5, of k] by (simp add: b5_def)
  have c4: "cites k b \<Longrightarrow> cites k b6" for k using cites_grows [OF g, of k] c6 by blast
  have st6: "evr_OpportunityState b6 = evr_OpportunityState b" "evr_ApplicabilityState b6 = evr_ApplicabilityState b"
    "evr_TaskOutcomeState b6 = evr_TaskOutcomeState b" "evr_VerifierState b6 = fst r" "evr_Coverage b6 = evr_Coverage b"
    using grows_states [OF g5] grows_states [OF g] by (simp_all add: b5_def)
  have "cites k b6" if "requiredComponent b6 k" for k
  proof (cases "k = ComponentVerifier")
    case True
    with that st6 sr(1) c6 show ?thesis by (auto simp: requiredComponent_def sound_verdict_def)
  next
    case False
    with that st6 have "requiredComponent b k" by (cases k) (simp_all add: requiredComponent_def)
    with O c4 show ?thesis by blast
  qed
  moreover have "gaps_known b6" using sr(2) by (simp add: b6_def concluded_def Let_def)
  moreover have "set (evr_Gaps b) \<subseteq> set (evr_Gaps b6)" using g g5 by (auto simp: grows_def b5_def)
  moreover have "fst r \<in> {VerifierUnknown, VerifierSatisfied, VerifierViolated}"
    using sr(1) by (simp add: sound_verdict_def)
  moreover have "\<forall>s\<in>set (coverageStatuses input). \<not> cvt_Complete s \<longrightarrow> fst r = VerifierUnknown"
    using sr(3) by force
  ultimately show ?thesis using st6 O unfolding evaluated_def b6_def by auto
qed

lemma Evaluate_cases:
  assumes v: "validateInput E input"
  obtains b where "Evaluate E J input = Inr (finishResult J b)" and "evaluated input b"
proof -
  from Evaluate_observed [OF v] obtain b where b: "observed input b"
    and e: "Evaluate E J input = (case verdict input b of None \<Rightarrow> Inl NilSpecification
      | Some r \<Rightarrow> Inr (finishResult J (concluded input r)))" by blast
  have "verdict input b \<noteq> None" using evaluateVerifier_present [OF v, of b] by (auto simp: verdict_def)
  then obtain r where r: "verdict input b = Some r" by blast
  from e r concluded_evaluated [OF validateInputD(2) [OF v] b r] that show thesis by simp
qed

section \<open>The bounded result\<close>

text \<open>
  What is asked of the JSON texts: two citations of different components have different texts, and so
  have two different gaps.
\<close>

definition identifies :: "result_encoder \<Rightarrow> bool" where
  "identifies J \<longleftrightarrow> (\<forall>c d. enc_cited J c = enc_cited J d \<longrightarrow> ce_Component c = ce_Component d) \<and>
    inj_on (enc_gap J) (set possible_gaps)"

lemma boundGaps_known:
  assumes "set gaps \<subseteq> set possible_gaps"
  shows "distinct (boundGaps J gaps)" and "set (boundGaps J gaps) \<subseteq> set gaps"
    and "identifies J \<Longrightarrow> set (boundGaps J gaps) = set gaps"
    and "length (boundGaps J gaps) < MaxResultGaps"
proof -
  let ?R = "compactBy (enc_gap J) (sort_key (enc_gap J) gaps)"
  note C = compact_sorted [where key = "enc_gap J" and xs = gaps]
  from C(1) have d: "distinct ?R" by (simp add: distinct_map)
  have "length ?R \<le> card (set possible_gaps)"
    using C(2) assms d by (metis List.finite_set card_mono distinct_card subset_trans)
  also have "\<dots> \<le> 31" using card_length [of possible_gaps]
    by (simp add: possible_gaps_def condition_kinds_def coverage_requirements_def)
  finally have "length ?R \<le> 31" .
  then have R: "boundGaps J gaps = ?R" and "length ?R < 32" by (simp_all add: boundGaps_def Let_def)
  with C(2) d show "distinct (boundGaps J gaps)" "set (boundGaps J gaps) \<subseteq> set gaps"
    "length (boundGaps J gaps) < MaxResultGaps" by simp_all
  assume J: "identifies J"
  have "g \<in> set ?R" if g: "g \<in> set gaps" for g
  proof -
    from C(3) [OF g] obtain h where h: "h \<in> set ?R" "enc_gap J h = enc_gap J g" by blast
    have "h = g"
      by (rule inj_onD [of "enc_gap J" "set possible_gaps"]) (use J h C(2) assms g in \<open>auto simp: identifies_def\<close>)
    with h show ?thesis by simp
  qed
  with C(2) show "set (boundGaps J gaps) = set gaps" unfolding R by blast
qed

lemma compact_cites:
  assumes "identifies J" and "cites component b"
  shows "cites component
    (b\<lparr>evr_Gaps := gs, evr_Evidence := compactBy (enc_cited J) (sort_key (enc_cited J) (evr_Evidence b))\<rparr>)"
proof -
  from assms(2) obtain c where c: "c \<in> set (evr_Evidence b)" "ce_Component c = component" by (auto simp: cites_def)
  from compact_sorted(3) [OF c(1), where key = "enc_cited J"] obtain d where
    "d \<in> set (compactBy (enc_cited J) (sort_key (enc_cited J) (evr_Evidence b)))" "enc_cited J d = enc_cited J c" by blast
  moreover from this assms(1) c(2) have "ce_Component d = component" unfolding identifies_def by blast
  ultimately show ?thesis by (auto simp: cites_def)
qed

lemma finishResult_evaluated:
  assumes b: "evaluated input b" and J: "identifies J" and r: "r = finishResult J b"
  shows "\<And>component. requiredComponent r component \<Longrightarrow> cites component r"
    and "length (evr_Evidence r) \<le> MaxResultEvidence"
    and "set (evr_Gaps b) \<subseteq> set (evr_Gaps r)" and "distinct (evr_Gaps r)" and "length (evr_Gaps r) < MaxResultGaps"
    and "evr_VerifierState r = evr_VerifierState b" and "evr_Coverage r = evr_Coverage b"
proof -
  define b1 where "b1 = b\<lparr>evr_Gaps := boundGaps J (evr_Gaps b),
    evr_Evidence := compactBy (enc_cited J) (sort_key (enc_cited J) (evr_Evidence b))\<rparr>"
  define b2 where "b2 = addGap (gap ComponentVerifier GapEvidenceTruncated)
    (b1\<lparr>evr_Evidence := boundedEvidence b1 MaxResultEvidence\<rparr>)"
  have r': "r = (if length (evr_Evidence b1) > MaxResultEvidence
      then b2\<lparr>evr_Gaps := boundGaps J (evr_Gaps b2)\<rparr> else b1)"
    unfolding r finishResult_def Let_def b1_def b2_def by simp
  have known: "set (evr_Gaps b) \<subseteq> set possible_gaps" using b by (simp add: evaluated_def gaps_known_def)
  note G = boundGaps_known [OF known]
  have known2: "set (evr_Gaps b2) \<subseteq> set possible_gaps"
    using G(2) [of J] known by (auto simp: b2_def b1_def addGap_def)
  note G2 = boundGaps_known [OF known2]
  show "set (evr_Gaps b) \<subseteq> set (evr_Gaps r)" "distinct (evr_Gaps r)" "length (evr_Gaps r) < MaxResultGaps"
    using G G2 G(3) [OF J] G2(3) [OF J] by (auto simp: r' b1_def) (auto simp: b2_def b1_def addGap_def)
  show "evr_VerifierState r = evr_VerifierState b" "evr_Coverage r = evr_Coverage b"
    by (simp_all add: r' b1_def b2_def addGap_def)
  show "length (evr_Evidence r) \<le> MaxResultEvidence"
    using boundedEvidence_length [of MaxResultEvidence b1] by (simp add: r' b2_def addGap_def)
  have req: "requiredComponent r k = requiredComponent b k" "requiredComponent b1 k = requiredComponent b k" for k
    by (simp_all add: r' b1_def b2_def addGap_def requiredComponent_def split: Component.split)
  show "cites k r" if "requiredComponent r k" for k
  proof -
    from that have k: "requiredComponent b1 k" "cites k b1"
      using b req compact_cites [OF J] unfolding evaluated_def b1_def by auto
    from boundedEvidence_anchors [OF this] k(2) show ?thesis
      by (auto simp: r' cites_def b2_def addGap_def)
  qed
qed

section \<open>File verifiers and the modified files\<close>

lemma validated_pattern_safe: "validateRelativePattern p \<Longrightarrow> safePattern p"
proof -
  assume v: "validateRelativePattern p"
  then have rel: "\<not> has_prefix p ''/''" and ne: "p \<noteq> []"
    and segs: "\<forall>s\<in>set (split_on (CHR ''/'') p). normal_segment s"
    using split_on_parts [of "CHR ''/''" p]
    by (auto simp: validateRelativePattern_def normal_segment_def list_all_iff split: if_splits)
  have "path_clean p = p"
    using rel ne clean_fold_normal [OF segs] by (simp add: path_clean_def Let_def join_split)
  with v show ?thesis by (simp add: safePattern_def PathPatternVerifierSpec_Validate_def)
qed

lemma matchAnyPath_single:
  assumes "validateRelativePath file" and "\<forall>p\<in>set ps. validateRelativePattern p"
  shows "matchAnyPath ps [file] = fileMatchesAnyRelativePathPattern file ps"
  using assms(2)
  by (induction ps) (simp_all add: validated_pattern_safe assms(1) safeRelativePath_def FileVerifierSpec_Validate_def)

definition modified_files :: "EvaluationInput \<Rightarrow> gostring set" where
  "modified_files input = fcf_Path ` set (fx_FileChanges (evi_Facts input))"

lemma evaluateChanges_decides:
  assumes "evidenced (evi_Facts input)"
    and cong: "\<And>f. f \<in> modified_files input \<Longrightarrow> matching f = matching' f"
  shows "(fst (evaluateChanges input matching want b) = VerifierSatisfied \<longrightarrow>
      (want \<longleftrightarrow> (\<exists>f\<in>modified_files input. matching' f))) \<and>
    (fst (evaluateChanges input matching want b) = VerifierViolated \<longrightarrow>
      (want \<longleftrightarrow> \<not> (\<exists>f\<in>modified_files input. matching' f)))"
proof -
  have "changeEvidence matching input \<noteq> [] \<longleftrightarrow> (\<exists>f\<in>modified_files input. matching f)"
    if "\<not> changeAmbiguous matching input"
    using that assms(1)
    by (auto simp: changeEvidence_def changeAmbiguous_def modified_files_def list_ex_iff evidenced_def)
  then show ?thesis using cong by (auto simp: evaluateChanges_def Let_def)
qed

definition file_verifier :: "Verifier \<Rightarrow> bool" where
  "file_verifier v \<longleftrightarrow>
    vf_Kind v \<in> {VerifierFileModified, VerifierFileNotModified, VerifierPathPatternNotModified}"

lemma evaluateVerifier_decides:
  assumes v: "validateInput E input" and kind: "file_verifier (ex_Verifier (evi_Experience input))"
    and r: "evaluateVerifier input b = Some r"
  shows "(fst r = VerifierSatisfied \<longrightarrow> satisfied_by (ex_Verifier (evi_Experience input)) (modified_files input)) \<and>
    (fst r = VerifierViolated \<longrightarrow> \<not> satisfied_by (ex_Verifier (evi_Experience input)) (modified_files input))"
proof -
  let ?v = "ex_Verifier (evi_Experience input)"
  note ev = validateInputD(2) [OF v]
  have valid: "Verifier_Validate ?v" using validateInputD(1) [OF v] Experience_ValidateD(3) by blast
  consider (one) "vf_Kind ?v = VerifierFileModified \<or> vf_Kind ?v = VerifierFileNotModified"
    | (glob) "vf_Kind ?v = VerifierPathPatternNotModified" using kind by (auto simp: file_verifier_def)
  then show ?thesis
  proof cases
    case one
    with file_verifier_present [OF valid] obtain f where f: "vf_File ?v = Some f" by blast
    have "r = evaluateChanges input (\<lambda>path. path = fvs_Path f) (vf_Kind ?v = VerifierFileModified) b"
      using one r f by (auto simp: evaluateVerifier_def evaluateFile_def)
    with evaluateChanges_decides [OF ev, of "\<lambda>path. path = fvs_Path f" "\<lambda>path. path = fvs_Path f"
        "vf_Kind ?v = VerifierFileModified" b] one f show ?thesis
      by (auto simp: satisfied_by_def)
  next
    case glob
    with pattern_verifier_present [OF valid] obtain s where s: "vf_PathPattern ?v = Some s"
      "\<forall>p\<in>set (pvs_Patterns s). validateRelativePattern p" by blast
    let ?m = "\<lambda>path. fileMatchesAnyRelativePathPattern path (pvs_Patterns s)"
    have "matchAnyPath (pvs_Patterns s) [path] = ?m path" if "path \<in> modified_files input" for path
      using matchAnyPath_single [OF _ s(2)] that ev by (auto simp: modified_files_def evidenced_def)
    from evaluateChanges_decides [OF ev, of "\<lambda>path. matchAnyPath (pvs_Patterns s) [path]" ?m False b, OF this]
      glob s r show ?thesis
      by (auto simp: evaluateVerifier_def evaluatePathPattern_def satisfied_by_def)
  qed
qed


lemma verifier_state_kept [simp]:
  "evr_VerifierState (finishResult J b) = evr_VerifierState b"
  "evr_VerifierState (concluded input r) = fst r"
  by (simp_all add: finishResult_def concluded_def Let_def addGap_def addEvidence_eq)

lemma verdict_from_verifier:
  assumes "Evaluate E J input = Inr result" and "evr_VerifierState result \<noteq> VerifierUnknown"
  obtains b r where "evaluateVerifier input b = Some r" and "evr_VerifierState result = fst r"
proof -
  from assms(1) have v: "validateInput E input" by (simp add: Evaluate_def split: if_splits)
  from Evaluate_observed [OF v] obtain b where b: "observed input b"
    and e: "Evaluate E J input = (case verdict input b of None \<Rightarrow> Inl NilSpecification
      | Some r \<Rightarrow> Inr (finishResult J (concluded input r)))" by blast
  with assms(1) obtain r where r: "verdict input b = Some r" and "result = finishResult J (concluded input r)"
    by (cases "verdict input b") simp_all
  then have s: "evr_VerifierState result = fst r" by simp
  with assms(2) b r have "evaluateVerifier input b = Some r"
    by (auto simp: verdict_def observed_def split: if_splits)
  from that [OF this s] show thesis .
qed

lemma verdict_decides:
  assumes "Evaluate E J input = Inr result" and "file_verifier (ex_Verifier (evi_Experience input))"
  shows "(evr_VerifierState result = VerifierSatisfied \<longrightarrow>
      satisfied_by (ex_Verifier (evi_Experience input)) (modified_files input)) \<and>
    (evr_VerifierState result = VerifierViolated \<longrightarrow>
      \<not> satisfied_by (ex_Verifier (evi_Experience input)) (modified_files input))"
proof (cases "evr_VerifierState result = VerifierUnknown")
  case False
  with verdict_from_verifier [OF assms(1)] obtain b r where
    r: "evaluateVerifier input b = Some r" "evr_VerifierState result = fst r" by blast
  from assms(1) have "validateInput E input" by (simp add: Evaluate_def split: if_splits)
  from evaluateVerifier_decides [OF this assms(2) r(1)] r(2) show ?thesis by simp
qed simp

section \<open>Repeated failures\<close>

fun some_pair :: "('a \<Rightarrow> 'a \<Rightarrow> bool) \<Rightarrow> 'a list \<Rightarrow> bool" where
  "some_pair P [] = False"
| "some_pair P (x # xs) = (list_ex (P x) xs \<or> some_pair P xs)"

lemma some_pair_index: "some_pair P xs \<longleftrightarrow> (\<exists>i j. i < j \<and> j < length xs \<and> P (xs ! i) (xs ! j))"
proof (induction xs)
  case (Cons x xs)
  have "(\<exists>i j. i < j \<and> j < length (x # xs) \<and> P ((x # xs) ! i) ((x # xs) ! j)) \<longleftrightarrow>
      (\<exists>j<length xs. P x (xs ! j)) \<or> (\<exists>i j. i < j \<and> j < length xs \<and> P (xs ! i) (xs ! j))" (is "?l \<longleftrightarrow> ?r")
  proof
    assume ?l
    then obtain i j where ij: "i < j" "j < length (x # xs)" "P ((x # xs) ! i) ((x # xs) ! j)" by blast
    then obtain j' where "j = Suc j'" by (cases j) auto
    with ij show ?r by (cases i) auto
  next
    assume ?r
    then show ?l
    proof
      assume "\<exists>j<length xs. P x (xs ! j)"
      then obtain j where "j < length xs" "P x (xs ! j)" by blast
      then show ?l by (intro exI [of _ "0::nat"] exI [of _ "Suc j"]) simp
    next
      assume "\<exists>i j. i < j \<and> j < length xs \<and> P (xs ! i) (xs ! j)"
      then obtain i j where "i < j" "j < length xs" "P (xs ! i) (xs ! j)" by blast
      then show ?l by (intro exI [of _ "Suc i"] exI [of _ "Suc j"]) simp
    qed
  qed
  with Cons show ?case by (simp add: list_ex_length)
qed simp

lemma some_pair_insort:
  "(\<And>x y. P x y = P y x) \<Longrightarrow> some_pair P (insort_key f a xs) = some_pair P (a # xs)"
  by (induction xs) (auto simp: list_ex_iff set_insort_key)

lemma some_pair_sort:
  assumes "\<And>x y. P x y = P y x"
  shows "some_pair P (sort_key f xs) = some_pair P xs"
proof (induction xs)
  case (Cons a xs)
  have "some_pair P (sort_key f (a # xs)) = some_pair P (a # sort_key f xs)"
    by (simp add: some_pair_insort [OF assms])
  also have "\<dots> = some_pair P (a # xs)" using Cons by (simp add: list_ex_iff)
  finally show ?case .
qed simp

lemma some_pair_map: "some_pair P (map f xs) = some_pair (\<lambda>x y. P (f x) (f y)) xs"
  by (induction xs) (simp_all add: list_ex_iff)

lemma some_pair_filter: "some_pair P (filter Q xs) = some_pair (\<lambda>x y. Q x \<and> Q y \<and> P x y) xs"
  by (induction xs) (auto simp: list_ex_iff)

text \<open>On sorted turns the closest pair is a pair of neighbours, which are all that the code compares.\<close>

lemma repeatedWithin_pairs:
  "sorted xs \<Longrightarrow> \<forall>x\<in>set xs. 0 \<le> x \<and> x < 2 ^ 63 \<Longrightarrow>
    repeatedWithin window xs = some_pair (\<lambda>x y. \<bar>y - x\<bar> \<le> window) xs"
  by (induction window xs rule: repeatedWithin.induct) (force simp: list_ex_iff wrap64_small)+

definition repeats :: "NoRepeatFailureSpec \<Rightarrow> FailureFact list \<Rightarrow> bool" where
  "repeats spec fs \<longleftrightarrow> (\<exists>i j. i < j \<and> j < length fs \<and> failureRelevant spec (fs ! i) \<and>
    failureRelevant spec (fs ! j) \<and> \<bar>fm_Order (flf_Meta (fs ! j)) - fm_Order (flf_Meta (fs ! i))\<bar> \<le> nrf_WindowTurns spec)"

definition ambiguous_failure :: "NoRepeatFailureSpec \<Rightarrow> FailureFact list \<Rightarrow> bool" where
  "ambiguous_failure spec fs \<longleftrightarrow> (\<exists>f\<in>set fs. failureRelevant spec f \<and> fm_Ambiguous (flf_Meta f))"

lemma evaluateNoRepeatFailure_violated:
  assumes "vf_NoRepeatFailure (ex_Verifier (evi_Experience input)) = Some spec"
    and "fs = fx_Failures (evi_Facts input)"
    and "\<forall>f\<in>set fs. 0 \<le> fm_Order (flf_Meta f) \<and> fm_Order (flf_Meta f) < 2 ^ 63"
    and "evaluateNoRepeatFailure input b = Some r"
  shows "fst r = VerifierViolated \<longleftrightarrow>
    ctx_LastTurnIndex (evi_Context input) \<noteq> None \<and> \<not> ambiguous_failure spec fs \<and> repeats spec fs"
proof -
  let ?o = "\<lambda>f. fm_Order (flf_Meta f)"
  let ?matches = "filter (\<lambda>f. \<not> fm_Ambiguous (flf_Meta f)) (filter (failureRelevant spec) fs)"
  have amb: "list_ex (\<lambda>f. fm_Ambiguous (flf_Meta f)) (filter (failureRelevant spec) fs) \<longleftrightarrow> ambiguous_failure spec fs"
    by (auto simp: list_ex_iff ambiguous_failure_def)
  have "repeatedWithin (nrf_WindowTurns spec) (map ?o (sort_key ?o ?matches)) \<longleftrightarrow> repeats spec fs"
    if "\<not> ambiguous_failure spec fs"
  proof -
    have m: "?matches = filter (failureRelevant spec) fs"
      using that by (auto simp: ambiguous_failure_def intro!: filter_cong)
    have "repeatedWithin (nrf_WindowTurns spec) (map ?o (sort_key ?o ?matches)) =
        some_pair (\<lambda>f g. \<bar>?o g - ?o f\<bar> \<le> nrf_WindowTurns spec) (sort_key ?o (filter (failureRelevant spec) fs))"
      unfolding m by (subst repeatedWithin_pairs) (use assms(3) in \<open>auto simp: some_pair_map\<close>)
    also have "\<dots> = some_pair (\<lambda>f g. \<bar>?o g - ?o f\<bar> \<le> nrf_WindowTurns spec) (filter (failureRelevant spec) fs)"
      by (rule some_pair_sort) (simp add: abs_minus_commute)
    finally show ?thesis unfolding some_pair_filter unfolding some_pair_index repeats_def .
  qed
  with amb show ?thesis
    using assms(1,4) unfolding evaluateNoRepeatFailure_def Let_def assms(2) [symmetric]
    by (auto split: if_splits)
qed

lemma validFailure_orders:
  assumes "validateInput E input" and "f \<in> set (fx_Failures (evi_Facts input))"
  shows "0 \<le> fm_Order (flf_Meta f)"
proof -
  have "validateFacts (evi_Context input) (evi_Facts input)"
    using assms(1) by (simp add: validateInput_def Let_def split: if_splits)
  then have "list_all (\<lambda>f. validateFactMeta (evi_Context input) (flf_Meta f)) (fx_Failures (evi_Facts input))"
    by (auto simp: validateFacts_def list_all_iff split: if_splits)
  with assms(2) have "validateFactMeta (evi_Context input) (flf_Meta f)" by (simp add: list_all_iff)
  then show ?thesis by (simp add: validateFactMeta_def split: if_splits)
qed

section \<open>Properties\<close>

text \<open>
  C14. An evaluation answers exactly the inputs that pass validation: on each of them it returns a
  result, and it never reads the specification of a verifier that has none.
\<close>

theorem evaluation_answers_valid_inputs:
  "Evaluate E J input \<noteq> Inl NilSpecification \<and>
   ((\<exists>result. Evaluate E J input = Inr result) \<longleftrightarrow> validateInput E input)"
proof (cases "validateInput E input")
  case True
  then show ?thesis by (metis Evaluate_cases Inr_Inl_False)
qed (simp add: Evaluate_def)
text \<open>
  C11. An evaluation decides nothing without evidence: every state of the result that is not unknown is
  backed by a citation of its own component, also when citations were truncated to the bound, and a
  verdict is only given when every coverage requirement the verifier declares is complete.
\<close>

theorem decided_states_are_evidenced:
  assumes "Evaluate E J input = Inr result" and "identifies J"
  shows "(evr_OpportunityState result \<noteq> OpportunityUnknown \<longrightarrow> cites ComponentOpportunity result) \<and>
    (evr_ApplicabilityState result \<noteq> ApplicabilityUnknown \<longrightarrow> cites ComponentApplicability result) \<and>
    (evr_TaskOutcomeState result \<noteq> TaskOutcomeUnknown \<longrightarrow> cites ComponentTaskOutcome result) \<and>
    (evr_VerifierState result \<noteq> VerifierUnknown \<longrightarrow> cites ComponentVerifier result \<and>
      (\<forall>requirement\<in>set (vf_CoverageRequirements (ex_Verifier (evi_Experience input))).
        Coverage_Complete (evi_Coverage input) requirement)) \<and>
    length (evr_Evidence result) \<le> MaxResultEvidence"
proof -
  from assms(1) have v: "validateInput E input" by (simp add: Evaluate_def split: if_splits)
  from Evaluate_cases [OF v, of J] assms(1) obtain b where
    b: "evaluated input b" and r: "result = finishResult J b" by auto
  note F = finishResult_evaluated [OF b assms(2) r]
  have vs: "evr_VerifierState result \<in> {VerifierUnknown, VerifierSatisfied, VerifierViolated}"
    using b by (simp add: r evaluated_def)
  have "Coverage_Complete (evi_Coverage input) q"
    if "q \<in> set (vf_CoverageRequirements (ex_Verifier (evi_Experience input)))" "evr_VerifierState result \<noteq> VerifierUnknown" for q
    using that b by (auto simp: r evaluated_def coverageStatuses_def normalizedCoverageRequirements_def compact_eq)
  with F(1) [of ComponentOpportunity] F(1) [of ComponentApplicability] F(1) [of ComponentTaskOutcome]
    F(1) [of ComponentVerifier] F(2) vs show ?thesis by (auto simp: requiredComponent_def)
qed

text \<open>
  No gap is ever dropped: there are fewer gaps an evaluation can report than a result may hold, the
  gaps of a result are distinct, and each requirement that the verifier declares and the session's
  records do not cover is named by a gap of its own and leaves the verdict unknown.
\<close>

theorem missing_coverage_is_reported:
  assumes "Evaluate E J input = Inr result" and "identifies J"
  shows "distinct (evr_Gaps result) \<and> length (evr_Gaps result) < MaxResultGaps \<and>
    (\<forall>requirement\<in>set (vf_CoverageRequirements (ex_Verifier (evi_Experience input))).
      \<not> Coverage_Complete (evi_Coverage input) requirement \<longrightarrow>
      coverage_gap GapCoverageMissing requirement \<in> set (evr_Gaps result) \<and>
      evr_VerifierState result = VerifierUnknown)"
proof -
  from assms(1) have v: "validateInput E input" by (simp add: Evaluate_def split: if_splits)
  from Evaluate_cases [OF v, of J] assms(1) obtain b where
    b: "evaluated input b" and r: "result = finishResult J b" by auto
  note F = finishResult_evaluated [OF b assms(2) r]
  have "coverage_gap GapCoverageMissing q \<in> set (evr_Gaps b) \<and> evr_VerifierState b = VerifierUnknown"
    if "q \<in> set (vf_CoverageRequirements (ex_Verifier (evi_Experience input)))"
      "\<not> Coverage_Complete (evi_Coverage input) q" for q
    using that b by (auto simp: evaluated_def coverageStatuses_def normalizedCoverageRequirements_def compact_eq)
  with F(3-6) show ?thesis by auto
qed

text \<open>
  C12. The verdicts of the three file verifiers are right about the files the session changed: satisfied
  is only reported when the changed files meet the verifier's abstract specification, and violated only
  when they do not.
\<close>

theorem file_verdicts_meet_specification:
  assumes "Evaluate E J input = Inr result" and "file_verifier (ex_Verifier (evi_Experience input))"
  shows "(evr_VerifierState result = VerifierSatisfied \<longrightarrow>
      satisfied_by (ex_Verifier (evi_Experience input)) (fcf_Path ` set (fx_FileChanges (evi_Facts input)))) \<and>
    (evr_VerifierState result = VerifierViolated \<longrightarrow>
      \<not> satisfied_by (ex_Verifier (evi_Experience input)) (fcf_Path ` set (fx_FileChanges (evi_Facts input))))"
  using verdict_decides [OF assms] by (simp add: modified_files_def)

text \<open>
  C13. The preflight and the evaluation agree: two experiences whose verifiers the preflight calls
  opposed are never both found satisfied by sessions with the same file changes.
\<close>

theorem opposed_verifiers_never_both_satisfied:
  assumes "Evaluate E J left = Inr l" and "Evaluate E J right = Inr r"
    and "fx_FileChanges (evi_Facts left) = fx_FileChanges (evi_Facts right)"
    and "verifierOpposition (ex_Verifier (evi_Experience left)) (ex_Verifier (evi_Experience right)) = Some (reason, True)"
  shows "\<not> (evr_VerifierState l = VerifierSatisfied \<and> evr_VerifierState r = VerifierSatisfied)"
proof
  let ?l = "ex_Verifier (evi_Experience left)" and ?r = "ex_Verifier (evi_Experience right)"
  assume s: "evr_VerifierState l = VerifierSatisfied \<and> evr_VerifierState r = VerifierSatisfied"
  from assms(1,2) have "validateInput E left" "validateInput E right"
    by (simp_all add: Evaluate_def split: if_splits)
  then have "Verifier_Validate ?l" "Verifier_Validate ?r"
    using validateInputD(1) Experience_ValidateD(3) by blast+
  from opposition_spec [OF this] assms(4) have "\<not> compatible ?l ?r" by auto
  moreover have "file_verifier ?l" "file_verifier ?r"
    using assms(4) by (auto simp: verifierOpposition_def oppositionCases_def file_verifier_def split: if_splits)
  then have "compatible ?l ?r"
    using verdict_decides [OF assms(1)] verdict_decides [OF assms(2)] s assms(3)
    unfolding compatible_def modified_files_def by metis
  ultimately show False by blast
qed

text \<open>
  C15. Repeated failures are found: when an experience watches for a repeated failure, an evaluation of a
  valid input answers violated exactly when every coverage requirement of the verifier is complete, the last
  turn is known, no failure of the watched kind is ambiguous, and some two of them, in any positions of the
  input, lie at most the window apart. The code compares neighbours in turn order only, and in 64-bit
  arithmetic that wraps; with the turns of a valid input that misses no pair and reports none in excess.
\<close>

theorem repeated_failures_are_found:
  assumes "Evaluate E J input = Inr result"
    and "vf_Kind (ex_Verifier (evi_Experience input)) = VerifierNoRepeatFailure"
    and "vf_NoRepeatFailure (ex_Verifier (evi_Experience input)) = Some spec"
    and "\<forall>f\<in>set (fx_Failures (evi_Facts input)). fm_Order (flf_Meta f) < 2 ^ 63"
  shows "evr_VerifierState result = VerifierViolated \<longleftrightarrow>
    (\<forall>requirement\<in>set (vf_CoverageRequirements (ex_Verifier (evi_Experience input))).
      Coverage_Complete (evi_Coverage input) requirement) \<and>
    ctx_LastTurnIndex (evi_Context input) \<noteq> None \<and>
    \<not> ambiguous_failure spec (fx_Failures (evi_Facts input)) \<and> repeats spec (fx_Failures (evi_Facts input))"
proof -
  from assms(1) have v: "validateInput E input" by (simp add: Evaluate_def split: if_splits)
  from Evaluate_observed [OF v] obtain b where b: "observed input b"
    and e: "Evaluate E J input = (case verdict input b of None \<Rightarrow> Inl NilSpecification
      | Some r \<Rightarrow> Inr (finishResult J (concluded input r)))" by blast
  with assms(1) obtain r where r: "verdict input b = Some r" and "result = finishResult J (concluded input r)"
    by (cases "verdict input b") simp_all
  then have state: "evr_VerifierState result = fst r" by simp
  have missing: "(\<exists>s\<in>set (coverageStatuses input). \<not> cvt_Complete s) \<longleftrightarrow>
      \<not> (\<forall>q\<in>set (vf_CoverageRequirements (ex_Verifier (evi_Experience input))). Coverage_Complete (evi_Coverage input) q)"
    by (auto simp: coverageStatuses_def normalizedCoverageRequirements_def compact_eq)
  show ?thesis
  proof (cases "\<exists>s\<in>set (coverageStatuses input). \<not> cvt_Complete s")
    case True
    with r b have "fst r = VerifierUnknown" by (auto simp: verdict_def observed_def)
    with True missing state show ?thesis by auto
  next
    case False
    with r assms(2) have "evaluateNoRepeatFailure input b = Some r" by (simp add: verdict_def evaluateVerifier_def)
    from evaluateNoRepeatFailure_violated [OF assms(3) refl _ this] validFailure_orders [OF v] assms(4)
    show ?thesis using False missing state by simp
  qed
qed

section \<open>A concrete evaluation\<close>

text \<open>
  A session that changed the file the sample experience asks for, evaluated for a given verifier and
  coverage. The texts are spelt out far enough to tell components and gaps apart.
\<close>

definition sample_verified :: "Verifier \<Rightarrow> Experience" where
  "sample_verified v = sample_experience\<lparr>ex_Verifier := v\<rparr>"

definition sample_change :: FileChangeFact where
  "sample_change = \<lparr>fcf_Meta = \<lparr>fm_Order = 2, fm_Ambiguous = False, fm_Evidence = es_Refs sample_evidence\<rparr>,
     fcf_Path = ''src/a''\<rparr>"

definition sample_evaluation :: "Verifier \<Rightarrow> EvaluationCoverage \<Rightarrow> EvaluationInput" where
  "sample_evaluation v coverage =
    \<lparr>evi_Application = \<lparr>app_SchemaVersion = ApplicationSchemaVersion, app_ApplicationID = sample_id ''exa_'',
       app_Experience = refOf sample_experience, app_ProjectIdentity = ''p'', app_SessionKey = ''s'',
       app_DeliveryKind = DeliveryHook, app_DeliveryState = DeliveryDelivered, app_DeliveredAt = Some 1,
       app_OpportunityState = OpportunityUnknown, app_ApplicabilityState = ApplicabilityUnknown,
       app_VerifierState = VerifierUnknown, app_TaskOutcomeState = TaskOutcomeUnknown,
       app_SourceEvidence = es_Refs sample_evidence\<rparr>,
     evi_Experience = sample_verified v,
     evi_Context = \<lparr>ctx_ProjectIdentity = ''p'', ctx_SessionKey = ''s'', ctx_Harness = None, ctx_Model = [],
       ctx_TaskFamilies = [], ctx_RepositoryPaths = [''src''], ctx_CompleteConditionKinds = [],
       ctx_LastTurnIndex = Some 9, ctx_AsOf = 2, ctx_Evidence = []\<rparr>,
     evi_Coverage = coverage,
     evi_NormalizedVerifier = \<lparr>nv_DeclaredCommand = [], nv_CommandSignature = [], nv_CommandScrubbingVersion = []\<rparr>,
     evi_Facts = \<lparr>fx_Opportunities = [], fx_Conditions = [], fx_Commands = [], fx_FileChanges = [sample_change],
       fx_Verifications = [], fx_Failures = [], fx_Corrections = [], fx_TaskOutcomes = []\<rparr>\<rparr>"

definition no_coverage :: EvaluationCoverage where
  "no_coverage = \<lparr>cvg_TranscriptComplete = False, cvg_CanonicalEventsComplete = False,
     cvg_WorkspaceStateCaptured = False, cvg_OutcomeObservationsComplete = False, cvg_Evidence = []\<rparr>"

definition modified_verifier :: Verifier where
  "modified_verifier = xp_Verifier sample_proposal"

definition not_modified_verifier :: Verifier where
  "not_modified_verifier = modified_verifier\<lparr>vf_Kind := VerifierFileNotModified,
     vf_CoverageRequirements := [CoverageWorkspaceCaptured]\<rparr>"

definition component_char :: "Component \<Rightarrow> char" where
  "component_char c = (case c of ComponentOpportunity \<Rightarrow> CHR ''o'' | ComponentApplicability \<Rightarrow> CHR ''a''
     | ComponentVerifier \<Rightarrow> CHR ''v'' | ComponentTaskOutcome \<Rightarrow> CHR ''t'')"

definition code_char :: "GapCode \<Rightarrow> char" where
  "code_char c = (case c of GapCoverageMissing \<Rightarrow> CHR ''a'' | GapCoverageNotDeclared \<Rightarrow> CHR ''b''
     | GapFactsIncomplete \<Rightarrow> CHR ''c'' | GapAmbiguousMatch \<Rightarrow> CHR ''d'' | GapUnsupportedMatch \<Rightarrow> CHR ''e''
     | GapNoOpportunityObservation \<Rightarrow> CHR ''f'' | GapNoApplicableObservation \<Rightarrow> CHR ''g''
     | GapSemanticExclusion \<Rightarrow> CHR ''h'' | GapNoEditObserved \<Rightarrow> CHR ''i''
     | GapNoTaskOutcomeObservation \<Rightarrow> CHR ''j'' | GapObservationOnly \<Rightarrow> CHR ''k'' | GapEvidenceTruncated \<Rightarrow> CHR ''l'')"

definition kind_text :: "DeterministicConditionKind \<Rightarrow> gostring" where
  "kind_text k = (case k of ConditionEventType \<Rightarrow> ''e'' | ConditionToolName \<Rightarrow> ''t'' | ConditionCommandClass \<Rightarrow> ''c''
     | ConditionPathPattern \<Rightarrow> ''p'' | ConditionLifecyclePhase \<Rightarrow> ''l'' | ConditionPriorEventSequence \<Rightarrow> ''s''
     | DeterministicConditionKindOther s \<Rightarrow> s)"

definition sample_texts :: result_encoder where
  "sample_texts = \<lparr>enc_gap = (\<lambda>g. component_char (gap_Component g) # code_char (gap_Code g) #
       (case gap_ConditionKind g of None \<Rightarrow> [] | Some k \<Rightarrow> kind_text k) @
       (case gap_Coverage g of None \<Rightarrow> [] | Some r \<Rightarrow> CoverageRequirement_text r)),
     enc_cited = (\<lambda>c. [component_char (ce_Component c)])\<rparr>"

lemma sample_texts_identify: "identifies sample_texts"
proof -
  have "distinct (map (enc_gap sample_texts) possible_gaps)" by code_simp
  then have "inj_on (enc_gap sample_texts) (set possible_gaps)" by (simp add: distinct_map)
  then show ?thesis
    by (auto simp: identifies_def sample_texts_def component_char_def split: Component.splits)
qed

lemma validateInputI:
  assumes "Application_Validate E (evi_Application i)" "Experience_Validate E (evi_Experience i)"
    "validateEvidence (evi_Context i) (ctx_Evidence (evi_Context i)) MaxEvidencePerFact False"
    "validateCoverageEvidence (evi_Context i) (evi_Coverage i)"
    "validateNormalizedVerifier (ex_Verifier (evi_Experience i)) (evi_NormalizedVerifier i)"
    "validateFacts (evi_Context i) (evi_Facts i)"
    "list_all validPath (ctx_RepositoryPaths (evi_Context i))"
    "list_all (\<lambda>value. validateNormalizedString value True) (ctx_TaskFamilies (evi_Context i))"
    "validateNormalizedString (ctx_Model (evi_Context i)) False"
    "list_all DeterministicConditionKind_Valid (ctx_CompleteConditionKinds (evi_Context i))"
    "distinct (ctx_CompleteConditionKinds (evi_Context i))"
    "case ctx_Harness (evi_Context i) of None \<Rightarrow> True | Some h \<Rightarrow> Harness_Valid h"
    "case ctx_LastTurnIndex (evi_Context i) of None \<Rightarrow> True | Some t \<Rightarrow> 0 \<le> t"
    "app_DeliveryState (evi_Application i) = DeliveryDelivered"
    "app_Experience (evi_Application i) = refOf (evi_Experience i)"
    "app_ProjectIdentity (evi_Application i) = scp_ProjectIdentity (ex_Scope (evi_Experience i))"
    "ctx_ProjectIdentity (evi_Context i) = app_ProjectIdentity (evi_Application i)"
    "ctx_SessionKey (evi_Context i) = app_SessionKey (evi_Application i)"
    "scp_Kind (ex_Scope (evi_Experience i)) \<noteq> ScopeSession"
    "app_DeliveredAt (evi_Application i) = Some d" "d \<le> ctx_AsOf (evi_Context i)" "ctx_AsOf (evi_Context i) \<noteq> time_zero"
  shows "validateInput E i"
  using assms unfolding validateInput_def Let_def by (auto simp: refOf_def split: option.splits)

lemma versionConsistent_verifier: "versionConsistent (x\<lparr>ex_Verifier := v\<rparr>) = versionConsistent x"
  by (simp add: versionConsistent_def split: option.split)

lemma sample_verified_valid:
  assumes "Verifier_Validate v"
  shows "Experience_Validate sample_encoder (sample_verified v)"
proof -
  have "Experience_CanonicalContentHash sample_encoder (sample_verified v) =
      Experience_CanonicalContentHash sample_encoder sample_experience"
    by (simp add: Experience_CanonicalContentHash_def Proposal_CanonicalContentHash_def contentHash_def sample_encoder_def)
  moreover have "versionConsistent (sample_verified v) = versionConsistent sample_experience"
    unfolding sample_verified_def by (rule versionConsistent_verifier)
  ultimately show ?thesis
    using sample_experience_valid assms
    by (simp add: Experience_Validate_def sample_verified_def Let_def split: if_splits)
qed
lemma sample_input_experience:
  assumes "Verifier_Validate v"
  shows "Experience_Validate sample_encoder (evi_Experience (sample_evaluation v coverage))"
  using sample_verified_valid [OF assms] by (simp add: sample_evaluation_def)

lemma sample_modified_valid: "validateInput sample_encoder (sample_evaluation modified_verifier no_coverage)"
  apply (rule validateInputI [where d = 1])
  apply code_simp
  apply (rule sample_input_experience, code_simp)
  apply code_simp+
  done

lemma sample_not_modified_valid:
  "validateInput sample_encoder (sample_evaluation not_modified_verifier no_coverage)"
  apply (rule validateInputI [where d = 1])
  apply code_simp
  apply (rule sample_input_experience, code_simp)
  apply code_simp+
  done

abbreviation sample_left :: EvaluationInput where
  "sample_left \<equiv> sample_evaluation modified_verifier no_coverage"

abbreviation sample_right :: EvaluationInput where
  "sample_right \<equiv> sample_evaluation not_modified_verifier no_coverage"

lemma sample_left_satisfied:
  obtains result where "Evaluate sample_encoder sample_texts sample_left = Inr result"
    and "evr_VerifierState result = VerifierSatisfied"
proof -
  have "case Evaluate sample_encoder sample_texts sample_left of Inl e \<Rightarrow> False
      | Inr result \<Rightarrow> evr_VerifierState result = VerifierSatisfied"
    unfolding Evaluate_def eqTrueI [OF sample_modified_valid] not_True_eq_False if_False by code_simp
  with that show thesis by (auto split: sum.splits)
qed

lemma sample_right_answered:
  obtains result where "Evaluate sample_encoder sample_texts sample_right = Inr result"
  using Evaluate_cases [OF sample_not_modified_valid] by blast

theorem decided_states_are_evidenced_witness:
  "\<exists>result. Evaluate sample_encoder sample_texts sample_left = Inr result \<and>
    evr_VerifierState result = VerifierSatisfied \<and> cites ComponentVerifier result"
proof -
  obtain result where r: "Evaluate sample_encoder sample_texts sample_left = Inr result"
    "evr_VerifierState result = VerifierSatisfied" by (rule sample_left_satisfied)
  from decided_states_are_evidenced [OF r(1) sample_texts_identify] r show ?thesis by simp
qed

theorem missing_coverage_is_reported_witness:
  "\<exists>result. Evaluate sample_encoder sample_texts sample_right = Inr result \<and>
    coverage_gap GapCoverageMissing CoverageWorkspaceCaptured \<in> set (evr_Gaps result)"
proof -
  obtain result where r: "Evaluate sample_encoder sample_texts sample_right = Inr result"
    by (rule sample_right_answered)
  have "CoverageWorkspaceCaptured \<in> set (vf_CoverageRequirements (ex_Verifier (evi_Experience sample_right)))"
    "\<not> Coverage_Complete (evi_Coverage sample_right) CoverageWorkspaceCaptured" by code_simp+
  with missing_coverage_is_reported [OF r sample_texts_identify] r show ?thesis by blast
qed

theorem file_verdicts_meet_specification_witness:
  "satisfied_by modified_verifier {''src/a''}"
proof -
  obtain result where r: "Evaluate sample_encoder sample_texts sample_left = Inr result"
    "evr_VerifierState result = VerifierSatisfied" by (rule sample_left_satisfied)
  have e: "ex_Verifier (evi_Experience sample_left) = modified_verifier"
    "fcf_Path ` set (fx_FileChanges (evi_Facts sample_left)) = {''src/a''}"
    by (simp_all add: sample_evaluation_def sample_verified_def sample_change_def)
  have "file_verifier (ex_Verifier (evi_Experience sample_left))" by code_simp
  from file_verdicts_meet_specification [OF r(1) this] r(2) show ?thesis unfolding e by blast
qed

theorem opposed_verifiers_never_both_satisfied_witness:
  "\<exists>result. Evaluate sample_encoder sample_texts sample_right = Inr result \<and>
    evr_VerifierState result \<noteq> VerifierSatisfied"
proof -
  obtain l where l: "Evaluate sample_encoder sample_texts sample_left = Inr l"
    "evr_VerifierState l = VerifierSatisfied" by (rule sample_left_satisfied)
  obtain r where r: "Evaluate sample_encoder sample_texts sample_right = Inr r" by (rule sample_right_answered)
  have "fx_FileChanges (evi_Facts sample_left) = fx_FileChanges (evi_Facts sample_right)"
    by (simp add: sample_evaluation_def)
  moreover have "verifierOpposition (ex_Verifier (evi_Experience sample_left)) (ex_Verifier (evi_Experience sample_right)) =
      Some (ConflictReasonFileVerifierOpposition, True)" by code_simp
  ultimately show ?thesis using opposed_verifiers_never_both_satisfied [OF l(1) r] l(2) r by blast
qed

definition sample_failure_fact :: "int \<Rightarrow> gostring \<Rightarrow> FailureFact" where
  "sample_failure_fact turn pattern =
    \<lparr>flf_Meta = \<lparr>fm_Order = turn, fm_Ambiguous = False, fm_Evidence = es_Refs sample_evidence\<rparr>,
     flf_CommandClass = ''test'', flf_NormalizedPattern = pattern\<rparr>"

definition repeat_verifier :: Verifier where
  "repeat_verifier = modified_verifier\<lparr>vf_Kind := VerifierNoRepeatFailure, vf_File := None,
     vf_NoRepeatFailure := Some \<lparr>nrf_CommandClass = ''test'', nrf_NormalizedPattern = ''x'', nrf_WindowTurns = 2\<rparr>,
     vf_CoverageRequirements := [CoverageTranscriptComplete]\<rparr>"

definition sample_repeats :: EvaluationInput where
  "sample_repeats = (sample_evaluation repeat_verifier (no_coverage\<lparr>cvg_TranscriptComplete := True\<rparr>))
    \<lparr>evi_Facts := (evi_Facts (sample_evaluation repeat_verifier no_coverage))
      \<lparr>fx_Failures := [sample_failure_fact 7 ''x'', sample_failure_fact 1 ''x'', sample_failure_fact 5 ''y'', sample_failure_fact 6 ''x'']\<rparr>\<rparr>"

lemma sample_failure_fact_valid:
  assumes "pattern \<in> {''x'', ''y''}" and "0 \<le> turn" and "turn \<le> 9"
  shows "validateFactMeta (evi_Context sample_repeats) (flf_Meta (sample_failure_fact turn pattern)) \<and>
    validateNormalizedString (flf_CommandClass (sample_failure_fact turn pattern)) True \<and>
    validateNormalizedString (flf_NormalizedPattern (sample_failure_fact turn pattern)) True"
proof -
  have "validateEvidence (evi_Context sample_repeats) (es_Refs sample_evidence) MaxEvidencePerFact True"
    "validateNormalizedString ''test'' True" "validateNormalizedString ''x'' True" "validateNormalizedString ''y'' True"
    by code_simp+
  moreover have "ctx_LastTurnIndex (evi_Context sample_repeats) = Some 9" by code_simp
  ultimately show ?thesis using assms by (auto simp: validateFactMeta_def sample_failure_fact_def)
qed

lemma sample_repeats_valid: "validateInput sample_encoder sample_repeats"
proof (rule validateInputI [where d = 1])
  have "validateFactMeta (evi_Context sample_repeats) (fcf_Meta sample_change) \<and> validPath (fcf_Path sample_change)"
    by code_simp
  then show "validateFacts (evi_Context sample_repeats) (evi_Facts sample_repeats)"
    using sample_failure_fact_valid [of "''x''"] sample_failure_fact_valid [of "''y''"]
    by (simp add: validateFacts_def sample_repeats_def sample_evaluation_def)
  have "Verifier_Validate repeat_verifier" by code_simp
  then show "Experience_Validate sample_encoder (evi_Experience sample_repeats)"
    using sample_input_experience by (simp add: sample_repeats_def)
qed code_simp+

text \<open>The two failures on turns 7 and 6 are first and last in the input.\<close>

theorem repeated_failures_are_found_witness:
  "\<exists>result. Evaluate sample_encoder sample_texts sample_repeats = Inr result \<and>
    evr_VerifierState result = VerifierViolated"
proof -
  let ?fs = "[sample_failure_fact 7 ''x'', sample_failure_fact 1 ''x'', sample_failure_fact 5 ''y'', sample_failure_fact 6 ''x'']"
  let ?spec = "\<lparr>nrf_CommandClass = ''test'', nrf_NormalizedPattern = ''x'', nrf_WindowTurns = 2\<rparr>"
  have i: "vf_Kind (ex_Verifier (evi_Experience sample_repeats)) = VerifierNoRepeatFailure"
    "vf_NoRepeatFailure (ex_Verifier (evi_Experience sample_repeats)) = Some ?spec"
    and fs: "fx_Failures (evi_Facts sample_repeats) = ?fs"
    by (simp_all add: sample_repeats_def sample_evaluation_def sample_verified_def repeat_verifier_def)
  have orders: "\<forall>f\<in>set (fx_Failures (evi_Facts sample_repeats)). fm_Order (flf_Meta f) < 2 ^ 63"
    unfolding fs by (simp add: sample_failure_fact_def)
  obtain result where r: "Evaluate sample_encoder sample_texts sample_repeats = Inr result"
    using Evaluate_cases [OF sample_repeats_valid] by blast
  have "repeats ?spec ?fs"
    unfolding repeats_def by (intro exI [of _ 0] exI [of _ 3]) (simp add: failureRelevant_def sample_failure_fact_def)
  moreover have "\<not> ambiguous_failure ?spec ?fs" by (simp add: ambiguous_failure_def sample_failure_fact_def)
  moreover have "ctx_LastTurnIndex (evi_Context sample_repeats) \<noteq> None"
    "\<forall>q\<in>set (vf_CoverageRequirements (ex_Verifier (evi_Experience sample_repeats))).
      Coverage_Complete (evi_Coverage sample_repeats) q"
    by (simp_all add: sample_repeats_def sample_evaluation_def sample_verified_def repeat_verifier_def)
  ultimately show ?thesis using repeated_failures_are_found [OF r i orders] r unfolding fs by blast
qed

section \<open>Task families do not separate sessions\<close>

text \<open>
  A session records a list of task families, and an experience is applicable when one of them is in its
  scope. So two experiences whose scopes the preflight calls proven disjoint by task family can both be
  applicable to one session: it is only one piece of work, with one family, that they never share.
\<close>

definition family_input :: "gostring \<Rightarrow> EvaluationInput" where
  "family_input family = sample_left
    \<lparr>evi_Experience := sample_experience\<lparr>ex_Scope := (ex_Scope sample_experience)\<lparr>scp_TaskFamilies := [family]\<rparr>\<rparr>,
     evi_Context := (evi_Context sample_left)\<lparr>ctx_TaskFamilies := [''build'', ''test'']\<rparr>\<rparr>"

lemma sample_scoped_valid:
  assumes "Scope_Validate s" and "scp_ProjectIdentity s = scp_ProjectIdentity (ex_Scope sample_experience)"
  shows "Experience_Validate sample_encoder (sample_experience\<lparr>ex_Scope := s\<rparr>)"
proof -
  have "Experience_CanonicalContentHash sample_encoder (sample_experience\<lparr>ex_Scope := s\<rparr>) =
      Experience_CanonicalContentHash sample_encoder sample_experience"
    by (simp add: Experience_CanonicalContentHash_def Proposal_CanonicalContentHash_def contentHash_def sample_encoder_def)
  moreover have "versionConsistent (sample_experience\<lparr>ex_Scope := s\<rparr>) = versionConsistent sample_experience"
    by (simp add: versionConsistent_def split: option.split)
  ultimately show ?thesis
    using sample_experience_valid assms by (simp add: Experience_Validate_def Let_def split: if_splits)
qed

lemma validateFacts_families: "validateFacts (ctx\<lparr>ctx_TaskFamilies := fs\<rparr>) facts = validateFacts ctx facts"
proof -
  have "validateFactMeta (ctx\<lparr>ctx_TaskFamilies := fs\<rparr>) = validateFactMeta ctx"
    by (simp add: fun_eq_iff validateFactMeta_def validateEvidence_def)
  then show ?thesis by (simp add: validateFacts_def)
qed

lemma family_input_valid:
  assumes "family \<in> {''build'', ''test''}"
  shows "validateInput sample_encoder (family_input family)"
proof (rule validateInputI [where d = 1])
  have "list_all (\<lambda>f. Scope_Validate ((ex_Scope sample_experience)\<lparr>scp_TaskFamilies := [f]\<rparr>)) [''build'', ''test'']"
    by code_simp
  with assms have "Scope_Validate ((ex_Scope sample_experience)\<lparr>scp_TaskFamilies := [family]\<rparr>)" by auto
  from sample_scoped_valid [OF this] show "Experience_Validate sample_encoder (evi_Experience (family_input family))"
    by (simp add: family_input_def)
  have "validateFacts (evi_Context sample_left) (evi_Facts sample_left)"
    using sample_modified_valid by (simp add: validateInput_def Let_def split: if_splits)
  then show "validateFacts (evi_Context (family_input family)) (evi_Facts (family_input family))"
    by (simp add: family_input_def validateFacts_families)
qed code_simp+

lemma disjoint_families_both_apply:
  "scopesProvenDisjoint (ex_Scope (evi_Experience (family_input ''build''))) (ex_Scope (evi_Experience (family_input ''test''))) =
     (True, ConflictReasonDisjointTaskFamilies)"
  "evi_Context (family_input ''build'') = evi_Context (family_input ''test'')"
  "fst (evaluateApplicability (family_input ''build'') emptyResult) = ApplicabilityApplicable"
  "fst (evaluateApplicability (family_input ''test'') emptyResult) = ApplicabilityApplicable"
  by code_simp+

end
