(* ===== verification/Traj_Model.thy ===== *)
theory Traj_Model
  imports Exp_Paths Event_Model
begin

text \<open>
  Transcripts (\<open>internal/transcript/model.go\<close>) and the contracts of causal trajectories over them
  (\<open>internal/trajectory\<close>): nodes, edges and outcomes, their validation and their identifiers. The
  JSON text of a node, by which references are sorted, and the base-32 digests of the payloads of edges and
  outcomes are parameters.
\<close>

section \<open>Transcripts\<close>

datatype Role =
  RoleUser | RoleAssistant | RoleToolCall | RoleToolResult | RoleSystem | RoleCompactionSummary
| RoleOther gostring

datatype SessionCoverage =
  CoverageComplete | CoveragePartial | CoverageLive | SessionCoverageOther gostring

record Payload =
  pl_Text :: gostring
  pl_ToolInput :: gostring
  pl_ToolResult :: gostring
  pl_RawCommand :: gostring
  pl_CWD :: gostring
  pl_GitBranch :: gostring
  pl_ParentToolUseID :: gostring
  pl_ToolCallID :: gostring
  pl_ToolIsError :: "bool option"
  pl_ExitCode :: "int option"
  pl_DurationMS :: "int option"
  pl_SupplementalEvidence :: bool
  pl_SourceFileID :: gostring
  pl_ParserVersion :: gostring
  pl_PriceTableVersion :: gostring
  pl_JSONLByteOffset :: int

record Turn =
  tn_TurnID :: gostring
  tn_SourceRecordKey :: gostring
  tn_SessionKey :: gostring
  tn_TurnIndex :: int
  tn_OccurredAt :: time
  tn_Role :: Role
  tn_ToolName :: gostring
  tn_Model :: gostring
  tn_InputTokens :: "int option"
  tn_OutputTokens :: "int option"
  tn_CacheReadTokens :: "int option"
  tn_CacheWriteTokens :: "int option"
  tn_CostUSD :: "float64 option"
  tn_Payload :: Payload

record TranscriptSession =
  ts_SessionKey :: gostring
  ts_Agent :: gostring
  ts_NativeSessionID :: gostring
  ts_ProjectPath :: gostring
  ts_GitRemoteURL :: gostring
  ts_ProjectIdentity :: gostring
  ts_StartedAt :: time
  ts_EndedAt :: time
  ts_Coverage :: SessionCoverage

text \<open>The fields of a session that hold its totals and counts are not read by the modelled code.\<close>

section \<open>Nodes, edges and outcomes\<close>

datatype NodeKind =
  NodeCanonicalEvent | NodeTranscriptTurn | NodeOutcome | NodeExperience | NodeApplication | NodeGitObject
| NodeKindOther gostring

fun NodeKind_Valid :: "NodeKind \<Rightarrow> bool" where
  "NodeKind_Valid (NodeKindOther s) = False"
| "NodeKind_Valid value = True"

record NodeRef =
  nr_Kind :: NodeKind
  nr_EventID :: gostring
  nr_SessionKey :: gostring
  nr_TurnIndex :: "int option"
  nr_OutcomeID :: gostring
  nr_ExperienceID :: gostring
  nr_ExperienceVersion :: int
  nr_ApplicationID :: gostring
  nr_GitObject :: gostring

datatype EdgeRelation =
  RelationRespondsTo | RelationInvokes | RelationReturnsFor | RelationPrecedes | RelationModifies
| RelationVerifies | RelationCorrects | RelationClaimsCompletionAfter | RelationCompactsAfter
| RelationRepairs | RelationReverts | RelationParentOf | EdgeRelationOther gostring

fun EdgeRelation_Valid :: "EdgeRelation \<Rightarrow> bool" where
  "EdgeRelation_Valid (EdgeRelationOther s) = False"
| "EdgeRelation_Valid value = True"

datatype EvidenceClass =
  EvidenceObserved | EvidenceDeterministicInference | EvidenceSemanticHypothesis | EvidenceClassOther gostring

fun EvidenceClass_Valid :: "EvidenceClass \<Rightarrow> bool" where
  "EvidenceClass_Valid value =
    (value = EvidenceObserved \<or> value = EvidenceDeterministicInference \<or> value = EvidenceSemanticHypothesis)"

datatype Confidence = ConfidenceHigh | ConfidenceMedium | ConfidenceLow | ConfidenceOther gostring

fun Confidence_Valid :: "Confidence \<Rightarrow> bool" where
  "Confidence_Valid value = (value = ConfidenceHigh \<or> value = ConfidenceMedium \<or> value = ConfidenceLow)"

record Edge =
  eg_SchemaVersion :: gostring
  eg_EdgeID :: gostring
  eg_ProjectIdentity :: gostring
  eg_SessionKey :: gostring
  eg_From :: NodeRef
  eg_Relation :: EdgeRelation
  eg_To :: NodeRef
  eg_EvidenceClass :: EvidenceClass
  eg_Confidence :: Confidence
  eg_DerivationVersion :: gostring
  eg_SourceRefs :: "NodeRef list"
  eg_OccurredAt :: time

datatype OutcomeKind =
  OutcomeVerificationPass | OutcomeVerificationFail | OutcomeCorrection | OutcomeExplicitAcceptance
| OutcomeCommit | OutcomeRevert | OutcomeRepair | OutcomeRecurrence | OutcomeAbandoned
| OutcomeKindOther gostring

fun OutcomeKind_Valid :: "OutcomeKind \<Rightarrow> bool" where
  "OutcomeKind_Valid (OutcomeKindOther s) = False"
| "OutcomeKind_Valid value = True"

datatype OutcomeResult = ResultSucceeded | ResultFailed | ResultObserved | ResultUnknown | OutcomeResultOther gostring

fun OutcomeResult_Valid :: "OutcomeResult \<Rightarrow> bool" where
  "OutcomeResult_Valid value =
    (value = ResultSucceeded \<or> value = ResultFailed \<or> value = ResultObserved \<or> value = ResultUnknown)"

record Outcome =
  oc_SchemaVersion :: gostring
  oc_OutcomeID :: gostring
  oc_ProjectIdentity :: gostring
  oc_SessionKey :: gostring
  oc_OccurredAt :: time
  oc_Kind :: OutcomeKind
  oc_Result :: OutcomeResult
  oc_EvidenceClass :: EvidenceClass
  oc_Confidence :: Confidence
  oc_SourceRefs :: "NodeRef list"
  oc_DerivationVersion :: gostring

abbreviation EdgeSchemaVersion :: gostring where "EdgeSchemaVersion \<equiv> ''belay.trajectory-edge.v1''"
abbreviation OutcomeSchemaVersion :: gostring where "OutcomeSchemaVersion \<equiv> ''belay.outcome.v1''"
abbreviation maxSourceRefs :: nat where "maxSourceRefs \<equiv> 128"

section \<open>Identifiers\<close>

text \<open>
  The payload whose JSON text is hashed is the edge or outcome itself without its identifier, with
  trimmed strings and sorted references; the current schema version replaces the one it has.
\<close>

record trajectory_encoder =
  enc_node :: "NodeRef \<Rightarrow> gostring"
  enc_edge :: "Edge \<Rightarrow> gostring"
  enc_outcome :: "Outcome \<Rightarrow> gostring"

definition normalizedNodeRefs :: "trajectory_encoder \<Rightarrow> NodeRef list \<Rightarrow> NodeRef list" where
  "normalizedNodeRefs T values = sort_key (enc_node T) values"

definition Edge_DeterministicID :: "trajectory_encoder \<Rightarrow> Edge \<Rightarrow> gostring" where
  "Edge_DeterministicID T value =
    ''edg_'' @ to_lower (enc_edge T (value\<lparr>eg_SchemaVersion := EdgeSchemaVersion, eg_EdgeID := [],
      eg_ProjectIdentity := trim_space (eg_ProjectIdentity value),
      eg_SessionKey := trim_space (eg_SessionKey value),
      eg_DerivationVersion := trim_space (eg_DerivationVersion value),
      eg_SourceRefs := normalizedNodeRefs T (eg_SourceRefs value)\<rparr>))"

definition Outcome_DeterministicID :: "trajectory_encoder \<Rightarrow> Outcome \<Rightarrow> gostring" where
  "Outcome_DeterministicID T value =
    ''out_'' @ to_lower (enc_outcome T (value\<lparr>oc_SchemaVersion := OutcomeSchemaVersion, oc_OutcomeID := [],
      oc_ProjectIdentity := trim_space (oc_ProjectIdentity value),
      oc_SessionKey := trim_space (oc_SessionKey value),
      oc_SourceRefs := normalizedNodeRefs T (oc_SourceRefs value),
      oc_DerivationVersion := trim_space (oc_DerivationVersion value)\<rparr>))"

section \<open>Validation\<close>

text \<open>Every \<open>Validate\<close> method as whether it returns nil.\<close>

definition trajectory_identifier :: "gostring \<Rightarrow> bool" where
  "trajectory_identifier value =
    (if trim_space value = [] \<or> value \<noteq> trim_space value \<or> length value > 256 \<or> \<not> utf8_valid value then False
     else \<not> hasControl value)"

definition validGitObject :: "gostring \<Rightarrow> bool" where
  "validGitObject value =
    (if length value \<noteq> 40 \<and> length value \<noteq> 64 then False
     else list_all hex_byte value \<and> to_lower value = value)"

definition NodeRef_Validate :: "NodeRef \<Rightarrow> bool" where
  "NodeRef_Validate value =
    (if \<not> NodeKind_Valid (nr_Kind value) then False
     else case nr_Kind value of
       NodeCanonicalEvent \<Rightarrow>
         if \<not> trajectory_identifier (nr_EventID value) then False
         else \<not> (nr_SessionKey value \<noteq> [] \<or> nr_TurnIndex value \<noteq> None \<or> nr_OutcomeID value \<noteq> [] \<or>
           nr_ExperienceID value \<noteq> [] \<or> nr_ExperienceVersion value \<noteq> 0 \<or> nr_ApplicationID value \<noteq> [] \<or>
           nr_GitObject value \<noteq> [])
     | NodeTranscriptTurn \<Rightarrow>
         if \<not> trajectory_identifier (nr_SessionKey value) then False
         else if (case nr_TurnIndex value of None \<Rightarrow> True | Some i \<Rightarrow> i < 0) then False
         else \<not> (nr_EventID value \<noteq> [] \<or> nr_OutcomeID value \<noteq> [] \<or> nr_ExperienceID value \<noteq> [] \<or>
           nr_ExperienceVersion value \<noteq> 0 \<or> nr_ApplicationID value \<noteq> [] \<or> nr_GitObject value \<noteq> [])
     | NodeOutcome \<Rightarrow>
         if \<not> trajectory_identifier (nr_OutcomeID value) then False
         else \<not> (nr_EventID value \<noteq> [] \<or> nr_SessionKey value \<noteq> [] \<or> nr_TurnIndex value \<noteq> None \<or>
           nr_ExperienceID value \<noteq> [] \<or> nr_ExperienceVersion value \<noteq> 0 \<or> nr_ApplicationID value \<noteq> [] \<or>
           nr_GitObject value \<noteq> [])
     | NodeExperience \<Rightarrow>
         if \<not> trajectory_identifier (nr_ExperienceID value) then False
         else if nr_ExperienceVersion value < 1 then False
         else \<not> (nr_EventID value \<noteq> [] \<or> nr_SessionKey value \<noteq> [] \<or> nr_TurnIndex value \<noteq> None \<or>
           nr_OutcomeID value \<noteq> [] \<or> nr_ApplicationID value \<noteq> [] \<or> nr_GitObject value \<noteq> [])
     | NodeApplication \<Rightarrow>
         if \<not> trajectory_identifier (nr_ApplicationID value) then False
         else \<not> (nr_EventID value \<noteq> [] \<or> nr_SessionKey value \<noteq> [] \<or> nr_TurnIndex value \<noteq> None \<or>
           nr_OutcomeID value \<noteq> [] \<or> nr_ExperienceID value \<noteq> [] \<or> nr_ExperienceVersion value \<noteq> 0 \<or>
           nr_GitObject value \<noteq> [])
     | NodeGitObject \<Rightarrow>
         if \<not> validGitObject (nr_GitObject value) then False
         else \<not> (nr_EventID value \<noteq> [] \<or> nr_SessionKey value \<noteq> [] \<or> nr_TurnIndex value \<noteq> None \<or>
           nr_OutcomeID value \<noteq> [] \<or> nr_ExperienceID value \<noteq> [] \<or> nr_ExperienceVersion value \<noteq> 0 \<or>
           nr_ApplicationID value \<noteq> [])
     | NodeKindOther s \<Rightarrow> True)"

definition Edge_Validate :: "trajectory_encoder \<Rightarrow> Edge \<Rightarrow> bool" where
  "Edge_Validate T value =
    (if eg_SchemaVersion value \<noteq> EdgeSchemaVersion then False
     else if \<not> trajectory_identifier (eg_ProjectIdentity value) then False
     else if \<not> trajectory_identifier (eg_SessionKey value) then False
     else if \<not> NodeRef_Validate (eg_From value) then False
     else if \<not> NodeRef_Validate (eg_To value) then False
     else if \<not> EdgeRelation_Valid (eg_Relation value) then False
     else if \<not> EvidenceClass_Valid (eg_EvidenceClass value) then False
     else if \<not> Confidence_Valid (eg_Confidence value) then False
     else if \<not> trajectory_identifier (eg_DerivationVersion value) then False
     else if eg_OccurredAt value = time_zero then False
     else if length (eg_SourceRefs value) = 0 \<or> length (eg_SourceRefs value) > maxSourceRefs then False
     else if \<not> list_all NodeRef_Validate (eg_SourceRefs value) then False
     else if eg_EdgeID value = [] \<or> eg_EdgeID value \<noteq> Edge_DeterministicID T value then False
     else True)"

definition Outcome_Validate :: "trajectory_encoder \<Rightarrow> Outcome \<Rightarrow> bool" where
  "Outcome_Validate T value =
    (if oc_SchemaVersion value \<noteq> OutcomeSchemaVersion then False
     else if \<not> trajectory_identifier (oc_ProjectIdentity value) then False
     else if \<not> trajectory_identifier (oc_SessionKey value) then False
     else if oc_OccurredAt value = time_zero then False
     else if \<not> OutcomeKind_Valid (oc_Kind value) \<or> \<not> OutcomeResult_Valid (oc_Result value) then False
     else if oc_EvidenceClass value \<noteq> EvidenceObserved \<and>
       oc_EvidenceClass value \<noteq> EvidenceDeterministicInference then False
     else if \<not> Confidence_Valid (oc_Confidence value) then False
     else if length (oc_SourceRefs value) = 0 \<or> length (oc_SourceRefs value) > maxSourceRefs then False
     else if \<not> list_all NodeRef_Validate (oc_SourceRefs value) then False
     else if \<not> trajectory_identifier (oc_DerivationVersion value) then False
     else if oc_OutcomeID value = [] \<or> oc_OutcomeID value \<noteq> Outcome_DeterministicID T value then False
     else True)"

definition ValidateDeterministicVerifierInputs ::
    "trajectory_encoder \<Rightarrow> Edge list \<Rightarrow> Outcome list \<Rightarrow> bool" where
  "ValidateDeterministicVerifierInputs T edges outcomes =
    (if \<not> list_all (\<lambda>e. Edge_Validate T e \<and> eg_EvidenceClass e \<noteq> EvidenceSemanticHypothesis) edges then False
     else list_all (Outcome_Validate T) outcomes)"

end
