(* ===== verification/Traj_Derive.thy ===== *)
theory Traj_Derive
  imports Traj_Model
begin

text \<open>
  The derivation of causal edges and outcomes from a session (\<open>internal/trajectory/derive\<close>). What the
  turns say (which commands verify, which files a tool call edits, what is a correction or a claim of
  completion) is decided by the text rules of \<open>internal/detection/transcriptissues\<close>, regular
  expressions over decoded JSON, which are a parameter here: the theorems hold for all of them. Maps
  are association lists; the one map that the code ranges over is ranged over in an order that is a
  parameter. The records are sorted by keys that decide all but equal identifiers, which a stable sort
  leaves in the given order.
\<close>

abbreviation DerivationVersion :: gostring where "DerivationVersion \<equiv> ''belay.trajectory-derive.v7''"
abbreviation MaxDiagnostics :: nat where "MaxDiagnostics \<equiv> 512"
abbreviation verificationMutationTurnWindow :: int where "verificationMutationTurnWindow \<equiv> 100"
abbreviation repairCommandTurnWindow :: int where "repairCommandTurnWindow \<equiv> 20"

datatype DiagnosticCode =
  DiagnosticPartialTranscript | DiagnosticPartialCanonicalEvents | DiagnosticMissingToolCallID
| DiagnosticMissingToolCall | DiagnosticAmbiguousToolCall | DiagnosticMissingInvocation
| DiagnosticMissingParentToolCall | DiagnosticForeignCanonicalEvent | DiagnosticMissingMutation
| DiagnosticMissingVerificationResult | DiagnosticAmbiguousVerificationResult
| DiagnosticUnknownVerificationResult | DiagnosticDiagnosticsTruncated

fun DiagnosticCode_text :: "DiagnosticCode \<Rightarrow> gostring" where
  "DiagnosticCode_text DiagnosticPartialTranscript = ''trajectory_partial_transcript''"
| "DiagnosticCode_text DiagnosticPartialCanonicalEvents = ''trajectory_partial_canonical_events''"
| "DiagnosticCode_text DiagnosticMissingToolCallID = ''trajectory_missing_tool_call_id''"
| "DiagnosticCode_text DiagnosticMissingToolCall = ''trajectory_missing_tool_call''"
| "DiagnosticCode_text DiagnosticAmbiguousToolCall = ''trajectory_ambiguous_tool_call''"
| "DiagnosticCode_text DiagnosticMissingInvocation = ''trajectory_missing_invocation_target''"
| "DiagnosticCode_text DiagnosticMissingParentToolCall = ''trajectory_missing_parent_tool_call''"
| "DiagnosticCode_text DiagnosticForeignCanonicalEvent = ''trajectory_foreign_canonical_event''"
| "DiagnosticCode_text DiagnosticMissingMutation = ''trajectory_missing_mutation_target''"
| "DiagnosticCode_text DiagnosticMissingVerificationResult = ''trajectory_missing_verification_result''"
| "DiagnosticCode_text DiagnosticAmbiguousVerificationResult = ''trajectory_ambiguous_verification_result''"
| "DiagnosticCode_text DiagnosticUnknownVerificationResult = ''trajectory_unknown_verification_result''"
| "DiagnosticCode_text DiagnosticDiagnosticsTruncated = ''trajectory_diagnostics_truncated''"

record Diagnostic =
  dg_Code :: DiagnosticCode
  dg_Citation :: "NodeRef option"

record DeriveCoverage =
  dc_Transcript :: SessionCoverage
  dc_TranscriptTurnsComplete :: bool
  dc_CanonicalEventsComplete :: bool
  dc_LinksComplete :: bool
  dc_MachineEnvelopesExcluded :: nat
  dc_FullyDerived :: bool

record DeriveInput =
  di_Session :: TranscriptSession
  di_Turns :: "Turn list"
  di_CanonicalEvents :: "Event list"
  di_TranscriptTurnsComplete :: bool
  di_CanonicalEventsComplete :: bool

record DeriveResult =
  dr_DerivationVersion :: gostring
  dr_Edges :: "Edge list"
  dr_Outcomes :: "Outcome list"
  dr_Diagnostics :: "Diagnostic list"
  dr_Coverage :: DeriveCoverage

record matchedMutation =
  mm_position :: nat
  mm_turn :: Turn
  mm_target :: NodeRef

record commandAttempt =
  ca_position :: nat
  ca_resultPosition :: nat
  ca_segment :: nat
  ca_call :: Turn
  ca_result :: Turn
  ca_signature :: gostring
  ca_repairFamily :: gostring
  ca_exitCode :: int

text \<open>The text rules, with the configuration of the project supplied to the one that reads it.\<close>

record text_rules =
  tr_IsMachineGeneratedEnvelope :: "gostring \<Rightarrow> bool"
  tr_HighConfidenceCorrectionMarker :: "gostring \<Rightarrow> gostring"
  tr_ExtractEditedFiles :: "Turn \<Rightarrow> gostring list"
  tr_RetainedVerificationCommand :: "Turn \<Rightarrow> bool"
  tr_NormalizedCommandSignature :: "Turn \<Rightarrow> gostring option"
  tr_CommandRepairFamily :: "Turn \<Rightarrow> gostring option"
  tr_IsCompletionClaim :: "Turn \<Rightarrow> bool"

definition ExplicitToolResultFailed :: "Turn \<Rightarrow> bool option" where
  "ExplicitToolResultFailed turn =
    (if tn_Role turn \<noteq> RoleToolResult then None
     else case pl_ExitCode (tn_Payload turn) of
       Some code \<Rightarrow> Some (code \<noteq> 0)
     | None \<Rightarrow> pl_ToolIsError (tn_Payload turn))"

section \<open>References\<close>

definition turnReference :: "Turn \<Rightarrow> NodeRef" where
  "turnReference turn = \<lparr>nr_Kind = NodeTranscriptTurn, nr_EventID = [], nr_SessionKey = tn_SessionKey turn,
     nr_TurnIndex = Some (tn_TurnIndex turn), nr_OutcomeID = [], nr_ExperienceID = [],
     nr_ExperienceVersion = 0, nr_ApplicationID = [], nr_GitObject = []\<rparr>"

definition eventReference :: "Event \<Rightarrow> NodeRef" where
  "eventReference event = \<lparr>nr_Kind = NodeCanonicalEvent, nr_EventID = ev_EventID event, nr_SessionKey = [],
     nr_TurnIndex = None, nr_OutcomeID = [], nr_ExperienceID = [],
     nr_ExperienceVersion = 0, nr_ApplicationID = [], nr_GitObject = []\<rparr>"

definition sameNode :: "NodeRef \<Rightarrow> NodeRef \<Rightarrow> bool" where
  "sameNode left right \<longleftrightarrow>
    nr_Kind left = nr_Kind right \<and> nr_SessionKey left = nr_SessionKey right \<and>
    nr_TurnIndex left \<noteq> None \<and> nr_TurnIndex right \<noteq> None \<and> nr_TurnIndex left = nr_TurnIndex right"

definition diagnosticTurnIndex :: "Diagnostic \<Rightarrow> int" where
  "diagnosticTurnIndex value =
    (case dg_Citation value of
       None \<Rightarrow> - 1
     | Some citation \<Rightarrow>
         if nr_Kind citation \<noteq> NodeTranscriptTurn then - 1
         else case nr_TurnIndex citation of None \<Rightarrow> - 1 | Some i \<Rightarrow> i)"

definition invocationEvent :: "Event \<Rightarrow> bool" where
  "invocationEvent event \<longleftrightarrow>
    ev_Type event \<in> {''tool.call'', ''command.exec'', ''file.read'', ''file.write'', ''file.delete''}"

definition mutationEvent :: "Event \<Rightarrow> bool" where
  "mutationEvent event \<longleftrightarrow> ev_Type event = ''file.write'' \<or> ev_Type event = ''file.delete''"

definition behaviorRole :: "Role \<Rightarrow> bool" where
  "behaviorRole role \<longleftrightarrow> role = RoleAssistant \<or> role = RoleToolCall \<or> role = RoleToolResult"

definition callIDOf :: "Turn \<Rightarrow> gostring" where
  "callIDOf turn = trim_space (pl_ToolCallID (tn_Payload turn))"

section \<open>The builder\<close>

definition addDiagnostic :: "DiagnosticCode \<Rightarrow> NodeRef option \<Rightarrow> DeriveResult \<Rightarrow> DeriveResult" where
  "addDiagnostic code citation r =
    r\<lparr>dr_Coverage := (dr_Coverage r)\<lparr>dc_LinksComplete := False\<rparr>,
      dr_Diagnostics := dr_Diagnostics r @ [\<lparr>dg_Code = code, dg_Citation = citation\<rparr>]\<rparr>"

abbreviation addTurnDiagnostic :: "DiagnosticCode \<Rightarrow> Turn \<Rightarrow> DeriveResult \<Rightarrow> DeriveResult" where
  "addTurnDiagnostic code turn \<equiv> addDiagnostic code (Some (turnReference turn))"

definition addEdges :: "Edge list \<Rightarrow> DeriveResult \<Rightarrow> DeriveResult" where
  "addEdges edges r = r\<lparr>dr_Edges := dr_Edges r @ edges\<rparr>"

definition addOutcome :: "Outcome \<Rightarrow> DeriveResult \<Rightarrow> DeriveResult" where
  "addOutcome outcome r = r\<lparr>dr_Outcomes := dr_Outcomes r @ [outcome]\<rparr>"

definition newEdgeWithSources ::
    "trajectory_encoder \<Rightarrow> TranscriptSession \<Rightarrow> NodeRef \<Rightarrow> EdgeRelation \<Rightarrow> NodeRef \<Rightarrow> time \<Rightarrow> EvidenceClass \<Rightarrow>
      NodeRef list \<Rightarrow> Edge" where
  "newEdgeWithSources T session source relation target occurredAt evidence sourceRefs =
    (let value = \<lparr>eg_SchemaVersion = EdgeSchemaVersion, eg_EdgeID = [],
           eg_ProjectIdentity = ts_ProjectIdentity session, eg_SessionKey = ts_SessionKey session,
           eg_From = source, eg_Relation = relation, eg_To = target, eg_EvidenceClass = evidence,
           eg_Confidence = ConfidenceHigh, eg_DerivationVersion = DerivationVersion,
           eg_SourceRefs = sourceRefs, eg_OccurredAt = occurredAt\<rparr>
     in value\<lparr>eg_EdgeID := Edge_DeterministicID T value\<rparr>)"

definition newEdge ::
    "trajectory_encoder \<Rightarrow> TranscriptSession \<Rightarrow> NodeRef \<Rightarrow> EdgeRelation \<Rightarrow> NodeRef \<Rightarrow> time \<Rightarrow> EvidenceClass \<Rightarrow> Edge" where
  "newEdge T session source relation target occurredAt evidence =
    newEdgeWithSources T session source relation target occurredAt evidence [source, target]"

text \<open>The outcomes of the three functions that derive one differ in kind, result, time and sources.\<close>

definition newOutcome ::
    "trajectory_encoder \<Rightarrow> TranscriptSession \<Rightarrow> time \<Rightarrow> OutcomeKind \<Rightarrow> OutcomeResult \<Rightarrow> NodeRef list \<Rightarrow> Outcome" where
  "newOutcome T session occurredAt kind outcomeResult sourceRefs =
    (let value = \<lparr>oc_SchemaVersion = OutcomeSchemaVersion, oc_OutcomeID = [],
           oc_ProjectIdentity = ts_ProjectIdentity session, oc_SessionKey = ts_SessionKey session,
           oc_OccurredAt = occurredAt, oc_Kind = kind, oc_Result = outcomeResult,
           oc_EvidenceClass = EvidenceDeterministicInference, oc_Confidence = ConfidenceHigh,
           oc_SourceRefs = sourceRefs, oc_DerivationVersion = DerivationVersion\<rparr>
     in value\<lparr>oc_OutcomeID := Outcome_DeterministicID T value\<rparr>)"

section \<open>Collecting\<close>

type_synonym call_map = "(gostring \<times> Turn list) list"

definition callStep :: "DeriveResult \<times> call_map \<Rightarrow> Turn \<Rightarrow> DeriveResult \<times> call_map" where
  "callStep s turn = (case s of (r, calls) \<Rightarrow>
     if tn_Role turn \<noteq> RoleToolCall then (r, calls)
     else if callIDOf turn = [] then (addTurnDiagnostic DiagnosticMissingToolCallID turn r, calls)
     else (r, map_append calls (callIDOf turn) turn))"

definition ambiguousStep :: "DeriveResult \<times> gostring list \<Rightarrow> gostring \<times> Turn list \<Rightarrow> DeriveResult \<times> gostring list" where
  "ambiguousStep s entry = (case s of (r, ambiguous) \<Rightarrow> case entry of (callID, matches) \<Rightarrow>
     if length matches < 2 then (r, ambiguous)
     else (foldl (\<lambda>r turn. addTurnDiagnostic DiagnosticAmbiguousToolCall turn r) r matches, callID # ambiguous))"

type_synonym event_map = "(gostring \<times> Event list) list"

definition eventCallID :: "Event \<Rightarrow> gostring option" where
  "eventCallID event =
    (if \<not> invocationEvent event then None
     else case obs_Details (ev_Observation event) of
       None \<Rightarrow> None
     | Some details \<Rightarrow>
         let callID = trim_space (dtl_ToolCallID details) in if callID \<noteq> [] then Some callID else None)"

definition eventStep ::
    "gostring \<Rightarrow> DeriveResult \<times> event_map \<times> event_map \<Rightarrow> Event \<Rightarrow> DeriveResult \<times> event_map \<times> event_map" where
  "eventStep sessionKey s event = (case s of (r, invocations, mutations) \<Rightarrow>
     if ses_Key (ev_Session event) \<noteq> sessionKey then
       (addDiagnostic DiagnosticForeignCanonicalEvent (Some (eventReference event)) r, invocations, mutations)
     else case eventCallID event of
       None \<Rightarrow> (r, invocations, mutations)
     | Some callID \<Rightarrow> (r, map_append invocations callID event,
         if mutationEvent event then map_append mutations callID event else mutations))"

type_synonym result_map = "(gostring \<times> (nat \<times> Turn) list) list"

definition resultsOf :: "Turn list \<Rightarrow> result_map" where
  "resultsOf turns =
    group_pairs (map (\<lambda>(position, turn). (callIDOf turn, (position, turn)))
      (filter (\<lambda>(position, turn). tn_Role turn = RoleToolResult \<and> callIDOf turn \<noteq> []) (enumerate 0 turns)))"

section \<open>Edges of one turn\<close>

definition deriveInvocations ::
    "trajectory_encoder \<Rightarrow> TranscriptSession \<Rightarrow> Turn \<Rightarrow> event_map \<Rightarrow> gostring list \<Rightarrow> DeriveResult \<Rightarrow> DeriveResult" where
  "deriveInvocations T session turn invocations ambiguous r =
    (if callIDOf turn \<noteq> [] \<and> callIDOf turn \<notin> set ambiguous then
       (let targets = map_get invocations (callIDOf turn);
            r = (if targets = [] then addTurnDiagnostic DiagnosticMissingInvocation turn r else r)
        in addEdges (map (\<lambda>event. newEdge T session (turnReference turn) RelationInvokes (eventReference event)
             (ev_OccurredAt event) EvidenceObserved) targets) r)
     else r)"

definition deriveToolResult ::
    "trajectory_encoder \<Rightarrow> TranscriptSession \<Rightarrow> Turn \<Rightarrow> call_map \<Rightarrow> gostring list \<Rightarrow> DeriveResult \<Rightarrow> DeriveResult" where
  "deriveToolResult T session turn calls ambiguous r =
    (let callID = callIDOf turn in
     if callID = [] then addTurnDiagnostic DiagnosticMissingToolCallID turn r
     else if callID \<in> set ambiguous then addTurnDiagnostic DiagnosticAmbiguousToolCall turn r
     else case map_get calls callID of
       [call] \<Rightarrow> addEdges [newEdge T session (turnReference turn) RelationReturnsFor (turnReference call)
         (tn_OccurredAt turn) EvidenceObserved] r
     | _ \<Rightarrow> addTurnDiagnostic DiagnosticMissingToolCall turn r)"

definition deriveParent ::
    "trajectory_encoder \<Rightarrow> TranscriptSession \<Rightarrow> Turn \<Rightarrow> gostring \<Rightarrow> call_map \<Rightarrow> gostring list \<Rightarrow> DeriveResult \<Rightarrow> DeriveResult" where
  "deriveParent T session turn parentID calls ambiguous r =
    (if parentID \<in> set ambiguous then addTurnDiagnostic DiagnosticAmbiguousToolCall turn r
     else case map_get calls parentID of
       [call] \<Rightarrow>
         if sameNode (turnReference call) (turnReference turn) then r
         else addEdges [newEdge T session (turnReference call) RelationParentOf (turnReference turn)
           (tn_OccurredAt turn) EvidenceObserved] r
     | _ \<Rightarrow> addTurnDiagnostic DiagnosticMissingParentToolCall turn r)"

definition deriveCorrection ::
    "trajectory_encoder \<Rightarrow> text_rules \<Rightarrow> TranscriptSession \<Rightarrow> Turn list \<Rightarrow> nat \<Rightarrow> DeriveResult \<Rightarrow> DeriveResult" where
  "deriveCorrection T C session turns index r =
    (let turn = turns ! index;
         content = trim_space (pl_Text (tn_Payload turn));
         envelope = tr_IsMachineGeneratedEnvelope C content;
         delegated = trim_space (pl_ParentToolUseID (tn_Payload turn)) \<noteq> [] in
     if content = [] \<or> envelope \<or> delegated then
       (if envelope \<or> delegated
        then r\<lparr>dr_Coverage := (dr_Coverage r)
          \<lparr>dc_MachineEnvelopesExcluded := dc_MachineEnvelopesExcluded (dr_Coverage r) + 1\<rparr>\<rparr>
        else r)
     else if tr_HighConfidenceCorrectionMarker C content = [] \<or> index = 0 \<or>
       \<not> behaviorRole (tn_Role (turns ! (index - 1))) then r
     else
       let userRef = turnReference turn; behaviorRef = turnReference (turns ! (index - 1)) in
       addOutcome (newOutcome T session (tn_OccurredAt turn) OutcomeCorrection ResultObserved [behaviorRef, userRef])
        (addEdges [newEdge T session userRef RelationRespondsTo behaviorRef (tn_OccurredAt turn)
             EvidenceDeterministicInference,
           newEdge T session userRef RelationCorrects behaviorRef (tn_OccurredAt turn)
             EvidenceDeterministicInference] r))"

definition turnStep ::
    "trajectory_encoder \<Rightarrow> text_rules \<Rightarrow> TranscriptSession \<Rightarrow> Turn list \<Rightarrow> call_map \<Rightarrow> gostring list \<Rightarrow> event_map \<Rightarrow>
      DeriveResult \<Rightarrow> nat \<Rightarrow> DeriveResult" where
  "turnStep T C session turns calls ambiguous invocations r index =
    (let turn = turns ! index;
         r = (case tn_Role turn of
                RoleToolCall \<Rightarrow> deriveInvocations T session turn invocations ambiguous r
              | RoleToolResult \<Rightarrow> deriveToolResult T session turn calls ambiguous r
              | _ \<Rightarrow> r);
         parentID = trim_space (pl_ParentToolUseID (tn_Payload turn));
         r = (if parentID \<noteq> [] then deriveParent T session turn parentID calls ambiguous r else r)
     in if tn_Role turn = RoleUser then deriveCorrection T C session turns index r else r)"

section \<open>Edited files of the project\<close>

definition filepath_join :: "gostring \<Rightarrow> gostring \<Rightarrow> gostring" where
  "filepath_join base child =
    (if base \<noteq> [] then path_clean (base @ ''/'' @ child)
     else if child \<noteq> [] then path_clean child
     else [])"

fun strip_common :: "'a list \<Rightarrow> 'a list \<Rightarrow> 'a list \<times> 'a list" where
  "strip_common (x # xs) (y # ys) = (if x = y then strip_common xs ys else (x # xs, y # ys))"
| "strip_common xs ys = (xs, ys)"

definition path_segments :: "gostring \<Rightarrow> gostring list" where
  "path_segments value = filter (\<lambda>s. s \<noteq> []) (split_on (CHR ''/'') (path_clean value))"

text \<open>\<open>filepath.Rel\<close> for two absolute paths, the only ones the code passes; it does not fail for them.\<close>

definition filepath_rel :: "gostring \<Rightarrow> gostring \<Rightarrow> gostring" where
  "filepath_rel base target =
    (if path_clean base = path_clean target then ''.''
     else case strip_common (path_segments base) (path_segments target) of
       (ups, rest) \<Rightarrow> join_with ''/'' (replicate (length ups) ''..'' @ rest))"

definition projectEditedFiles :: "text_rules \<Rightarrow> TranscriptSession \<Rightarrow> Turn \<Rightarrow> gostring list" where
  "projectEditedFiles C session turn =
    (let files = tr_ExtractEditedFiles C turn; root = trim_space (ts_ProjectPath session) in
     if files = [] \<or> \<not> has_prefix root ''/'' then files
     else
       let root = path_clean root;
           cwd = trim_space (pl_CWD (tn_Payload turn));
           base = (if \<not> has_prefix cwd ''/'' then root else cwd) in
       filter (\<lambda>path.
           let candidate = (if \<not> has_prefix path ''/'' then filepath_join base path else path);
               relative = filepath_rel root (path_clean candidate) in
           \<not> (relative = ''..'' \<or> has_prefix relative ''../'')) files)"

section \<open>Mutations and verifications\<close>

definition mutationStep ::
    "trajectory_encoder \<Rightarrow> text_rules \<Rightarrow> TranscriptSession \<Rightarrow> event_map \<Rightarrow> gostring list \<Rightarrow>
      matchedMutation list \<times> DeriveResult \<Rightarrow> nat \<times> Turn \<Rightarrow> matchedMutation list \<times> DeriveResult" where
  "mutationStep T C session mutations ambiguous s entry = (case s of (matched, r) \<Rightarrow> case entry of (position, turn) \<Rightarrow>
     if tn_Role turn \<noteq> RoleToolCall \<or> projectEditedFiles C session turn = [] then (matched, r)
     else if callIDOf turn = [] \<or> callIDOf turn \<in> set ambiguous then (matched, r)
     else case map_get mutations (callIDOf turn) of
       [] \<Rightarrow> (matched @ [\<lparr>mm_position = position, mm_turn = turn, mm_target = turnReference turn\<rparr>], r)
     | targets \<Rightarrow>
         (matched @ map (\<lambda>event. \<lparr>mm_position = position, mm_turn = turn, mm_target = eventReference event\<rparr>) targets,
          addEdges (map (\<lambda>event. newEdge T session (turnReference turn) RelationModifies (eventReference event)
            (ev_OccurredAt event) EvidenceObserved) targets) r))"

definition mutationSources :: "NodeRef \<Rightarrow> matchedMutation \<Rightarrow> NodeRef list" where
  "mutationSources citing mutation =
    [citing, turnReference (mm_turn mutation)] @
    (if nr_Kind (mm_target mutation) \<noteq> NodeTranscriptTurn then [mm_target mutation] else [])"

definition deriveVerificationOutcome ::
    "trajectory_encoder \<Rightarrow> TranscriptSession \<Rightarrow> Turn \<Rightarrow> nat \<Rightarrow> result_map \<Rightarrow> gostring list \<Rightarrow> DeriveResult \<Rightarrow> DeriveResult" where
  "deriveVerificationOutcome T session call callPosition results ambiguous r =
    (let callID = callIDOf call in
     if callID = [] then addTurnDiagnostic DiagnosticMissingVerificationResult call r
     else if callID \<in> set ambiguous then r
     else case map snd (filter (\<lambda>candidate. fst candidate > callPosition) (map_get results callID)) of
       [] \<Rightarrow> addTurnDiagnostic DiagnosticMissingVerificationResult call r
     | [verificationResult] \<Rightarrow>
         (case ExplicitToolResultFailed verificationResult of
            None \<Rightarrow> addTurnDiagnostic DiagnosticUnknownVerificationResult verificationResult r
          | Some failed \<Rightarrow> addOutcome (newOutcome T session (tn_OccurredAt verificationResult)
              (if failed then OutcomeVerificationFail else OutcomeVerificationPass)
              (if failed then ResultFailed else ResultSucceeded)
              [turnReference call, turnReference verificationResult]) r)
     | _ \<Rightarrow> addTurnDiagnostic DiagnosticAmbiguousVerificationResult call r)"

definition windowStart :: "int \<Rightarrow> nat \<Rightarrow> int" where
  "windowStart priorVerification position =
    (let start = int position - verificationMutationTurnWindow;
         start = (if start < 0 then 0 else start)
     in if priorVerification + 1 > start then priorVerification + 1 else start)"

definition verificationStep ::
    "trajectory_encoder \<Rightarrow> text_rules \<Rightarrow> TranscriptSession \<Rightarrow> matchedMutation list \<Rightarrow> result_map \<Rightarrow> gostring list \<Rightarrow>
      int \<times> DeriveResult \<Rightarrow> nat \<times> Turn \<Rightarrow> int \<times> DeriveResult" where
  "verificationStep T C session matched results ambiguous s entry =
    (case s of (priorVerification, r) \<Rightarrow> case entry of (position, turn) \<Rightarrow>
     if tn_Role turn \<noteq> RoleToolCall then (priorVerification, r)
     else if \<not> tr_RetainedVerificationCommand C turn then (priorVerification, r)
     else
       let inWindow = filter (\<lambda>m. \<not> (int (mm_position m) < windowStart priorVerification position \<or>
             mm_position m \<ge> position)) matched;
           r = addEdges (map (\<lambda>m. newEdgeWithSources T session (turnReference turn) RelationVerifies (mm_target m)
                 (tn_OccurredAt turn) EvidenceDeterministicInference (mutationSources (turnReference turn) m))
                 inWindow) r
       in (int position, deriveVerificationOutcome T session turn position results ambiguous r))"

definition deriveMutationVerification ::
    "trajectory_encoder \<Rightarrow> text_rules \<Rightarrow> TranscriptSession \<Rightarrow> Turn list \<Rightarrow> event_map \<Rightarrow> result_map \<Rightarrow> gostring list \<Rightarrow>
      DeriveResult \<Rightarrow> matchedMutation list \<times> DeriveResult" where
  "deriveMutationVerification T C session turns mutations results ambiguous r =
    (let (matched, r) = foldl (mutationStep T C session mutations ambiguous) ([], r) (enumerate 0 turns)
     in (matched, snd (foldl (verificationStep T C session matched results ambiguous) (- 1, r) (enumerate 0 turns))))"

section \<open>Repairs\<close>

fun segmentsFrom :: "nat \<Rightarrow> Turn list \<Rightarrow> nat list" where
  "segmentsFrom segment [] = []"
| "segmentsFrom segment (turn # turns) =
    segment # segmentsFrom
      (if tn_Role turn = RoleUser \<or> tn_Role turn = RoleCompactionSummary then segment + 1 else segment) turns"

definition turnSegments :: "Turn list \<Rightarrow> nat list" where
  "turnSegments turns = segmentsFrom 0 turns"

definition commandAttemptAt ::
    "text_rules \<Rightarrow> Turn list \<Rightarrow> result_map \<Rightarrow> gostring list \<Rightarrow> nat \<Rightarrow> commandAttempt option" where
  "commandAttemptAt C turns results ambiguous position =
    (let call = turns ! position; segments = turnSegments turns in
     if tn_Role call \<noteq> RoleToolCall then None
     else case tr_NormalizedCommandSignature C call of
       None \<Rightarrow> None
     | Some signature \<Rightarrow>
       case tr_CommandRepairFamily C call of
         None \<Rightarrow> None
       | Some repairFamily \<Rightarrow>
         if callIDOf call = [] \<or> callIDOf call \<in> set ambiguous then None
         else case map_get results (callIDOf call) of
           [(resultPosition, result)] \<Rightarrow>
             if resultPosition \<le> position \<or> segments ! resultPosition \<noteq> segments ! position then None
             else (case ExplicitToolResultFailed result of
                None \<Rightarrow> None
              | Some failed \<Rightarrow> Some \<lparr>ca_position = position, ca_resultPosition = resultPosition,
                  ca_segment = segments ! position, ca_call = call, ca_result = result,
                  ca_signature = signature, ca_repairFamily = repairFamily,
                  ca_exitCode = (if failed then 1 else 0)\<rparr>)
         | _ \<Rightarrow> None)"

definition explicitCommandAttempts ::
    "text_rules \<Rightarrow> Turn list \<Rightarrow> result_map \<Rightarrow> gostring list \<Rightarrow> commandAttempt list" where
  "explicitCommandAttempts C turns results ambiguous =
    concat (map (\<lambda>position. case commandAttemptAt C turns results ambiguous position of None \<Rightarrow> [] | Some a \<Rightarrow> [a])
      [0..<length turns])"

text \<open>
  The scan from the attempt before a success backwards: every branch of its body leaves the loop, so
  that it only ever looks at the attempt right before.
\<close>

definition repairScan ::
    "trajectory_encoder \<Rightarrow> TranscriptSession \<Rightarrow> commandAttempt \<Rightarrow> commandAttempt list \<Rightarrow> DeriveResult \<Rightarrow> DeriveResult" where
  "repairScan T session success prior r =
    (case prior of
       [] \<Rightarrow> r
     | failure # _ \<Rightarrow>
       if int (ca_position success) - int (ca_position failure) > repairCommandTurnWindow \<or>
         ca_segment failure \<noteq> ca_segment success then r
       else if ca_resultPosition failure \<ge> ca_position success then r
       else if ca_exitCode failure = 0 then r
       else if ca_repairFamily failure = [] \<or> ca_repairFamily failure \<noteq> ca_repairFamily success \<or>
         ca_signature failure = ca_signature success then r
       else
         let sourceRefs = [turnReference (ca_call failure), turnReference (ca_result failure),
               turnReference (ca_call success), turnReference (ca_result success)] in
         addOutcome (newOutcome T session (tn_OccurredAt (ca_result success)) OutcomeRepair ResultSucceeded sourceRefs)
          (addEdges [newEdgeWithSources T session (turnReference (ca_call success)) RelationRepairs
             (turnReference (ca_call failure)) (tn_OccurredAt (ca_result success))
             EvidenceDeterministicInference sourceRefs] r))"

definition deriveRepairs ::
    "trajectory_encoder \<Rightarrow> text_rules \<Rightarrow> TranscriptSession \<Rightarrow> Turn list \<Rightarrow> result_map \<Rightarrow> gostring list \<Rightarrow>
      DeriveResult \<Rightarrow> DeriveResult" where
  "deriveRepairs T C session turns results ambiguous r =
    (let attempts = explicitCommandAttempts C turns results ambiguous in
     foldl (\<lambda>r successIndex.
        if ca_exitCode (attempts ! successIndex) \<noteq> 0 then r
        else repairScan T session (attempts ! successIndex) (rev (take successIndex attempts)) r)
      r [0..<length attempts])"

section \<open>Completion claims and compactions\<close>

definition latestMutationPosition :: "text_rules \<Rightarrow> TranscriptSession \<Rightarrow> Turn list \<Rightarrow> nat \<Rightarrow> nat option" where
  "latestMutationPosition C session turns position =
    find (\<lambda>prior. projectEditedFiles C session (turns ! prior) \<noteq> []) (rev [0..<position])"

definition deriveCompletionClaims ::
    "trajectory_encoder \<Rightarrow> text_rules \<Rightarrow> TranscriptSession \<Rightarrow> Turn list \<Rightarrow> matchedMutation list \<Rightarrow>
      DeriveResult \<Rightarrow> DeriveResult" where
  "deriveCompletionClaims T C session turns matched r =
    foldl (\<lambda>r position.
        let turn = turns ! position in
        if \<not> tr_IsCompletionClaim C turn then r
        else case latestMutationPosition C session turns position of
          None \<Rightarrow> r
        | Some latest \<Rightarrow>
            addEdges (map (\<lambda>m. newEdgeWithSources T session (turnReference turn) RelationClaimsCompletionAfter
              (mm_target m) (tn_OccurredAt turn) EvidenceDeterministicInference
              (mutationSources (turnReference turn) m))
              (filter (\<lambda>m. mm_position m = latest) matched)) r)
      r [0..<length turns]"

definition deriveCompactions ::
    "trajectory_encoder \<Rightarrow> TranscriptSession \<Rightarrow> Turn list \<Rightarrow> DeriveResult \<Rightarrow> DeriveResult" where
  "deriveCompactions T session turns r =
    foldl (\<lambda>r position.
        let turn = turns ! position in
        if tn_Role turn \<noteq> RoleCompactionSummary \<or> position = 0 then r
        else addEdges [newEdge T session (turnReference turn) RelationCompactsAfter
          (turnReference (turns ! (position - 1))) (tn_OccurredAt turn) EvidenceDeterministicInference] r)
      r [0..<length turns]"

definition deriveRepairCompletionCompaction ::
    "trajectory_encoder \<Rightarrow> text_rules \<Rightarrow> TranscriptSession \<Rightarrow> Turn list \<Rightarrow> result_map \<Rightarrow> gostring list \<Rightarrow>
      matchedMutation list \<Rightarrow> DeriveResult \<Rightarrow> DeriveResult" where
  "deriveRepairCompletionCompaction T C session turns results ambiguous matched r =
    deriveCompactions T session turns
      (deriveCompletionClaims T C session turns matched
        (deriveRepairs T C session turns results ambiguous r))"

section \<open>The derivation\<close>

definition validateDeriveInput :: "DeriveInput \<Rightarrow> bool" where
  "validateDeriveInput input =
    (let session = di_Session input in
     if trim_space (ts_SessionKey session) = [] \<or> ts_SessionKey session \<noteq> trim_space (ts_SessionKey session) \<or>
       trim_space (ts_ProjectIdentity session) = [] \<or>
       ts_ProjectIdentity session \<noteq> trim_space (ts_ProjectIdentity session) then False
     else if ts_Coverage session \<notin> {CoverageComplete, CoveragePartial, CoverageLive} then False
     else if \<not> list_all (\<lambda>turn. \<not> (tn_SessionKey turn \<noteq> ts_SessionKey session \<or> tn_TurnIndex turn < 0 \<or>
         tn_OccurredAt turn = time_zero) \<and> NodeRef_Validate (turnReference turn)) (di_Turns input) then False
     else distinct (map tn_TurnIndex (di_Turns input)))"

definition boundedDiagnostics :: "Diagnostic list \<Rightarrow> Diagnostic list" where
  "boundedDiagnostics values =
    (if length values \<le> MaxDiagnostics then values
     else take (MaxDiagnostics - 1) values @ [\<lparr>dg_Code = DiagnosticDiagnosticsTruncated, dg_Citation = None\<rparr>])"

definition turn_key :: "Turn \<Rightarrow> int \<times> time \<times> gostring" where
  "turn_key turn = (tn_TurnIndex turn, tn_OccurredAt turn, tn_TurnID turn)"

definition source_key :: "Event \<Rightarrow> int \<times> time \<times> gostring" where
  "source_key event = (src_Sequence (ev_Source event), ev_OccurredAt event, ev_EventID event)"

definition initialResult :: "DeriveInput \<Rightarrow> DeriveResult" where
  "initialResult input =
    (let session = di_Session input;
         r = \<lparr>dr_DerivationVersion = DerivationVersion, dr_Edges = [], dr_Outcomes = [], dr_Diagnostics = [],
           dr_Coverage = \<lparr>dc_Transcript = ts_Coverage session,
             dc_TranscriptTurnsComplete = di_TranscriptTurnsComplete input,
             dc_CanonicalEventsComplete = di_CanonicalEventsComplete input, dc_LinksComplete = True,
             dc_MachineEnvelopesExcluded = 0, dc_FullyDerived = False\<rparr>\<rparr>;
         r = (if ts_Coverage session \<noteq> CoverageComplete \<or> \<not> di_TranscriptTurnsComplete input
              then addDiagnostic DiagnosticPartialTranscript None r else r)
     in if \<not> di_CanonicalEventsComplete input then addDiagnostic DiagnosticPartialCanonicalEvents None r else r)"

definition finishDerivation :: "trajectory_encoder \<Rightarrow> DeriveResult \<Rightarrow> DeriveResult option" where
  "finishDerivation T r =
    (let r = r\<lparr>dr_Edges := sort_key (\<lambda>e. (eg_OccurredAt e, eg_EdgeID e)) (dr_Edges r),
           dr_Outcomes := sort_key (\<lambda>oc. (oc_OccurredAt oc, oc_OutcomeID oc)) (dr_Outcomes r),
           dr_Diagnostics := boundedDiagnostics
             (sort_key (\<lambda>d. (diagnosticTurnIndex d, DiagnosticCode_text (dg_Code d))) (dr_Diagnostics r))\<rparr> in
     if \<not> list_all (Edge_Validate T) (dr_Edges r) then None
     else if \<not> list_all (Outcome_Validate T) (dr_Outcomes r) then None
     else Some (r\<lparr>dr_Coverage := (dr_Coverage r)\<lparr>dc_FullyDerived :=
       dc_Transcript (dr_Coverage r) = CoverageComplete \<and> dc_TranscriptTurnsComplete (dr_Coverage r) \<and>
       dc_CanonicalEventsComplete (dr_Coverage r) \<and> dc_LinksComplete (dr_Coverage r)\<rparr>\<rparr>))"

datatype derive_error = ErrInvalidDeriveInput | ErrInvalidDerived

text \<open>
  \<open>order\<close> is the order in which the map of calls is ranged over; the names of a session and of its
  derivation coincide in the source (\<open>derive.Session\<close>).
\<close>

definition deriveSession ::
    "trajectory_encoder \<Rightarrow> text_rules \<Rightarrow> (call_map \<Rightarrow> call_map) \<Rightarrow> DeriveInput \<Rightarrow> derive_error + DeriveResult" where
  "deriveSession T C order input =
    (if \<not> validateDeriveInput input then Inl ErrInvalidDeriveInput
     else
       let session = di_Session input;
           turns = sort_key turn_key (di_Turns input);
           events = sort_key source_key (di_CanonicalEvents input);
           (r, calls) = foldl callStep (initialResult input, []) turns;
           (r, ambiguous) = foldl ambiguousStep (r, []) (order calls);
           (r, invocations, mutations) = foldl (eventStep (ts_SessionKey session)) (r, [], []) events;
           results = resultsOf turns;
           r = foldl (turnStep T C session turns calls ambiguous invocations) r [0..<length turns];
           (matched, r) = deriveMutationVerification T C session turns mutations results ambiguous r;
           r = deriveRepairCompletionCompaction T C session turns results ambiguous matched r in
       case finishDerivation T r of None \<Rightarrow> Inl ErrInvalidDerived | Some r \<Rightarrow> Inr r)"

end
