(* ===== verification/Cand_Episode.thy ===== *)
theory Cand_Episode
  imports Traj_Derive Exp_Validate
begin

text \<open>
  Evidence episodes (\<open>internal/experience/candidatecompiler/episode.go\<close>): successful verifications
  that checked a common mutation, or continue each other, are joined by a union-find with path
  compression. \<open>find\<close> follows parents until it meets a root; it is a partial function, and that it
  always returns is a theorem (\<open>Cand_Groups\<close>). The JSON texts by which references and records are
  compared, and the digest of an episode, are parameters; encoding cannot fail but for a year JSON cannot hold.
\<close>

section \<open>Records\<close>

record successfulProcedureRecord =
  spr_SessionKey :: gostring
  spr_OutcomeID :: gostring
  spr_ContinuesOutcomeID :: gostring
  spr_VerifierCallRef :: NodeRef
  spr_VerifierResultRef :: NodeRef
  spr_VerifierTurn :: int
  spr_CommandClass :: gostring
  spr_RawCommand :: gostring
  spr_UserRequested :: bool
  spr_ProjectConfigured :: bool
  spr_MutationRefs :: "NodeRef list"
  spr_MutationPaths :: "gostring list"
  spr_ContinuityRefs :: "NodeRef list"
  spr_EvidenceRefs :: "NodeRef list"
  spr_GeneratedAt :: time

record evidenceEpisode =
  epi_EpisodeID :: gostring
  epi_SessionKey :: gostring
  epi_FirstTurn :: int
  epi_LastTurn :: int
  epi_MutationRefs :: "NodeRef list"
  epi_EvidenceRefs :: "NodeRef list"
  epi_OutcomeIDs :: "gostring list"
  epi_Anchor :: successfulProcedureRecord
  epi_Supporting :: "successfulProcedureRecord list"
  epi_GeneratedAt :: time

text \<open>The payload whose digest identifies an episode.\<close>

record episode_payload =
  epp_SessionKey :: gostring
  epp_FirstTurn :: int
  epp_LastTurn :: int
  epp_MutationRefs :: "NodeRef list"
  epp_VerificationRefs :: "NodeRef list"
  epp_OutcomeIDs :: "gostring list"

record episode_encoder =
  enc_noderef :: "NodeRef \<Rightarrow> gostring"
  enc_record :: "successfulProcedureRecord \<Rightarrow> gostring"
  enc_episode :: "episode_payload \<Rightarrow> gostring"

definition candidate_sameNode :: "NodeRef \<Rightarrow> NodeRef \<Rightarrow> bool" where
  "candidate_sameNode left right =
    (if nr_Kind left \<noteq> nr_Kind right then False
     else case nr_Kind left of
       NodeTranscriptTurn \<Rightarrow> nr_SessionKey left = nr_SessionKey right \<and>
         nr_TurnIndex left \<noteq> None \<and> nr_TurnIndex right \<noteq> None \<and> nr_TurnIndex left = nr_TurnIndex right
     | NodeCanonicalEvent \<Rightarrow> nr_EventID left = nr_EventID right
     | NodeOutcome \<Rightarrow> nr_OutcomeID left = nr_OutcomeID right
     | NodeExperience \<Rightarrow> nr_ExperienceID left = nr_ExperienceID right \<and>
         nr_ExperienceVersion left = nr_ExperienceVersion right
     | NodeApplication \<Rightarrow> nr_ApplicationID left = nr_ApplicationID right
     | NodeGitObject \<Rightarrow> nr_GitObject left = nr_GitObject right
     | _ \<Rightarrow> False)"

definition containsNode :: "NodeRef list \<Rightarrow> NodeRef \<Rightarrow> bool" where
  "containsNode refs want = list_ex (\<lambda>ref. candidate_sameNode ref want) refs"

definition sameNodeSet :: "NodeRef list \<Rightarrow> NodeRef list \<Rightarrow> bool" where
  "sameNodeSet left right =
    (if length left \<noteq> length right then False
     else if \<not> list_all (containsNode right) left then False
     else list_all (containsNode left) right)"

definition nodeRefsOverlap :: "NodeRef list \<Rightarrow> NodeRef list \<Rightarrow> bool" where
  "nodeRefsOverlap left right = list_ex (containsNode right) left"

definition validEpisodeTurnRef :: "NodeRef \<Rightarrow> gostring \<Rightarrow> bool" where
  "validEpisodeTurnRef ref sessionKey \<longleftrightarrow>
    nr_Kind ref = NodeTranscriptTurn \<and> nr_SessionKey ref = sessionKey \<and>
    (case nr_TurnIndex ref of None \<Rightarrow> False | Some i \<Rightarrow> i \<ge> 0)"

text \<open>
  \<open>m[k] = v\<close> on a map that is later ranged over; the results are sorted by the key, so that the
  order of the range does not matter.
\<close>

fun map_put :: "('k \<times> 'v) list \<Rightarrow> 'k \<Rightarrow> 'v \<Rightarrow> ('k \<times> 'v) list" where
  "map_put [] k v = [(k, v)]"
| "map_put ((k', v') # m) k v = (if k' = k then (k, v) # m else (k', v') # map_put m k v)"

definition normalizeEpisodeNodeRefs :: "episode_encoder \<Rightarrow> (NodeRef \<Rightarrow> bool) \<Rightarrow> NodeRef list \<Rightarrow> NodeRef list" where
  "normalizeEpisodeNodeRefs J keep refs =
    map snd (sort_key fst (foldl (\<lambda>unique ref. map_put unique (enc_noderef J ref) ref) [] (filter keep refs)))"

definition normalizeStrings :: "gostring list \<Rightarrow> gostring list" where
  "normalizeStrings values = sort (remdups (filter (\<lambda>v. v \<noteq> []) (map trim_space values)))"

definition procedureRecordKey :: "episode_encoder \<Rightarrow> successfulProcedureRecord \<Rightarrow> gostring" where
  "procedureRecordKey J record = enc_record J record"

text \<open>\<open>procedureRecordLess\<close> as the key it compares by.\<close>

definition procedure_order ::
    "episode_encoder \<Rightarrow> successfulProcedureRecord \<Rightarrow> gostring \<times> int \<times> gostring \<times> gostring \<times> gostring" where
  "procedure_order J record = (spr_SessionKey record, spr_VerifierTurn record, spr_CommandClass record,
    spr_RawCommand record, procedureRecordKey J record)"

definition turnIndexOf :: "NodeRef \<Rightarrow> int" where
  "turnIndexOf ref = (case nr_TurnIndex ref of None \<Rightarrow> 0 | Some i \<Rightarrow> i)"

definition trimmedRecord :: "episode_encoder \<Rightarrow> successfulProcedureRecord \<Rightarrow> successfulProcedureRecord" where
  "trimmedRecord J record =
    (let session = trim_space (spr_SessionKey record) in
     record\<lparr>spr_SessionKey := session,
       spr_OutcomeID := trim_space (spr_OutcomeID record),
       spr_ContinuesOutcomeID := trim_space (spr_ContinuesOutcomeID record),
       spr_CommandClass := trim_space (spr_CommandClass record),
       spr_RawCommand := trim_space (spr_RawCommand record),
       spr_VerifierTurn := turnIndexOf (spr_VerifierCallRef record),
       spr_MutationRefs := normalizeEpisodeNodeRefs J (\<lambda>ref. validEpisodeTurnRef ref session) (spr_MutationRefs record),
       spr_MutationPaths := normalizeStrings (spr_MutationPaths record),
       spr_ContinuityRefs := normalizeEpisodeNodeRefs J (\<lambda>ref. validEpisodeTurnRef ref session) (spr_ContinuityRefs record),
       spr_EvidenceRefs := normalizeEpisodeNodeRefs J (\<lambda>ref. True) (spr_EvidenceRefs record)\<rparr>)"

definition normalizedRecord :: "episode_encoder \<Rightarrow> successfulProcedureRecord \<Rightarrow> successfulProcedureRecord option" where
  "normalizedRecord J record =
    (let session = trim_space (spr_SessionKey record) in
     if \<not> validEpisodeTurnRef (spr_VerifierCallRef record) session \<or>
       \<not> validEpisodeTurnRef (spr_VerifierResultRef record) session then None
     else
       let record = trimmedRecord J record in
       if spr_SessionKey record = [] \<or> spr_OutcomeID record = [] \<or> spr_CommandClass record = [] \<or>
         spr_RawCommand record = [] \<or> length (spr_MutationRefs record) = 0 then None
       else Some record)"

definition normalizeProcedureRecords ::
    "episode_encoder \<Rightarrow> successfulProcedureRecord list \<Rightarrow> successfulProcedureRecord list" where
  "normalizeProcedureRecords J input =
    sort_key (procedure_order J) (map snd
      (foldl (\<lambda>unique record. case normalizedRecord J record of
          None \<Rightarrow> unique
        | Some record \<Rightarrow> map_put unique (procedureRecordKey J record) record) [] input))"

section \<open>Union-find\<close>

partial_function (option) find_root :: "nat list \<Rightarrow> nat \<Rightarrow> (nat list \<times> nat) option" where
  "find_root parent index =
    (if parent ! index \<noteq> index
     then Option.bind (find_root parent (parent ! index)) (\<lambda>(parent, root). Some (parent[index := root], root))
     else Some (parent, index))"

declare find_root.simps [code]

definition union_roots :: "nat list \<Rightarrow> nat \<Rightarrow> nat \<Rightarrow> nat list option" where
  "union_roots parent left right =
    Option.bind (find_root parent left) (\<lambda>(parent, leftRoot).
    Option.bind (find_root parent right) (\<lambda>(parent, rightRoot).
      Some (if leftRoot \<noteq> rightRoot then parent[rightRoot := leftRoot] else parent)))"

definition linked :: "successfulProcedureRecord \<Rightarrow> successfulProcedureRecord \<Rightarrow> bool" where
  "linked left right \<longleftrightarrow>
    spr_SessionKey left = spr_SessionKey right \<and>
    (nodeRefsOverlap (spr_MutationRefs left) (spr_MutationRefs right) \<or>
     spr_ContinuesOutcomeID right = spr_OutcomeID left \<or>
     spr_ContinuesOutcomeID left = spr_OutcomeID right)"

definition joinPair ::
    "successfulProcedureRecord list \<Rightarrow> nat list option \<Rightarrow> nat \<times> nat \<Rightarrow> nat list option" where
  "joinPair records parent pair = (case pair of (left, right) \<Rightarrow>
     if linked (records ! left) (records ! right)
     then Option.bind parent (\<lambda>parent. union_roots parent left right)
     else parent)"

definition index_pairs :: "nat \<Rightarrow> (nat \<times> nat) list" where
  "index_pairs n = concat (map (\<lambda>left. map (Pair left) [Suc left..<n]) [0..<n])"

definition joinRecords :: "successfulProcedureRecord list \<Rightarrow> nat list option" where
  "joinRecords records =
    foldl (joinPair records) (Some [0..<length records]) (index_pairs (length records))"

text \<open>Grouping by root, compressing paths as it goes.\<close>

definition groupStep ::
    "successfulProcedureRecord list \<Rightarrow> (nat list \<times> (nat \<times> successfulProcedureRecord list) list) option \<Rightarrow> nat \<Rightarrow>
      (nat list \<times> (nat \<times> successfulProcedureRecord list) list) option" where
  "groupStep records s index =
    Option.bind s (\<lambda>(parent, grouped).
    Option.bind (find_root parent index) (\<lambda>(parent, root).
      Some (parent, map_append grouped root (records ! index))))"

definition groupRecords ::
    "successfulProcedureRecord list \<Rightarrow> (nat \<times> successfulProcedureRecord list) list option" where
  "groupRecords records =
    Option.bind (joinRecords records) (\<lambda>parent.
      map_option snd (foldl (groupStep records) (Some (parent, [])) [0..<length records]))"

section \<open>Episodes\<close>

definition preferredAnchor ::
    "episode_encoder \<Rightarrow> successfulProcedureRecord \<Rightarrow> successfulProcedureRecord \<Rightarrow> int \<Rightarrow> bool" where
  "preferredAnchor J candidate current finalMutationTurn =
    (let candidateAfter = spr_VerifierTurn candidate > finalMutationTurn;
         currentAfter = spr_VerifierTurn current > finalMutationTurn in
     if candidateAfter \<noteq> currentAfter then candidateAfter
     else if spr_UserRequested candidate \<noteq> spr_UserRequested current then spr_UserRequested candidate
     else if spr_ProjectConfigured candidate \<noteq> spr_ProjectConfigured current then spr_ProjectConfigured candidate
     else if spr_VerifierTurn candidate \<noteq> spr_VerifierTurn current
       then spr_VerifierTurn candidate > spr_VerifierTurn current
     else if spr_CommandClass candidate \<noteq> spr_CommandClass current
       then spr_CommandClass candidate < spr_CommandClass current
     else if spr_RawCommand candidate \<noteq> spr_RawCommand current
       then spr_RawCommand candidate < spr_RawCommand current
     else procedureRecordKey J candidate < procedureRecordKey J current)"

definition selectAnchorVerifier :: "episode_encoder \<Rightarrow> successfulProcedureRecord list \<Rightarrow> int \<Rightarrow> nat" where
  "selectAnchorVerifier J records finalMutationTurn =
    foldl (\<lambda>best index. if preferredAnchor J (records ! index) (records ! best) finalMutationTurn then index else best)
      0 [1..<length records]"

definition deterministicEvidenceEpisodeID :: "episode_encoder \<Rightarrow> evidenceEpisode \<Rightarrow> gostring" where
  "deterministicEvidenceEpisodeID J episode =
    ''epe_'' @ to_lower (enc_episode J \<lparr>epp_SessionKey = epi_SessionKey episode,
      epp_FirstTurn = epi_FirstTurn episode, epp_LastTurn = epi_LastTurn episode,
      epp_MutationRefs = epi_MutationRefs episode,
      epp_VerificationRefs = normalizeEpisodeNodeRefs J (\<lambda>ref. True)
        (concat (map (\<lambda>r. [spr_VerifierCallRef r, spr_VerifierResultRef r]) (epi_Anchor episode # epi_Supporting episode))),
      epp_OutcomeIDs = epi_OutcomeIDs episode\<rparr>)"

text \<open>The least turn, below a start of -1 that stands for none.\<close>

definition earlier :: "int \<Rightarrow> int \<Rightarrow> int" where
  "earlier first turn = (if first < 0 \<or> turn < first then turn else first)"

definition later :: "int \<Rightarrow> int \<Rightarrow> int" where
  "later latest turn = (if turn > latest then turn else latest)"

definition newEvidenceEpisode ::
    "episode_encoder \<Rightarrow> successfulProcedureRecord list \<Rightarrow> evidenceEpisode option" where
  "newEvidenceEpisode J members =
    (if members = [] then None
     else
       let records = sort_key (procedure_order J) members;
           mutationTurns = map turnIndexOf (concat (map spr_MutationRefs records));
           firstTurn = foldl earlier (- 1) mutationTurns;
           finalMutationTurn = foldl later (- 1) mutationTurns;
           lastTurn = foldl (\<lambda>latest r. later (later latest (spr_VerifierTurn r)) (turnIndexOf (spr_VerifierResultRef r)))
             (- 1) records;
           generatedAt = foldl later time_zero (map spr_GeneratedAt records);
           anchorIndex = selectAnchorVerifier J records finalMutationTurn;
           episode = \<lparr>epi_EpisodeID = [], epi_SessionKey = spr_SessionKey (records ! 0), epi_FirstTurn = firstTurn,
             epi_LastTurn = lastTurn,
             epi_MutationRefs = normalizeEpisodeNodeRefs J (\<lambda>ref. True) (concat (map spr_MutationRefs records)),
             epi_EvidenceRefs = normalizeEpisodeNodeRefs J (\<lambda>ref. True)
               (concat (map (\<lambda>r. spr_EvidenceRefs r @ spr_ContinuityRefs r @
                  [spr_VerifierCallRef r, spr_VerifierResultRef r]) records)),
             epi_OutcomeIDs = normalizeStrings (map spr_OutcomeID records),
             epi_Anchor = records ! anchorIndex,
             epi_Supporting = map (nth records) (filter (\<lambda>index. index \<noteq> anchorIndex) [0..<length records]),
             epi_GeneratedAt = generatedAt\<rparr>
       in Some (episode\<lparr>epi_EpisodeID := deterministicEvidenceEpisodeID J episode\<rparr>))"

definition episode_order :: "evidenceEpisode \<Rightarrow> gostring \<times> int \<times> int \<times> gostring" where
  "episode_order episode =
    (epi_SessionKey episode, epi_FirstTurn episode, epi_LastTurn episode, epi_EpisodeID episode)"

text \<open>The groups are ranged over in the order \<open>order\<close>. An episode always has an identifier.\<close>

definition buildEvidenceEpisodes ::
    "episode_encoder \<Rightarrow> ((nat \<times> successfulProcedureRecord list) list \<Rightarrow> (nat \<times> successfulProcedureRecord list) list) \<Rightarrow>
      successfulProcedureRecord list \<Rightarrow> evidenceEpisode list option" where
  "buildEvidenceEpisodes J order input =
    (let records = normalizeProcedureRecords J input in
     if records = [] then Some []
     else Option.bind (groupRecords records) (\<lambda>grouped.
       Some (sort_key episode_order (concat (map (\<lambda>(root, members).
         case newEvidenceEpisode J members of None \<Rightarrow> [] | Some episode \<Rightarrow> [episode]) (order grouped))))))"

end
