(* ===== verification/Cand_Compile.thy ===== *)
theory Cand_Compile
  imports Cand_Episode
begin

text \<open>
  The candidate compiler (\<open>internal/experience/candidatecompiler/compiler.go\<close>): from the turns,
  edges and outcomes of a project it compiles inert candidates for experiences, of three families. The text
  rules over transcripts are those of the derivation, with the class and command of a verification turn; the
  JSON texts and digests are parameters. The turns and candidates are maps in the code: the map of turns is ranged
  over to collect the turns of a session, which are then sorted by their distinct indexes, and the candidates
  are sorted by their distinct identifiers.
\<close>

abbreviation CompileExtractorVersion :: gostring where
  "CompileExtractorVersion \<equiv> ''belay.experience-candidate.det.v6''"
abbreviation maxCandidateEvidenceRefs :: nat where "maxCandidateEvidenceRefs \<equiv> 32"
abbreviation maxCandidateOutcomeRefs :: nat where "maxCandidateOutcomeRefs \<equiv> 16"
abbreviation maxCandidateExcerptBytes :: nat where "maxCandidateExcerptBytes \<equiv> 16384"
abbreviation maxProcedureContinuationTurns :: int where "maxProcedureContinuationTurns \<equiv> 64"
abbreviation commandScrubbingVersion :: gostring where "commandScrubbingVersion \<equiv> ''belay.redaction.v1''"
abbreviation pendingSemanticGuidance :: gostring where
  "pendingSemanticGuidance \<equiv> ''Pending semantic compilation; do not apply as agent guidance.''"
abbreviation pendingSemanticRationale :: gostring where
  "pendingSemanticRationale \<equiv> ''Deterministic evidence establishes a candidate family only; semantic guidance has not been generated.''"
abbreviation pendingSemanticScope :: gostring where
  "pendingSemanticScope \<equiv> ''Applicability has not yet been semantically compiled beyond the cited project evidence.''"
abbreviation observationOnlyVerifier :: gostring where
  "observationOnlyVerifier \<equiv> ''Retain the cited observations for later semantic compilation and user review.''"

record CompileInput =
  ci_ProjectIdentity :: gostring
  ci_Turns :: "Turn list"
  ci_Edges :: "Edge list"
  ci_Outcomes :: "Outcome list"

text \<open>
  The text rules, with the class and command that \<open>RetainedVerificationCommand\<close> finds under the
  configuration of the project of a session key.
\<close>

record compile_rules = text_rules +
  cr_VerificationCommand :: "gostring \<Rightarrow> Turn \<Rightarrow> (gostring \<times> gostring) option"

record compile_encoder =
  ce_experience :: encoder
  ce_trajectory :: trajectory_encoder
  ce_episode :: episode_encoder
  ce_input :: "CandidateFamily \<times> gostring \<times> EvidenceSet \<times> gostring list \<Rightarrow> gostring"

type_synonym turnKey = "gostring \<times> int"

record compiler =
  cp_projectIdentity :: gostring
  cp_turns :: "Turn list"
  cp_ambiguousTurns :: "turnKey list"
  cp_edges :: "Edge list"
  cp_outcomes :: "Outcome list"

type_synonym candidate_map = "(gostring \<times> Candidate) list"

datatype compile_error =
  ErrProjectIdentity | ErrInvalidEdge | ErrInvalidOutcome
| ErrCorrectionCandidate | ErrProcedureCandidate | ErrApproachCandidate

section \<open>Turns\<close>

definition turnKeyOf :: "Turn \<Rightarrow> turnKey" where
  "turnKeyOf turn = (tn_SessionKey turn, tn_TurnIndex turn)"

definition indexTurn :: "Turn list \<times> turnKey list \<Rightarrow> Turn \<Rightarrow> Turn list \<times> turnKey list" where
  "indexTurn s turn = (case s of (turns, ambiguous) \<Rightarrow>
     if turnKeyOf turn \<in> set (map turnKeyOf turns)
     then (filter (\<lambda>t. turnKeyOf t \<noteq> turnKeyOf turn) turns, turnKeyOf turn # ambiguous)
     else if turnKeyOf turn \<notin> set ambiguous then (turns @ [turn], ambiguous)
     else (turns, ambiguous))"

definition lookupTurn :: "compiler \<Rightarrow> NodeRef \<Rightarrow> Turn option" where
  "lookupTurn P ref =
    (case nr_TurnIndex ref of
       None \<Rightarrow> None
     | Some index \<Rightarrow>
         if nr_Kind ref \<noteq> NodeTranscriptTurn \<or> (nr_SessionKey ref, index) \<in> set (cp_ambiguousTurns P) then None
         else find (\<lambda>t. turnKeyOf t = (nr_SessionKey ref, index)) (cp_turns P))"

definition sessionTurns :: "compiler \<Rightarrow> gostring \<Rightarrow> Turn list" where
  "sessionTurns P sessionKey = sort_key tn_TurnIndex (filter (\<lambda>t. tn_SessionKey t = sessionKey) (cp_turns P))"

fun Role_text :: "Role \<Rightarrow> gostring" where
  "Role_text RoleUser = ''user''"
| "Role_text RoleAssistant = ''assistant''"
| "Role_text RoleToolCall = ''tool_call''"
| "Role_text RoleToolResult = ''tool_result''"
| "Role_text RoleSystem = ''system''"
| "Role_text RoleCompactionSummary = ''compaction_summary''"
| "Role_text (RoleOther s) = s"

definition maxTime :: "time list \<Rightarrow> time" where
  "maxTime values = foldl later time_zero values"

section \<open>Evidence\<close>

text \<open>Cutting at a byte limit, then back to the last prefix that is valid UTF-8.\<close>

function dropInvalid :: "gostring \<Rightarrow> gostring" where
  "dropInvalid value = (if utf8_valid value then value else dropInvalid (butlast value))"
  by pat_completeness auto
termination
proof (relation "measure length")
  show "wf (measure length)" by simp
  fix v assume "\<not> utf8_valid v"
  then show "(butlast v, v) \<in> measure length" by (cases v) auto
qed

declare dropInvalid.simps [simp del]

definition truncateUTF8 :: "gostring \<Rightarrow> nat \<Rightarrow> gostring" where
  "truncateUTF8 value limit = (if length value \<le> limit then value else dropInvalid (take limit value))"

definition turnExcerpt :: "Turn \<Rightarrow> gostring" where
  "turnExcerpt turn =
    (let p = tn_Payload turn in
     case find (\<lambda>v. v \<noteq> []) (map trim_space [pl_Text p, pl_RawCommand p, pl_ToolResult p, pl_ToolInput p]) of
       None \<Rightarrow> []
     | Some value \<Rightarrow> truncateUTF8 value maxCandidateExcerptBytes)"

definition emptyRef :: "EvidenceSourceKind \<Rightarrow> EvidenceRef" where
  "emptyRef kind = \<lparr>er_Kind = kind, er_SessionKey = [], er_TurnIndex = None, er_TurnRole = None, er_ToolName = [],
     er_EventID = [], er_OutcomeID = [], er_Path = [], er_SHA256 = [], er_RecordedBy = [], er_OccurredAt = None,
     er_Excerpt = []\<rparr>"

definition evidenceRef :: "compiler \<Rightarrow> NodeRef \<Rightarrow> EvidenceRef option" where
  "evidenceRef P ref =
    (case nr_Kind ref of
       NodeTranscriptTurn \<Rightarrow>
         (case lookupTurn P ref of
            None \<Rightarrow> None
          | Some turn \<Rightarrow> Some ((emptyRef EvidenceTranscriptTurn)\<lparr>er_SessionKey := tn_SessionKey turn,
              er_TurnIndex := Some (tn_TurnIndex turn), er_TurnRole := turnRoleOf (Role_text (tn_Role turn)),
              er_ToolName := tn_ToolName turn, er_OccurredAt := Some (tn_OccurredAt turn),
              er_Excerpt := turnExcerpt turn\<rparr>))
     | NodeCanonicalEvent \<Rightarrow> Some ((emptyRef EvidenceCanonicalEvent)\<lparr>er_EventID := nr_EventID ref\<rparr>)
     | NodeOutcome \<Rightarrow> Some ((emptyRef EvidenceOutcomeObservation)\<lparr>er_OutcomeID := nr_OutcomeID ref\<rparr>)
     | _ \<Rightarrow> None)"

definition appendRef :: "encoder \<Rightarrow> EvidenceRef list \<Rightarrow> EvidenceRef \<Rightarrow> EvidenceRef list" where
  "appendRef E evidence ref =
    (if length evidence \<ge> maxCandidateEvidenceRefs then evidence
     else if enc_ref E ref \<in> enc_ref E ` set evidence then evidence
     else evidence @ [ref])"

definition outcomeRef :: "Outcome \<Rightarrow> EvidenceRef" where
  "outcomeRef outcome = (emptyRef EvidenceOutcomeObservation)
     \<lparr>er_OutcomeID := oc_OutcomeID outcome, er_OccurredAt := Some (oc_OccurredAt outcome)\<rparr>"

definition evidenceSet ::
    "encoder \<Rightarrow> compiler \<Rightarrow> NodeRef list \<Rightarrow> Outcome list \<Rightarrow> EvidenceSet option" where
  "evidenceSet E P refs outcomes =
    (let converted = map (evidenceRef P) refs in
     if None \<in> set converted then None
     else
       let evidence = foldl (appendRef E) [] (map outcomeRef outcomes @ map the converted) in
       if evidence = [] then None
       else
         let value = \<lparr>es_EvidenceSetID = [], es_Availability = EvidenceAvailable, es_Refs = sort_key (enc_ref E) evidence\<rparr>;
             value = value\<lparr>es_EvidenceSetID := EvidenceSet_DeterministicID E value\<rparr> in
         if EvidenceSet_Validate E value then Some value else None)"

section \<open>Candidates\<close>

definition cappedStrings :: "gostring list \<Rightarrow> nat \<Rightarrow> gostring list" where
  "cappedStrings values limit = take limit (sort (remdups (filter (\<lambda>v. v \<noteq> []) (map trim_space values))))"

definition emptyVerifier :: "VerifierKind \<Rightarrow> Verifier" where
  "emptyVerifier kind = \<lparr>vf_Kind = kind, vf_CoverageRequirements = [], vf_Command = None, vf_File = None,
     vf_PathPattern = None, vf_VerificationAfterLastEdit = None, vf_NoRepeatFailure = None,
     vf_UserCorrectionAbsent = None, vf_ObservationOnly = None\<rparr>"

definition observationVerifier :: Verifier where
  "observationVerifier = (emptyVerifier VerifierObservationOnly)
     \<lparr>vf_ObservationOnly := Some \<lparr>oos_Explanation = observationOnlyVerifier\<rparr>\<rparr>"

definition commandVerifier :: "successfulProcedureRecord \<Rightarrow> Verifier" where
  "commandVerifier anchor = (emptyVerifier VerifierCommandSucceeded)
     \<lparr>vf_Command := Some \<lparr>cvs_Command = spr_RawCommand anchor, cvs_CommandClass = spr_CommandClass anchor,
       cvs_ScrubbingVersion = commandScrubbingVersion\<rparr>\<rparr>"

definition pendingProposal :: "ExperienceType \<Rightarrow> gostring \<Rightarrow> Verifier \<Rightarrow> ExperienceProposal" where
  "pendingProposal experienceType projectIdentity verifier =
    \<lparr>xp_Type = experienceType,
     xp_Scope = \<lparr>scp_Kind = ScopeProject, scp_ProjectIdentity = projectIdentity, scp_SessionKey = [],
       scp_RepositoryPaths = [], scp_TaskFamilies = [], scp_Harnesses = [], scp_Models = []\<rparr>,
     xp_Applicability = \<lparr>apl_SemanticDescription = pendingSemanticScope, apl_DeterministicConditions = [],
       apl_Exclusions = [], apl_ExpiresAt = None\<rparr>,
     xp_Guidance = \<lparr>gd_Instruction = pendingSemanticGuidance, gd_Rationale = pendingSemanticRationale,
       gd_Exceptions = [], gd_InterventionStrength = InterventionObserve\<rparr>,
     xp_Verifier = verifier, xp_EvidenceSupport = None, xp_Confidence = None, xp_SemanticCompilationPending = True\<rparr>"

definition newCandidate ::
    "compile_encoder \<Rightarrow> CandidateFamily \<Rightarrow> gostring \<Rightarrow> gostring \<Rightarrow> gostring \<Rightarrow> EvidenceSet \<Rightarrow> gostring list \<Rightarrow>
      ExperienceProposal \<Rightarrow> time \<Rightarrow> Candidate option" where
  "newCandidate J family projectIdentity observedBehavior userFeedback evidence refs proposal generatedAt =
    (let outcomeRefs = cappedStrings refs maxCandidateOutcomeRefs in
     if generatedAt = time_zero then None
     else
       let candidate = \<lparr>cd_SchemaVersion = CandidateSchemaVersion, cd_CandidateID = [], cd_Family = family,
             cd_ProjectIdentity = projectIdentity, cd_ObservedBehavior = observedBehavior,
             cd_UserFeedback = userFeedback, cd_Evidence = evidence, cd_OutcomeRefs = outcomeRefs,
             cd_ExistingRefs = [], cd_Proposal = proposal,
             cd_Provenance = \<lparr>prv_ExtractorVersion = CompileExtractorVersion, prv_Harness = None, prv_Model = [],
               prv_PromptVersion = [], prv_InputHash = ''sha256:'' @ ce_input J (family, projectIdentity, evidence, outcomeRefs),
               prv_SourceCandidateID = [], prv_GeneratedAt = generatedAt\<rparr>,
             cd_Authority = AuthorityNone, cd_LifecycleState = LifecycleCandidate, cd_CreatedAt = generatedAt\<rparr>;
           candidate = candidate\<lparr>cd_CandidateID := Candidate_DeterministicID (ce_experience J) candidate\<rparr> in
       if Candidate_Validate (ce_experience J) candidate then Some candidate else None)"

definition qualifyingOutcome :: "Outcome \<Rightarrow> OutcomeKind \<Rightarrow> OutcomeResult \<Rightarrow> bool" where
  "qualifyingOutcome outcome kind res \<longleftrightarrow>
    oc_Kind outcome = kind \<and> oc_Result outcome = res \<and>
    oc_EvidenceClass outcome = EvidenceDeterministicInference \<and> oc_Confidence outcome = ConfidenceHigh"

section \<open>Corrections\<close>

type_synonym located = "(Turn \<times> NodeRef) option"

definition correctionRef ::
    "compiler \<Rightarrow> Outcome \<Rightarrow> (located \<times> located) option \<Rightarrow> NodeRef \<Rightarrow> (located \<times> located) option" where
  "correctionRef P outcome s ref =
    Option.bind s (\<lambda>(behavior, user).
      case lookupTurn P ref of
        None \<Rightarrow> None
      | Some turn \<Rightarrow>
          if tn_SessionKey turn \<noteq> oc_SessionKey outcome then None
          else case tn_Role turn of
            RoleUser \<Rightarrow> if user \<noteq> None then None else Some (behavior, Some (turn, ref))
          | RoleAssistant \<Rightarrow> if behavior \<noteq> None then None else Some (Some (turn, ref), user)
          | RoleToolCall \<Rightarrow> if behavior \<noteq> None then None else Some (Some (turn, ref), user)
          | RoleToolResult \<Rightarrow> if behavior \<noteq> None then None else Some (Some (turn, ref), user)
          | _ \<Rightarrow> None)"

definition correctionTurns :: "compiler \<Rightarrow> Outcome \<Rightarrow> (Turn \<times> NodeRef \<times> Turn \<times> NodeRef) option" where
  "correctionTurns P outcome =
    (if length (oc_SourceRefs outcome) \<noteq> 2 then None
     else case foldl (correctionRef P outcome) (Some (None, None)) (oc_SourceRefs outcome) of
       Some (Some (behavior, behaviorRef), Some (user, userRef)) \<Rightarrow> Some (behavior, behaviorRef, user, userRef)
     | _ \<Rightarrow> None)"

text \<open>The fields an inferred edge shares with the outcome it supports.\<close>

definition inferredWith :: "Outcome \<Rightarrow> EdgeRelation \<Rightarrow> Edge \<Rightarrow> bool" where
  "inferredWith outcome relation edge \<longleftrightarrow>
    eg_ProjectIdentity edge = oc_ProjectIdentity outcome \<and> eg_SessionKey edge = oc_SessionKey outcome \<and>
    eg_Relation edge = relation \<and> eg_EvidenceClass edge = EvidenceDeterministicInference \<and>
    eg_Confidence edge = ConfidenceHigh \<and> eg_DerivationVersion edge = oc_DerivationVersion outcome"

definition hasExactInferenceEdge :: "compiler \<Rightarrow> Outcome \<Rightarrow> EdgeRelation \<Rightarrow> NodeRef \<Rightarrow> NodeRef \<Rightarrow> bool" where
  "hasExactInferenceEdge P outcome relation source target =
    list_ex (\<lambda>edge. inferredWith outcome relation edge \<and>
      candidate_sameNode (eg_From edge) source \<and> candidate_sameNode (eg_To edge) target \<and>
      containsNode (eg_SourceRefs edge) source \<and> containsNode (eg_SourceRefs edge) target) (cp_edges P)"

definition correctionCandidate ::
    "compile_encoder \<Rightarrow> 'x text_rules_scheme \<Rightarrow> compiler \<Rightarrow> Outcome \<Rightarrow> (compile_error + Candidate) option" where
  "correctionCandidate J C P outcome =
    (if \<not> qualifyingOutcome outcome OutcomeCorrection ResultObserved then None
     else case correctionTurns P outcome of
       None \<Rightarrow> None
     | Some (behavior, behaviorRef, user, userRef) \<Rightarrow>
         let userText = trim_space (pl_Text (tn_Payload user)) in
         if trim_space (pl_ParentToolUseID (tn_Payload user)) \<noteq> [] \<or> tr_IsMachineGeneratedEnvelope C userText \<or>
           tr_HighConfidenceCorrectionMarker C userText = [] \<or> length userText > maxCandidateExcerptBytes then None
         else if \<not> hasExactInferenceEdge P outcome RelationRespondsTo userRef behaviorRef \<or>
           \<not> hasExactInferenceEdge P outcome RelationCorrects userRef behaviorRef then None
         else case evidenceSet (ce_experience J) P [behaviorRef, userRef] [outcome] of
           None \<Rightarrow> None
         | Some evidence \<Rightarrow>
             (case newCandidate J CandidateCorrection (cp_projectIdentity P)
                ''The cited user turn explicitly corrected the immediately preceding agent behavior.'' userText evidence
                [oc_OutcomeID outcome]
                (pendingProposal ExperiencePreference (cp_projectIdentity P) observationVerifier)
                (maxTime [oc_OccurredAt outcome, tn_OccurredAt behavior, tn_OccurredAt user]) of
                None \<Rightarrow> Some (Inl ErrCorrectionCandidate)
              | Some candidate \<Rightarrow> Some (Inr candidate)))"

text \<open>A step that may skip, fail or add a candidate, over the items of a loop.\<close>

definition addCandidate ::
    "('a \<Rightarrow> (compile_error + Candidate) option) \<Rightarrow> compile_error + candidate_map \<Rightarrow> 'a \<Rightarrow> compile_error + candidate_map" where
  "addCandidate step s item =
    (case s of
       Inl e \<Rightarrow> Inl e
     | Inr candidates \<Rightarrow>
         (case step item of
            None \<Rightarrow> Inr candidates
          | Some (Inl e) \<Rightarrow> Inl e
          | Some (Inr candidate) \<Rightarrow> Inr (map_put candidates (cd_CandidateID candidate) candidate)))"

definition compileCorrections ::
    "compile_encoder \<Rightarrow> 'x text_rules_scheme \<Rightarrow> compiler \<Rightarrow> candidate_map \<Rightarrow> compile_error + candidate_map" where
  "compileCorrections J C P candidates =
    foldl (addCandidate (correctionCandidate J C P)) (Inr candidates) (cp_outcomes P)"

section \<open>Successful procedures\<close>

definition commandRef ::
    "compiler \<Rightarrow> Outcome \<Rightarrow> (located \<times> located) option \<Rightarrow> NodeRef \<Rightarrow> (located \<times> located) option" where
  "commandRef P outcome s ref =
    Option.bind s (\<lambda>(call, res).
      case lookupTurn P ref of
        None \<Rightarrow> None
      | Some turn \<Rightarrow>
          if tn_SessionKey turn \<noteq> oc_SessionKey outcome then None
          else case tn_Role turn of
            RoleToolCall \<Rightarrow> Some (Some (turn, ref), res)
          | RoleToolResult \<Rightarrow> Some (call, Some (turn, ref))
          | _ \<Rightarrow> Some (call, res))"

text \<open>\<open>commandOutcomeTurns\<close> with the exit code 0, the only one the code asks for.\<close>

definition commandOutcomeTurns :: "compiler \<Rightarrow> Outcome \<Rightarrow> (Turn \<times> NodeRef \<times> Turn \<times> NodeRef) option" where
  "commandOutcomeTurns P outcome =
    (if length (oc_SourceRefs outcome) \<noteq> 2 then None
     else case foldl (commandRef P outcome) (Some (None, None)) (oc_SourceRefs outcome) of
       Some (Some (call, callRef), Some (res, resultRef)) \<Rightarrow>
         if pl_ToolCallID (tn_Payload call) = [] \<or>
           pl_ToolCallID (tn_Payload call) \<noteq> pl_ToolCallID (tn_Payload res) \<or>
           ExplicitToolResultFailed res \<noteq> Some False then None
         else Some (call, callRef, res, resultRef)
     | _ \<Rightarrow> None)"

definition isMutationRef :: "'x text_rules_scheme \<Rightarrow> compiler \<Rightarrow> NodeRef \<Rightarrow> bool" where
  "isMutationRef C P ref =
    (case lookupTurn P ref of
       None \<Rightarrow> False
     | Some turn \<Rightarrow> tn_Role turn = RoleToolCall \<and> tr_ExtractEditedFiles C turn \<noteq> [])"

definition matchingVerificationEdges ::
    "'x text_rules_scheme \<Rightarrow> compiler \<Rightarrow> Outcome \<Rightarrow> NodeRef \<Rightarrow> Edge list" where
  "matchingVerificationEdges C P outcome callRef =
    filter (\<lambda>edge. inferredWith outcome RelationVerifies edge \<and>
      candidate_sameNode (eg_From edge) callRef \<and>
      (nr_Kind (eg_To edge) = NodeCanonicalEvent \<or> nr_Kind (eg_To edge) = NodeTranscriptTurn) \<and>
      containsNode (eg_SourceRefs edge) callRef \<and> containsNode (eg_SourceRefs edge) (eg_To edge) \<and>
      list_ex (isMutationRef C P) (eg_SourceRefs edge)) (cp_edges P)"

definition procedureRecord ::
    "'x compile_rules_scheme \<Rightarrow> compiler \<Rightarrow> Outcome \<Rightarrow> successfulProcedureRecord option" where
  "procedureRecord C P outcome =
    (if \<not> qualifyingOutcome outcome OutcomeVerificationPass ResultSucceeded then None
     else case commandOutcomeTurns P outcome of
       None \<Rightarrow> None
     | Some (call, callRef, res, resultRef) \<Rightarrow>
         (case cr_VerificationCommand C (oc_SessionKey outcome) call of
            None \<Rightarrow> None
          | Some (commandClass, rawCommand) \<Rightarrow>
              let verifies = matchingVerificationEdges C P outcome callRef in
              if verifies = [] then None
              else
                let mutationRefs = filter (isMutationRef C P) (concat (map eg_SourceRefs verifies)) in
                Some \<lparr>spr_SessionKey = oc_SessionKey outcome, spr_OutcomeID = oc_OutcomeID outcome,
                  spr_ContinuesOutcomeID = [], spr_VerifierCallRef = callRef, spr_VerifierResultRef = resultRef,
                  spr_VerifierTurn = tn_TurnIndex call, spr_CommandClass = commandClass, spr_RawCommand = rawCommand,
                  spr_UserRequested = False, spr_ProjectConfigured = False, spr_MutationRefs = mutationRefs,
                  spr_MutationPaths = concat (map (\<lambda>ref. case lookupTurn P ref of
                    None \<Rightarrow> [] | Some turn \<Rightarrow> tr_ExtractEditedFiles C turn) mutationRefs),
                  spr_ContinuityRefs = [],
                  spr_EvidenceRefs = [callRef, resultRef] @ concat (map eg_SourceRefs verifies),
                  spr_GeneratedAt = maxTime (oc_OccurredAt outcome # tn_OccurredAt call # tn_OccurredAt res #
                    map eg_OccurredAt verifies)\<rparr>))"

definition continuation_markers :: "gostring list" where
  "continuation_markers =
    [''rerun'', ''run verification again'', ''run the verification again'', ''tests pass'', ''test passes'',
     ''still '', ''still'' @ [CHR 0x0A], ''incorrectly'', ''you missed'', ''not fixed'', ''failed again'']"

definition procedureContinuationText :: "'x text_rules_scheme \<Rightarrow> gostring \<Rightarrow> bool" where
  "procedureContinuationText C v =
    (if tr_HighConfidenceCorrectionMarker C v \<noteq> [] then True
     else list_ex (contains_text (to_lower (trim_space v))) continuation_markers)"

definition stringSetsOverlap :: "gostring list \<Rightarrow> gostring list \<Rightarrow> bool" where
  "stringSetsOverlap left right =
    list_ex (\<lambda>v. trim_space v \<noteq> [] \<and> trim_space v \<in> trim_space ` set left) right"

definition procedureContinuationTurn ::
    "'x text_rules_scheme \<Rightarrow> compiler \<Rightarrow> successfulProcedureRecord \<Rightarrow> successfulProcedureRecord \<Rightarrow> Turn option" where
  "procedureContinuationTurn C P previous current =
    (case nr_TurnIndex (spr_VerifierResultRef previous) of
       None \<Rightarrow> None
     | Some resultTurn \<Rightarrow>
         find (\<lambda>turn. tn_Role turn = RoleUser \<and> trim_space (pl_ParentToolUseID (tn_Payload turn)) = [] \<and>
             tn_TurnIndex turn > resultTurn \<and> tn_TurnIndex turn < spr_VerifierTurn current \<and>
             procedureContinuationText C (pl_Text (tn_Payload turn)))
           (sessionTurns P (spr_SessionKey current)))"

text \<open>\<open>transcriptTurnNodeRef\<close> is the reference to a turn that the derivation makes, too.\<close>

definition transcriptTurnNodeRef :: "Turn \<Rightarrow> NodeRef" where
  "transcriptTurnNodeRef turn = \<lparr>nr_Kind = NodeTranscriptTurn, nr_EventID = [], nr_SessionKey = tn_SessionKey turn,
     nr_TurnIndex = Some (tn_TurnIndex turn), nr_OutcomeID = [], nr_ExperienceID = [],
     nr_ExperienceVersion = 0, nr_ApplicationID = [], nr_GitObject = []\<rparr>"

definition linkRecord ::
    "'x text_rules_scheme \<Rightarrow> compiler \<Rightarrow> successfulProcedureRecord \<Rightarrow> successfulProcedureRecord \<Rightarrow>
      successfulProcedureRecord" where
  "linkRecord C P previous current =
    (let gap = spr_VerifierTurn current - spr_VerifierTurn previous in
     if spr_SessionKey previous \<noteq> spr_SessionKey current \<or> gap \<le> 0 \<or> gap > maxProcedureContinuationTurns \<or>
       \<not> stringSetsOverlap (spr_MutationPaths previous) (spr_MutationPaths current) then current
     else case procedureContinuationTurn C P previous current of
       None \<Rightarrow> current
     | Some bridge \<Rightarrow>
         current\<lparr>spr_ContinuesOutcomeID := spr_OutcomeID previous,
           spr_ContinuityRefs := spr_ContinuityRefs current @ [transcriptTurnNodeRef bridge],
           spr_EvidenceRefs := spr_EvidenceRefs current @ [transcriptTurnNodeRef bridge]\<rparr>)"

fun linkFrom ::
    "'x text_rules_scheme \<Rightarrow> compiler \<Rightarrow> successfulProcedureRecord list \<Rightarrow> successfulProcedureRecord list" where
  "linkFrom C P (previous # current # rest) = previous # linkFrom C P (linkRecord C P previous current # rest)"
| "linkFrom C P records = records"

definition linkAdjacentProcedureRecords ::
    "episode_encoder \<Rightarrow> 'x text_rules_scheme \<Rightarrow> compiler \<Rightarrow> successfulProcedureRecord list \<Rightarrow>
      successfulProcedureRecord list" where
  "linkAdjacentProcedureRecords J C P records = linkFrom C P (sort_key (procedure_order J) records)"

definition usefulProcedureContextText :: "'x text_rules_scheme \<Rightarrow> gostring \<Rightarrow> bool" where
  "usefulProcedureContextText C v \<longleftrightarrow>
    trim_space v \<noteq> [] \<and> length (trim_space v) \<le> maxCandidateExcerptBytes \<and>
    \<not> tr_IsMachineGeneratedEnvelope C (trim_space v)"

record context_turns =
  cx_priorUser :: "Turn option"
  cx_followingUser :: "Turn option"
  cx_firstFollowingAssistant :: "Turn option"
  cx_followingAssistant :: "Turn option"

definition contextStep ::
    "'x text_rules_scheme \<Rightarrow> int \<Rightarrow> int \<Rightarrow> context_turns \<Rightarrow> Turn \<Rightarrow> context_turns" where
  "contextStep C minimum maximum s turn =
    (let useful = usefulProcedureContextText C (pl_Text (tn_Payload turn)); index = tn_TurnIndex turn in
     if trim_space (pl_ParentToolUseID (tn_Payload turn)) \<noteq> [] then s
     else if tn_Role turn = RoleUser \<and> index < minimum \<and> wrap64 (minimum - index) \<le> 64 \<and> useful
       then s\<lparr>cx_priorUser := Some turn\<rparr>
     else if tn_Role turn = RoleUser \<and> index > maximum \<and> wrap64 (index - maximum) \<le> 64 \<and>
         cx_followingUser s = None \<and> useful
       then s\<lparr>cx_followingUser := Some turn, cx_firstFollowingAssistant := None, cx_followingAssistant := None\<rparr>
     else if tn_Role turn = RoleAssistant \<and> index > maximum \<and> wrap64 (index - maximum) \<le> 64 \<and> useful
       then (case cx_followingUser s of
          None \<Rightarrow> s\<lparr>cx_followingAssistant := Some turn\<rparr>
        | Some user \<Rightarrow>
            if index < tn_TurnIndex user then s
            else s\<lparr>cx_firstFollowingAssistant :=
                (case cx_firstFollowingAssistant s of None \<Rightarrow> Some turn | Some first \<Rightarrow> Some first),
              cx_followingAssistant := Some turn\<rparr>)
     else s)"

definition successfulProcedureContextRefs ::
    "'x text_rules_scheme \<Rightarrow> compiler \<Rightarrow> gostring \<Rightarrow> NodeRef list \<Rightarrow> NodeRef list" where
  "successfulProcedureContextRefs C P sessionKey sourceRefs =
    (let indexes = map turnIndexOf (filter (\<lambda>ref. nr_Kind ref = NodeTranscriptTurn \<and>
           nr_SessionKey ref = sessionKey \<and> nr_TurnIndex ref \<noteq> None) sourceRefs);
         minimum = foldl earlier (- 1) indexes;
         maximum = foldl later (- 1) indexes in
     if minimum < 0 \<or> maximum < 0 then []
     else
       let s = foldl (contextStep C minimum maximum)
             \<lparr>cx_priorUser = None, cx_followingUser = None, cx_firstFollowingAssistant = None,
              cx_followingAssistant = None\<rparr> (sessionTurns P sessionKey) in
       concat (map (\<lambda>turn. case turn of None \<Rightarrow> [] | Some t \<Rightarrow> [transcriptTurnNodeRef t])
         [cx_priorUser s, cx_followingUser s, cx_firstFollowingAssistant s, cx_followingAssistant s]))"

definition outcomesByID :: "compiler \<Rightarrow> gostring list \<Rightarrow> Outcome list" where
  "outcomesByID P ids = sort_key oc_OutcomeID (filter (\<lambda>oc. oc_OutcomeID oc \<in> set ids) (cp_outcomes P))"

definition procedureCandidate ::
    "compile_encoder \<Rightarrow> 'x text_rules_scheme \<Rightarrow> compiler \<Rightarrow> evidenceEpisode \<Rightarrow> (compile_error + Candidate) option" where
  "procedureCandidate J C P episode =
    (let sourceRefs = epi_EvidenceRefs episode @
           successfulProcedureContextRefs C P (epi_SessionKey episode) (epi_EvidenceRefs episode);
         outcomes = outcomesByID P (epi_OutcomeIDs episode) in
     if length outcomes \<noteq> length (epi_OutcomeIDs episode) then None
     else case evidenceSet (ce_experience J) P sourceRefs outcomes of
       None \<Rightarrow> None
     | Some evidence \<Rightarrow>
         (case newCandidate J CandidateSuccessfulProcedure (cp_projectIdentity P)
            (if length (epi_Supporting episode) > 0
             then ''The cited verification commands succeeded after the same cited file mutations.''
             else ''The cited verification command succeeded after the cited file mutations.'') [] evidence
            (epi_OutcomeIDs episode)
            (pendingProposal ExperienceProcedure (cp_projectIdentity P) (commandVerifier (epi_Anchor episode)))
            (epi_GeneratedAt episode) of
            None \<Rightarrow> Some (Inl ErrProcedureCandidate)
          | Some candidate \<Rightarrow> Some (Inr candidate)))"

type_synonym group_order =
  "(nat \<times> successfulProcedureRecord list) list \<Rightarrow> (nat \<times> successfulProcedureRecord list) list"

definition procedureRecords :: "compile_encoder \<Rightarrow> 'x compile_rules_scheme \<Rightarrow> compiler \<Rightarrow> successfulProcedureRecord list" where
  "procedureRecords J C P = linkAdjacentProcedureRecords (ce_episode J) C P
    (concat (map (\<lambda>outcome. case procedureRecord C P outcome of None \<Rightarrow> [] | Some r \<Rightarrow> [r]) (cp_outcomes P)))"

definition compileSuccessfulProcedures ::
    "compile_encoder \<Rightarrow> 'x compile_rules_scheme \<Rightarrow> group_order \<Rightarrow> compiler \<Rightarrow> candidate_map \<Rightarrow>
      (compile_error + candidate_map) option" where
  "compileSuccessfulProcedures J C order P candidates =
    map_option (foldl (addCandidate (procedureCandidate J C P)) (Inr candidates))
      (buildEvidenceEpisodes (ce_episode J) order (procedureRecords J C P))"

section \<open>Failed approaches\<close>

definition matchingRepairEdges :: "compiler \<Rightarrow> Outcome \<Rightarrow> Edge list" where
  "matchingRepairEdges P outcome =
    filter (\<lambda>edge. inferredWith outcome RelationRepairs edge \<and>
      nr_Kind (eg_From edge) = NodeTranscriptTurn \<and> nr_Kind (eg_To edge) = NodeTranscriptTurn) (cp_edges P)"

text \<open>\<open>explicitResult\<close> with the exit codes 0 and not 0, the two the code asks for.\<close>

definition explicitResult :: "compiler \<Rightarrow> NodeRef list \<Rightarrow> Turn \<Rightarrow> bool \<Rightarrow> (Turn \<times> NodeRef) option" where
  "explicitResult P refs call failed =
    (case concat (map (\<lambda>ref. case lookupTurn P ref of
         None \<Rightarrow> []
       | Some turn \<Rightarrow>
           if tn_Role turn \<noteq> RoleToolResult \<or> pl_ToolCallID (tn_Payload call) = [] \<or>
             pl_ToolCallID (tn_Payload turn) \<noteq> pl_ToolCallID (tn_Payload call) \<or>
             ExplicitToolResultFailed turn \<noteq> Some failed then []
           else [(turn, ref)]) refs) of
       [match] \<Rightarrow> Some match
     | _ \<Rightarrow> None)"

definition differentRepair :: "'x text_rules_scheme \<Rightarrow> Turn \<Rightarrow> Turn \<Rightarrow> bool" where
  "differentRepair C failureCall successCall =
    (case (tr_NormalizedCommandSignature C failureCall, tr_NormalizedCommandSignature C successCall,
       tr_CommandRepairFamily C failureCall, tr_CommandRepairFamily C successCall) of
       (Some failureSignature, Some successSignature, Some failureFamily, Some successFamily) \<Rightarrow>
         \<not> (failureFamily \<noteq> successFamily \<or> failureSignature = successSignature)
     | _ \<Rightarrow> False)"

text \<open>The two calls of a repair and their results, when the edge and the repair agree on them.\<close>

definition repairTurns ::
    "'x text_rules_scheme \<Rightarrow> compiler \<Rightarrow> Outcome \<Rightarrow> Edge \<Rightarrow> (Turn \<times> Turn \<times> NodeRef \<times> Turn \<times> Turn) option" where
  "repairTurns C P repair edge =
    (if length (eg_SourceRefs edge) \<noteq> 4 \<or> \<not> containsNode (eg_SourceRefs edge) (eg_From edge) \<or>
       \<not> containsNode (eg_SourceRefs edge) (eg_To edge) then None
     else case (lookupTurn P (eg_To edge), lookupTurn P (eg_From edge)) of
       (Some failureCall, Some successCall) \<Rightarrow>
         if tn_Role failureCall \<noteq> RoleToolCall \<or> tn_Role successCall \<noteq> RoleToolCall then None
         else (case (explicitResult P (eg_SourceRefs edge) failureCall True,
             explicitResult P (eg_SourceRefs edge) successCall False) of
             (Some (failureResult, failureResultRef), Some (successResult, _)) \<Rightarrow>
               if \<not> tn_OccurredAt failureCall < tn_OccurredAt successCall then None
               else if \<not> differentRepair C failureCall successCall then None
               else if \<not> sameNodeSet (eg_SourceRefs edge) (oc_SourceRefs repair) then None
               else Some (failureCall, failureResult, failureResultRef, successCall, successResult)
           | _ \<Rightarrow> None)
     | _ \<Rightarrow> None)"

definition failedVerification :: "compiler \<Rightarrow> Outcome \<Rightarrow> Edge \<Rightarrow> NodeRef \<Rightarrow> Outcome option" where
  "failedVerification P repair edge failureResultRef =
    find (\<lambda>candidate. qualifyingOutcome candidate OutcomeVerificationFail ResultFailed \<and>
      oc_SessionKey candidate = oc_SessionKey repair \<and>
      containsNode (oc_SourceRefs candidate) (eg_To edge) \<and>
      containsNode (oc_SourceRefs candidate) failureResultRef) (cp_outcomes P)"

definition approachCandidate ::
    "compile_encoder \<Rightarrow> 'x text_rules_scheme \<Rightarrow> compiler \<Rightarrow> Outcome \<times> Edge \<Rightarrow> (compile_error + Candidate) option" where
  "approachCandidate J C P item = (case item of (repair, edge) \<Rightarrow>
     case repairTurns C P repair edge of
       None \<Rightarrow> None
     | Some (failureCall, failureResult, failureResultRef, successCall, successResult) \<Rightarrow>
         let outcomes = repair # (case failedVerification P repair edge failureResultRef of
               None \<Rightarrow> [] | Some candidate \<Rightarrow> [candidate]) in
         (case evidenceSet (ce_experience J) P (eg_SourceRefs edge) outcomes of
            None \<Rightarrow> None
          | Some evidence \<Rightarrow>
              (case newCandidate J CandidateFailedApproach (cp_projectIdentity P)
                 ''An explicit command failure was followed by a different successful command that repaired it.'' []
                 evidence (map oc_OutcomeID outcomes)
                 (pendingProposal ExperienceWarning (cp_projectIdentity P) observationVerifier)
                 (maxTime [oc_OccurredAt repair, eg_OccurredAt edge, tn_OccurredAt failureCall,
                   tn_OccurredAt failureResult, tn_OccurredAt successCall, tn_OccurredAt successResult]) of
                 None \<Rightarrow> Some (Inl ErrApproachCandidate)
               | Some candidate \<Rightarrow> Some (Inr candidate))))"

definition repairItems :: "compiler \<Rightarrow> (Outcome \<times> Edge) list" where
  "repairItems P = concat (map (\<lambda>repair. map (Pair repair) (matchingRepairEdges P repair))
    (filter (\<lambda>oc. qualifyingOutcome oc OutcomeRepair ResultSucceeded) (cp_outcomes P)))"

definition compileFailedApproaches ::
    "compile_encoder \<Rightarrow> 'x text_rules_scheme \<Rightarrow> compiler \<Rightarrow> candidate_map \<Rightarrow> compile_error + candidate_map" where
  "compileFailedApproaches J C P candidates =
    foldl (addCandidate (approachCandidate J C P)) (Inr candidates) (repairItems P)"

section \<open>Compilation\<close>

definition newCompiler :: "CompileInput \<Rightarrow> compiler" where
  "newCompiler input =
    (let project = trim_space (ci_ProjectIdentity input);
         (turns, ambiguous) = foldl indexTurn ([], []) (ci_Turns input) in
     \<lparr>cp_projectIdentity = project, cp_turns = turns, cp_ambiguousTurns = ambiguous,
      cp_edges = sort_key (\<lambda>e. (eg_OccurredAt e, eg_EdgeID e))
        (filter (\<lambda>e. eg_ProjectIdentity e = project) (ci_Edges input)),
      cp_outcomes = sort_key (\<lambda>oc. (oc_OccurredAt oc, oc_OutcomeID oc))
        (filter (\<lambda>oc. oc_ProjectIdentity oc = project) (ci_Outcomes input))\<rparr>)"

definition Compile ::
    "compile_encoder \<Rightarrow> 'x compile_rules_scheme \<Rightarrow> group_order \<Rightarrow> CompileInput \<Rightarrow> (compile_error + Candidate list) option" where
  "Compile J C order input =
    (if trim_space (ci_ProjectIdentity input) = [] then Some (Inl ErrProjectIdentity)
     else
       let P = newCompiler input in
       if \<not> list_all (Edge_Validate (ce_trajectory J)) (cp_edges P) then Some (Inl ErrInvalidEdge)
       else if \<not> list_all (Outcome_Validate (ce_trajectory J)) (cp_outcomes P) then Some (Inl ErrInvalidOutcome)
       else case compileCorrections J C P [] of
         Inl e \<Rightarrow> Some (Inl e)
       | Inr candidates \<Rightarrow>
           (case compileSuccessfulProcedures J C order P candidates of
              None \<Rightarrow> None
            | Some (Inl e) \<Rightarrow> Some (Inl e)
            | Some (Inr candidates) \<Rightarrow>
                (case compileFailedApproaches J C P candidates of
                   Inl e \<Rightarrow> Some (Inl e)
                 | Inr candidates \<Rightarrow> Some (Inr (sort_key cd_CandidateID (map snd candidates))))))"

end
