(* ===== verification/Cand_Groups.thy ===== *)
theory Cand_Groups
  imports Cand_Episode
begin

text \<open>
  The union-find of the episodes. Its forest stands for a function from elements to roots, the parents
  descend along a rank, and so \<open>find_root\<close> always returns; joining two elements merges their classes; and
  the groups that come out are the connected components of the links between the records.
\<close>

section \<open>Forests\<close>

definition forest :: "nat list \<Rightarrow> (nat \<Rightarrow> nat) \<Rightarrow> (nat \<Rightarrow> nat) \<Rightarrow> bool" where
  "forest parent rep rank \<longleftrightarrow>
    (\<forall>i<length parent. parent ! i < length parent \<and> rep (parent ! i) = rep i \<and>
      (if parent ! i = i then rep i = i else rank (parent ! i) < rank i))"

lemma forestD:
  assumes "forest parent rep rank" and "i < length parent"
  shows "parent ! i < length parent" "rep (parent ! i) = rep i"
    and "parent ! i = i \<Longrightarrow> rep i = i" "parent ! i \<noteq> i \<Longrightarrow> rank (parent ! i) < rank i"
  using assms by (auto simp: forest_def split: if_splits)

lemma forest_initial: "forest [0..<n] (\<lambda>i. i) (\<lambda>i. 0)"
  by (simp add: forest_def)

lemma find_root_returns:
  assumes "forest parent rep rank" and "i < length parent"
  shows "\<exists>parent'. find_root parent i = Some (parent', rep i) \<and> forest parent' rep rank \<and>
    length parent' = length parent \<and> rep i < length parent \<and> rank (rep i) \<le> rank i \<and>
    (rep i \<noteq> i \<longrightarrow> rank (rep i) < rank i) \<and> rep (rep i) = rep i \<and> parent' ! rep i = rep i"
  using assms(2)
proof (induction "rank i" arbitrary: i rule: less_induct)
  case less
  note f = forestD [OF assms(1) less.prems]
  show ?case
  proof (cases "parent ! i = i")
    case True
    then show ?thesis using f assms(1) less.prems by (subst find_root.simps) simp
  next
    case False
    let ?j = "parent ! i"
    have "rep ?j = rep i" by (rule f(2))
    with less.hyps [OF f(4) [OF False] f(1)] obtain p where p: "find_root parent ?j = Some (p, rep i)"
      "forest p rep rank" "length p = length parent" "rep i < length parent" "rank (rep i) \<le> rank ?j"
      "rep (rep i) = rep i" "p ! rep i = rep i" by auto
    have less_rank: "rank (rep i) < rank i" using p(5) f(4) [OF False] by linarith
    then have ne: "rep i \<noteq> i" by auto
    have "find_root parent i = Some (p[i := rep i], rep i)"
      using False p(1) by (subst find_root.simps) simp
    moreover have "forest (p[i := rep i]) rep rank"
      unfolding forest_def
    proof (intro allI impI)
      fix j assume "j < length (p[i := rep i])"
      then have j: "j < length p" by simp
      show "p[i := rep i] ! j < length (p[i := rep i]) \<and> rep (p[i := rep i] ! j) = rep j \<and>
        (if p[i := rep i] ! j = j then rep j = j else rank (p[i := rep i] ! j) < rank j)"
      proof (cases "j = i")
        case True
        with p(3,4,6) less_rank ne j show ?thesis by simp
      next
        case False
        with forestD [OF p(2) j] show ?thesis by simp
      qed
    qed
    moreover have "p[i := rep i] ! rep i = rep i" using p(7) ne by simp
    ultimately show ?thesis using p less_rank ne by (intro exI [of _ "p[i := rep i]"]) simp
  qed
qed

section \<open>Joining\<close>

definition joined :: "(nat \<Rightarrow> nat) \<Rightarrow> nat \<Rightarrow> nat \<Rightarrow> nat \<Rightarrow> nat" where
  "joined rep left right i = (if rep i = rep right then rep left else rep i)"

lemma union_roots_returns:
  assumes "forest parent rep rank" and "left < length parent" and "right < length parent"
  shows "\<exists>parent' rank'. union_roots parent left right = Some parent' \<and> length parent' = length parent \<and>
    forest parent' (joined rep left right) rank'"
proof -
  obtain p where p: "find_root parent left = Some (p, rep left)" "forest p rep rank" "length p = length parent"
    "rep left < length parent" "rep (rep left) = rep left"
    using find_root_returns [OF assms(1,2)] by blast
  obtain q where q: "find_root p right = Some (q, rep right)" "forest q rep rank" "length q = length parent"
    "rep right < length parent" "rep (rep right) = rep right" "q ! rep right = rep right"
    using find_root_returns [OF p(2), of right] p(3) assms(3) by auto
  show ?thesis
  proof (cases "rep left = rep right")
    case True
    then have "joined rep left right = rep" by (rule_tac ext) (simp add: joined_def)
    with True p q show ?thesis by (auto simp: union_roots_def)
  next
    case False
    let ?rank = "\<lambda>i. if rep i = rep right then rank i + rank (rep left) + 1 else rank i"
    have "forest (q[rep right := rep left]) (joined rep left right) ?rank"
      unfolding forest_def
    proof (intro allI impI)
      fix i assume "i < length (q[rep right := rep left])"
      then have i: "i < length q" by simp
      note f = forestD [OF q(2) i]
      show "q[rep right := rep left] ! i < length (q[rep right := rep left]) \<and>
        joined rep left right (q[rep right := rep left] ! i) = joined rep left right i \<and>
        (if q[rep right := rep left] ! i = i then joined rep left right i = i
         else ?rank (q[rep right := rep left] ! i) < ?rank i)"
      proof (cases "i = rep right")
        case True
        with False p q i show ?thesis by (auto simp: joined_def)
      next
        case ne: False
        then have e: "q[rep right := rep left] ! i = q ! i" by simp
        show ?thesis
        proof (cases "q ! i = i")
          case True
          then have "rep i = i" by (rule f(3))
          with True ne e f i show ?thesis by (auto simp: joined_def)
        next
          case False
          with e f i show ?thesis by (auto simp: joined_def)
        qed
      qed
    qed
    with False p q show ?thesis by (auto simp: union_roots_def)
  qed
qed

section \<open>Connected components\<close>

definition connected :: "(nat \<times> nat) set \<Rightarrow> nat \<Rightarrow> nat \<Rightarrow> bool" where
  "connected E i j \<longleftrightarrow> (i, j) \<in> (E \<union> E\<inverse>)\<^sup>*"

lemma connected_refl [simp]: "connected E i i"
  by (simp add: connected_def)

lemma connected_sym: "connected E i j \<Longrightarrow> connected E j i"
  unfolding connected_def by (metis converse_converse converse_Un rtrancl_converseI sup_commute)

lemma connected_trans: "connected E i j \<Longrightarrow> connected E j k \<Longrightarrow> connected E i k"
  unfolding connected_def by (rule rtrancl_trans)

lemma connected_mono: "connected E i j \<Longrightarrow> E \<subseteq> F \<Longrightarrow> connected F i j"
  unfolding connected_def by (rule rtrancl_mono [THEN subsetD]) auto

lemma connected_edge: "(i, j) \<in> E \<Longrightarrow> connected E i j"
  unfolding connected_def by auto

lemma connected_insert:
  "connected (insert (l, r) E) i j \<longleftrightarrow>
    connected E i j \<or> (connected E i l \<and> connected E r j) \<or> (connected E i r \<and> connected E l j)"
    (is "?L \<longleftrightarrow> ?R")
proof
  assume ?L
  then have "(i, j) \<in> (insert (l, r) E \<union> (insert (l, r) E)\<inverse>)\<^sup>*" by (simp add: connected_def)
  then show ?R
  proof (induction rule: rtrancl_induct)
    case (step y z)
    then consider "(y, z) \<in> E \<or> (z, y) \<in> E" | "y = l \<and> z = r" | "y = r \<and> z = l" by auto
    then show ?case
    proof cases
      case 1
      then have "connected E y z" using connected_edge connected_sym by blast
      with step.IH show ?thesis using connected_trans by blast
    next
      case 2
      with step.IH show ?thesis using connected_sym connected_trans connected_refl by metis
    next
      case 3
      with step.IH show ?thesis using connected_sym connected_trans connected_refl by metis
    qed
  qed simp
next
  have lr: "connected (insert (l, r) E) l r" by (rule connected_edge) simp
  assume ?R
  then show ?L
    using connected_mono [of E _ _ "insert (l, r) E"] connected_trans lr connected_sym [OF lr]
    by (metis subset_insertI)
qed

text \<open>A forest represents a relation when roots agree exactly on connected elements.\<close>

definition represents :: "nat list \<Rightarrow> nat \<Rightarrow> (nat \<times> nat) set \<Rightarrow> bool" where
  "represents parent n E \<longleftrightarrow> length parent = n \<and>
    (\<exists>rep rank. forest parent rep rank \<and> (\<forall>i<n. \<forall>j<n. rep i = rep j \<longleftrightarrow> connected E i j))"

lemma represents_initial: "represents [0..<n] n {}"
proof -
  have "connected {} i j \<longleftrightarrow> i = j" for i j :: nat by (simp add: connected_def)
  then show ?thesis unfolding represents_def using forest_initial [of n] by auto
qed

lemma represents_union:
  assumes "represents parent n E" and "l < n" and "r < n"
  shows "\<exists>parent'. union_roots parent l r = Some parent' \<and> represents parent' n (insert (l, r) E)"
proof -
  obtain rep rank where f: "length parent = n" "forest parent rep rank"
    "\<forall>i<n. \<forall>j<n. rep i = rep j \<longleftrightarrow> connected E i j"
    using assms(1) by (auto simp: represents_def)
  obtain p rank' where p: "union_roots parent l r = Some p" "length p = n" "forest p (joined rep l r) rank'"
    using union_roots_returns [OF f(2), of l r] f(1) assms(2,3) by blast
  have "joined rep l r i = joined rep l r j \<longleftrightarrow> connected (insert (l, r) E) i j" if "i < n" "j < n" for i j
  proof -
    have "rep i = rep j \<longleftrightarrow> connected E i j" "rep i = rep l \<longleftrightarrow> connected E i l" "rep j = rep l \<longleftrightarrow> connected E l j"
      "rep i = rep r \<longleftrightarrow> connected E i r" "rep j = rep r \<longleftrightarrow> connected E r j"
      using f(3) that assms(2,3) by metis+
    then show ?thesis unfolding connected_insert joined_def by metis
  qed
  with p show ?thesis unfolding represents_def by blast
qed

section \<open>The links of the records\<close>

definition links :: "successfulProcedureRecord list \<Rightarrow> (nat \<times> nat) list \<Rightarrow> (nat \<times> nat) set" where
  "links records pairs = {(i, j). (i, j) \<in> set pairs \<and> linked (records ! i) (records ! j)}"

lemma fold_joinPair:
  assumes "represents parent n E" and "\<forall>(i, j)\<in>set pairs. i < n \<and> j < n"
  shows "\<exists>parent'. foldl (joinPair records) (Some parent) pairs = Some parent' \<and>
    represents parent' n (E \<union> links records pairs)"
  using assms
proof (induction pairs arbitrary: parent E)
  case Nil
  then show ?case by (simp add: links_def)
next
  case (Cons q pairs)
  obtain l r where q: "q = (l, r)" by fastforce
  have lr: "l < n" "r < n" using Cons.prems(2) q by auto
  have rest: "\<forall>(i, j)\<in>set pairs. i < n \<and> j < n" using Cons.prems(2) by simp
  show ?case
  proof (cases "linked (records ! l) (records ! r)")
    case True
    obtain p where p: "union_roots parent l r = Some p" "represents p n (insert (l, r) E)"
      using represents_union [OF Cons.prems(1) lr] by blast
    have "insert (l, r) E \<union> links records pairs = E \<union> links records (q # pairs)"
      using True q by (auto simp: links_def)
    with Cons.IH [OF p(2) rest] p(1) True q show ?thesis by (simp add: joinPair_def)
  next
    case False
    have "E \<union> links records pairs = E \<union> links records (q # pairs)" using False q by (auto simp: links_def)
    with Cons.IH [OF Cons.prems(1) rest] False q show ?thesis by (simp add: joinPair_def)
  qed
qed

lemma index_pairs_iff: "(i, j) \<in> set (index_pairs n) \<longleftrightarrow> i < j \<and> j < n"
  by (force simp: index_pairs_def image_iff)

lemma linked_sym: "linked a b \<Longrightarrow> linked b a"
proof -
  have s: "candidate_sameNode x y = candidate_sameNode y x" for x y
    unfolding candidate_sameNode_def by (auto split: NodeKind.splits)
  have "nodeRefsOverlap xs ys = nodeRefsOverlap ys xs" for xs ys
    unfolding nodeRefsOverlap_def containsNode_def list_ex_iff using s by blast
  then show "linked a b \<Longrightarrow> linked b a" unfolding linked_def by metis
qed

text \<open>Reachability over links, in either direction and whatever the order of the two records.\<close>

definition chained :: "successfulProcedureRecord list \<Rightarrow> nat \<Rightarrow> nat \<Rightarrow> bool" where
  "chained records i j \<longleftrightarrow>
    (i, j) \<in> {(a, b). a < length records \<and> b < length records \<and> linked (records ! a) (records ! b)}\<^sup>*"

lemma connected_chained:
  "connected (links records (index_pairs (length records))) i j \<longleftrightarrow> chained records i j"
proof -
  let ?E = "links records (index_pairs (length records))"
  let ?R = "{(a, b). a < length records \<and> b < length records \<and> linked (records ! a) (records ! b)}"
  have 1: "?E \<union> ?E\<inverse> \<subseteq> ?R"
    by (auto simp: links_def index_pairs_iff intro: linked_sym)
  have 2: "?R \<subseteq> (?E \<union> ?E\<inverse>)\<^sup>*"
  proof (rule subrelI)
    fix a b assume ab: "(a, b) \<in> ?R"
    consider "a = b" | "a < b" | "b < a" by linarith
    then show "(a, b) \<in> (?E \<union> ?E\<inverse>)\<^sup>*"
    proof cases
      case 2
      with ab have "(a, b) \<in> ?E" by (simp add: links_def index_pairs_iff)
      then show ?thesis by blast
    next
      case 3
      from ab have "linked (records ! a) (records ! b)" by simp
      then have "linked (records ! b) (records ! a)" by (rule linked_sym)
      with 3 ab have "(b, a) \<in> ?E" by (simp add: links_def index_pairs_iff)
      then show ?thesis by blast
    qed simp
  qed
  have "(?E \<union> ?E\<inverse>)\<^sup>* = ?R\<^sup>*"
    by (rule subset_antisym [OF rtrancl_mono [OF 1] rtrancl_subset_rtrancl [OF 2]])
  then show ?thesis by (simp add: connected_def chained_def)
qed

lemma joinRecords_returns:
  "\<exists>parent. joinRecords records = Some parent \<and>
    represents parent (length records) (links records (index_pairs (length records)))"
proof -
  have "\<forall>(i, j)\<in>set (index_pairs (length records)). i < length records \<and> j < length records"
    using index_pairs_iff by fastforce
  from fold_joinPair [OF represents_initial this, of records] show ?thesis by (simp add: joinRecords_def)
qed

section \<open>Groups\<close>

lemma fold_groupStep:
  assumes "forest parent rep rank" and "k \<le> length parent"
  shows "\<exists>parent'. foldl (groupStep records) (Some (parent, [])) [0..<k] =
    Some (parent', group_pairs (map (\<lambda>i. (rep i, records ! i)) [0..<k])) \<and>
    forest parent' rep rank \<and> length parent' = length parent"
  using assms(2)
proof (induction k)
  case 0
  with assms(1) show ?case by (simp add: group_pairs_def)
next
  case (Suc k)
  then obtain p where p: "foldl (groupStep records) (Some (parent, [])) [0..<k] =
      Some (p, group_pairs (map (\<lambda>i. (rep i, records ! i)) [0..<k]))"
    "forest p rep rank" "length p = length parent" by auto
  obtain p' where "find_root p k = Some (p', rep k)" "forest p' rep rank" "length p' = length p"
    using find_root_returns [OF p(2), of k] p(3) Suc.prems by auto
  moreover have "groupStep records (Some (p, m)) k = Some (p', map_append m (rep k) (records ! k))" for m
    using \<open>find_root p k = _\<close> by (simp add: groupStep_def)
  ultimately show ?case using p by (simp add: group_pairs_snoc)
qed

lemma map_append_map: "map_append (map (\<lambda>(k, xs). (k, map f xs)) m) k (f x) = map (\<lambda>(k, xs). (k, map f xs)) (map_append m k x)"
  by (induction m k x rule: map_append.induct) auto

lemma group_pairs_map:
  "group_pairs (map (\<lambda>x. (g x, f x)) xs) = map (\<lambda>(k, ys). (k, map f ys)) (group_by g xs)"
proof (induction xs rule: rev_induct)
  case (snoc x xs)
  then show ?case by (simp add: group_pairs_snoc group_by_snoc map_append_map)
qed (simp add: group_pairs_def group_by_def)

lemma mset_map_append: "mset (concat (map snd (map_append m k x))) = add_mset x (mset (concat (map snd m)))"
  by (induction m k x rule: map_append.induct) auto

lemma mset_group_by: "mset (concat (map snd (group_by g xs))) = mset xs"
proof (induction xs rule: rev_induct)
  case (snoc x xs)
  then show ?case by (simp add: group_by_snoc mset_map_append)
qed (simp add: group_by_def)

text \<open>The groups: one for every root, with the records of that root in order.\<close>

lemma groupRecords_returns:
  "\<exists>rep. groupRecords records = Some (group_pairs (map (\<lambda>i. (rep i, records ! i)) [0..<length records])) \<and>
    (\<forall>i<length records. \<forall>j<length records. rep i = rep j \<longleftrightarrow> chained records i j)"
proof -
  obtain parent where p: "joinRecords records = Some parent"
    "represents parent (length records) (links records (index_pairs (length records)))"
    using joinRecords_returns by blast
  then obtain rep rank where f: "forest parent rep rank" "length parent = length records"
    "\<forall>i<length records. \<forall>j<length records. rep i = rep j \<longleftrightarrow> chained records i j"
    by (auto simp: represents_def connected_chained)
  from fold_groupStep [OF f(1), of "length records" records] f(2) p(1) have
    "groupRecords records = Some (group_pairs (map (\<lambda>i. (rep i, records ! i)) [0..<length records]))"
    by (auto simp: groupRecords_def)
  with f(3) show ?thesis by blast
qed

text \<open>
  Grouping always returns, although every \<open>find\<close> of its union-find follows parents until it meets a
  rep: the episodes of any records are computed.
\<close>

theorem episodes_are_always_built: "\<exists>episodes. buildEvidenceEpisodes J order records = Some episodes"
  using groupRecords_returns [of "normalizeProcedureRecords J records"]
  by (auto simp: buildEvidenceEpisodes_def Let_def)

text \<open>
  C24. The groups are the connected components of the links: every group holds, in order, exactly the records that a chain
  of common mutations or continuations within a session joins to one of them, the groups are not empty and together
  hold every record once.
\<close>

theorem groups_are_connected_components:
  "\<exists>indexes. groupRecords records = Some (map (\<lambda>(rep, members). (rep, map (nth records) members)) indexes) \<and>
    mset (concat (map snd indexes)) = mset [0..<length records] \<and>
    list_all (\<lambda>(rep, members). members \<noteq> [] \<and> sorted members \<and>
      (\<forall>i\<in>set members. set members = {j. j < length records \<and> chained records i j})) indexes"
proof -
  obtain rep where g: "groupRecords records = Some (group_pairs (map (\<lambda>i. (rep i, records ! i)) [0..<length records]))"
    and r: "\<forall>i<length records. \<forall>j<length records. rep i = rep j \<longleftrightarrow> chained records i j"
    using groupRecords_returns by blast
  let ?n = "length records"
  let ?members = "group_by rep [0..<?n]"
  have "group_pairs (map (\<lambda>i. (rep i, f i)) xs) = map (\<lambda>(k, members). (k, map f members)) (group_by rep xs)" for f :: "nat \<Rightarrow> successfulProcedureRecord" and xs
    by (rule group_pairs_map)
  with g have "groupRecords records = Some (map (\<lambda>(k, members). (k, map (nth records) members)) ?members)" by simp
  moreover have "mset (concat (map snd ?members)) = mset [0..<?n]" by (rule mset_group_by)
  moreover have "list_all (\<lambda>(k, members). members \<noteq> [] \<and> sorted members \<and>
      (\<forall>i\<in>set members. set members = {j. j < ?n \<and> chained records i j})) ?members"
  proof -
    have "members \<noteq> [] \<and> sorted members \<and> (\<forall>i\<in>set members. set members = {j. j < ?n \<and> chained records i j})"
      if m: "(k, members) \<in> set ?members" for k "members"
    proof -
      have e: "members = filter (\<lambda>i. rep i = k) [0..<?n]" using map_get_member [OF distinct_group_by m] by simp
      have "k \<in> rep ` set [0..<?n]" using m by (metis fst_conv imageI keys_group_by)
      then have "members \<noteq> []" unfolding e by (auto simp: filter_empty_conv)
      moreover have "sorted members" unfolding e by (simp add: sorted_wrt_filter)
      moreover have "set members = {j. j < ?n \<and> chained records i j}" if "i \<in> set members" for i
      proof (rule set_eqI)
        fix j
        show "j \<in> set members \<longleftrightarrow> j \<in> {j. j < ?n \<and> chained records i j}"
          using that r unfolding e by (simp, metis)
      qed
      ultimately show ?thesis by blast
    qed
    then show ?thesis by (auto simp: list_all_iff)
  qed
  ultimately show ?thesis by blast
qed

section \<open>Anchors\<close>

text \<open>\<open>preferredAnchor\<close> compares by a key.\<close>

definition anchor_key ::
    "episode_encoder \<Rightarrow> int \<Rightarrow> successfulProcedureRecord \<Rightarrow> bool \<times> bool \<times> bool \<times> int \<times> gostring \<times> gostring \<times> gostring" where
  "anchor_key J final r = (\<not> spr_VerifierTurn r > final, \<not> spr_UserRequested r, \<not> spr_ProjectConfigured r,
    - spr_VerifierTurn r, spr_CommandClass r, spr_RawCommand r, procedureRecordKey J r)"

lemma preferredAnchor_key: "preferredAnchor J a b final \<longleftrightarrow> anchor_key J final a < anchor_key J final b"
  by (simp add: preferredAnchor_def anchor_key_def Let_def less_prod_def')

lemma foldl_least:
  fixes f :: "nat \<Rightarrow> 'a::linorder"
  assumes "k > 0"
  shows "let best = foldl (\<lambda>best i. if f i < f best then i else best) 0 [1..<k] in best < k \<and> (\<forall>i<k. f best \<le> f i)"
  using assms
proof (induction k)
  case (Suc k)
  show ?case
  proof (cases k)
    case (Suc k')
    with Suc.IH show ?thesis by (auto simp: Let_def less_Suc_eq intro: less_imp_le order_trans)
  qed simp
qed simp

lemma selectAnchor:
  assumes "records \<noteq> []"
  shows "selectAnchorVerifier J records final < length records"
    and "r \<in> set records \<Longrightarrow> \<not> preferredAnchor J r (records ! selectAnchorVerifier J records final) final"
proof -
  let ?f = "\<lambda>i. anchor_key J final (records ! i)"
  have "selectAnchorVerifier J records final < length records \<and>
      (\<forall>i<length records. ?f (selectAnchorVerifier J records final) \<le> ?f i)"
    using foldl_least [of "length records" ?f] assms
    unfolding selectAnchorVerifier_def preferredAnchor_key Let_def by blast
  then show "selectAnchorVerifier J records final < length records"
    and "r \<in> set records \<Longrightarrow> \<not> preferredAnchor J r (records ! selectAnchorVerifier J records final) final"
    unfolding preferredAnchor_key not_less in_set_conv_nth by blast+
qed

lemma foldl_later: "foldl later a xs = Max (insert a (set xs))"
proof (induction xs arbitrary: a)
  case (Cons x xs)
  have "later a x = max a x" by (simp add: later_def max_def)
  then show ?case using Cons by (simp add: Max_insert2 insert_commute) (metis (no_types, lifting) Max.insert Max_singleton finite_set finite_insert insert_not_empty max.assoc max.commute insert_commute)
qed simp

lemma filter_upt_single: "i < n \<Longrightarrow> filter (\<lambda>j. j = i) [0..<n] = [i]"
  by (induction n) (auto simp: filter_empty_conv less_Suc_eq)

lemma mset_others:
  assumes "i < length xs"
  shows "mset (xs ! i # map (nth xs) (filter (\<lambda>j. j \<noteq> i) [0..<length xs])) = mset xs"
proof -
  have "mset xs = image_mset (nth xs) (mset [0..<length xs])" by (metis map_nth mset_map)
  also have "mset [0..<length xs] = mset (filter (\<lambda>j. j = i) [0..<length xs]) + mset (filter (\<lambda>j. j \<noteq> i) [0..<length xs])"
    unfolding mset_filter by (rule multiset_partition)
  also have "filter (\<lambda>j. j = i) [0..<length xs] = [i]"
    using assms by (rule filter_upt_single)
  finally show ?thesis by simp
qed

lemma newEvidenceEpisode_anchor:
  assumes "members \<noteq> []"
  shows "map_option (\<lambda>e. (epi_Anchor e, epi_Supporting e)) (newEvidenceEpisode J members) =
    (let records = sort_key (procedure_order J) members;
         i = selectAnchorVerifier J records (foldl later (- 1) (map turnIndexOf (concat (map spr_MutationRefs records))))
     in Some (records ! i, map (nth records) (filter (\<lambda>j. j \<noteq> i) [0..<length records])))"
  using assms by (simp add: newEvidenceEpisode_def Let_def del: length_sort)

text \<open>
  An episode is anchored by its most preferred verification: the anchor and the supporting records are the records of
  the group, and no record of the group is preferred to the anchor given the last turn that mutates.
\<close>

theorem anchor_is_most_preferred:
  assumes "newEvidenceEpisode J members = Some episode"
  shows "mset (epi_Anchor episode # epi_Supporting episode) = mset members \<and>
    (\<forall>r\<in>set members. \<not> preferredAnchor J r (epi_Anchor episode)
      (Max (insert (- 1) (turnIndexOf ` (\<Union>r\<in>set members. set (spr_MutationRefs r))))))"
proof -
  let ?records = "sort_key (procedure_order J) members"
  let ?final = "foldl later (- 1) (map turnIndexOf (concat (map spr_MutationRefs ?records)))"
  let ?i = "selectAnchorVerifier J ?records ?final"
  have "members \<noteq> []" using assms by (auto simp: newEvidenceEpisode_def)
  then have n: "?records \<noteq> []" by (metis length_0_conv length_sort)
  have e: "epi_Anchor episode = ?records ! ?i"
    "epi_Supporting episode = map (nth ?records) (filter (\<lambda>j. j \<noteq> ?i) [0..<length ?records])"
    using newEvidenceEpisode_anchor [OF \<open>members \<noteq> []\<close>, of J] by (simp_all add: assms Let_def)
  have "mset (epi_Anchor episode # epi_Supporting episode) = mset ?records"
    unfolding e by (rule mset_others [OF selectAnchor(1) [OF n]])
  moreover have "?final = Max (insert (- 1) (turnIndexOf ` (\<Union>r\<in>set members. set (spr_MutationRefs r))))"
    unfolding foldl_later by (simp add: image_UN)
  ultimately show ?thesis using selectAnchor(2) [OF n, of _ J ?final] e(1) by simp
qed

end
