(* ===== verification/Traj_Builder.thy ===== *)
theory Traj_Builder
  imports Traj_Derive
begin

text \<open>
  Every step of the derivation only adds to the result, what it adds does not depend on what is
  already there, and it declares the links incomplete exactly when it adds a diagnostic. A step is therefore
  known by what it adds to the blank result.
\<close>

section \<open>Additive steps\<close>

definition blank :: DeriveResult where
  "blank = \<lparr>dr_DerivationVersion = [], dr_Edges = [], dr_Outcomes = [], dr_Diagnostics = [],
     dr_Coverage = \<lparr>dc_Transcript = CoverageComplete, dc_TranscriptTurnsComplete = True,
       dc_CanonicalEventsComplete = True, dc_LinksComplete = True, dc_MachineEnvelopesExcluded = 0,
       dc_FullyDerived = False\<rparr>\<rparr>"

definition plus_result :: "DeriveResult \<Rightarrow> DeriveResult \<Rightarrow> DeriveResult" where
  "plus_result r d = r\<lparr>dr_Edges := dr_Edges r @ dr_Edges d, dr_Outcomes := dr_Outcomes r @ dr_Outcomes d,
     dr_Diagnostics := dr_Diagnostics r @ dr_Diagnostics d,
     dr_Coverage := (dr_Coverage r)\<lparr>dc_LinksComplete := dc_LinksComplete (dr_Coverage r) \<and> dc_LinksComplete (dr_Coverage d),
       dc_MachineEnvelopesExcluded := dc_MachineEnvelopesExcluded (dr_Coverage r) + dc_MachineEnvelopesExcluded (dr_Coverage d)\<rparr>\<rparr>"

definition appends :: "(DeriveResult \<Rightarrow> DeriveResult) \<Rightarrow> bool" where
  "appends f \<longleftrightarrow> (\<forall>r. f r = plus_result r (f blank)) \<and>
    dc_LinksComplete (dr_Coverage (f blank)) = (dr_Diagnostics (f blank) = [])"

lemma plus_blank [simp]: "plus_result r blank = r"
  by (simp add: plus_result_def blank_def)

lemma plus_assoc: "plus_result (plus_result a b) c = plus_result a (plus_result b c)"
  by (cases a; cases b; cases c) (simp add: plus_result_def)

lemma plus_edges [simp]: "dr_Edges (plus_result a b) = dr_Edges a @ dr_Edges b"
  "dr_Outcomes (plus_result a b) = dr_Outcomes a @ dr_Outcomes b"
  "dr_Diagnostics (plus_result a b) = dr_Diagnostics a @ dr_Diagnostics b"
  by (simp_all add: plus_result_def)

lemma appendsD: "appends f \<Longrightarrow> f r = plus_result r (f blank)"
  unfolding appends_def by (elim conjE) (rule spec)

lemma appends_honest: "appends f \<Longrightarrow> dc_LinksComplete (dr_Coverage (f blank)) = (dr_Diagnostics (f blank) = [])"
  unfolding appends_def by (elim conjE)

lemma plus_links [simp]:
  "dc_LinksComplete (dr_Coverage (plus_result a b)) = (dc_LinksComplete (dr_Coverage a) \<and> dc_LinksComplete (dr_Coverage b))"
  by (simp add: plus_result_def)

lemma appends_id [intro, simp]: "appends (\<lambda>r. r)"
  unfolding appends_def by (simp add: blank_def plus_result_def)

lemma appends_diagnostic: "appends (addDiagnostic c x)"
  by (simp add: appends_def addDiagnostic_def plus_result_def blank_def)

lemma appends_edges: "appends (addEdges es)"
  by (simp add: appends_def addEdges_def plus_result_def blank_def)

lemma appends_outcome: "appends (addOutcome oc)"
  by (simp add: appends_def addOutcome_def plus_result_def blank_def)

lemma appends_excluded:
  "appends (\<lambda>r. r\<lparr>dr_Coverage := (dr_Coverage r)
    \<lparr>dc_MachineEnvelopesExcluded := dc_MachineEnvelopesExcluded (dr_Coverage r) + 1\<rparr>\<rparr>)"
  by (simp add: appends_def plus_result_def blank_def)

lemma appends_comp:
  assumes "appends f" and "appends g"
  shows "appends (\<lambda>r. g (f r))"
proof -
  have *: "g (f r) = plus_result r (g (f blank))" for r
  proof -
    have "g (f r) = plus_result (f r) (g blank)" by (rule appendsD [OF assms(2)])
    also have "\<dots> = plus_result r (plus_result (f blank) (g blank))"
      by (subst appendsD [OF assms(1)]) (rule plus_assoc)
    also have "plus_result (f blank) (g blank) = g (f blank)" by (rule appendsD [OF assms(2), symmetric])
    finally show ?thesis .
  qed
  have b: "g (f blank) = plus_result (f blank) (g blank)" by (rule appendsD [OF assms(2)])
  have "dc_LinksComplete (dr_Coverage (g (f blank))) = (dr_Diagnostics (g (f blank)) = [])"
    unfolding b by (simp add: appends_honest [OF assms(1)] appends_honest [OF assms(2)])
  with * show ?thesis unfolding appends_def by blast
qed

lemma appends_if: "appends f \<Longrightarrow> appends g \<Longrightarrow> appends (\<lambda>r. if c then f r else g r)"
  by (cases c) simp_all

lemma appends_fold: "(\<And>x. appends (\<lambda>r. step r x)) \<Longrightarrow> appends (\<lambda>r. foldl step r xs)"
proof (induction xs)
  case (Cons x xs)
  then have "appends (\<lambda>r. foldl step (step r x) xs)"
    using appends_comp [of "\<lambda>r. step r x" "\<lambda>r. foldl step r xs"] by blast
  then show ?case by simp
qed simp

lemmas appends_primitives = appends_id appends_diagnostic appends_edges appends_outcome appends_excluded

lemma fold_edges:
  assumes "\<And>x. appends (\<lambda>r. step r x)"
  shows "dr_Edges (foldl step r xs) = dr_Edges r @ concat (map (\<lambda>x. dr_Edges (step blank x)) xs)"
proof (induction xs rule: rev_induct)
  case (snoc x xs)
  have "step (foldl step r xs) x = plus_result (foldl step r xs) (step blank x)"
    by (rule appendsD [where f = "\<lambda>r. step r x", OF assms])
  then have "dr_Edges (step (foldl step r xs) x) = dr_Edges (foldl step r xs) @ dr_Edges (step blank x)"
    by (simp only: plus_edges)
  with snoc show ?case by simp
qed simp

lemma appends_edgesD: "appends f \<Longrightarrow> dr_Edges (f r) = dr_Edges r @ dr_Edges (f blank)"
  by (subst appendsD, assumption) (rule plus_edges)

section \<open>The steps are appends\<close>

lemma appends_diagnostics: "appends (\<lambda>r. foldl (\<lambda>r turn. addTurnDiagnostic c turn r) r ts)"
  by (rule appends_fold) (rule appends_diagnostic)

lemma appends_deriveInvocations: "appends (deriveInvocations T session turn invocations ambiguous)"
  unfolding deriveInvocations_def Let_def
  by (intro appends_if appends_id appends_comp [OF _ appends_edges] appends_diagnostic)

lemma appends_single:
  "appends g \<Longrightarrow> (\<And>a. appends (f a)) \<Longrightarrow> appends (\<lambda>r. case xs of [a] \<Rightarrow> f a r | _ \<Rightarrow> g r)"
  by (cases xs; cases "tl xs") auto

lemma appends_after: "appends f \<Longrightarrow> appends g \<Longrightarrow> appends (\<lambda>r. if c then g (f r) else f r)"
  by (cases c) (auto intro: appends_comp)

lemma appends_role:
  "appends f \<Longrightarrow> appends g \<Longrightarrow> appends (\<lambda>r. case role of RoleToolCall \<Rightarrow> f r | RoleToolResult \<Rightarrow> g r | _ \<Rightarrow> r)"
  by (cases role) auto

lemma appends_deriveToolResult: "appends (deriveToolResult T session turn calls ambiguous)"
  unfolding deriveToolResult_def Let_def
  by (intro appends_if appends_diagnostic appends_single appends_edges)

lemma appends_deriveParent: "appends (deriveParent T session turn parentID calls ambiguous)"
  unfolding deriveParent_def
  by (intro appends_if appends_diagnostic appends_single appends_edges appends_id)

lemma appends_deriveCorrection: "appends (deriveCorrection T C session turns index)"
  unfolding deriveCorrection_def Let_def
  by (intro appends_if appends_id appends_excluded appends_comp [OF appends_edges appends_outcome])

lemma appends_turnStep: "appends (\<lambda>r. turnStep T C session turns calls ambiguous invocations r index)"
  unfolding turnStep_def Let_def
  by (intro appends_after appends_role appends_deriveInvocations appends_deriveToolResult appends_deriveParent
      appends_deriveCorrection)

lemma appends_deriveVerificationOutcome:
  "appends (deriveVerificationOutcome T session call position results ambiguous)"
  unfolding deriveVerificationOutcome_def Let_def
proof (intro appends_if appends_diagnostic appends_id)
  let ?ms = "map snd (filter (\<lambda>candidate. fst candidate > position) (map_get results (callIDOf call)))"
  have "appends (\<lambda>r. case ExplicitToolResultFailed t of
      None \<Rightarrow> addTurnDiagnostic c t r | Some failed \<Rightarrow> addOutcome (f failed) r)" for t c f
    by (cases "ExplicitToolResultFailed t") (auto intro: appends_primitives)
  then show "appends (\<lambda>r. case ?ms of
       [] \<Rightarrow> addTurnDiagnostic DiagnosticMissingVerificationResult call r
     | [verificationResult] \<Rightarrow>
         (case ExplicitToolResultFailed verificationResult of
            None \<Rightarrow> addTurnDiagnostic DiagnosticUnknownVerificationResult verificationResult r
          | Some failed \<Rightarrow> addOutcome (newOutcome T session (tn_OccurredAt verificationResult)
              (if failed then OutcomeVerificationFail else OutcomeVerificationPass)
              (if failed then ResultFailed else ResultSucceeded)
              [turnReference call, turnReference verificationResult]) r)
     | _ \<Rightarrow> addTurnDiagnostic DiagnosticAmbiguousVerificationResult call r)"
    by (cases ?ms; cases "tl ?ms") (auto intro: appends_primitives)
qed

lemma appends_repairScan: "appends (repairScan T session success prior)"
  unfolding repairScan_def Let_def
  by (cases prior) (auto intro!: appends_if appends_id appends_comp [OF appends_edges appends_outcome])

lemma appends_deriveRepairs: "appends (deriveRepairs T C session turns results ambiguous)"
  unfolding deriveRepairs_def Let_def
  by (intro appends_fold appends_if appends_id appends_repairScan)

lemma appends_deriveCompletionClaims: "appends (deriveCompletionClaims T C session turns matched)"
  unfolding deriveCompletionClaims_def Let_def
proof (intro appends_fold appends_if appends_id)
  fix position
  show "appends (\<lambda>r. case latestMutationPosition C session turns position of None \<Rightarrow> r
      | Some latest \<Rightarrow> addEdges (f latest) r)" for f
    by (cases "latestMutationPosition C session turns position") (auto intro: appends_primitives)
qed

lemma appends_deriveCompactions: "appends (deriveCompactions T session turns)"
  unfolding deriveCompactions_def Let_def
  by (intro appends_fold appends_if appends_id appends_edges)

lemma appends_deriveRepairCompletionCompaction:
  "appends (deriveRepairCompletionCompaction T C session turns results ambiguous matched)"
  unfolding deriveRepairCompletionCompaction_def
  by (rule appends_comp [OF appends_comp [OF appends_deriveRepairs appends_deriveCompletionClaims]
      appends_deriveCompactions])

section \<open>Steps that also collect\<close>

text \<open>The calls of the turns, by their trimmed identifier.\<close>

definition calls_of :: "Turn list \<Rightarrow> call_map" where
  "calls_of turns = group_by callIDOf (filter (\<lambda>t. tn_Role t = RoleToolCall \<and> callIDOf t \<noteq> []) turns)"

definition callDiagnostic :: "DeriveResult \<Rightarrow> Turn \<Rightarrow> DeriveResult" where
  "callDiagnostic r turn =
    (if tn_Role turn = RoleToolCall \<and> callIDOf turn = []
     then addTurnDiagnostic DiagnosticMissingToolCallID turn r else r)"

lemma fold_callStep: "foldl callStep (r, []) turns = (foldl callDiagnostic r turns, calls_of turns)"
proof (induction turns rule: rev_induct)
  case (snoc t turns)
  then show ?case by (simp add: callStep_def callDiagnostic_def calls_of_def group_by_snoc)
qed (simp add: calls_of_def group_by_def)

lemma appends_callDiagnostic: "appends (\<lambda>r. callDiagnostic r turn)"
  unfolding callDiagnostic_def by (intro appends_if appends_diagnostic appends_id)

definition ambiguousDiagnostics :: "DeriveResult \<Rightarrow> gostring \<times> Turn list \<Rightarrow> DeriveResult" where
  "ambiguousDiagnostics r entry =
    (if length (snd entry) < 2 then r
     else foldl (\<lambda>r turn. addTurnDiagnostic DiagnosticAmbiguousToolCall turn r) r (snd entry))"

lemma fold_ambiguousStep:
  "foldl ambiguousStep (r, []) entries =
    (foldl ambiguousDiagnostics r entries, rev (map fst (filter (\<lambda>e. \<not> length (snd e) < 2) entries)))"
proof (induction entries rule: rev_induct)
  case (snoc e entries)
  then show ?case by (cases e) (simp add: ambiguousStep_def ambiguousDiagnostics_def)
qed simp

lemma appends_ambiguousDiagnostics: "appends (\<lambda>r. ambiguousDiagnostics r entry)"
  unfolding ambiguousDiagnostics_def by (intro appends_if appends_id appends_diagnostics)

definition foreignDiagnostic :: "gostring \<Rightarrow> DeriveResult \<Rightarrow> Event \<Rightarrow> DeriveResult" where
  "foreignDiagnostic key r event =
    (if ses_Key (ev_Session event) \<noteq> key
     then addDiagnostic DiagnosticForeignCanonicalEvent (Some (eventReference event)) r else r)"

definition events_of :: "gostring \<Rightarrow> (Event \<Rightarrow> bool) \<Rightarrow> Event list \<Rightarrow> event_map" where
  "events_of key P events =
    group_by (\<lambda>e. the (eventCallID e))
      (filter (\<lambda>e. ses_Key (ev_Session e) = key \<and> eventCallID e \<noteq> None \<and> P e) events)"

lemma fold_eventStep:
  "foldl (eventStep key) (r, [], []) events =
    (foldl (foreignDiagnostic key) r events, events_of key (\<lambda>e. True) events, events_of key mutationEvent events)"
proof (induction events rule: rev_induct)
  case (snoc e events)
  then show ?case
    by (auto simp: eventStep_def foreignDiagnostic_def events_of_def group_by_snoc split: option.split)
qed (simp add: events_of_def group_by_def)

lemma appends_foreignDiagnostic: "appends (\<lambda>r. foreignDiagnostic key r event)"
  unfolding foreignDiagnostic_def by (intro appends_if appends_diagnostic appends_id)

text \<open>The matched mutations of one turn and the edges of the turn.\<close>

definition mutates :: "text_rules \<Rightarrow> TranscriptSession \<Rightarrow> gostring list \<Rightarrow> Turn \<Rightarrow> bool" where
  "mutates C session ambiguous turn \<longleftrightarrow> tn_Role turn = RoleToolCall \<and> projectEditedFiles C session turn \<noteq> [] \<and>
    callIDOf turn \<noteq> [] \<and> callIDOf turn \<notin> set ambiguous"

definition mutationsAt ::
    "text_rules \<Rightarrow> TranscriptSession \<Rightarrow> event_map \<Rightarrow> gostring list \<Rightarrow> nat \<times> Turn \<Rightarrow> matchedMutation list" where
  "mutationsAt C session mutations ambiguous entry = (case entry of (position, turn) \<Rightarrow>
     if \<not> mutates C session ambiguous turn then []
     else map (\<lambda>target. \<lparr>mm_position = position, mm_turn = turn, mm_target = target\<rparr>)
       (case map_get mutations (callIDOf turn) of [] \<Rightarrow> [turnReference turn] | targets \<Rightarrow> map eventReference targets))"

definition mutationEdges ::
    "trajectory_encoder \<Rightarrow> text_rules \<Rightarrow> TranscriptSession \<Rightarrow> event_map \<Rightarrow> gostring list \<Rightarrow>
      DeriveResult \<Rightarrow> nat \<times> Turn \<Rightarrow> DeriveResult" where
  "mutationEdges T C session mutations ambiguous r entry = (case entry of (position, turn) \<Rightarrow>
     addEdges (map (\<lambda>event. newEdge T session (turnReference turn) RelationModifies (eventReference event)
         (ev_OccurredAt event) EvidenceObserved)
       (if mutates C session ambiguous turn then map_get mutations (callIDOf turn) else [])) r)"

lemma addEdges_nil [simp]: "addEdges [] r = r"
  by (simp add: addEdges_def)

lemma mutationStep_eq:
  "mutationStep T C session mutations ambiguous (matched, r) entry =
    (matched @ mutationsAt C session mutations ambiguous entry, mutationEdges T C session mutations ambiguous r entry)"
proof -
  obtain position turn where e: "entry = (position, turn)" by fastforce
  show ?thesis
  proof (cases "mutates C session ambiguous turn")
    case True
    then show ?thesis unfolding e
      by (cases "map_get mutations (callIDOf turn)")
        (simp_all add: mutationStep_def mutationsAt_def mutationEdges_def mutates_def)
  next
    case False
    then show ?thesis unfolding e
      by (auto simp: mutationStep_def mutationsAt_def mutationEdges_def mutates_def)
  qed
qed

lemma fold_mutationStep:
  "foldl (mutationStep T C session mutations ambiguous) (matched, r) entries =
    (matched @ concat (map (mutationsAt C session mutations ambiguous) entries),
     foldl (mutationEdges T C session mutations ambiguous) r entries)"
  by (induction entries rule: rev_induct) (simp_all add: mutationStep_eq)

lemma appends_mutationEdges: "appends (\<lambda>r. mutationEdges T C session mutations ambiguous r entry)"
  unfolding mutationEdges_def by (cases entry) (simp add: appends_edges)

definition verificationTurn :: "text_rules \<Rightarrow> Turn \<Rightarrow> bool" where
  "verificationTurn C turn \<longleftrightarrow> tn_Role turn = RoleToolCall \<and> tr_RetainedVerificationCommand C turn"

text \<open>The position of the last verification before a position.\<close>

fun lastVerification :: "text_rules \<Rightarrow> Turn list \<Rightarrow> nat \<Rightarrow> int" where
  "lastVerification C turns 0 = - 1"
| "lastVerification C turns (Suc p) =
    (if verificationTurn C (turns ! p) then int p else lastVerification C turns p)"

text \<open>A verification covers the mutations since the last one, up to a hundred turns back.\<close>

definition inWindow :: "text_rules \<Rightarrow> Turn list \<Rightarrow> nat \<Rightarrow> nat \<Rightarrow> bool" where
  "inWindow C turns position p \<longleftrightarrow>
    lastVerification C turns position < int p \<and> p < position \<and> int position - int p \<le> verificationMutationTurnWindow"

definition verificationEdges ::
    "trajectory_encoder \<Rightarrow> text_rules \<Rightarrow> TranscriptSession \<Rightarrow> matchedMutation list \<Rightarrow> Turn list \<Rightarrow> nat \<Rightarrow> Edge list" where
  "verificationEdges T C session matched turns position =
    (let turn = turns ! position in
     map (\<lambda>m. newEdgeWithSources T session (turnReference turn) RelationVerifies (mm_target m)
         (tn_OccurredAt turn) EvidenceDeterministicInference (mutationSources (turnReference turn) m))
       (filter (\<lambda>m. inWindow C turns position (mm_position m)) matched))"

definition verificationAt ::
    "trajectory_encoder \<Rightarrow> text_rules \<Rightarrow> TranscriptSession \<Rightarrow> matchedMutation list \<Rightarrow> result_map \<Rightarrow> gostring list \<Rightarrow>
      Turn list \<Rightarrow> DeriveResult \<Rightarrow> nat \<Rightarrow> DeriveResult" where
  "verificationAt T C session matched results ambiguous turns r position =
    (if verificationTurn C (turns ! position)
     then deriveVerificationOutcome T session (turns ! position) position results ambiguous
       (addEdges (verificationEdges T C session matched turns position) r)
     else r)"

lemma verificationStep_eq:
  "verificationStep T C session matched results ambiguous (lastVerification C turns position, r)
      (position, turns ! position) =
    (lastVerification C turns (Suc position), verificationAt T C session matched results ambiguous turns r position)"
proof -
  have "\<not> int p < windowStart (lastVerification C turns position) position \<and> \<not> position \<le> p \<longleftrightarrow>
      inWindow C turns position p" for p
    by (auto simp: inWindow_def windowStart_def Let_def)
  then show ?thesis
    by (simp add: verificationStep_def verificationAt_def verificationTurn_def verificationEdges_def Let_def)
qed

lemma fold_verificationStep:
  "p \<le> length turns \<Longrightarrow>
    foldl (verificationStep T C session matched results ambiguous) (- 1, r) (map (\<lambda>i. (i, turns ! i)) [0..<p]) =
    (lastVerification C turns p, foldl (verificationAt T C session matched results ambiguous turns) r [0..<p])"
proof (induction p)
  case (Suc p)
  then show ?case using verificationStep_eq by simp
qed simp

lemma enumerate_map: "enumerate 0 xs = map (\<lambda>i. (i, xs ! i)) [0..<length xs]"
  by (rule nth_equalityI) (simp_all add: nth_enumerate_eq)

lemma appends_verificationAt: "appends (\<lambda>r. verificationAt T C session matched results ambiguous turns r position)"
  unfolding verificationAt_def
  by (intro appends_if appends_id appends_comp [OF appends_edges appends_deriveVerificationOutcome])

lemma deriveMutationVerification_eq:
  "deriveMutationVerification T C session turns mutations results ambiguous r =
    (let matched = concat (map (mutationsAt C session mutations ambiguous) (enumerate 0 turns)) in
     (matched, foldl (verificationAt T C session matched results ambiguous turns)
       (foldl (mutationEdges T C session mutations ambiguous) r (enumerate 0 turns)) [0..<length turns]))"
  unfolding deriveMutationVerification_def Let_def fold_mutationStep
  using fold_verificationStep [of "length turns" turns] by (simp add: enumerate_map [of turns])

section \<open>The derivation as a composition\<close>

text \<open>What follows the collection of calls, for a given list of ambiguous identifiers.\<close>

definition linkTurns ::
    "trajectory_encoder \<Rightarrow> text_rules \<Rightarrow> TranscriptSession \<Rightarrow> Turn list \<Rightarrow> Event list \<Rightarrow> gostring list \<Rightarrow>
      DeriveResult \<Rightarrow> DeriveResult" where
  "linkTurns T C session turns events ambiguous r =
    (let results = resultsOf turns;
         key = ts_SessionKey session;
         r = foldl (foreignDiagnostic key) r events;
         r = foldl (turnStep T C session turns (calls_of turns) ambiguous (events_of key (\<lambda>e. True) events)) r
           [0..<length turns];
         mutations = events_of key mutationEvent events;
         matched = concat (map (mutationsAt C session mutations ambiguous) (enumerate 0 turns));
         r = foldl (mutationEdges T C session mutations ambiguous) r (enumerate 0 turns);
         r = foldl (verificationAt T C session matched results ambiguous turns) r [0..<length turns]
     in deriveRepairCompletionCompaction T C session turns results ambiguous matched r)"

definition sortedTurns :: "DeriveInput \<Rightarrow> Turn list" where
  "sortedTurns input = sort_key turn_key (di_Turns input)"

definition sortedEvents :: "DeriveInput \<Rightarrow> Event list" where
  "sortedEvents input = sort_key source_key (di_CanonicalEvents input)"

definition ambiguousIDs :: "(gostring \<times> Turn list) list \<Rightarrow> gostring list" where
  "ambiguousIDs entries = rev (map fst (filter (\<lambda>e. \<not> length (snd e) < 2) entries))"

definition derived ::
    "trajectory_encoder \<Rightarrow> text_rules \<Rightarrow> DeriveInput \<Rightarrow> (gostring \<times> Turn list) list \<Rightarrow> DeriveResult" where
  "derived T C input entries =
    linkTurns T C (di_Session input) (sortedTurns input) (sortedEvents input) (ambiguousIDs entries)
      (foldl ambiguousDiagnostics (foldl callDiagnostic (initialResult input) (sortedTurns input)) entries)"

lemma deriveSession_eq:
  "deriveSession T C order input =
    (if \<not> validateDeriveInput input then Inl ErrInvalidDeriveInput
     else case finishDerivation T (derived T C input (order (calls_of (sortedTurns input)))) of
       None \<Rightarrow> Inl ErrInvalidDerived | Some r \<Rightarrow> Inr r)"
  unfolding deriveSession_def derived_def linkTurns_def ambiguousIDs_def Let_def
    sortedTurns_def [symmetric] sortedEvents_def [symmetric]
  by (simp add: fold_callStep fold_ambiguousStep fold_eventStep deriveMutationVerification_eq Let_def)

lemma appends_linkTurns: "appends (linkTurns T C session turns events ambiguous)"
  unfolding linkTurns_def Let_def
  by (intro appends_comp [OF _ appends_deriveRepairCompletionCompaction]
      appends_comp [OF _ appends_fold [OF appends_verificationAt]]
      appends_comp [OF _ appends_fold [OF appends_mutationEdges]]
      appends_comp [OF _ appends_fold [OF appends_turnStep]]
      appends_fold [OF appends_foreignDiagnostic])

text \<open>Only membership in the list of ambiguous identifiers is read.\<close>

lemma linkTurns_cong:
  assumes "set a = set b"
  shows "linkTurns T C session turns events a = linkTurns T C session turns events b"
proof -
  have m: "mutates C session a = mutates C session b" by (rule ext) (simp add: mutates_def assms)
  have i: "deriveInvocations T session turn inv a = deriveInvocations T session turn inv b" for turn inv
    by (intro ext) (simp add: deriveInvocations_def assms)
  have t: "deriveToolResult T session turn calls a = deriveToolResult T session turn calls b" for turn calls
    by (intro ext) (simp add: deriveToolResult_def assms Let_def)
  have p: "deriveParent T session turn parent calls a = deriveParent T session turn parent calls b" for turn parent calls
    by (intro ext) (simp add: deriveParent_def assms)
  have v: "deriveVerificationOutcome T session call p results a = deriveVerificationOutcome T session call p results b"
    for call p results
    by (intro ext) (simp add: deriveVerificationOutcome_def assms Let_def)
  have "turnStep T C session turns calls a inv = turnStep T C session turns calls b inv" for calls inv
    by (intro ext) (simp only: turnStep_def i t p)
  moreover have "mutationsAt C session mutations a = mutationsAt C session mutations b"
    "mutationEdges T C session mutations a = mutationEdges T C session mutations b" for mutations
    by (intro ext; simp add: mutationsAt_def mutationEdges_def m)+
  moreover have "verificationAt T C session matched results a turns = verificationAt T C session matched results b turns"
    for matched results
    by (intro ext) (simp only: verificationAt_def v)
  moreover have "commandAttemptAt C turns results a = commandAttemptAt C turns results b" for results
    by (rule ext) (simp only: commandAttemptAt_def assms)
  ultimately show ?thesis
    by (intro ext) (simp add: linkTurns_def deriveRepairCompletionCompaction_def deriveRepairs_def
        explicitCommandAttempts_def)
qed

end
