(* ===== verification/Traj_Edges.thy ===== *)
theory Traj_Edges
  imports Traj_Builder
begin

text \<open>
  What the derivation promises: the edges of every relation, in terms of the turns and events of the
  session; that it never fails on well-formed records; and that its answer depends on neither the order of
  its input nor the order in which the map of calls is ranged over.
\<close>

section \<open>The edges of a turn\<close>

named_theorems edge_simps

lemma edges_primitives [edge_simps]:
  "dr_Edges (addDiagnostic c x r) = dr_Edges r"
  "dr_Edges (addEdges es r) = dr_Edges r @ es"
  "dr_Edges (addOutcome oc r) = dr_Edges r"
  by (simp_all add: addDiagnostic_def addEdges_def addOutcome_def)

definition invocationEdges ::
    "trajectory_encoder \<Rightarrow> TranscriptSession \<Rightarrow> Turn \<Rightarrow> event_map \<Rightarrow> gostring list \<Rightarrow> Edge list" where
  "invocationEdges T session turn invocations ambiguous =
    (if tn_Role turn = RoleToolCall \<and> callIDOf turn \<noteq> [] \<and> callIDOf turn \<notin> set ambiguous
     then map (\<lambda>event. newEdge T session (turnReference turn) RelationInvokes (eventReference event)
        (ev_OccurredAt event) EvidenceObserved) (map_get invocations (callIDOf turn))
     else [])"

definition resultEdges ::
    "trajectory_encoder \<Rightarrow> TranscriptSession \<Rightarrow> Turn \<Rightarrow> call_map \<Rightarrow> gostring list \<Rightarrow> Edge list" where
  "resultEdges T session turn calls ambiguous =
    (if tn_Role turn = RoleToolResult \<and> callIDOf turn \<noteq> [] \<and> callIDOf turn \<notin> set ambiguous
     then (case map_get calls (callIDOf turn) of
         [call] \<Rightarrow> [newEdge T session (turnReference turn) RelationReturnsFor (turnReference call)
           (tn_OccurredAt turn) EvidenceObserved]
       | _ \<Rightarrow> [])
     else [])"

abbreviation parentOf :: "Turn \<Rightarrow> gostring" where
  "parentOf turn \<equiv> trim_space (pl_ParentToolUseID (tn_Payload turn))"

definition parentEdges ::
    "trajectory_encoder \<Rightarrow> TranscriptSession \<Rightarrow> Turn \<Rightarrow> call_map \<Rightarrow> gostring list \<Rightarrow> Edge list" where
  "parentEdges T session turn calls ambiguous =
    (if parentOf turn \<noteq> [] \<and> parentOf turn \<notin> set ambiguous
     then (case map_get calls (parentOf turn) of
         [call] \<Rightarrow> if sameNode (turnReference call) (turnReference turn) then []
           else [newEdge T session (turnReference call) RelationParentOf (turnReference turn)
             (tn_OccurredAt turn) EvidenceObserved]
       | _ \<Rightarrow> [])
     else [])"

text \<open>A turn corrects the turn right before it.\<close>

definition corrects :: "text_rules \<Rightarrow> Turn list \<Rightarrow> nat \<Rightarrow> bool" where
  "corrects C turns index \<longleftrightarrow> (let turn = turns ! index; content = trim_space (pl_Text (tn_Payload turn)) in
    tn_Role turn = RoleUser \<and> content \<noteq> [] \<and> \<not> tr_IsMachineGeneratedEnvelope C content \<and> parentOf turn = [] \<and>
    tr_HighConfidenceCorrectionMarker C content \<noteq> [] \<and> index \<noteq> 0 \<and> behaviorRole (tn_Role (turns ! (index - 1))))"

definition correctionEdges ::
    "trajectory_encoder \<Rightarrow> text_rules \<Rightarrow> TranscriptSession \<Rightarrow> Turn list \<Rightarrow> nat \<Rightarrow> Edge list" where
  "correctionEdges T C session turns index =
    (if corrects C turns index
     then map (\<lambda>relation. newEdge T session (turnReference (turns ! index)) relation
         (turnReference (turns ! (index - 1))) (tn_OccurredAt (turns ! index)) EvidenceDeterministicInference)
       [RelationRespondsTo, RelationCorrects]
     else [])"

lemma edges_deriveInvocations:
  "tn_Role turn = RoleToolCall \<Longrightarrow>
    dr_Edges (deriveInvocations T session turn invocations ambiguous r) =
      dr_Edges r @ invocationEdges T session turn invocations ambiguous"
  by (simp add: deriveInvocations_def invocationEdges_def edge_simps Let_def)

lemma edges_deriveToolResult:
  "tn_Role turn = RoleToolResult \<Longrightarrow>
    dr_Edges (deriveToolResult T session turn calls ambiguous r) =
      dr_Edges r @ resultEdges T session turn calls ambiguous"
  by (simp add: deriveToolResult_def resultEdges_def edge_simps Let_def split: list.split)

lemma edges_deriveParent:
  "parentOf turn \<noteq> [] \<Longrightarrow>
    dr_Edges (deriveParent T session turn (parentOf turn) calls ambiguous r) =
      dr_Edges r @ parentEdges T session turn calls ambiguous"
  by (simp add: deriveParent_def parentEdges_def edge_simps split: list.split)

lemma edges_deriveCorrection:
  "tn_Role (turns ! index) = RoleUser \<Longrightarrow>
    dr_Edges (deriveCorrection T C session turns index r) =
      dr_Edges r @ correctionEdges T C session turns index"
  by (simp add: deriveCorrection_def correctionEdges_def corrects_def edge_simps Let_def)

definition turnEdges ::
    "trajectory_encoder \<Rightarrow> text_rules \<Rightarrow> TranscriptSession \<Rightarrow> Turn list \<Rightarrow> call_map \<Rightarrow> gostring list \<Rightarrow> event_map \<Rightarrow>
      nat \<Rightarrow> Edge list" where
  "turnEdges T C session turns calls ambiguous invocations index =
    (let turn = turns ! index in
     invocationEdges T session turn invocations ambiguous @ resultEdges T session turn calls ambiguous @
     parentEdges T session turn calls ambiguous @ correctionEdges T C session turns index)"

lemma edges_turnStep:
  "dr_Edges (turnStep T C session turns calls ambiguous invocations r index) =
    dr_Edges r @ turnEdges T C session turns calls ambiguous invocations index"
proof -
  let ?turn = "turns ! index"
  have 1: "dr_Edges (case tn_Role ?turn of RoleToolCall \<Rightarrow> deriveInvocations T session ?turn invocations ambiguous r
      | RoleToolResult \<Rightarrow> deriveToolResult T session ?turn calls ambiguous r | _ \<Rightarrow> r) =
    dr_Edges r @ invocationEdges T session ?turn invocations ambiguous @ resultEdges T session ?turn calls ambiguous"
    by (cases "tn_Role ?turn")
      (simp_all add: edges_deriveInvocations edges_deriveToolResult, simp_all add: invocationEdges_def resultEdges_def)
  have 2: "dr_Edges (if parentOf ?turn \<noteq> [] then deriveParent T session ?turn (parentOf ?turn) calls ambiguous s else s) =
    dr_Edges s @ parentEdges T session ?turn calls ambiguous" for s
    using edges_deriveParent by (simp add: parentEdges_def)
  have 3: "dr_Edges (if tn_Role ?turn = RoleUser then deriveCorrection T C session turns index s else s) =
    dr_Edges s @ correctionEdges T C session turns index" for s
    using edges_deriveCorrection by (simp add: correctionEdges_def corrects_def Let_def)
  show ?thesis unfolding turnStep_def turnEdges_def Let_def by (simp only: 1 2 3 append_assoc)
qed

section \<open>The edges of the remaining steps\<close>

lemma edges_deriveVerificationOutcome [edge_simps]:
  "dr_Edges (deriveVerificationOutcome T session call position results ambiguous r) = dr_Edges r"
  by (simp add: deriveVerificationOutcome_def Let_def edge_simps split: list.split option.split)

lemma edges_callDiagnostic [edge_simps]: "dr_Edges (callDiagnostic r turn) = dr_Edges r"
  by (simp add: callDiagnostic_def edge_simps)

lemma edges_foreignDiagnostic [edge_simps]: "dr_Edges (foreignDiagnostic key r event) = dr_Edges r"
  by (simp add: foreignDiagnostic_def edge_simps)

lemma edges_fold_same: "(\<And>r x. dr_Edges (step r x) = dr_Edges r) \<Longrightarrow> dr_Edges (foldl step r xs) = dr_Edges r"
  by (induction xs arbitrary: r) simp_all

lemma edges_fold:
  "(\<And>r x. dr_Edges (step r x) = dr_Edges r @ es x) \<Longrightarrow> dr_Edges (foldl step r xs) = dr_Edges r @ concat (map es xs)"
  by (induction xs arbitrary: r) simp_all

lemma edges_ambiguousDiagnostics [edge_simps]: "dr_Edges (ambiguousDiagnostics r entry) = dr_Edges r"
  unfolding ambiguousDiagnostics_def using edges_fold_same [of "\<lambda>r turn. addTurnDiagnostic DiagnosticAmbiguousToolCall turn r"]
  by (simp add: edge_simps)

definition verifiesAt ::
    "trajectory_encoder \<Rightarrow> text_rules \<Rightarrow> TranscriptSession \<Rightarrow> matchedMutation list \<Rightarrow> Turn list \<Rightarrow> nat \<Rightarrow> Edge list" where
  "verifiesAt T C session matched turns position =
    (if verificationTurn C (turns ! position) then verificationEdges T C session matched turns position else [])"

definition modifiesAt ::
    "trajectory_encoder \<Rightarrow> text_rules \<Rightarrow> TranscriptSession \<Rightarrow> event_map \<Rightarrow> gostring list \<Rightarrow> nat \<times> Turn \<Rightarrow> Edge list" where
  "modifiesAt T C session mutations ambiguous entry =
    map (\<lambda>event. newEdge T session (turnReference (snd entry)) RelationModifies (eventReference event)
         (ev_OccurredAt event) EvidenceObserved)
      (if mutates C session ambiguous (snd entry) then map_get mutations (callIDOf (snd entry)) else [])"

text \<open>A success repairs the attempt right before it.\<close>

definition repairs :: "commandAttempt \<Rightarrow> commandAttempt \<Rightarrow> bool" where
  "repairs failure success \<longleftrightarrow>
    ca_exitCode success = 0 \<and> ca_exitCode failure \<noteq> 0 \<and>
    int (ca_position success) - int (ca_position failure) \<le> repairCommandTurnWindow \<and>
    ca_segment failure = ca_segment success \<and> ca_resultPosition failure < ca_position success \<and>
    ca_repairFamily failure \<noteq> [] \<and> ca_repairFamily failure = ca_repairFamily success \<and>
    ca_signature failure \<noteq> ca_signature success"

definition repairEdge :: "trajectory_encoder \<Rightarrow> TranscriptSession \<Rightarrow> commandAttempt \<Rightarrow> commandAttempt \<Rightarrow> Edge" where
  "repairEdge T session failure success =
    newEdgeWithSources T session (turnReference (ca_call success)) RelationRepairs
      (turnReference (ca_call failure)) (tn_OccurredAt (ca_result success)) EvidenceDeterministicInference
      [turnReference (ca_call failure), turnReference (ca_result failure),
       turnReference (ca_call success), turnReference (ca_result success)]"

definition repairsAt ::
    "trajectory_encoder \<Rightarrow> TranscriptSession \<Rightarrow> commandAttempt list \<Rightarrow> nat \<Rightarrow> Edge list" where
  "repairsAt T session attempts i =
    (if i \<noteq> 0 \<and> repairs (attempts ! (i - 1)) (attempts ! i)
     then [repairEdge T session (attempts ! (i - 1)) (attempts ! i)] else [])"

lemma edges_repairScan:
  assumes "ca_exitCode (attempts ! i) = 0" and "i < length attempts"
  shows "dr_Edges (repairScan T session (attempts ! i) (rev (take i attempts)) r) =
    dr_Edges r @ repairsAt T session attempts i"
proof (cases i)
  case 0
  then show ?thesis by (simp add: repairScan_def repairsAt_def)
next
  case (Suc j)
  then have "rev (take i attempts) = attempts ! j # rev (take j attempts)"
    using assms(2) by (simp add: take_Suc_conv_app_nth)
  with Suc assms(1) show ?thesis
    by (auto simp: repairScan_def repairsAt_def repairs_def repairEdge_def edge_simps Let_def)
qed

lemma edges_deriveRepairs:
  "dr_Edges (deriveRepairs T C session turns results ambiguous r) = dr_Edges r @
    concat (map (repairsAt T session (explicitCommandAttempts C turns results ambiguous))
      [0..<length (explicitCommandAttempts C turns results ambiguous)])"
proof -
  let ?as = "explicitCommandAttempts C turns results ambiguous"
  let ?step = "\<lambda>r i. if ca_exitCode (?as ! i) \<noteq> 0 then r else repairScan T session (?as ! i) (rev (take i ?as)) r"
  have "dr_Edges (foldl ?step r [0..<n]) = dr_Edges r @ concat (map (repairsAt T session ?as) [0..<n])"
    if "n \<le> length ?as" for n
    using that
  proof (induction n)
    case (Suc n)
    then have "dr_Edges (?step s n) = dr_Edges s @ repairsAt T session ?as n" for s
      using edges_repairScan [of ?as n] by (auto simp: repairsAt_def repairs_def)
    with Suc show ?case by simp
  qed simp
  then show ?thesis unfolding deriveRepairs_def Let_def by blast
qed

definition claimsAt ::
    "trajectory_encoder \<Rightarrow> text_rules \<Rightarrow> TranscriptSession \<Rightarrow> Turn list \<Rightarrow> matchedMutation list \<Rightarrow> nat \<Rightarrow> Edge list" where
  "claimsAt T C session turns matched position =
    (let turn = turns ! position in
     if \<not> tr_IsCompletionClaim C turn then []
     else case latestMutationPosition C session turns position of
       None \<Rightarrow> []
     | Some latest \<Rightarrow>
         map (\<lambda>m. newEdgeWithSources T session (turnReference turn) RelationClaimsCompletionAfter
              (mm_target m) (tn_OccurredAt turn) EvidenceDeterministicInference
              (mutationSources (turnReference turn) m))
            (filter (\<lambda>m. mm_position m = latest) matched))"

definition compactsAt :: "trajectory_encoder \<Rightarrow> TranscriptSession \<Rightarrow> Turn list \<Rightarrow> nat \<Rightarrow> Edge list" where
  "compactsAt T session turns position =
    (let turn = turns ! position in
     if tn_Role turn \<noteq> RoleCompactionSummary \<or> position = 0 then []
     else [newEdge T session (turnReference turn) RelationCompactsAfter
       (turnReference (turns ! (position - 1))) (tn_OccurredAt turn) EvidenceDeterministicInference])"

lemma edges_deriveCompletionClaims:
  "dr_Edges (deriveCompletionClaims T C session turns matched r) =
    dr_Edges r @ concat (map (claimsAt T C session turns matched) [0..<length turns])"
  unfolding deriveCompletionClaims_def
  by (rule edges_fold) (simp add: claimsAt_def Let_def edge_simps split: option.split)

lemma edges_deriveCompactions:
  "dr_Edges (deriveCompactions T session turns r) =
    dr_Edges r @ concat (map (compactsAt T session turns) [0..<length turns])"
  unfolding deriveCompactions_def
  by (rule edges_fold) (simp add: compactsAt_def Let_def edge_simps)

text \<open>All the edges of a session.\<close>

definition sessionEdges ::
    "trajectory_encoder \<Rightarrow> text_rules \<Rightarrow> TranscriptSession \<Rightarrow> Turn list \<Rightarrow> Event list \<Rightarrow> gostring list \<Rightarrow> Edge list" where
  "sessionEdges T C session turns events ambiguous =
    (let key = ts_SessionKey session;
         mutations = events_of key mutationEvent events;
         matched = concat (map (mutationsAt C session mutations ambiguous) (enumerate 0 turns));
         attempts = explicitCommandAttempts C turns (resultsOf turns) ambiguous in
     concat (map (turnEdges T C session turns (calls_of turns) ambiguous (events_of key (\<lambda>e. True) events)) [0..<length turns]) @
     concat (map (modifiesAt T C session mutations ambiguous) (enumerate 0 turns)) @
     concat (map (verifiesAt T C session matched turns) [0..<length turns]) @
     concat (map (repairsAt T session attempts) [0..<length attempts]) @
     concat (map (claimsAt T C session turns matched) [0..<length turns]) @
     concat (map (compactsAt T session turns) [0..<length turns]))"

lemma edges_mutationEdges:
  "dr_Edges (mutationEdges T C session mutations ambiguous r entry) =
    dr_Edges r @ modifiesAt T C session mutations ambiguous entry"
  by (cases entry) (simp add: mutationEdges_def modifiesAt_def edge_simps)

lemma edges_verificationAt:
  "dr_Edges (verificationAt T C session matched results ambiguous turns r position) =
    dr_Edges r @ verifiesAt T C session matched turns position"
  by (simp add: verificationAt_def verifiesAt_def edge_simps)

lemma edges_linkTurns:
  "dr_Edges (linkTurns T C session turns events ambiguous r) =
    dr_Edges r @ sessionEdges T C session turns events ambiguous"
  unfolding linkTurns_def sessionEdges_def deriveRepairCompletionCompaction_def Let_def
  by (simp only: edges_deriveCompactions edges_deriveCompletionClaims edges_deriveRepairs
      edges_fold [OF edges_verificationAt] edges_fold [OF edges_mutationEdges] edges_fold [OF edges_turnStep]
      edges_fold_same [OF edges_foreignDiagnostic] append_assoc)

lemma edges_initial [edge_simps]: "dr_Edges (initialResult input) = []"
  by (simp add: initialResult_def Let_def edge_simps)

lemma edges_derived:
  "dr_Edges (derived T C input entries) =
    sessionEdges T C (di_Session input) (sortedTurns input) (sortedEvents input) (ambiguousIDs entries)"
  unfolding derived_def
  by (simp only: edges_linkTurns edges_fold_same [OF edges_ambiguousDiagnostics]
      edges_fold_same [OF edges_callDiagnostic] edges_initial append_Nil)

section \<open>Outcomes\<close>

named_theorems outcome_simps

lemma outcomes_primitives [outcome_simps]:
  "dr_Outcomes (addDiagnostic c x r) = dr_Outcomes r"
  "dr_Outcomes (addEdges es r) = dr_Outcomes r"
  "dr_Outcomes (addOutcome oc r) = dr_Outcomes r @ [oc]"
  by (simp_all add: addDiagnostic_def addEdges_def addOutcome_def)

lemma outcomes_fold_same:
  "(\<And>r x. dr_Outcomes (step r x) = dr_Outcomes r) \<Longrightarrow> dr_Outcomes (foldl step r xs) = dr_Outcomes r"
  by (induction xs arbitrary: r) simp_all

lemma outcomes_fold:
  "(\<And>r x. dr_Outcomes (step r x) = dr_Outcomes r @ os x) \<Longrightarrow>
    dr_Outcomes (foldl step r xs) = dr_Outcomes r @ concat (map os xs)"
  by (induction xs arbitrary: r) simp_all

definition correctionOutcomes ::
    "trajectory_encoder \<Rightarrow> text_rules \<Rightarrow> TranscriptSession \<Rightarrow> Turn list \<Rightarrow> nat \<Rightarrow> Outcome list" where
  "correctionOutcomes T C session turns index =
    (if corrects C turns index
     then [newOutcome T session (tn_OccurredAt (turns ! index)) OutcomeCorrection ResultObserved
       [turnReference (turns ! (index - 1)), turnReference (turns ! index)]]
     else [])"

lemma outcomes_turnStep:
  "dr_Outcomes (turnStep T C session turns calls ambiguous invocations r index) =
    dr_Outcomes r @ correctionOutcomes T C session turns index"
proof -
  let ?turn = "turns ! index"
  have i: "dr_Outcomes (deriveInvocations T session t invocations ambiguous s) = dr_Outcomes s" for t s
    by (simp add: deriveInvocations_def outcome_simps Let_def)
  have t: "dr_Outcomes (deriveToolResult T session t calls ambiguous s) = dr_Outcomes s" for t s
    by (simp add: deriveToolResult_def outcome_simps Let_def split: list.split)
  have p: "dr_Outcomes (deriveParent T session t parent calls ambiguous s) = dr_Outcomes s" for t parent s
    by (simp add: deriveParent_def outcome_simps split: list.split)
  have 1: "dr_Outcomes (case tn_Role ?turn of RoleToolCall \<Rightarrow> deriveInvocations T session ?turn invocations ambiguous r
      | RoleToolResult \<Rightarrow> deriveToolResult T session ?turn calls ambiguous r | _ \<Rightarrow> r) = dr_Outcomes r"
    by (cases "tn_Role ?turn") (simp_all add: i t)
  have 2: "dr_Outcomes (if c then deriveParent T session ?turn parent calls ambiguous s else s) = dr_Outcomes s"
    for c parent s by (simp add: p)
  have 3: "dr_Outcomes (if tn_Role ?turn = RoleUser then deriveCorrection T C session turns index s else s) =
    dr_Outcomes s @ correctionOutcomes T C session turns index" for s
    by (simp add: deriveCorrection_def correctionOutcomes_def corrects_def outcome_simps Let_def)
  show ?thesis unfolding turnStep_def Let_def by (simp only: 1 2 3)
qed

text \<open>
  The outcome of a verification: the only later result of its call, when that says whether the command failed.
\<close>

definition verificationOutcomes ::
    "trajectory_encoder \<Rightarrow> text_rules \<Rightarrow> TranscriptSession \<Rightarrow> result_map \<Rightarrow> gostring list \<Rightarrow> Turn list \<Rightarrow> nat \<Rightarrow> Outcome list" where
  "verificationOutcomes T C session results ambiguous turns position =
    (let call = turns ! position in
     if verificationTurn C call \<and> callIDOf call \<noteq> [] \<and> callIDOf call \<notin> set ambiguous
     then (case map snd (filter (\<lambda>candidate. fst candidate > position) (map_get results (callIDOf call))) of
         [result] \<Rightarrow> (case ExplicitToolResultFailed result of
             None \<Rightarrow> []
           | Some failed \<Rightarrow> [newOutcome T session (tn_OccurredAt result)
               (if failed then OutcomeVerificationFail else OutcomeVerificationPass)
               (if failed then ResultFailed else ResultSucceeded) [turnReference call, turnReference result]])
       | _ \<Rightarrow> [])
     else [])"

lemma outcomes_verificationAt:
  "dr_Outcomes (verificationAt T C session matched results ambiguous turns r position) =
    dr_Outcomes r @ verificationOutcomes T C session results ambiguous turns position"
  by (simp add: verificationAt_def verificationOutcomes_def deriveVerificationOutcome_def outcome_simps Let_def
      split: list.split option.split)

definition repairOutcomes ::
    "trajectory_encoder \<Rightarrow> TranscriptSession \<Rightarrow> commandAttempt list \<Rightarrow> nat \<Rightarrow> Outcome list" where
  "repairOutcomes T session attempts i =
    (if i \<noteq> 0 \<and> repairs (attempts ! (i - 1)) (attempts ! i)
     then let failure = attempts ! (i - 1); success = attempts ! i in
       [newOutcome T session (tn_OccurredAt (ca_result success)) OutcomeRepair ResultSucceeded
         [turnReference (ca_call failure), turnReference (ca_result failure),
          turnReference (ca_call success), turnReference (ca_result success)]]
     else [])"

lemma outcomes_repairScan:
  assumes "ca_exitCode (attempts ! i) = 0" and "i < length attempts"
  shows "dr_Outcomes (repairScan T session (attempts ! i) (rev (take i attempts)) r) =
    dr_Outcomes r @ repairOutcomes T session attempts i"
proof (cases i)
  case 0
  then show ?thesis by (simp add: repairScan_def repairOutcomes_def)
next
  case (Suc j)
  then have "rev (take i attempts) = attempts ! j # rev (take j attempts)"
    using assms(2) by (simp add: take_Suc_conv_app_nth)
  with Suc assms(1) show ?thesis
    by (auto simp: repairScan_def repairOutcomes_def repairs_def outcome_simps Let_def)
qed

lemma outcomes_deriveRepairs:
  "dr_Outcomes (deriveRepairs T C session turns results ambiguous r) = dr_Outcomes r @
    concat (map (repairOutcomes T session (explicitCommandAttempts C turns results ambiguous))
      [0..<length (explicitCommandAttempts C turns results ambiguous)])"
proof -
  let ?as = "explicitCommandAttempts C turns results ambiguous"
  let ?step = "\<lambda>r i. if ca_exitCode (?as ! i) \<noteq> 0 then r else repairScan T session (?as ! i) (rev (take i ?as)) r"
  have "dr_Outcomes (foldl ?step r [0..<n]) = dr_Outcomes r @ concat (map (repairOutcomes T session ?as) [0..<n])"
    if "n \<le> length ?as" for n
    using that
  proof (induction n)
    case (Suc n)
    then have "dr_Outcomes (?step s n) = dr_Outcomes s @ repairOutcomes T session ?as n" for s
      using outcomes_repairScan [of ?as n] by (auto simp: repairOutcomes_def repairs_def)
    with Suc show ?case by simp
  qed simp
  then show ?thesis unfolding deriveRepairs_def Let_def by blast
qed

lemma outcomes_unchanged [outcome_simps]:
  "dr_Outcomes (deriveCompletionClaims T C session turns matched r) = dr_Outcomes r"
  "dr_Outcomes (deriveCompactions T session turns r) = dr_Outcomes r"
  "dr_Outcomes (mutationEdges T C session mutations ambiguous r entry) = dr_Outcomes r"
  "dr_Outcomes (foreignDiagnostic key r event) = dr_Outcomes r"
  "dr_Outcomes (callDiagnostic r turn) = dr_Outcomes r"
  "dr_Outcomes (ambiguousDiagnostics r call_entry) = dr_Outcomes r"
  "dr_Outcomes (initialResult input) = []"
proof -
  show "dr_Outcomes (deriveCompletionClaims T C session turns matched r) = dr_Outcomes r"
    unfolding deriveCompletionClaims_def
    by (rule outcomes_fold_same) (simp add: Let_def outcome_simps split: option.split)
  show "dr_Outcomes (deriveCompactions T session turns r) = dr_Outcomes r"
    unfolding deriveCompactions_def by (rule outcomes_fold_same) (simp add: Let_def outcome_simps)
  show "dr_Outcomes (mutationEdges T C session mutations ambiguous r entry) = dr_Outcomes r"
    by (cases entry) (simp add: mutationEdges_def outcome_simps)
  show "dr_Outcomes (foreignDiagnostic key r event) = dr_Outcomes r"
    by (simp add: foreignDiagnostic_def outcome_simps)
  show "dr_Outcomes (callDiagnostic r turn) = dr_Outcomes r"
    by (simp add: callDiagnostic_def outcome_simps)
  show "dr_Outcomes (ambiguousDiagnostics r call_entry) = dr_Outcomes r"
    unfolding ambiguousDiagnostics_def
    using outcomes_fold_same [of "\<lambda>r turn. addTurnDiagnostic DiagnosticAmbiguousToolCall turn r"]
    by (simp add: outcome_simps)
  show "dr_Outcomes (initialResult input) = []"
    by (simp add: initialResult_def Let_def outcome_simps)
qed

definition sessionOutcomes ::
    "trajectory_encoder \<Rightarrow> text_rules \<Rightarrow> TranscriptSession \<Rightarrow> Turn list \<Rightarrow> gostring list \<Rightarrow> Outcome list" where
  "sessionOutcomes T C session turns ambiguous =
    (let results = resultsOf turns; attempts = explicitCommandAttempts C turns results ambiguous in
     concat (map (correctionOutcomes T C session turns) [0..<length turns]) @
     concat (map (verificationOutcomes T C session results ambiguous turns) [0..<length turns]) @
     concat (map (repairOutcomes T session attempts) [0..<length attempts]))"

lemma outcomes_derived:
  "dr_Outcomes (derived T C input entries) =
    sessionOutcomes T C (di_Session input) (sortedTurns input) (ambiguousIDs entries)"
  unfolding derived_def linkTurns_def sessionOutcomes_def deriveRepairCompletionCompaction_def Let_def
  by (simp only: outcomes_unchanged outcomes_deriveRepairs outcomes_fold [OF outcomes_verificationAt]
      outcomes_fold [OF outcomes_turnStep] outcomes_fold_same [OF outcomes_unchanged(3)]
      outcomes_fold_same [OF outcomes_unchanged(4)] outcomes_fold_same [OF outcomes_unchanged(5)]
      outcomes_fold_same [OF outcomes_unchanged(6)] append_Nil append_assoc)

end
