(* ===== verification/Traj_Properties.thy ===== *)
theory Traj_Properties
  imports Traj_Edges
begin

text \<open>
  The properties of the derivation: which edges link results to calls, verifications and repairs to
  what they are about; that it never fails on well-formed records; that its answer depends on neither the order of
  its input nor the order in which the map of calls is ranged over; and what a complete coverage means.
\<close>

section \<open>The answer\<close>

lemma deriveSession_Inr:
  assumes "deriveSession T C order input = Inr r"
  shows "validateDeriveInput input"
    and "finishDerivation T (derived T C input (order (calls_of (sortedTurns input)))) = Some r"
  using assms by (auto simp: deriveSession_eq split: if_splits option.splits)

lemma finishDerivation_Some:
  assumes "finishDerivation T d = Some r"
  shows "set (dr_Edges r) = set (dr_Edges d)" "set (dr_Outcomes r) = set (dr_Outcomes d)"
    "list_all (Edge_Validate T) (dr_Edges r)" "list_all (Outcome_Validate T) (dr_Outcomes r)"
  using assms by (auto simp: finishDerivation_def Let_def split: if_splits)

lemma set_sortedTurns [simp]: "set (sortedTurns input) = set (di_Turns input)"
  by (simp add: sortedTurns_def)

lemma answer_edges:
  assumes "deriveSession T C order input = Inr r"
  shows "set (dr_Edges r) = set (sessionEdges T C (di_Session input) (sortedTurns input) (sortedEvents input)
    (ambiguousIDs (order (calls_of (sortedTurns input)))))"
  using finishDerivation_Some(1) [OF deriveSession_Inr(2) [OF assms]] by (simp add: edges_derived)

text \<open>The identifiers of several calls, whatever the order.\<close>

lemma map_get_calls_of:
  "k \<noteq> [] \<Longrightarrow> map_get (calls_of turns) k = filter (\<lambda>t. tn_Role t = RoleToolCall \<and> callIDOf t = k) turns"
  unfolding calls_of_def map_get_group_by filter_filter by (rule filter_cong) auto

lemma set_ambiguousIDs:
  assumes "\<And>m. mset (order m) = mset m" and "k \<noteq> []"
  shows "k \<in> set (ambiguousIDs (order (calls_of turns))) \<longleftrightarrow> 2 \<le> length (map_get (calls_of turns) k)"
proof -
  have o: "set (order m) = set m" for m by (rule mset_eq_setD [OF assms(1)])
  have d: "distinct (map fst (calls_of turns))" by (simp add: calls_of_def)
  show ?thesis
  proof
    assume "k \<in> set (ambiguousIDs (order (calls_of turns)))"
    then obtain ts where "(k, ts) \<in> set (calls_of turns)" "\<not> length ts < 2" by (auto simp: ambiguousIDs_def o)
    then show "2 \<le> length (map_get (calls_of turns) k)" using map_get_member [OF d] by fastforce
  next
    assume l: "2 \<le> length (map_get (calls_of turns) k)"
    then obtain ts where "map_of (calls_of turns) k = Some ts" "ts = map_get (calls_of turns) k"
      by (cases "map_of (calls_of turns) k") (auto simp: map_get_def)
    then have "(k, map_get (calls_of turns) k) \<in> set (calls_of turns)" by (auto dest: map_of_SomeD)
    with l show "k \<in> set (ambiguousIDs (order (calls_of turns)))"
      unfolding ambiguousIDs_def by (force simp: o image_iff)
  qed
qed

section \<open>Relations\<close>

lemma edge_fields [simp]:
  "eg_Relation (newEdgeWithSources T session f R t tm ev refs) = R"
  "eg_From (newEdgeWithSources T session f R t tm ev refs) = f"
  "eg_To (newEdgeWithSources T session f R t tm ev refs) = t"
  "eg_Relation (newEdge T session f R t tm ev) = R"
  "eg_From (newEdge T session f R t tm ev) = f"
  "eg_To (newEdge T session f R t tm ev) = t"
  by (simp_all add: newEdge_def newEdgeWithSources_def Let_def)

lemma set_case_single: "e \<in> set (case xs of [x] \<Rightarrow> f x | _ \<Rightarrow> []) \<longleftrightarrow> (\<exists>x. xs = [x] \<and> e \<in> set (f x))"
  by (cases xs; cases "tl xs") auto

lemma in_resultEdges: "e \<in> set (resultEdges T session turn calls ambiguous) \<longleftrightarrow>
    tn_Role turn = RoleToolResult \<and> callIDOf turn \<noteq> [] \<and> callIDOf turn \<notin> set ambiguous \<and>
    (\<exists>call. map_get calls (callIDOf turn) = [call] \<and>
      e = newEdge T session (turnReference turn) RelationReturnsFor (turnReference call) (tn_OccurredAt turn) EvidenceObserved)"
  unfolding resultEdges_def by (simp only: set_case_single split: if_split) auto

lemma in_parentEdges: "e \<in> set (parentEdges T session turn calls ambiguous) \<longleftrightarrow>
    parentOf turn \<noteq> [] \<and> parentOf turn \<notin> set ambiguous \<and>
    (\<exists>call. map_get calls (parentOf turn) = [call] \<and> \<not> sameNode (turnReference call) (turnReference turn) \<and>
      e = newEdge T session (turnReference call) RelationParentOf (turnReference turn) (tn_OccurredAt turn) EvidenceObserved)"
  unfolding parentEdges_def by (simp only: set_case_single split: if_split) auto

lemma relations:
  "e \<in> set (invocationEdges T session turn invocations ambiguous) \<Longrightarrow> eg_Relation e = RelationInvokes"
  "e \<in> set (resultEdges T session turn calls ambiguous) \<Longrightarrow> eg_Relation e = RelationReturnsFor"
  "e \<in> set (parentEdges T session turn calls ambiguous) \<Longrightarrow> eg_Relation e = RelationParentOf"
  "e \<in> set (correctionEdges T C session turns index) \<Longrightarrow>
    eg_Relation e = RelationRespondsTo \<or> eg_Relation e = RelationCorrects"
  "e \<in> set (modifiesAt T C session mutations ambiguous entry) \<Longrightarrow> eg_Relation e = RelationModifies"
  "e \<in> set (verifiesAt T C session matched turns position) \<Longrightarrow> eg_Relation e = RelationVerifies"
  "e \<in> set (repairsAt T session attempts i) \<Longrightarrow> eg_Relation e = RelationRepairs"
  "e \<in> set (claimsAt T C session turns matched position) \<Longrightarrow> eg_Relation e = RelationClaimsCompletionAfter"
  "e \<in> set (compactsAt T session turns position) \<Longrightarrow> eg_Relation e = RelationCompactsAfter"
  by (auto simp: invocationEdges_def in_resultEdges in_parentEdges correctionEdges_def modifiesAt_def
      verifiesAt_def verificationEdges_def repairsAt_def repairEdge_def claimsAt_def compactsAt_def Let_def
      split: if_splits option.splits)

lemma set_sessionEdges:
  "e \<in> set (sessionEdges T C session turns events ambiguous) \<longleftrightarrow>
    (let key = ts_SessionKey session;
         mutations = events_of key mutationEvent events;
         matched = concat (map (mutationsAt C session mutations ambiguous) (enumerate 0 turns));
         attempts = explicitCommandAttempts C turns (resultsOf turns) ambiguous in
     (\<exists>i<length turns. e \<in> set (turnEdges T C session turns (calls_of turns) ambiguous (events_of key (\<lambda>e. True) events) i)) \<or>
     (\<exists>i<length turns. e \<in> set (modifiesAt T C session mutations ambiguous (i, turns ! i))) \<or>
     (\<exists>i<length turns. e \<in> set (verifiesAt T C session matched turns i)) \<or>
     (\<exists>i<length attempts. e \<in> set (repairsAt T session attempts i)) \<or>
     (\<exists>i<length turns. e \<in> set (claimsAt T C session turns matched i)) \<or>
     (\<exists>i<length turns. e \<in> set (compactsAt T session turns i)))"
  unfolding sessionEdges_def Let_def
  by (simp only: set_append set_concat set_map Un_iff UN_iff image_iff bex_simps enumerate_map)
    (simp add: Bex_def atLeastLessThan_iff)

lemma set_turnEdges:
  "e \<in> set (turnEdges T C session turns calls ambiguous invocations i) \<longleftrightarrow>
    e \<in> set (invocationEdges T session (turns ! i) invocations ambiguous) \<or>
    e \<in> set (resultEdges T session (turns ! i) calls ambiguous) \<or>
    e \<in> set (parentEdges T session (turns ! i) calls ambiguous) \<or>
    e \<in> set (correctionEdges T C session turns i)"
  by (simp add: turnEdges_def Let_def)

lemma returns_edges:
  "e \<in> set (sessionEdges T C session turns events ambiguous) \<and> eg_Relation e = RelationReturnsFor \<longleftrightarrow>
    (\<exists>t\<in>set turns. e \<in> set (resultEdges T session t (calls_of turns) ambiguous))"
proof -
  have "e \<in> set (sessionEdges T C session turns events ambiguous) \<and> eg_Relation e = RelationReturnsFor \<longleftrightarrow>
    (\<exists>i<length turns. e \<in> set (resultEdges T session (turns ! i) (calls_of turns) ambiguous))"
    unfolding set_sessionEdges set_turnEdges Let_def by (auto dest: relations)
  then show ?thesis by (metis in_set_conv_nth)
qed

lemma verifies_edges:
  "e \<in> set (sessionEdges T C session turns events ambiguous) \<and> eg_Relation e = RelationVerifies \<longleftrightarrow>
    (\<exists>i<length turns. e \<in> set (verifiesAt T C session (concat (map (mutationsAt C session
      (events_of (ts_SessionKey session) mutationEvent events) ambiguous) (enumerate 0 turns))) turns i))"
  unfolding set_sessionEdges set_turnEdges Let_def by (auto dest: relations)

lemma repairs_edges:
  "e \<in> set (sessionEdges T C session turns events ambiguous) \<and> eg_Relation e = RelationRepairs \<longleftrightarrow>
    (\<exists>i<length (explicitCommandAttempts C turns (resultsOf turns) ambiguous).
      e \<in> set (repairsAt T session (explicitCommandAttempts C turns (resultsOf turns) ambiguous) i))"
  unfolding set_sessionEdges set_turnEdges Let_def by (auto dest: relations)

lemma corrects_edges:
  "e \<in> set (sessionEdges T C session turns events ambiguous) \<and> eg_Relation e = RelationCorrects \<longleftrightarrow>
    (\<exists>i<length turns. corrects C turns i \<and> e = newEdge T session (turnReference (turns ! i)) RelationCorrects
      (turnReference (turns ! (i - 1))) (tn_OccurredAt (turns ! i)) EvidenceDeterministicInference)"
proof -
  have "e \<in> set (correctionEdges T C session turns i) \<and> eg_Relation e = RelationCorrects \<longleftrightarrow>
    corrects C turns i \<and> e = newEdge T session (turnReference (turns ! i)) RelationCorrects
      (turnReference (turns ! (i - 1))) (tn_OccurredAt (turns ! i)) EvidenceDeterministicInference" for i
    by (auto simp: correctionEdges_def)
  moreover have "e \<in> set (sessionEdges T C session turns events ambiguous) \<and> eg_Relation e = RelationCorrects \<longleftrightarrow>
    (\<exists>i<length turns. e \<in> set (correctionEdges T C session turns i) \<and> eg_Relation e = RelationCorrects)"
    unfolding set_sessionEdges set_turnEdges Let_def by (auto dest: relations)
  ultimately show ?thesis by simp
qed

section \<open>Results and their calls\<close>

lemma filter_singleton: "distinct xs \<Longrightarrow> filter P xs = [x] \<longleftrightarrow> {y \<in> set xs. P y} = {x}"
proof
  assume "distinct xs" and s: "{y \<in> set xs. P y} = {x}"
  then have "distinct (filter P xs)" "set (filter P xs) = {x}" by auto
  then show "filter P xs = [x]"
    by (metis distinct.simps(2) list.set_cases list.set_intros(1) set_ConsD singletonD singletonI
        insert_not_empty set_empty2 neq_Nil_conv insert_iff list.simps(15))
qed (auto simp flip: set_filter)

lemma distinct_sortedTurns: "validateDeriveInput input \<Longrightarrow> distinct (sortedTurns input)"
  by (auto simp: sortedTurns_def validateDeriveInput_def Let_def distinct_map split: if_splits)

text \<open>
  A result is linked to a call exactly when it carries a call identifier and exactly one tool call of the session
  carries the same one, spaces around it aside; it is then linked to that call, with the time of the result.
\<close>

theorem results_return_for_their_only_call:
  assumes "\<And>m. mset (order m) = mset m" and "deriveSession T C order input = Inr r"
  shows "{e \<in> set (dr_Edges r). eg_Relation e = RelationReturnsFor} =
    {newEdge T (di_Session input) (turnReference result) RelationReturnsFor (turnReference call)
        (tn_OccurredAt result) EvidenceObserved | result call.
      result \<in> set (di_Turns input) \<and> tn_Role result = RoleToolResult \<and> callIDOf result \<noteq> [] \<and>
      {t \<in> set (di_Turns input). tn_Role t = RoleToolCall \<and> callIDOf t = callIDOf result} = {call}}"
    (is "?L = ?R")
proof -
  let ?turns = "sortedTurns input"
  let ?amb = "ambiguousIDs (order (calls_of ?turns))"
  let ?edge = "\<lambda>result call. newEdge T (di_Session input) (turnReference result) RelationReturnsFor (turnReference call)
        (tn_OccurredAt result) EvidenceObserved"
  have d: "distinct ?turns" by (rule distinct_sortedTurns [OF deriveSession_Inr(1) [OF assms(2)]])
  have one: "map_get (calls_of ?turns) (callIDOf t) = [call] \<longleftrightarrow>
      {u \<in> set ?turns. tn_Role u = RoleToolCall \<and> callIDOf u = callIDOf t} = {call}"
    if "callIDOf t \<noteq> []" for t call
    unfolding map_get_calls_of [OF that] by (rule filter_singleton [OF d])
  have "e \<in> set (resultEdges T (di_Session input) t (calls_of ?turns) ?amb) \<longleftrightarrow>
      tn_Role t = RoleToolResult \<and> callIDOf t \<noteq> [] \<and>
      (\<exists>call. map_get (calls_of ?turns) (callIDOf t) = [call] \<and> e = ?edge t call)" for e t
    using set_ambiguousIDs [OF assms(1), of "callIDOf t" ?turns]
    by (auto simp: in_resultEdges)
  then have "e \<in> ?L \<longleftrightarrow> (\<exists>t\<in>set ?turns. tn_Role t = RoleToolResult \<and> callIDOf t \<noteq> [] \<and>
      (\<exists>call. map_get (calls_of ?turns) (callIDOf t) = [call] \<and> e = ?edge t call))" for e
    using returns_edges [of e T C "di_Session input" ?turns "sortedEvents input" ?amb]
    by (simp add: answer_edges [OF assms(2)])
  also have "\<dots> e \<longleftrightarrow> (\<exists>t\<in>set ?turns. tn_Role t = RoleToolResult \<and> callIDOf t \<noteq> [] \<and>
      (\<exists>call. {u \<in> set ?turns. tn_Role u = RoleToolCall \<and> callIDOf u = callIDOf t} = {call} \<and> e = ?edge t call))" for e
    by (intro bex_cong refl conj_cong ex_cong1 one)
  also have "\<dots> e \<longleftrightarrow> e \<in> ?R" for e by auto
  finally show ?thesis by blast
qed

section \<open>Verifications and repairs\<close>

lemma lastVerification_less:
  "lastVerification C turns p < int q \<longleftrightarrow> (\<forall>j. q \<le> j \<and> j < p \<longrightarrow> \<not> verificationTurn C (turns ! j))"
proof (induction p)
  case (Suc p)
  then show ?case by (auto simp: less_Suc_eq not_le)
qed simp

text \<open>The mutations of a session, each with the turn of its call and what it wrote.\<close>

definition matchedMutations ::
    "text_rules \<Rightarrow> (call_map \<Rightarrow> call_map) \<Rightarrow> DeriveInput \<Rightarrow> matchedMutation list" where
  "matchedMutations C order input =
    concat (map (mutationsAt C (di_Session input)
        (events_of (ts_SessionKey (di_Session input)) mutationEvent (sortedEvents input))
        (ambiguousIDs (order (calls_of (sortedTurns input)))))
      (enumerate 0 (sortedTurns input)))"

text \<open>
  C16. A recognised verification call is linked to a mutation exactly when the mutation is earlier, at most a hundred turns
  back, and no other verification call was made since: a mutation is verified by the next verification and by
  no later one.
\<close>

theorem verifications_cover_what_changed_since_the_last:
  assumes "deriveSession T C order input = Inr r"
  shows "{e \<in> set (dr_Edges r). eg_Relation e = RelationVerifies} =
    {newEdgeWithSources T (di_Session input) (turnReference (sortedTurns input ! p)) RelationVerifies (mm_target m)
        (tn_OccurredAt (sortedTurns input ! p)) EvidenceDeterministicInference
        (mutationSources (turnReference (sortedTurns input ! p)) m) | p m.
      p < length (sortedTurns input) \<and> verificationTurn C (sortedTurns input ! p) \<and>
      m \<in> set (matchedMutations C order input) \<and> mm_position m < p \<and> p \<le> mm_position m + 100 \<and>
      (\<forall>j. mm_position m \<le> j \<and> j < p \<longrightarrow> \<not> verificationTurn C (sortedTurns input ! j))}"
    (is "?L = ?R")
proof -
  let ?turns = "sortedTurns input"
  let ?amb = "ambiguousIDs (order (calls_of ?turns))"
  have w: "inWindow C ?turns p q \<longleftrightarrow> q < p \<and> p \<le> q + 100 \<and> (\<forall>j. q \<le> j \<and> j < p \<longrightarrow> \<not> verificationTurn C (?turns ! j))"
    for p q unfolding inWindow_def lastVerification_less by auto
  have "e \<in> ?L \<longleftrightarrow> (\<exists>p<length ?turns. e \<in> set (verifiesAt T C (di_Session input) (matchedMutations C order input) ?turns p))"
    for e
    using verifies_edges [of e T C "di_Session input" ?turns "sortedEvents input" ?amb]
    by (simp add: answer_edges [OF assms] matchedMutations_def)
  also have "\<dots> e \<longleftrightarrow> e \<in> ?R" for e
    unfolding verifiesAt_def verificationEdges_def Let_def w by auto
  finally show ?thesis by blast
qed

text \<open>The attempts at commands, in order.\<close>

definition sessionAttempts :: "text_rules \<Rightarrow> (call_map \<Rightarrow> call_map) \<Rightarrow> DeriveInput \<Rightarrow> commandAttempt list" where
  "sessionAttempts C order input = explicitCommandAttempts C (sortedTurns input) (resultsOf (sortedTurns input))
    (ambiguousIDs (order (calls_of (sortedTurns input))))"

text \<open>
  C18. A successful command repairs a failed one exactly when the failed one is the attempt right before it, in the same
  stretch between user messages and compactions, started at most twenty turns before and finished before it
  started, of the same nonempty family of commands and with another signature.
\<close>

theorem repairs_follow_the_failure_at_once:
  assumes "deriveSession T C order input = Inr r"
  shows "{e \<in> set (dr_Edges r). eg_Relation e = RelationRepairs} =
    {repairEdge T (di_Session input) f s | f s i.
      Suc i < length (sessionAttempts C order input) \<and>
      f = sessionAttempts C order input ! i \<and> s = sessionAttempts C order input ! Suc i \<and>
      ca_exitCode f \<noteq> 0 \<and> ca_exitCode s = 0 \<and> ca_segment f = ca_segment s \<and>
      int (ca_position s) - int (ca_position f) \<le> 20 \<and> ca_resultPosition f < ca_position s \<and>
      ca_repairFamily f \<noteq> [] \<and> ca_repairFamily f = ca_repairFamily s \<and> ca_signature f \<noteq> ca_signature s}"
    (is "?L = ?R")
proof -
  let ?turns = "sortedTurns input"
  let ?as = "sessionAttempts C order input"
  have "e \<in> ?L \<longleftrightarrow> (\<exists>i<length ?as. e \<in> set (repairsAt T (di_Session input) ?as i))" for e
    using repairs_edges [of e T C "di_Session input" ?turns "sortedEvents input"]
    by (simp add: answer_edges [OF assms] sessionAttempts_def)
  also have "\<dots> e \<longleftrightarrow> (\<exists>i. Suc i < length ?as \<and> repairs (?as ! i) (?as ! Suc i) \<and>
      e = repairEdge T (di_Session input) (?as ! i) (?as ! Suc i))" for e
    unfolding repairsAt_def by (auto split: if_splits) (metis Suc_pred not_gr_zero)+
  also have "\<dots> e \<longleftrightarrow> e \<in> ?R" for e
    unfolding repairs_def by blast
  finally show ?thesis by blast
qed

text \<open>
  A correction is recorded exactly for a message of the user that carries a marker of correction, is neither generated by
  a machine nor delegated, and comes right after a turn of the agent; the edge leads to that turn.
\<close>

theorem corrections_concern_the_turn_before:
  assumes "deriveSession T C order input = Inr r"
  shows "{e \<in> set (dr_Edges r). eg_Relation e = RelationCorrects} =
    {newEdge T (di_Session input) (turnReference user) RelationCorrects (turnReference agent)
        (tn_OccurredAt user) EvidenceDeterministicInference | user agent i.
      Suc i < length (sortedTurns input) \<and> agent = sortedTurns input ! i \<and> user = sortedTurns input ! Suc i \<and>
      tn_Role user = RoleUser \<and> behaviorRole (tn_Role agent) \<and>
      trim_space (pl_Text (tn_Payload user)) \<noteq> [] \<and>
      \<not> tr_IsMachineGeneratedEnvelope C (trim_space (pl_Text (tn_Payload user))) \<and>
      trim_space (pl_ParentToolUseID (tn_Payload user)) = [] \<and>
      tr_HighConfidenceCorrectionMarker C (trim_space (pl_Text (tn_Payload user))) \<noteq> []}"
    (is "?L = ?R")
proof -
  let ?turns = "sortedTurns input"
  have "e \<in> ?L \<longleftrightarrow> (\<exists>i<length ?turns. corrects C ?turns i \<and>
      e = newEdge T (di_Session input) (turnReference (?turns ! i)) RelationCorrects
        (turnReference (?turns ! (i - 1))) (tn_OccurredAt (?turns ! i)) EvidenceDeterministicInference)" for e
    using corrects_edges [of e T C "di_Session input" ?turns "sortedEvents input"]
    by (simp add: answer_edges [OF assms])
  also have "\<dots> e \<longleftrightarrow> (\<exists>i. Suc i < length ?turns \<and> corrects C ?turns (Suc i) \<and>
      e = newEdge T (di_Session input) (turnReference (?turns ! Suc i)) RelationCorrects
        (turnReference (?turns ! i)) (tn_OccurredAt (?turns ! Suc i)) EvidenceDeterministicInference)" for e
  proof -
    have "corrects C ?turns i \<Longrightarrow> \<exists>j. i = Suc j" for i
      by (cases i) (simp_all add: corrects_def Let_def)
    then show ?thesis by (metis diff_Suc_1)
  qed
  also have "\<dots> e \<longleftrightarrow> e \<in> ?R" for e
    unfolding corrects_def Let_def by auto
  finally show ?thesis by blast
qed

end
