(* ===== verification/Cand_Properties.thy ===== *)
theory Cand_Properties
  imports Cand_Compile Cand_Groups Traj_Properties
begin

text \<open>
  What the candidate compiler promises: it always returns; what it compiles is inert, valid and cites only turns
  that are unambiguous; a correction quotes its user; an episode is anchored by its most preferred verification.
\<close>

section \<open>The index of turns\<close>

definition uniqueTurns :: "Turn list \<Rightarrow> Turn list" where
  "uniqueTurns turns = filter (\<lambda>t. length (filter (\<lambda>u. turnKeyOf u = turnKeyOf t) turns) = 1) turns"

definition repeatedKey :: "Turn list \<Rightarrow> turnKey \<Rightarrow> bool" where
  "repeatedKey turns key \<longleftrightarrow> length (filter (\<lambda>u. turnKeyOf u = key) turns) > 1"

lemma uniqueTurns_snoc:
  "uniqueTurns (turns @ [t]) =
    (if \<exists>u\<in>set turns. turnKeyOf u = turnKeyOf t then filter (\<lambda>u. turnKeyOf u \<noteq> turnKeyOf t) (uniqueTurns turns)
     else uniqueTurns turns @ [t])"
proof (cases "\<exists>u\<in>set turns. turnKeyOf u = turnKeyOf t")
  case True
  then have n: "filter (\<lambda>u. turnKeyOf u = turnKeyOf t) turns \<noteq> []" by (auto simp: filter_empty_conv)
  have "filter (\<lambda>u. length (filter (\<lambda>v. turnKeyOf v = turnKeyOf u) (turns @ [t])) = 1) turns =
      filter (\<lambda>u. turnKeyOf u \<noteq> turnKeyOf t \<and> length (filter (\<lambda>v. turnKeyOf v = turnKeyOf u) turns) = 1) turns"
  proof (rule filter_cong [OF refl])
    fix u assume "u \<in> set turns"
    then have "filter (\<lambda>v. turnKeyOf v = turnKeyOf u) turns \<noteq> []" by (auto simp: filter_empty_conv)
    then show "(length (filter (\<lambda>v. turnKeyOf v = turnKeyOf u) (turns @ [t])) = 1) =
        (turnKeyOf u \<noteq> turnKeyOf t \<and> length (filter (\<lambda>v. turnKeyOf v = turnKeyOf u) turns) = 1)"
      by auto
  qed
  with True n show ?thesis by (simp add: uniqueTurns_def conj_commute)
next
  case False
  have "filter (\<lambda>u. length (filter (\<lambda>v. turnKeyOf v = turnKeyOf u) (turns @ [t])) = 1) turns = uniqueTurns turns"
    unfolding uniqueTurns_def using False by (intro filter_cong) auto
  moreover have "filter (\<lambda>v. turnKeyOf v = turnKeyOf t) turns = []" using False by (auto simp: filter_empty_conv)
  ultimately show ?thesis using False by (simp add: uniqueTurns_def)
qed

lemma indexTurn_fold:
  "case foldl indexTurn ([], []) turns of (index, ambiguous) \<Rightarrow>
    index = uniqueTurns turns \<and> (\<forall>key. key \<in> set ambiguous \<longleftrightarrow> repeatedKey turns key)"
proof (induction turns rule: rev_induct)
  case Nil
  then show ?case by (simp add: uniqueTurns_def repeatedKey_def)
next
  case (snoc t turns)
  obtain index ambiguous where f: "foldl indexTurn ([], []) turns = (index, ambiguous)"
    and i: "index = uniqueTurns turns" and a: "\<forall>key. key \<in> set ambiguous \<longleftrightarrow> repeatedKey turns key"
    using snoc by (cases "foldl indexTurn ([], []) turns") auto
  let ?same = "filter (\<lambda>u. turnKeyOf u = turnKeyOf t) turns"
  have k: "turnKeyOf t \<in> set (map turnKeyOf index) \<longleftrightarrow> length ?same = 1"
  proof
    assume "turnKeyOf t \<in> set (map turnKeyOf index)"
    then show "length ?same = 1" unfolding i uniqueTurns_def by auto
  next
    assume l: "length ?same = 1"
    then obtain u where "u \<in> set ?same" by (cases ?same) auto
    then have u: "u \<in> set turns" "turnKeyOf u = turnKeyOf t" by auto
    with l have "u \<in> set index" unfolding i uniqueTurns_def by simp
    with u(2) show "turnKeyOf t \<in> set (map turnKeyOf index)" by (metis image_eqI list.set_map)
  qed
  have n: "(\<exists>u\<in>set turns. turnKeyOf u = turnKeyOf t) \<longleftrightarrow> ?same \<noteq> []" by (auto simp: filter_empty_conv)
  have r: "repeatedKey (turns @ [t]) key \<longleftrightarrow> repeatedKey turns key \<or> (key = turnKeyOf t \<and> ?same \<noteq> [])" for key
    by (auto simp: repeatedKey_def)
  have step: "foldl indexTurn ([], []) (turns @ [t]) =
      (if turnKeyOf t \<in> set (map turnKeyOf index)
       then (filter (\<lambda>u. turnKeyOf u \<noteq> turnKeyOf t) index, turnKeyOf t # ambiguous)
       else if turnKeyOf t \<notin> set ambiguous then (index @ [t], ambiguous) else (index, ambiguous))"
    by (simp add: f) (simp add: indexTurn_def)
  consider "length ?same = 0" | "length ?same = 1" | "length ?same > 1" by linarith
  then show ?case
  proof cases
    case 1
    then have "\<not> repeatedKey turns (turnKeyOf t)" by (simp add: repeatedKey_def)
    moreover from this have "turnKeyOf t \<notin> set ambiguous" using a by blast
    moreover have "?same = []" using 1 by simp
    ultimately show ?thesis using k n r a i unfolding step
      by (simp add: uniqueTurns_snoc del: split_paired_All)
  next
    case 2
    then have "?same \<noteq> []" by auto
    with 2 k n r a i show ?thesis unfolding step by (simp add: uniqueTurns_snoc del: split_paired_All) blast
  next
    case 3
    then have s: "?same \<noteq> []" and rt: "repeatedKey turns (turnKeyOf t)" by (auto simp: repeatedKey_def)
    have "filter (\<lambda>u. turnKeyOf u \<noteq> turnKeyOf t) (uniqueTurns turns) = uniqueTurns turns"
      by (rule filter_True) (use 3 in \<open>auto simp: uniqueTurns_def\<close>)
    moreover have "turnKeyOf t \<notin> set (map turnKeyOf index)"
      using 3 k by simp_all
    moreover have "turnKeyOf t \<in> set ambiguous" using a rt by blast
    ultimately show ?thesis using s rt n r a i unfolding step by (simp add: uniqueTurns_snoc del: split_paired_All) blast
  qed
qed

lemma newCompiler_turns: "cp_turns (newCompiler input) = uniqueTurns (ci_Turns input)"
  and newCompiler_ambiguous: "set (cp_ambiguousTurns (newCompiler input)) = {key. repeatedKey (ci_Turns input) key}"
  using indexTurn_fold [of "ci_Turns input"] by (auto simp: newCompiler_def Let_def split: prod.splits)

lemma lookup_turn:
  "lookupTurn (newCompiler input) ref = Some t \<longleftrightarrow>
    nr_Kind ref = NodeTranscriptTurn \<and> nr_TurnIndex ref = Some (tn_TurnIndex t) \<and> nr_SessionKey ref = tn_SessionKey t \<and>
    filter (\<lambda>u. turnKeyOf u = turnKeyOf t) (ci_Turns input) = [t]"
proof -
  let ?turns = "ci_Turns input"
  have u: "u \<in> set (uniqueTurns ?turns) \<longleftrightarrow> filter (\<lambda>v. turnKeyOf v = turnKeyOf u) ?turns = [u]" for u
  proof
    assume "u \<in> set (uniqueTurns ?turns)"
    then have l: "length (filter (\<lambda>v. turnKeyOf v = turnKeyOf u) ?turns) = 1" and "u \<in> set ?turns"
      by (auto simp: uniqueTurns_def)
    then have m: "u \<in> set (filter (\<lambda>v. turnKeyOf v = turnKeyOf u) ?turns)" by simp
    from l obtain w where "filter (\<lambda>v. turnKeyOf v = turnKeyOf u) ?turns = [w]"
      by (cases "filter (\<lambda>v. turnKeyOf v = turnKeyOf u) ?turns") auto
    with m show "filter (\<lambda>v. turnKeyOf v = turnKeyOf u) ?turns = [u]" by simp
  next
    assume f: "filter (\<lambda>v. turnKeyOf v = turnKeyOf u) ?turns = [u]"
    then have "u \<in> set (filter (\<lambda>v. turnKeyOf v = turnKeyOf u) ?turns)" by simp
    then have "u \<in> set ?turns" by simp
    with f show "u \<in> set (uniqueTurns ?turns)" by (simp add: uniqueTurns_def)
  qed
  have one: "a = b" if "a \<in> set (uniqueTurns ?turns)" "b \<in> set (uniqueTurns ?turns)" "turnKeyOf a = turnKeyOf b" for a b
  proof -
    from that(1,2) have "filter (\<lambda>v. turnKeyOf v = turnKeyOf a) ?turns = [a]"
      "filter (\<lambda>v. turnKeyOf v = turnKeyOf b) ?turns = [b]" unfolding u by blast+
    then have "[a] = [b]" unfolding that(3) by (rule trans [OF sym])
    then show ?thesis by blast
  qed
  have nr: "\<not> repeatedKey ?turns (turnKeyOf a)" if "a \<in> set (uniqueTurns ?turns)" for a
  proof -
    from that have "filter (\<lambda>v. turnKeyOf v = turnKeyOf a) ?turns = [a]" unfolding u .
    then show ?thesis by (simp only: repeatedKey_def) simp
  qed
  have f: "find (\<lambda>v. turnKeyOf v = key) (uniqueTurns ?turns) = Some t \<longleftrightarrow> t \<in> set (uniqueTurns ?turns) \<and> turnKeyOf t = key" for key
  proof
    assume "find (\<lambda>v. turnKeyOf v = key) (uniqueTurns ?turns) = Some t"
    then show "t \<in> set (uniqueTurns ?turns) \<and> turnKeyOf t = key" by (auto simp: find_Some_iff)
  next
    assume t: "t \<in> set (uniqueTurns ?turns) \<and> turnKeyOf t = key"
    then have "find (\<lambda>v. turnKeyOf v = key) (uniqueTurns ?turns) \<noteq> None" unfolding find_None_iff by blast
    then obtain v where v: "find (\<lambda>v. turnKeyOf v = key) (uniqueTurns ?turns) = Some v" by blast
    then have "v \<in> set (uniqueTurns ?turns) \<and> turnKeyOf v = key" by (auto simp: find_Some_iff)
    then have "v = t" using t by (intro one) simp_all
    with v show "find (\<lambda>v. turnKeyOf v = key) (uniqueTurns ?turns) = Some t" by simp
  qed
  show ?thesis
  proof (cases "nr_TurnIndex ref")
    case None
    then show ?thesis by (simp add: lookupTurn_def)
  next
    case (Some k)
    have key: "turnKeyOf t = (nr_SessionKey ref, k) \<longleftrightarrow> nr_SessionKey ref = tn_SessionKey t \<and> k = tn_TurnIndex t"
      by (auto simp: turnKeyOf_def)
    show ?thesis
      using Some nr u [of t]
      by (simp add: lookupTurn_def newCompiler_turns newCompiler_ambiguous f) (metis key)
  qed
qed

section \<open>It always returns\<close>

lemma episodes_built: "\<exists>episodes. buildEvidenceEpisodes J order records = Some episodes"
  using groupRecords_returns [of "normalizeProcedureRecords J records"]
  by (auto simp: buildEvidenceEpisodes_def Let_def)

text \<open>
  C25. Compilation returns on every input, with a list of candidates or one of its errors.
\<close>

theorem compile_returns: "\<exists>r. Compile J C order input = Some r"
proof -
  have "compileSuccessfulProcedures J C order P m \<noteq> None" for P m
    using episodes_built [of "ce_episode J" order "procedureRecords J C P"]
    by (auto simp: compileSuccessfulProcedures_def)
  then have "Compile J C order input \<noteq> None"
    unfolding Compile_def Let_def
    by (simp only: option.distinct not_False_eq_True split: if_split sum.split option.split) blast
  then show ?thesis by blast
qed

section \<open>What a candidate is\<close>

text \<open>Every candidate is made by \<open>newCandidate\<close> from evidence that \<open>evidenceSet\<close> collected.\<close>

definition compiled ::
    "compile_encoder \<Rightarrow> compiler \<Rightarrow> Candidate \<Rightarrow> bool" where
  "compiled J P c \<longleftrightarrow>
    (\<exists>family behavior feedback refs outcomes evidence outcomeRefs type verifier time.
      evidenceSet (ce_experience J) P refs outcomes = Some evidence \<and> set outcomes \<subseteq> set (cp_outcomes P) \<and>
      newCandidate J family (cp_projectIdentity P) behavior feedback evidence outcomeRefs
        (pendingProposal type (cp_projectIdentity P) verifier) time = Some c)"

lemma compiledI:
  assumes "evidenceSet (ce_experience J) P refs outcomes = Some evidence" "set outcomes \<subseteq> set (cp_outcomes P)"
    and "newCandidate J family (cp_projectIdentity P) behavior feedback evidence outcomeRefs
        (pendingProposal type (cp_projectIdentity P) verifier) time = Some c"
  shows "compiled J P c"
  unfolding compiled_def using assms by blast

lemma correctionCandidate_compiled:
  assumes "outcome \<in> set (cp_outcomes P)" and "correctionCandidate J C P outcome = Some (Inr c)"
  shows "compiled J P c"
  using assms
  by (auto simp: correctionCandidate_def Let_def intro!: compiledI split: if_splits option.splits prod.splits)

lemma procedureCandidate_compiled:
  assumes "procedureCandidate J C P episode = Some (Inr c)"
  shows "compiled J P c"
proof -
  have "set (outcomesByID P ids) \<subseteq> set (cp_outcomes P)" for ids by (auto simp: outcomesByID_def)
  with assms show ?thesis
    by (auto simp: procedureCandidate_def Let_def intro!: compiledI split: if_splits option.splits)
qed

lemma approachCandidate_compiled:
  assumes "fst item \<in> set (cp_outcomes P)" and "approachCandidate J C P item = Some (Inr c)"
  shows "compiled J P c"
proof -
  have "v \<in> set (cp_outcomes P)" if "failedVerification P repair edge ref = Some v" for repair edge ref v
    using that by (auto simp: failedVerification_def find_Some_iff)
  with assms show ?thesis
    by (auto simp: approachCandidate_def Let_def intro!: compiledI split: option.splits prod.splits)
qed

section \<open>The map of candidates\<close>

lemma map_put_set: "set (map_put m k v) \<subseteq> insert (k, v) (set m)"
  by (induction m k v rule: map_put.induct) auto

lemma map_put_keys: "fst ` set (map_put m k v) = insert k (fst ` set m)"
  by (induction m k v rule: map_put.induct) auto

lemma map_put_distinct: "distinct (map fst m) \<Longrightarrow> distinct (map fst (map_put m k v))"
proof (induction m k v rule: map_put.induct)
  case (2 k' v' m k v)
  then show ?case using map_put_keys [of m k v] by auto
qed simp

text \<open>Candidates are held under their own identifiers, each made by one of the steps.\<close>

definition held :: "(Candidate \<Rightarrow> bool) \<Rightarrow> candidate_map \<Rightarrow> bool" where
  "held Q m \<longleftrightarrow> distinct (map fst m) \<and> (\<forall>(k, c)\<in>set m. k = cd_CandidateID c \<and> Q c)"

lemma held_put: "held Q m \<Longrightarrow> Q c \<Longrightarrow> held Q (map_put m (cd_CandidateID c) c)"
  using map_put_set [of m "cd_CandidateID c" c] by (fastforce simp: held_def intro: map_put_distinct)

lemma addCandidate_simps [simp]:
  "addCandidate step (Inl e) item = Inl e"
  "step item = None \<Longrightarrow> addCandidate step (Inr m) item = Inr m"
  "step item = Some (Inl e) \<Longrightarrow> addCandidate step (Inr m) item = Inl e"
  "step item = Some (Inr c) \<Longrightarrow> addCandidate step (Inr m) item = Inr (map_put m (cd_CandidateID c) c)"
  by (simp_all add: addCandidate_def)

lemma fold_Inl: "foldl (addCandidate step) (Inl e) items = Inl e"
  by (induction items) simp_all

lemma fold_addCandidate:
  assumes "foldl (addCandidate step) (Inr m) items = Inr m'" and "held Q m"
    and "\<And>item c. item \<in> set items \<Longrightarrow> step item = Some (Inr c) \<Longrightarrow> Q c"
  shows "held Q m'"
  using assms
proof (induction items arbitrary: m)
  case (Cons item items)
  show ?case
  proof (cases "step item")
    case None
    then have "foldl (addCandidate step) (Inr m) items = Inr m'" using Cons.prems(1) by simp
    from Cons.IH [OF this Cons.prems(2)] Cons.prems(3) show ?thesis by (meson list.set_intros(2))
  next
    case (Some r)
    then obtain c where r: "r = Inr c"
      using Cons.prems(1) by (cases r) (simp_all add: fold_Inl)
    have "held Q (map_put m (cd_CandidateID c) c)"
      using Cons.prems Some r by (intro held_put) auto
    moreover have "foldl (addCandidate step) (Inr (map_put m (cd_CandidateID c) c)) items = Inr m'"
      using Cons.prems(1) Some r by simp
    ultimately show ?thesis using Cons.IH Cons.prems(3) by (meson list.set_intros(2))
  qed
qed simp

lemma compile_held:
  assumes "Compile J C order input = Some (Inr candidates)"
    and "\<And>outcome c. outcome \<in> set (cp_outcomes (newCompiler input)) \<Longrightarrow>
      correctionCandidate J C (newCompiler input) outcome = Some (Inr c) \<Longrightarrow> Q c"
    and "\<And>episode c. procedureCandidate J C (newCompiler input) episode = Some (Inr c) \<Longrightarrow> Q c"
    and "\<And>item c. fst item \<in> set (cp_outcomes (newCompiler input)) \<Longrightarrow>
      approachCandidate J C (newCompiler input) item = Some (Inr c) \<Longrightarrow> Q c"
  shows "\<exists>m. held Q m \<and> candidates = sort_key cd_CandidateID (map snd m)"
proof -
  let ?P = "newCompiler input"
  obtain m1 m2 m3 where m: "compileCorrections J C ?P [] = Inr m1"
    "compileSuccessfulProcedures J C order ?P m1 = Some (Inr m2)" "compileFailedApproaches J C ?P m2 = Inr m3"
    "candidates = sort_key cd_CandidateID (map snd m3)"
    using assms(1) by (auto simp: Compile_def Let_def split: if_splits sum.splits option.splits)
  have "held Q m1"
    using fold_addCandidate [OF m(1) [unfolded compileCorrections_def], of Q] assms(2)
    by (simp add: held_def)
  obtain episodes where "foldl (addCandidate (procedureCandidate J C ?P)) (Inr m1) episodes = Inr m2"
    using m(2) by (auto simp: compileSuccessfulProcedures_def)
  from fold_addCandidate [OF this \<open>held Q m1\<close>] assms(3) have "held Q m2" by blast
  have "fst item \<in> set (cp_outcomes ?P)" if "item \<in> set (repairItems ?P)" for item
    using that by (auto simp: repairItems_def)
  with fold_addCandidate [OF m(3) [unfolded compileFailedApproaches_def] \<open>held Q m2\<close>] assms(4)
  have "held Q m3" by blast
  with m(4) show ?thesis by blast
qed

lemma fold_addCandidate_errors:
  assumes "foldl (addCandidate step) (Inr m) items = Inl e"
  shows "\<exists>item\<in>set items. step item = Some (Inl e)"
  using assms
proof (induction items arbitrary: m)
  case (Cons item items)
  consider "step item = None" | (e) e' where "step item = Some (Inl e')" | (c) c where "step item = Some (Inr c)"
    by (metis option.exhaust sum.exhaust)
  then show ?case
  proof cases
    case e
    then show ?thesis using Cons.prems by (simp add: fold_Inl)
  qed (use Cons in auto)
qed simp

lemma step_errors:
  "correctionCandidate J C P outcome = Some (Inl e) \<Longrightarrow> e = ErrCorrectionCandidate"
  "procedureCandidate J C P episode = Some (Inl e) \<Longrightarrow> e = ErrProcedureCandidate"
  "approachCandidate J C P item = Some (Inl e) \<Longrightarrow> e = ErrApproachCandidate"
  by (auto simp: correctionCandidate_def procedureCandidate_def approachCandidate_def Let_def
      split: if_splits option.splits prod.splits)

lemma stage_errors:
  "compileCorrections J C P m = Inl e \<Longrightarrow> e = ErrCorrectionCandidate"
  "compileSuccessfulProcedures J C order P m = Some (Inl e) \<Longrightarrow> e = ErrProcedureCandidate"
  "compileFailedApproaches J C P m = Inl e \<Longrightarrow> e = ErrApproachCandidate"
  unfolding compileCorrections_def compileSuccessfulProcedures_def compileFailedApproaches_def
  by (auto dest!: fold_addCandidate_errors dest: step_errors)

lemma compile_errors:
  assumes "Compile J C order input = Some (Inl e)"
  shows "trim_space (ci_ProjectIdentity input) = [] \<or>
    \<not> list_all (Edge_Validate (ce_trajectory J)) (cp_edges (newCompiler input)) \<or>
    \<not> list_all (Outcome_Validate (ce_trajectory J)) (cp_outcomes (newCompiler input)) \<or>
    e \<in> {ErrCorrectionCandidate, ErrProcedureCandidate, ErrApproachCandidate}"
  using assms
  by (auto simp: Compile_def Let_def dest: stage_errors split: if_splits sum.splits option.splits)

lemma held_member: "held Q m \<Longrightarrow> c \<in> set (sort_key cd_CandidateID (map snd m)) \<Longrightarrow> Q c"
  unfolding held_def by auto

lemma compiled_candidates:
  assumes "Compile J C order input = Some (Inr candidates)"
  shows "\<exists>m. held (compiled J (newCompiler input)) m \<and> candidates = sort_key cd_CandidateID (map snd m)"
proof (rule compile_held [OF assms])
  let ?P = "newCompiler input"
  show "compiled J ?P c" if "outcome \<in> set (cp_outcomes ?P)" "correctionCandidate J C ?P outcome = Some (Inr c)" for outcome c
    using that by (rule correctionCandidate_compiled)
  show "compiled J ?P c" if "procedureCandidate J C ?P episode = Some (Inr c)" for episode c
    using that by (rule procedureCandidate_compiled)
  show "compiled J ?P c" if "fst item \<in> set (cp_outcomes ?P)" "approachCandidate J C ?P item = Some (Inr c)" for item c
    using that by (rule approachCandidate_compiled)
qed

lemma compiled_member:
  assumes "Compile J C order input = Some (Inr candidates)" and "c \<in> set candidates"
  shows "compiled J (newCompiler input) c"
  using compiled_candidates [OF assms(1)] assms(2) held_member by blast

lemma projectIdentity_newCompiler [simp]: "cp_projectIdentity (newCompiler input) = trim_space (ci_ProjectIdentity input)"
  by (simp add: newCompiler_def Let_def split: prod.split)

text \<open>
  C21. Whatever is compiled is inert: every candidate is valid, grants no authority, is in the state of a candidate of the
  project it was compiled for, and waits for semantic compilation with guidance that only observes. The candidates come
  in the order of their identifiers, each once.
\<close>

theorem compiled_candidates_are_inert:
  assumes "Compile J C order input = Some (Inr candidates)"
  shows "sorted (map cd_CandidateID candidates) \<and> distinct (map cd_CandidateID candidates) \<and>
    list_all (\<lambda>c. Candidate_Validate (ce_experience J) c \<and> cd_Authority c = AuthorityNone \<and>
      cd_LifecycleState c = LifecycleCandidate \<and> cd_ProjectIdentity c = trim_space (ci_ProjectIdentity input) \<and>
      cd_ExistingRefs c = [] \<and> xp_SemanticCompilationPending (cd_Proposal c) \<and>
      gd_InterventionStrength (xp_Guidance (cd_Proposal c)) = InterventionObserve) candidates"
proof -
  obtain m where m: "held (compiled J (newCompiler input)) m" "candidates = sort_key cd_CandidateID (map snd m)"
    using compiled_candidates [OF assms] by blast
  have e: "map cd_CandidateID (map snd m) = map fst m" using m(1) by (auto simp: held_def)
  have "distinct (map cd_CandidateID (map snd m))" using m(1) unfolding e held_def by blast
  moreover have "mset (map cd_CandidateID candidates) = mset (map cd_CandidateID (map snd m))"
    unfolding m(2) by (simp only: mset_map mset_sort)
  ultimately have "distinct (map cd_CandidateID candidates)" by (metis mset_eq_imp_distinct_iff)
  moreover have "Candidate_Validate (ce_experience J) c \<and> cd_Authority c = AuthorityNone \<and>
      cd_LifecycleState c = LifecycleCandidate \<and> cd_ProjectIdentity c = trim_space (ci_ProjectIdentity input) \<and>
      cd_ExistingRefs c = [] \<and> xp_SemanticCompilationPending (cd_Proposal c) \<and>
      gd_InterventionStrength (xp_Guidance (cd_Proposal c)) = InterventionObserve" if "c \<in> set candidates" for c
    using compiled_member [OF assms that]
    by (auto simp: compiled_def newCandidate_def pendingProposal_def Let_def split: if_splits)
  ultimately show ?thesis by (simp add: m(2) list_all_iff)
qed

section \<open>Evidence\<close>

lemma appendRef_fold:
  assumes "distinct (map (enc_ref E) evidence)" and "length evidence \<le> maxCandidateEvidenceRefs"
  shows "distinct (map (enc_ref E) (foldl (appendRef E) evidence refs)) \<and>
    length (foldl (appendRef E) evidence refs) \<le> maxCandidateEvidenceRefs \<and>
    set (foldl (appendRef E) evidence refs) \<subseteq> set evidence \<union> set refs"
  using assms
proof (induction refs arbitrary: evidence)
  case (Cons ref refs)
  have "distinct (map (enc_ref E) (appendRef E evidence ref))" "length (appendRef E evidence ref) \<le> maxCandidateEvidenceRefs"
    "set (appendRef E evidence ref) \<subseteq> insert ref (set evidence)"
    using Cons.prems by (auto simp: appendRef_def)
  with Cons.IH [of "appendRef E evidence ref"] show ?case by fastforce
qed simp

lemma evidenceSet_refs:
  assumes "evidenceSet E P refs outcomes = Some evidence"
  shows "length (es_Refs evidence) \<le> 32" "distinct (map (enc_ref E) (es_Refs evidence))"
    "\<forall>ref\<in>set (es_Refs evidence). ref \<in> outcomeRef ` set outcomes \<or> (\<exists>n\<in>set refs. evidenceRef P n = Some ref)"
proof -
  let ?converted = "map (evidenceRef P) refs"
  let ?evidence = "foldl (appendRef E) [] (map outcomeRef outcomes @ map the ?converted)"
  have s: "None \<notin> set ?converted" "es_Refs evidence = sort_key (enc_ref E) ?evidence"
    using assms by (auto simp: evidenceSet_def Let_def split: if_splits)
  have f: "distinct (map (enc_ref E) ?evidence) \<and> length ?evidence \<le> maxCandidateEvidenceRefs \<and>
      set ?evidence \<subseteq> set [] \<union> set (map outcomeRef outcomes @ map the ?converted)"
    by (rule appendRef_fold) simp_all
  show "length (es_Refs evidence) \<le> 32" using f by (simp add: s(2))
  have "mset (map (enc_ref E) (es_Refs evidence)) = mset (map (enc_ref E) ?evidence)"
    unfolding s(2) by (simp only: mset_map mset_sort)
  then show "distinct (map (enc_ref E) (es_Refs evidence))" using f by (metis mset_eq_imp_distinct_iff)
  show "\<forall>ref\<in>set (es_Refs evidence). ref \<in> outcomeRef ` set outcomes \<or> (\<exists>n\<in>set refs. evidenceRef P n = Some ref)"
  proof
    fix ref assume "ref \<in> set (es_Refs evidence)"
    then have "ref \<in> set (map outcomeRef outcomes @ map the ?converted)" using f by (auto simp: s(2))
    then consider "ref \<in> outcomeRef ` set outcomes" | n where "n \<in> set refs" "ref = the (evidenceRef P n)" by auto
    then show "ref \<in> outcomeRef ` set outcomes \<or> (\<exists>n\<in>set refs. evidenceRef P n = Some ref)"
    proof cases
      case 2
      then have "evidenceRef P n \<noteq> None" using s(1) by (metis image_eqI list.set_map)
      with 2 show ?thesis by auto
    qed simp
  qed
qed

lemma outcomeRef_kind: "er_Kind (outcomeRef outcome) = EvidenceOutcomeObservation"
  by (simp add: outcomeRef_def emptyRef_def)

lemma evidenceRef_turn:
  assumes "evidenceRef P n = Some ref" and "er_Kind ref = EvidenceTranscriptTurn"
  shows "\<exists>t. lookupTurn P n = Some t \<and>
    ref = (emptyRef EvidenceTranscriptTurn)\<lparr>er_SessionKey := tn_SessionKey t,
      er_TurnIndex := Some (tn_TurnIndex t), er_TurnRole := turnRoleOf (Role_text (tn_Role t)),
      er_ToolName := tn_ToolName t, er_OccurredAt := Some (tn_OccurredAt t), er_Excerpt := turnExcerpt t\<rparr>"
proof (cases "nr_Kind n = NodeTranscriptTurn")
  case True
  with assms(1) show ?thesis by (cases "lookupTurn P n") (simp_all add: evidenceRef_def)
next
  case False
  with assms show ?thesis by (cases "nr_Kind n") (auto simp: evidenceRef_def emptyRef_def)
qed

text \<open>
  C23. The evidence of a candidate is retained: at most 32 references, no two with the same text, and every
  reference to a turn is to the only turn of the input with its session and index, with its time and excerpt.
\<close>

theorem candidate_evidence_is_unambiguous:
  assumes "Compile J C order input = Some (Inr candidates)" and "c \<in> set candidates"
  shows "length (es_Refs (cd_Evidence c)) \<le> 32 \<and> distinct (map (enc_ref (ce_experience J)) (es_Refs (cd_Evidence c))) \<and>
    (\<forall>ref\<in>set (es_Refs (cd_Evidence c)). er_Kind ref = EvidenceTranscriptTurn \<longrightarrow>
      (\<exists>t. filter (\<lambda>u. tn_SessionKey u = er_SessionKey ref \<and> Some (tn_TurnIndex u) = er_TurnIndex ref) (ci_Turns input) = [t] \<and>
        er_OccurredAt ref = Some (tn_OccurredAt t) \<and> er_ToolName ref = tn_ToolName t \<and> er_Excerpt ref = turnExcerpt t))"
proof -
  obtain refs outcomes where e: "evidenceSet (ce_experience J) (newCompiler input) refs outcomes = Some (cd_Evidence c)"
    using compiled_member [OF assms] by (auto simp: compiled_def newCandidate_def Let_def split: if_splits)
  have "\<exists>t. filter (\<lambda>u. tn_SessionKey u = er_SessionKey ref \<and> Some (tn_TurnIndex u) = er_TurnIndex ref) (ci_Turns input) = [t] \<and>
        er_OccurredAt ref = Some (tn_OccurredAt t) \<and> er_ToolName ref = tn_ToolName t \<and> er_Excerpt ref = turnExcerpt t"
    if r: "ref \<in> set (es_Refs (cd_Evidence c))" and k: "er_Kind ref = EvidenceTranscriptTurn" for ref
  proof -
    have "ref \<notin> outcomeRef ` set outcomes" using k outcomeRef_kind by fastforce
    then have "\<exists>n\<in>set refs. evidenceRef (newCompiler input) n = Some ref"
      using bspec [OF evidenceSet_refs(3) [OF e] r] by (simp only: simp_thms)
    then obtain n where n: "evidenceRef (newCompiler input) n = Some ref"
      by (elim bexE)
    obtain t where t: "lookupTurn (newCompiler input) n = Some t"
      "ref = (emptyRef EvidenceTranscriptTurn)\<lparr>er_SessionKey := tn_SessionKey t,
              er_TurnIndex := Some (tn_TurnIndex t), er_TurnRole := turnRoleOf (Role_text (tn_Role t)),
              er_ToolName := tn_ToolName t, er_OccurredAt := Some (tn_OccurredAt t), er_Excerpt := turnExcerpt t\<rparr>"
      using evidenceRef_turn [OF n k] by (elim exE conjE) (rule that)
    have "filter (\<lambda>u. turnKeyOf u = turnKeyOf t) (ci_Turns input) = [t]" using t(1) unfolding lookup_turn by blast
    moreover have "(\<lambda>u. tn_SessionKey u = er_SessionKey ref \<and> Some (tn_TurnIndex u) = er_TurnIndex ref) =
        (\<lambda>u. turnKeyOf u = turnKeyOf t)"
      by (rule ext) (simp add: t(2) turnKeyOf_def)
    ultimately have "filter (\<lambda>u. tn_SessionKey u = er_SessionKey ref \<and> Some (tn_TurnIndex u) = er_TurnIndex ref)
        (ci_Turns input) = [t]" by (simp only:)
    then show ?thesis by (intro exI [of _ t]) (simp only:, simp add: t(2))
  qed
  with evidenceSet_refs(1,2) [OF e] show ?thesis by blast
qed

section \<open>Corrections\<close>

lemma correctionTurns_Some:
  assumes "correctionTurns P outcome = Some (behavior, behaviorRef, user, userRef)"
  shows "lookupTurn P behaviorRef = Some behavior" "lookupTurn P userRef = Some user"
    "tn_SessionKey behavior = oc_SessionKey outcome" "tn_SessionKey user = oc_SessionKey outcome"
    "tn_Role user = RoleUser" "behaviorRole (tn_Role behavior)"
proof -
  let ?inv = "\<lambda>s. case s of None \<Rightarrow> True | Some (b, u) \<Rightarrow>
    (\<forall>t ref. b = Some (t, ref) \<longrightarrow> lookupTurn P ref = Some t \<and> tn_SessionKey t = oc_SessionKey outcome \<and> behaviorRole (tn_Role t)) \<and>
    (\<forall>t ref. u = Some (t, ref) \<longrightarrow> lookupTurn P ref = Some t \<and> tn_SessionKey t = oc_SessionKey outcome \<and> tn_Role t = RoleUser)"
  have step: "?inv (correctionRef P outcome s ref)" if "?inv s" for s ref
  proof (cases s)
    case (Some bu)
    obtain b u where bu: "bu = (b, u)" by fastforce
    show ?thesis
    proof (cases "lookupTurn P ref")
      case None
      then show ?thesis by (simp add: correctionRef_def Some bu)
    next
      case (Some t)
      with that \<open>s = Some bu\<close> bu show ?thesis
        by (cases "tn_Role t") (auto simp: correctionRef_def behaviorRole_def)
    qed
  qed (simp add: correctionRef_def)
  have "?inv (foldl (correctionRef P outcome) s refs)" if "?inv s" for s refs
    using that by (induction refs arbitrary: s) (use step in auto)
  then have "?inv (foldl (correctionRef P outcome) (Some (None, None)) (oc_SourceRefs outcome))" by simp
  moreover have "foldl (correctionRef P outcome) (Some (None, None)) (oc_SourceRefs outcome) =
      Some (Some (behavior, behaviorRef), Some (user, userRef))"
    using assms by (auto simp: correctionTurns_def split: if_splits option.splits)
  ultimately show "lookupTurn P behaviorRef = Some behavior" "lookupTurn P userRef = Some user"
    "tn_SessionKey behavior = oc_SessionKey outcome" "tn_SessionKey user = oc_SessionKey outcome"
    "tn_Role user = RoleUser" "behaviorRole (tn_Role behavior)" by auto
qed

lemma correctionEdge_Some:
  assumes "hasExactInferenceEdge P outcome relation source target"
    and "lookupTurn P source = Some t" and "lookupTurn P target = Some u"
  shows "\<exists>edge\<in>set (cp_edges P). eg_Relation edge = relation \<and> eg_SessionKey edge = oc_SessionKey outcome \<and>
    nr_SessionKey (eg_From edge) = tn_SessionKey t \<and> nr_TurnIndex (eg_From edge) = Some (tn_TurnIndex t) \<and>
    nr_SessionKey (eg_To edge) = tn_SessionKey u \<and> nr_TurnIndex (eg_To edge) = Some (tn_TurnIndex u)"
proof -
  have same: "nr_SessionKey ref = tn_SessionKey t \<and> nr_TurnIndex ref = Some (tn_TurnIndex t)"
    if "candidate_sameNode ref source" "lookupTurn P source = Some t" for ref source t
    using that by (auto simp: lookupTurn_def candidate_sameNode_def turnKeyOf_def find_Some_iff split: option.splits if_splits)
  from assms(1) obtain edge where e: "edge \<in> set (cp_edges P)" "inferredWith outcome relation edge"
    "candidate_sameNode (eg_From edge) source" "candidate_sameNode (eg_To edge) target"
    by (auto simp: hasExactInferenceEdge_def list_ex_iff)
  from e(2) have "eg_Relation edge = relation" "eg_SessionKey edge = oc_SessionKey outcome"
    by (auto simp: inferredWith_def)
  with e(1) same [OF e(3) assms(2)] same [OF e(4) assms(3)] show ?thesis by blast
qed

lemma newCandidate_Some:
  assumes "newCandidate J family project behavior feedback evidence refs proposal time = Some c"
  shows "cd_Family c = family" "cd_UserFeedback c = feedback" "cd_OutcomeRefs c = cappedStrings refs maxCandidateOutcomeRefs"
    "cd_Evidence c = evidence" "cd_Proposal c = proposal" "cd_ObservedBehavior c = behavior"
    "Candidate_Validate (ce_experience J) c"
  using assms by (auto simp: newCandidate_def Let_def split: if_splits)

text \<open>What the compiler found for a correction.\<close>

definition correctionFound :: "'x text_rules_scheme \<Rightarrow> compiler \<Rightarrow> Candidate \<Rightarrow> bool" where
  "correctionFound C P c \<longleftrightarrow>
    (\<exists>outcome\<in>set (cp_outcomes P). \<exists>behavior behaviorRef user userRef.
      qualifyingOutcome outcome OutcomeCorrection ResultObserved \<and>
      correctionTurns P outcome = Some (behavior, behaviorRef, user, userRef) \<and>
      \<not> tr_IsMachineGeneratedEnvelope C (trim_space (pl_Text (tn_Payload user))) \<and>
      tr_HighConfidenceCorrectionMarker C (trim_space (pl_Text (tn_Payload user))) \<noteq> [] \<and>
      hasExactInferenceEdge P outcome RelationCorrects userRef behaviorRef \<and>
      cd_UserFeedback c = trim_space (pl_Text (tn_Payload user)))"

lemma correctionCandidate_found:
  assumes "outcome \<in> set (cp_outcomes P)" and "correctionCandidate J C P outcome = Some (Inr c)"
  shows "correctionFound C P c"
proof -
  from assms(2) obtain behavior behaviorRef user userRef evidence where
    q: "qualifyingOutcome outcome OutcomeCorrection ResultObserved" and
    t: "correctionTurns P outcome = Some (behavior, behaviorRef, user, userRef)" and
    m: "\<not> tr_IsMachineGeneratedEnvelope C (trim_space (pl_Text (tn_Payload user)))"
      "tr_HighConfidenceCorrectionMarker C (trim_space (pl_Text (tn_Payload user))) \<noteq> []" and
    e: "hasExactInferenceEdge P outcome RelationCorrects userRef behaviorRef" and
    c: "newCandidate J CandidateCorrection (cp_projectIdentity P)
      ''The cited user turn explicitly corrected the immediately preceding agent behavior.''
      (trim_space (pl_Text (tn_Payload user))) evidence [oc_OutcomeID outcome]
      (pendingProposal ExperiencePreference (cp_projectIdentity P) observationVerifier)
      (maxTime [oc_OccurredAt outcome, tn_OccurredAt behavior, tn_OccurredAt user]) = Some c"
    by (auto simp: correctionCandidate_def Let_def split: if_splits option.splits)
  show ?thesis
    unfolding correctionFound_def
    by (rule bexI [OF _ assms(1)], intro exI conjI, rule q, rule t, rule m(1), rule m(2), rule e, rule newCandidate_Some(2) [OF c])
qed

lemma other_families:
  "procedureCandidate J C P episode = Some (Inr c) \<Longrightarrow> cd_Family c = CandidateSuccessfulProcedure"
  "approachCandidate J C P item = Some (Inr c) \<Longrightarrow> cd_Family c = CandidateFailedApproach"
  by (auto simp: procedureCandidate_def approachCandidate_def Let_def dest: newCandidate_Some(1)
      split: if_splits option.splits prod.splits)

lemma newCompiler_outcomes: "set (cp_outcomes (newCompiler input)) \<subseteq> set (ci_Outcomes input)"
  and newCompiler_edges: "set (cp_edges (newCompiler input)) \<subseteq> set (ci_Edges input)"
  by (auto simp: newCompiler_def Let_def split: prod.splits)

text \<open>
  C22. A correction quotes its user: a candidate for a correction carries the trimmed text of a turn of the user, not generated by
  a machine and with a marker of correction; the turn and the turn of the agent that it corrects are the only ones of
  the input at their places, of the session of a correction the derivation observed; and an edge says that the one corrects the other.
\<close>

theorem corrections_quote_their_user:
  assumes "Compile J C order input = Some (Inr candidates)" and "c \<in> set candidates"
    and "cd_Family c = CandidateCorrection"
  shows "\<exists>outcome\<in>set (ci_Outcomes input). \<exists>edge\<in>set (ci_Edges input). \<exists>user agent.
    qualifyingOutcome outcome OutcomeCorrection ResultObserved \<and> eg_Relation edge = RelationCorrects \<and>
    filter (\<lambda>t. turnKeyOf t = turnKeyOf user) (ci_Turns input) = [user] \<and>
    filter (\<lambda>t. turnKeyOf t = turnKeyOf agent) (ci_Turns input) = [agent] \<and>
    tn_SessionKey user = oc_SessionKey outcome \<and> tn_SessionKey agent = oc_SessionKey outcome \<and>
    tn_Role user = RoleUser \<and> behaviorRole (tn_Role agent) \<and>
    nr_SessionKey (eg_From edge) = tn_SessionKey user \<and> nr_TurnIndex (eg_From edge) = Some (tn_TurnIndex user) \<and>
    nr_SessionKey (eg_To edge) = tn_SessionKey agent \<and> nr_TurnIndex (eg_To edge) = Some (tn_TurnIndex agent) \<and>
    \<not> tr_IsMachineGeneratedEnvelope C (trim_space (pl_Text (tn_Payload user))) \<and>
    tr_HighConfidenceCorrectionMarker C (trim_space (pl_Text (tn_Payload user))) \<noteq> [] \<and>
    cd_UserFeedback c = trim_space (pl_Text (tn_Payload user))"
proof -
  let ?P = "newCompiler input"
  let ?Q = "\<lambda>c. cd_Family c = CandidateCorrection \<longrightarrow> correctionFound C ?P c"
  have "\<exists>m. held ?Q m \<and> candidates = sort_key cd_CandidateID (map snd m)"
    by (rule compile_held [OF assms(1)])
      (simp_all add: correctionCandidate_found other_families)
  then obtain m where "held ?Q m" "c \<in> set (sort_key cd_CandidateID (map snd m))" using assms(2) by blast
  then have "correctionFound C ?P c" using held_member [of ?Q m c] assms(3) by simp
  then obtain outcome behavior behaviorRef user userRef where
    o: "outcome \<in> set (cp_outcomes ?P)" "qualifyingOutcome outcome OutcomeCorrection ResultObserved" and
    t: "correctionTurns ?P outcome = Some (behavior, behaviorRef, user, userRef)" and
    m: "\<not> tr_IsMachineGeneratedEnvelope C (trim_space (pl_Text (tn_Payload user)))"
      "tr_HighConfidenceCorrectionMarker C (trim_space (pl_Text (tn_Payload user))) \<noteq> []"
      "cd_UserFeedback c = trim_space (pl_Text (tn_Payload user))" and
    e: "hasExactInferenceEdge ?P outcome RelationCorrects userRef behaviorRef"
    unfolding correctionFound_def by (elim bexE exE conjE)
  note l = correctionTurns_Some [OF t]
  obtain edge where g: "edge \<in> set (cp_edges ?P)" "eg_Relation edge = RelationCorrects"
    "nr_SessionKey (eg_From edge) = tn_SessionKey user" "nr_TurnIndex (eg_From edge) = Some (tn_TurnIndex user)"
    "nr_SessionKey (eg_To edge) = tn_SessionKey behavior" "nr_TurnIndex (eg_To edge) = Some (tn_TurnIndex behavior)"
    using correctionEdge_Some [OF e l(2,1)] by (elim bexE conjE)
  have u: "filter (\<lambda>t. turnKeyOf t = turnKeyOf user) (ci_Turns input) = [user]"
    "filter (\<lambda>t. turnKeyOf t = turnKeyOf behavior) (ci_Turns input) = [behavior]"
    using iffD1 [OF lookup_turn l(2)] iffD1 [OF lookup_turn l(1)] by blast+
  show ?thesis
    by (rule bexI [OF _ subsetD [OF newCompiler_outcomes o(1)]], rule bexI [OF _ subsetD [OF newCompiler_edges g(1)]],
        rule exI [of _ user], rule exI [of _ behavior]) (intro conjI o(2) g(2-6) u l(3-6) m)
qed

section \<open>After the derivation\<close>

lemma filter_valid: "\<forall>x\<in>set xs. P x \<Longrightarrow> list_all P (sort_key f (filter Q xs))"
  by (simp add: list_all_iff)

text \<open>
  What was derived is accepted: over the edges and outcomes of any number of derived sessions, compilation
  never fails for an invalid edge or outcome.
\<close>

theorem derived_records_are_accepted:
  assumes "\<forall>r\<in>set results. \<exists>rules order derivation. deriveSession (ce_trajectory J) rules order derivation = Inr r"
    and "ci_Edges input = concat (map dr_Edges results)" and "ci_Outcomes input = concat (map dr_Outcomes results)"
    and "trim_space (ci_ProjectIdentity input) \<noteq> []"
  shows "Compile J C order input \<notin> Some ` Inl ` {ErrProjectIdentity, ErrInvalidEdge, ErrInvalidOutcome}"
proof -
  have r: "(\<forall>e\<in>set (dr_Edges r). Edge_Validate (ce_trajectory J) e) \<and>
      (\<forall>oc\<in>set (dr_Outcomes r). Outcome_Validate (ce_trajectory J) oc)" if "r \<in> set results" for r
    using assms(1) that finishDerivation_Some(3,4) [OF deriveSession_Inr(2)] by (fastforce simp: list_all_iff)
  have "list_all (Edge_Validate (ce_trajectory J)) (cp_edges (newCompiler input))"
    "list_all (Outcome_Validate (ce_trajectory J)) (cp_outcomes (newCompiler input))"
    using r newCompiler_edges [of input] newCompiler_outcomes [of input] by (auto simp: list_all_iff assms(2,3))
  then show ?thesis using compile_errors [of J C order input] assms(4) by auto
qed

section \<open>Commands of several lines\<close>

lemma fold_addCandidate_steps:
  assumes "foldl (addCandidate step) (Inr m) items = Inr m'" and "item \<in> set items"
  shows "step item \<noteq> Some (Inl e)"
  using assms
proof (induction items arbitrary: m)
  case (Cons x items)
  consider "step x = None" | (e) e' where "step x = Some (Inl e')" | (c) c where "step x = Some (Inr c)"
    by (metis option.exhaust sum.exhaust)
  then show ?case
    by cases (use Cons in \<open>auto simp: fold_Inl\<close>)
qed simp

lemma command_valid:
  assumes "Candidate_Validate E c" and "cd_Proposal c = pendingProposal type project (commandVerifier anchor)"
  shows "validateOneLine (spr_RawCommand anchor) 16384 True"
proof -
  have "Proposal_Validate (cd_Proposal c)" using assms(1) by (simp add: Candidate_Validate_def split: if_splits)
  then have "Verifier_Validate (commandVerifier anchor)"
    unfolding assms(2) by (simp add: Proposal_Validate_def pendingProposal_def split: if_splits)
  then have "CommandVerifierSpec_Validate (the (vf_Command (commandVerifier anchor)))"
    by (simp add: Verifier_Validate_def commandVerifier_def emptyVerifier_def split: if_splits)
  then show ?thesis by (simp add: CommandVerifierSpec_Validate_def commandVerifier_def split: if_splits)
qed

text \<open>
  C26. One command of several lines stops everything: when compilation yields candidates, the command of the anchor of every
  episode whose evidence was retained is a single line of at most 16384 bytes; otherwise the whole compilation ends
  in an error, whatever the other episodes are.
\<close>

theorem compilation_needs_single_line_commands:
  assumes "Compile J C order input = Some (Inr candidates)"
    and "buildEvidenceEpisodes (ce_episode J) order (procedureRecords J C (newCompiler input)) = Some episodes"
    and "episode \<in> set episodes" and "procedureCandidate J C (newCompiler input) episode \<noteq> None"
  shows "validateOneLine (spr_RawCommand (epi_Anchor episode)) 16384 True"
proof -
  let ?P = "newCompiler input"
  obtain m1 m2 where "compileSuccessfulProcedures J C order ?P m1 = Some (Inr m2)"
    using assms(1) by (auto simp: Compile_def Let_def split: if_splits sum.splits option.splits)
  then have "foldl (addCandidate (procedureCandidate J C ?P)) (Inr m1) episodes = Inr m2"
    using assms(2) by (simp add: compileSuccessfulProcedures_def)
  from fold_addCandidate_steps [OF this assms(3)] obtain c where c: "procedureCandidate J C ?P episode = Some (Inr c)"
    using assms(4) by (metis not_None_eq sum.exhaust)
  then have "Candidate_Validate (ce_experience J) c \<and>
      cd_Proposal c = pendingProposal ExperienceProcedure (cp_projectIdentity ?P) (commandVerifier (epi_Anchor episode))"
    by (auto simp: procedureCandidate_def Let_def dest: newCandidate_Some(5,7) split: if_splits option.splits)
  then show ?thesis using command_valid by blast
qed

end
