(* ===== verification/Traj_Valid.thy ===== *)
theory Traj_Valid
  imports Traj_Properties
begin

text \<open>
  The derivation cannot fail on well-formed records: every edge and every outcome it makes passes its
  validation. The maps it builds hold turns and events of the session only.
\<close>

section \<open>Well-formed records\<close>

definition well_formed :: "TranscriptSession \<Rightarrow> Turn list \<Rightarrow> Event list \<Rightarrow> bool" where
  "well_formed session turns events \<longleftrightarrow>
    trajectory_identifier (ts_ProjectIdentity session) \<and>
    (\<forall>t\<in>set turns. tn_SessionKey t = ts_SessionKey session \<and> tn_OccurredAt t \<noteq> time_zero \<and>
      NodeRef_Validate (turnReference t)) \<and>
    (\<forall>e\<in>set events. ses_Key (ev_Session e) = ts_SessionKey session \<longrightarrow>
      trajectory_identifier (ev_EventID e) \<and> ev_OccurredAt e \<noteq> time_zero)"

definition turnRefs :: "Turn list \<Rightarrow> NodeRef set" where "turnRefs turns = turnReference ` set turns"

definition eventRefs :: "TranscriptSession \<Rightarrow> Event list \<Rightarrow> NodeRef set" where
  "eventRefs session events = eventReference ` {e \<in> set events. ses_Key (ev_Session e) = ts_SessionKey session}"

abbreviation recordRefs :: "TranscriptSession \<Rightarrow> Turn list \<Rightarrow> Event list \<Rightarrow> NodeRef set" where
  "recordRefs session turns events \<equiv> turnRefs turns \<union> eventRefs session events"

lemma turnReference_valid:
  "NodeRef_Validate (turnReference t) \<longleftrightarrow> trajectory_identifier (tn_SessionKey t) \<and> 0 \<le> tn_TurnIndex t"
  by (auto simp: NodeRef_Validate_def turnReference_def)

lemma eventReference_valid: "NodeRef_Validate (eventReference e) \<longleftrightarrow> trajectory_identifier (ev_EventID e)"
  by (auto simp: NodeRef_Validate_def eventReference_def)

lemma recordRefs_valid:
  "well_formed session turns events \<Longrightarrow> n \<in> recordRefs session turns events \<Longrightarrow> NodeRef_Validate n"
  unfolding well_formed_def turnRefs_def eventRefs_def using eventReference_valid by blast

lemma turn_session_key:
  "well_formed session turns events \<Longrightarrow> n \<in> turnRefs turns \<Longrightarrow> trajectory_identifier (ts_SessionKey session)"
  unfolding well_formed_def turnRefs_def turnReference_valid by fastforce

lemma derivation_version_identifier: "trajectory_identifier DerivationVersion"
  by code_simp

lemma edge_valid:
  assumes "well_formed session turns events" and "f \<in> recordRefs session turns events"
    and "t \<in> recordRefs session turns events" and "f \<in> turnRefs turns \<or> t \<in> turnRefs turns"
    and "tm \<noteq> time_zero" and "EdgeRelation_Valid R"
    and "ev = EvidenceObserved \<or> ev = EvidenceDeterministicInference"
    and "refs \<noteq> []" "length refs \<le> maxSourceRefs" "set refs \<subseteq> recordRefs session turns events"
  shows "Edge_Validate T (newEdgeWithSources T session f R t tm ev refs)"
proof -
  have "list_all NodeRef_Validate refs"
    using recordRefs_valid [OF assms(1)] assms(10) by (auto simp: list_all_iff)
  moreover have "trajectory_identifier (ts_SessionKey session)"
    using turn_session_key [OF assms(1)] assms(4) by blast
  moreover have "trajectory_identifier (ts_ProjectIdentity session)" using assms(1) by (simp add: well_formed_def)
  moreover have "NodeRef_Validate f" "NodeRef_Validate t" using recordRefs_valid [OF assms(1)] assms(2,3) by blast+
  moreover have "EvidenceClass_Valid ev" using assms(7) by auto
  ultimately show ?thesis
    using assms(5,6,8,9) derivation_version_identifier
    unfolding Edge_Validate_def newEdgeWithSources_def Let_def
    by (simp add: Edge_DeterministicID_def)
qed

lemma new_edge_valid:
  assumes "well_formed session turns events" and "f \<in> recordRefs session turns events"
    and "t \<in> recordRefs session turns events" and "f \<in> turnRefs turns \<or> t \<in> turnRefs turns"
    and "tm \<noteq> time_zero" and "EdgeRelation_Valid R"
    and "ev = EvidenceObserved \<or> ev = EvidenceDeterministicInference"
  shows "Edge_Validate T (newEdge T session f R t tm ev)"
  unfolding newEdge_def using assms by (intro edge_valid) auto

lemma outcome_valid:
  assumes "well_formed session turns events" and "tm \<noteq> time_zero" and "OutcomeKind_Valid k" "OutcomeResult_Valid u"
    and "refs \<noteq> []" "length refs \<le> maxSourceRefs" "set refs \<subseteq> turnRefs turns"
  shows "Outcome_Validate T (newOutcome T session tm k u refs)"
proof -
  have "list_all NodeRef_Validate refs"
    using recordRefs_valid [OF assms(1)] assms(7) by (auto simp: list_all_iff)
  moreover have "trajectory_identifier (ts_SessionKey session)"
    using turn_session_key [OF assms(1)] assms(5,7) by (cases refs) auto
  moreover have "trajectory_identifier (ts_ProjectIdentity session)" using assms(1) by (simp add: well_formed_def)
  ultimately show ?thesis
    using assms(2-6) derivation_version_identifier
    unfolding Outcome_Validate_def newOutcome_def Let_def
    by (simp add: Outcome_DeterministicID_def)
qed

section \<open>What the maps hold\<close>

lemma turnRefs_nth [simp]: "i < length turns \<Longrightarrow> turnReference (turns ! i) \<in> turnRefs turns"
  by (simp add: turnRefs_def)

lemma time_nth: "well_formed session turns events \<Longrightarrow> i < length turns \<Longrightarrow> tn_OccurredAt (turns ! i) \<noteq> time_zero"
  by (simp add: well_formed_def)

lemma calls_of_turns: "c \<in> set (map_get (calls_of turns) k) \<Longrightarrow> c \<in> set turns"
  by (simp add: calls_of_def)

lemma events_of_events:
  "e \<in> set (map_get (events_of key P events) k) \<Longrightarrow> e \<in> set events \<and> ses_Key (ev_Session e) = key"
  by (auto simp: events_of_def)

lemma event_ok:
  assumes "well_formed session turns events" and "e \<in> set (map_get (events_of (ts_SessionKey session) P events) k)"
  shows "eventReference e \<in> eventRefs session events" "ev_OccurredAt e \<noteq> time_zero"
  using events_of_events [OF assms(2)] assms(1) by (auto simp: eventRefs_def well_formed_def)

lemma resultsOf_turns:
  assumes "(q, t) \<in> set (map_get (resultsOf turns) k)"
  shows "q < length turns" "t = turns ! q"
  using assms by (auto simp: resultsOf_def group_pairs_props enumerate_map)

lemma mutationsAt_turns:
  assumes "i < length turns"
    and "m \<in> set (mutationsAt C session (events_of (ts_SessionKey session) mutationEvent events) ambiguous (i, turns ! i))"
  shows "turnReference (mm_turn m) \<in> turnRefs turns" "mm_target m \<in> recordRefs session turns events"
proof -
  let ?ms = "map_get (events_of (ts_SessionKey session) mutationEvent events) (callIDOf (turns ! i))"
  have "mm_turn m = turns ! i" "mm_target m = turnReference (turns ! i) \<or> mm_target m \<in> eventReference ` set ?ms"
    using assms(2) by (auto simp: mutationsAt_def split: if_splits list.splits)
  with assms(1) show "turnReference (mm_turn m) \<in> turnRefs turns" "mm_target m \<in> recordRefs session turns events"
    using events_of_events [of _ "ts_SessionKey session" mutationEvent events] by (auto simp: eventRefs_def)
qed

lemma attempts_turns:
  assumes "a \<in> set (explicitCommandAttempts C turns (resultsOf turns) ambiguous)"
  shows "ca_call a \<in> set turns" "ca_result a \<in> set turns"
proof -
  obtain p where p: "p < length turns" "commandAttemptAt C turns (resultsOf turns) ambiguous p = Some a"
    using assms by (auto simp: explicitCommandAttempts_def split: option.splits)
  then obtain q t where "map_get (resultsOf turns) (callIDOf (turns ! p)) = [(q, t)]" "ca_call a = turns ! p" "ca_result a = t"
    by (auto simp: commandAttemptAt_def Let_def split: if_splits option.splits list.splits)
  with p(1) show "ca_call a \<in> set turns" "ca_result a \<in> set turns"
    using resultsOf_turns [of q t turns "callIDOf (turns ! p)"] by auto
qed

section \<open>Every edge and outcome is valid\<close>

lemma mem_turnRefs: "t \<in> set turns \<Longrightarrow> turnReference t \<in> turnRefs turns"
  by (simp add: turnRefs_def)

lemma time_mem: "well_formed session turns events \<Longrightarrow> t \<in> set turns \<Longrightarrow> tn_OccurredAt t \<noteq> time_zero"
  by (simp add: well_formed_def)

lemma turnEdges_valid:
  assumes w: "well_formed session turns events" and i: "i < length turns"
    and e: "e \<in> set (turnEdges T C session turns (calls_of turns) ambiguous
      (events_of (ts_SessionKey session) (\<lambda>e. True) events) i)"
  shows "Edge_Validate T e"
proof -
  have t: "turns ! i \<in> set turns" using i by simp
  note valid = new_edge_valid [OF w]
  consider (inv) "e \<in> set (invocationEdges T session (turns ! i) (events_of (ts_SessionKey session) (\<lambda>e. True) events) ambiguous)"
    | (res) "e \<in> set (resultEdges T session (turns ! i) (calls_of turns) ambiguous)"
    | (par) "e \<in> set (parentEdges T session (turns ! i) (calls_of turns) ambiguous)"
    | (cor) "e \<in> set (correctionEdges T C session turns i)"
    using e unfolding set_turnEdges by blast
  then show ?thesis
  proof cases
    case inv
    then show ?thesis using t event_ok [OF w]
      by (auto simp: invocationEdges_def mem_turnRefs intro!: valid split: if_splits)
  next
    case res
    then obtain c where c: "map_get (calls_of turns) (callIDOf (turns ! i)) = [c]"
      "e = newEdge T session (turnReference (turns ! i)) RelationReturnsFor (turnReference c)
        (tn_OccurredAt (turns ! i)) EvidenceObserved"
      unfolding in_resultEdges by blast
    have "c \<in> set turns" by (rule calls_of_turns [of c turns "callIDOf (turns ! i)"]) (simp add: c(1))
    with t show ?thesis unfolding c(2) using time_mem [OF w] by (intro valid) (auto simp: mem_turnRefs)
  next
    case par
    then obtain c where c: "map_get (calls_of turns) (parentOf (turns ! i)) = [c]"
      "e = newEdge T session (turnReference c) RelationParentOf (turnReference (turns ! i))
        (tn_OccurredAt (turns ! i)) EvidenceObserved"
      unfolding in_parentEdges by blast
    have "c \<in> set turns" by (rule calls_of_turns [of c turns "parentOf (turns ! i)"]) (simp add: c(1))
    with t show ?thesis unfolding c(2) using time_mem [OF w] by (intro valid) (auto simp: mem_turnRefs)
  next
    case cor
    then show ?thesis using i time_nth [OF w i]
      by (auto simp: correctionEdges_def intro!: valid split: if_splits)
  qed
qed

lemma mutationSources_ok:
  assumes "n \<in> turnRefs turns" "turnReference (mm_turn m) \<in> turnRefs turns" "mm_target m \<in> recordRefs session turns events"
  shows "mutationSources n m \<noteq> []" "length (mutationSources n m) \<le> maxSourceRefs"
    "set (mutationSources n m) \<subseteq> recordRefs session turns events"
  using assms by (auto simp: mutationSources_def)

lemma matched_turns:
  assumes "m \<in> set (concat (map (mutationsAt C session (events_of (ts_SessionKey session) mutationEvent events) ambiguous)
      (enumerate 0 turns)))"
  shows "turnReference (mm_turn m) \<in> turnRefs turns" "mm_target m \<in> recordRefs session turns events"
proof -
  obtain i where "i < length turns"
    "m \<in> set (mutationsAt C session (events_of (ts_SessionKey session) mutationEvent events) ambiguous (i, turns ! i))"
    using assms by (auto simp: enumerate_map)
  then show "turnReference (mm_turn m) \<in> turnRefs turns" "mm_target m \<in> recordRefs session turns events"
    by (rule mutationsAt_turns)+
qed

lemma sourced_edge_valid:
  assumes w: "well_formed session turns events" and i: "i < length turns"
    and m: "m \<in> set (concat (map (mutationsAt C session (events_of (ts_SessionKey session) mutationEvent events) ambiguous)
      (enumerate 0 turns)))" and R: "EdgeRelation_Valid R"
  shows "Edge_Validate T (newEdgeWithSources T session (turnReference (turns ! i)) R (mm_target m)
    (tn_OccurredAt (turns ! i)) EvidenceDeterministicInference (mutationSources (turnReference (turns ! i)) m))"
  using mutationSources_ok [OF turnRefs_nth [OF i] matched_turns [OF m]] matched_turns [OF m]
    turnRefs_nth [OF i] time_nth [OF w i] R
  by (intro edge_valid [OF w]) auto

lemma sessionEdges_valid:
  assumes w: "well_formed session turns events" and e: "e \<in> set (sessionEdges T C session turns events ambiguous)"
  shows "Edge_Validate T e"
proof -
  let ?mutations = "events_of (ts_SessionKey session) mutationEvent events"
  let ?matched = "concat (map (mutationsAt C session ?mutations ambiguous) (enumerate 0 turns))"
  let ?as = "explicitCommandAttempts C turns (resultsOf turns) ambiguous"
  consider (turn) i where "i < length turns" "e \<in> set (turnEdges T C session turns (calls_of turns) ambiguous
      (events_of (ts_SessionKey session) (\<lambda>e. True) events) i)"
    | (mod) i where "i < length turns" "e \<in> set (modifiesAt T C session ?mutations ambiguous (i, turns ! i))"
    | (ver) i where "i < length turns" "e \<in> set (verifiesAt T C session ?matched turns i)"
    | (rep) i where "i < length ?as" "e \<in> set (repairsAt T session ?as i)"
    | (cla) i where "i < length turns" "e \<in> set (claimsAt T C session turns ?matched i)"
    | (com) i where "i < length turns" "e \<in> set (compactsAt T session turns i)"
    using e unfolding set_sessionEdges Let_def by blast
  then show ?thesis
  proof cases
    case turn
    then show ?thesis by (rule turnEdges_valid [OF w])
  next
    case mod
    then show ?thesis using event_ok [OF w]
      by (auto simp: modifiesAt_def intro!: new_edge_valid [OF w] split: if_splits)
  next
    case ver
    then obtain m where "m \<in> set ?matched" "e = newEdgeWithSources T session (turnReference (turns ! i)) RelationVerifies
        (mm_target m) (tn_OccurredAt (turns ! i)) EvidenceDeterministicInference (mutationSources (turnReference (turns ! i)) m)"
      unfolding verifiesAt_def verificationEdges_def Let_def by (auto split: if_splits)
    with ver(1) show ?thesis using sourced_edge_valid [OF w, where R = RelationVerifies] by simp
  next
    case rep
    then have e: "e = repairEdge T session (?as ! (i - 1)) (?as ! i)" by (auto simp: repairsAt_def split: if_splits)
    have "?as ! (i - 1) \<in> set ?as" "?as ! i \<in> set ?as" using rep(1) by auto
    note turns = this [THEN attempts_turns(1)] this [THEN attempts_turns(2)]
    then show ?thesis unfolding e repairEdge_def using time_mem [OF w]
      by (intro edge_valid [OF w]) (auto simp: mem_turnRefs)
  next
    case cla
    then obtain m where "m \<in> set ?matched" "e = newEdgeWithSources T session (turnReference (turns ! i))
        RelationClaimsCompletionAfter (mm_target m) (tn_OccurredAt (turns ! i)) EvidenceDeterministicInference
        (mutationSources (turnReference (turns ! i)) m)"
      unfolding claimsAt_def Let_def by (auto split: if_splits option.splits)
    with cla(1) show ?thesis using sourced_edge_valid [OF w, where R = RelationClaimsCompletionAfter] by simp
  next
    case com
    then have "e = newEdge T session (turnReference (turns ! i)) RelationCompactsAfter
        (turnReference (turns ! (i - 1))) (tn_OccurredAt (turns ! i)) EvidenceDeterministicInference"
      unfolding compactsAt_def Let_def by (auto split: if_splits)
    with com(1) show ?thesis using time_nth [OF w] by (auto intro!: new_edge_valid [OF w])
  qed
qed

text \<open>No edge is a semantic hypothesis.\<close>

lemma edge_classes [simp]:
  "eg_EvidenceClass (newEdgeWithSources T session f R t tm ev refs) = ev"
  "eg_EvidenceClass (newEdge T session f R t tm ev) = ev"
  by (simp_all add: newEdge_def newEdgeWithSources_def Let_def)

lemma sessionEdges_class:
  "e \<in> set (sessionEdges T C session turns events ambiguous) \<Longrightarrow> eg_EvidenceClass e \<noteq> EvidenceSemanticHypothesis"
  unfolding set_sessionEdges set_turnEdges Let_def
  by (elim disjE exE conjE)
    (auto simp: invocationEdges_def in_resultEdges in_parentEdges correctionEdges_def modifiesAt_def
      verifiesAt_def verificationEdges_def repairsAt_def repairEdge_def claimsAt_def compactsAt_def Let_def
      split: if_splits option.splits)

lemma in_verificationOutcomes:
  "oc \<in> set (verificationOutcomes T C session results ambiguous turns position) \<longleftrightarrow>
    verificationTurn C (turns ! position) \<and> callIDOf (turns ! position) \<noteq> [] \<and>
    callIDOf (turns ! position) \<notin> set ambiguous \<and>
    (\<exists>result failed. map snd (filter (\<lambda>candidate. fst candidate > position)
        (map_get results (callIDOf (turns ! position)))) = [result] \<and>
      ExplicitToolResultFailed result = Some failed \<and>
      oc = newOutcome T session (tn_OccurredAt result)
        (if failed then OutcomeVerificationFail else OutcomeVerificationPass)
        (if failed then ResultFailed else ResultSucceeded)
        [turnReference (turns ! position), turnReference result])"
proof -
  have o: "e \<in> set (case x of None \<Rightarrow> [] | Some b \<Rightarrow> [f b]) \<longleftrightarrow> (\<exists>b. x = Some b \<and> e = f b)" for e x and f :: "bool \<Rightarrow> Outcome"
    by (cases x) auto
  let ?c = "verificationTurn C (turns ! position) \<and> callIDOf (turns ! position) \<noteq> [] \<and>
    callIDOf (turns ! position) \<notin> set ambiguous"
  show ?thesis
  proof (cases ?c)
    case True
    then show ?thesis unfolding verificationOutcomes_def Let_def if_P [OF True] set_case_single o by simp
  next
    case False
    then show ?thesis unfolding verificationOutcomes_def Let_def if_not_P [OF False] by auto
  qed
qed

lemma sessionOutcomes_valid:
  assumes w: "well_formed session turns events" and oc: "oc \<in> set (sessionOutcomes T C session turns ambiguous)"
  shows "Outcome_Validate T oc"
proof -
  let ?as = "explicitCommandAttempts C turns (resultsOf turns) ambiguous"
  consider (cor) i where "i < length turns" "oc \<in> set (correctionOutcomes T C session turns i)"
    | (ver) i where "i < length turns" "oc \<in> set (verificationOutcomes T C session (resultsOf turns) ambiguous turns i)"
    | (rep) i where "i < length ?as" "oc \<in> set (repairOutcomes T session ?as i)"
    using oc unfolding sessionOutcomes_def Let_def by (auto simp: atLeastLessThan_iff)
  then show ?thesis
  proof cases
    case cor
    then show ?thesis using time_nth [OF w]
      by (auto simp: correctionOutcomes_def intro!: outcome_valid [OF w] split: if_splits)
  next
    case ver
    then obtain result failed where r: "map snd (filter (\<lambda>candidate. fst candidate > i)
          (map_get (resultsOf turns) (callIDOf (turns ! i)))) = [result]"
      "oc = newOutcome T session (tn_OccurredAt result)
        (if failed then OutcomeVerificationFail else OutcomeVerificationPass)
        (if failed then ResultFailed else ResultSucceeded) [turnReference (turns ! i), turnReference result]"
      unfolding in_verificationOutcomes by (elim conjE exE) (rule that; assumption)
    have "result \<in> set (map snd (filter (\<lambda>candidate. fst candidate > i) (map_get (resultsOf turns) (callIDOf (turns ! i)))))"
      unfolding r(1) by simp
    then have "result \<in> set turns" using resultsOf_turns by fastforce
    with ver(1) show ?thesis unfolding r(2) using time_mem [OF w]
      by (intro outcome_valid [OF w]) (auto simp: mem_turnRefs)
  next
    case rep
    then have e: "oc = newOutcome T session (tn_OccurredAt (ca_result (?as ! i))) OutcomeRepair ResultSucceeded
         [turnReference (ca_call (?as ! (i - 1))), turnReference (ca_result (?as ! (i - 1))),
          turnReference (ca_call (?as ! i)), turnReference (ca_result (?as ! i))]"
      by (auto simp: repairOutcomes_def Let_def split: if_splits)
    have "?as ! (i - 1) \<in> set ?as" "?as ! i \<in> set ?as" using rep(1) by auto
    note turns = this [THEN attempts_turns(1)] this [THEN attempts_turns(2)]
    then show ?thesis unfolding e using time_mem [OF w]
      by (intro outcome_valid [OF w]) (auto simp: mem_turnRefs)
  qed
qed

section \<open>The derivation does not fail\<close>

lemma well_formed_derives:
  assumes "validateDeriveInput input" and w: "well_formed (di_Session input) (sortedTurns input) (sortedEvents input)"
  shows "\<exists>r. deriveSession T C order input = Inr r"
proof -
  let ?d = "derived T C input (order (calls_of (sortedTurns input)))"
  have "\<forall>e\<in>set (dr_Edges ?d). Edge_Validate T e"
    unfolding edges_derived using sessionEdges_valid [OF w] by blast
  moreover have "\<forall>oc\<in>set (dr_Outcomes ?d). Outcome_Validate T oc"
    unfolding outcomes_derived using sessionOutcomes_valid [OF w] by blast
  ultimately obtain r where "finishDerivation T ?d = Some r"
    by (auto simp: finishDerivation_def Let_def list_all_iff)
  then show ?thesis using assms(1) by (simp add: deriveSession_eq)
qed

text \<open>
  C19. On a valid input whose project identity is a trajectory identifier and whose events of the session have such
  identifiers and times, the derivation succeeds, and what it makes passes the validation of the deterministic
  verifiers.
\<close>

theorem derivation_succeeds_on_valid_records:
  assumes "validateDeriveInput input" and "trajectory_identifier (ts_ProjectIdentity (di_Session input))"
    and "\<forall>e\<in>set (di_CanonicalEvents input). ses_Key (ev_Session e) = ts_SessionKey (di_Session input) \<longrightarrow>
      trajectory_identifier (ev_EventID e) \<and> ev_OccurredAt e \<noteq> time_zero"
  shows "\<exists>r. deriveSession T C order input = Inr r \<and>
    ValidateDeterministicVerifierInputs T (dr_Edges r) (dr_Outcomes r)"
proof -
  have w: "well_formed (di_Session input) (sortedTurns input) (sortedEvents input)"
    using assms by (auto simp: well_formed_def sortedTurns_def sortedEvents_def validateDeriveInput_def Let_def
        list_all_iff split: if_splits)
  obtain r where s: "deriveSession T C order input = Inr r" using well_formed_derives [OF assms(1) w] by blast
  have "eg_EvidenceClass e \<noteq> EvidenceSemanticHypothesis" if "e \<in> set (dr_Edges r)" for e
    using that unfolding answer_edges [OF s] by (rule sessionEdges_class)
  then show ?thesis
    using s finishDerivation_Some(3,4) [OF deriveSession_Inr(2) [OF s]]
    by (auto simp: ValidateDeterministicVerifierInputs_def list_all_iff)
qed

end
