(* ===== verification/Traj_Order.thy ===== *)
theory Traj_Order
  imports Traj_Valid
begin

text \<open>
  The answer depends on neither the order in which turns, events and the map of calls are given, and its
  coverage and diagnostics say what is missing.
\<close>

section \<open>Sorting\<close>

lemma sort_key_unique:
  assumes "distinct (map f xs)" and "mset xs = mset ys"
  shows "sort_key f xs = sort_key f ys"
proof (rule map_sorted_distinct_set_unique)
  have s: "set ys = set xs" using assms(2) by (metis mset_eq_setD)
  show "inj_on f (set (sort_key f xs) \<union> set (sort_key f ys))" using assms(1) s by (simp add: distinct_map)
  have "mset (map f (sort_key f xs)) = mset (map f xs)" "mset (map f (sort_key f ys)) = mset (map f xs)"
    using assms(2) by simp_all
  then show "distinct (map f (sort_key f xs))" "distinct (map f (sort_key f ys))"
    using assms(1) by (metis mset_eq_imp_distinct_iff)+
  show "set (sort_key f xs) = set (sort_key f ys)" using s by simp
qed simp_all

lemma filter_same_key:
  assumes "mset xs = mset ys" and "inj_on f (set xs)"
  shows "filter (\<lambda>x. k = f x) xs = filter (\<lambda>x. k = f x) ys"
proof (cases "\<exists>a\<in>set xs. k = f a")
  case True
  then obtain a where a: "a \<in> set xs" "k = f a" by blast
  have s: "set ys = set xs" using assms(1) by (metis mset_eq_setD)
  have same: "k = f x \<longleftrightarrow> x = a" if "x \<in> set xs" for x
    using that a assms(2) by (auto dest: inj_onD)
  have "filter (\<lambda>x. k = f x) zs = replicate (length (filter (\<lambda>x. k = f x) zs)) a" if "set zs = set xs" for zs
    using that same by (intro replicate_length_same [symmetric]) auto
  moreover have "length (filter (\<lambda>x. k = f x) xs) = length (filter (\<lambda>x. k = f x) ys)"
    using assms(1) by (metis mset_filter size_mset)
  ultimately show ?thesis using s by metis
next
  case False
  have "set ys = set xs" using assms(1) by (metis mset_eq_setD)
  then have "filter (\<lambda>x. k = f x) xs = []" "filter (\<lambda>x. k = f x) ys = []"
    using False by (auto simp: filter_empty_conv)
  then show ?thesis by simp
qed

lemma sort_key_middle:
  fixes f :: "'a \<Rightarrow> 'b :: linorder"
  assumes "mset xs = mset ys" and "inj_on f (set xs)"
  shows "sort_key f (bs @ xs @ cs) = sort_key f (bs @ ys @ cs)"
proof (rule properties_for_sort_key)
  show "mset (sort_key f (bs @ ys @ cs)) = mset (bs @ xs @ cs)" using assms(1) by simp
  show "sorted (map f (sort_key f (bs @ ys @ cs)))" by simp
  fix k
  have "filter (\<lambda>x. f k = f x) (sort_key f (bs @ ys @ cs)) = filter (\<lambda>x. f k = f x) (bs @ ys @ cs)"
    using sort_key_stable [of f "f k" "bs @ ys @ cs"] by (simp add: eq_commute [of "f k"])
  also have "\<dots> = filter (\<lambda>x. f k = f x) (bs @ xs @ cs)"
    using filter_same_key [OF assms, of "f k"] by simp
  finally show "filter (\<lambda>x. f k = f x) (sort_key f (bs @ ys @ cs)) = filter (\<lambda>x. f k = f x) (bs @ xs @ cs)" .
qed

section \<open>The diagnostics of ambiguous calls\<close>

definition addAll :: "Diagnostic list \<Rightarrow> DeriveResult \<Rightarrow> DeriveResult" where
  "addAll ds r = r\<lparr>dr_Coverage := (dr_Coverage r)\<lparr>dc_LinksComplete := dc_LinksComplete (dr_Coverage r) \<and> ds = []\<rparr>,
    dr_Diagnostics := dr_Diagnostics r @ ds\<rparr>"

definition ambiguousOf :: "gostring \<times> Turn list \<Rightarrow> Diagnostic list" where
  "ambiguousOf entry = (if length (snd entry) < 2 then []
    else map (\<lambda>turn. \<lparr>dg_Code = DiagnosticAmbiguousToolCall, dg_Citation = Some (turnReference turn)\<rparr>) (snd entry))"

lemma addAll_nil [simp]: "addAll [] r = r"
  by (cases r) (simp add: addAll_def)

lemma addAll_append: "addAll ys (addAll xs r) = addAll (xs @ ys) r"
  by (simp add: addAll_def)

lemma addDiagnostic_addAll: "addDiagnostic c x r = addAll [\<lparr>dg_Code = c, dg_Citation = x\<rparr>] r"
  by (simp add: addDiagnostic_def addAll_def)

lemma fold_addDiagnostic:
  "foldl (\<lambda>r turn. addTurnDiagnostic c turn r) r ts =
    addAll (map (\<lambda>turn. \<lparr>dg_Code = c, dg_Citation = Some (turnReference turn)\<rparr>) ts) r"
  by (induction ts arbitrary: r) (simp_all add: addDiagnostic_addAll addAll_append)

lemma fold_ambiguousDiagnostics:
  "foldl ambiguousDiagnostics r entries = addAll (concat (map ambiguousOf entries)) r"
  by (induction entries arbitrary: r)
    (simp_all add: ambiguousDiagnostics_def ambiguousOf_def fold_addDiagnostic addAll_append)

lemma finishDerivation_same:
  assumes "mset xs = mset ys"
    and "inj_on (\<lambda>d. (diagnosticTurnIndex d, DiagnosticCode_text (dg_Code d))) (set xs)"
  shows "finishDerivation T (plus_result (addAll xs r) d) = finishDerivation T (plus_result (addAll ys r) d)"
proof -
  have e: "xs = [] \<longleftrightarrow> ys = []" using assms(1) by (metis mset_zero_iff)
  show ?thesis
    unfolding finishDerivation_def Let_def
    by (simp add: plus_result_def addAll_def e sort_key_middle [OF assms])
qed

lemma set_ambiguousIDs_same: "mset xs = mset ys \<Longrightarrow> set (ambiguousIDs xs) = set (ambiguousIDs ys)"
  by (auto simp: ambiguousIDs_def dest: mset_eq_setD)

lemma derived_same:
  assumes "mset xs = mset ys"
    and "\<forall>e\<in>set xs. \<forall>t\<in>set (snd e). tn_SessionKey t = key"
  shows "finishDerivation T (derived T C input xs) = finishDerivation T (derived T C input ys)"
proof -
  let ?L = "linkTurns T C (di_Session input) (sortedTurns input) (sortedEvents input)"
  let ?key = "\<lambda>d. (diagnosticTurnIndex d, DiagnosticCode_text (dg_Code d))"
  have l: "?L (ambiguousIDs xs) = ?L (ambiguousIDs ys)"
    by (rule linkTurns_cong [OF set_ambiguousIDs_same [OF assms(1)]])
  have p: "?L a r = plus_result r (?L a blank)" for a r by (rule appendsD [OF appends_linkTurns])
  have m: "mset (concat (map ambiguousOf xs)) = mset (concat (map ambiguousOf ys))"
    using assms(1) by (metis mset_concat mset_map sum_mset_sum_list map_map)
  have d: "\<exists>t. tn_SessionKey t = key \<and> d = \<lparr>dg_Code = DiagnosticAmbiguousToolCall, dg_Citation = Some (turnReference t)\<rparr>"
    if "d \<in> set (concat (map ambiguousOf xs))" for d
    using that assms(2) by (auto simp: ambiguousOf_def split: if_splits)
  have "inj_on ?key (set (concat (map ambiguousOf xs)))"
  proof (rule inj_onI)
    fix c d assume "c \<in> set (concat (map ambiguousOf xs))" "d \<in> set (concat (map ambiguousOf xs))" "?key c = ?key d"
    then show "c = d" using d [of c] d [of d] by (auto simp: diagnosticTurnIndex_def turnReference_def)
  qed
  then show ?thesis unfolding derived_def fold_ambiguousDiagnostics l
    by (subst (1 2) p) (rule finishDerivation_same [OF m])
qed

section \<open>Independence of the order\<close>

lemma validateDeriveInput_mset:
  assumes "mset ts = mset (di_Turns input)"
  shows "validateDeriveInput (input\<lparr>di_Turns := ts, di_CanonicalEvents := es\<rparr>) = validateDeriveInput input"
proof -
  have "list_all P ts = list_all P (di_Turns input)" for P
    using assms by (metis list_all_iff mset_eq_setD)
  moreover have "distinct (map tn_TurnIndex ts) = distinct (map tn_TurnIndex (di_Turns input))"
    using assms by (metis mset_eq_imp_distinct_iff mset_map)
  ultimately show ?thesis by (simp add: validateDeriveInput_def Let_def)
qed

text \<open>
  C20. The turns and the events, with distinct identifiers, can be given in any order, and the map of calls be ranged over
  in any order: the derivation answers the same, its order included.
\<close>

theorem derivation_ignores_order:
  assumes "\<And>m. mset (order m) = mset m" and "\<And>m. mset (order' m) = mset m"
    and "mset ts = mset (di_Turns input)" and "mset es = mset (di_CanonicalEvents input)"
    and "distinct (map ev_EventID es)"
  shows "deriveSession T C order' (input\<lparr>di_Turns := ts, di_CanonicalEvents := es\<rparr>) = deriveSession T C order input"
proof (cases "validateDeriveInput input")
  case True
  let ?input = "input\<lparr>di_Turns := ts, di_CanonicalEvents := es\<rparr>"
  have "distinct (map tn_TurnIndex (di_Turns input))"
    using True by (simp add: validateDeriveInput_def Let_def split: if_splits)
  then have "distinct (map turn_key (di_Turns input))"
    unfolding distinct_map by (auto simp: inj_on_def turn_key_def)
  then have turns: "sortedTurns ?input = sortedTurns input"
    using sort_key_unique [of turn_key "di_Turns input" ts] assms(3) by (simp add: sortedTurns_def)
  have "distinct (map source_key es)"
    using assms(5) unfolding distinct_map by (auto simp: inj_on_def source_key_def)
  then have events: "sortedEvents ?input = sortedEvents input"
    using sort_key_unique [of source_key es "di_CanonicalEvents input"] assms(4) by (simp add: sortedEvents_def)
  have d: "derived T C ?input entries = derived T C input entries" for entries
    by (simp add: derived_def turns events initialResult_def Let_def)
  have keys: "\<forall>e\<in>set (order' (calls_of (sortedTurns input))). \<forall>t\<in>set (snd e). tn_SessionKey t = ts_SessionKey (di_Session input)"
  proof (intro ballI)
    fix e t assume "e \<in> set (order' (calls_of (sortedTurns input)))" and t: "t \<in> set (snd e)"
    then have "e \<in> set (calls_of (sortedTurns input))" using mset_eq_setD [OF assms(2)] by blast
    then have "snd e = map_get (calls_of (sortedTurns input)) (fst e)"
      by (intro map_get_member [symmetric]) (simp_all add: calls_of_def)
    with t have "t \<in> set (di_Turns input)" using calls_of_turns [of t "sortedTurns input" "fst e"] by simp
    then show "tn_SessionKey t = ts_SessionKey (di_Session input)"
      using True by (auto simp: validateDeriveInput_def Let_def list_all_iff split: if_splits)
  qed
  have "mset (order' (calls_of (sortedTurns input))) = mset (order (calls_of (sortedTurns input)))"
    by (simp add: assms(1,2))
  from derived_same [OF this keys] show ?thesis
    using True by (simp add: deriveSession_eq validateDeriveInput_mset [OF assms(3)] turns d)
next
  case False
  then show ?thesis by (simp add: deriveSession_eq validateDeriveInput_mset [OF assms(3)])
qed

section \<open>Coverage\<close>

text \<open>Links are incomplete exactly when something was diagnosed.\<close>

definition honest :: "DeriveResult \<Rightarrow> bool" where
  "honest r \<longleftrightarrow> dc_LinksComplete (dr_Coverage r) = (dr_Diagnostics r = [])"

lemma honest_addAll: "honest r \<Longrightarrow> honest (addAll ds r)"
  by (auto simp: honest_def addAll_def)

lemma honest_step: "appends f \<Longrightarrow> honest r \<Longrightarrow> honest (f r)"
  using appendsD [of f r] appends_honest [of f] by (simp add: honest_def)

lemma honest_derived: "honest (derived T C input entries)"
proof -
  have "honest (initialResult input)"
    by (simp add: initialResult_def Let_def addDiagnostic_def honest_def)
  then have "honest (foldl callDiagnostic (initialResult input) (sortedTurns input))"
    by (rule honest_step [OF appends_fold [OF appends_callDiagnostic]])
  then show ?thesis unfolding derived_def fold_ambiguousDiagnostics
    by (intro honest_step [OF appends_linkTurns] honest_addAll)
qed

text \<open>The flags of the input reach the coverage, and the diagnostics only grow.\<close>

lemma appends_coverage:
  assumes "appends f"
  shows "dc_Transcript (dr_Coverage (f r)) = dc_Transcript (dr_Coverage r)"
    and "dc_TranscriptTurnsComplete (dr_Coverage (f r)) = dc_TranscriptTurnsComplete (dr_Coverage r)"
    and "dc_CanonicalEventsComplete (dr_Coverage (f r)) = dc_CanonicalEventsComplete (dr_Coverage r)"
    and "set (dr_Diagnostics r) \<subseteq> set (dr_Diagnostics (f r))"
  by (subst appendsD [OF assms], simp add: plus_result_def)+

lemma derived_coverage:
  "dc_Transcript (dr_Coverage (derived T C input entries)) = ts_Coverage (di_Session input)"
  "dc_TranscriptTurnsComplete (dr_Coverage (derived T C input entries)) = di_TranscriptTurnsComplete input"
  "dc_CanonicalEventsComplete (dr_Coverage (derived T C input entries)) = di_CanonicalEventsComplete input"
  "set (dr_Diagnostics (initialResult input)) \<subseteq> set (dr_Diagnostics (derived T C input entries))"
proof -
  let ?f = "\<lambda>r. linkTurns T C (di_Session input) (sortedTurns input) (sortedEvents input) (ambiguousIDs entries)
      (foldl ambiguousDiagnostics (foldl callDiagnostic r (sortedTurns input)) entries)"
  have a: "appends ?f"
    by (intro appends_comp [OF _ appends_linkTurns] appends_comp [OF _ appends_fold [OF appends_ambiguousDiagnostics]]
        appends_fold [OF appends_callDiagnostic])
  show "dc_Transcript (dr_Coverage (derived T C input entries)) = ts_Coverage (di_Session input)"
    "dc_TranscriptTurnsComplete (dr_Coverage (derived T C input entries)) = di_TranscriptTurnsComplete input"
    "dc_CanonicalEventsComplete (dr_Coverage (derived T C input entries)) = di_CanonicalEventsComplete input"
    unfolding derived_def appends_coverage [OF a] by (simp_all add: initialResult_def Let_def addDiagnostic_def)
  show "set (dr_Diagnostics (initialResult input)) \<subseteq> set (dr_Diagnostics (derived T C input entries))"
    unfolding derived_def by (rule appends_coverage(4) [OF a])
qed

lemma boundedDiagnostics_length: "length (boundedDiagnostics ds) \<le> MaxDiagnostics"
  by (simp add: boundedDiagnostics_def)

lemma boundedDiagnostics_nil [simp]: "boundedDiagnostics ds = [] \<longleftrightarrow> ds = []"
  by (auto simp: boundedDiagnostics_def)

lemma sort_key_nil [simp]: "sort_key f xs = [] \<longleftrightarrow> xs = []"
  by (metis length_0_conv length_sort)

text \<open>
  A session counts as fully derived exactly when nothing is diagnosed, which requires a complete transcript and complete
  turns and events; and at most 512 diagnostics are kept.
\<close>

theorem fully_derived_iff_nothing_diagnosed:
  assumes "deriveSession T C order input = Inr r"
  shows "(dc_FullyDerived (dr_Coverage r) \<longleftrightarrow> dr_Diagnostics r = []) \<and>
    (dr_Diagnostics r = [] \<longrightarrow> ts_Coverage (di_Session input) = CoverageComplete \<and>
      di_TranscriptTurnsComplete input \<and> di_CanonicalEventsComplete input) \<and>
    length (dr_Diagnostics r) \<le> 512"
proof -
  let ?d = "derived T C input (order (calls_of (sortedTurns input)))"
  have f: "finishDerivation T ?d = Some r" by (rule deriveSession_Inr(2) [OF assms])
  have diags: "dr_Diagnostics r = [] \<longleftrightarrow> dr_Diagnostics ?d = []" "length (dr_Diagnostics r) \<le> 512"
    using f boundedDiagnostics_length by (auto simp: finishDerivation_def Let_def split: if_splits)
  have full: "dc_FullyDerived (dr_Coverage r) \<longleftrightarrow> ts_Coverage (di_Session input) = CoverageComplete \<and>
      di_TranscriptTurnsComplete input \<and> di_CanonicalEventsComplete input \<and> dr_Diagnostics ?d = []"
    using f honest_derived [of T C input "order (calls_of (sortedTurns input))"]
    by (auto simp: finishDerivation_def Let_def derived_coverage honest_def split: if_splits)
  have "dr_Diagnostics ?d \<noteq> []"
    if "\<not> (ts_Coverage (di_Session input) = CoverageComplete \<and> di_TranscriptTurnsComplete input \<and>
      di_CanonicalEventsComplete input)"
  proof -
    have "dr_Diagnostics (initialResult input) \<noteq> []"
      using that by (auto simp: initialResult_def Let_def addDiagnostic_def)
    then show ?thesis using derived_coverage(4) [of input T C] by (metis set_empty subset_empty)
  qed
  with diags full show ?thesis by blast
qed

section \<open>Outcomes of verifications\<close>

lemma outcome_kind [simp]: "oc_Kind (newOutcome T session tm k u refs) = k"
  by (simp add: newOutcome_def Let_def)

lemma verification_outcomes:
  "oc \<in> set (sessionOutcomes T C session turns ambiguous) \<and> oc_Kind oc \<in> {OutcomeVerificationPass, OutcomeVerificationFail} \<longleftrightarrow>
    (\<exists>i<length turns. oc \<in> set (verificationOutcomes T C session (resultsOf turns) ambiguous turns i))"
proof -
  have k: "oc_Kind oc = OutcomeCorrection" if "oc \<in> set (correctionOutcomes T C session turns i)" for i
    using that by (auto simp: correctionOutcomes_def split: if_splits)
  have r: "oc_Kind oc = OutcomeRepair" if "oc \<in> set (repairOutcomes T session attempts i)" for attempts i
    using that by (auto simp: repairOutcomes_def Let_def split: if_splits)
  have v: "oc_Kind oc \<in> {OutcomeVerificationPass, OutcomeVerificationFail}"
    if "oc \<in> set (verificationOutcomes T C session (resultsOf turns) ambiguous turns i)" for i
    using that unfolding in_verificationOutcomes by (elim conjE exE) simp
  show ?thesis unfolding sessionOutcomes_def Let_def
    using v by (auto simp: atLeastLessThan_iff dest: k r)
qed

text \<open>The later results of a call.\<close>

definition laterResults :: "Turn list \<Rightarrow> nat \<Rightarrow> Turn set" where
  "laterResults turns p = {turns ! q | q. p < q \<and> q < length turns \<and> tn_Role (turns ! q) = RoleToolResult \<and>
    callIDOf (turns ! q) = callIDOf (turns ! p)}"

lemma laterResults_eq:
  assumes "distinct turns" and "callIDOf (turns ! p) \<noteq> []"
  shows "map snd (filter (\<lambda>candidate. fst candidate > p) (map_get (resultsOf turns) (callIDOf (turns ! p)))) = [t] \<longleftrightarrow>
    laterResults turns p = {t}"
proof -
  let ?xs = "filter (\<lambda>c. tn_Role (snd c) = RoleToolResult \<and> callIDOf (snd c) = callIDOf (turns ! p) \<and> p < fst c)
    (enumerate 0 turns)"
  have e: "map snd (filter (\<lambda>candidate. fst candidate > p) (map_get (resultsOf turns) (callIDOf (turns ! p)))) = map snd ?xs"
    unfolding resultsOf_def group_pairs_props
    by (simp add: filter_map comp_def case_prod_unfold conj_ac assms(2) cong: conj_cong)
  have s: "set (map snd ?xs) = laterResults turns p"
    by (auto simp: laterResults_def in_set_enumerate_eq image_iff)
  have "inj_on snd (set (enumerate 0 turns))"
    using assms(1) by (auto simp: inj_on_def in_set_enumerate_eq nth_eq_iff_index_eq)
  then have "distinct (map snd ?xs)" by (auto simp: distinct_map inj_on_def)
  then have "map snd ?xs = [t] \<longleftrightarrow> set (map snd ?xs) = {t}"
    using filter_singleton [of "map snd ?xs" "\<lambda>x. True" t] by simp
  then show ?thesis unfolding e s .
qed

text \<open>
  C17. A verification passes or fails exactly when its call has a nonempty identifier that no other call of the session has, exactly
  one later result has it too, and that result says whether the command failed, by its exit code or, without one,
  its error flag; the outcome is then what the result says, at the time of the result.
\<close>

theorem verification_outcomes_report_the_only_result:
  assumes "\<And>m. mset (order m) = mset m" and "deriveSession T C order input = Inr r"
  shows "{oc \<in> set (dr_Outcomes r). oc_Kind oc \<in> {OutcomeVerificationPass, OutcomeVerificationFail}} =
    {newOutcome T (di_Session input) (tn_OccurredAt result)
        (if failed then OutcomeVerificationFail else OutcomeVerificationPass)
        (if failed then ResultFailed else ResultSucceeded)
        [turnReference (sortedTurns input ! p), turnReference result] | p result failed.
      p < length (sortedTurns input) \<and> verificationTurn C (sortedTurns input ! p) \<and>
      callIDOf (sortedTurns input ! p) \<noteq> [] \<and>
      {t \<in> set (di_Turns input). tn_Role t = RoleToolCall \<and> callIDOf t = callIDOf (sortedTurns input ! p)} =
        {sortedTurns input ! p} \<and>
      laterResults (sortedTurns input) p = {result} \<and> ExplicitToolResultFailed result = Some failed}"
    (is "?L = ?R")
proof -
  let ?turns = "sortedTurns input"
  let ?amb = "ambiguousIDs (order (calls_of ?turns))"
  have d: "distinct ?turns" by (rule distinct_sortedTurns [OF deriveSession_Inr(1) [OF assms(2)]])
  have single: "callIDOf (?turns ! p) \<notin> set ?amb \<longleftrightarrow>
      {t \<in> set (di_Turns input). tn_Role t = RoleToolCall \<and> callIDOf t = callIDOf (?turns ! p)} = {?turns ! p}"
    if "p < length ?turns" "verificationTurn C (?turns ! p)" "callIDOf (?turns ! p) \<noteq> []" for p
  proof -
    let ?fs = "filter (\<lambda>t. tn_Role t = RoleToolCall \<and> callIDOf t = callIDOf (?turns ! p)) ?turns"
    have "?turns ! p \<in> set (di_Turns input)" using nth_mem [OF that(1)] by simp
    then have m: "?turns ! p \<in> set ?fs" using that(2) by (simp add: verificationTurn_def)
    have "callIDOf (?turns ! p) \<notin> set ?amb \<longleftrightarrow> length ?fs < 2"
      using set_ambiguousIDs [OF assms(1) that(3), of ?turns] by (simp add: map_get_calls_of [OF that(3)] not_le)
    also have "\<dots> \<longleftrightarrow> ?fs = [?turns ! p]"
    proof
      assume "length ?fs < 2"
      with m show "?fs = [?turns ! p]" by (cases ?fs; cases "tl ?fs") auto
    next
      assume "?fs = [?turns ! p]"
      then show "length ?fs < 2" by simp
    qed
    also have "\<dots> \<longleftrightarrow> {t \<in> set ?turns. tn_Role t = RoleToolCall \<and> callIDOf t = callIDOf (?turns ! p)} = {?turns ! p}"
      by (rule filter_singleton [OF d])
    finally show ?thesis by simp
  qed
  let ?out = "\<lambda>p result failed. newOutcome T (di_Session input) (tn_OccurredAt result)
        (if failed then OutcomeVerificationFail else OutcomeVerificationPass)
        (if failed then ResultFailed else ResultSucceeded) [turnReference (?turns ! p), turnReference result]"
  have "oc \<in> ?L \<longleftrightarrow> (\<exists>p<length ?turns. oc \<in> set (verificationOutcomes T C (di_Session input) (resultsOf ?turns) ?amb ?turns p))"
    for oc
    using verification_outcomes [of oc T C "di_Session input" ?turns ?amb]
      finishDerivation_Some(2) [OF deriveSession_Inr(2) [OF assms(2)]]
    by (simp add: outcomes_derived)
  also have "\<dots> oc \<longleftrightarrow> (\<exists>p<length ?turns. verificationTurn C (?turns ! p) \<and> callIDOf (?turns ! p) \<noteq> [] \<and>
      {t \<in> set (di_Turns input). tn_Role t = RoleToolCall \<and> callIDOf t = callIDOf (?turns ! p)} = {?turns ! p} \<and>
      (\<exists>result failed. laterResults ?turns p = {result} \<and> ExplicitToolResultFailed result = Some failed \<and>
        oc = ?out p result failed))" for oc
    unfolding in_verificationOutcomes
    by (intro ex_cong1 conj_cong refl single laterResults_eq [OF d]; assumption)
  also have "\<dots> oc \<longleftrightarrow> oc \<in> ?R" for oc by blast
  finally show ?thesis by blast
qed

end
