(* ===== verification/Traj_Example.thy ===== *)
theory Traj_Example
  imports Traj_Order
begin

text \<open>
  A small session on which the properties of the derivation are checked: a failing test, an edit, a passing test
  of the same family, and a correction by the user.
\<close>

definition exampleEncoder :: trajectory_encoder where
  "exampleEncoder = \<lparr>enc_node = nr_EventID, enc_edge = (\<lambda>e. ''X''), enc_outcome = (\<lambda>oc. ''Y'')\<rparr>"

definition exampleRules :: text_rules where
  "exampleRules = \<lparr>tr_IsMachineGeneratedEnvelope = (\<lambda>s. False),
     tr_HighConfidenceCorrectionMarker = (\<lambda>s. if s = ''wrong'' then s else []),
     tr_ExtractEditedFiles = (\<lambda>t. if tn_ToolName t = ''Edit'' then [''a.go''] else []),
     tr_RetainedVerificationCommand = (\<lambda>t. tn_ToolName t = ''Bash''),
     tr_NormalizedCommandSignature = (\<lambda>t. if tn_ToolName t = ''Bash'' then Some (pl_RawCommand (tn_Payload t)) else None),
     tr_CommandRepairFamily = (\<lambda>t. if tn_ToolName t = ''Bash'' then Some ''go test'' else None),
     tr_IsCompletionClaim = (\<lambda>t. False)\<rparr>"

definition zero_payload :: Payload where
  "zero_payload = \<lparr>pl_Text = [], pl_ToolInput = [], pl_ToolResult = [], pl_RawCommand = [], pl_CWD = [],
     pl_GitBranch = [], pl_ParentToolUseID = [], pl_ToolCallID = [], pl_ToolIsError = None, pl_ExitCode = None,
     pl_DurationMS = None, pl_SupplementalEvidence = False, pl_SourceFileID = [], pl_ParserVersion = [],
     pl_PriceTableVersion = [], pl_JSONLByteOffset = 0\<rparr>"

definition exampleTurn :: "int \<Rightarrow> Role \<Rightarrow> gostring \<Rightarrow> Payload \<Rightarrow> Turn" where
  "exampleTurn i role tool payload = \<lparr>tn_TurnID = [], tn_SourceRecordKey = [], tn_SessionKey = ''s'', tn_TurnIndex = i,
     tn_OccurredAt = 1 + i, tn_Role = role, tn_ToolName = tool, tn_Model = [], tn_InputTokens = None,
     tn_OutputTokens = None, tn_CacheReadTokens = None, tn_CacheWriteTokens = None, tn_CostUSD = None,
     tn_Payload = payload\<rparr>"

definition exampleTurns :: "Turn list" where
  "exampleTurns =
    [exampleTurn 0 RoleToolCall ''Bash'' (zero_payload\<lparr>pl_ToolCallID := ''a'', pl_RawCommand := ''go test x''\<rparr>),
     exampleTurn 1 RoleToolResult [] (zero_payload\<lparr>pl_ToolCallID := '' a'', pl_ExitCode := Some 1\<rparr>),
     exampleTurn 2 RoleToolCall ''Edit'' (zero_payload\<lparr>pl_ToolCallID := ''b''\<rparr>),
     exampleTurn 3 RoleToolCall ''Bash'' (zero_payload\<lparr>pl_ToolCallID := ''c'', pl_RawCommand := ''go test y''\<rparr>),
     exampleTurn 4 RoleToolResult [] (zero_payload\<lparr>pl_ToolCallID := ''c'', pl_ToolIsError := Some False\<rparr>),
     exampleTurn 5 RoleUser [] (zero_payload\<lparr>pl_Text := ''wrong''\<rparr>)]"

definition exampleEvents :: "Event list" where
  "exampleEvents = [zero_event\<lparr>ev_EventID := ''e'', ev_OccurredAt := 3, ev_Session := \<lparr>ses_Key = ''s''\<rparr>,
     ev_Observation := zero_observation\<lparr>obs_Type := ''file.write'',
       obs_Details := Some (zero_details\<lparr>dtl_ToolCallID := ''b''\<rparr>)\<rparr>\<rparr>]"

definition exampleInput :: DeriveInput where
  "exampleInput = \<lparr>di_Session = \<lparr>ts_SessionKey = ''s'', ts_Agent = [], ts_NativeSessionID = [], ts_ProjectPath = [],
       ts_GitRemoteURL = [], ts_ProjectIdentity = ''p'', ts_StartedAt = 1, ts_EndedAt = 9, ts_Coverage = CoverageComplete\<rparr>,
     di_Turns = exampleTurns, di_CanonicalEvents = exampleEvents, di_TranscriptTurnsComplete = True,
     di_CanonicalEventsComplete = True\<rparr>"

section \<open>The example evaluated\<close>

lemma example_collections:
  "sortedTurns exampleInput = exampleTurns" "sortedEvents exampleInput = exampleEvents"
  "ambiguousIDs (calls_of exampleTurns) = []"
  by code_simp+

abbreviation exampleEdges :: "Edge list" where
  "exampleEdges \<equiv> sessionEdges exampleEncoder exampleRules (di_Session exampleInput) exampleTurns exampleEvents []"

lemma example_edges:
  "map (\<lambda>R. length (filter (\<lambda>e. eg_Relation e = R) exampleEdges))
    [RelationReturnsFor, RelationVerifies, RelationRepairs, RelationCorrects] = [2, 1, 1, 1]"
  by code_simp

lemma example_outcomes:
  "map oc_Kind (sessionOutcomes exampleEncoder exampleRules (di_Session exampleInput) exampleTurns []) =
    [OutcomeCorrection, OutcomeVerificationFail, OutcomeVerificationPass, OutcomeRepair]"
  by code_simp

lemma example_valid: "validateDeriveInput exampleInput"
  by code_simp

lemma example_identifiers: "trajectory_identifier (ts_ProjectIdentity (di_Session exampleInput))"
  "trajectory_identifier ''s''" "trajectory_identifier ''e''"
  by code_simp+

lemma example_events:
  "\<forall>e\<in>set exampleEvents. trajectory_identifier (ev_EventID e) \<and> ev_OccurredAt e \<noteq> time_zero"
  by (simp add: exampleEvents_def example_identifiers zero_defs)

lemma example_well_formed: "well_formed (di_Session exampleInput) exampleTurns exampleEvents"
  unfolding well_formed_def turnReference_valid using example_events
  by (simp add: example_identifiers) (simp add: exampleInput_def exampleTurns_def exampleTurn_def example_identifiers time_zero_def)

abbreviation exampleAnswer :: "DeriveResult \<Rightarrow> bool" where
  "exampleAnswer r \<equiv> deriveSession exampleEncoder exampleRules (\<lambda>m. m) exampleInput = Inr r"

lemma example_answers: obtains r where "exampleAnswer r"
  using well_formed_derives [OF example_valid] example_well_formed example_collections by metis

lemma example_relations:
  assumes "exampleAnswer r" and "R \<in> {RelationReturnsFor, RelationVerifies, RelationRepairs, RelationCorrects}"
  shows "{e \<in> set (dr_Edges r). eg_Relation e = R} \<noteq> {}"
proof -
  have "length (filter (\<lambda>e. eg_Relation e = R) exampleEdges) \<noteq> 0"
    using example_edges assms(2) by auto
  then have "filter (\<lambda>e. eg_Relation e = R) exampleEdges \<noteq> []" by (metis list.size(3))
  then show ?thesis
    using answer_edges [OF assms(1)] by (auto simp: example_collections filter_empty_conv)
qed

section \<open>Every property at the example\<close>

theorem results_return_for_their_only_call_witness:
  "\<exists>r. exampleAnswer r \<and> {e \<in> set (dr_Edges r). eg_Relation e = RelationReturnsFor} \<noteq> {} \<and>
    {e \<in> set (dr_Edges r). eg_Relation e = RelationReturnsFor} =
    {newEdge exampleEncoder (di_Session exampleInput) (turnReference result) RelationReturnsFor (turnReference call)
        (tn_OccurredAt result) EvidenceObserved | result call.
      result \<in> set exampleTurns \<and> tn_Role result = RoleToolResult \<and> callIDOf result \<noteq> [] \<and>
      {t \<in> set exampleTurns. tn_Role t = RoleToolCall \<and> callIDOf t = callIDOf result} = {call}}"
proof -
  obtain r where r: "exampleAnswer r" by (rule example_answers)
  then show ?thesis using example_relations [OF r, of RelationReturnsFor]
      results_return_for_their_only_call [of "\<lambda>m. m", OF refl r]
    by (intro exI [of _ r] conjI) (simp_all add: exampleInput_def)
qed

theorem verifications_cover_what_changed_since_the_last_witness:
  "\<exists>r. exampleAnswer r \<and> {e \<in> set (dr_Edges r). eg_Relation e = RelationVerifies} \<noteq> {} \<and>
    {e \<in> set (dr_Edges r). eg_Relation e = RelationVerifies} =
    {newEdgeWithSources exampleEncoder (di_Session exampleInput) (turnReference (exampleTurns ! p)) RelationVerifies
        (mm_target m) (tn_OccurredAt (exampleTurns ! p)) EvidenceDeterministicInference
        (mutationSources (turnReference (exampleTurns ! p)) m) | p m.
      p < length exampleTurns \<and> verificationTurn exampleRules (exampleTurns ! p) \<and>
      m \<in> set (matchedMutations exampleRules (\<lambda>m. m) exampleInput) \<and> mm_position m < p \<and> p \<le> mm_position m + 100 \<and>
      (\<forall>j. mm_position m \<le> j \<and> j < p \<longrightarrow> \<not> verificationTurn exampleRules (exampleTurns ! j))}"
proof -
  obtain r where r: "exampleAnswer r" by (rule example_answers)
  then show ?thesis using example_relations [OF r, of RelationVerifies]
      verifications_cover_what_changed_since_the_last [OF r]
    by (intro exI [of _ r] conjI) (simp_all add: example_collections)
qed

theorem repairs_follow_the_failure_at_once_witness:
  "\<exists>r. exampleAnswer r \<and> {e \<in> set (dr_Edges r). eg_Relation e = RelationRepairs} \<noteq> {} \<and>
    {e \<in> set (dr_Edges r). eg_Relation e = RelationRepairs} =
    {repairEdge exampleEncoder (di_Session exampleInput) f s | f s i.
      Suc i < length (sessionAttempts exampleRules (\<lambda>m. m) exampleInput) \<and>
      f = sessionAttempts exampleRules (\<lambda>m. m) exampleInput ! i \<and> s = sessionAttempts exampleRules (\<lambda>m. m) exampleInput ! Suc i \<and>
      ca_exitCode f \<noteq> 0 \<and> ca_exitCode s = 0 \<and> ca_segment f = ca_segment s \<and>
      int (ca_position s) - int (ca_position f) \<le> 20 \<and> ca_resultPosition f < ca_position s \<and>
      ca_repairFamily f \<noteq> [] \<and> ca_repairFamily f = ca_repairFamily s \<and> ca_signature f \<noteq> ca_signature s}"
proof -
  obtain r where r: "exampleAnswer r" by (rule example_answers)
  then show ?thesis using example_relations [OF r, of RelationRepairs] repairs_follow_the_failure_at_once [OF r]
    by (intro exI [of _ r] conjI) simp_all
qed

theorem corrections_concern_the_turn_before_witness:
  "\<exists>r. exampleAnswer r \<and> {e \<in> set (dr_Edges r). eg_Relation e = RelationCorrects} \<noteq> {} \<and>
    {e \<in> set (dr_Edges r). eg_Relation e = RelationCorrects} =
    {newEdge exampleEncoder (di_Session exampleInput) (turnReference user) RelationCorrects (turnReference agent)
        (tn_OccurredAt user) EvidenceDeterministicInference | user agent i.
      Suc i < length exampleTurns \<and> agent = exampleTurns ! i \<and> user = exampleTurns ! Suc i \<and>
      tn_Role user = RoleUser \<and> behaviorRole (tn_Role agent) \<and>
      trim_space (pl_Text (tn_Payload user)) \<noteq> [] \<and>
      \<not> tr_IsMachineGeneratedEnvelope exampleRules (trim_space (pl_Text (tn_Payload user))) \<and>
      trim_space (pl_ParentToolUseID (tn_Payload user)) = [] \<and>
      tr_HighConfidenceCorrectionMarker exampleRules (trim_space (pl_Text (tn_Payload user))) \<noteq> []}"
proof -
  obtain r where r: "exampleAnswer r" by (rule example_answers)
  then show ?thesis using example_relations [OF r, of RelationCorrects]
      corrections_concern_the_turn_before [OF r]
    by (intro exI [of _ r] conjI) (simp_all add: example_collections)
qed

theorem derivation_succeeds_on_valid_records_witness:
  "\<exists>r. exampleAnswer r \<and> ValidateDeterministicVerifierInputs exampleEncoder (dr_Edges r) (dr_Outcomes r)"
  by (rule derivation_succeeds_on_valid_records [OF example_valid example_identifiers(1)])
    (use example_events in \<open>simp add: exampleInput_def\<close>)

theorem derivation_ignores_order_witness:
  "deriveSession exampleEncoder exampleRules rev (exampleInput\<lparr>di_Turns := rev exampleTurns, di_CanonicalEvents := exampleEvents\<rparr>) =
    deriveSession exampleEncoder exampleRules (\<lambda>m. m) exampleInput"
  by (rule derivation_ignores_order) (simp_all add: exampleInput_def exampleEvents_def)

theorem fully_derived_iff_nothing_diagnosed_witness:
  "\<exists>r. exampleAnswer r \<and> ((dc_FullyDerived (dr_Coverage r) \<longleftrightarrow> dr_Diagnostics r = []) \<and>
    (dr_Diagnostics r = [] \<longrightarrow> ts_Coverage (di_Session exampleInput) = CoverageComplete \<and>
      di_TranscriptTurnsComplete exampleInput \<and> di_CanonicalEventsComplete exampleInput) \<and>
    length (dr_Diagnostics r) \<le> 512)"
proof -
  obtain r where r: "exampleAnswer r" by (rule example_answers)
  show ?thesis by (intro exI [of _ r] conjI [OF r] fully_derived_iff_nothing_diagnosed [OF r])
qed

theorem verification_outcomes_report_the_only_result_witness:
  "\<exists>r. exampleAnswer r \<and>
    {oc \<in> set (dr_Outcomes r). oc_Kind oc \<in> {OutcomeVerificationPass, OutcomeVerificationFail}} \<noteq> {} \<and>
    {oc \<in> set (dr_Outcomes r). oc_Kind oc \<in> {OutcomeVerificationPass, OutcomeVerificationFail}} =
    {newOutcome exampleEncoder (di_Session exampleInput) (tn_OccurredAt result)
        (if failed then OutcomeVerificationFail else OutcomeVerificationPass)
        (if failed then ResultFailed else ResultSucceeded)
        [turnReference (exampleTurns ! p), turnReference result] | p result failed.
      p < length exampleTurns \<and> verificationTurn exampleRules (exampleTurns ! p) \<and>
      callIDOf (exampleTurns ! p) \<noteq> [] \<and>
      {t \<in> set (di_Turns exampleInput). tn_Role t = RoleToolCall \<and> callIDOf t = callIDOf (exampleTurns ! p)} =
        {exampleTurns ! p} \<and>
      laterResults exampleTurns p = {result} \<and> ExplicitToolResultFailed result = Some failed}"
proof -
  obtain r where r: "exampleAnswer r" by (rule example_answers)
  have "OutcomeVerificationPass \<in> oc_Kind ` set (dr_Outcomes r)"
    using arg_cong [OF example_outcomes, of set] finishDerivation_Some(2) [OF deriveSession_Inr(2) [OF r]]
    by (simp add: outcomes_derived example_collections)
  then have "{oc \<in> set (dr_Outcomes r). oc_Kind oc \<in> {OutcomeVerificationPass, OutcomeVerificationFail}} \<noteq> {}" by auto
  from this verification_outcomes_report_the_only_result [of "\<lambda>m. m", OF refl r, unfolded example_collections]
  show ?thesis by (intro exI [of _ r] conjI [OF r] conjI)
qed

end
