(* ===== verification/Cand_Example.thy ===== *)
theory Cand_Example
  imports Cand_Properties Traj_Example "HOL-Library.Code_Target_Nat"
begin

text \<open>
  A session on which the properties of the candidate compiler are checked: an edit, a test that passes after
  it, and a correction by the user. With a test command of one line a candidate of each of two families is
  compiled; with a command of two lines the compilation fails, and the correction is lost with it.
\<close>

definition compileTrajectory :: trajectory_encoder where
  "compileTrajectory = \<lparr>enc_node = nr_EventID, enc_edge = (\<lambda>e. ''X''),
     enc_outcome = (\<lambda>oc. if oc_Kind oc = OutcomeCorrection then ''A'' else ''B'')\<rparr>"

definition compileEncoder :: compile_encoder where
  "compileEncoder =
    \<lparr>ce_experience = \<lparr>enc_condition = (\<lambda>c. []),
       enc_ref = (\<lambda>r. case er_TurnIndex r of None \<Rightarrow> er_OutcomeID r | Some i \<Rightarrow> replicate (nat i) CHR ''t''),
       enc_base32 = (\<lambda>v. case v of CanonCandidate x1 CandidateCorrection x3 x4 x5 x6 x7 x8 \<Rightarrow> ''B'' | _ \<Rightarrow> ''A''),
       enc_hex = (\<lambda>v. [])\<rparr>,
     ce_trajectory = compileTrajectory,
     ce_episode = \<lparr>enc_noderef = (\<lambda>r. replicate (nat (turnIndexOf r)) CHR ''t''), enc_record = spr_RawCommand, enc_episode = (\<lambda>e. ''E'')\<rparr>,
     ce_input = (\<lambda>v. replicate 64 (CHR ''a''))\<rparr>"

definition compileRules :: compile_rules where
  "compileRules = text_rules.extend exampleRules
     \<lparr>cr_VerificationCommand = (\<lambda>session t. if tn_ToolName t = ''Bash'' then Some (''test'', pl_RawCommand (tn_Payload t)) else None)\<rparr>"

definition editTurn :: Turn where "editTurn = exampleTurn 2 RoleToolCall ''Edit'' (zero_payload\<lparr>pl_ToolCallID := ''b''\<rparr>)"
definition testTurn :: "gostring \<Rightarrow> Turn" where
  "testTurn command = exampleTurn 3 RoleToolCall ''Bash'' (zero_payload\<lparr>pl_ToolCallID := ''c'', pl_RawCommand := command\<rparr>)"
definition resultTurn :: Turn where
  "resultTurn = exampleTurn 4 RoleToolResult [] (zero_payload\<lparr>pl_ToolCallID := ''c'', pl_ToolIsError := Some False\<rparr>)"
definition userTurn :: Turn where "userTurn = exampleTurn 5 RoleUser [] (zero_payload\<lparr>pl_Text := ''wrong''\<rparr>)"

definition nodeOf :: "int \<Rightarrow> NodeRef" where "nodeOf i = turnReference (exampleTurn i RoleUser [] zero_payload)"

definition respondsEdge :: Edge where
  "respondsEdge = newEdge compileTrajectory (di_Session exampleInput) (nodeOf 5) RelationRespondsTo (nodeOf 4) 6 EvidenceDeterministicInference"
definition correctsEdge :: Edge where
  "correctsEdge = newEdge compileTrajectory (di_Session exampleInput) (nodeOf 5) RelationCorrects (nodeOf 4) 6 EvidenceDeterministicInference"
definition verifiesEdge :: Edge where
  "verifiesEdge = newEdge compileTrajectory (di_Session exampleInput) (nodeOf 3) RelationVerifies (nodeOf 2) 4 EvidenceDeterministicInference"
definition passOutcome :: Outcome where
  "passOutcome = newOutcome compileTrajectory (di_Session exampleInput) 5 OutcomeVerificationPass ResultSucceeded [nodeOf 3, nodeOf 4]"
definition correctionOutcome :: Outcome where
  "correctionOutcome = newOutcome compileTrajectory (di_Session exampleInput) 6 OutcomeCorrection ResultObserved [nodeOf 4, nodeOf 5]"

definition compileInput :: "gostring \<Rightarrow> CompileInput" where
  "compileInput command = \<lparr>ci_ProjectIdentity = '' p'', ci_Turns = [editTurn, testTurn command, resultTurn, userTurn],
     ci_Edges = [verifiesEdge, respondsEdge, correctsEdge], ci_Outcomes = [passOutcome, correctionOutcome]\<rparr>"

abbreviation planned :: "gostring \<Rightarrow> compiler" where
  "planned command \<equiv> \<lparr>cp_projectIdentity = ''p'', cp_turns = [editTurn, testTurn command, resultTurn, userTurn], cp_ambiguousTurns = [],
     cp_edges = [verifiesEdge, respondsEdge, correctsEdge], cp_outcomes = [passOutcome, correctionOutcome]\<rparr>"

definition outcomeEvidence :: "gostring \<Rightarrow> time \<Rightarrow> EvidenceRef" where
  "outcomeEvidence outcome time = (emptyRef EvidenceOutcomeObservation)\<lparr>er_OutcomeID := outcome, er_OccurredAt := Some time\<rparr>"

definition turnEvidence :: "int \<Rightarrow> EvidenceTurnRole \<Rightarrow> gostring \<Rightarrow> gostring \<Rightarrow> EvidenceRef" where
  "turnEvidence i role tool excerpt = (emptyRef EvidenceTranscriptTurn)\<lparr>er_SessionKey := ''s'',
      er_TurnIndex := Some i, er_TurnRole := Some role, er_ToolName := tool, er_OccurredAt := Some (1 + i),
      er_Excerpt := excerpt\<rparr>"

definition correctionEvidence :: EvidenceSet where
  "correctionEvidence = \<lparr>es_EvidenceSetID = ''evs_a'', es_Availability = EvidenceAvailable,
     es_Refs = [outcomeEvidence ''out_a'' 6, turnEvidence 4 EvidenceTurnToolResult [] [], turnEvidence 5 EvidenceTurnUser [] ''wrong'']\<rparr>"


definition correctionExample :: Candidate where
  "correctionExample = \<lparr>cd_SchemaVersion = CandidateSchemaVersion, cd_CandidateID = ''exc_b'', cd_Family = CandidateCorrection,
             cd_ProjectIdentity = ''p'', cd_ObservedBehavior = ''The cited user turn explicitly corrected the immediately preceding agent behavior.'',
             cd_UserFeedback = ''wrong'', cd_Evidence = correctionEvidence, cd_OutcomeRefs = [''out_a''],
             cd_ExistingRefs = [], cd_Proposal = pendingProposal ExperiencePreference ''p'' observationVerifier,
             cd_Provenance = \<lparr>prv_ExtractorVersion = CompileExtractorVersion, prv_Harness = None, prv_Model = [],
               prv_PromptVersion = [], prv_InputHash = ''sha256:'' @ replicate 64 (CHR ''a''),
               prv_SourceCandidateID = [], prv_GeneratedAt = 6\<rparr>,
             cd_Authority = AuthorityNone, cd_LifecycleState = LifecycleCandidate, cd_CreatedAt = 6\<rparr>"

definition procedureEvidence :: "gostring \<Rightarrow> EvidenceSet" where
  "procedureEvidence command = \<lparr>es_EvidenceSetID = ''evs_a'', es_Availability = EvidenceAvailable,
     es_Refs = [outcomeEvidence ''out_b'' 5, turnEvidence 2 EvidenceTurnToolCall ''Edit'' [],
       turnEvidence 3 EvidenceTurnToolCall ''Bash'' command, turnEvidence 4 EvidenceTurnToolResult [] [], turnEvidence 5 EvidenceTurnUser [] ''wrong'']\<rparr>"

definition exampleRecord :: "gostring \<Rightarrow> successfulProcedureRecord" where
  "exampleRecord command = \<lparr>spr_SessionKey = ''s'', spr_OutcomeID = ''out_b'', spr_ContinuesOutcomeID = [], spr_VerifierCallRef = nodeOf 3,
     spr_VerifierResultRef = nodeOf 4, spr_VerifierTurn = 3, spr_CommandClass = ''test'', spr_RawCommand = command,
     spr_UserRequested = False, spr_ProjectConfigured = False, spr_MutationRefs = [nodeOf 2], spr_MutationPaths = [''a.go''],
     spr_ContinuityRefs = [], spr_EvidenceRefs = [nodeOf 3, nodeOf 4, nodeOf 3, nodeOf 2], spr_GeneratedAt = 5\<rparr>"

definition procedureProposal :: "gostring \<Rightarrow> ExperienceProposal" where
  "procedureProposal command = pendingProposal ExperienceProcedure ''p'' (commandVerifier (exampleRecord command))"

definition procedureExample :: "gostring \<Rightarrow> Candidate" where
  "procedureExample command = \<lparr>cd_SchemaVersion = CandidateSchemaVersion, cd_CandidateID = ''exc_a'', cd_Family = CandidateSuccessfulProcedure,
             cd_ProjectIdentity = ''p'', cd_ObservedBehavior = ''The cited verification command succeeded after the cited file mutations.'',
             cd_UserFeedback = [], cd_Evidence = procedureEvidence command, cd_OutcomeRefs = [''out_b''],
             cd_ExistingRefs = [], cd_Proposal = procedureProposal command,
             cd_Provenance = \<lparr>prv_ExtractorVersion = CompileExtractorVersion, prv_Harness = None, prv_Model = [],
               prv_PromptVersion = [], prv_InputHash = ''sha256:'' @ replicate 64 (CHR ''a''),
               prv_SourceCandidateID = [], prv_GeneratedAt = 5\<rparr>,
             cd_Authority = AuthorityNone, cd_LifecycleState = LifecycleCandidate, cd_CreatedAt = 5\<rparr>"
abbreviation twoLines :: gostring where "twoLines \<equiv> [CHR ''g'', CHR 0x0A, CHR ''o'']"





definition exampleEpisode :: "gostring \<Rightarrow> evidenceEpisode" where
  "exampleEpisode command = \<lparr>epi_EpisodeID = ''epe_e'', epi_SessionKey = ''s'', epi_FirstTurn = 2, epi_LastTurn = 4,
     epi_MutationRefs = [nodeOf 2], epi_EvidenceRefs = [nodeOf 2, nodeOf 3, nodeOf 4], epi_OutcomeIDs = [''out_b''],
     epi_Anchor = (exampleRecord command)\<lparr>spr_EvidenceRefs := [nodeOf 2, nodeOf 3, nodeOf 4]\<rparr>, epi_Supporting = [],
     epi_GeneratedAt = 5\<rparr>"

lemma example_planned: "newCompiler (compileInput command) = planned command"
  by code_simp

lemma example_validated: "list_all (Edge_Validate compileTrajectory) [verifiesEdge, respondsEdge, correctsEdge]"
  "list_all (Outcome_Validate compileTrajectory) [passOutcome, correctionOutcome]"
  by code_simp+

lemma example_correction:
  "compileCorrections compileEncoder compileRules (planned command) [] = Inr [(''exc_b'', correctionExample)]"
  by code_simp

lemma example_approaches: "compileFailedApproaches compileEncoder compileRules (planned command) m = Inr m"
  by code_simp

lemma example_records: "procedureRecords compileEncoder compileRules (planned command) = [exampleRecord command]"
  by code_simp

lemma example_episodes:
  "buildEvidenceEpisodes (ce_episode compileEncoder) (\<lambda>m. m) [exampleRecord ''go''] = Some [exampleEpisode ''go'']"
  "buildEvidenceEpisodes (ce_episode compileEncoder) (\<lambda>m. m) [exampleRecord twoLines] = Some [exampleEpisode twoLines]"
  by code_simp+

lemma example_procedure:
  "procedureCandidate compileEncoder compileRules (planned ''go'') (exampleEpisode ''go'') = Some (Inr (procedureExample ''go''))"
  "procedureCandidate compileEncoder compileRules (planned twoLines) (exampleEpisode twoLines) = Some (Inl ErrProcedureCandidate)"
  by code_simp+

section \<open>The example compiled\<close>

abbreviation exampleCandidates :: "Candidate list" where
  "exampleCandidates \<equiv> [procedureExample ''go'', correctionExample]"

lemma example_fields: "ce_trajectory compileEncoder = compileTrajectory"
  "cp_edges (planned command) = [verifiesEdge, respondsEdge, correctsEdge]"
  "cp_outcomes (planned command) = [passOutcome, correctionOutcome]"
  "cd_CandidateID (procedureExample command) = ''exc_a''" "cd_CandidateID correctionExample = ''exc_b''"
  by (simp_all add: compileEncoder_def procedureExample_def correctionExample_def)

lemma example_project: "trim_space (ci_ProjectIdentity (compileInput command)) = ''p''"
  by code_simp

lemma example_compile:
  "Compile compileEncoder compileRules (\<lambda>m. m) (compileInput command) =
    (case compileSuccessfulProcedures compileEncoder compileRules (\<lambda>m. m) (planned command) [(''exc_b'', correctionExample)] of
       None \<Rightarrow> None
     | Some (Inl e) \<Rightarrow> Some (Inl e)
     | Some (Inr candidates) \<Rightarrow> Some (Inr (sort_key cd_CandidateID (map snd candidates))))"
  unfolding Compile_def Let_def example_planned example_project example_fields example_correction example_approaches
  using example_validated by (simp split: option.split sum.split)

lemma example_compiles:
  "Compile compileEncoder compileRules (\<lambda>m. m) (compileInput ''go'') = Some (Inr exampleCandidates)"
  unfolding example_compile compileSuccessfulProcedures_def example_records example_episodes
  by (simp add: example_procedure example_fields)

text \<open>One command of two lines, and the correction is not compiled either.\<close>

lemma command_of_two_lines_fails:
  "Compile compileEncoder compileRules (\<lambda>m. m) (compileInput twoLines) = Some (Inl ErrProcedureCandidate)"
  unfolding example_compile compileSuccessfulProcedures_def example_records example_episodes
  by (simp add: example_procedure)

section \<open>Every property at the example\<close>

theorem groups_are_connected_components_witness:
  "\<exists>indexes. groupRecords [exampleRecord ''go''] =
      Some (map (\<lambda>(rep, members). (rep, map (nth [exampleRecord ''go'']) members)) indexes) \<and>
    mset (concat (map snd indexes)) = mset [0..<1] \<and>
    list_all (\<lambda>(rep, members). members \<noteq> [] \<and> sorted members \<and>
      (\<forall>i\<in>set members. set members = {j. j < 1 \<and> chained [exampleRecord ''go''] i j})) indexes"
  using groups_are_connected_components [of "[exampleRecord ''go'']"] by simp

theorem anchor_is_most_preferred_witness:
  "\<exists>episode. newEvidenceEpisode (ce_episode compileEncoder) [exampleRecord ''go''] = Some episode \<and>
    mset (epi_Anchor episode # epi_Supporting episode) = {#exampleRecord ''go''#}"
proof -
  obtain episode where e: "newEvidenceEpisode (ce_episode compileEncoder) [exampleRecord ''go''] = Some episode"
    by (simp add: newEvidenceEpisode_def Let_def)
  from anchor_is_most_preferred [OF e] e show ?thesis by (intro exI [of _ episode]) simp
qed

theorem compiled_candidates_are_inert_witness:
  "Candidate_Validate (ce_experience compileEncoder) correctionExample \<and>
    cd_LifecycleState (procedureExample ''go'') = LifecycleCandidate"
  using compiled_candidates_are_inert [OF example_compiles] by simp

theorem candidate_evidence_is_unambiguous_witness:
  "length (es_Refs (cd_Evidence correctionExample)) \<le> 32 \<and>
    (\<exists>t. filter (\<lambda>u. tn_SessionKey u = ''s'' \<and> Some (tn_TurnIndex u) = Some 5) (ci_Turns (compileInput ''go'')) = [t] \<and>
      turnExcerpt t = ''wrong'')"
proof -
  have m: "correctionExample \<in> set exampleCandidates" by simp
  have r: "turnEvidence 5 EvidenceTurnUser [] ''wrong'' \<in> set (es_Refs (cd_Evidence correctionExample))"
    by (simp add: correctionExample_def correctionEvidence_def)
  note c = candidate_evidence_is_unambiguous [OF example_compiles m]
  have "er_Kind (turnEvidence 5 EvidenceTurnUser [] ''wrong'') = EvidenceTranscriptTurn"
    by (simp add: turnEvidence_def emptyRef_def)
  with c r show ?thesis by (fastforce simp: turnEvidence_def)
qed

theorem corrections_quote_their_user_witness:
  "\<exists>user\<in>set (ci_Turns (compileInput ''go'')). tn_Role user = RoleUser \<and>
    cd_UserFeedback correctionExample = trim_space (pl_Text (tn_Payload user))"
proof -
  have m: "correctionExample \<in> set exampleCandidates" "cd_Family correctionExample = CandidateCorrection"
    by (simp_all add: correctionExample_def)
  from corrections_quote_their_user [OF example_compiles m] obtain user where
    "filter (\<lambda>t. turnKeyOf t = turnKeyOf user) (ci_Turns (compileInput ''go'')) = [user]" "tn_Role user = RoleUser"
    "cd_UserFeedback correctionExample = trim_space (pl_Text (tn_Payload user))"
    by (elim bexE exE conjE)
  moreover from this(1) have "user \<in> set (ci_Turns (compileInput ''go''))" by (metis filter_is_subset list.set_intros(1) subsetD)
  ultimately show ?thesis by blast
qed

theorem derived_records_are_accepted_witness:
  "\<exists>r. deriveSession exampleEncoder exampleRules (\<lambda>m. m) exampleInput = Inr r \<and>
    Compile (compileEncoder\<lparr>ce_trajectory := exampleEncoder\<rparr>) compileRules (\<lambda>m. m)
      \<lparr>ci_ProjectIdentity = ''p'', ci_Turns = exampleTurns, ci_Edges = dr_Edges r, ci_Outcomes = dr_Outcomes r\<rparr> \<noteq>
      Some (Inl ErrInvalidEdge)"
proof -
  obtain r where r: "exampleAnswer r" by (rule example_answers)
  have p: "trim_space ''p'' \<noteq> []" by code_simp
  from derived_records_are_accepted [of "[r]" "compileEncoder\<lparr>ce_trajectory := exampleEncoder\<rparr>"
      "\<lparr>ci_ProjectIdentity = ''p'', ci_Turns = exampleTurns, ci_Edges = dr_Edges r, ci_Outcomes = dr_Outcomes r\<rparr>"
      compileRules "\<lambda>m. m"] r p
  show ?thesis by (intro exI [of _ r]) auto
qed

theorem compilation_needs_single_line_commands_witness: "validateOneLine ''go'' 16384 True"
proof -
  have "validateOneLine (spr_RawCommand (epi_Anchor (exampleEpisode ''go''))) 16384 True"
    by (rule compilation_needs_single_line_commands [OF example_compiles, of "[exampleEpisode ''go'']"])
      (simp_all add: example_planned example_records example_episodes example_procedure)
  then show ?thesis by (simp add: exampleEpisode_def exampleRecord_def)
qed

end
