(* ===== verification/Text_Regex.thy ===== *)
theory Text_Regex
  imports Prelude
begin

text \<open>
  The regular expressions of the engine, as Go's \<open>regexp\<close> matches them: the leftmost match, and among
  those at one place the one a backtracking search prefers (greedy repetition, alternatives from left to right).
  The patterns of the engine only tell bytes below 0x80 from each other, so matching bytes is matching runes: a negated
  class takes all the bytes of a rune or none. \<open>(?i)\<close> folds letters, and with them the two runes beyond
  ASCII that fold to letters, U+212A to k and U+017F to s.
\<close>

section \<open>Matching\<close>

datatype regex =
  Empty
| Class "char \<Rightarrow> bool"
| Seq regex regex
| Alt regex regex
| Star regex
| WordBoundary
| TextBegin
| TextEnd
| LineBegin
| LineEnd

text \<open>A place in a text: the byte before it and the text after it.\<close>

type_synonym place = "char option \<times> gostring"

definition word_char :: "char \<Rightarrow> bool" where
  "word_char c \<longleftrightarrow> in_range 0x30 0x39 c \<or> in_range 0x41 0x5A c \<or> in_range 0x61 0x7A c \<or> c = CHR ''_''"

definition word_at :: "char option \<Rightarrow> bool" where
  "word_at c = (case c of None \<Rightarrow> False | Some c \<Rightarrow> word_char c)"

definition head_of :: "gostring \<Rightarrow> char option" where
  "head_of s = (case s of [] \<Rightarrow> None | c # cs \<Rightarrow> Some c)"

text \<open>The places where a match may end, in the order of preference.\<close>

function ends :: "regex \<Rightarrow> place \<Rightarrow> place list" where
  "ends Empty x = [x]"
| "ends (Class P) x = (case snd x of [] \<Rightarrow> [] | c # cs \<Rightarrow> if P c then [(Some c, cs)] else [])"
| "ends (Seq r q) x = concat (map (ends q) (ends r x))"
| "ends (Alt r q) x = ends r x @ ends q x"
| "ends (Star r) x =
    concat (map (\<lambda>y. if length (snd y) < length (snd x) then ends (Star r) y else []) (ends r x)) @ [x]"
| "ends WordBoundary x = (if word_at (fst x) \<noteq> word_at (head_of (snd x)) then [x] else [])"
| "ends TextBegin x = (if fst x = None then [x] else [])"
| "ends TextEnd x = (if snd x = [] then [x] else [])"
| "ends LineBegin x = (if fst x = None \<or> fst x = Some (CHR 0x0A) then [x] else [])"
| "ends LineEnd x = (if snd x = [] \<or> head_of (snd x) = Some (CHR 0x0A) then [x] else [])"
  by pat_completeness auto
termination by (relation "measures [\<lambda>(r, x). size r, \<lambda>(r, x). length (snd x)]") auto

declare ends.simps(5) [simp del]

text \<open>The leftmost match: the text before it, the match, and the place after it.\<close>

fun find_match :: "regex \<Rightarrow> place \<Rightarrow> (gostring \<times> gostring \<times> place) option" where
  "find_match r (p, s) =
    (case ends r (p, s) of
       y # ys \<Rightarrow> Some ([], take (length s - length (snd y)) s, y)
     | [] \<Rightarrow>
         (case s of
            [] \<Rightarrow> None
          | c # cs \<Rightarrow> map_option (\<lambda>(before, m, y). (c # before, m, y)) (find_match r (Some c, cs))))"

declare find_match.simps [simp del]

lemma find_match_Nil_ends: "ends r (p, s) = [] \<Longrightarrow> find_match r (p, s) =
    (case s of [] \<Rightarrow> None | c # cs \<Rightarrow> map_option (\<lambda>(before, m, y). (c # before, m, y)) (find_match r (Some c, cs)))"
  by (subst find_match.simps) simp

lemma find_match_Cons_ends:
  "ends r (p, s) = y # ys \<Longrightarrow> find_match r (p, s) = Some ([], take (length s - length (snd y)) s, y)"
  by (subst find_match.simps) simp

text \<open>\<open>MatchString\<close>, \<open>FindString\<close> and \<open>ReplaceAllString\<close> of a pattern without empty matches.\<close>

definition match_string :: "regex \<Rightarrow> gostring \<Rightarrow> bool" where
  "match_string r s \<longleftrightarrow> find_match r (None, s) \<noteq> None"

definition find_string :: "regex \<Rightarrow> gostring \<Rightarrow> gostring" where
  "find_string r s = (case find_match r (None, s) of None \<Rightarrow> [] | Some (before, m, y) \<Rightarrow> m)"

fun replace_from :: "nat \<Rightarrow> regex \<Rightarrow> gostring \<Rightarrow> place \<Rightarrow> gostring" where
  "replace_from 0 r w x = snd x"
| "replace_from (Suc n) r w x =
    (case find_match r x of
       None \<Rightarrow> snd x
     | Some (before, m, y) \<Rightarrow> before @ w @ (if m = [] then snd y else replace_from n r w y))"

definition replace_all :: "regex \<Rightarrow> gostring \<Rightarrow> gostring \<Rightarrow> gostring" where
  "replace_all r w s = replace_from (length s) r w (None, s)"

section \<open>Building patterns\<close>

definition letter_of :: "char \<Rightarrow> regex" where
  "letter_of c =
    (let ascii = Class (\<lambda>d. lower_char d = c); rune = (\<lambda>bs. foldr (\<lambda>b. Seq (Class (\<lambda>d. d = b))) bs Empty) in
     if c = CHR ''k'' then Alt ascii (rune [CHR 0xE2, CHR 0x84, CHR 0xAA])
     else if c = CHR ''s'' then Alt ascii (rune [CHR 0xC5, CHR 0xBF])
     else ascii)"

definition literal :: "gostring \<Rightarrow> regex" where
  "literal s = foldr (\<lambda>c. Seq (Class (\<lambda>d. d = c))) s Empty"

text \<open>A literal of lower case letters and other bytes under \<open>(?i)\<close>.\<close>

definition folded :: "gostring \<Rightarrow> regex" where
  "folded s = foldr (\<lambda>c. Seq (letter_of c)) s Empty"

fun seq :: "regex list \<Rightarrow> regex" where
  "seq [] = Empty"
| "seq [r] = r"
| "seq (r # rs) = Seq r (seq rs)"

fun alts :: "regex list \<Rightarrow> regex" where
  "alts [] = Class (\<lambda>c. False)"
| "alts [r] = r"
| "alts (r # rs) = Alt r (alts rs)"

definition some_of :: "regex \<Rightarrow> regex" where "some_of r = Seq r (Star r)"
definition maybe :: "regex \<Rightarrow> regex" where "maybe r = Alt r Empty"

fun exactly :: "nat \<Rightarrow> regex \<Rightarrow> regex" where
  "exactly 0 r = Empty"
| "exactly (Suc n) r = Seq r (exactly n r)"

fun up_to :: "nat \<Rightarrow> regex \<Rightarrow> regex" where
  "up_to 0 r = Empty"
| "up_to (Suc n) r = maybe (Seq r (up_to n r))"

abbreviation digit :: "char \<Rightarrow> bool" where "digit \<equiv> in_range 0x30 0x39"
definition regex_space :: "char \<Rightarrow> bool" where
  "regex_space c \<longleftrightarrow> c \<in> {CHR 0x09, CHR 0x0A, CHR 0x0C, CHR 0x0D, CHR 0x20}"

section \<open>What is matched\<close>

text \<open>The byte before the end of a match.\<close>

definition last_of :: "char option \<Rightarrow> gostring \<Rightarrow> char option" where
  "last_of p u = (if u = [] then p else Some (last u))"

text \<open>\<open>u\<close> is a match after the byte \<open>p\<close> and before the text \<open>v\<close>.\<close>

inductive denotes :: "regex \<Rightarrow> char option \<Rightarrow> gostring \<Rightarrow> gostring \<Rightarrow> bool" where
  "denotes Empty p [] v"
| "P c \<Longrightarrow> denotes (Class P) p [c] v"
| "denotes r p u (w @ v) \<Longrightarrow> denotes q (last_of p u) w v \<Longrightarrow> denotes (Seq r q) p (u @ w) v"
| "denotes r p u v \<Longrightarrow> denotes (Alt r q) p u v"
| "denotes q p u v \<Longrightarrow> denotes (Alt r q) p u v"
| "denotes (Star r) p [] v"
| "denotes r p u (w @ v) \<Longrightarrow> u \<noteq> [] \<Longrightarrow> denotes (Star r) (last_of p u) w v \<Longrightarrow> denotes (Star r) p (u @ w) v"
| "word_at p \<noteq> word_at (head_of v) \<Longrightarrow> denotes WordBoundary p [] v"
| "denotes TextBegin None [] v"
| "denotes TextEnd p [] []"
| "p = None \<or> p = Some (CHR 0x0A) \<Longrightarrow> denotes LineBegin p [] v"
| "v = [] \<or> head_of v = Some (CHR 0x0A) \<Longrightarrow> denotes LineEnd p [] v"

inductive_cases denotes_cases: "denotes Empty p u v" "denotes (Class P) p u v" "denotes (Seq r q) p u v"
  "denotes (Alt r q) p u v" "denotes (Star r) p u v" "denotes WordBoundary p u v" "denotes TextBegin p u v"
  "denotes TextEnd p u v" "denotes LineBegin p u v" "denotes LineEnd p u v"

lemma last_of_append: "last_of (last_of p u) w = last_of p (u @ w)"
  by (simp add: last_of_def)

lemma last_of_Cons: "last_of p (c # u) = last_of (Some c) u"
  by (simp add: last_of_def)

lemma Star_mem: "y \<in> set (ends (Star r) x) \<longleftrightarrow>
    y = x \<or> (\<exists>z\<in>set (ends r x). length (snd z) < length (snd x) \<and> y \<in> set (ends (Star r) z))"
  by (subst ends.simps(5)) auto

lemma ends_denotes:
  assumes "y \<in> set (ends r x)"
  shows "\<exists>u. snd x = u @ snd y \<and> fst y = last_of (fst x) u \<and> denotes r (fst x) u (snd y)"
  using assms
proof (induction r x arbitrary: y rule: ends.induct)
  case (2 P x)
  then show ?case by (cases "snd x") (auto simp: last_of_def intro: denotes.intros split: if_splits)
next
  case (3 r q x)
  from "3.prems" obtain z where z: "z \<in> set (ends r x)" "y \<in> set (ends q z)" by auto
  from "3.IH"(1) [OF z(1)] obtain u where u: "snd x = u @ snd z" "fst z = last_of (fst x) u" "denotes r (fst x) u (snd z)"
    by blast
  from "3.IH"(2) [OF z] obtain w where w: "snd z = w @ snd y" "fst y = last_of (fst z) w" "denotes q (fst z) w (snd y)"
    by blast
  have "denotes (Seq r q) (fst x) (u @ w) (snd y)" by (rule denotes.intros(3)) (use u w in simp_all)
  with u w show ?case by (intro exI [of _ "u @ w"]) (simp add: last_of_append)
next
  case (4 r q x)
  from "4.prems" consider "y \<in> set (ends r x)" | "y \<in> set (ends q x)" by auto
  then show ?case
  proof cases
    case 1
    from "4.IH"(1) [OF 1] show ?thesis by (blast intro: denotes.intros)
  next
    case 2
    from "4.IH"(2) [OF 2] show ?thesis by (blast intro: denotes.intros)
  qed
next
  case (5 r x)
  show ?case
  proof (cases "y = x")
    case True
    then show ?thesis by (auto simp: last_of_def intro: denotes.intros)
  next
    case False
    with iffD1 [OF Star_mem "5.prems"] obtain z where z: "z \<in> set (ends r x)" "length (snd z) < length (snd x)" "y \<in> set (ends (Star r) z)"
      by blast
    from "5.IH"(1) [OF z(1)] obtain u where u: "snd x = u @ snd z" "fst z = last_of (fst x) u" "denotes r (fst x) u (snd z)"
      by blast
    from "5.IH"(2) [OF z(1,2,3)] obtain w where w: "snd z = w @ snd y" "fst y = last_of (fst z) w"
      "denotes (Star r) (fst z) w (snd y)" by blast
    from u(1) z(2) have "u \<noteq> []" by auto
    then have "denotes (Star r) (fst x) (u @ w) (snd y)" by (intro denotes.intros(7)) (use u w in simp_all)
    with u w show ?thesis by (intro exI [of _ "u @ w"]) (simp add: last_of_append)
  qed
qed (auto simp: last_of_def intro: denotes.intros split: if_splits)

lemma denotes_ends: "denotes r p u v \<Longrightarrow> (last_of p u, v) \<in> set (ends r (p, u @ v))"
proof (induction rule: denotes.induct)
  case (3 r p u w v q)
  then show ?case by (auto simp: last_of_append intro!: bexI [of _ "(last_of p u, w @ v)"])
next
  case (7 r p u w v)
  then show ?case
    by (intro iffD2 [OF Star_mem] disjI2 bexI [of _ "(last_of p u, w @ v)"]) (simp_all add: last_of_append)
next
  case (6 r p v)
  show ?case by (intro iffD2 [OF Star_mem]) (simp add: last_of_def)
qed (auto simp: last_of_def)

text \<open>The search finds exactly the matches.\<close>

lemma ends_exact: "(q, v) \<in> set (ends r (p, s)) \<longleftrightarrow> (\<exists>u. s = u @ v \<and> q = last_of p u \<and> denotes r p u v)"
proof
  assume "(q, v) \<in> set (ends r (p, s))"
  from ends_denotes [OF this] show "\<exists>u. s = u @ v \<and> q = last_of p u \<and> denotes r p u v" by simp
next
  assume "\<exists>u. s = u @ v \<and> q = last_of p u \<and> denotes r p u v"
  then show "(q, v) \<in> set (ends r (p, s))" using denotes_ends by blast
qed

text \<open>What is found is the leftmost match, and nothing is found only when there is no match.\<close>

lemma find_match_Some:
  assumes "find_match r (p, s) = Some (before, m, y)"
  shows "s = before @ m @ snd y \<and> fst y = last_of p (before @ m) \<and> denotes r (last_of p before) m (snd y) \<and>
    (\<forall>u w v. s = u @ w @ v \<longrightarrow> denotes r (last_of p u) w v \<longrightarrow> length before \<le> length u)"
  using assms
proof (induction r "(p, s)" arbitrary: p s before rule: find_match.induct)
  case (1 r p s)
  show ?case
  proof (cases "ends r (p, s)")
    case (Cons z zs)
    with "1.prems" have b: "before = []" "z = y" "m = take (length s - length (snd z)) s"
      by (auto simp: find_match_Cons_ends)
    from Cons ends_denotes [of z r "(p, s)"] obtain u where "s = u @ snd y" "fst y = last_of p u" "denotes r p u (snd y)"
      using b(2) by auto
    with b show ?thesis by (simp add: last_of_def)
  next
    case Nil
    with "1.prems" obtain c cs before' where c: "s = c # cs" "before = c # before'"
      "find_match r (Some c, cs) = Some (before', m, y)"
      by (cases s) (auto simp: find_match_Nil_ends)
    have IH: "cs = before' @ m @ snd y \<and> fst y = last_of (Some c) (before' @ m) \<and>
        denotes r (last_of (Some c) before') m (snd y) \<and>
        (\<forall>u w v. cs = u @ w @ v \<longrightarrow> denotes r (last_of (Some c) u) w v \<longrightarrow> length before' \<le> length u)"
      by (rule "1.hyps" [OF Nil c(1,3)])
    note l = last_of_Cons [of p c]
    have "length before \<le> length u" if u: "s = u @ w @ v" "denotes r (last_of p u) w v" for u w v
    proof (cases u)
      case Nil': Nil
      with u have "(last_of p w, v) \<in> set (ends r (p, s))" using denotes_ends [of r p w v] by (simp add: last_of_def)
      with Nil show ?thesis by simp
    next
      case (Cons d u')
      with u c IH l show ?thesis by auto
    qed
    with IH c l show ?thesis by simp
  qed
qed

lemma find_match_None:
  assumes "find_match r (p, s) = None" and "s = u @ w @ v"
  shows "\<not> denotes r (last_of p u) w v"
  using assms
proof (induction r "(p, s)" arbitrary: p s u rule: find_match.induct)
  case (1 r p s)
  then have Nil: "ends r (p, s) = []" by (cases "ends r (p, s)") (simp_all add: find_match_Cons_ends)
  show ?case
  proof (cases u)
    case Nil': Nil
    with 1 Nil show ?thesis using denotes_ends [of r p w v] by (auto simp: last_of_def)
  next
    case (Cons c u')
    then have "find_match r (Some c, u' @ w @ v) = None" using "1.prems" Nil by (simp add: find_match_Nil_ends)
    from "1.hyps" [OF Nil _ this refl] Cons "1.prems"(2) last_of_Cons show ?thesis by simp
  qed
qed

lemma match_string_exact: "match_string r s \<longleftrightarrow> (\<exists>u w v. s = u @ w @ v \<and> denotes r (last_of None u) w v)"
  using find_match_None [of r None s] find_match_Some [of r None s]
  unfolding match_string_def by (metis not_None_eq surj_pair)

end
