(* ===== verification/Text_Unicode.thy ===== *)
theory Text_Unicode
  imports Text_Regex Exp_Paths
begin

text \<open>
  Texts by class and case of their runes: \<open>strings.EqualFold\<close>, \<open>strings.FieldsFunc\<close> and
  \<open>strings.ToLower\<close>. ASCII is written out; beyond it the Unicode tables are a parameter, so what is
  proved holds for any of them (\<open>uc_lower\<close> is \<open>to_lower_rune\<close> of \<open>Text_Runes\<close> in the code). \<open>uc_fold\<close> picks
  one rune of every orbit of simple folding, an ASCII upper case letter where the orbit has one.
\<close>

record unicode =
  uc_lower :: "int \<Rightarrow> int"
  uc_fold :: "int \<Rightarrow> int"
  uc_letter :: "int \<Rightarrow> bool"
  uc_digit :: "int \<Rightarrow> bool"
  uc_punct :: "int \<Rightarrow> bool"

section \<open>Case\<close>

definition lower_rune :: "unicode \<Rightarrow> int \<Rightarrow> int" where
  "lower_rune U r = (if r < 0x80 then if 65 \<le> r \<and> r \<le> 90 then r + 32 else r else uc_lower U r)"

definition lower_text :: "unicode \<Rightarrow> gostring \<Rightarrow> gostring" where
  "lower_text U s = of_runes (map (lower_rune U) (runes s))"

definition fold_rune :: "unicode \<Rightarrow> int \<Rightarrow> int" where
  "fold_rune U r = (if r < 0x80 then if 97 \<le> r \<and> r \<le> 122 then r - 32 else r else uc_fold U r)"

definition equal_fold :: "unicode \<Rightarrow> gostring \<Rightarrow> gostring \<Rightarrow> bool" where
  "equal_fold U s t \<longleftrightarrow> map (fold_rune U) (runes s) = map (fold_rune U) (runes t)"

section \<open>Classes of runes\<close>

definition rune_letter :: "unicode \<Rightarrow> int \<Rightarrow> bool" where
  "rune_letter U r = (if r < 0x80 then 65 \<le> r \<and> r \<le> 90 \<or> 97 \<le> r \<and> r \<le> 122 else uc_letter U r)"

definition rune_digit :: "unicode \<Rightarrow> int \<Rightarrow> bool" where
  "rune_digit U r = (if r < 0x80 then 48 \<le> r \<and> r \<le> 57 else uc_digit U r)"

text \<open>\<open>unicode.IsPunct\<close> leaves out the ASCII symbols \<open>$+<=>^`|~\<close>.\<close>

definition rune_punct :: "unicode \<Rightarrow> int \<Rightarrow> bool" where
  "rune_punct U r =
    (if r < 0x80 then
       (33 \<le> r \<and> r \<le> 47 \<or> 58 \<le> r \<and> r \<le> 64 \<or> 91 \<le> r \<and> r \<le> 96 \<or> 123 \<le> r \<and> r \<le> 126) \<and>
       r \<notin> {36, 43, 60, 61, 62, 94, 96, 124, 126}
     else uc_punct U r)"

definition rune_space :: "int \<Rightarrow> bool" where
  "rune_space r \<longleftrightarrow> 9 \<le> r \<and> r \<le> 13 \<or> 0x2000 \<le> r \<and> r \<le> 0x200A \<or>
    r \<in> {0x20, 0x85, 0xA0, 0x1680, 0x2028, 0x2029, 0x202F, 0x205F, 0x3000}"

section \<open>Fields\<close>

fun rune_fields :: "(int \<Rightarrow> bool) \<Rightarrow> int list \<Rightarrow> int list \<Rightarrow> int list list" where
  "rune_fields separator cur [] = (if cur = [] then [] else [cur])"
| "rune_fields separator cur (r # rs) =
    (if separator r then (if cur = [] then [] else [cur]) @ rune_fields separator [] rs
     else rune_fields separator (cur @ [r]) rs)"

definition fields_func :: "(int \<Rightarrow> bool) \<Rightarrow> gostring \<Rightarrow> gostring list" where
  "fields_func separator s = map of_runes (rune_fields separator [] (runes s))"

section \<open>Round trips\<close>

lemma byte_byte_char: "0 \<le> n \<Longrightarrow> n < 256 \<Longrightarrow> byte (byte_char n) = n"
  by (simp add: byte_char_def)

lemma byte_char_byte: "byte_char (byte c) = c"
  by (simp add: byte_char_def)

lemma runes_Cons_ascii: "byte c < 0x80 \<Longrightarrow> runes (c # s) = byte c # runes s"
  by (subst runes.simps) (simp add: decode_rune_def)

lemma runes_ascii: "\<forall>c\<in>set s. byte c < 0x80 \<Longrightarrow> runes s = map byte s"
  by (induction s) (simp_all add: runes_Cons_ascii)

lemma of_runes_ascii: "\<forall>c\<in>set s. byte c < 0x80 \<Longrightarrow> of_runes (map byte s) = s"
  by (induction s) (simp_all add: of_runes_def encode_rune_def byte_char_byte)

end
