(* ===== verification/Issue_Text.thy ===== *)
theory Issue_Text
  imports Text_Unicode
begin

text \<open>
  The rules by which transcripts are read, first part: commands
  (\<open>internal/detection/transcriptissues/classify.go\<close>). Which class of verification a command line
  belongs to, which family of commands it is for repairs, and the normal form under which two
  command lines are the same. The JSON decoder, SHA-256 and the printing of a JSON value are parameters.
\<close>

section \<open>The environment\<close>

datatype json =
  JNull | JBool bool | JNumber float64 | JString gostring | JArray "json list"
| JObject "(gostring \<times> json) list"

text \<open>
  \<open>te_json\<close> decodes a text, an object as its distinct keys; \<open>te_members\<close> decodes an object to its raw
  members, each with the string it decodes to, if it does; \<open>te_compact\<close> is \<open>json.Compact\<close>,
  \<open>te_print\<close> is \<open>fmt.Sprint\<close>, \<open>te_hash\<close> the hexadecimal text of the first 16 bytes of a
  digest and \<open>te_issue_hash\<close> a digest in the encoding of issue identifiers.
\<close>

record text_env =
  te_unicode :: unicode
  te_json :: "gostring \<Rightarrow> json option"
  te_members :: "gostring \<Rightarrow> (gostring \<times> gostring option) list option"
  te_compact :: "gostring \<Rightarrow> gostring option"
  te_print :: "json \<Rightarrow> gostring"
  te_hash :: "gostring \<Rightarrow> gostring"
  te_issue_hash :: "gostring \<Rightarrow> gostring"

record ProjectConfig =
  pc_VerificationCommands :: "gostring list"
  pc_HasClaudeInstructions :: bool
  pc_HasCodexInstructions :: bool

definition no_config :: ProjectConfig where
  "no_config = \<lparr>pc_VerificationCommands = [], pc_HasClaudeInstructions = False, pc_HasCodexInstructions = False\<rparr>"

abbreviation lower_of :: "text_env \<Rightarrow> gostring \<Rightarrow> gostring" where
  "lower_of E \<equiv> lower_text (te_unicode E)"

section \<open>Patterns\<close>

abbreviation any_digit :: regex where "any_digit \<equiv> Class digit"
abbreviation any_space :: regex where "any_space \<equiv> Class regex_space"

definition numberPattern :: regex where
  "numberPattern = seq [WordBoundary, some_of any_digit, maybe (Seq (literal ''.'') (some_of any_digit)), WordBoundary]"

definition hex_lower :: "char \<Rightarrow> bool" where
  "hex_lower c \<longleftrightarrow> in_range 0x30 0x39 c \<or> in_range 0x61 0x66 c"

definition hashPattern :: regex where
  "hashPattern = seq [WordBoundary, exactly 7 (Class hex_lower), Star (Class hex_lower), WordBoundary]"

definition portPattern :: regex where
  "portPattern = seq
    [Alt (literal '':'') (Seq (folded ''--port'') (some_of (Class (\<lambda>c. c = CHR ''='' \<or> regex_space c)))),
     exactly 2 any_digit, up_to 3 any_digit, WordBoundary]"

definition path_char :: "char \<Rightarrow> bool" where
  "path_char c \<longleftrightarrow> \<not> regex_space c \<and> c \<notin> {CHR 0x22, CHR 0x27, CHR 0x60}"

definition tempPathPattern :: regex where
  "tempPathPattern = Alt (seq [maybe (folded ''/private''), folded ''/tmp/'', some_of (Class path_char)])
    (Seq (folded ''/var/folders/'') (some_of (Class path_char)))"

definition absolutePathPattern :: regex where
  "absolutePathPattern = Seq
    (Alt (Seq (Class (\<lambda>c. in_range 0x41 0x5A c \<or> in_range 0x61 0x7A c)) (literal [CHR '':'', CHR 0x5C])) (literal ''/''))
    (some_of (Class (\<lambda>c. path_char c \<and> c \<noteq> CHR '':'')))"

definition spacePattern :: regex where
  "spacePattern = some_of any_space"

definition words_of :: "gostring list \<Rightarrow> regex" where
  "words_of ws = seq [WordBoundary, alts (map folded ws), WordBoundary]"

definition errorMarkerPattern :: regex where
  "errorMarkerPattern = words_of [''error'', ''failed'', ''failure'', ''fatal'', ''panic'', ''exception'', ''denied'',
    ''not found'', ''timed out'']"

definition genericExitPattern :: regex where
  "genericExitPattern = Alt
    (seq [TextBegin, maybe (Alt (folded ''process '') (folded ''command '')), Alt (folded ''exited'') (folded ''failed''),
       maybe (folded '' with''), maybe (folded '' exit''), folded '' code '', some_of any_digit, WordBoundary])
    (seq [TextBegin, folded ''exit code '', some_of any_digit, WordBoundary])"

definition completionPattern :: regex where
  "completionPattern = seq [WordBoundary,
    alts (map folded [''done'', ''complete'', ''completed'', ''implemented'', ''finished''] @
      [seq [folded ''test'', maybe (folded ''s''), folded '' pass'', maybe (folded ''ed'')]]),
    WordBoundary]"

definition not_newline :: "char \<Rightarrow> bool" where
  "not_newline c \<longleftrightarrow> c \<noteq> CHR 0x0A"

definition use_not :: regex where
  "use_not = seq [WordBoundary, folded ''use'', WordBoundary, some_of (Class not_newline), WordBoundary,
    folded ''not'', WordBoundary]"

definition strong_markers :: "gostring list" where
  "strong_markers = [''don'' @ [CHR 0x27] @ ''t'', ''do not'', ''stop'', ''wrong'', ''not that'', ''i said'', ''again'',
    ''undo'', ''revert'']"

definition correctionPattern :: regex where
  "correctionPattern = Alt (words_of (''no'' # strong_markers)) use_not"

definition strongCorrectionPattern :: regex where
  "strongCorrectionPattern = Alt (words_of strong_markers) use_not"

definition leadingNoCorrectionPattern :: regex where
  "leadingNoCorrectionPattern = seq [TextBegin, Star any_space, folded ''no'',
    Alt WordBoundary (Class (\<lambda>c. c \<in> set ''!,:;.-''))]"

definition whole_text :: "gostring list \<Rightarrow> regex" where
  "whole_text ws = seq [TextBegin, alts (map folded ws), TextEnd]"

definition approvalPattern :: regex where
  "approvalPattern = whole_text [''yes'', ''y'', ''allow'', ''allowed'', ''approve'', ''approved'', ''continue'',
    ''go ahead'', ''ok'', ''okay'']"

definition denialPattern :: regex where
  "denialPattern = whole_text [''no'', ''n'', ''deny'', ''denied'', ''reject'', ''rejected'', ''cancel'', ''stop'']"

text \<open>\<open>patchFilePattern\<close>: the head of the line, and the file name to its end.\<close>

definition patchHeadPattern :: regex where
  "patchHeadPattern = seq [LineBegin, literal ''*** '', alts (map literal [''Add'', ''Update'', ''Delete'']),
    literal '' File: '']"

definition patchFilePattern :: regex where
  "patchFilePattern = Seq patchHeadPattern (Seq (some_of (Class not_newline)) LineEnd)"

section \<open>Command lines\<close>

definition collapse_spaces :: "gostring \<Rightarrow> gostring" where
  "collapse_spaces s = replace_all spacePattern '' '' s"

text \<open>\<open>filepath.Base\<close>.\<close>

definition path_base :: "gostring \<Rightarrow> gostring" where
  "path_base s =
    (if s = [] then ''.''
     else let t = rev (dropWhile (\<lambda>c. c = CHR ''/'') (rev s)) in
       if t = [] then ''/'' else rev (takeWhile (\<lambda>c. c \<noteq> CHR ''/'') (rev t)))"

definition normalizeCommand :: "text_env \<Rightarrow> gostring \<Rightarrow> gostring" where
  "normalizeCommand E value =
    (let value = lower_of E (trim_space value);
         value = replace_all tempPathPattern ''<tmp>'' value;
         value = replace_all portPattern ''<port>'' value;
         value = replace_all hashPattern ''<hash>'' value;
         value = replace_all numberPattern ''<n>'' value;
         value = collapse_spaces value
     in trim_space value)"

definition commandSubject :: "gostring \<Rightarrow> gostring" where
  "commandSubject normalized =
    (case string_fields normalized of
       [] \<Rightarrow> ''The same command''
     | f # fs \<Rightarrow> [CHR 0x60] @ path_base f @ [CHR 0x60])"

section \<open>Tokens\<close>

abbreviation maxRepairCommandBytes :: nat where "maxRepairCommandBytes \<equiv> 16384"
abbreviation maxRepairCommandTokens :: nat where "maxRepairCommandTokens \<equiv> 64"
abbreviation maxRepairCommandTokenBytes :: nat where "maxRepairCommandTokenBytes \<equiv> 1024"

text \<open>The closure \<open>flush\<close>: the word in progress becomes a token, unless a bound is exceeded.\<close>

definition flush_token :: "gostring list \<Rightarrow> gostring \<Rightarrow> gostring list option" where
  "flush_token tokens current =
    (if current = [] then Some tokens
     else if length current > maxRepairCommandTokenBytes \<or> length tokens \<ge> maxRepairCommandTokens then None
     else Some (tokens @ [current]))"

definition nonempty_tokens :: "gostring list \<Rightarrow> gostring list option" where
  "nonempty_tokens tokens = (if tokens = [] then None else Some tokens)"

text \<open>The loop over the bytes, with the open quote and whether the last byte escapes the next.\<close>

fun scan_tokens :: "char option \<Rightarrow> bool \<Rightarrow> gostring list \<Rightarrow> gostring \<Rightarrow> gostring \<Rightarrow> gostring list option" where
  "scan_tokens quote escaped tokens current [] =
    (if escaped \<or> quote \<noteq> None then None
     else Option.bind (flush_token tokens current) nonempty_tokens)"
| "scan_tokens quote escaped tokens current (c # cs) =
    (if escaped then scan_tokens quote False tokens (current @ [c]) cs
     else case quote of
       Some q \<Rightarrow>
         if c = q then scan_tokens None False tokens current cs
         else if c = CHR 0x5C \<and> q = CHR 0x22 then scan_tokens quote True tokens current cs
         else scan_tokens quote False tokens (current @ [c]) cs
     | None \<Rightarrow>
         if c = CHR 0x5C then scan_tokens None True tokens current cs
         else if c = CHR 0x27 \<or> c = CHR 0x22 then scan_tokens (Some c) False tokens current cs
         else if c \<in> {CHR 0x0A, CHR 0x0D, CHR '';'', CHR ''&'', CHR ''|''}
           then Option.bind (flush_token tokens current) nonempty_tokens
         else if c = CHR 0x20 \<or> c = CHR 0x09
           then Option.bind (flush_token tokens current) (\<lambda>tokens. scan_tokens None False tokens [] cs)
         else if length (current @ [c]) > maxRepairCommandTokenBytes then None
         else scan_tokens None False tokens (current @ [c]) cs)"

definition firstLogicalCommandTokens :: "gostring \<Rightarrow> gostring list option" where
  "firstLogicalCommandTokens raw =
    (let raw = trim_space raw in
     if raw = [] \<or> length raw > maxRepairCommandBytes then None
     else scan_tokens None False [] [] raw)"

section \<open>Verification commands\<close>

text \<open>The loop of \<open>splitTopLevelAndAnd\<close>, with the bytes before the place in reverse.\<close>

fun find_and_and :: "char option \<Rightarrow> bool \<Rightarrow> gostring \<Rightarrow> gostring \<Rightarrow> (gostring \<times> gostring) option" where
  "find_and_and quote escaped before (c # d # cs) =
    (if escaped then find_and_and quote False (c # before) (d # cs)
     else case quote of
       Some q \<Rightarrow>
         if c = CHR 0x5C \<and> q = CHR 0x22 then find_and_and quote True (c # before) (d # cs)
         else find_and_and (if c = q then None else quote) False (c # before) (d # cs)
     | None \<Rightarrow>
         if c = CHR 0x5C then find_and_and None True (c # before) (d # cs)
         else if c = CHR 0x27 \<or> c = CHR 0x22 then find_and_and (Some c) False (c # before) (d # cs)
         else if c = CHR ''&'' \<and> d = CHR ''&'' then Some (rev before, cs)
         else find_and_and None False (c # before) (d # cs))"
| "find_and_and quote escaped before s = None"

definition splitTopLevelAndAnd :: "gostring \<Rightarrow> (gostring \<times> gostring) option" where
  "splitTopLevelAndAnd raw =
    (case find_and_and None False [] raw of
       None \<Rightarrow> None
     | Some (left, right) \<Rightarrow>
         if trim_space left \<noteq> [] \<and> trim_space right \<noteq> [] then Some (trim_space left, trim_space right) else None)"

definition workingDirectoryWrapper :: "text_env \<Rightarrow> gostring \<Rightarrow> bool" where
  "workingDirectoryWrapper E raw =
    (case firstLogicalCommandTokens raw of
       Some [command, argument] \<Rightarrow> equal_fold (te_unicode E) (path_base command) ''cd''
     | _ \<Rightarrow> False)"

text \<open>The four rounds that strip a change of directory.\<close>

fun unwrapped :: "text_env \<Rightarrow> nat \<Rightarrow> gostring \<Rightarrow> gostring list" where
  "unwrapped E 0 current = []"
| "unwrapped E (Suc n) current =
    (case splitTopLevelAndAnd current of
       None \<Rightarrow> []
     | Some (left, right) \<Rightarrow>
         if \<not> workingDirectoryWrapper E left then [] else right # unwrapped E n right)"

definition verificationCommandCandidates :: "text_env \<Rightarrow> gostring \<Rightarrow> gostring list" where
  "verificationCommandCandidates E raw =
    (let raw = trim_space raw in if raw = [] then [] else raw # unwrapped E 4 raw)"

definition packageScript :: "gostring list \<Rightarrow> gostring" where
  "packageScript ws =
    (if length ws < 2 then []
     else let i = (if ws ! 1 = ''run'' then 2 else 1) in if i \<ge> length ws then [] else ws ! i)"

definition verificationClassFromWords :: "text_env \<Rightarrow> gostring \<Rightarrow> gostring" where
  "verificationClassFromWords E value =
    (let value = lower_of E value in
     if contains_text value ''typecheck'' \<or> contains_text value ''type-check'' \<or> contains_text value ''check-types''
       then ''typecheck''
     else if contains_text value ''lint'' then ''lint''
     else if contains_text value ''format'' \<and> contains_text value ''check'' then ''format_check''
     else if contains_text value ''test'' then ''test''
     else if contains_text value ''build'' \<or> contains_text value ''compile'' \<or> trim_space value = ''check'' then ''build''
     else ''other'')"

definition verificationClassFromExecutable :: "text_env \<Rightarrow> gostring \<Rightarrow> gostring" where
  "verificationClassFromExecutable E value =
    (let words = fields_func (\<lambda>r. \<not> rune_letter (te_unicode E) r \<and> \<not> rune_digit (te_unicode E) r)
           (lower_of E (path_base value));
         hasWord = (\<lambda>want. want \<in> set words) in
     if hasWord ''typecheck'' \<or> hasWord ''type'' \<and> hasWord ''check'' then ''typecheck''
     else if hasWord ''lint'' then ''lint''
     else if hasWord ''format'' \<and> hasWord ''check'' then ''format_check''
     else if hasWord ''test'' \<or> hasWord ''tests'' then ''test''
     else if hasWord ''build'' \<or> hasWord ''check'' then ''build''
     else ''other'')"

text \<open>The class a configured prefix gives, and the class of a known executable.\<close>

definition configuredClass :: "text_env \<Rightarrow> ProjectConfig \<Rightarrow> gostring \<Rightarrow> gostring option" where
  "configuredClass E config normalized =
    (case find (\<lambda>configured. configured \<noteq> [] \<and> has_prefix normalized configured)
       (map (\<lambda>c. lower_of E (collapse_spaces (trim_space c))) (pc_VerificationCommands config)) of
       None \<Rightarrow> None
     | Some configured \<Rightarrow>
         let class = verificationClassFromWords E configured in
         Some (if class = ''other'' then ''build'' else class))"

definition executableClass :: "text_env \<Rightarrow> gostring \<Rightarrow> gostring list \<Rightarrow> gostring" where
  "executableClass E normalized ws =
    (let executable = path_base (hd ws); joined = '' '' @ normalized @ '' '';
         second = (if length ws > 1 then ws ! 1 else []);
         other = verificationClassFromExecutable E executable in
     if executable = ''go'' then
       if second = ''test'' then ''test'' else if second = ''build'' then ''build'' else other
     else if executable = ''cargo'' then
       if second = ''test'' then ''test''
       else if second = ''build'' \<or> second = ''check'' then ''build'' else other
     else if executable = ''python'' \<or> executable = ''python3'' then
       if length ws > 2 \<and> second = ''-m'' \<and> (ws ! 2 = ''pytest'' \<or> ws ! 2 = ''unittest'')
       then ''test'' else other
     else if executable \<in> {''pytest'', ''jest'', ''vitest'', ''mocha''} then ''test''
     else if executable \<in> {''tsc'', ''pyright'', ''mypy''} then ''typecheck''
     else if executable \<in> {''eslint'', ''ruff'', ''golangci-lint'', ''shellcheck'', ''hadolint''} then ''lint''
     else if executable \<in> {''gofmt'', ''prettier'', ''black''} then
       if contains_text joined '' --check '' \<or> contains_text joined '' -d '' then ''format_check'' else other
     else if executable = ''make'' then
       if length ws > 1 then verificationClassFromWords E second else other
     else if executable \<in> {''npm'', ''pnpm'', ''yarn'', ''bun''} then
       if packageScript ws \<noteq> [] then verificationClassFromWords E (packageScript ws) else other
     else other)"

definition classifyCommandCandidate :: "text_env \<Rightarrow> ProjectConfig \<Rightarrow> gostring \<Rightarrow> gostring" where
  "classifyCommandCandidate E config raw =
    (let normalized = lower_of E (collapse_spaces (trim_space raw)) in
     case configuredClass E config normalized of
       Some class \<Rightarrow> class
     | None \<Rightarrow>
         (case string_fields normalized of
            [] \<Rightarrow> ''other''
          | ws \<Rightarrow> executableClass E normalized ws))"

definition classifyCommand :: "text_env \<Rightarrow> ProjectConfig \<Rightarrow> gostring \<Rightarrow> gostring" where
  "classifyCommand E config raw =
    (case find (\<lambda>class. class \<noteq> ''other'')
       (map (classifyCommandCandidate E config) (verificationCommandCandidates E raw)) of
       None \<Rightarrow> ''other''
     | Some class \<Rightarrow> class)"

definition verificationClasses :: "gostring list" where
  "verificationClasses = [''test'', ''build'', ''typecheck'', ''lint'', ''format_check'']"

definition ClassifyVerificationCommand :: "text_env \<Rightarrow> ProjectConfig \<Rightarrow> gostring \<Rightarrow> gostring option" where
  "ClassifyVerificationCommand E config raw =
    (let class = classifyCommand E config raw in if class \<in> set verificationClasses then Some class else None)"

end
