(* ===== verification/Issue_Classify.thy ===== *)
theory Issue_Classify
  imports Issue_Text Cand_Compile
begin

text \<open>
  The rules by which transcripts are read, second part
  (\<open>internal/detection/transcriptissues/classify.go\<close>): the command of a turn, its repair family, the files it
  edits, whether a result failed and with which signature, and what a user says. With them the parameters of the
  derivation and of the candidate compiler are the functions the code calls.
\<close>

section \<open>JSON values\<close>

text \<open>The keys of an object in order, by which \<open>findStringField\<close> looks for the first text.\<close>

lemma size_sorted_fields: "size_list f (sort_key k xs) = size_list f xs"
proof -
  have "sum_list (map g (sort_key k xs)) = sum_list (map g xs)" for g :: "'a \<Rightarrow> nat"
    by (metis mset_map mset_sort sum_mset_sum_list)
  then show ?thesis by (simp add: size_list_conv_sum_list)
qed

function findStringField :: "text_env \<Rightarrow> gostring list \<Rightarrow> json \<Rightarrow> gostring"
  and findInFields :: "text_env \<Rightarrow> gostring list \<Rightarrow> (gostring \<times> json) list \<Rightarrow> gostring"
  and findInValues :: "text_env \<Rightarrow> gostring list \<Rightarrow> json list \<Rightarrow> gostring" where
  "findStringField E names value =
    (case value of
       JObject members \<Rightarrow> findInFields E names (sort_key fst members)
     | JArray values \<Rightarrow> findInValues E names values
     | _ \<Rightarrow> [])"
| "findInFields E names members =
    (case members of
       [] \<Rightarrow> []
     | (key, child) # rest \<Rightarrow>
         (case (lower_of E key \<in> set names, child) of
            (True, JString text) \<Rightarrow> text
          | _ \<Rightarrow>
              let found = findStringField E names child in
              if found \<noteq> [] then found else findInFields E names rest))"
| "findInValues E names values =
    (case values of
       [] \<Rightarrow> []
     | child # rest \<Rightarrow>
         let found = findStringField E names child in
         if found \<noteq> [] then found else findInValues E names rest)"
  by pat_completeness auto
termination
  by (relation "measure (case_sum (\<lambda>(E, names, v). 2 * size v + 1)
      (case_sum (\<lambda>(E, names, fs). 2 * size_list (size_prod (\<lambda>x. 0) size) fs)
        (\<lambda>(E, names, vs). 2 * size_list size vs)))")
    (auto simp: size_sorted_fields)

declare findStringField.simps [simp del] findInFields.simps [simp del] findInValues.simps [simp del]

section \<open>The command of a turn\<close>

definition commandFromToolInput :: "text_env \<Rightarrow> gostring \<Rightarrow> gostring" where
  "commandFromToolInput E raw =
    (if raw = [] then []
     else case te_json E raw of
       None \<Rightarrow> []
     | Some value \<Rightarrow> findStringField E [''command'', ''cmd'', ''script''] value)"

definition rawCommandOf :: "text_env \<Rightarrow> Turn \<Rightarrow> gostring" where
  "rawCommandOf E turn =
    (let raw = trim_space (pl_RawCommand (tn_Payload turn)) in
     if raw = [] \<and> tn_Role turn = RoleToolCall then commandFromToolInput E (pl_ToolInput (tn_Payload turn)) else raw)"

definition commandInfo :: "text_env \<Rightarrow> ProjectConfig \<Rightarrow> Turn \<Rightarrow> (gostring \<times> gostring \<times> gostring) option" where
  "commandInfo E config turn =
    (let raw = rawCommandOf E turn in
     if raw = [] then None
     else if normalizeCommand E raw = [] then None
     else Some (classifyCommand E config raw, normalizeCommand E raw, raw))"

definition isVerificationTurn :: "text_env \<Rightarrow> ProjectConfig \<Rightarrow> Turn \<Rightarrow> bool" where
  "isVerificationTurn E config turn =
    (case commandInfo E config turn of
       None \<Rightarrow> False
     | Some (class, normalized, raw) \<Rightarrow> class \<in> set verificationClasses)"

definition RetainedVerificationCommand :: "text_env \<Rightarrow> ProjectConfig \<Rightarrow> Turn \<Rightarrow> (gostring \<times> gostring) option" where
  "RetainedVerificationCommand E config turn =
    (let raw = rawCommandOf E turn in
     if raw = [] then None
     else find (\<lambda>(class, candidate). class \<in> set verificationClasses)
       (map (\<lambda>candidate. (classifyCommandCandidate E config candidate, candidate)) (verificationCommandCandidates E raw)))"

definition NormalizedCommandSignature :: "text_env \<Rightarrow> Turn \<Rightarrow> gostring option" where
  "NormalizedCommandSignature E turn = map_option (\<lambda>(class, normalized, raw). normalized) (commandInfo E no_config turn)"

section \<open>Repair families\<close>

definition assignment_byte :: "nat \<Rightarrow> char \<Rightarrow> bool" where
  "assignment_byte index c \<longleftrightarrow>
    in_range 0x61 0x7A c \<or> in_range 0x41 0x5A c \<or> c = CHR ''_'' \<or> index > 0 \<and> in_range 0x30 0x39 c"

definition shellAssignment :: "gostring \<Rightarrow> bool" where
  "shellAssignment value =
    (if CHR ''='' \<notin> set value then False
     else let name = takeWhile (\<lambda>c. c \<noteq> CHR ''='') value in
       name \<noteq> [] \<and> list_all (\<lambda>(index, c). assignment_byte index c) (enumerate 0 name))"

definition safeCommandFamilyPart :: "text_env \<Rightarrow> gostring \<Rightarrow> bool" where
  "safeCommandFamilyPart E value =
    (if value = [] then False
     else list_all (\<lambda>r. rune_letter (te_unicode E) r \<or> rune_digit (te_unicode E) r \<or> r \<in> {46, 95, 43, 45}) (runes value))"

definition allowlistedLeadingArgument :: "text_env \<Rightarrow> gostring list \<Rightarrow> gostring list \<Rightarrow> gostring" where
  "allowlistedLeadingArgument E arguments allowed =
    (case arguments of
       [] \<Rightarrow> []
     | a # as \<Rightarrow> if lower_of E a \<in> set allowed then lower_of E a else [])"

fun makeTarget :: "text_env \<Rightarrow> gostring list \<Rightarrow> gostring" where
  "makeTarget E [] = []"
| "makeTarget E (a # as) =
    (if has_prefix a ''-'' \<or> shellAssignment a then makeTarget E as
     else if safeCommandFamilyPart E a then lower_of E a
     else [])"

definition meaningfulRepairSubcommand :: "text_env \<Rightarrow> gostring \<Rightarrow> gostring list \<Rightarrow> gostring" where
  "meaningfulRepairSubcommand E executable arguments =
    (if executable = ''go'' then allowlistedLeadingArgument E arguments
       [''build'', ''clean'', ''env'', ''fmt'', ''generate'', ''get'', ''install'', ''list'', ''mod'', ''run'', ''test'',
        ''tool'', ''version'', ''vet'', ''work'']
     else if executable = ''cargo'' then allowlistedLeadingArgument E arguments
       [''build'', ''check'', ''clean'', ''clippy'', ''fmt'', ''run'', ''test'']
     else if executable = ''git'' then allowlistedLeadingArgument E arguments
       [''add'', ''apply'', ''branch'', ''checkout'', ''clean'', ''commit'', ''diff'', ''fetch'', ''log'', ''merge'', ''pull'',
        ''push'', ''rebase'', ''restore'', ''show'', ''status'', ''switch'']
     else if executable = ''python'' \<or> executable = ''python3'' then
       (case arguments of
          option_m # target # rest \<Rightarrow>
            if option_m = ''-m'' \<and> safeCommandFamilyPart E target then ''-m '' @ lower_of E target else []
        | _ \<Rightarrow> [])
     else if executable = ''make'' then makeTarget E arguments
     else if executable \<in> {''npm'', ''pnpm'', ''yarn'', ''bun''} then
       (case (if arguments \<noteq> [] \<and> hd arguments = ''run'' then tl arguments else arguments) of
          [] \<Rightarrow> []
        | script # rest \<Rightarrow> if safeCommandFamilyPart E script then lower_of E script else [])
     else [])"

text \<open>The loop over the options of \<open>env\<close>; None where the function gives up.\<close>

function skipEnvOptions :: "gostring list \<Rightarrow> gostring list option" where
  "skipEnvOptions tokens =
    (case tokens of
       [] \<Rightarrow> Some []
     | token # rest \<Rightarrow>
         if shellAssignment token then skipEnvOptions rest
         else if token = ''--'' then Some rest
         else if token = ''-i'' \<or> token = ''--ignore-environment'' then skipEnvOptions rest
         else if token \<in> {''-u'', ''--unset'', ''-C'', ''--chdir''} then
           (if rest = [] then None else skipEnvOptions (tl rest))
         else if has_prefix token ''--unset='' \<or> has_prefix token ''--chdir='' then skipEnvOptions rest
         else if has_prefix token ''-'' then None
         else Some tokens)"
  by pat_completeness auto
termination by (relation "measure length") auto

declare skipEnvOptions.simps [simp del]

definition familyOfTokens :: "text_env \<Rightarrow> gostring list \<Rightarrow> gostring option" where
  "familyOfTokens E tokens =
    (case dropWhile shellAssignment tokens of
       [] \<Rightarrow> None
     | token # arguments \<Rightarrow>
         let executable = lower_of E (path_base token) in
         if \<not> safeCommandFamilyPart E executable then None
         else
           let subcommand = meaningfulRepairSubcommand E executable arguments;
               family = (if subcommand \<noteq> [] then executable @ '' '' @ subcommand else executable) in
           if length family > 128 then None else Some family)"

definition CommandRepairFamily :: "text_env \<Rightarrow> Turn \<Rightarrow> gostring option" where
  "CommandRepairFamily E turn =
    (case commandInfo E no_config turn of
       None \<Rightarrow> None
     | Some (class, normalized, raw) \<Rightarrow>
         (case firstLogicalCommandTokens raw of
            None \<Rightarrow> None
          | Some tokens \<Rightarrow>
              (case dropWhile shellAssignment tokens of
                 [] \<Rightarrow> None
               | token # rest \<Rightarrow>
                   if equal_fold (te_unicode E) (path_base token) ''env''
                   then Option.bind (skipEnvOptions rest) (familyOfTokens E)
                   else familyOfTokens E (token # rest))))"

section \<open>What users say\<close>

text \<open>A raw member as the string it decodes to: absent, not a string, or a string.\<close>

definition nonEmptyJSONString :: "gostring option option \<Rightarrow> bool" where
  "nonEmptyJSONString raw = (case raw of Some (Some value) \<Rightarrow> trim_space value \<noteq> [] | _ \<Rightarrow> False)"

definition envelope_prefixes :: "gostring list" where
  "envelope_prefixes =
    [''<task-notification'', ''<task_notification'', ''<system-reminder'', ''<system_reminder'',
     ''<subagent-notification'', ''<subagent_notification'', ''[task-notification'', ''[task_notification'',
     ''[system-reminder'', ''[system_reminder'', ''[subagent-notification'', ''[subagent_notification'']"

text \<open>Both replacements of line ends.\<close>

fun unix_lines :: "gostring \<Rightarrow> gostring" where
  "unix_lines (c # d # cs) =
    (if c = CHR 0x0D \<and> d = CHR 0x0A then CHR 0x0A # unix_lines cs
     else (if c = CHR 0x0D then CHR 0x0A else c) # unix_lines (d # cs))"
| "unix_lines [c] = [if c = CHR 0x0D then CHR 0x0A else c]"
| "unix_lines [] = []"

definition modeRawQueryEnvelope :: "text_env \<Rightarrow> gostring \<Rightarrow> bool" where
  "modeRawQueryEnvelope E value =
    (case split_on (CHR 0x0A) (unix_lines value) of
       a # b # rest \<Rightarrow>
         let first = trim_space a; second = trim_space b; mode = ''MODE:''; query = ''RAW QUERY:'' in
         if length first < length mode \<or> \<not> equal_fold (te_unicode E) (take (length mode) first) mode \<or>
           trim_space (drop (length mode) first) = [] then False
         else length second \<ge> length query \<and> equal_fold (te_unicode E) (take (length query) second) query
     | _ \<Rightarrow> False)"

definition envelope_types :: "gostring list" where
  "envelope_types = [''task_notification'', ''task-notification'', ''system_reminder'', ''system-reminder'',
    ''subagent_notification'', ''subagent-notification'']"

definition IsMachineGeneratedEnvelope :: "text_env \<Rightarrow> gostring \<Rightarrow> bool" where
  "IsMachineGeneratedEnvelope E value =
    (let trimmed = trim_space value; normalized = lower_of E trimmed in
     if list_ex (has_prefix normalized) envelope_prefixes then True
     else if modeRawQueryEnvelope E trimmed then True
     else if \<not> has_prefix normalized ''{'' then False
     else case te_members E trimmed of
       None \<Rightarrow> False
     | Some members \<Rightarrow>
         let envelopeType = (case map_of members ''type'' of Some (Some t) \<Rightarrow> t | _ \<Rightarrow> []) in
         if lower_of E (trim_space envelopeType) \<in> set envelope_types then True
         else nonEmptyJSONString (map_of members ''description'') \<and> nonEmptyJSONString (map_of members ''prompt''))"

definition HighConfidenceCorrectionMarker :: "text_env \<Rightarrow> gostring \<Rightarrow> gostring" where
  "HighConfidenceCorrectionMarker E value =
    (let normalized = lower_of E (trim_space value) in
     if normalized = [] \<or> has_prefix normalized ''no problem'' \<or> has_prefix normalized ''no worries'' \<or>
       has_prefix normalized ''no thank'' \<or> IsMachineGeneratedEnvelope E value then []
     else
       let leading = find_string leadingNoCorrectionPattern value in
       if leading \<noteq> [] then lower_of E (trim_space leading)
       else lower_of E (trim_space (find_string strongCorrectionPattern (join_with '' '' (take 8 (string_fields value))))))"

definition correctionMarker :: "text_env \<Rightarrow> gostring \<Rightarrow> gostring" where
  "correctionMarker E value = lower_of E (trim_space (find_string correctionPattern (trim_space value)))"

definition wordCount :: "text_env \<Rightarrow> gostring \<Rightarrow> nat" where
  "wordCount E value = length (fields_func (\<lambda>r. rune_space r \<or> rune_punct (te_unicode E) r) value)"

definition isApprovalText :: "gostring \<Rightarrow> bool" where
  "isApprovalText value = match_string approvalPattern (trim_space value)"

definition isDenialText :: "gostring \<Rightarrow> bool" where
  "isDenialText value = match_string denialPattern (trim_space value)"

definition isCompletionClaim :: "Turn \<Rightarrow> bool" where
  "isCompletionClaim turn \<longleftrightarrow> tn_Role turn = RoleAssistant \<and> match_string completionPattern (pl_Text (tn_Payload turn))"

section \<open>Failures\<close>

abbreviation maxErrorLineRunes :: nat where "maxErrorLineRunes \<equiv> 2048"
abbreviation maxErrorSignatureRunes :: nat where "maxErrorSignatureRunes \<equiv> 512"

definition truncateRunes :: "gostring \<Rightarrow> nat \<Rightarrow> gostring" where
  "truncateRunes value limit =
    (if length (runes value) \<le> limit then value else trim_space (of_runes (take limit (runes value))))"

definition trimmed_lines :: "gostring \<Rightarrow> gostring list" where
  "trimmed_lines value = map trim_space (split_on (CHR 0x0A) value)"

definition firstMeaningfulLine :: "gostring \<Rightarrow> gostring" where
  "firstMeaningfulLine value =
    (case find (\<lambda>line. line \<noteq> []) (trimmed_lines value) of
       None \<Rightarrow> []
     | Some line \<Rightarrow> truncateRunes line maxErrorLineRunes)"

definition firstSpecificErrorLine :: "text_env \<Rightarrow> gostring \<Rightarrow> gostring" where
  "firstSpecificErrorLine E value =
    (case find (\<lambda>line. line \<noteq> [] \<and> \<not> match_string genericExitPattern line \<and>
         \<not> equal_fold (te_unicode E) line ''final output:'' \<and> match_string errorMarkerPattern line)
       (trimmed_lines value) of
       None \<Rightarrow> []
     | Some line \<Rightarrow> truncateRunes line maxErrorLineRunes)"

text \<open>The three results of \<open>structuredResultFailure\<close>: failed, structured, and the text of the error.\<close>

definition objectFailure :: "text_env \<Rightarrow> (gostring \<times> json) list \<Rightarrow> bool \<times> bool \<times> gostring" where
  "objectFailure E members =
    (let error = (case map_of members ''error'' of
           None \<Rightarrow> [] | Some JNull \<Rightarrow> [] | Some raw \<Rightarrow> trim_space (te_print E raw)) in
     if error \<noteq> [] \<and> error \<noteq> ''<nil>'' then (True, True, error)
     else case map_of members ''is_error'' of
       Some (JBool b) \<Rightarrow> (b, True, [])
     | _ \<Rightarrow>
        (case map_of members ''success'' of
           Some (JBool b) \<Rightarrow> (\<not> b, True, [])
         | _ \<Rightarrow>
            (case map_of members ''exit_code'' of
               Some (JNumber n) \<Rightarrow> (n \<noteq> FloatFinite 0, True, [])
             | _ \<Rightarrow>
                (case map_of members ''status'' of
                   Some (JString raw) \<Rightarrow>
                     let status = lower_of E (trim_space raw) in
                     if status \<in> {''error'', ''failed'', ''failure'', ''fatal''} then (True, True, raw)
                     else (False, True, [])
                 | _ \<Rightarrow> (False, True, [])))))"

definition structuredResultFailure :: "text_env \<Rightarrow> gostring \<Rightarrow> bool \<times> bool \<times> gostring" where
  "structuredResultFailure E value =
    (let trimmed = trim_space value in
     if trimmed = [] \<or> \<not> has_prefix trimmed ''{'' \<and> \<not> has_prefix trimmed ''['' then (False, False, [])
     else case te_json E trimmed of
       None \<Rightarrow> (False, False, [])
     | Some (JObject members) \<Rightarrow> objectFailure E members
     | Some v \<Rightarrow> (False, True, []))"

definition turnFailed :: "text_env \<Rightarrow> Turn \<Rightarrow> bool" where
  "turnFailed E turn =
    (let p = tn_Payload turn in
     if pl_ToolIsError p = Some True then True
     else if (case pl_ExitCode p of None \<Rightarrow> False | Some code \<Rightarrow> code \<noteq> 0) then True
     else case structuredResultFailure E (pl_ToolResult p) of
       (failed, structured, text) \<Rightarrow>
         if structured then failed else match_string errorMarkerPattern (firstMeaningfulLine (pl_ToolResult p)))"

definition scrub_error_line :: "text_env \<Rightarrow> gostring \<Rightarrow> gostring" where
  "scrub_error_line E line =
    (let line = lower_of E line;
         line = replace_all tempPathPattern ''<tmp>'' line;
         line = replace_all absolutePathPattern ''<path>'' line;
         line = replace_all hashPattern ''<hash>'' line;
         line = replace_all numberPattern ''<n>'' line;
         line = collapse_spaces line
     in truncateRunes (trim_space line) maxErrorSignatureRunes)"

definition normalizedErrorSignature :: "text_env \<Rightarrow> Turn \<Rightarrow> gostring" where
  "normalizedErrorSignature E turn =
    (let line = firstSpecificErrorLine E (pl_ToolResult (tn_Payload turn));
         line = (case structuredResultFailure E (pl_ToolResult (tn_Payload turn)) of
           (failed, structured, text) \<Rightarrow> if failed \<and> text \<noteq> [] then text else line) in
     if line = [] \<or> match_string genericExitPattern line \<or> \<not> match_string errorMarkerPattern line then []
     else scrub_error_line E line)"

definition NormalizedFirstFailureLine :: "text_env \<Rightarrow> Turn \<Rightarrow> gostring" where
  "NormalizedFirstFailureLine E turn = scrub_error_line E (firstMeaningfulLine (pl_ToolResult (tn_Payload turn)))"

section \<open>Edited files\<close>

text \<open>All file names of patch headers: the rest of the line after each head, from left to right.\<close>

function patch_names :: "place \<Rightarrow> gostring list" where
  "patch_names x =
    (case find_match patchFilePattern x of
       None \<Rightarrow> []
     | Some (before, m, y) \<Rightarrow>
         if length (snd y) < length (snd x)
         then (case ends patchHeadPattern (last_of (fst x) before, m) of
             z # zs \<Rightarrow> [snd z] | [] \<Rightarrow> []) @ patch_names y
         else [])"
  by pat_completeness auto
termination by (relation "measure (\<lambda>x. length (snd x))") auto

declare patch_names.simps [simp del]

definition patchFileNames :: "gostring \<Rightarrow> gostring list" where
  "patchFileNames s = patch_names (None, s)"

text \<open>
  The keys of an object are ranged over; the names collected are sorted and made distinct, so that the order does
  not matter.
\<close>

definition path_keys :: "gostring list" where
  "path_keys = [''path'', ''file'', ''file_path'', ''filename'', ''target_file'']"

fun collectPathFields :: "text_env \<Rightarrow> json \<Rightarrow> gostring list" where
  "collectPathFields E (JObject members) =
    concat (map (\<lambda>(key, child).
      (if lower_of E key \<in> set path_keys then case child of JString text \<Rightarrow> [text] | _ \<Rightarrow> [] else []) @
      collectPathFields E child) members)"
| "collectPathFields E (JArray values) = concat (map (collectPathFields E) values)"
| "collectPathFields E value = []"

fun collectPatchPaths :: "json \<Rightarrow> gostring list" where
  "collectPatchPaths (JObject members) = concat (map (\<lambda>(key, child). collectPatchPaths child) members)"
| "collectPatchPaths (JArray values) = concat (map collectPatchPaths values)"
| "collectPatchPaths (JString text) = patchFileNames text"
| "collectPatchPaths value = []"

definition normalizeFiles :: "gostring list \<Rightarrow> gostring list" where
  "normalizeFiles values =
    sort (remdups (filter (\<lambda>v. v \<noteq> [] \<and> v \<noteq> ''.'') (map (\<lambda>v. path_clean (trim_space v)) values)))"

definition editedFiles :: "text_env \<Rightarrow> Turn \<Rightarrow> gostring list" where
  "editedFiles E turn =
    (if tn_Role turn \<noteq> RoleToolCall then []
     else
       let name = lower_of E (trim_space (tn_ToolName turn)); input = pl_ToolInput (tn_Payload turn) in
       if \<not> contains_text name ''edit'' \<and> \<not> contains_text name ''write'' \<and> \<not> contains_text name ''patch'' then []
       else normalizeFiles
         (if input = [] then []
          else (case te_json E input of
              None \<Rightarrow> [] | Some value \<Rightarrow> collectPathFields E value @ collectPatchPaths value) @ patchFileNames input))"

definition editContentHash :: "text_env \<Rightarrow> Turn \<Rightarrow> gostring" where
  "editContentHash E turn =
    (let p = tn_Payload turn in te_hash E (if pl_ToolInput p = [] then pl_RawCommand p else pl_ToolInput p))"

section \<open>Neighbours and candidates\<close>

text \<open>The three turns before, as long as the user does not speak.\<close>

fun nearestPrior :: "Turn list \<Rightarrow> Turn option" where
  "nearestPrior [] = None"
| "nearestPrior (turn # before) =
    (if tn_Role turn = RoleToolCall then Some turn
     else if tn_Role turn = RoleUser then None
     else nearestPrior before)"

definition nearestPriorToolCall :: "Turn list \<Rightarrow> nat \<Rightarrow> Turn option" where
  "nearestPriorToolCall turns index = nearestPrior (take 3 (rev (take index turns)))"

definition candidateID :: "text_env \<Rightarrow> gostring \<Rightarrow> Turn \<Rightarrow> gostring" where
  "candidateID E project turn =
    ''crc_'' @ te_hash E (project @ [CHR 0x00] @ tn_SessionKey turn @ [CHR 0x00] @ itoa (tn_TurnIndex turn))"

section \<open>The rules of the derivation and the candidate compiler\<close>

definition classifier :: "text_env \<Rightarrow> (gostring \<Rightarrow> ProjectConfig) \<Rightarrow> gostring \<Rightarrow> compile_rules" where
  "classifier E configs session =
    \<lparr>tr_IsMachineGeneratedEnvelope = IsMachineGeneratedEnvelope E,
     tr_HighConfidenceCorrectionMarker = HighConfidenceCorrectionMarker E,
     tr_ExtractEditedFiles = editedFiles E,
     tr_RetainedVerificationCommand = (\<lambda>turn. RetainedVerificationCommand E (configs session) turn \<noteq> None),
     tr_NormalizedCommandSignature = NormalizedCommandSignature E,
     tr_CommandRepairFamily = CommandRepairFamily E,
     tr_IsCompletionClaim = isCompletionClaim,
     cr_VerificationCommand = (\<lambda>key turn. RetainedVerificationCommand E (configs key) turn)\<rparr>"

end
