(* ===== verification/Float64.thy ===== *)
theory Float64
  imports Exp_Model "HOL-Library.Log_Nat"
begin

text \<open>
  Arithmetic of \<open>float64\<close>: the exact result rounded to the nearest number of 53 significant bits, to even in a
  tie, and infinite beyond the largest. The sign of zero is not kept; the engine never looks at it.
\<close>

section \<open>Rounding\<close>

definition round_even :: "rat \<Rightarrow> int" where
  "round_even q =
    (let n = \<lfloor>q\<rfloor>; r = q - of_int n in
     if 2 * r < 1 then n else if 2 * r > 1 then n + 1 else if even n then n else n + 1)"

definition two_power :: "int \<Rightarrow> rat" where
  "two_power e = (if e \<ge> 0 then 2 ^ nat e else 1 / 2 ^ nat (- e))"

text \<open>The exponent of the leading bit of a positive fraction.\<close>

definition leading_bit :: "rat \<Rightarrow> int" where
  "leading_bit q =
    (case quotient_of q of (n, d) \<Rightarrow>
       let k = bitlen n - bitlen d in if q \<ge> two_power k then k else k - 1)"

definition to_float :: "rat \<Rightarrow> float64" where
  "to_float q =
    (if q = 0 then FloatFinite 0
     else
       let u = max (leading_bit \<bar>q\<bar> - 52) (- 1074); v = of_int (round_even (q / two_power u)) * two_power u in
       if \<bar>v\<bar> \<ge> 2 ^ 1024 then FloatInf (v < 0) else FloatFinite v)"

definition float_of_int :: "int \<Rightarrow> float64" where
  "float_of_int i = to_float (of_int i)"

section \<open>Operations\<close>

fun float_add :: "float64 \<Rightarrow> float64 \<Rightarrow> float64" where
  "float_add (FloatFinite p) (FloatFinite q) = to_float (p + q)"
| "float_add (FloatInf s) (FloatInf t) = (if s = t then FloatInf s else FloatNaN)"
| "float_add (FloatInf s) (FloatFinite q) = FloatInf s"
| "float_add (FloatFinite p) (FloatInf t) = FloatInf t"
| "float_add _ _ = FloatNaN"

fun float_neg :: "float64 \<Rightarrow> float64" where
  "float_neg (FloatFinite p) = FloatFinite (- p)"
| "float_neg (FloatInf s) = FloatInf (\<not> s)"
| "float_neg FloatNaN = FloatNaN"

definition float_sub :: "float64 \<Rightarrow> float64 \<Rightarrow> float64" where
  "float_sub x y = float_add x (float_neg y)"

fun float_negative :: "float64 \<Rightarrow> bool" where
  "float_negative (FloatFinite p) = (p < 0)"
| "float_negative (FloatInf s) = s"
| "float_negative FloatNaN = False"

fun float_mul :: "float64 \<Rightarrow> float64 \<Rightarrow> float64" where
  "float_mul (FloatFinite p) (FloatFinite q) = to_float (p * q)"
| "float_mul FloatNaN y = FloatNaN"
| "float_mul x FloatNaN = FloatNaN"
| "float_mul x y = (if x = FloatFinite 0 \<or> y = FloatFinite 0 then FloatNaN
     else FloatInf (float_negative x \<noteq> float_negative y))"

text \<open>The engine divides by numbers it has compared with zero, so that the sign of a zero divisor does not matter.\<close>

fun float_div :: "float64 \<Rightarrow> float64 \<Rightarrow> float64" where
  "float_div (FloatFinite p) (FloatFinite q) =
    (if q \<noteq> 0 then to_float (p / q) else if p = 0 then FloatNaN else FloatInf (p < 0))"
| "float_div (FloatInf s) (FloatFinite q) = FloatInf (s \<noteq> (q < 0))"
| "float_div (FloatFinite p) (FloatInf t) = FloatFinite 0"
| "float_div _ _ = FloatNaN"

fun float_less :: "float64 \<Rightarrow> float64 \<Rightarrow> bool" where
  "float_less (FloatFinite p) (FloatFinite q) = (p < q)"
| "float_less (FloatInf s) (FloatFinite q) = s"
| "float_less (FloatFinite p) (FloatInf t) = (\<not> t)"
| "float_less (FloatInf s) (FloatInf t) = (s \<and> \<not> t)"
| "float_less _ _ = False"

section \<open>Facts\<close>

lemma float_add_commute: "float_add x y = float_add y x"
  by (cases "(x, y)" rule: float_add.cases) (auto simp: add.commute)

lemma two_power_pos [simp]: "two_power e > 0"
  by (simp add: two_power_def)

lemma round_even_int [simp]: "round_even (of_int n) = n"
  by (simp add: round_even_def)

end
