(* ===== verification/Issue_Model.thy ===== *)
theory Issue_Model
  imports Issue_Classify Float64
begin

text \<open>
  Issues over the transcripts of a project: the records (\<open>internal/issueintel/model.go\<close>,
  \<open>types.go\<close>) and what every detector shares (\<open>helpers.go\<close>): tokens and active time of a window of
  turns, the cost of several windows without counting a turn twice, excerpts. Counters of tokens wrap at 64 bits.
  Where the code ranges over a map with string keys the order of the keys is a parameter, one for every
  such loop.
\<close>

section \<open>Records\<close>

abbreviation DetectorRetryLoop :: gostring where "DetectorRetryLoop \<equiv> ''retry_loop''"
abbreviation DetectorRecurringError :: gostring where "DetectorRecurringError \<equiv> ''recurring_error''"
abbreviation DetectorRepeatedCorrection :: gostring where "DetectorRepeatedCorrection \<equiv> ''repeated_correction''"
abbreviation DetectorDoneWithoutVerification :: gostring where
  "DetectorDoneWithoutVerification \<equiv> ''done_without_verification''"
abbreviation DetectorPermissionChurn :: gostring where "DetectorPermissionChurn \<equiv> ''permission_churn''"
abbreviation DetectorColdStartCost :: gostring where "DetectorColdStartCost \<equiv> ''cold_start_cost''"
abbreviation DetectorFileThrash :: gostring where "DetectorFileThrash \<equiv> ''file_thrash''"
abbreviation DetectorCompactionBeforeCompletion :: gostring where
  "DetectorCompactionBeforeCompletion \<equiv> ''compaction_before_completion''"

record IssueCost =
  ct_WastedMinutes :: float64
  ct_WastedTokens :: int
  ct_WastedUSD :: "float64 option"
  ct_LowerBound :: bool

record IssueProject =
  ip_Identity :: gostring
  ip_Path :: gostring

record IssueSessionRef =
  sn_SessionKey :: gostring
  sn_Agent :: gostring
  sn_StartedAt :: time
  sn_EndedAt :: time

record IssueCitation =
  ic_SessionKey :: gostring
  ic_TurnIndex :: int
  ic_OccurredAt :: time
  ic_SourceFileID :: gostring
  ic_JSONLByteOffset :: int

record Excerpt =
  xc_Citation :: IssueCitation
  xc_Role :: Role
  xc_ToolName :: gostring
  xc_Text :: gostring

record TrendWeek =
  tw_WeekStart :: time
  tw_Count :: nat

record SuggestedFix =
  sf_Kind :: gostring
  sf_TargetFile :: gostring
  sf_Rationale :: gostring

record Issue =
  is_IssueID :: gostring
  is_DetectorID :: gostring
  is_Fingerprint :: gostring
  is_Headline :: gostring
  is_Cost :: IssueCost
  is_SessionCount :: nat
  is_Sessions :: "IssueSessionRef list"
  is_FirstSeen :: time
  is_LastSeen :: time
  is_Trend :: "TrendWeek list"
  is_Excerpts :: "Excerpt list"
  is_Project :: IssueProject
  is_SuggestedFix :: SuggestedFix

record IssueSession =
  ss_Metadata :: TranscriptSession
  ss_Turns :: "Turn list"

record ProjectInput =
  pi_Project :: IssueProject
  pi_Config :: ProjectConfig
  pi_Sessions :: "IssueSession list"
  pi_Now :: time

record CorrectionCandidate =
  cc_CandidateID :: gostring
  cc_Project :: IssueProject
  cc_Citation :: IssueCitation
  cc_Text :: gostring
  cc_Marker :: gostring
  cc_ShortTurn :: bool
  cc_OccurredAt :: time

record IssueAnalysis =
  an_Issues :: "Issue list"
  an_CorrectionCandidates :: "CorrectionCandidate list"
  an_AttributedCost :: IssueCost

abbreviation maxProjectTurns :: nat where "maxProjectTurns \<equiv> 500000"
abbreviation maxExcerpts :: nat where "maxExcerpts \<equiv> 5"

record preparedProject =
  pp_project :: IssueProject
  pp_scopeIdentity :: gostring
  pp_config :: ProjectConfig
  pp_sessions :: "IssueSession list"
  pp_now :: time

record costSpan =
  sp_session :: IssueSessionRef
  sp_start :: int
  sp_end :: int

record observation =
  ob_detectorID :: gostring
  ob_fingerprint :: gostring
  ob_subject :: gostring
  ob_cost :: IssueCost
  ob_costSpans :: "costSpan list"
  ob_timeSpans :: "costSpan list"
  ob_session :: IssueSessionRef
  ob_firstSeen :: time
  ob_lastSeen :: time
  ob_occurredAt :: time
  ob_excerpts :: "Excerpt list"
  ob_fix :: SuggestedFix

definition zero_cost :: IssueCost where
  "zero_cost = \<lparr>ct_WastedMinutes = FloatFinite 0, ct_WastedTokens = 0, ct_WastedUSD = None, ct_LowerBound = False\<rparr>"

section \<open>Tokens\<close>

definition turnTokens :: "Turn \<Rightarrow> int" where
  "turnTokens turn = wrap64 (sum_list (concat (map (\<lambda>v. case v of None \<Rightarrow> [] | Some n \<Rightarrow> [n])
    [tn_InputTokens turn, tn_OutputTokens turn, tn_CacheReadTokens turn, tn_CacheWriteTokens turn])))"

definition sessionRef :: "IssueSession \<Rightarrow> IssueSessionRef" where
  "sessionRef session = (let m = ss_Metadata session in
    \<lparr>sn_SessionKey = ts_SessionKey m, sn_Agent = ts_Agent m, sn_StartedAt = ts_StartedAt m, sn_EndedAt = ts_EndedAt m\<rparr>)"

definition windowSpan :: "IssueSession \<Rightarrow> int \<Rightarrow> int \<Rightarrow> costSpan" where
  "windowSpan session start till = \<lparr>sp_session = sessionRef session, sp_start = start, sp_end = till\<rparr>"

section \<open>The billed turn of a turn\<close>

definition phase_break :: "Turn \<Rightarrow> bool" where
  "phase_break turn \<longleftrightarrow> tn_Role turn = RoleUser \<or> tn_Role turn = RoleCompactionSummary"

definition phase_start :: "Turn list \<Rightarrow> nat \<Rightarrow> int" where
  "phase_start turns index =
    (case find (\<lambda>i. phase_break (turns ! i)) (rev [0..<index]) of None \<Rightarrow> 0 | Some i \<Rightarrow> int i + 1)"

definition phase_end :: "Turn list \<Rightarrow> nat \<Rightarrow> int" where
  "phase_end turns index =
    (case find (\<lambda>i. phase_break (turns ! i)) [Suc index..<length turns] of
       None \<Rightarrow> int (length turns) - 1
     | Some i \<Rightarrow> int i - 1)"

definition billable :: "Turn list \<Rightarrow> int \<Rightarrow> bool" where
  "billable turns i \<longleftrightarrow> turnTokens (turns ! nat i) > 0"

text \<open>The loop over distances ends when both sides have left the phase.\<close>

function nearest_billable :: "Turn list \<Rightarrow> int \<Rightarrow> int \<Rightarrow> int \<Rightarrow> int \<Rightarrow> int" where
  "nearest_billable turns start till index distance =
    (if \<not> (index - distance \<ge> start \<or> index + distance \<le> till) then - 1
     else if index - distance \<ge> start \<and> billable turns (index - distance) then index - distance
     else if index + distance \<le> till \<and> billable turns (index + distance) then index + distance
     else nearest_billable turns start till index (distance + 1))"
  by pat_completeness auto
termination
  by (relation "measure (\<lambda>(turns, start, till, index, distance). nat (max (index - start) (till - index) + 1 - distance))") auto

declare nearest_billable.simps [simp del]

definition associatedBillableIndex :: "Turn list \<Rightarrow> int \<Rightarrow> int" where
  "associatedBillableIndex turns index =
    (if index < 0 \<or> index \<ge> int (length turns) then - 1
     else if billable turns index then index
     else nearest_billable turns (phase_start turns (nat index)) (phase_end turns (nat index)) index 1)"

section \<open>The cost of a window\<close>

text \<open>Indexes clamped to the turns; \<open>[start..till]\<close> is empty when it starts after it ends.\<close>

definition clamp_start :: "int \<Rightarrow> int" where
  "clamp_start start = (if start < 0 then 0 else start)"

definition clamp_end :: "Turn list \<Rightarrow> int \<Rightarrow> int" where
  "clamp_end turns till = (if till \<ge> int (length turns) then int (length turns) - 1 else till)"

definition window :: "Turn list \<Rightarrow> int \<Rightarrow> int \<Rightarrow> Turn list" where
  "window turns start till = map (\<lambda>i. turns ! nat i) [start..till]"

abbreviation maxActiveGap :: int where "maxActiveGap \<equiv> 1800000000000"

definition add_gap :: "duration \<Rightarrow> Turn \<times> Turn \<Rightarrow> duration" where
  "add_gap acc pair = (case pair of (left, right) \<Rightarrow>
     if tn_OccurredAt left = time_zero \<or> \<not> tn_OccurredAt right > tn_OccurredAt left then acc
     else
       let gap = time_sub (tn_OccurredAt right) (tn_OccurredAt left) in
       if sint gap \<le> maxActiveGap then acc + gap else acc)"

text \<open>\<open>Duration.Minutes\<close> of a duration that is not negative.\<close>

definition minutes_of :: "duration \<Rightarrow> float64" where
  "minutes_of d = float_add (float_of_int (sint d div 60000000000))
    (float_div (float_of_int (sint d mod 60000000000)) (float_of_int 60000000000))"

definition activeMinutes :: "Turn list \<Rightarrow> int \<Rightarrow> int \<Rightarrow> float64" where
  "activeMinutes turns start till =
    (let start = clamp_start start; till = clamp_end turns till in
     if start \<ge> till \<or> turns = [] then FloatFinite 0
     else let ts = window turns start till in minutes_of (foldl add_gap 0 (zip ts (tl ts))))"

record tally =
  ty_tokens :: int
  ty_usd :: float64
  ty_known :: bool
  ty_lower :: bool

definition zero_tally :: tally where
  "zero_tally = \<lparr>ty_tokens = 0, ty_usd = FloatFinite 0, ty_known = False, ty_lower = False\<rparr>"

definition tally_turn :: "tally \<Rightarrow> Turn \<Rightarrow> tally" where
  "tally_turn s turn =
    (let s = s\<lparr>ty_tokens := wrap64 (ty_tokens s + turnTokens turn)\<rparr> in
     case tn_CostUSD turn of
       Some usd \<Rightarrow> s\<lparr>ty_usd := float_add (ty_usd s) usd, ty_known := True\<rparr>
     | None \<Rightarrow> if turnTokens turn > 0 then s\<lparr>ty_lower := True\<rparr> else s)"

definition known_usd :: "tally \<Rightarrow> float64 option" where
  "known_usd s = (if ty_known s then Some (ty_usd s) else None)"

definition windowCost :: "Turn list \<Rightarrow> int \<Rightarrow> int \<Rightarrow> IssueCost" where
  "windowCost turns start till =
    (let start = clamp_start start; till = clamp_end turns till in
     if start > till \<or> turns = [] then zero_cost\<lparr>ct_LowerBound := True\<rparr>
     else let s = foldl tally_turn zero_tally (window turns start till) in
       \<lparr>ct_WastedMinutes = activeMinutes turns start till, ct_WastedTokens = ty_tokens s, ct_WastedUSD = known_usd s,
        ct_LowerBound = ty_lower s\<rparr>)"

section \<open>The cost of several windows\<close>

type_synonym key_order = "gostring list \<Rightarrow> gostring list"

text \<open>The map of sessions: of two with one key the last.\<close>

definition sessionOf :: "IssueSession list \<Rightarrow> gostring \<Rightarrow> IssueSession option" where
  "sessionOf sessions key = find (\<lambda>s. ts_SessionKey (ss_Metadata s) = key) (rev sessions)"

definition span_key :: "costSpan \<Rightarrow> gostring" where
  "span_key sp = sn_SessionKey (sp_session sp)"

text \<open>The range a span selects in its session, when it selects any turn.\<close>

definition span_range :: "IssueSession list \<Rightarrow> costSpan \<Rightarrow> (int \<times> int) option" where
  "span_range sessions sp =
    (case sessionOf sessions (span_key sp) of
       None \<Rightarrow> None
     | Some session \<Rightarrow>
         if ss_Turns session = [] then None
         else
           let start = clamp_start (sp_start sp); till = clamp_end (ss_Turns session) (sp_end sp) in
           if start > till then None else Some (start, till))"

text \<open>The map from session keys to their ranges.\<close>

definition ranges_by_session :: "IssueSession list \<Rightarrow> costSpan list \<Rightarrow> (gostring \<times> (int \<times> int) list) list" where
  "ranges_by_session sessions spans =
    group_pairs (List.map_filter (\<lambda>sp. map_option (Pair (span_key sp)) (span_range sessions sp)) spans)"

definition selected_indexes :: "(int \<times> int) list \<Rightarrow> int list" where
  "selected_indexes ranges = sort (remdups (concat (map (\<lambda>(start, till). [start..till]) ranges)))"

text \<open>The ranges of a session in order, with overlapping and adjacent ones merged.\<close>

fun merge_ranges :: "int \<times> int \<Rightarrow> (int \<times> int) list \<Rightarrow> (int \<times> int) list" where
  "merge_ranges (start, till) [] = [(start, till)]"
| "merge_ranges (start, till) ((s, e) # rest) =
    (if s \<le> till + 1 then merge_ranges (start, if e > till then e else till) rest
     else (start, till) # merge_ranges (s, e) rest)"

definition merged_ranges :: "(int \<times> int) list \<Rightarrow> (int \<times> int) list" where
  "merged_ranges ranges = (case sort ranges of [] \<Rightarrow> [] | r # rs \<Rightarrow> merge_ranges r rs)"

definition turns_of :: "IssueSession list \<Rightarrow> gostring \<Rightarrow> Turn list" where
  "turns_of sessions key = (case sessionOf sessions key of None \<Rightarrow> [] | Some s \<Rightarrow> ss_Turns s)"

definition attributedMinutes :: "key_order \<Rightarrow> preparedProject \<Rightarrow> costSpan list \<Rightarrow> float64" where
  "attributedMinutes order project spans =
    (let m = ranges_by_session (pp_sessions project) spans in
     foldl (\<lambda>acc key. foldl (\<lambda>acc (start, till).
         float_add acc (activeMinutes (turns_of (pp_sessions project) key) start till)) acc (merged_ranges (map_get m key)))
       (FloatFinite 0) (order (map fst m)))"

definition attributed_turns :: "key_order \<Rightarrow> preparedProject \<Rightarrow> costSpan list \<Rightarrow> Turn list" where
  "attributed_turns order project spans =
    (let m = ranges_by_session (pp_sessions project) spans in
     concat (map (\<lambda>key. map (\<lambda>i. turns_of (pp_sessions project) key ! nat i) (selected_indexes (map_get m key)))
       (order (map fst m))))"

text \<open>Two maps are ranged over: the turns selected, and the ranges of active time.\<close>

definition attributedCost ::
    "(nat \<Rightarrow> key_order) \<Rightarrow> preparedProject \<Rightarrow> costSpan list \<Rightarrow> costSpan list \<Rightarrow> IssueCost" where
  "attributedCost orders project costSpans timeSpans =
    (if costSpans = [] then zero_cost\<lparr>ct_WastedUSD := Some (FloatFinite 0)\<rparr>
     else let s = foldl tally_turn zero_tally (attributed_turns (orders 0) project costSpans) in
       \<lparr>ct_WastedMinutes =
          attributedMinutes (orders 1) project (if timeSpans = [] then costSpans else timeSpans),
        ct_WastedTokens = ty_tokens s,
        ct_WastedUSD = (if ty_known s \<or> \<not> ty_lower s then Some (ty_usd s) else None),
        ct_LowerBound = ty_lower s\<rparr>)"

section \<open>Excerpts\<close>

definition excerptFromTurn :: "text_env \<Rightarrow> Turn \<Rightarrow> Excerpt" where
  "excerptFromTurn E turn =
    (let p = tn_Payload turn;
         text = (case find (\<lambda>v. v \<noteq> []) (map trim_space [pl_Text p, pl_RawCommand p, pl_ToolResult p]) of
           Some v \<Rightarrow> v
         | None \<Rightarrow> if pl_ToolInput p = [] then []
             else (case te_compact E (pl_ToolInput p) of Some v \<Rightarrow> v | None \<Rightarrow> pl_ToolInput p)) in
     \<lparr>xc_Citation = \<lparr>ic_SessionKey = tn_SessionKey turn, ic_TurnIndex = tn_TurnIndex turn,
        ic_OccurredAt = tn_OccurredAt turn, ic_SourceFileID = pl_SourceFileID p,
        ic_JSONLByteOffset = pl_JSONLByteOffset p\<rparr>,
      xc_Role = tn_Role turn, xc_ToolName = tn_ToolName turn, xc_Text = text\<rparr>)"

definition mergeCost :: "IssueCost \<Rightarrow> IssueCost \<Rightarrow> IssueCost" where
  "mergeCost left right =
    \<lparr>ct_WastedMinutes = float_add (ct_WastedMinutes left) (ct_WastedMinutes right),
     ct_WastedTokens = wrap64 (ct_WastedTokens left + ct_WastedTokens right),
     ct_WastedUSD =
       (case concat (map (\<lambda>v. case v of None \<Rightarrow> [] | Some usd \<Rightarrow> [usd]) [ct_WastedUSD left, ct_WastedUSD right]) of
          [] \<Rightarrow> None
        | values \<Rightarrow> Some (foldl float_add (FloatFinite 0) values)),
     ct_LowerBound = (ct_LowerBound left \<or> ct_LowerBound right \<or> ct_WastedUSD left = None \<or> ct_WastedUSD right = None)\<rparr>"

definition observe_bound :: "time \<times> time \<Rightarrow> Turn \<Rightarrow> time \<times> time" where
  "observe_bound s turn = (case s of (first, latest) \<Rightarrow>
     let t = tn_OccurredAt turn in
     if t = time_zero then s
     else (if first = time_zero \<or> t < first then t else first, if latest = time_zero \<or> t > latest then t else latest))"

definition observedBounds :: "Turn list \<Rightarrow> time \<times> time" where
  "observedBounds turns = foldl observe_bound (time_zero, time_zero) turns"

definition instructionTarget :: "preparedProject \<Rightarrow> gostring" where
  "instructionTarget project =
    (let agents = map (\<lambda>s. ts_Agent (ss_Metadata s)) (pp_sessions project) in
     if length (filter (\<lambda>a. a = ''claude-code'') agents) > length (filter (\<lambda>a. a = ''codex'') agents)
     then ''CLAUDE.md'' else ''AGENTS.md'')"

end
