(* ===== verification/Issue_Command.thy ===== *)
theory Issue_Command
  imports Issue_Model
begin

text \<open>
  Detectors over commands and edits (\<open>internal/detection/transcriptissues/command_detectors.go\<close>): loops of
  retries, errors that recur in several sessions, permissions approved again and again, files edited back and forth.
  A detector polls its context between sessions and has no other effect, so that its observations and the number
  of its polls are two functions.
\<close>

section \<open>Failed commands\<close>

record failedAttempt =
  fa_callIndex :: nat
  fa_resultIndex :: nat
  fa_class :: gostring
  fa_normalized :: gostring
  fa_raw :: gostring
  fa_errorSig :: gostring
  fa_call :: Turn
  fa_result :: Turn

text \<open>What the loop does with a turn after the call: skip it, take it, or give up.\<close>

datatype candidate_step = Skip | Take | GiveUp

definition resultStep :: "text_env \<Rightarrow> Turn \<Rightarrow> Turn \<Rightarrow> candidate_step" where
  "resultStep E call turn =
    (let callID = trim_space (pl_ToolCallID (tn_Payload call));
         resultID = trim_space (pl_ToolCallID (tn_Payload turn));
         callTool = trim_space (tn_ToolName call); resultTool = trim_space (tn_ToolName turn) in
     if tn_Role turn = RoleToolResult then
       (if callID \<noteq> [] \<and> resultID \<noteq> [] then if resultID = callID then Take else Skip
        else if callTool \<noteq> [] \<and> resultTool \<noteq> [] \<and> \<not> equal_fold (te_unicode E) callTool resultTool then Skip
        else if callID = [] \<and> resultID \<noteq> [] then Skip
        else Take)
     else if tn_Role turn = RoleToolCall \<and> callID = [] then GiveUp
     else Skip)"

fun matchingFrom :: "text_env \<Rightarrow> Turn \<Rightarrow> nat \<Rightarrow> Turn list \<Rightarrow> (nat \<times> Turn) option" where
  "matchingFrom E call index [] = None"
| "matchingFrom E call index (turn # turns) =
    (case resultStep E call turn of
       Take \<Rightarrow> Some (index, turn)
     | GiveUp \<Rightarrow> None
     | Skip \<Rightarrow> matchingFrom E call (Suc index) turns)"

definition matchingToolResult :: "text_env \<Rightarrow> Turn list \<Rightarrow> nat \<Rightarrow> Turn \<Rightarrow> (nat \<times> Turn) option" where
  "matchingToolResult E turns callIndex call =
    matchingFrom E call (Suc callIndex) (take 8 (drop (Suc callIndex) turns))"

definition failedAttemptAt :: "text_env \<Rightarrow> ProjectConfig \<Rightarrow> Turn list \<Rightarrow> nat \<times> Turn \<Rightarrow> failedAttempt option" where
  "failedAttemptAt E config turns item = (case item of (callIndex, call) \<Rightarrow>
    (case commandInfo E config call of
       None \<Rightarrow> None
     | Some (class, normalized, raw) \<Rightarrow>
         if tn_Role call \<noteq> RoleToolCall then None
         else (case matchingToolResult E turns callIndex call of
             None \<Rightarrow> None
           | Some (resultIndex, res) \<Rightarrow>
               if \<not> turnFailed E res then None
               else Some \<lparr>fa_callIndex = callIndex, fa_resultIndex = resultIndex, fa_class = class,
                 fa_normalized = normalized, fa_raw = raw, fa_errorSig = normalizedErrorSignature E res,
                 fa_call = call, fa_result = res\<rparr>)))"

definition failedCommandAttempts :: "text_env \<Rightarrow> IssueSession \<Rightarrow> ProjectConfig \<Rightarrow> failedAttempt list" where
  "failedCommandAttempts E session config =
    List.map_filter (failedAttemptAt E config (ss_Turns session)) (enumerate 0 (ss_Turns session))"

section \<open>Retry loops\<close>

text \<open>The window of the two indexes: the start follows so that both are at most 30 turns apart.\<close>

function advance_start :: "nat list \<Rightarrow> nat \<Rightarrow> nat \<Rightarrow> nat" where
  "advance_start positions till start =
    (if start < till \<and> int (positions ! till) - int (positions ! start) > 30
     then advance_start positions till (Suc start) else start)"
  by pat_completeness auto
termination by (relation "measure (\<lambda>(positions, till, start). till - start)") auto

declare advance_start.simps [simp del]

definition windowStep :: "nat list \<Rightarrow> nat \<times> nat \<times> nat \<Rightarrow> nat \<Rightarrow> nat \<times> nat \<times> nat" where
  "windowStep positions s till = (case s of (start, bestStart, bestEnd) \<Rightarrow>
     let start = advance_start positions till start in
     if till - start + 1 > bestEnd - bestStart then (start, start, till + 1) else (start, bestStart, bestEnd))"

definition bestWindow :: "nat list \<Rightarrow> nat \<times> nat" where
  "bestWindow positions = snd (foldl (windowStep positions) (0, 0, 0) [0..<length positions])"

definition harness_rule :: "preparedProject \<Rightarrow> gostring \<Rightarrow> SuggestedFix" where
  "harness_rule project rationale =
    \<lparr>sf_Kind = ''harness_rule'', sf_TargetFile = instructionTarget project, sf_Rationale = rationale\<rparr>"

text \<open>Of several observations of one occurrence each, the first carries the cost, the spans and the excerpts of all.\<close>

definition excerptsOf :: "text_env \<Rightarrow> Turn list \<Rightarrow> Excerpt list" where
  "excerptsOf E turns = map (excerptFromTurn E) (take maxExcerpts turns)"

definition observationsOf ::
    "text_env \<Rightarrow> gostring \<Rightarrow> gostring \<Rightarrow> gostring \<Rightarrow> IssueSession \<Rightarrow> IssueCost \<Rightarrow> costSpan list \<Rightarrow> SuggestedFix \<Rightarrow>
      Turn list \<Rightarrow> observation list" where
  "observationsOf E detector fingerprint subject session cost spans suggestion turns =
    map (\<lambda>(index, turn).
      \<lparr>ob_detectorID = detector, ob_fingerprint = fingerprint, ob_subject = subject,
       ob_cost = (if index = 0 then cost else zero_cost), ob_costSpans = (if index = 0 then spans else []),
       ob_timeSpans = [], ob_session = sessionRef session,
       ob_firstSeen = tn_OccurredAt (hd turns), ob_lastSeen = tn_OccurredAt (last turns),
       ob_occurredAt = tn_OccurredAt turn,
       ob_excerpts = (if index = 0 then excerptsOf E turns else [excerptFromTurn E turn]), ob_fix = suggestion\<rparr>)
      (enumerate (0::nat) turns)"

definition retryLoopObservations ::
    "text_env \<Rightarrow> preparedProject \<Rightarrow> IssueSession \<Rightarrow> failedAttempt list \<Rightarrow> observation list" where
  "retryLoopObservations E project session attempts =
    (let a = hd attempts; z = last attempts;
         errorSig = (if fa_errorSig a = [] then ''structured command failure'' else fa_errorSig a);
         start = int (fa_resultIndex a); till = int (fa_resultIndex z) in
     observationsOf E DetectorRetryLoop
       (ip_Identity (pp_project project) @ [CHR 0x00] @ fa_class a @ [CHR 0x00] @ errorSig)
       (commandSubject (fa_normalized a)) session (windowCost (ss_Turns session) start till)
       [windowSpan session start till]
       (harness_rule project (''Stop retrying '' @ commandSubject (fa_normalized a) @
         '' after two identical failures; inspect and address '' @ [CHR 0x60] @ errorSig @ [CHR 0x60] @
         '' before trying again.''))
       (map fa_result attempts))"

definition retryKey :: "failedAttempt \<Rightarrow> gostring" where
  "retryKey attempt = fa_class attempt @ [CHR 0x00] @ fa_normalized attempt"

definition sessionRetryLoops ::
    "text_env \<Rightarrow> key_order \<Rightarrow> preparedProject \<Rightarrow> IssueSession \<Rightarrow> observation list" where
  "sessionRetryLoops E order project session =
    (let byCommand = group_by retryKey (failedCommandAttempts E session (pp_config project)) in
     concat (map (\<lambda>key.
       let attempts = sort_key fa_resultIndex (map_get byCommand key) in
       case bestWindow (map fa_resultIndex attempts) of (bestStart, bestEnd) \<Rightarrow>
         if bestEnd - bestStart \<ge> 3
         then retryLoopObservations E project session (drop bestStart (take bestEnd attempts)) else [])
       (order (map fst byCommand))))"

text \<open>
  One order for the map of every session. Attempts of one command at one result differ only in the call,
  which the observations do not mention, so that the order the sort gives them does not matter.
\<close>

definition detectRetryLoops :: "text_env \<Rightarrow> (nat \<Rightarrow> key_order) \<Rightarrow> preparedProject \<Rightarrow> observation list" where
  "detectRetryLoops E order project =
    concat (map (\<lambda>(i, session). sessionRetryLoops E (order i) project session) (enumerate 0 (pp_sessions project)))"

section \<open>Recurring errors\<close>

definition signedAttempts ::
    "text_env \<Rightarrow> preparedProject \<Rightarrow> IssueSession \<Rightarrow> (gostring \<times> failedAttempt list) list" where
  "signedAttempts E project session =
    group_by fa_errorSig (filter (\<lambda>a. fa_errorSig a \<noteq> []) (failedCommandAttempts E session (pp_config project)))"

text \<open>
  Ranging over the signatures of one session appends to the list of each signature once, so that only the order
  in which the sessions come matters.
\<close>

definition bySignature ::
    "text_env \<Rightarrow> preparedProject \<Rightarrow> (gostring \<times> (IssueSession \<times> failedAttempt list) list) list" where
  "bySignature E project =
    group_pairs (concat (map (\<lambda>session. map (\<lambda>(signature, attempts). (signature, (session, attempts)))
      (signedAttempts E project session)) (pp_sessions project)))"

definition callWindowCost :: "IssueSession \<Rightarrow> failedAttempt \<Rightarrow> IssueCost" where
  "callWindowCost session attempt =
    windowCost (ss_Turns session) (int (fa_callIndex attempt)) (int (fa_resultIndex attempt))"

definition recurringObservations ::
    "text_env \<Rightarrow> preparedProject \<Rightarrow> gostring \<Rightarrow> IssueSession \<times> failedAttempt list \<Rightarrow> observation list" where
  "recurringObservations E project signature item = (case item of (session, attempts) \<Rightarrow>
     observationsOf E DetectorRecurringError (ip_Identity (pp_project project) @ [CHR 0x00] @ signature)
       ([CHR 0x60] @ signature @ [CHR 0x60]) session
       (foldl (\<lambda>cost attempt. mergeCost cost (callWindowCost session attempt)) zero_cost attempts)
       (map (\<lambda>a. windowSpan session (int (fa_callIndex a)) (int (fa_resultIndex a))) attempts)
       (harness_rule project ''Add a project rule that recognizes this error signature and applies the known repair before repeating the failing command.'')
       (map fa_result attempts))"

definition detectRecurringErrors :: "text_env \<Rightarrow> key_order \<Rightarrow> preparedProject \<Rightarrow> observation list" where
  "detectRecurringErrors E order project =
    (let m = bySignature E project in
     concat (map (\<lambda>signature.
       let sessions = map_get m signature in
       if length sessions < 2 then [] else concat (map (recurringObservations E project signature) sessions))
       (order (map fst m))))"

section \<open>Permissions\<close>

record approval =
  ap_session :: IssueSession
  ap_callIndex :: nat
  ap_userIndex :: nat
  ap_call :: Turn
  ap_user :: Turn

definition permissionPattern :: "text_env \<Rightarrow> Turn \<Rightarrow> ProjectConfig \<Rightarrow> gostring" where
  "permissionPattern E call config =
    (let tool = lower_of E (trim_space (tn_ToolName call)) in
     if tool = [] then []
     else
       let normalized = (case commandInfo E config call of
             Some (class, normalized, raw) \<Rightarrow> normalized
           | None \<Rightarrow> normalizeCommand E (pl_ToolInput (tn_Payload call)));
           normalized = (if normalized = [] then editContentHash E call else normalized) in
       tool @ [CHR 0x00] @ normalized)"

definition permissionPatternLabel :: "gostring \<Rightarrow> gostring" where
  "permissionPatternLabel pattern =
    (let tool = takeWhile (\<lambda>c. c \<noteq> CHR 0x00) pattern in
     if tool = [] then ''the same tool pattern'' else tool)"

definition turnSliceIndex :: "Turn list \<Rightarrow> gostring \<Rightarrow> nat" where
  "turnSliceIndex turns turnID =
    (case find (\<lambda>i. tn_TurnID (turns ! i) = turnID) [0..<length turns] of None \<Rightarrow> 0 | Some i \<Rightarrow> i)"

text \<open>What a turn says of the pattern of the call before it: an approval or a denial.\<close>

definition permissionAnswer ::
    "text_env \<Rightarrow> ProjectConfig \<Rightarrow> IssueSession \<Rightarrow> nat \<times> Turn \<Rightarrow> (gostring \<times> approval option) option" where
  "permissionAnswer E config session item = (case item of (index, turn) \<Rightarrow>
     let text = trim_space (pl_Text (tn_Payload turn)) in
     if tn_Role turn \<noteq> RoleUser \<or> \<not> isApprovalText text \<and> \<not> isDenialText text then None
     else case nearestPriorToolCall (ss_Turns session) index of
       None \<Rightarrow> None
     | Some call \<Rightarrow>
         let pattern = permissionPattern E call config in
         if pattern = [] then None
         else if isDenialText text then Some (pattern, None)
         else Some (pattern, Some \<lparr>ap_session = session,
           ap_callIndex = turnSliceIndex (ss_Turns session) (tn_TurnID call),
           ap_userIndex = index, ap_call = call, ap_user = turn\<rparr>))"

definition permissionAnswers :: "text_env \<Rightarrow> preparedProject \<Rightarrow> (gostring \<times> approval option) list" where
  "permissionAnswers E project =
    concat (map (\<lambda>session. concat (map (\<lambda>item. case permissionAnswer E (pp_config project) session item of
        None \<Rightarrow> [] | Some answer \<Rightarrow> [answer]) (enumerate 0 (ss_Turns session)))) (pp_sessions project))"

definition approvalsOf :: "text_env \<Rightarrow> preparedProject \<Rightarrow> (gostring \<times> approval list) list" where
  "approvalsOf E project =
    group_pairs (concat (map (\<lambda>(pattern, answer). case answer of None \<Rightarrow> [] | Some a \<Rightarrow> [(pattern, a)])
      (permissionAnswers E project)))"

definition deniedPatterns :: "text_env \<Rightarrow> preparedProject \<Rightarrow> gostring list" where
  "deniedPatterns E project =
    map fst (filter (\<lambda>(pattern, answer). answer = None) (permissionAnswers E project))"

definition permissionTarget :: "approval list \<Rightarrow> gostring" where
  "permissionTarget values =
    (let claude = length (filter (\<lambda>v. ts_Agent (ss_Metadata (ap_session v)) = ''claude-code'') values) in
     if claude * 2 \<ge> length values then ''.claude/settings.json'' else ''.codex/rules/default.rules'')"

definition permissionObservation :: "text_env \<Rightarrow> gostring \<Rightarrow> gostring \<Rightarrow> approval \<Rightarrow> observation" where
  "permissionObservation E pattern target v =
    (let start = int (ap_callIndex v); till = int (ap_userIndex v) in
     case observedBounds [ap_call v, ap_user v] of (first, latest) \<Rightarrow>
       \<lparr>ob_detectorID = DetectorPermissionChurn, ob_fingerprint = pattern,
        ob_subject = [CHR 0x60] @ permissionPatternLabel pattern @ [CHR 0x60],
        ob_cost = windowCost (ss_Turns (ap_session v)) start till,
        ob_costSpans = [windowSpan (ap_session v) start till], ob_timeSpans = [],
        ob_session = sessionRef (ap_session v), ob_firstSeen = first, ob_lastSeen = latest,
        ob_occurredAt = tn_OccurredAt (ap_user v),
        ob_excerpts = [excerptFromTurn E (ap_call v), excerptFromTurn E (ap_user v)],
        ob_fix = \<lparr>sf_Kind = ''permission_allowlist'', sf_TargetFile = target,
          sf_Rationale = ''Add this repeatedly approved tool pattern to the narrowest project permission allowlist because no denial was observed.''\<rparr>\<rparr>)"

definition detectPermissionChurn :: "text_env \<Rightarrow> key_order \<Rightarrow> preparedProject \<Rightarrow> observation list" where
  "detectPermissionChurn E order project =
    (let approvals = approvalsOf E project; denials = deniedPatterns E project in
     concat (map (\<lambda>pattern.
       let values = map_get approvals pattern in
       if length values < 5 \<or> pattern \<in> set denials then []
       else map (permissionObservation E pattern (permissionTarget values)) values)
       (order (map fst approvals))))"

section \<open>Files edited back and forth\<close>

record fileEdit =
  fe_index :: nat
  fe_turn :: Turn
  fe_hash :: gostring

definition editHashCycle :: "fileEdit list \<Rightarrow> bool" where
  "editHashCycle edits =
    list_ex (\<lambda>i. fe_hash (edits ! i) \<noteq> [] \<and> fe_hash (edits ! i) = fe_hash (edits ! (i + 2)) \<and>
      fe_hash (edits ! i) \<noteq> fe_hash (edits ! (i + 1))) [0..<length edits - 2]"

definition selectedTurnCost :: "fileEdit list \<Rightarrow> IssueCost" where
  "selectedTurnCost edits =
    (let s = foldl tally_turn zero_tally (map fe_turn edits) in
     zero_cost\<lparr>ct_WastedTokens := ty_tokens s, ct_WastedUSD := known_usd s, ct_LowerBound := ty_lower s\<rparr>)"

definition editsByFile :: "text_env \<Rightarrow> IssueSession \<Rightarrow> (gostring \<times> fileEdit list) list" where
  "editsByFile E session =
    group_pairs (concat (map (\<lambda>(index, turn). map (\<lambda>file.
        (file, \<lparr>fe_index = index, fe_turn = turn, fe_hash = editContentHash E turn\<rparr>)) (editedFiles E turn))
      (enumerate 0 (ss_Turns session))))"

definition billedSpan :: "IssueSession \<Rightarrow> fileEdit \<Rightarrow> costSpan" where
  "billedSpan session edit =
    (let billed = associatedBillableIndex (ss_Turns session) (int (fe_index edit));
         i = (if billed < 0 then int (fe_index edit) else billed) in windowSpan session i i)"

definition sessionFileThrash ::
    "text_env \<Rightarrow> key_order \<Rightarrow> preparedProject \<Rightarrow> IssueSession \<Rightarrow> observation list" where
  "sessionFileThrash E order project session =
    (let byFile = editsByFile E session in
     concat (map (\<lambda>file.
       let edits = map_get byFile file in
       if length edits < 4 \<and> \<not> editHashCycle edits then []
       else observationsOf E DetectorFileThrash file ([CHR 0x60] @ file @ [CHR 0x60]) session
         (selectedTurnCost edits) (map (billedSpan session) edits)
         (harness_rule project ''Require the agent to inspect and plan the complete file change before editing, then verify once after the coherent edit.'')
         (map fe_turn edits))
       (order (map fst byFile))))"

definition detectFileThrash :: "text_env \<Rightarrow> (nat \<Rightarrow> key_order) \<Rightarrow> preparedProject \<Rightarrow> observation list" where
  "detectFileThrash E order project =
    concat (map (\<lambda>(i, session). sessionFileThrash E (order i) project session) (enumerate 0 (pp_sessions project)))"

end
