(* ===== verification/Issue_Window.thy ===== *)
theory Issue_Window
  imports Issue_Command
begin

text \<open>
  What the detectors over commands compute: the window of retries is a largest one, the billed turn the nearest
  one, and results belong to their calls.
\<close>

section \<open>Windows of retries\<close>

definition within_window :: "nat list \<Rightarrow> nat \<Rightarrow> nat \<Rightarrow> bool" where
  "within_window ps i j \<longleftrightarrow> int (ps ! j) - int (ps ! i) \<le> 30"

lemma within_window_refl [simp]: "within_window ps i i"
  by (simp add: within_window_def)

lemma within_window_mono:
  assumes "sorted ps" and "within_window ps i j" and "i \<le> i'" and "j' \<le> j" and "i' \<le> j'" and "j < length ps"
  shows "within_window ps i' j'"
proof -
  have "ps ! i \<le> ps ! i'" "ps ! j' \<le> ps ! j"
    using assms by (auto intro!: sorted_nth_mono)
  with assms(2) show ?thesis by (simp add: within_window_def)
qed

lemma advance_start_spec:
  assumes "start \<le> till"
  shows "start \<le> advance_start ps till start \<and> advance_start ps till start \<le> till \<and>
    within_window ps (advance_start ps till start) till \<and>
    (\<forall>i. start \<le> i \<longrightarrow> i < advance_start ps till start \<longrightarrow> \<not> within_window ps i till)"
  using assms
proof (induction ps till start rule: advance_start.induct)
  case (1 ps till start)
  show ?case
  proof (cases "start < till \<and> \<not> within_window ps start till")
    case True
    let ?a = "advance_start ps till (Suc start)"
    from True have e: "advance_start ps till start = ?a"
      by (subst advance_start.simps) (simp add: within_window_def)
    from True have c: "start < till \<and> int (ps ! till) - int (ps ! start) > 30" by (simp add: within_window_def)
    from True have "Suc start \<le> till" by simp
    from 1(1) [OF c this] have IH: "Suc start \<le> ?a" "?a \<le> till" "within_window ps ?a till"
      "\<forall>i. Suc start \<le> i \<longrightarrow> i < ?a \<longrightarrow> \<not> within_window ps i till" by blast+
    have "\<not> within_window ps i till" if "start \<le> i" "i < ?a" for i
      using that IH(4) True by (cases "i = start") simp_all
    with IH show ?thesis unfolding e by auto
  next
    case False
    then have "advance_start ps till start = start" by (subst advance_start.simps) (auto simp: within_window_def)
    with False 1(2) show ?thesis by (auto simp: le_less)
  qed
qed

text \<open>The invariant of the loop before the index \<open>till\<close>.\<close>

definition window_inv :: "nat list \<Rightarrow> nat \<Rightarrow> nat \<times> nat \<times> nat \<Rightarrow> bool" where
  "window_inv ps till s \<longleftrightarrow> (case s of (start, b, e) \<Rightarrow>
     start \<le> till \<and> (\<forall>i < start. \<forall>j. till \<le> j \<longrightarrow> j < length ps \<longrightarrow> \<not> within_window ps i j) \<and>
     b \<le> e \<and> e \<le> till \<and> (b < e \<longrightarrow> within_window ps b (e - 1)) \<and>
     (\<forall>i j. i \<le> j \<longrightarrow> j < till \<longrightarrow> within_window ps i j \<longrightarrow> j + 1 - i \<le> e - b))"

lemma window_step_inv:
  assumes "sorted ps" and "till < length ps" and "window_inv ps till s"
  shows "window_inv ps (Suc till) (windowStep ps s till)"
proof -
  obtain start b e where s: "s = (start, b, e)" by (cases s)
  define a where "a = advance_start ps till start"
  have inv: "start \<le> till" "\<forall>i < start. \<forall>j. till \<le> j \<longrightarrow> j < length ps \<longrightarrow> \<not> within_window ps i j" "b \<le> e" "e \<le> till"
    "b < e \<longrightarrow> within_window ps b (e - 1)" "\<forall>i j. i \<le> j \<longrightarrow> j < till \<longrightarrow> within_window ps i j \<longrightarrow> j + 1 - i \<le> e - b"
    using assms(3) unfolding s window_inv_def by auto
  have a: "start \<le> a" "a \<le> till" "within_window ps a till" "\<forall>i. start \<le> i \<longrightarrow> i < a \<longrightarrow> \<not> within_window ps i till"
    using advance_start_spec [OF inv(1), of ps] unfolding a_def by auto
  have far: "\<not> within_window ps i j" if "i < a" "till \<le> j" "j < length ps" for i j
  proof (cases "i < start")
    case False
    then have "\<not> within_window ps i till" using a(4) that by simp
    moreover have "within_window ps i till" if "within_window ps i j"
      by (rule within_window_mono [OF assms(1) that]) (use \<open>i < a\<close> a(2) \<open>till \<le> j\<close> \<open>j < length ps\<close> in simp_all)
    ultimately show ?thesis by blast
  qed (use inv(2) that in blast)
  have best: "j + 1 - i \<le> max (e - b) (till - a + 1)" if "i \<le> j" "j < Suc till" "within_window ps i j" for i j
  proof (cases "j < till")
    case True
    with inv(6) that show ?thesis by (simp add: le_max_iff_disj)
  next
    case False
    then have "j = till" using that by simp
    then have "a \<le> i" using far [of i till] that assms(2) by (meson le_refl not_le)
    with \<open>j = till\<close> show ?thesis by (simp add: le_max_iff_disj) arith
  qed
  show ?thesis
  proof (cases "till - a + 1 > e - b")
    case True
    then have "windowStep ps s till = (a, a, till + 1)" by (simp add: windowStep_def s a_def Let_def)
    then show ?thesis using a far best True by (auto simp: window_inv_def max_def Suc_diff_le)
  next
    case False
    then have "windowStep ps s till = (a, b, e)" by (simp add: windowStep_def s a_def Let_def)
    then show ?thesis using a far best False inv by (auto simp: window_inv_def max_def)
  qed
qed

lemma windows_inv:
  "sorted ps \<Longrightarrow> n \<le> length ps \<Longrightarrow> window_inv ps n (foldl (windowStep ps) (0, 0, 0) [0..<n])"
proof (induction n)
  case (Suc n)
  then show ?case using window_step_inv [of ps n] by simp
qed (simp add: window_inv_def)

text \<open>
  C34. The window of retries is a largest one: over the positions of the failures of one command, in order, the scan with
  two indexes selects failures that lie within thirty turns, and no failures within thirty turns are more than
  those selected. Every other window is no larger than the one that decides whether a loop is reported.
\<close>
theorem retry_window_is_largest:
  assumes "sorted positions"
  shows "case bestWindow positions of (first, after) \<Rightarrow>
    first \<le> after \<and> after \<le> length positions \<and>
    (first < after \<longrightarrow> positions ! (after - 1) - positions ! first \<le> 30) \<and>
    (\<forall>i j. i \<le> j \<longrightarrow> j < length positions \<longrightarrow> positions ! j - positions ! i \<le> 30 \<longrightarrow> j + 1 - i \<le> after - first)"
proof -
  let ?n = "length positions"
  obtain start b e where s: "foldl (windowStep positions) (0, 0, 0) [0..<?n] = (start, b, e)"
    by (cases "foldl (windowStep positions) (0, 0, 0) [0..<?n]")
  have inv: "window_inv positions ?n (start, b, e)" using windows_inv [OF assms, of ?n] s by simp
  have within_window: "within_window positions i j \<longleftrightarrow> positions ! j - positions ! i \<le> 30" if "i \<le> j" "j < ?n" for i j
    using sorted_nth_mono [OF assms that] by (auto simp: within_window_def)
  have "bestWindow positions = (b, e)" by (simp add: bestWindow_def s)
  with inv within_window show ?thesis by (auto simp: window_inv_def)
qed

theorem retry_window_is_largest_witness:
  "sorted [0, 5, 40, 50, 60, 65, 71 :: nat] \<and> bestWindow [0, 5, 40, 50, 60, 65, 71] = (2, 6) \<and>
   [0, 5, 40, 50, 60, 65, 71 :: nat] ! 5 - [0, 5, 40, 50, 60, 65, 71] ! 2 \<le> 30 \<and> 6 + 1 - 3 \<le> (6 - 2 :: nat)"
proof -
  let ?ps = "[0, 5, 40, 50, 60, 65, 71 :: nat]"
  have s: "sorted ?ps" by simp
  have b: "bestWindow ?ps = (2, 6)" by code_simp
  have w: "\<forall>i j. i \<le> j \<longrightarrow> j < length ?ps \<longrightarrow> ?ps ! j - ?ps ! i \<le> 30 \<longrightarrow> j + 1 - i \<le> 6 - 2"
    and m: "?ps ! (6 - 1) - ?ps ! 2 \<le> 30"
    using retry_window_is_largest [OF s] unfolding b by simp_all
  have "6 + 1 - 3 \<le> (6 - 2 :: nat)" using w [rule_format, of 3 6] by simp
  with s b m show ?thesis by simp
qed

section \<open>The billed turn\<close>

lemma nearest_billable_spec:
  assumes "start \<le> index" and "index \<le> till"
    and "\<forall>i. start \<le> i \<longrightarrow> i \<le> till \<longrightarrow> \<bar>i - index\<bar> < d \<longrightarrow> \<not> billable turns i" and "0 < d"
  shows "nearest_billable turns start till index d = - 1 \<and> (\<forall>i. start \<le> i \<longrightarrow> i \<le> till \<longrightarrow> \<not> billable turns i) \<or>
    (\<exists>r. nearest_billable turns start till index d = r \<and> start \<le> r \<and> r \<le> till \<and> billable turns r \<and>
      (\<forall>i. start \<le> i \<longrightarrow> i \<le> till \<longrightarrow> billable turns i \<longrightarrow>
        \<bar>r - index\<bar> < \<bar>i - index\<bar> \<or> \<bar>r - index\<bar> = \<bar>i - index\<bar> \<and> r \<le> i))"
  using assms
proof (induction turns start till index d rule: nearest_billable.induct)
  case (1 turns start till index d)
  let ?left = "index - d \<ge> start \<and> billable turns (index - d)"
  let ?right = "index + d \<le> till \<and> billable turns (index + d)"
  note unfold = nearest_billable.simps [of turns start till index d]
  consider (out) "\<not> (index - d \<ge> start \<or> index + d \<le> till)"
    | (left) "index - d \<ge> start \<or> index + d \<le> till" ?left
    | (right) "index - d \<ge> start \<or> index + d \<le> till" "\<not> ?left" ?right
    | (next_) "index - d \<ge> start \<or> index + d \<le> till" "\<not> ?left" "\<not> ?right"
    by blast
  then show ?case
  proof cases
    case out
    with 1(4) have "\<forall>i. start \<le> i \<longrightarrow> i \<le> till \<longrightarrow> \<not> billable turns i" by auto
    moreover from out have "nearest_billable turns start till index d = - 1" by (subst unfold) simp
    ultimately show ?thesis by blast
  next
    case left
    then have "nearest_billable turns start till index d = index - d" by (subst unfold) simp
    moreover have "d < \<bar>i - index\<bar> \<or> d = \<bar>i - index\<bar> \<and> index - d \<le> i"
      if "start \<le> i" "i \<le> till" "billable turns i" for i
      using 1(4) that by (metis abs_ge_self abs_minus_commute diff_le_eq le_diff_eq add.commute linorder_cases abs_le_D2 abs_le_iff
        diff_mono minus_diff_eq neg_le_iff_le not_less)
    ultimately show ?thesis using left 1(3,5) by auto
  next
    case right
    then have "nearest_billable turns start till index d = index + d" by (subst unfold) auto
    moreover have "d < \<bar>i - index\<bar> \<or> d = \<bar>i - index\<bar> \<and> index + d \<le> i"
      if "start \<le> i" "i \<le> till" "billable turns i" for i
    proof -
      have "\<not> \<bar>i - index\<bar> < d" using 1(4) that by blast
      moreover have "i \<noteq> index - d" using right that by auto
      ultimately show ?thesis by auto
    qed
    ultimately show ?thesis using right 1(2,5) by auto
  next
    case next_
    then have "nearest_billable turns start till index d = nearest_billable turns start till index (d + 1)"
      by (subst unfold) auto
    moreover have "\<forall>i. start \<le> i \<longrightarrow> i \<le> till \<longrightarrow> \<bar>i - index\<bar> < d + 1 \<longrightarrow> \<not> billable turns i"
    proof (intro allI impI)
      fix i
      assume i: "start \<le> i" "i \<le> till" "\<bar>i - index\<bar> < d + 1"
      then consider "\<bar>i - index\<bar> < d" | "i = index - d" | "i = index + d" by linarith
      then show "\<not> billable turns i" using 1(4) next_ i by cases auto
    qed
    note IH = 1(1) [OF _ _ _ 1(2,3) this]
    ultimately show ?thesis using IH next_ 1(5) by auto
  qed
qed

text \<open>A place in the phase of a turn: no user and no compaction speaks between the two, at neither end beyond the turn.\<close>

definition same_phase :: "Turn list \<Rightarrow> nat \<Rightarrow> nat \<Rightarrow> bool" where
  "same_phase turns index i \<longleftrightarrow> i < length turns \<and>
    (\<forall>k. i \<le> k \<and> k < index \<or> index < k \<and> k \<le> i \<longrightarrow> \<not> phase_break (turns ! k))"

lemma phase_start_le: "i \<le> index \<Longrightarrow>
    phase_start turns index \<le> int i \<longleftrightarrow> (\<forall>k. i \<le> k \<longrightarrow> k < index \<longrightarrow> \<not> phase_break (turns ! k))"
proof (cases "find (\<lambda>i. phase_break (turns ! i)) (rev [0..<index])")
  case None
  then have "\<forall>k. k < index \<longrightarrow> \<not> phase_break (turns ! k)" by (simp add: find_rev_upt_None)
  then show ?thesis unfolding phase_start_def None by simp
next
  case (Some b)
  then have b: "b < index" "phase_break (turns ! b)" "\<forall>j. b < j \<longrightarrow> j < index \<longrightarrow> \<not> phase_break (turns ! j)"
    by (simp_all add: find_rev_upt_Some)
  have "phase_start turns index \<le> int i \<longleftrightarrow> b < i" unfolding phase_start_def Some by auto
  also have "\<dots> \<longleftrightarrow> (\<forall>k. i \<le> k \<longrightarrow> k < index \<longrightarrow> \<not> phase_break (turns ! k))"
  proof
    assume "b < i"
    with b(3) show "\<forall>k. i \<le> k \<longrightarrow> k < index \<longrightarrow> \<not> phase_break (turns ! k)" by auto
  next
    assume "\<forall>k. i \<le> k \<longrightarrow> k < index \<longrightarrow> \<not> phase_break (turns ! k)"
    with b(1,2) show "b < i" by (meson not_le)
  qed
  finally show ?thesis .
qed

lemma phase_end_ge: "index \<le> i \<Longrightarrow> index < length turns \<Longrightarrow>
    int i \<le> phase_end turns index \<longleftrightarrow>
    i < length turns \<and> (\<forall>k. index < k \<longrightarrow> k \<le> i \<longrightarrow> \<not> phase_break (turns ! k))"
proof (cases "find (\<lambda>i. phase_break (turns ! i)) [Suc index..<length turns]")
  case None
  assume "index \<le> i" "index < length turns"
  moreover from None have "\<forall>k. index < k \<longrightarrow> k < length turns \<longrightarrow> \<not> phase_break (turns ! k)"
    by (simp add: find_upt_None Suc_le_eq)
  ultimately show ?thesis unfolding phase_end_def None by auto
next
  case (Some b)
  assume i: "index \<le> i" "index < length turns"
  from Some have b: "index < b" "b < length turns" "phase_break (turns ! b)"
    "\<forall>j. index < j \<longrightarrow> j < b \<longrightarrow> \<not> phase_break (turns ! j)"
    by (simp_all add: find_upt_Some Suc_le_eq)
  have "int i \<le> phase_end turns index \<longleftrightarrow> i < b" unfolding phase_end_def Some by auto
  also have "\<dots> \<longleftrightarrow> i < length turns \<and> (\<forall>k. index < k \<longrightarrow> k \<le> i \<longrightarrow> \<not> phase_break (turns ! k))"
  proof
    assume "i < b"
    with b(2,4) show "i < length turns \<and> (\<forall>k. index < k \<longrightarrow> k \<le> i \<longrightarrow> \<not> phase_break (turns ! k))" by auto
  next
    assume "i < length turns \<and> (\<forall>k. index < k \<longrightarrow> k \<le> i \<longrightarrow> \<not> phase_break (turns ! k))"
    with b(1,3) show "i < b" by (meson not_le)
  qed
  finally show ?thesis .
qed

lemma same_phase_iff:
  assumes "index < length turns"
  shows "same_phase turns index i \<longleftrightarrow> phase_start turns index \<le> int i \<and> int i \<le> phase_end turns index"
proof (cases "i \<le> index")
  case True
  have "int i \<le> phase_end turns index"
    using True phase_end_ge [of index index turns] assms by auto
  with True assms phase_start_le [OF True] show ?thesis by (auto simp: same_phase_def)
next
  case False
  then have "index \<le> i" by simp
  moreover have "phase_start turns index \<le> int i"
    using phase_start_le [of index index turns] False by auto
  ultimately show ?thesis using False phase_end_ge [OF \<open>index \<le> i\<close> assms] by (auto simp: same_phase_def)
qed

lemma phase_start_nonneg: "0 \<le> phase_start turns index"
  unfolding phase_start_def by (simp split: option.split)

text \<open>
  The edit is billed to the nearest turn that has tokens: the search from a turn returns a turn of the same phase,
  with tokens, such that no turn of the phase with tokens is nearer, and the earlier one of two at the same
  distance; it returns -1 exactly when no turn of the phase has tokens.
\<close>
theorem billed_turn_is_nearest:
  assumes "index < length turns"
  defines "r \<equiv> associatedBillableIndex turns (int index)"
  shows "(r = - 1 \<longleftrightarrow> (\<forall>i. same_phase turns index i \<longrightarrow> \<not> turnTokens (turns ! i) > 0)) \<and>
    (r \<noteq> - 1 \<longrightarrow> 0 \<le> r \<and> same_phase turns index (nat r) \<and> turnTokens (turns ! nat r) > 0 \<and>
      (\<forall>i. same_phase turns index i \<longrightarrow> turnTokens (turns ! i) > 0 \<longrightarrow>
        \<bar>r - int index\<bar> < \<bar>int i - int index\<bar> \<or> \<bar>r - int index\<bar> = \<bar>int i - int index\<bar> \<and> r \<le> int i))"
proof -
  let ?s = "phase_start turns index" and ?e = "phase_end turns index"
  have self: "same_phase turns index index" using assms(1) by (auto simp: same_phase_def)
  note phase = same_phase_iff [OF assms(1)]
  have b: "billable turns (int i) \<longleftrightarrow> turnTokens (turns ! i) > 0" for i by (simp add: billable_def)
  show ?thesis
  proof (cases "billable turns (int index)")
    case True
    with assms(1) have "r = int index" unfolding r_def associatedBillableIndex_def by simp
    with True self b show ?thesis by auto
  next
    case False
    with assms(1) have r: "r = nearest_billable turns ?s ?e (int index) 1"
      unfolding r_def associatedBillableIndex_def by simp
    have d: "\<forall>i. ?s \<le> i \<longrightarrow> i \<le> ?e \<longrightarrow> \<bar>i - int index\<bar> < 1 \<longrightarrow> \<not> billable turns i"
      using False by (auto dest!: zabs_less_one_iff [THEN iffD1])
    have s: "?s \<le> int index" "int index \<le> ?e" using self phase by blast+
    from nearest_billable_spec [OF s d] r consider
      (none) "r = - 1" "\<forall>i. ?s \<le> i \<longrightarrow> i \<le> ?e \<longrightarrow> \<not> billable turns i"
      | (some) "?s \<le> r" "r \<le> ?e" "billable turns r"
        "\<forall>i. ?s \<le> i \<longrightarrow> i \<le> ?e \<longrightarrow> billable turns i \<longrightarrow>
          \<bar>r - int index\<bar> < \<bar>i - int index\<bar> \<or> \<bar>r - int index\<bar> = \<bar>i - int index\<bar> \<and> r \<le> i"
      by auto
    then show ?thesis
    proof cases
      case none
      with phase show ?thesis by (simp flip: b)
    next
      case some
      then have pos: "0 \<le> r" using phase_start_nonneg [of turns index] by simp
      with some have ph: "same_phase turns index (nat r)" "turnTokens (turns ! nat r) > 0"
        using phase [of "nat r"] by (simp_all add: billable_def)
      with some(4) phase pos show ?thesis by (auto simp flip: b intro!: exI [of _ "nat r"])
    qed
  qed
qed

section \<open>Results of calls\<close>

lemma matchingFrom_Some:
  "matchingFrom E call index turns = Some (i, t) \<Longrightarrow>
    index \<le> i \<and> i < index + length turns \<and> t = turns ! (i - index) \<and> resultStep E call t = Take \<and>
    (\<forall>k. index \<le> k \<longrightarrow> k < i \<longrightarrow> resultStep E call (turns ! (k - index)) = Skip)"
proof (induction turns arbitrary: index)
  case (Cons turn turns)
  show ?case
  proof (cases "resultStep E call turn")
    case Skip
    with Cons.prems have "matchingFrom E call (Suc index) turns = Some (i, t)" by simp
    note IH = Cons.IH [OF this]
    have "resultStep E call ((turn # turns) ! (k - index)) = Skip" if "index \<le> k" "k < i" for k
      using that IH Skip by (cases "k = index") (auto simp: nth_Cons' Suc_le_eq)
    with IH show ?thesis by (auto simp: nth_Cons')
  qed (use Cons.prems in auto)
qed simp

lemma resultStep_Take:
  "resultStep E call turn = Take \<Longrightarrow> tn_Role turn = RoleToolResult \<and>
    (trim_space (pl_ToolCallID (tn_Payload turn)) \<noteq> [] \<longrightarrow>
      trim_space (pl_ToolCallID (tn_Payload turn)) = trim_space (pl_ToolCallID (tn_Payload call)))"
  by (auto simp: resultStep_def Let_def split: if_splits)

text \<open>
  A failure belongs to its command: every failed attempt is a tool call of the session with a command, and
  its result is a result among the eight turns after the call that failed, that carries the identifier of the call
  when it carries one, and with every result between them belonging to another call or tool.
\<close>
theorem failures_belong_to_their_command:
  assumes "a \<in> set (failedCommandAttempts E session config)"
  shows "fa_callIndex a < fa_resultIndex a \<and> fa_resultIndex a \<le> fa_callIndex a + 8 \<and>
    fa_resultIndex a < length (ss_Turns session) \<and>
    fa_call a = ss_Turns session ! fa_callIndex a \<and> fa_result a = ss_Turns session ! fa_resultIndex a \<and>
    tn_Role (fa_call a) = RoleToolCall \<and> commandInfo E config (fa_call a) = Some (fa_class a, fa_normalized a, fa_raw a) \<and>
    tn_Role (fa_result a) = RoleToolResult \<and> turnFailed E (fa_result a) \<and>
    (trim_space (pl_ToolCallID (tn_Payload (fa_result a))) \<noteq> [] \<longrightarrow>
      trim_space (pl_ToolCallID (tn_Payload (fa_result a))) = trim_space (pl_ToolCallID (tn_Payload (fa_call a)))) \<and>
    (\<forall>k. fa_callIndex a < k \<longrightarrow> k < fa_resultIndex a \<longrightarrow>
      resultStep E (fa_call a) (ss_Turns session ! k) = Skip)"
proof -
  let ?ts = "ss_Turns session"
  from assms obtain item where item: "item \<in> set (enumerate 0 ?ts)" "failedAttemptAt E config ?ts item = Some a"
    by (auto simp: failedCommandAttempts_def in_set_map_filter)
  obtain i call where it: "item = (i, call)" by (cases item)
  from item(2) obtain cls normalized raw j res where
    c: "commandInfo E config call = Some (cls, normalized, raw)" "tn_Role call = RoleToolCall"
      "matchingToolResult E ?ts i call = Some (j, res)" "turnFailed E res"
    and a: "a = \<lparr>fa_callIndex = i, fa_resultIndex = j, fa_class = cls, fa_normalized = normalized, fa_raw = raw,
      fa_errorSig = normalizedErrorSignature E res, fa_call = call, fa_result = res\<rparr>"
    unfolding it failedAttemptAt_def by (auto split: option.splits if_splits)
  from item(1) have i: "i < length ?ts" "call = ?ts ! i" by (auto simp: it in_set_enumerate_eq)
  from c(3) have "matchingFrom E call (Suc i) (take 8 (drop (Suc i) ?ts)) = Some (j, res)"
    by (simp add: matchingToolResult_def)
  from matchingFrom_Some [OF this] have j: "Suc i \<le> j" "j < Suc i + 8" "j < length ?ts" "res = ?ts ! j"
    "resultStep E call res = Take" "\<forall>k. Suc i \<le> k \<longrightarrow> k < j \<longrightarrow> resultStep E call (?ts ! k) = Skip"
    using i by auto
  show ?thesis using c i j resultStep_Take [OF j(5)] unfolding a by (simp add: Suc_le_eq)
qed

end
