(* ===== verification/Issue_Cost.thy ===== *)
theory Issue_Cost
  imports Issue_Model
begin

text \<open>
  What issues cost: however many windows name a turn, its tokens and its price are counted once, and so is the
  active time of a stretch of turns.
\<close>

section \<open>Tokens modulo the width\<close>

lemma tally_tokens:
  "ty_tokens s = wrap64 n \<Longrightarrow>
    ty_tokens (foldl tally_turn s ts) = wrap64 (n + sum_list (map turnTokens ts))"
proof (induction ts arbitrary: s n)
  case (Cons t ts)
  have "ty_tokens (tally_turn s t) = wrap64 (n + turnTokens t)"
    using Cons.prems by (simp add: tally_turn_def Let_def split: option.split)
  from Cons.IH [OF this] show ?case by (simp add: add.assoc)
qed simp

lemma tally_known:
  "ty_known (foldl tally_turn s ts) \<longleftrightarrow> ty_known s \<or> (\<exists>t\<in>set ts. tn_CostUSD t \<noteq> None)"
  by (induction ts arbitrary: s) (auto simp: tally_turn_def Let_def split: option.splits)

lemma tally_lower:
  "ty_lower (foldl tally_turn s ts) \<longleftrightarrow>
    ty_lower s \<or> (\<exists>t\<in>set ts. tn_CostUSD t = None \<and> turnTokens t > 0)"
  by (induction ts arbitrary: s) (auto simp: tally_turn_def Let_def split: option.splits)

section \<open>The turns selected\<close>

text \<open>The turns the windows name: the session exists, and the index is one of its turns and in the window.\<close>

definition selects :: "IssueSession list \<Rightarrow> costSpan list \<Rightarrow> gostring \<Rightarrow> int \<Rightarrow> bool" where
  "selects sessions spans key i \<longleftrightarrow>
    (\<exists>sp\<in>set spans. span_key sp = key \<and> sessionOf sessions key \<noteq> None \<and> 0 \<le> i \<and>
      i < int (length (turns_of sessions key)) \<and> sp_start sp \<le> i \<and> i \<le> sp_end sp)"

lemma span_range_Some:
  "span_range sessions sp = Some (s, e) \<Longrightarrow> s \<le> e \<and>
    (s \<le> i \<and> i \<le> e \<longleftrightarrow> 0 \<le> i \<and> i < int (length (turns_of sessions (span_key sp))) \<and> sp_start sp \<le> i \<and> i \<le> sp_end sp)"
  by (auto simp: span_range_def Let_def turns_of_def clamp_start_def clamp_end_def split: option.splits if_splits)

lemma span_range_None:
  "span_range sessions sp = None \<Longrightarrow> sessionOf sessions (span_key sp) \<noteq> None \<Longrightarrow> 0 \<le> i \<Longrightarrow>
    i < int (length (turns_of sessions (span_key sp))) \<Longrightarrow> sp_start sp \<le> i \<Longrightarrow> \<not> i \<le> sp_end sp"
  by (auto simp: span_range_def Let_def turns_of_def clamp_start_def clamp_end_def split: option.splits if_splits)

lemma range_pairs:
  "set (List.map_filter (\<lambda>sp. map_option (Pair (span_key sp)) (span_range sessions sp)) spans) =
    {(key, r). \<exists>sp\<in>set spans. span_key sp = key \<and> span_range sessions sp = Some r}"
  by (auto simp: set_map_filter)

lemma set_map_get_ranges:
  "set (map_get (ranges_by_session sessions spans) key) =
    {r. \<exists>sp\<in>set spans. span_key sp = key \<and> span_range sessions sp = Some r}"
proof -
  have "set (map_get (ranges_by_session sessions spans) key) =
      {r. (key, r) \<in> set (List.map_filter (\<lambda>sp. map_option (Pair (span_key sp)) (span_range sessions sp)) spans)}"
    by (force simp: ranges_by_session_def group_pairs_props(3))
  then show ?thesis unfolding range_pairs by simp
qed

lemma set_keys_ranges:
  "set (map fst (ranges_by_session sessions spans)) =
    {key. \<exists>sp\<in>set spans. span_key sp = key \<and> span_range sessions sp \<noteq> None}"
proof -
  have "set (map fst (ranges_by_session sessions spans)) =
      fst ` set (List.map_filter (\<lambda>sp. map_option (Pair (span_key sp)) (span_range sessions sp)) spans)"
    by (simp add: ranges_by_session_def group_pairs_props(1))
  also have "\<dots> = {key. \<exists>sp\<in>set spans. span_key sp = key \<and> span_range sessions sp \<noteq> None}"
    unfolding range_pairs by force
  finally show ?thesis .
qed

lemma selected_indexes_props:
  "distinct (selected_indexes ranges)"
  "set (selected_indexes ranges) = {i. \<exists>(s, e)\<in>set ranges. s \<le> i \<and> i \<le> e}"
  by (auto simp: selected_indexes_def)

lemma selected_iff:
  "i \<in> set (selected_indexes (map_get (ranges_by_session sessions spans) key)) \<longleftrightarrow> selects sessions spans key i"
proof
  assume "i \<in> set (selected_indexes (map_get (ranges_by_session sessions spans) key))"
  then obtain s e sp where sp: "sp \<in> set spans" "span_key sp = key" "span_range sessions sp = Some (s, e)" "s \<le> i" "i \<le> e"
    by (auto simp: selected_indexes_props(2) set_map_get_ranges)
  moreover have "sessionOf sessions key \<noteq> None" using sp by (auto simp: span_range_def split: option.splits)
  ultimately show "selects sessions spans key i"
    using span_range_Some [OF sp(3), of i] unfolding selects_def by blast
next
  assume "selects sessions spans key i"
  then obtain sp where sp: "sp \<in> set spans" "span_key sp = key" "sessionOf sessions key \<noteq> None" "0 \<le> i"
      "i < int (length (turns_of sessions key))" "sp_start sp \<le> i" "i \<le> sp_end sp"
    by (auto simp: selects_def)
  obtain s e where r: "span_range sessions sp = Some (s, e)"
    using span_range_None [of sessions sp i] sp by (cases "span_range sessions sp") auto
  from span_range_Some [OF r, of i] sp have "s \<le> i \<and> i \<le> e" by blast
  with sp r show "i \<in> set (selected_indexes (map_get (ranges_by_session sessions spans) key))"
    by (auto simp: selected_indexes_props(2) set_map_get_ranges intro!: bexI [of _ "(s, e)"] bexI [of _ sp])
qed

lemma selects_key: "selects sessions spans key i \<Longrightarrow> key \<in> set (map fst (ranges_by_session sessions spans))"
  unfolding selected_iff [symmetric] set_keys_ranges
  by (auto simp: selected_indexes_props(2) set_map_get_ranges)

abbreviation selected_turns :: "preparedProject \<Rightarrow> costSpan list \<Rightarrow> (gostring \<times> int) set" where
  "selected_turns project spans \<equiv> {(key, i). selects (pp_sessions project) spans key i}"

abbreviation turn_at :: "preparedProject \<Rightarrow> gostring \<times> int \<Rightarrow> Turn" where
  "turn_at project place \<equiv> turns_of (pp_sessions project) (fst place) ! nat (snd place)"

lemma attributed_turns_as_set:
  assumes "\<And>ks. mset (order ks) = mset ks"
  shows "\<exists>places. distinct places \<and> set places = selected_turns project spans \<and>
    attributed_turns order project spans = map (turn_at project) places"
proof -
  let ?m = "ranges_by_session (pp_sessions project) spans"
  let ?keys = "order (map fst ?m)" and ?is = "\<lambda>key. selected_indexes (map_get ?m key)"
  let ?places = "concat (map (\<lambda>key. map (Pair key) (?is key)) ?keys)"
  have "distinct (map fst ?m)" by (simp add: ranges_by_session_def group_pairs_props(2))
  then have d: "distinct ?keys" using assms [of "map fst ?m"] by (metis mset_eq_imp_distinct_iff)
  have s: "set ?keys = set (map fst ?m)" using assms [of "map fst ?m"] by (rule mset_eq_setD)
  have "distinct (concat (map (\<lambda>key. map (Pair key) (?is key)) ks))" if "distinct ks" for ks
    using that by (induction ks) (auto simp: distinct_map inj_on_def selected_indexes_props(1))
  with d have "distinct ?places" by blast
  moreover have "(key, i) \<in> set ?places \<longleftrightarrow> selects (pp_sessions project) spans key i" for key i
  proof -
    have "(key, i) \<in> set ?places \<longleftrightarrow> key \<in> set ?keys \<and> i \<in> set (?is key)" by auto
    with selects_key s show ?thesis unfolding selected_iff by blast
  qed
  then have "set ?places = selected_turns project spans" by auto
  moreover have "attributed_turns order project spans = map (turn_at project) ?places"
    by (simp add: attributed_turns_def Let_def map_concat o_def)
  ultimately show ?thesis by blast
qed

text \<open>
  C30. No turn is charged twice: in whichever order the sessions are ranged over, the tokens attributed to any
  number of windows are those of the turns in some window, each counted once, modulo the width of the counter. The
  cost is only a lower bound exactly when one of these turns has tokens and no known price, and the price is missing
  exactly when it is only a lower bound and no price of these turns is known.
\<close>
theorem turns_are_charged_once:
  fixes project :: preparedProject and costSpans timeSpans :: "costSpan list" and orders :: "nat \<Rightarrow> key_order"
  assumes "\<And>ks. mset (orders 0 ks) = mset ks" and "costSpans \<noteq> []"
  defines "cost \<equiv> attributedCost orders project costSpans timeSpans"
    and "selected \<equiv> {(key, i). selects (pp_sessions project) costSpans key i}"
  shows "finite selected \<and> ct_WastedTokens cost = wrap64 (\<Sum>place\<in>selected. turnTokens (turn_at project place)) \<and>
    (ct_LowerBound cost \<longleftrightarrow>
      (\<exists>place\<in>selected. tn_CostUSD (turn_at project place) = None \<and> turnTokens (turn_at project place) > 0)) \<and>
    (ct_WastedUSD cost = None \<longleftrightarrow>
      ct_LowerBound cost \<and> (\<forall>place\<in>selected. tn_CostUSD (turn_at project place) = None))"
proof -
  obtain places where p: "distinct places" "set places = selected"
      "attributed_turns (orders 0) project costSpans = map (turn_at project) places"
    using attributed_turns_as_set [OF assms(1), of project costSpans] unfolding selected_def by auto
  let ?s = "foldl tally_turn zero_tally (map (turn_at project) places)"
  have c: "ct_WastedTokens cost = ty_tokens ?s" "ct_LowerBound cost = ty_lower ?s"
      "ct_WastedUSD cost = (if ty_known ?s \<or> \<not> ty_lower ?s then Some (ty_usd ?s) else None)"
    using assms(2) by (simp_all add: cost_def attributedCost_def p(3) Let_def)
  have "ty_tokens ?s = wrap64 (0 + sum_list (map turnTokens (map (turn_at project) places)))"
    by (rule tally_tokens) (simp add: zero_tally_def)
  also have "sum_list (map turnTokens (map (turn_at project) places)) =
      (\<Sum>place\<in>selected. turnTokens (turn_at project place))"
    using p(1,2) by (simp add: sum_list_distinct_conv_sum_set o_def flip: p(2))
  finally have "ty_tokens ?s = wrap64 (\<Sum>place\<in>selected. turnTokens (turn_at project place))" by simp
  moreover have "finite selected" using p(2) by (metis List.finite_set)
  ultimately show ?thesis
    using c p(2) by (auto simp: tally_known tally_lower zero_tally_def)
qed

section \<open>Active time\<close>

definition covered :: "(int \<times> int) list \<Rightarrow> int set" where
  "covered rs = (\<Union>(s, e)\<in>set rs. {s..e})"

lemma covered_selected: "covered rs = set (selected_indexes rs)"
  unfolding selected_indexes_props(2) by (force simp: covered_def)

text \<open>Ranges in order with a gap between neighbours, so that no pair of neighbouring turns is in two of them.\<close>

fun apart :: "(int \<times> int) list \<Rightarrow> bool" where
  "apart ((s, e) # (s', e') # rs) \<longleftrightarrow> s \<le> e \<and> e + 1 < s' \<and> apart ((s', e') # rs)"
| "apart [(s, e)] \<longleftrightarrow> s \<le> e"
| "apart [] \<longleftrightarrow> True"

lemma merge_ranges_spec:
  assumes "s \<le> e" and "\<forall>(a, b)\<in>set rs. a \<le> b" and "sorted (map fst ((s, e) # rs))"
  shows "apart (merge_ranges (s, e) rs) \<and> covered (merge_ranges (s, e) rs) = covered ((s, e) # rs) \<and>
    (\<exists>e' ms. merge_ranges (s, e) rs = (s, e') # ms)"
  using assms
proof (induction rs arbitrary: s e)
  case (Cons r rs)
  obtain a b where r: "r = (a, b)" by (cases r)
  show ?case
  proof (cases "a \<le> e + 1")
    case True
    let ?e = "if b > e then b else e"
    have "apart (merge_ranges (s, ?e) rs) \<and> covered (merge_ranges (s, ?e) rs) = covered ((s, ?e) # rs) \<and>
        (\<exists>e' ms. merge_ranges (s, ?e) rs = (s, e') # ms)"
      by (rule Cons.IH) (use Cons.prems r in auto)
    moreover have "{s..?e} = {s..e} \<union> {a..b}" using True Cons.prems r by auto
    ultimately show ?thesis using True by (auto simp: r covered_def)
  next
    case False
    have "apart (merge_ranges (a, b) rs) \<and> covered (merge_ranges (a, b) rs) = covered ((a, b) # rs) \<and>
        (\<exists>e' ms. merge_ranges (a, b) rs = (a, e') # ms)"
      by (rule Cons.IH) (use Cons.prems r in auto)
    with False Cons.prems(1) show ?thesis by (auto simp: r covered_def)
  qed
qed (simp add: covered_def)

lemma sorted_fst: "sorted rs \<Longrightarrow> sorted (map fst (rs :: (int \<times> int) list))"
  by (induction rs) (auto simp: less_eq_prod_def)

text \<open>
  No active time is counted twice: the ranges whose active minutes are added up are the merged windows of a session.
  Together they hold exactly the turns of the windows, and they are in order with at least one turn
  between neighbours, so that no two of them share a turn or a pause between turns.
\<close>
theorem active_ranges_are_apart:
  "covered (merged_ranges (map_get (ranges_by_session sessions spans) key)) = {i. selects sessions spans key i} \<and>
   apart (merged_ranges (map_get (ranges_by_session sessions spans) key))"
proof -
  let ?rs = "map_get (ranges_by_session sessions spans) key"
  have ok: "\<forall>(a, b)\<in>set (sort ?rs). a \<le> b" using span_range_Some by (auto simp: set_map_get_ranges)
  have "covered (merged_ranges ?rs) = covered (sort ?rs) \<and> apart (merged_ranges ?rs)"
  proof (cases "sort ?rs")
    case (Cons r rs)
    obtain s e where r: "r = (s, e)" by (cases r)
    have "sorted (map fst ((s, e) # rs))" using sorted_fst [OF sorted_sort [of ?rs]] Cons r by simp
    with merge_ranges_spec [of s e rs] ok Cons r show ?thesis by (simp add: merged_ranges_def)
  qed (simp add: merged_ranges_def)
  moreover have "covered (sort ?rs) = {i. selects sessions spans key i}"
    using covered_selected [of ?rs] selected_iff [of _ sessions spans key] by (auto simp: covered_def)
  ultimately show ?thesis by simp
qed

end
