(* ===== verification/Issue_Tokens.thy ===== *)
theory Issue_Tokens
  imports Issue_Text
begin

text \<open>
  The words of a command line: the bounds on what the tokenizer returns, quoted words read back, and the part of a
  line that is taken for the verification command.
\<close>

section \<open>Bounds\<close>

definition token_ok :: "gostring \<Rightarrow> bool" where
  "token_ok t \<longleftrightarrow> t \<noteq> [] \<and> length t \<le> maxRepairCommandTokenBytes"

definition tokens_ok :: "gostring list \<Rightarrow> bool" where
  "tokens_ok ts \<longleftrightarrow> length ts \<le> maxRepairCommandTokens \<and> (\<forall>t\<in>set ts. token_ok t)"

lemma flush_token_ok: "flush_token ts current = Some ts' \<Longrightarrow> tokens_ok ts \<Longrightarrow> tokens_ok ts'"
  by (auto simp: flush_token_def tokens_ok_def token_ok_def split: if_splits)

lemma nonempty_tokens_iff: "nonempty_tokens ts = Some ts' \<longleftrightarrow> ts' = ts \<and> ts \<noteq> []"
  by (auto simp: nonempty_tokens_def)

lemma flushed_ok:
  "Option.bind (flush_token ts current) nonempty_tokens = Some out \<Longrightarrow> tokens_ok ts \<Longrightarrow> tokens_ok out \<and> out \<noteq> []"
  using flush_token_ok by (auto simp: nonempty_tokens_iff bind_eq_Some_conv)

lemma scan_tokens_ok:
  "scan_tokens q e ts current s = Some out \<Longrightarrow> tokens_ok ts \<Longrightarrow> tokens_ok out \<and> out \<noteq> []"
proof (induction q e ts current s rule: scan_tokens.induct)
  case (1 q e ts current)
  then show ?case using flushed_ok by (simp split: if_splits)
next
  case (2 q e ts current c cs)
  show ?case
  proof (cases "e \<or> q \<noteq> None \<or> c = CHR 0x5C \<or> c = CHR 0x27 \<or> c = CHR 0x22")
    case True
    then show ?thesis using 2 by (auto split: if_splits option.splits)
  next
    case False
    then have q: "\<not> e" "q = None" "c \<noteq> CHR 0x5C" "\<not> (c = CHR 0x27 \<or> c = CHR 0x22)" by auto
    let ?stop = "c \<in> {CHR 0x0A, CHR 0x0D, CHR '';'', CHR ''&'', CHR ''|''}"
    consider (stop) ?stop | (space) "\<not> ?stop" "c = CHR 0x20 \<or> c = CHR 0x09"
      | (other) "\<not> ?stop" "\<not> (c = CHR 0x20 \<or> c = CHR 0x09)" by blast
    then show ?thesis
    proof cases
      case stop
      with "2.prems"(1) q have "Option.bind (flush_token ts current) nonempty_tokens = Some out" by simp
      from flushed_ok [OF this "2.prems"(2)] show ?thesis .
    next
      case space
      with "2.prems"(1) q have
          "Option.bind (flush_token ts current) (\<lambda>ts'. scan_tokens None False ts' [] cs) = Some out"
        by (elim disjE) simp_all
      then obtain ts' where ts': "flush_token ts current = Some ts'" "scan_tokens None False ts' [] cs = Some out"
        by (cases "flush_token ts current") simp_all
      from 2(4) [OF q(1,2,3,4) space ts'(1,2)] flush_token_ok [OF ts'(1) "2.prems"(2)] show ?thesis by simp
    next
      case other
      with "2.prems"(1) q have o: "\<not> length (current @ [c]) > maxRepairCommandTokenBytes"
          "scan_tokens None False ts (current @ [c]) cs = Some out"
        by (auto split: if_splits)
      from 2(5) [OF q(1,2,3,4) other o "2.prems"(2)] show ?thesis .
    qed
  qed
qed

text \<open>
  C40. The tokenizer is bounded: what it returns is between one and sixty-four words, none of them empty and none
  longer than 1024 bytes, and it gives up on a line of more than 16384 bytes.
\<close>
theorem tokens_are_bounded:
  assumes "firstLogicalCommandTokens raw = Some tokens"
  shows "tokens \<noteq> [] \<and> length tokens \<le> 64 \<and> (\<forall>t\<in>set tokens. t \<noteq> [] \<and> length t \<le> 1024) \<and>
    length (trim_space raw) \<le> 16384"
proof -
  from assms have len: "length (trim_space raw) \<le> 16384"
      and scan: "scan_tokens None False [] [] (trim_space raw) = Some tokens"
    by (simp_all add: firstLogicalCommandTokens_def Let_def split: if_splits)
  from scan_tokens_ok [OF scan] len show ?thesis by (simp add: tokens_ok_def token_ok_def)
qed

section \<open>Quoted words\<close>

definition quoted :: "gostring \<Rightarrow> gostring" where
  "quoted w = CHR 0x27 # w @ [CHR 0x27]"

text \<open>A word that single quotes can hold, and what may follow the words of a command.\<close>

definition quotable :: "gostring \<Rightarrow> bool" where
  "quotable w \<longleftrightarrow> token_ok w \<and> CHR 0x27 \<notin> set w"

definition command_end :: "gostring \<Rightarrow> bool" where
  "command_end s \<longleftrightarrow> (case dropWhile (\<lambda>c. c = CHR 0x20 \<or> c = CHR 0x09) s of
     [] \<Rightarrow> True | c # cs \<Rightarrow> c \<in> {CHR 0x0A, CHR 0x0D, CHR '';'', CHR ''&'', CHR ''|''})"

lemma scan_inside_quotes:
  "CHR 0x27 \<notin> set w \<Longrightarrow>
    scan_tokens (Some (CHR 0x27)) False ts current (w @ CHR 0x27 # s) = scan_tokens None False ts (current @ w) s"
  by (induction w arbitrary: current) auto

lemma scan_quoted:
  "CHR 0x27 \<notin> set w \<Longrightarrow> scan_tokens None False ts [] (quoted w @ s) = scan_tokens None False ts w s"
  by (simp add: quoted_def scan_inside_quotes)

lemma flush_room:
  "token_ok w \<Longrightarrow> length ts < maxRepairCommandTokens \<Longrightarrow> flush_token ts w = Some (ts @ [w])"
  by (simp add: flush_token_def token_ok_def)

lemma scan_end_idle: "command_end s \<Longrightarrow> ts \<noteq> [] \<Longrightarrow> scan_tokens None False ts [] s = Some ts"
proof (induction s)
  case (Cons c s)
  then show ?case
    by (cases "c = CHR 0x20 \<or> c = CHR 0x09") (auto simp: command_end_def flush_token_def nonempty_tokens_def)
qed (simp add: flush_token_def nonempty_tokens_def)

lemma scan_end_word:
  assumes "command_end s" and "token_ok w" and "length ts < maxRepairCommandTokens"
  shows "scan_tokens None False ts w s = Some (ts @ [w])"
proof (cases s)
  case Nil
  with assms show ?thesis by (simp add: flush_room nonempty_tokens_def)
next
  case (Cons c cs)
  show ?thesis
  proof (cases "c = CHR 0x20 \<or> c = CHR 0x09")
    case True
    then have "scan_tokens None False ts w s = scan_tokens None False (ts @ [w]) [] cs"
      using Cons assms(2,3) by (auto simp: flush_room)
    moreover have "command_end cs" using assms(1) Cons True by (auto simp: command_end_def)
    ultimately show ?thesis by (simp add: scan_end_idle)
  next
    case False
    then show ?thesis using Cons assms by (auto simp: command_end_def flush_room nonempty_tokens_def)
  qed
qed

lemma scan_words:
  assumes "ws \<noteq> []" and "\<forall>w\<in>set ws. quotable w" and "length ts + length ws \<le> maxRepairCommandTokens"
    and "command_end s"
  shows "scan_tokens None False ts [] (join_with '' '' (map quoted ws) @ s) = Some (ts @ ws)"
  using assms
proof (induction ws arbitrary: ts)
  case (Cons w ws)
  then have w: "quotable w" "token_ok w" "CHR 0x27 \<notin> set w" by (auto simp: quotable_def)
  show ?case
  proof (cases ws)
    case Nil
    with Cons.prems w show ?thesis by (simp add: scan_quoted scan_end_word)
  next
    case (Cons v vs)
    let ?rest = "join_with '' '' (map quoted ws) @ s"
    have "join_with '' '' (map quoted (w # ws)) @ s = quoted w @ CHR 0x20 # ?rest" using Cons by simp
    then have "scan_tokens None False ts [] (join_with '' '' (map quoted (w # ws)) @ s) =
        scan_tokens None False ts w (CHR 0x20 # ?rest)"
      using w by (simp add: scan_quoted)
    also have "\<dots> = scan_tokens None False (ts @ [w]) [] ?rest"
      using w Cons.prems(3) by (simp add: flush_room)
    also have "\<dots> = Some ((ts @ [w]) @ ws)"
      by (rule Cons.IH) (use Cons Cons.prems in auto)
    finally show ?thesis by simp
  qed
qed simp

text \<open>
  C39. Quoting and reading are inverse: words of at most 1024 bytes without a single quote, at most sixty-four of them
  and at most 16384 bytes in all, are read back exactly from their line in single quotes, and whatever follows the
  end of the command, a line end or one of the operators, changes nothing.
\<close>
theorem quoted_words_are_read_back:
  assumes "words \<noteq> []" and "length words \<le> 64"
    and "\<forall>w\<in>set words. w \<noteq> [] \<and> length w \<le> 1024 \<and> CHR 0x27 \<notin> set w"
    and "command_end after" and "trim_space (join_with '' '' (map quoted words) @ after) = join_with '' '' (map quoted words) @ after"
    and "length (join_with '' '' (map quoted words) @ after) \<le> 16384"
  shows "firstLogicalCommandTokens (join_with '' '' (map quoted words) @ after) = Some words"
proof -
  let ?line = "join_with '' '' (map quoted words) @ after"
  have ne: "?line \<noteq> []" using assms(1) by (cases words; cases "tl words") (auto simp: quoted_def)
  have "\<forall>w\<in>set words. quotable w" using assms(3) by (simp add: quotable_def token_ok_def)
  from scan_words [OF assms(1) this, of "[]" after] assms(2,4) have "scan_tokens None False [] [] ?line = Some words"
    by simp
  with assms(5,6) ne show ?thesis unfolding firstLogicalCommandTokens_def Let_def by (simp only: if_False not_less) simp
qed

end
