(* ===== verification/Issue_Scope.thy ===== *)
theory Issue_Scope
  imports Issue_Model Traj_Derive
begin

text \<open>
  The scopes of a project (\<open>internal/detection/transcriptissues/scope.go\<close>): a project known by a local path
  is analyzed per repository its sessions worked in. The file system is a parameter, \<open>sv_stat\<close>, true where
  \<open>os.Stat\<close> finds something, and so is the path \<open>url.Parse\<close> reads from a URL.
\<close>

record scope_env =
  sv_stat :: "gostring \<Rightarrow> bool"
  sv_url_path :: "gostring \<Rightarrow> gostring option"

definition absolute_path :: "gostring \<Rightarrow> bool" where
  "absolute_path value \<longleftrightarrow> has_prefix value ''/''"

definition localPathIdentity :: "gostring \<Rightarrow> bool" where
  "localPathIdentity value \<longleftrightarrow> absolute_path (trim_space value)"

definition normalizedScopePath :: "scope_env \<Rightarrow> gostring \<Rightarrow> gostring" where
  "normalizedScopePath F value =
    (let value = trim_space value;
         value = (if has_prefix value ''file://'' then
             (case sv_url_path F value of None \<Rightarrow> value | Some path \<Rightarrow> path) else value) in
     if \<not> absolute_path value then [] else path_clean value)"

text \<open>\<open>filepath.Dir\<close>.\<close>

definition path_dir :: "gostring \<Rightarrow> gostring" where
  "path_dir path = path_clean (rev (dropWhile (\<lambda>c. c \<noteq> CHR ''/'') (rev path)))"

text \<open>The loop up the directories; None when the fuel runs out.\<close>

fun root_from :: "scope_env \<Rightarrow> nat \<Rightarrow> gostring \<Rightarrow> gostring \<Rightarrow> gostring option" where
  "root_from F 0 path current = None"
| "root_from F (Suc n) path current =
    (if sv_stat F (filepath_join current ''.git'') then Some current
     else
       let parent = path_dir current in
       if parent = current then Some path else root_from F n path parent)"

definition repositoryRoot :: "scope_env \<Rightarrow> gostring \<Rightarrow> gostring" where
  "repositoryRoot F path = (case root_from F (Suc (length path)) path path of None \<Rightarrow> path | Some r \<Rightarrow> r)"

definition transientScopePath :: "gostring \<Rightarrow> bool" where
  "transientScopePath path \<longleftrightarrow>
    path = ''/tmp'' \<or> has_prefix path ''/tmp/'' \<or> path = ''/private/tmp'' \<or> has_prefix path ''/private/tmp/'' \<or>
    has_prefix path ''/var/folders/'' \<or>
    list_ex (contains_text path) [''/.codex/'', ''/.agents/'', ''/.toolbox/'']"

text \<open>The repositories of the turns, one entry for every turn that counts.\<close>

definition scope_votes :: "scope_env \<Rightarrow> Turn list \<Rightarrow> gostring list" where
  "scope_votes F turns =
    filter (\<lambda>path. \<not> transientScopePath path)
      (map (repositoryRoot F)
        (filter (\<lambda>path. path \<noteq> []) (map (\<lambda>turn. normalizedScopePath F (pl_CWD (tn_Payload turn))) turns)))"

text \<open>
  The choice among the counted paths: the highest count, of several the least path. It does not depend on the order
  in which the map is ranged over, here that of the first votes.
\<close>

definition scope_step :: "gostring list \<Rightarrow> gostring \<Rightarrow> gostring \<times> int \<Rightarrow> gostring \<Rightarrow> gostring \<times> int" where
  "scope_step votes fallback best path = (case best of (p, n) \<Rightarrow>
     let count = int (count_list votes path) in
     if path = fallback \<and> card (set votes) > 1 then best
     else if count > n \<or> count = n \<and> path < p then (path, count) else best)"

definition best_scope :: "gostring list \<Rightarrow> gostring list \<Rightarrow> gostring \<Rightarrow> gostring" where
  "best_scope keys votes fallback = fst (foldl (scope_step votes fallback) ([], - 1) keys)"

definition sessionScopePath :: "scope_env \<Rightarrow> IssueSession \<Rightarrow> gostring \<Rightarrow> gostring" where
  "sessionScopePath F session fallback =
    (let votes = scope_votes F (ss_Turns session);
         normalized = normalizedScopePath F fallback;
         fallback = (if normalized = [] then ts_ProjectPath (ss_Metadata session) else normalized) in
     if votes = [] then fallback
     else let best = best_scope (remdups votes) votes fallback in if best = [] then fallback else best)"

definition scopedProject :: "preparedProject \<Rightarrow> (gostring \<times> IssueSession list) list \<Rightarrow> gostring \<Rightarrow> preparedProject" where
  "scopedProject project grouped scope =
    project\<lparr>pp_project := (pp_project project)\<lparr>ip_Path := scope\<rparr>,
      pp_scopeIdentity := ip_Identity (pp_project project) @
        (if scope \<noteq> ip_Path (pp_project project) then [CHR 0x00] @ scope else []),
      pp_sessions := map_get grouped scope\<rparr>"

definition scopedProjects :: "scope_env \<Rightarrow> preparedProject \<Rightarrow> preparedProject list" where
  "scopedProjects F project =
    (if \<not> localPathIdentity (ip_Identity (pp_project project)) then [project]
     else let grouped = group_by (\<lambda>s. sessionScopePath F s (ip_Path (pp_project project))) (pp_sessions project) in
       map (scopedProject project grouped) (sortedKeys grouped))"

end
