(* ===== verification/Time_Text.thy ===== *)
theory Time_Text
  imports Prelude
begin

text \<open>
  The calendar of \<open>time.Time\<close> in UTC, proleptic Gregorian: the day of an instant, its date, and its text
  in the layout \<open>time.RFC3339Nano\<close>. Instants are nanoseconds since the first of January of the year 1, a
  Monday.
\<close>

section \<open>Dates\<close>

abbreviation day_nanoseconds :: int where "day_nanoseconds \<equiv> 86400000000000"

definition day_of :: "time \<Rightarrow> int" where
  "day_of t = t div day_nanoseconds"

definition leap_year :: "int \<Rightarrow> bool" where
  "leap_year y \<longleftrightarrow> 4 dvd y \<and> (\<not> 100 dvd y \<or> 400 dvd y)"

text \<open>The year of a day and the day in the year, by cycles of 400, 100, 4 and one years.\<close>

definition year_of_day :: "int \<Rightarrow> int \<times> int" where
  "year_of_day d =
    (let n400 = d div 146097; r = d mod 146097;
         n100 = min 3 (r div 36524); r = r - n100 * 36524;
         n4 = r div 1461; r = r mod 1461;
         n1 = min 3 (r div 365)
     in (400 * n400 + 100 * n100 + 4 * n4 + n1 + 1, r - n1 * 365))"

fun month_of :: "int \<Rightarrow> int \<Rightarrow> int list \<Rightarrow> int \<times> int" where
  "month_of m d [] = (m, d + 1)"
| "month_of m d (n # ns) = (if d < n then (m, d + 1) else month_of (m + 1) (d - n) ns)"

definition date_of_day :: "int \<Rightarrow> int \<times> int \<times> int" where
  "date_of_day d =
    (case year_of_day d of (y, yday) \<Rightarrow>
       (y, month_of 1 yday [31, if leap_year y then 29 else 28, 31, 30, 31, 30, 31, 31, 30, 31, 30]))"

text \<open>\<open>Weekday\<close>: Sunday is 0.\<close>

definition weekday :: "time \<Rightarrow> int" where
  "weekday t = (day_of t + 1) mod 7"

text \<open>\<open>AddDate\<close> of days alone.\<close>

definition add_days :: "time \<Rightarrow> int \<Rightarrow> time" where
  "add_days t n = t + n * day_nanoseconds"

section \<open>Texts\<close>

definition padded :: "nat \<Rightarrow> int \<Rightarrow> gostring" where
  "padded width n = replicate (width - length (itoa n)) (CHR ''0'') @ itoa n"

definition year_text :: "int \<Rightarrow> gostring" where
  "year_text y = (if y < 0 then CHR ''-'' # padded 4 (- y) else padded 4 y)"

text \<open>The fraction of a second, without trailing zeros.\<close>

definition fraction_text :: "int \<Rightarrow> gostring" where
  "fraction_text n =
    (if n = 0 then []
     else CHR ''.'' # rev (dropWhile (\<lambda>c. c = CHR ''0'') (rev (padded 9 n))))"

definition rfc3339_nano :: "time \<Rightarrow> gostring" where
  "rfc3339_nano t =
    (case date_of_day (day_of t) of (y, m, d) \<Rightarrow>
       let s = t mod day_nanoseconds div 1000000000 in
       year_text y @ ''-'' @ padded 2 m @ ''-'' @ padded 2 d @ ''T'' @
       padded 2 (s div 3600) @ '':'' @ padded 2 (s div 60 mod 60) @ '':'' @ padded 2 (s mod 60) @
       fraction_text (t mod 1000000000) @ ''Z'')"

text \<open>Two known instants: the zero instant, and the last nanosecond of a leap day.\<close>

lemma rfc3339_zero: "rfc3339_nano 0 = ''0001-01-01T00:00:00Z''"
  by code_simp

lemma rfc3339_leap_day:
  "rfc3339_nano (63844848000000000000 - 1) = ''2024-02-29T23:59:59.999999999Z''"
  by (simp add: rfc3339_nano_def date_of_day_def year_of_day_def day_of_def leap_year_def year_text_def padded_def
    fraction_text_def itoa_def nat_digits.simps char_of_def bit_0)

lemma weekday_leap_day: "weekday (63844848000000000000 - 1) = 4"
  by code_simp

end
