(* ===== verification/Issue_Conversation.thy ===== *)
theory Issue_Conversation
  imports Issue_Model Time_Text
begin

text \<open>
  Detectors over what is said (\<open>internal/detection/transcriptissues/conversation_detectors.go\<close>): corrections
  the user repeats, completion claimed without a verification, sessions that start cold, context compacted before
  a verification succeeds.
\<close>

abbreviation coldStartSharePercent :: int where "coldStartSharePercent \<equiv> 15"

section \<open>Places in a session\<close>

text \<open>The first index with a property, -1 when there is none.\<close>

definition first_index :: "(nat \<Rightarrow> bool) \<Rightarrow> nat list \<Rightarrow> int" where
  "first_index P is = (case find P is of None \<Rightarrow> - 1 | Some i \<Rightarrow> int i)"

text \<open>The indexes of a half-open range clamped to the turns.\<close>

definition index_range :: "Turn list \<Rightarrow> int \<Rightarrow> int \<Rightarrow> nat list" where
  "index_range turns start till = [nat start..<min (nat till) (length turns)]"

definition conversationCompletionClaims :: "Turn list \<Rightarrow> nat list" where
  "conversationCompletionClaims turns =
    (let lastAssistant = filter (\<lambda>i. tn_Role (turns ! i) = RoleAssistant) [0..<length turns];
         closing = (if lastAssistant \<noteq> [] \<and> isCompletionClaim (turns ! last lastAssistant)
           then [last lastAssistant] else []) in
     closing @ filter (\<lambda>i. tn_Role (turns ! (i + 1)) = RoleCompactionSummary \<and> isCompletionClaim (turns ! i) \<and>
         i \<notin> set closing) [0..<length turns - 1])"

definition conversationTaskPhaseStart :: "Turn list \<Rightarrow> int \<Rightarrow> int" where
  "conversationTaskPhaseStart turns till =
    first_index (\<lambda>i. tn_Role (turns ! i) = RoleUser \<and> \<not> isApprovalText (pl_Text (tn_Payload (turns ! i))))
      (rev (index_range turns 0 till)) + 1"

definition conversationLastEditBetween :: "text_env \<Rightarrow> Turn list \<Rightarrow> int \<Rightarrow> int \<Rightarrow> int" where
  "conversationLastEditBetween E turns start till =
    first_index (\<lambda>i. editedFiles E (turns ! i) \<noteq> []) (rev (index_range turns start till))"

definition conversationHasVerificationBetween ::
    "text_env \<Rightarrow> Turn list \<Rightarrow> int \<Rightarrow> int \<Rightarrow> ProjectConfig \<Rightarrow> bool" where
  "conversationHasVerificationBetween E turns start till config =
    list_ex (\<lambda>i. isVerificationTurn E config (turns ! i)) (index_range turns start till)"

definition conversationFirstVerification :: "text_env \<Rightarrow> Turn list \<Rightarrow> int \<Rightarrow> ProjectConfig \<Rightarrow> int" where
  "conversationFirstVerification E turns start config =
    first_index (\<lambda>i. isVerificationTurn E config (turns ! i)) (index_range turns start (int (length turns)))"

text \<open>Whether a turn succeeded, when it is known.\<close>

definition conversationTurnSucceeded :: "text_env \<Rightarrow> Turn \<Rightarrow> bool option" where
  "conversationTurnSucceeded E turn =
    (let p = tn_Payload turn in
     if pl_ToolIsError p = Some True then Some False
     else if (case pl_ExitCode p of None \<Rightarrow> False | Some code \<Rightarrow> code \<noteq> 0) then Some False
     else if pl_ToolIsError p \<noteq> None \<or> pl_ExitCode p \<noteq> None then Some True
     else if trim_space (pl_ToolResult p) \<noteq> [] then Some (\<not> turnFailed E turn)
     else None)"

text \<open>The result that answers a verification call, before the user speaks again.\<close>

definition answers_call :: "Turn \<Rightarrow> Turn \<Rightarrow> bool" where
  "answers_call turn candidate \<longleftrightarrow>
    (let callID = trim_space (pl_ToolCallID (tn_Payload turn));
         resultID = trim_space (pl_ToolCallID (tn_Payload candidate)) in
     tn_Role candidate = RoleToolResult \<and>
     \<not> (callID \<noteq> [] \<and> resultID \<noteq> callID) \<and>
     \<not> (callID = [] \<and> tn_ToolName candidate \<noteq> [] \<and> tn_ToolName turn \<noteq> [] \<and> tn_ToolName candidate \<noteq> tn_ToolName turn))"

definition conversationVerificationSucceeded :: "text_env \<Rightarrow> Turn list \<Rightarrow> nat \<Rightarrow> bool" where
  "conversationVerificationSucceeded E turns index =
    (let turn = turns ! index in
     case conversationTurnSucceeded E turn of
       Some succeeded \<Rightarrow> succeeded
     | None \<Rightarrow>
         if tn_Role turn \<noteq> RoleToolCall then False
         else
           (case find (answers_call turn) (takeWhile (\<lambda>t. tn_Role t \<noteq> RoleUser) (drop (Suc index) turns)) of
              None \<Rightarrow> False
            | Some candidate \<Rightarrow> conversationTurnSucceeded E candidate = Some True))"

definition conversationHasSuccessfulVerification ::
    "text_env \<Rightarrow> Turn list \<Rightarrow> int \<Rightarrow> ProjectConfig \<Rightarrow> bool" where
  "conversationHasSuccessfulVerification E turns start config =
    list_ex (\<lambda>i. isVerificationTurn E config (turns ! i) \<and> conversationVerificationSucceeded E turns i)
      (index_range turns start (int (length turns)))"

definition commands_or_edits :: "text_env \<Rightarrow> Turn \<Rightarrow> bool" where
  "commands_or_edits E turn \<longleftrightarrow> commandInfo E no_config turn \<noteq> None \<or> editedFiles E turn \<noteq> []"

definition conversationFirstCommandOrEdit :: "text_env \<Rightarrow> Turn list \<Rightarrow> int" where
  "conversationFirstCommandOrEdit E turns =
    first_index (\<lambda>i. commands_or_edits E (turns ! i)) [0..<length turns]"

text \<open>The complaint a session opens with, and the end of the phase before the first command or edit.\<close>

definition conversationOpeningComplaint :: "text_env \<Rightarrow> IssueSession \<Rightarrow> (nat \<times> int) option" where
  "conversationOpeningComplaint E session =
    (let turns = ss_Turns session;
         boundary = (let b = conversationFirstCommandOrEdit E turns in if b < 0 then int (length turns) else b);
         firstUser = first_index (\<lambda>i. tn_Role (turns ! i) = RoleUser) [0..<nat boundary] in
     if firstUser < 0 \<or> correctionMarker E (pl_Text (tn_Payload (turns ! nat firstUser))) = [] then None
     else Some (nat firstUser, if boundary - 1 < firstUser then firstUser else boundary - 1))"

definition conversationFirstAssistant :: "Turn list \<Rightarrow> int \<Rightarrow> int \<Rightarrow> int" where
  "conversationFirstAssistant turns start till =
    first_index (\<lambda>i. tn_Role (turns ! i) = RoleAssistant) (index_range turns start (till + 1))"

section \<open>Excerpts and times\<close>

fun excerpts_at :: "text_env \<Rightarrow> Turn list \<Rightarrow> int set \<Rightarrow> Excerpt list \<Rightarrow> int list \<Rightarrow> Excerpt list" where
  "excerpts_at E turns seen found [] = found"
| "excerpts_at E turns seen found (i # is) =
    (if i < 0 \<or> i \<ge> int (length turns) \<or> i \<in> seen \<or> length found = maxExcerpts
     then excerpts_at E turns seen found is
     else
       let excerpt = excerptFromTurn E (turns ! nat i) in
       if trim_space (xc_Text excerpt) = [] then excerpts_at E turns (insert i seen) found is
       else excerpts_at E turns (insert i seen) (found @ [excerpt]) is)"

definition conversationExcerpts :: "text_env \<Rightarrow> Turn list \<Rightarrow> int list \<Rightarrow> Excerpt list" where
  "conversationExcerpts E turns indexes = excerpts_at E turns {} [] indexes"

definition conversationExcerptKey :: "Excerpt \<Rightarrow> gostring" where
  "conversationExcerptKey value =
    ic_SessionKey (xc_Citation value) @ [CHR 0x00] @ rfc3339_nano (ic_OccurredAt (xc_Citation value)) @ [CHR 0x00] @
    xc_Text value"

definition append_said :: "Excerpt list \<Rightarrow> Excerpt \<Rightarrow> Excerpt list" where
  "append_said found value =
    (if trim_space (xc_Text value) = [] \<or> conversationExcerptKey value \<in> set (map conversationExcerptKey found) \<or>
       length found = maxExcerpts
     then found else found @ [value])"

definition conversationMergeExcerpts :: "Excerpt list \<Rightarrow> Excerpt list \<Rightarrow> Excerpt list" where
  "conversationMergeExcerpts existing values = foldl append_said [] (existing @ values)"

definition conversationWindowBounds :: "preparedProject \<Rightarrow> IssueSession \<Rightarrow> int \<Rightarrow> int \<Rightarrow> time \<times> time" where
  "conversationWindowBounds project session start till =
    (let turns = ss_Turns session; start = clamp_start start; till = clamp_end turns till;
         (first, latest) = (if start \<le> till \<and> start < int (length turns)
           then observedBounds (window turns start till) else (time_zero, time_zero));
         first = (if first = time_zero then ts_StartedAt (ss_Metadata session) else first);
         first = (if first = time_zero then pp_now project else first);
         latest = (if latest = time_zero then ts_EndedAt (ss_Metadata session) else latest);
         latest = (if latest = time_zero \<or> latest < first then first else latest)
     in (first, latest))"

definition conversationOccurredAt :: "preparedProject \<Rightarrow> IssueSession \<Rightarrow> int \<Rightarrow> time" where
  "conversationOccurredAt project session index =
    (let turns = ss_Turns session in
     if index \<ge> 0 \<and> index < int (length turns) \<and> tn_OccurredAt (turns ! nat index) \<noteq> time_zero
     then tn_OccurredAt (turns ! nat index)
     else if ts_EndedAt (ss_Metadata session) \<noteq> time_zero then ts_EndedAt (ss_Metadata session)
     else if ts_StartedAt (ss_Metadata session) \<noteq> time_zero then ts_StartedAt (ss_Metadata session)
     else pp_now project)"

section \<open>Repeated corrections\<close>

definition conversationCorrectionFingerprint :: "text_env \<Rightarrow> gostring \<Rightarrow> gostring" where
  "conversationCorrectionFingerprint E text =
    (let normalized = lower_of E (collapse_spaces (trim_space text));
         normalized = replace_all tempPathPattern ''<tmp>'' normalized;
         normalized = replace_all absolutePathPattern ''<path>'' normalized;
         normalized = replace_all hashPattern ''<hash>'' normalized;
         normalized = replace_all numberPattern ''<n>'' normalized
     in ''correction-'' @ te_hash E normalized)"

text \<open>The cut counts bytes.\<close>

definition conversationCorrectionSubject :: "gostring \<Rightarrow> gostring" where
  "conversationCorrectionSubject text =
    (let text = collapse_spaces (trim_space text);
         text = (if length text > 96 then trim_space (take 96 text) @ ''...'' else text)
     in [CHR 0x22] @ text @ [CHR 0x22])"

definition said_fix :: "preparedProject \<Rightarrow> gostring \<Rightarrow> gostring \<Rightarrow> SuggestedFix" where
  "said_fix project kind rationale =
    \<lparr>sf_Kind = kind, sf_TargetFile = instructionTarget project, sf_Rationale = rationale\<rparr>"

text \<open>What every observation over a window of a session has.\<close>

definition saidObservation ::
    "preparedProject \<Rightarrow> IssueSession \<Rightarrow> gostring \<Rightarrow> gostring \<Rightarrow> gostring \<Rightarrow> int \<times> int \<Rightarrow> time \<times> time \<Rightarrow> int \<Rightarrow>
      Excerpt list \<Rightarrow> SuggestedFix \<Rightarrow> observation" where
  "saidObservation project session detector fingerprint subject w bounds occurred excerpts suggestion =
    (let turns = ss_Turns session in
     \<lparr>ob_detectorID = detector, ob_fingerprint = fingerprint, ob_subject = subject,
      ob_cost = windowCost turns (fst w) (snd w), ob_costSpans = [windowSpan session (fst w) (snd w)],
      ob_timeSpans = [], ob_session = sessionRef session, ob_firstSeen = fst bounds, ob_lastSeen = snd bounds,
      ob_occurredAt = conversationOccurredAt project session occurred, ob_excerpts = excerpts, ob_fix = suggestion\<rparr>)"

definition correctionCandidateOf :: "text_env \<Rightarrow> preparedProject \<Rightarrow> Turn \<Rightarrow> CorrectionCandidate option" where
  "correctionCandidateOf E project turn =
    (let text = trim_space (pl_Text (tn_Payload turn)); marker = correctionMarker E text;
         shortTurn = wordCount E text < 40 in
     if tn_Role turn \<noteq> RoleUser \<or> text = [] \<or> \<not> shortTurn \<and> marker = [] then None
     else Some \<lparr>cc_CandidateID = candidateID E (ip_Identity (pp_project project)) turn, cc_Project = pp_project project,
       cc_Citation = xc_Citation (excerptFromTurn E turn), cc_Text = text, cc_Marker = marker,
       cc_ShortTurn = shortTurn, cc_OccurredAt = tn_OccurredAt turn\<rparr>)"

definition correctionObservation ::
    "text_env \<Rightarrow> preparedProject \<Rightarrow> IssueSession \<Rightarrow> nat \<Rightarrow> CorrectionCandidate \<Rightarrow> observation list" where
  "correctionObservation E project session turnIndex candidate =
    (let turns = ss_Turns session; i = int turnIndex; text = cc_Text candidate in
     if cc_Marker candidate = [] \<or> turnIndex = 0 \<or> tn_Role (turns ! (turnIndex - 1)) \<noteq> RoleAssistant then []
     else [saidObservation project session DetectorRepeatedCorrection (conversationCorrectionFingerprint E text)
       (conversationCorrectionSubject text) (i - 1, i) (conversationWindowBounds project session (i - 1) i) i
       (conversationExcerpts E turns [i - 1, i, i + 1])
       (said_fix project ''instruction'' ''Record the recurring correction as a durable project instruction.'')])"

definition sessionCandidates ::
    "text_env \<Rightarrow> preparedProject \<Rightarrow> IssueSession \<Rightarrow> (nat \<times> CorrectionCandidate) list" where
  "sessionCandidates E project session =
    concat (map (\<lambda>(i, turn). case correctionCandidateOf E project turn of None \<Rightarrow> [] | Some c \<Rightarrow> [(i, c)])
      (enumerate 0 (ss_Turns session)))"

definition detectRepeatedCorrections ::
    "text_env \<Rightarrow> preparedProject \<Rightarrow> observation list \<times> CorrectionCandidate list" where
  "detectRepeatedCorrections E project =
    (concat (map (\<lambda>session. concat (map (\<lambda>(i, c). correctionObservation E project session i c)
       (sessionCandidates E project session))) (pp_sessions project)),
     concat (map (\<lambda>session. map snd (sessionCandidates E project session)) (pp_sessions project)))"

section \<open>Completion without verification\<close>

text \<open>The claims of a session that no verification precedes after the last edit of their task.\<close>

definition unverifiedClaims :: "text_env \<Rightarrow> ProjectConfig \<Rightarrow> Turn list \<Rightarrow> (int \<times> int) list" where
  "unverifiedClaims E config turns =
    filter (\<lambda>(lastEdit, claim). \<not> (lastEdit < 0 \<or> conversationHasVerificationBetween E turns (lastEdit + 1) claim config))
      (map (\<lambda>claim. (conversationLastEditBetween E turns (conversationTaskPhaseStart turns (int claim)) (int claim),
        int claim)) (conversationCompletionClaims turns))"

definition doneObservation ::
    "text_env \<Rightarrow> preparedProject \<Rightarrow> IssueSession \<Rightarrow> int \<times> int \<Rightarrow> observation" where
  "doneObservation E project session claimed = (case claimed of (lastEdit, claim) \<Rightarrow>
     let turns = ss_Turns session; bounds = conversationWindowBounds project session lastEdit claim;
         compacted = claim + 1 < int (length turns) \<and> tn_Role (turns ! nat (claim + 1)) = RoleCompactionSummary;
         latest = (if compacted then snd (conversationWindowBounds project session lastEdit (claim + 1))
           else snd bounds) in
     saidObservation project session DetectorDoneWithoutVerification ''completion-claim-without-verification''
       ''completion'' (lastEdit, claim) (fst bounds, latest) claim
       (conversationExcerpts E turns ([lastEdit, claim] @ (if compacted then [claim + 1] else [])))
       (said_fix project ''workflow''
         ''Require a recognized verification command after the final edit before claiming completion.''))"

definition doneObservations :: "text_env \<Rightarrow> preparedProject \<Rightarrow> (nat \<times> observation) list" where
  "doneObservations E project =
    concat (map (\<lambda>(i, session). map (\<lambda>claimed. (i, doneObservation E project session claimed))
        (unverifiedClaims E (pp_config project) (ss_Turns session)))
      (enumerate 0 (pp_sessions project)))"

text \<open>The observation of an earlier session that occurred last, of several the first.\<close>

definition target_step :: "nat \<Rightarrow> (nat \<times> observation) list \<Rightarrow> nat option \<Rightarrow> nat \<Rightarrow> nat option" where
  "target_step sessionIndex detected target index =
    (if fst (detected ! index) \<ge> sessionIndex then target
     else case target of
       None \<Rightarrow> Some index
     | Some t \<Rightarrow>
         if ob_occurredAt (snd (detected ! index)) > ob_occurredAt (snd (detected ! t)) then Some index else target)"

definition complaintTarget :: "nat \<Rightarrow> (nat \<times> observation) list \<Rightarrow> nat option" where
  "complaintTarget sessionIndex detected = foldl (target_step sessionIndex detected) None [0..<length detected]"

definition add_complaint ::
    "text_env \<Rightarrow> preparedProject \<Rightarrow> IssueSession \<Rightarrow> nat \<times> int \<Rightarrow> observation \<Rightarrow> observation" where
  "add_complaint E project session complaint ob = (case complaint of (complaintIndex, phaseEnd) \<Rightarrow>
     let turns = ss_Turns session; occurred = conversationOccurredAt project session phaseEnd in
     ob\<lparr>ob_excerpts := conversationMergeExcerpts (ob_excerpts ob) (conversationExcerpts E turns
          [int complaintIndex, conversationFirstAssistant turns (int complaintIndex + 1) phaseEnd]),
        ob_lastSeen := (if occurred > ob_lastSeen ob then occurred else ob_lastSeen ob)\<rparr>)"

definition complaint_step ::
    "text_env \<Rightarrow> preparedProject \<Rightarrow> (nat \<times> observation) list \<Rightarrow> nat \<times> IssueSession \<Rightarrow> (nat \<times> observation) list" where
  "complaint_step E project detected item = (case item of (sessionIndex, session) \<Rightarrow>
     case conversationOpeningComplaint E session of
       None \<Rightarrow> detected
     | Some complaint \<Rightarrow>
         (case complaintTarget sessionIndex detected of
            None \<Rightarrow> detected
          | Some t \<Rightarrow> detected[t := (fst (detected ! t), add_complaint E project session complaint (snd (detected ! t)))]))"

definition detectDoneWithoutVerification :: "text_env \<Rightarrow> preparedProject \<Rightarrow> observation list" where
  "detectDoneWithoutVerification E project =
    map snd (foldl (complaint_step E project) (doneObservations E project) (enumerate 0 (pp_sessions project)))"

section \<open>Cold starts\<close>

record coldStart =
  cs_session :: IssueSession
  cs_prefixEnd :: int
  cs_boundaryIndex :: int
  cs_cost :: IssueCost

definition coldStartOf :: "text_env \<Rightarrow> IssueSession \<Rightarrow> coldStart option" where
  "coldStartOf E session =
    (let turns = ss_Turns session; boundary = conversationFirstCommandOrEdit E turns;
         prefixEnd = (if boundary < 0 then int (length turns) - 1 else boundary - 1) in
     if prefixEnd < 0 then None
     else Some \<lparr>cs_session = session, cs_prefixEnd = prefixEnd, cs_boundaryIndex = boundary,
       cs_cost = windowCost turns 0 prefixEnd\<rparr>)"

definition coldStarts :: "text_env \<Rightarrow> preparedProject \<Rightarrow> coldStart list" where
  "coldStarts E project =
    concat (map (\<lambda>session. case coldStartOf E session of None \<Rightarrow> [] | Some s \<Rightarrow> [s]) (pp_sessions project))"

definition add_usd :: "float64 \<Rightarrow> float64 option \<Rightarrow> float64" where
  "add_usd acc usd = (case usd of None \<Rightarrow> acc | Some v \<Rightarrow> float_add acc v)"

definition percent :: "int \<Rightarrow> int \<Rightarrow> bool" where
  "percent cold all_of \<longleftrightarrow> wrap64 (cold * 100) > wrap64 (all_of * coldStartSharePercent)"

definition conversationOverShare :: "int \<times> int \<Rightarrow> int \<times> int \<Rightarrow> float64 \<times> float64 \<Rightarrow> bool" where
  "conversationOverShare turns tokens usd =
    (let (coldTurns, totalTurns) = turns; (coldTokens, totalTokens) = tokens; (coldUSD, totalUSD) = usd in
     if float_less (FloatFinite 0) totalUSD then
       float_less (float_mul totalUSD (float_of_int coldStartSharePercent)) (float_mul coldUSD (float_of_int 100))
     else if totalTokens > 0 then percent coldTokens totalTokens
     else totalTurns > 0 \<and> percent coldTurns totalTurns)"

definition coldShare :: "text_env \<Rightarrow> preparedProject \<Rightarrow> bool" where
  "coldShare E project =
    (let starts = coldStarts E project; turns = concat (map ss_Turns (pp_sessions project)) in
     conversationOverShare
       (sum_list (map (\<lambda>s. cs_prefixEnd s + 1) starts), int (length turns))
       (foldl (\<lambda>acc s. wrap64 (acc + ct_WastedTokens (cs_cost s))) 0 starts,
        foldl (\<lambda>acc turn. wrap64 (acc + turnTokens turn)) 0 turns)
       (foldl (\<lambda>acc s. add_usd acc (ct_WastedUSD (cs_cost s))) (FloatFinite 0) starts,
        foldl (\<lambda>acc turn. add_usd acc (tn_CostUSD turn)) (FloatFinite 0) turns))"

definition coldObservation :: "text_env \<Rightarrow> preparedProject \<Rightarrow> coldStart \<Rightarrow> observation" where
  "coldObservation E project start =
    (let session = cs_session start; boundary = cs_boundaryIndex start in
     saidObservation project session DetectorColdStartCost ''project-cold-start'' ''project startup''
       (0, cs_prefixEnd start) (conversationWindowBounds project session 0 (cs_prefixEnd start))
       (if boundary \<ge> 0 then boundary else cs_prefixEnd start)
       (conversationExcerpts E (ss_Turns session)
         ([0, cs_prefixEnd start] @ (if boundary \<ge> 0 then [boundary] else [])))
       (said_fix project ''instruction'' ''Persist the project commands and orientation needed to begin useful work.''))"

definition coldStartsReported :: "text_env \<Rightarrow> preparedProject \<Rightarrow> bool" where
  "coldStartsReported E project \<longleftrightarrow> \<not> (length (coldStarts E project) < 5 \<or> \<not> coldShare E project)"

definition detectColdStartCost :: "text_env \<Rightarrow> preparedProject \<Rightarrow> observation list" where
  "detectColdStartCost E project =
    (if coldStartsReported E project then map (coldObservation E project) (coldStarts E project) else [])"

section \<open>Compaction before completion\<close>

definition qualifyingCompactions :: "text_env \<Rightarrow> ProjectConfig \<Rightarrow> Turn list \<Rightarrow> nat list" where
  "qualifyingCompactions E config turns =
    filter (\<lambda>i. tn_Role (turns ! i) = RoleCompactionSummary \<and>
      \<not> conversationHasSuccessfulVerification E turns (int i + 1) config) [0..<length turns]"

text \<open>Only the last compaction of a session carries a cost.\<close>

definition compactionObservation ::
    "text_env \<Rightarrow> preparedProject \<Rightarrow> IssueSession \<Rightarrow> bool \<Rightarrow> nat \<Rightarrow> observation" where
  "compactionObservation E project session costed turnIndex =
    (let turns = ss_Turns session; i = int turnIndex; till = int (length turns) - 1;
         verification = conversationFirstVerification E turns (i + 1) (pp_config project);
         ob = saidObservation project session DetectorCompactionBeforeCompletion
           ''compaction-without-successful-verification'' ''context compaction'' (i, till)
           (conversationWindowBounds project session i till) i
           (conversationExcerpts E turns ([i - 1, i] @ (if verification \<ge> 0 then [verification] else []) @ [till]))
           (said_fix project ''workflow''
             ''Preserve a concrete verification checkpoint across compaction and run it before ending the session.'')
     in if costed then ob else ob\<lparr>ob_cost := zero_cost, ob_costSpans := []\<rparr>)"

definition sessionCompactions :: "text_env \<Rightarrow> preparedProject \<Rightarrow> IssueSession \<Rightarrow> observation list" where
  "sessionCompactions E project session =
    (let qualifying = qualifyingCompactions E (pp_config project) (ss_Turns session) in
     map (\<lambda>(k, i). compactionObservation E project session (k = length qualifying - 1) i)
       (enumerate 0 qualifying))"

definition detectCompactionBeforeCompletion :: "text_env \<Rightarrow> preparedProject \<Rightarrow> observation list" where
  "detectCompactionBeforeCompletion E project = concat (map (sessionCompactions E project) (pp_sessions project))"

end
