(* ===== verification/Issue_Engine.thy ===== *)
theory Issue_Engine
  imports Issue_Scope Issue_Command Issue_Conversation "HOL-Library.AList"
begin

text \<open>
  The analysis of a project (\<open>internal/detection/transcriptissues/engine.go\<close>): its sessions validated and
  ordered, the detectors run one after the other, their observations grouped into issues.
\<close>

section \<open>Preparation\<close>

datatype issue_error = ProjectInvalid | SessionInvalid | TurnLimit | ContextDone ctx_error

text \<open>A poll before every thirty-second session.\<close>

definition sweep_poll :: "nat \<Rightarrow> ctx \<Rightarrow> ctx_error option \<times> ctx" where
  "sweep_poll index c = (if index mod 32 \<noteq> 0 then (None, c) else ctx_poll c)"

definition ordered_turns :: "Turn list \<Rightarrow> Turn list" where
  "ordered_turns turns = sort_key (\<lambda>t. (tn_TurnIndex t, tn_OccurredAt t, tn_TurnID t)) turns"

fun prepare_sessions ::
    "gostring \<Rightarrow> nat \<Rightarrow> nat \<Rightarrow> IssueSession list \<Rightarrow> IssueSession list \<Rightarrow> ctx \<Rightarrow>
      (issue_error + IssueSession list) \<times> ctx" where
  "prepare_sessions identity index turn_count prepared [] c = (Inr prepared, c)"
| "prepare_sessions identity index turn_count prepared (session # sessions) c =
    (case sweep_poll index c of
       (Some e, c) \<Rightarrow> (Inl (ContextDone e), c)
     | (None, c) \<Rightarrow>
         if ts_SessionKey (ss_Metadata session) = [] \<or> ts_ProjectIdentity (ss_Metadata session) \<noteq> identity
         then (Inl SessionInvalid, c)
         else
           let turns = ordered_turns (ss_Turns session); turn_count = turn_count + length turns in
           if turn_count > maxProjectTurns then (Inl TurnLimit, c)
           else prepare_sessions identity (Suc index) turn_count
             (prepared @ [\<lparr>ss_Metadata = ss_Metadata session, ss_Turns = turns\<rparr>]) sessions c)"

definition session_key_of :: "IssueSession \<Rightarrow> time \<times> gostring" where
  "session_key_of s = (ts_StartedAt (ss_Metadata s), ts_SessionKey (ss_Metadata s))"

definition prepareProject :: "ProjectInput \<Rightarrow> ctx \<Rightarrow> (issue_error + preparedProject) \<times> ctx" where
  "prepareProject input c =
    (let project = \<lparr>ip_Identity = trim_space (ip_Identity (pi_Project input)),
           ip_Path = trim_space (ip_Path (pi_Project input))\<rparr> in
     if ip_Identity project = [] \<or> pi_Now input = time_zero then (Inl ProjectInvalid, c)
     else case prepare_sessions (ip_Identity project) 0 0 [] (pi_Sessions input) c of
       (Inl e, c) \<Rightarrow> (Inl e, c)
     | (Inr sessions, c) \<Rightarrow>
         (Inr \<lparr>pp_project = project, pp_scopeIdentity = ip_Identity project, pp_config = pi_Config input,
            pp_sessions = sort_key session_key_of sessions, pp_now = pi_Now input\<rparr>, c))"

section \<open>Detectors\<close>

text \<open>The orders in which the maps of one scope are ranged over.\<close>

record scope_orders =
  so_retry :: "nat \<Rightarrow> key_order"
  so_recurring :: key_order
  so_permission :: key_order
  so_thrash :: "nat \<Rightarrow> key_order"
  so_groups :: key_order
  so_cost :: "gostring \<Rightarrow> nat \<Rightarrow> key_order"

fun polls :: "nat \<Rightarrow> ctx \<Rightarrow> ctx_error option \<times> ctx" where
  "polls 0 c = (None, c)"
| "polls (Suc n) c = (case ctx_poll c of (Some e, c) \<Rightarrow> (Some e, c) | (None, c) \<Rightarrow> polls n c)"

definition sweep :: "'a list \<Rightarrow> nat" where
  "sweep xs = (length xs + 31) div 32"

definition turn_sweeps :: "preparedProject \<Rightarrow> nat" where
  "turn_sweeps project = sum_list (map (\<lambda>s. (length (ss_Turns s) + 255) div 256) (pp_sessions project))"

text \<open>How often a detector polls when it runs to its end.\<close>

definition done_polls :: "preparedProject \<Rightarrow> nat" where
  "done_polls project = 1 + 2 * sweep (pp_sessions project)"

definition cold_polls :: "text_env \<Rightarrow> preparedProject \<Rightarrow> nat" where
  "cold_polls E project =
    1 + sweep (pp_sessions project) + (if coldStartsReported E project then sweep (coldStarts E project) else 0)"

definition turn_polls :: "preparedProject \<Rightarrow> nat" where
  "turn_polls project = 1 + sweep (pp_sessions project) + turn_sweeps project"

text \<open>The detectors in the order of the engine, each with its polls and its observations.\<close>

definition detectors :: "text_env \<Rightarrow> scope_orders \<Rightarrow> preparedProject \<Rightarrow> (nat \<times> observation list) list" where
  "detectors E orders project =
    [(sweep (pp_sessions project), detectRetryLoops E (so_retry orders) project),
     (sweep (pp_sessions project), detectRecurringErrors E (so_recurring orders) project),
     (done_polls project, detectDoneWithoutVerification E project),
     (sweep (pp_sessions project), detectPermissionChurn E (so_permission orders) project),
     (cold_polls E project, detectColdStartCost E project),
     (sweep (pp_sessions project), detectFileThrash E (so_thrash orders) project),
     (turn_polls project, detectCompactionBeforeCompletion E project)]"

fun run_detectors :: "(nat \<times> observation list) list \<Rightarrow> ctx \<Rightarrow> (ctx_error + observation list) \<times> ctx" where
  "run_detectors [] c = (Inr [], c)"
| "run_detectors ((n, values) # ds) c =
    (case polls (Suc n) c of
       (Some e, c) \<Rightarrow> (Inl e, c)
     | (None, c) \<Rightarrow>
         (case run_detectors ds c of
            (Inl e, c) \<Rightarrow> (Inl e, c)
          | (Inr rest, c) \<Rightarrow> (Inr (values @ rest), c)))"

definition analyzePreparedProject ::
    "text_env \<Rightarrow> scope_orders \<Rightarrow> preparedProject \<Rightarrow> ctx \<Rightarrow>
      (ctx_error + observation list \<times> CorrectionCandidate list) \<times> ctx" where
  "analyzePreparedProject E orders project c =
    (case run_detectors (detectors E orders project) c of
       (Inl e, c) \<Rightarrow> (Inl e, c)
     | (Inr observations, c) \<Rightarrow>
         (case polls (turn_polls project) c of
            (Some e, c) \<Rightarrow> (Inl e, c)
          | (None, c) \<Rightarrow>
              (case detectRepeatedCorrections E project of (corrections, candidates) \<Rightarrow>
                 (Inr (observations @ corrections, candidates), c))))"

section \<open>Issues\<close>

definition effectiveScopeIdentity :: "preparedProject \<Rightarrow> gostring" where
  "effectiveScopeIdentity project =
    (if pp_scopeIdentity project \<noteq> [] then pp_scopeIdentity project else ip_Identity (pp_project project))"

definition scopedFingerprint :: "preparedProject \<Rightarrow> gostring \<Rightarrow> gostring" where
  "scopedFingerprint project fingerprint =
    (let scope = effectiveScopeIdentity project in
     if scope = ip_Identity (pp_project project) then fingerprint else scope @ [CHR 0x00] @ fingerprint)"

definition issueID :: "text_env \<Rightarrow> gostring \<Rightarrow> gostring \<Rightarrow> gostring \<Rightarrow> gostring" where
  "issueID E project detector fingerprint =
    ''csi_'' @ te_issue_hash E (project @ [CHR 0x00] @ detector @ [CHR 0x00] @ fingerprint)"

definition headline :: "gostring \<Rightarrow> gostring \<Rightarrow> nat \<Rightarrow> nat \<Rightarrow> gostring" where
  "headline detector subject occurrences sessions =
    (let subject = trim_space subject;
         subject = (if subject = [] then ''the same pattern'' else subject);
         times = itoa (int occurrences) @ '' times across '' @ itoa (int sessions) @ '' sessions.'' in
     if detector = DetectorRetryLoop then subject @ '' failed '' @ times
     else if detector = DetectorRecurringError then subject @ '' recurred '' @ times
     else if detector = DetectorRepeatedCorrection then
       ''You'' @ [CHR 0x27] @ ''ve corrected the agent about '' @ subject @ '' '' @ times @
       '' Nothing in CLAUDE.md or AGENTS.md says this.''
     else if detector = DetectorDoneWithoutVerification then
       ''The agent claimed completion without verification '' @ times
     else if detector = DetectorPermissionChurn then ''You approved '' @ subject @ '' '' @ times
     else if detector = DetectorColdStartCost then
       ''Cold starts consumed more than 15% of spend across '' @ itoa (int sessions) @ '' sessions.''
     else if detector = DetectorFileThrash then subject @ '' was repeatedly edited '' @ times
     else if detector = DetectorCompactionBeforeCompletion then
       ''Context compacted before verified completion in '' @ itoa (int sessions) @ '' sessions.''
     else subject @ '' occurred '' @ times)"

definition weekStart :: "time \<Rightarrow> time" where
  "weekStart value =
    (let daysSinceMonday = (weekday value + 6) mod 7; start = add_days value (- daysSinceMonday)
     in day_of start * day_nanoseconds)"

definition buildTrend :: "time \<Rightarrow> time list \<Rightarrow> TrendWeek list" where
  "buildTrend now occurrences =
    map (\<lambda>index. let start = add_days (weekStart now) (- 7 * (7 - int index)) in
      \<lparr>tw_WeekStart = start, tw_Count = length (filter (\<lambda>t. weekStart t = start) occurrences)\<rparr>) [0..<8]"

definition excerptKey :: "Excerpt \<Rightarrow> gostring" where
  "excerptKey value =
    ic_SessionKey (xc_Citation value) @ [CHR 0x00] @ itoa (ic_TurnIndex (xc_Citation value)) @ [CHR 0x00] @ xc_Text value"

definition append_excerpt :: "Excerpt list \<Rightarrow> Excerpt \<Rightarrow> Excerpt list" where
  "append_excerpt found value =
    (if xc_Text value = [] \<or> excerptKey value \<in> set (map excerptKey found) \<or> length found = maxExcerpts
     then found else found @ [value])"

definition mergeExcerpts :: "Excerpt list \<Rightarrow> Excerpt list \<Rightarrow> Excerpt list" where
  "mergeExcerpts existing values = foldl append_excerpt [] (existing @ values)"

record observationGroup =
  og_detectorID :: gostring
  og_fingerprint :: gostring
  og_subject :: gostring
  og_cost :: IssueCost
  og_costSpans :: "costSpan list"
  og_timeSpans :: "costSpan list"
  og_sessions :: "(gostring \<times> IssueSessionRef) list"
  og_firstSeen :: time
  og_lastSeen :: time
  og_occurrences :: "time list"
  og_excerpts :: "Excerpt list"
  og_fix :: SuggestedFix
  og_usdKnown :: bool

definition new_group :: "observation \<Rightarrow> observationGroup" where
  "new_group value =
    \<lparr>og_detectorID = ob_detectorID value, og_fingerprint = ob_fingerprint value, og_subject = ob_subject value,
     og_cost = zero_cost, og_costSpans = [], og_timeSpans = [], og_sessions = [], og_firstSeen = ob_firstSeen value,
     og_lastSeen = ob_lastSeen value, og_occurrences = [], og_excerpts = [], og_fix = ob_fix value,
     og_usdKnown = False\<rparr>"

text \<open>\<open>m[k] = v\<close> on a map.\<close>

definition put_session :: "(gostring \<times> IssueSessionRef) list \<Rightarrow> IssueSessionRef \<Rightarrow> (gostring \<times> IssueSessionRef) list" where
  "put_session m s = AList.update (sn_SessionKey s) s m"

definition add_cost :: "IssueCost \<Rightarrow> IssueCost \<Rightarrow> IssueCost" where
  "add_cost cost value =
    \<lparr>ct_WastedMinutes = float_add (ct_WastedMinutes cost) (ct_WastedMinutes value),
     ct_WastedTokens = wrap64 (ct_WastedTokens cost + ct_WastedTokens value),
     ct_WastedUSD = (case ct_WastedUSD value of
         None \<Rightarrow> ct_WastedUSD cost
       | Some usd \<Rightarrow> Some (float_add (case ct_WastedUSD cost of None \<Rightarrow> FloatFinite 0 | Some v \<Rightarrow> v) usd)),
     ct_LowerBound = (ct_LowerBound cost \<or> ct_LowerBound value \<or> ct_WastedUSD value = None)\<rparr>"

definition absorb :: "observationGroup \<Rightarrow> observation \<Rightarrow> observationGroup" where
  "absorb g value =
    g\<lparr>og_cost := add_cost (og_cost g) (ob_cost value),
      og_usdKnown := og_usdKnown g \<or> ct_WastedUSD (ob_cost value) \<noteq> None,
      og_costSpans := og_costSpans g @ ob_costSpans value,
      og_timeSpans := og_timeSpans g @ ob_timeSpans value,
      og_sessions := foldl put_session (og_sessions g) (ob_session value # map sp_session (ob_costSpans value)),
      og_firstSeen := (if ob_firstSeen value < og_firstSeen g then ob_firstSeen value else og_firstSeen g),
      og_lastSeen := (if ob_lastSeen value > og_lastSeen g then ob_lastSeen value else og_lastSeen g),
      og_occurrences := og_occurrences g @
        [if ob_occurredAt value = time_zero then ob_firstSeen value else ob_occurredAt value],
      og_excerpts := mergeExcerpts (og_excerpts g) (ob_excerpts value)\<rparr>"

definition complete_observation :: "observation \<Rightarrow> bool" where
  "complete_observation value \<longleftrightarrow>
    \<not> (ob_detectorID value = [] \<or> ob_fingerprint value = [] \<or> sn_SessionKey (ob_session value) = [] \<or>
       ob_firstSeen value = time_zero)"

definition groupKey :: "observation \<Rightarrow> gostring" where
  "groupKey value = ob_detectorID value @ [CHR 0x00] @ ob_fingerprint value"

definition observation_groups :: "observation list \<Rightarrow> (gostring \<times> observation list) list" where
  "observation_groups observations = group_by groupKey (filter complete_observation observations)"

definition groupOf :: "observation list \<Rightarrow> observationGroup" where
  "groupOf values = foldl absorb (new_group (hd values)) values"

definition groupCost :: "(nat \<Rightarrow> key_order) \<Rightarrow> preparedProject \<Rightarrow> observationGroup \<Rightarrow> IssueCost" where
  "groupCost orders project g =
    (if og_costSpans g \<noteq> [] then attributedCost orders project (og_costSpans g) (og_timeSpans g)
     else if \<not> og_usdKnown g then (og_cost g)\<lparr>ct_WastedUSD := None\<rparr> else og_cost g)"

definition groupSessions :: "observationGroup \<Rightarrow> IssueSessionRef list" where
  "groupSessions g = sort_key (\<lambda>s. (sn_StartedAt s, sn_SessionKey s)) (map snd (og_sessions g))"

definition issueOf :: "text_env \<Rightarrow> (nat \<Rightarrow> key_order) \<Rightarrow> preparedProject \<Rightarrow> observationGroup \<Rightarrow> Issue" where
  "issueOf E orders project g =
    (let sessions = groupSessions g in
     \<lparr>is_IssueID = issueID E (effectiveScopeIdentity project) (og_detectorID g) (og_fingerprint g),
      is_DetectorID = og_detectorID g, is_Fingerprint = scopedFingerprint project (og_fingerprint g),
      is_Headline = headline (og_detectorID g) (og_subject g) (length (og_occurrences g)) (length sessions),
      is_Cost = groupCost orders project g, is_SessionCount = length sessions, is_Sessions = sessions,
      is_FirstSeen = og_firstSeen g, is_LastSeen = og_lastSeen g,
      is_Trend = buildTrend (pp_now project) (og_occurrences g), is_Excerpts = og_excerpts g,
      is_Project = pp_project project, is_SuggestedFix = og_fix g\<rparr>)"

section \<open>The order of issues\<close>

fun float_equal :: "float64 \<Rightarrow> float64 \<Rightarrow> bool" where
  "float_equal FloatNaN y = False"
| "float_equal x y = (x = y)"

definition issue_less :: "Issue \<Rightarrow> Issue \<Rightarrow> bool" where
  "issue_less x y =
    (let rest = (if is_SessionCount x \<noteq> is_SessionCount y then is_SessionCount x > is_SessionCount y
           else if is_LastSeen x \<noteq> is_LastSeen y then is_LastSeen x > is_LastSeen y
           else is_IssueID x < is_IssueID y) in
     case (ct_WastedUSD (is_Cost x), ct_WastedUSD (is_Cost y)) of
       (Some p, Some q) \<Rightarrow> if \<not> float_equal p q then float_less q p else rest
     | (Some p, None) \<Rightarrow> True
     | (None, Some q) \<Rightarrow> False
     | (None, None) \<Rightarrow> rest)"

text \<open>
  Sorting by insertion from the right, as \<open>sort.Slice\<close> does up to twelve elements; the identifiers decide
  what the rest leaves open, so that the order of more elements is the same by any sort.
\<close>

definition insert_right :: "('a \<Rightarrow> 'a \<Rightarrow> bool) \<Rightarrow> 'a list \<Rightarrow> 'a \<Rightarrow> 'a list" where
  "insert_right below xs x =
    (let above = takeWhile (below x) (rev xs) in take (length xs - length above) xs @ x # rev above)"

definition sort_slice :: "('a \<Rightarrow> 'a \<Rightarrow> bool) \<Rightarrow> 'a list \<Rightarrow> 'a list" where
  "sort_slice below xs = foldl (insert_right below) [] xs"

definition sortIssues :: "Issue list \<Rightarrow> Issue list" where
  "sortIssues issues = sort_slice issue_less issues"

definition aggregateIssues ::
    "text_env \<Rightarrow> scope_orders \<Rightarrow> preparedProject \<Rightarrow> observation list \<Rightarrow> Issue list" where
  "aggregateIssues E orders project observations =
    (let groups = observation_groups observations in
     sortIssues (concat (map (\<lambda>key.
         let g = groupOf (map_get groups key) in
         if length (og_excerpts g) < 2 then [] else [issueOf E (so_cost orders key) project g])
       (so_groups orders (map fst groups)))))"

section \<open>The analysis\<close>

fun analyze_scopes ::
    "text_env \<Rightarrow> (nat \<Rightarrow> scope_orders) \<Rightarrow> nat \<Rightarrow> preparedProject list \<Rightarrow> ctx \<Rightarrow>
      (ctx_error + observation list \<times> CorrectionCandidate list \<times> Issue list) \<times> ctx" where
  "analyze_scopes E orders i [] c = (Inr ([], [], []), c)"
| "analyze_scopes E orders i (scoped # rest) c =
    (case analyzePreparedProject E (orders i) scoped c of
       (Inl e, c) \<Rightarrow> (Inl e, c)
     | (Inr (observations, candidates), c) \<Rightarrow>
         (case analyze_scopes E orders (Suc i) rest c of
            (Inl e, c) \<Rightarrow> (Inl e, c)
          | (Inr (os, cs, is), c) \<Rightarrow>
              (Inr (observations @ os, candidates @ cs, aggregateIssues E (orders i) scoped observations @ is), c)))"

definition AnalyzeProject ::
    "text_env \<Rightarrow> scope_env \<Rightarrow> (nat \<Rightarrow> scope_orders) \<Rightarrow> (nat \<Rightarrow> key_order) \<Rightarrow> ProjectInput \<Rightarrow> ctx \<Rightarrow>
      (issue_error + IssueAnalysis) \<times> ctx" where
  "AnalyzeProject E F orders order input c =
    (case prepareProject input c of
       (Inl e, c) \<Rightarrow> (Inl e, c)
     | (Inr project, c) \<Rightarrow>
         (case analyze_scopes E orders 0 (scopedProjects F project) c of
            (Inl e, c) \<Rightarrow> (Inl (ContextDone e), c)
          | (Inr (observations, candidates, issues), c) \<Rightarrow>
              (Inr \<lparr>an_Issues = sortIssues issues, an_CorrectionCandidates = candidates,
                 an_AttributedCost = attributedCost order project
                   (concat (map ob_costSpans observations)) (concat (map ob_timeSpans observations))\<rparr>, c)))"

end
