(* ===== verification/Issue_Exact.thy ===== *)
theory Issue_Exact
  imports Issue_Engine
begin

text \<open>
  The detectors against what they promise: completion claimed without a verification, permissions worth allowing,
  errors that recur in several sessions.
\<close>

section \<open>First indexes\<close>

lemma first_index_upt: "0 \<le> first_index P [m..<n] \<Longrightarrow> \<exists>k. first_index P [m..<n] = int k \<and> m \<le> k \<and> k < n \<and> P k"
  by (auto simp: first_index_def find_upt_Some split: option.splits)

lemma first_index_rev:
  "first_index P (rev [m..<n]) = int k \<longleftrightarrow> m \<le> k \<and> k < n \<and> P k \<and> (\<forall>j. k < j \<longrightarrow> j < n \<longrightarrow> \<not> P j)"
proof -
  have "first_index P (rev [m..<n]) = int k \<longleftrightarrow> find P (rev [m..<n]) = Some k"
    by (auto simp: first_index_def split: option.splits)
  then show ?thesis by (simp only: find_rev_upt_Some)
qed

lemma first_index_cases: "first_index P is = - 1 \<or> (\<exists>k. first_index P is = int k)"
  by (auto simp: first_index_def split: option.splits)

section \<open>Completion claimed without a verification\<close>

text \<open>A claim ends the session, or a compaction follows it at once.\<close>

definition claims_completion :: "Turn list \<Rightarrow> nat \<Rightarrow> bool" where
  "claims_completion turns claim \<longleftrightarrow> claim < length turns \<and> isCompletionClaim (turns ! claim) \<and>
    ((\<forall>k. claim < k \<longrightarrow> k < length turns \<longrightarrow> tn_Role (turns ! k) \<noteq> RoleAssistant) \<or>
     Suc claim < length turns \<and> tn_Role (turns ! Suc claim) = RoleCompactionSummary)"

text \<open>The user gave no new task from one turn up to another; an approval is not a task.\<close>

definition same_task :: "Turn list \<Rightarrow> nat \<Rightarrow> nat \<Rightarrow> bool" where
  "same_task turns i j \<longleftrightarrow> (\<forall>k. i \<le> k \<longrightarrow> k < j \<longrightarrow>
    tn_Role (turns ! k) = RoleUser \<longrightarrow> isApprovalText (pl_Text (tn_Payload (turns ! k))))"

lemma last_assistant:
  assumes "isCompletionClaim (turns ! i)" and "i < length turns"
  shows "(let as = filter (\<lambda>i. tn_Role (turns ! i) = RoleAssistant) [0..<length turns] in as \<noteq> [] \<and> i = last as) \<longleftrightarrow>
    (\<forall>k. i < k \<longrightarrow> k < length turns \<longrightarrow> tn_Role (turns ! k) \<noteq> RoleAssistant)"
proof -
  let ?P = "\<lambda>i. tn_Role (turns ! i) = RoleAssistant"
  have P: "?P i" using assms(1) by (simp add: isCompletionClaim_def)
  have l: "filter Q xs \<noteq> [] \<Longrightarrow> find Q (rev xs) = Some (last (filter Q xs))" for Q and xs :: "nat list"
    by (induction xs rule: rev_induct) auto
  have ne: "filter ?P [0..<length turns] \<noteq> []" using P assms(2) by (auto simp: filter_empty_conv)
  have "i = last (filter ?P [0..<length turns]) \<longleftrightarrow> find ?P (rev [0..<length turns]) = Some i"
    using l [OF ne] by auto
  also have "\<dots> \<longleftrightarrow> (\<forall>k. i < k \<longrightarrow> k < length turns \<longrightarrow> \<not> ?P k)" using P assms(2) by (auto simp: find_rev_upt_Some)
  finally show ?thesis using ne by (simp add: Let_def)
qed

lemma completion_claims: "i \<in> set (conversationCompletionClaims turns) \<longleftrightarrow> claims_completion turns i"
proof (cases "i < length turns \<and> isCompletionClaim (turns ! i)")
  case True
  define as where "as = filter (\<lambda>i. tn_Role (turns ! i) = RoleAssistant) [0..<length turns]"
  have "i \<in> set (conversationCompletionClaims turns) \<longleftrightarrow>
      as \<noteq> [] \<and> i = last as \<or> Suc i < length turns \<and> tn_Role (turns ! Suc i) = RoleCompactionSummary"
    using True unfolding conversationCompletionClaims_def as_def [symmetric] Let_def by auto
  with True last_assistant [of turns i] show ?thesis by (simp add: claims_completion_def as_def Let_def)
next
  case False
  have "last (filter P xs) \<in> set xs" if "filter P xs \<noteq> []" for P and xs :: "nat list"
    using that last_in_set filter_is_subset by fastforce
  with False show ?thesis
    by (fastforce simp: conversationCompletionClaims_def claims_completion_def Let_def split: if_splits)
qed

lemma task_start: "conversationTaskPhaseStart turns (int claim) \<le> int i \<longleftrightarrow> same_task turns i claim"
  if "claim \<le> length turns" "i < claim"
proof -
  let ?P = "\<lambda>i. tn_Role (turns ! i) = RoleUser \<and> \<not> isApprovalText (pl_Text (tn_Payload (turns ! i)))"
  have r: "index_range turns 0 (int claim) = [0..<claim]" using that by (simp add: index_range_def)
  show ?thesis
  proof (cases "find ?P (rev [0..<claim])")
    case None
    then have "\<forall>k. k < claim \<longrightarrow> \<not> ?P k" by (simp add: find_rev_upt_None)
    then show ?thesis unfolding conversationTaskPhaseStart_def r first_index_def None same_task_def by simp
  next
    case (Some b)
    then have b: "b < claim" "?P b" "\<forall>j. b < j \<longrightarrow> j < claim \<longrightarrow> \<not> ?P j" unfolding find_rev_upt_Some by blast+
    have "conversationTaskPhaseStart turns (int claim) \<le> int i \<longleftrightarrow> b < i"
      unfolding conversationTaskPhaseStart_def r first_index_def Some by auto
    also have "\<dots> \<longleftrightarrow> same_task turns i claim"
      using b unfolding same_task_def by (meson not_le order_less_le_trans)
    finally show ?thesis .
  qed
qed

lemma phase_start_nonneg_task: "0 \<le> conversationTaskPhaseStart turns till"
  unfolding conversationTaskPhaseStart_def first_index_def by (simp split: option.split)

text \<open>
  C31. Completion without verification is exact: the detector finds a claim exactly when the agent says it is done at the
  end of the session or right before a compaction, some turn of the task edited files, and no verification ran between the last
  such edit and the claim. The edit it cites is that last one.
\<close>
theorem unverified_claims_are_exact:
  "set (unverifiedClaims E config turns) =
    {(int edit, int claim) | edit claim. claims_completion turns claim \<and> edit < claim \<and>
      same_task turns edit claim \<and> editedFiles E (turns ! edit) \<noteq> [] \<and>
      (\<forall>k. edit < k \<longrightarrow> k < claim \<longrightarrow>
        editedFiles E (turns ! k) = [] \<and> \<not> isVerificationTurn E config (turns ! k))}"
proof -
  have last: "conversationLastEditBetween E turns (conversationTaskPhaseStart turns (int claim)) (int claim) = int edit \<longleftrightarrow>
      edit < claim \<and> same_task turns edit claim \<and> editedFiles E (turns ! edit) \<noteq> [] \<and>
      (\<forall>k. edit < k \<longrightarrow> k < claim \<longrightarrow> editedFiles E (turns ! k) = [])"
    if "claim < length turns" for claim edit
  proof -
    let ?s = "conversationTaskPhaseStart turns (int claim)"
    have r: "index_range turns ?s (int claim) = [nat ?s..<claim]" using that by (simp add: index_range_def)
    have "nat ?s \<le> edit \<longleftrightarrow> same_task turns edit claim" if "edit < claim"
      using task_start [of claim turns edit] that \<open>claim < length turns\<close> phase_start_nonneg_task [of turns] by (auto simp: nat_le_iff)
    then show ?thesis unfolding conversationLastEditBetween_def r first_index_rev by auto
  qed
  have verified: "conversationHasVerificationBetween E turns (int edit + 1) (int claim) config \<longleftrightarrow>
      (\<exists>k. edit < k \<and> k < claim \<and> isVerificationTurn E config (turns ! k))"
    if "claim < length turns" for claim edit
    using that by (auto simp: conversationHasVerificationBetween_def index_range_def list_ex_iff nat_add_distrib Suc_le_eq)
  show ?thesis (is "?L = ?R")
  proof (intro set_eqI iffI)
    fix p
    assume "p \<in> ?L"
    then obtain claim where c: "claims_completion turns claim"
        "p = (conversationLastEditBetween E turns (conversationTaskPhaseStart turns (int claim)) (int claim), int claim)"
        "0 \<le> fst p" "\<not> conversationHasVerificationBetween E turns (fst p + 1) (int claim) config"
      by (auto simp: unverifiedClaims_def completion_claims)
    then obtain edit where e: "p = (int edit, int claim)"
        "conversationLastEditBetween E turns (conversationTaskPhaseStart turns (int claim)) (int claim) = int edit"
      by (metis fst_conv nonneg_int_cases)
    have "claim < length turns" using c(1) by (simp add: claims_completion_def)
    with last [OF this, of edit] verified [OF this, of edit] c e show "p \<in> ?R" by auto
  next
    fix p
    assume "p \<in> ?R"
    then obtain edit claim where p: "p = (int edit, int claim)" "claims_completion turns claim" "edit < claim"
        "same_task turns edit claim" "editedFiles E (turns ! edit) \<noteq> []"
        "\<forall>k. edit < k \<longrightarrow> k < claim \<longrightarrow> editedFiles E (turns ! k) = [] \<and> \<not> isVerificationTurn E config (turns ! k)"
      by auto
    have len: "claim < length turns" using p(2) by (simp add: claims_completion_def)
    have "conversationLastEditBetween E turns (conversationTaskPhaseStart turns (int claim)) (int claim) = int edit"
      using last [OF len, of edit] p by blast
    moreover have "\<not> conversationHasVerificationBetween E turns (int edit + 1) (int claim) config"
      using verified [OF len, of edit] p(6) by blast
    ultimately show "p \<in> ?L" using p(1,2) by (force simp: unverifiedClaims_def completion_claims)
  qed
qed

section \<open>Keys ranged over\<close>

lemma observationsOf_fingerprint:
  "ob \<in> set (observationsOf E detector fingerprint subject session cost spans suggestion turns) \<Longrightarrow>
    ob_fingerprint ob = fingerprint \<and> ob_detectorID ob = detector"
  by (auto simp: observationsOf_def)

lemma observationsOf_Nil [simp]:
  "observationsOf E detector fingerprint subject session cost spans suggestion turns = [] \<longleftrightarrow> turns = []"
  by (simp add: observationsOf_def enumerate_eq_zip)

section \<open>Permissions\<close>

lemma approvals_of_pattern:
  "length (map_get (approvalsOf E project) pattern) =
    length (filter (\<lambda>(p, a). p = pattern \<and> a \<noteq> None) (permissionAnswers E project))"
proof -
  let ?f = "\<lambda>(p, answer). case answer of None \<Rightarrow> [] | Some a \<Rightarrow> [(p, a)]"
  have "length (filter (\<lambda>x. fst x = pattern) (concat (map ?f xs))) =
      length (filter (\<lambda>(p, a). p = pattern \<and> a \<noteq> None) xs)" for xs :: "(gostring \<times> approval option) list"
  proof (induction xs)
    case (Cons x xs)
    then show ?case by (cases x; cases "snd x") auto
  qed simp
  then show ?thesis by (simp add: approvalsOf_def group_pairs_props(3))
qed

text \<open>
  C32. Permissions are suggested exactly when they are safe to suggest: an observation proposes to allow a tool pattern if
  and only if the user answered calls with the pattern by an approval at least five times, in all sessions together,
  and never by a denial.
\<close>
theorem permission_suggestions_are_exact:
  assumes "\<And>ks. mset (order ks) = mset ks"
  shows "(\<exists>ob\<in>set (detectPermissionChurn E order project). ob_fingerprint ob = pattern) \<longleftrightarrow>
    5 \<le> length (filter (\<lambda>(p, a). p = pattern \<and> a \<noteq> None) (permissionAnswers E project)) \<and>
    (pattern, None) \<notin> set (permissionAnswers E project)"
proof -
  let ?m = "approvalsOf E project"
  have order_keys: "set (order ks) = set ks" for ks by (rule mset_eq_setD [OF assms])
  have fp: "ob_fingerprint (permissionObservation E p t v) = p" for p t v
    by (simp add: permissionObservation_def Let_def split: prod.split)
  have denied: "pattern \<in> set (deniedPatterns E project) \<longleftrightarrow> (pattern, None) \<in> set (permissionAnswers E project)"
    by (force simp: deniedPatterns_def)
  have key: "pattern \<in> set (order (map fst ?m))" if "map_get ?m pattern \<noteq> []"
  proof -
    have "pattern \<in> set (map fst ?m)" using that by (force simp: map_get_def split: option.splits dest: map_of_SomeD)
    then show ?thesis using order_keys by blast
  qed
  have "(\<exists>ob\<in>set (detectPermissionChurn E order project). ob_fingerprint ob = pattern) \<longleftrightarrow>
      pattern \<in> set (order (map fst ?m)) \<and> map_get ?m pattern \<noteq> [] \<and> 5 \<le> length (map_get ?m pattern) \<and>
      pattern \<notin> set (deniedPatterns E project)"
    by (auto simp: detectPermissionChurn_def Let_def fp ex_in_conv split: if_splits)
  also have "\<dots> \<longleftrightarrow> 5 \<le> length (map_get ?m pattern) \<and> pattern \<notin> set (deniedPatterns E project)"
    using key by (metis list.size(3) not_numeral_le_zero)
  finally show ?thesis by (simp only: approvals_of_pattern denied)
qed

section \<open>Recurring errors\<close>

definition failed_with :: "text_env \<Rightarrow> ProjectConfig \<Rightarrow> gostring \<Rightarrow> IssueSession \<Rightarrow> bool" where
  "failed_with E config signature session \<longleftrightarrow>
    (\<exists>a\<in>set (failedCommandAttempts E session config). fa_errorSig a = signature)"

lemma signed_entries:
  assumes "distinct (map fst m)"
  shows "filter (\<lambda>p. fst p = k) (map (\<lambda>(s, x). (s, (z, x))) m) = (case map_of m k of None \<Rightarrow> [] | Some x \<Rightarrow> [(k, (z, x))])"
  using assms
proof (induction m)
  case (Cons e m)
  obtain s x where e: "e = (s, x)" by (cases e)
  have "map_of m k = None" if "k = s" using Cons.prems that by (simp add: e map_of_eq_None_iff)
  with Cons show ?case by (auto simp: e split: option.splits)
qed simp

lemma signed_lookup:
  "map_of (signedAttempts E project session) signature =
    (if signature \<noteq> [] \<and> failed_with E (pp_config project) signature session
     then Some (filter (\<lambda>a. fa_errorSig a = signature) (failedCommandAttempts E session (pp_config project))) else None)"
proof -
  let ?as = "filter (\<lambda>a. fa_errorSig a \<noteq> []) (failedCommandAttempts E session (pp_config project))"
  have "map_of (group_by fa_errorSig ?as) signature \<noteq> None \<longleftrightarrow> signature \<in> fa_errorSig ` set ?as"
    by (metis keys_group_by map_of_eq_None_iff)
  moreover have "signature \<in> fa_errorSig ` set ?as \<longleftrightarrow> signature \<noteq> [] \<and> failed_with E (pp_config project) signature session"
    by (auto simp: failed_with_def)
  moreover have "map_of (group_by fa_errorSig ?as) signature = Some vs \<Longrightarrow>
      vs = filter (\<lambda>a. fa_errorSig a = signature) ?as" for vs
    using map_get_group_by [of fa_errorSig ?as signature] by (simp add: map_get_def)
  moreover have "signature \<noteq> [] \<Longrightarrow> filter (\<lambda>a. fa_errorSig a = signature) ?as =
      filter (\<lambda>a. fa_errorSig a = signature) (failedCommandAttempts E session (pp_config project))"
    by (simp add: conj_commute cong: conj_cong)
  ultimately show ?thesis unfolding signedAttempts_def by (metis not_None_eq)
qed

lemma signature_entries:
  "map_get (bySignature E project) signature =
    (if signature = [] then [] else
     map (\<lambda>session. (session, filter (\<lambda>a. fa_errorSig a = signature) (failedCommandAttempts E session (pp_config project))))
       (filter (failed_with E (pp_config project) signature) (pp_sessions project)))"
proof -
  let ?e = "\<lambda>session. map (\<lambda>(s, x). (s, (session, x))) (signedAttempts E project session)"
  have d: "distinct (map fst (signedAttempts E project session))" for session
    by (simp add: signedAttempts_def)
  have "map snd (filter (\<lambda>p. fst p = signature) (concat (map ?e ss))) =
      (if signature = [] then [] else
       map (\<lambda>session. (session, filter (\<lambda>a. fa_errorSig a = signature) (failedCommandAttempts E session (pp_config project))))
         (filter (failed_with E (pp_config project) signature) ss))" for ss
    by (induction ss) (auto simp: signed_entries [OF d] signed_lookup)
  then show ?thesis by (simp add: bySignature_def group_pairs_props(3))
qed

text \<open>
  C33. Recurring errors are exact: an error signature is reported if and only if it is not empty and commands failed with it
  in at least two sessions of the project.
\<close>
theorem recurring_errors_are_exact:
  assumes "\<And>ks. mset (order ks) = mset ks"
  shows "(\<exists>ob\<in>set (detectRecurringErrors E order project).
      ob_fingerprint ob = ip_Identity (pp_project project) @ [CHR 0x00] @ signature) \<longleftrightarrow>
    signature \<noteq> [] \<and> 2 \<le> length (filter (failed_with E (pp_config project) signature) (pp_sessions project))"
proof -
  let ?m = "bySignature E project" and ?fp = "\<lambda>s. ip_Identity (pp_project project) @ [CHR 0x00] @ s"
  have order_keys: "set (order ks) = set ks" for ks by (rule mset_eq_setD [OF assms])
  have fp: "ob_fingerprint ob = ?fp s" if "ob \<in> set (recurringObservations E project s item)" for ob s item
    using that observationsOf_fingerprint by (cases item) (auto simp: recurringObservations_def)
  have ne: "recurringObservations E project s (session, attempts) \<noteq> []" if "attempts \<noteq> []" for s session attempts
    using that by (simp add: recurringObservations_def)
  have key: "signature \<in> set (order (map fst ?m))" if "map_get ?m signature \<noteq> []"
  proof -
    have "signature \<in> set (map fst ?m)" using that by (force simp: map_get_def split: option.splits dest: map_of_SomeD)
    then show ?thesis using order_keys by blast
  qed
  let ?obs = "\<lambda>s. if length (map_get ?m s) < 2 then [] else concat (map (recurringObservations E project s) (map_get ?m s))"
  have "(\<exists>ob\<in>set (detectRecurringErrors E order project). ob_fingerprint ob = ?fp signature) \<longleftrightarrow>
      (\<exists>s\<in>set (order (map fst ?m)). \<exists>ob\<in>set (?obs s). ob_fingerprint ob = ?fp signature)"
    by (simp only: detectRecurringErrors_def Let_def set_concat set_map) blast
  also have "\<dots> \<longleftrightarrow> signature \<in> set (order (map fst ?m)) \<and> ?obs signature \<noteq> []"
  proof
    assume "\<exists>s\<in>set (order (map fst ?m)). \<exists>ob\<in>set (?obs s). ob_fingerprint ob = ?fp signature"
    then obtain s ob where s: "s \<in> set (order (map fst ?m))" "ob \<in> set (?obs s)" "ob_fingerprint ob = ?fp signature"
      by blast
    from s(2) obtain item where "ob \<in> set (recurringObservations E project s item)"
      by (auto split: if_splits)
    from fp [OF this] s(3) have "s = signature" by simp
    with s(1,2) show "signature \<in> set (order (map fst ?m)) \<and> ?obs signature \<noteq> []" by (metis empty_iff list.set(1))
  next
    assume a: "signature \<in> set (order (map fst ?m)) \<and> ?obs signature \<noteq> []"
    then obtain ob where "ob \<in> set (?obs signature)" using last_in_set [of "?obs signature"] by blast
    moreover from this have "ob_fingerprint ob = ?fp signature" using fp by (auto split: if_splits)
    ultimately show "\<exists>s\<in>set (order (map fst ?m)). \<exists>ob\<in>set (?obs s). ob_fingerprint ob = ?fp signature"
      using a by blast
  qed
  also have "\<dots> \<longleftrightarrow> 2 \<le> length (map_get ?m signature)"
  proof
    assume l: "2 \<le> length (map_get ?m signature)"
    then obtain session attempts where i: "(session, attempts) \<in> set (map_get ?m signature)"
      by (cases "map_get ?m signature") (simp, metis list.set_intros(1) surj_pair)
    then have "attempts \<noteq> []"
      unfolding signature_entries failed_with_def by (auto simp: filter_empty_conv split: if_splits)
    from ne [OF this, of signature session] i l have "?obs signature \<noteq> []" by (auto simp: concat_eq_Nil_conv)
    moreover have "map_get ?m signature \<noteq> []" using l by auto
    ultimately show "signature \<in> set (order (map fst ?m)) \<and> ?obs signature \<noteq> []" using key by blast
  qed (auto split: if_splits)
  also have "\<dots> \<longleftrightarrow> signature \<noteq> [] \<and>
      2 \<le> length (filter (failed_with E (pp_config project) signature) (pp_sessions project))"
    by (simp add: signature_entries)
  finally show ?thesis .
qed

end
