(* ===== verification/Issue_Groups.thy ===== *)
theory Issue_Groups
  imports Issue_Engine
begin

text \<open>
  From observations to issues: what an issue says of its observations, the order of the issues, the weeks of a trend,
  and what a context that ends does to an analysis.
\<close>

section \<open>Excerpts\<close>

lemma append_excerpts:
  fixes vs :: "Excerpt list"
  assumes "length found \<le> maxExcerpts" and "distinct (map excerptKey found)" and "\<forall>x\<in>set found. xc_Text x \<noteq> []"
  defines "out \<equiv> foldl append_excerpt found vs"
  shows "length out \<le> maxExcerpts \<and> distinct (map excerptKey out) \<and> (\<forall>x\<in>set out. xc_Text x \<noteq> []) \<and>
    set out \<subseteq> set found \<union> set vs"
  using assms(1-3) unfolding out_def
proof (induction vs arbitrary: found)
  case (Cons v vs)
  have "length (append_excerpt found v) \<le> maxExcerpts" "distinct (map excerptKey (append_excerpt found v))"
    "\<forall>x\<in>set (append_excerpt found v). xc_Text x \<noteq> []"
    "set (append_excerpt found v) \<subseteq> set found \<union> {v}"
    using Cons.prems by (auto simp: append_excerpt_def)
  from Cons.IH [OF this(1,2,3)] this(4) show ?case by auto
qed simp

lemma mergeExcerpts_props:
  "length (mergeExcerpts existing vs) \<le> maxExcerpts" "distinct (map excerptKey (mergeExcerpts existing vs))"
  "set (mergeExcerpts existing vs) \<subseteq> set existing \<union> set vs"
  "\<forall>x\<in>set (mergeExcerpts existing vs). xc_Text x \<noteq> []"
  using append_excerpts [of "[]" "existing @ vs"] by (auto simp: mergeExcerpts_def)

section \<open>Groups\<close>

lemma absorb_fields:
  "og_detectorID (foldl absorb g vs) = og_detectorID g" "og_fingerprint (foldl absorb g vs) = og_fingerprint g"
  "og_subject (foldl absorb g vs) = og_subject g" "og_fix (foldl absorb g vs) = og_fix g"
  "length (og_occurrences (foldl absorb g vs)) = length (og_occurrences g) + length vs"
  "og_costSpans (foldl absorb g vs) = og_costSpans g @ concat (map ob_costSpans vs)"
  by (induction vs arbitrary: g) (simp_all add: absorb_def)

lemma Min_insert_min: "finite S \<Longrightarrow> Min (insert (min a b) S) = Min (insert a (insert b S))"
  by (cases "S = {}") (simp_all add: min.assoc)

lemma Max_insert_max: "finite S \<Longrightarrow> Max (insert (max a b) S) = Max (insert a (insert b S))"
  by (cases "S = {}") (simp_all add: max.assoc)

lemma absorb_first: "og_firstSeen (foldl absorb g vs) = Min (insert (og_firstSeen g) (ob_firstSeen ` set vs))"
proof (induction vs arbitrary: g)
  case (Cons v vs)
  have "og_firstSeen (absorb g v) = min (og_firstSeen g) (ob_firstSeen v)" by (simp add: absorb_def min_def)
  then show ?case by (simp add: Cons.IH Min_insert_min)
qed simp

lemma absorb_last: "og_lastSeen (foldl absorb g vs) = Max (insert (og_lastSeen g) (ob_lastSeen ` set vs))"
proof (induction vs arbitrary: g)
  case (Cons v vs)
  have "og_lastSeen (absorb g v) = max (og_lastSeen g) (ob_lastSeen v)" by (simp add: absorb_def max_def)
  then show ?case by (simp add: Cons.IH Max_insert_max)
qed simp

lemma absorb_excerpts:
  fixes vs :: "observation list"
  assumes "length (og_excerpts g) \<le> maxExcerpts" and "distinct (map excerptKey (og_excerpts g))"
  defines "h \<equiv> foldl absorb g vs"
  shows "length (og_excerpts h) \<le> maxExcerpts \<and> distinct (map excerptKey (og_excerpts h)) \<and>
    set (og_excerpts h) \<subseteq> set (og_excerpts g) \<union> (\<Union>v\<in>set vs. set (ob_excerpts v))"
  using assms(1,2) unfolding h_def
proof (induction vs arbitrary: g)
  case (Cons v vs)
  have e: "og_excerpts (absorb g v) = mergeExcerpts (og_excerpts g) (ob_excerpts v)" by (simp add: absorb_def)
  have "length (og_excerpts (absorb g v)) \<le> maxExcerpts" "distinct (map excerptKey (og_excerpts (absorb g v)))"
    unfolding e using mergeExcerpts_props by blast+
  from Cons.IH [OF this] mergeExcerpts_props(3) [of "og_excerpts g" "ob_excerpts v"] show ?case
    unfolding foldl_Cons e by auto
qed simp

text \<open>The sessions an observation names.\<close>

definition observed_sessions :: "observation \<Rightarrow> gostring set" where
  "observed_sessions v = insert (sn_SessionKey (ob_session v)) (span_key ` set (ob_costSpans v))"

lemma put_sessions:
  assumes "distinct (map fst m)"
  shows "distinct (map fst (foldl put_session m refs)) \<and>
    fst ` set (foldl put_session m refs) = fst ` set m \<union> sn_SessionKey ` set refs"
  using assms
proof (induction refs arbitrary: m)
  case (Cons s refs)
  have "distinct (map fst (put_session m s))" using Cons.prems by (simp add: put_session_def distinct_update)
  from Cons.IH [OF this] show ?case by (auto simp: put_session_def dom_update)
qed simp

lemma absorb_sessions:
  fixes vs :: "observation list"
  assumes "distinct (map fst (og_sessions g))"
  defines "h \<equiv> foldl absorb g vs"
  shows "distinct (map fst (og_sessions h)) \<and>
    fst ` set (og_sessions h) = fst ` set (og_sessions g) \<union> (\<Union>v\<in>set vs. observed_sessions v)"
  using assms(1) unfolding h_def
proof (induction vs arbitrary: g)
  case (Cons v vs)
  have e: "og_sessions (absorb g v) =
      foldl put_session (og_sessions g) (ob_session v # map sp_session (ob_costSpans v))"
    by (simp add: absorb_def)
  note p = put_sessions [OF Cons.prems, of "ob_session v # map sp_session (ob_costSpans v)"]
  have o: "observed_sessions v = sn_SessionKey ` set (ob_session v # map sp_session (ob_costSpans v))"
    by (auto simp: observed_sessions_def span_key_def)
  have "distinct (map fst (og_sessions (absorb g v)))" unfolding e using p by blast
  from Cons.IH [OF this] p show ?case unfolding foldl_Cons e o [symmetric] by auto
qed simp

lemma groupOf_props:
  assumes "vs \<noteq> []"
  shows "og_detectorID (groupOf vs) = ob_detectorID (hd vs)" "og_fingerprint (groupOf vs) = ob_fingerprint (hd vs)"
    "length (og_occurrences (groupOf vs)) = length vs"
    "og_firstSeen (groupOf vs) = Min (ob_firstSeen ` set vs)"
    "og_lastSeen (groupOf vs) = Max (ob_lastSeen ` set vs)"
    "length (og_excerpts (groupOf vs)) \<le> maxExcerpts" "distinct (map excerptKey (og_excerpts (groupOf vs)))"
    "set (og_excerpts (groupOf vs)) \<subseteq> (\<Union>v\<in>set vs. set (ob_excerpts v))"
    "distinct (map fst (og_sessions (groupOf vs)))"
    "fst ` set (og_sessions (groupOf vs)) = (\<Union>v\<in>set vs. observed_sessions v)"
proof -
  have i: "insert (ob_firstSeen (hd vs)) (ob_firstSeen ` set vs) = ob_firstSeen ` set vs"
    "insert (ob_lastSeen (hd vs)) (ob_lastSeen ` set vs) = ob_lastSeen ` set vs"
    using assms by auto
  show "og_detectorID (groupOf vs) = ob_detectorID (hd vs)" "og_fingerprint (groupOf vs) = ob_fingerprint (hd vs)"
    "length (og_occurrences (groupOf vs)) = length vs"
    by (simp_all add: groupOf_def absorb_fields new_group_def)
  show "og_firstSeen (groupOf vs) = Min (ob_firstSeen ` set vs)" "og_lastSeen (groupOf vs) = Max (ob_lastSeen ` set vs)"
    by (simp_all add: groupOf_def absorb_first absorb_last new_group_def i)
  show "length (og_excerpts (groupOf vs)) \<le> maxExcerpts" "distinct (map excerptKey (og_excerpts (groupOf vs)))"
    "set (og_excerpts (groupOf vs)) \<subseteq> (\<Union>v\<in>set vs. set (ob_excerpts v))"
    using absorb_excerpts [of "new_group (hd vs)" vs] by (auto simp: groupOf_def new_group_def)
  show "distinct (map fst (og_sessions (groupOf vs)))"
    "fst ` set (og_sessions (groupOf vs)) = (\<Union>v\<in>set vs. observed_sessions v)"
    using absorb_sessions [of "new_group (hd vs)" vs] by (simp_all add: groupOf_def new_group_def)
qed

section \<open>Sorting\<close>

lemma takeWhile_rev_split:
  "xs = take (length xs - length (takeWhile P (rev xs))) xs @ rev (takeWhile P (rev xs))"
proof -
  have "rev xs = takeWhile P (rev xs) @ dropWhile P (rev xs)" by simp
  then have "xs = rev (dropWhile P (rev xs)) @ rev (takeWhile P (rev xs))" by (metis rev_append rev_rev_ident)
  then show ?thesis by (metis append_eq_conv_conj length_append length_rev diff_add_inverse2)
qed

lemma mset_insert_right: "mset (insert_right below xs x) = add_mset x (mset xs)"
proof -
  let ?a = "takeWhile (below x) (rev xs)"
  have "mset xs = mset (take (length xs - length ?a) xs) + mset ?a"
    using arg_cong [OF takeWhile_rev_split [of xs "below x"], of mset] by simp
  then show ?thesis by (simp add: insert_right_def Let_def)
qed

lemma mset_sort_slice [simp]: "mset (sort_slice below xs) = mset xs"
proof -
  have "mset (foldl (insert_right below) ys xs) = mset ys + mset xs" for ys
    by (induction xs arbitrary: ys) (simp_all add: mset_insert_right)
  from this [of "[]"] show ?thesis by (simp add: sort_slice_def)
qed

lemma sorted_sort_slice:
  assumes asym: "\<And>x y. x \<in> set xs \<Longrightarrow> y \<in> set xs \<Longrightarrow> below x y \<Longrightarrow> \<not> below y x"
    and trans: "\<And>x y z. x \<in> set xs \<Longrightarrow> y \<in> set xs \<Longrightarrow> z \<in> set xs \<Longrightarrow> \<not> below y x \<Longrightarrow> \<not> below z y \<Longrightarrow> \<not> below z x"
  shows "sorted_wrt (\<lambda>x y. \<not> below y x) (sort_slice below xs)"
proof -
  let ?R = "\<lambda>x y. \<not> below y x"
  have step: "sorted_wrt ?R (insert_right below ys x)" if ys: "sorted_wrt ?R ys" "insert x (set ys) \<subseteq> set xs" for ys x
  proof -
    define a where "a = takeWhile (below x) (rev ys)"
    define p where "p = take (length ys - length a) ys"
    have y: "ys = p @ rev a" unfolding p_def a_def by (rule takeWhile_rev_split)
    have above: "below x z" if "z \<in> set a" for z using that by (auto simp: a_def dest: set_takeWhileD)
    have before: "?R z x" if z: "z \<in> set p" for z
    proof -
      have ne: "p \<noteq> []" using z by auto
      have "rev ys = a @ rev p" by (simp add: y)
      moreover have "rev ys = a @ dropWhile (below x) (rev ys)" by (simp add: a_def)
      ultimately have "dropWhile (below x) (rev ys) = rev p" by simp
      with hd_dropWhile [of "below x" "rev ys"] ne have "\<not> below x (last p)" by (simp add: hd_rev)
      moreover have "z = last p \<or> ?R z (last p)"
      proof -
        have "p = butlast p @ [last p]" using ne by simp
        moreover have "sorted_wrt ?R p" using ys(1) by (simp add: y sorted_wrt_append)
        ultimately have "sorted_wrt ?R (butlast p @ [last p])" by simp
        moreover have "z \<in> set (butlast p @ [last p])" using z ne by simp
        ultimately show ?thesis by (auto simp: sorted_wrt_append)
      qed
      moreover have "z \<in> set xs" "last p \<in> set xs" "x \<in> set xs" using ys(2) z ne by (auto simp: y)
      ultimately show ?thesis using trans by blast
    qed
    have "insert_right below ys x = p @ x # rev a" by (simp add: insert_right_def a_def p_def Let_def)
    moreover have "?R x z" if "z \<in> set a" for z using above [OF that] asym ys(2) that by (auto simp: y)
    ultimately show ?thesis using ys(1) before by (auto simp: y sorted_wrt_append)
  qed
  have "set zs \<subseteq> set xs \<Longrightarrow> sorted_wrt ?R ys \<Longrightarrow> set ys \<subseteq> set xs \<Longrightarrow> sorted_wrt ?R (foldl (insert_right below) ys zs)"
    for ys zs
  proof (induction zs arbitrary: ys)
    case (Cons z zs)
    have "set (insert_right below ys z) = insert z (set ys)"
      using mset_insert_right [of below ys z] by (metis set_mset_add_mset_insert set_mset_mset)
    with Cons show ?case using step [of ys z] by auto
  qed simp
  from this [of xs "[]"] show ?thesis by (simp add: sort_slice_def)
qed

section \<open>The order of issues\<close>

fun float_rank :: "float64 \<Rightarrow> int \<times> rat" where
  "float_rank (FloatInf s) = (if s then 0 else 2, 0)"
| "float_rank (FloatFinite q) = (1, q)"
| "float_rank FloatNaN = (3, 0)"

text \<open>Known prices before unknown ones, higher before lower; then more sessions, later ones, and the identifier.\<close>

definition issue_rank :: "Issue \<Rightarrow> (int \<times> int \<times> rat) \<times> int \<times> int \<times> gostring" where
  "issue_rank x =
    ((case ct_WastedUSD (is_Cost x) of None \<Rightarrow> (1, 0, 0) | Some p \<Rightarrow> (0, - fst (float_rank p), - snd (float_rank p))),
     - int (is_SessionCount x), - is_LastSeen x, is_IssueID x)"

definition priced :: "Issue \<Rightarrow> bool" where
  "priced x \<longleftrightarrow> ct_WastedUSD (is_Cost x) \<noteq> Some FloatNaN"

lemma float_less_rank:
  "p \<noteq> FloatNaN \<Longrightarrow> q \<noteq> FloatNaN \<Longrightarrow> float_less q p \<longleftrightarrow>
    (- fst (float_rank p), - snd (float_rank p)) < (- fst (float_rank q), - snd (float_rank q))"
  by (cases p; cases q) auto

lemma float_equal_rank:
  "p \<noteq> FloatNaN \<Longrightarrow> q \<noteq> FloatNaN \<Longrightarrow> float_equal p q \<longleftrightarrow>
    fst (float_rank p) = fst (float_rank q) \<and> snd (float_rank p) = snd (float_rank q)"
  by (cases p; cases q) auto

lemma issue_less_rank:
  assumes "priced x" and "priced y"
  shows "issue_less x y \<longleftrightarrow> issue_rank x < issue_rank y"
proof -
  have rest: "(if is_SessionCount x \<noteq> is_SessionCount y then is_SessionCount x > is_SessionCount y
      else if is_LastSeen x \<noteq> is_LastSeen y then is_LastSeen x > is_LastSeen y
      else is_IssueID x < is_IssueID y) \<longleftrightarrow>
    (- int (is_SessionCount x), - is_LastSeen x, is_IssueID x) < (- int (is_SessionCount y), - is_LastSeen y, is_IssueID y)"
    by auto
  show ?thesis
  proof (cases "ct_WastedUSD (is_Cost x)"; cases "ct_WastedUSD (is_Cost y)")
    fix p q
    assume pq: "ct_WastedUSD (is_Cost x) = Some p" "ct_WastedUSD (is_Cost y) = Some q"
    with assms have "p \<noteq> FloatNaN" "q \<noteq> FloatNaN" by (auto simp: priced_def)
    from float_less_rank [OF this] float_equal_rank [OF this] show ?thesis
      unfolding issue_less_def rest issue_rank_def pq by (auto simp: Let_def)
  qed (unfold issue_less_def rest issue_rank_def, auto simp: Let_def)
qed

text \<open>
  Issues are ranked by what they cost: sorting keeps every issue, and as long as no price is a NaN the issues come with
  known prices first and the highest first, at equal prices with more sessions first, then the one seen last,
  then in the order of the identifiers.
\<close>
theorem issues_are_ranked:
  assumes "\<forall>x\<in>set issues. priced x"
  shows "mset (sortIssues issues) = mset issues \<and> sorted (map issue_rank (sortIssues issues))"
proof -
  have less: "issue_less x y \<longleftrightarrow> issue_rank x < issue_rank y" if "x \<in> set issues" "y \<in> set issues" for x y
    using issue_less_rank that assms by blast
  have "sorted_wrt (\<lambda>x y. \<not> issue_less y x) (sortIssues issues)"
    unfolding sortIssues_def
  proof (rule sorted_sort_slice)
    fix x y
    assume "x \<in> set issues" "y \<in> set issues" "issue_less x y"
    then show "\<not> issue_less y x" using less by auto
  next
    fix x y z
    assume i: "x \<in> set issues" "y \<in> set issues" "z \<in> set issues" and "\<not> issue_less y x" "\<not> issue_less z y"
    then have "issue_rank x \<le> issue_rank y" "issue_rank y \<le> issue_rank z"
      using less [OF i(2,1)] less [OF i(3,2)] by (simp_all only: not_less)
    then have "issue_rank x \<le> issue_rank z" by (rule order_trans)
    then show "\<not> issue_less z x" using less [OF i(3,1)] by (simp only: not_less)
  qed
  then have "sorted_wrt (\<lambda>x y. issue_rank x \<le> issue_rank y) (sortIssues issues)"
  proof (rule sorted_wrt_mono_rel [rotated])
    fix x y
    assume "x \<in> set (sortIssues issues)" "y \<in> set (sortIssues issues)" and le: "\<not> issue_less y x"
    moreover have "set (sortIssues issues) = set issues" unfolding sortIssues_def by (rule mset_eq_setD) simp
    ultimately show "issue_rank x \<le> issue_rank y" using less [of y x] by (simp only: not_less)
  qed
  then show ?thesis by (simp add: sorted_map sortIssues_def)
qed

section \<open>Issues and their observations\<close>

lemma groups_lookup:
  "map_get (observation_groups observations) key = filter (\<lambda>v. complete_observation v \<and> groupKey v = key) observations"
  by (simp add: observation_groups_def)

text \<open>
  C29. An issue summarises its observations: in whichever order the groups are ranged over, every issue comes from all the
  complete observations with one detector and fingerprint. It is first and last seen when the earliest and the
  latest of them are, it counts the sessions they name, each once, and quotes two to five different excerpts of theirs;
  and such a group without an issue has fewer than two excerpts to quote.
\<close>
theorem issues_summarise_their_observations:
  fixes observations :: "observation list"
  assumes "\<And>ks. mset (so_groups orders ks) = mset ks"
  defines "members \<equiv> \<lambda>key. filter (\<lambda>v. complete_observation v \<and> groupKey v = key) observations"
  shows "\<exists>keys. distinct keys \<and>
    (\<forall>key. key \<in> set keys \<longleftrightarrow> members key \<noteq> [] \<and> 2 \<le> length (og_excerpts (groupOf (members key)))) \<and>
    mset (aggregateIssues E orders project observations) =
      mset (map (\<lambda>key. issueOf E (so_cost orders key) project (groupOf (members key))) keys) \<and>
    (\<forall>key\<in>set keys. let x = issueOf E (so_cost orders key) project (groupOf (members key)) in
      is_DetectorID x = ob_detectorID (hd (members key)) \<and>
      is_FirstSeen x = Min (ob_firstSeen ` set (members key)) \<and> is_LastSeen x = Max (ob_lastSeen ` set (members key)) \<and>
      is_SessionCount x = card (\<Union>v\<in>set (members key). observed_sessions v) \<and>
      2 \<le> length (is_Excerpts x) \<and> length (is_Excerpts x) \<le> 5 \<and> distinct (map excerptKey (is_Excerpts x)) \<and>
      set (is_Excerpts x) \<subseteq> (\<Union>v\<in>set (members key). set (ob_excerpts v)))"
proof -
  let ?groups = "observation_groups observations"
  let ?issue = "\<lambda>key. issueOf E (so_cost orders key) project (groupOf (members key))"
  define ks where "ks = so_groups orders (map fst ?groups)"
  define keys where "keys = filter (\<lambda>key. 2 \<le> length (og_excerpts (groupOf (members key)))) ks"
  have m: "map_get ?groups key = members key" for key by (simp add: groups_lookup members_def)
  have "distinct (map fst ?groups)" by (simp add: observation_groups_def)
  then have d: "distinct ks" using assms(1) [of "map fst ?groups"] unfolding ks_def by (metis mset_eq_imp_distinct_iff)
  have "set ks = set (map fst ?groups)" unfolding ks_def by (rule mset_eq_setD [OF assms(1)])
  also have "\<dots> = groupKey ` set (filter complete_observation observations)" by (simp add: observation_groups_def)
  finally have ks: "key \<in> set ks \<longleftrightarrow> members key \<noteq> []" for key
    by (auto simp: members_def filter_empty_conv)
  have one: "concat (map (\<lambda>key. let g = groupOf (map_get ?groups key) in
      if length (og_excerpts g) < 2 then [] else [issueOf E (so_cost orders key) project g]) xs) =
    map ?issue (filter (\<lambda>key. 2 \<le> length (og_excerpts (groupOf (members key)))) xs)" for xs
    by (induction xs) (auto simp: m Let_def not_less)
  have "mset (aggregateIssues E orders project observations) = mset (map ?issue keys)"
    unfolding aggregateIssues_def Let_def sortIssues_def mset_sort_slice keys_def ks_def
    using one [of "so_groups orders (map fst ?groups)"] by (simp add: Let_def)
  moreover have "distinct keys" using d by (simp add: keys_def)
  moreover have mem: "key \<in> set keys \<longleftrightarrow> members key \<noteq> [] \<and> 2 \<le> length (og_excerpts (groupOf (members key)))" for key
    using ks by (auto simp: keys_def)
  moreover have "let x = ?issue key in
      is_DetectorID x = ob_detectorID (hd (members key)) \<and>
      is_FirstSeen x = Min (ob_firstSeen ` set (members key)) \<and> is_LastSeen x = Max (ob_lastSeen ` set (members key)) \<and>
      is_SessionCount x = card (\<Union>v\<in>set (members key). observed_sessions v) \<and>
      2 \<le> length (is_Excerpts x) \<and> length (is_Excerpts x) \<le> 5 \<and> distinct (map excerptKey (is_Excerpts x)) \<and>
      set (is_Excerpts x) \<subseteq> (\<Union>v\<in>set (members key). set (ob_excerpts v))" if key: "key \<in> set keys" for key
  proof -
    have ne: "members key \<noteq> []" and two: "2 \<le> length (og_excerpts (groupOf (members key)))" using key mem by blast+
    note p = groupOf_props [OF ne]
    have "length (map snd (og_sessions (groupOf (members key)))) = card (\<Union>v\<in>set (members key). observed_sessions v)"
      using distinct_card [OF p(9)] p(10) by simp
    with p two show ?thesis by (simp add: issueOf_def groupSessions_def Let_def)
  qed
  ultimately show ?thesis by blast
qed

section \<open>Trends\<close>

abbreviation week_nanoseconds :: int where "week_nanoseconds \<equiv> 7 * day_nanoseconds"

lemma weekStart_floor: "weekStart t = t div week_nanoseconds * week_nanoseconds"
proof -
  have "(weekday t + 6) mod 7 = day_of t mod 7" unfolding weekday_def by presburger
  then have "weekStart t = day_of (t - day_of t mod 7 * day_nanoseconds) * day_nanoseconds"
    by (simp add: weekStart_def add_days_def Let_def)
  also have "day_of (t - day_of t mod 7 * day_nanoseconds) = day_of t - day_of t mod 7"
    unfolding day_of_def by simp
  also have "day_of t - day_of t mod 7 = day_of t div 7 * 7" by (simp add: minus_mod_eq_div_mult)
  also have "day_of t div 7 = t div week_nanoseconds"
    unfolding day_of_def by (simp add: zdiv_zmult2_eq [of 7 t day_nanoseconds, symmetric])
  finally show ?thesis by simp
qed

lemma weekStart_iff: "weekStart t = k * week_nanoseconds \<longleftrightarrow> k * week_nanoseconds \<le> t \<and> t < (k + 1) * week_nanoseconds"
proof -
  have "weekStart t = k * week_nanoseconds \<longleftrightarrow> t div week_nanoseconds = k" by (simp add: weekStart_floor)
  also have "\<dots> \<longleftrightarrow> k * week_nanoseconds \<le> t \<and> t < (k + 1) * week_nanoseconds"
    using div_mult_mod_eq [of t week_nanoseconds] pos_mod_sign [of week_nanoseconds t] pos_mod_bound [of week_nanoseconds t]
    by auto
  finally show ?thesis .
qed

text \<open>
  The trend counts weeks: it has eight weeks, the last one the week of now; each week begins on a Monday at midnight, seven
  days after the one before it, and counts exactly the occurrences from its beginning to before the next.
\<close>
theorem trend_counts_eight_weeks:
  "length (buildTrend now occurrences) = 8 \<and>
   tw_WeekStart (buildTrend now occurrences ! 7) \<le> now \<and> now < tw_WeekStart (buildTrend now occurrences ! 7) + week_nanoseconds \<and>
   (\<forall>i<8. let w = buildTrend now occurrences ! i in
     weekday (tw_WeekStart w) = 1 \<and> tw_WeekStart w mod day_nanoseconds = 0 \<and>
     tw_WeekStart w = tw_WeekStart (buildTrend now occurrences ! 7) - (7 - int i) * week_nanoseconds \<and>
     tw_Count w = length (filter (\<lambda>t. tw_WeekStart w \<le> t \<and> t < tw_WeekStart w + week_nanoseconds) occurrences))"
proof -
  let ?n = "now div week_nanoseconds"
  have start: "add_days (weekStart now) (- 7 * (7 - int i)) = (?n - 7 + int i) * week_nanoseconds" for i
    by (simp add: weekStart_floor add_days_def algebra_simps)
  have w: "buildTrend now occurrences ! i = \<lparr>tw_WeekStart = (?n - 7 + int i) * week_nanoseconds,
      tw_Count = length (filter (\<lambda>t. weekStart t = (?n - 7 + int i) * week_nanoseconds) occurrences)\<rparr>" if "i < 8" for i
    using that unfolding buildTrend_def Let_def start by (simp del: upt_Suc)
  have monday: "weekday (k * week_nanoseconds) = 1" for k
  proof -
    have "day_of (k * week_nanoseconds) = k * 7" unfolding day_of_def by simp
    then show ?thesis by (simp add: weekday_def)
  qed
  have midnight: "(k * week_nanoseconds) mod day_nanoseconds = 0" for k :: int by (simp add: mult.assoc [symmetric])
  have "length (buildTrend now occurrences) = 8" by (simp add: buildTrend_def)
  moreover have "?n * week_nanoseconds \<le> now \<and> now < ?n * week_nanoseconds + week_nanoseconds"
    using weekStart_iff [of now ?n] by (simp add: weekStart_floor algebra_simps)
  moreover have "let w = buildTrend now occurrences ! i in
      weekday (tw_WeekStart w) = 1 \<and> tw_WeekStart w mod day_nanoseconds = 0 \<and>
      tw_WeekStart w = tw_WeekStart (buildTrend now occurrences ! 7) - (7 - int i) * week_nanoseconds \<and>
      tw_Count w = length (filter (\<lambda>t. tw_WeekStart w \<le> t \<and> t < tw_WeekStart w + week_nanoseconds) occurrences)"
    if i: "i < 8" for i
  proof -
    have seven: "tw_WeekStart (buildTrend now occurrences ! 7) = ?n * week_nanoseconds" using w [of 7] by simp
    have next_week: "(?n - 7 + int i) * week_nanoseconds + week_nanoseconds = (?n - 7 + int i + 1) * week_nanoseconds"
      by (simp add: algebra_simps)
    show ?thesis unfolding w [OF i] seven Let_def TrendWeek.simps
      unfolding monday midnight next_week weekStart_iff by (simp add: algebra_simps)
  qed
  ultimately show ?thesis using w [of 7] by simp
qed

end
