(* ===== verification/Issue_Roots.thy ===== *)
theory Issue_Roots
  imports Issue_Engine
begin

text \<open>
  The scopes of a project: the repository of a directory is the nearest one above it, the search for it ends, and every
  session is analyzed in exactly one scope.
\<close>

section \<open>Absolute paths\<close>

definition rooted :: "gostring list \<Rightarrow> gostring" where
  "rooted segs = CHR ''/'' # join_with ''/'' segs"

definition entries :: "gostring list \<Rightarrow> bool" where
  "entries segs \<longleftrightarrow> (\<forall>s\<in>set segs. normal_segment s \<and> CHR ''/'' \<notin> set s)"

lemma has_prefix_slash: "has_prefix s ''/'' \<longleftrightarrow> (\<exists>t. s = CHR ''/'' # t)"
  by (cases s) (auto simp: has_prefix_def)

lemma clean_rooted_step:
  "entries out \<Longrightarrow> CHR ''/'' \<notin> set seg \<Longrightarrow> entries (clean_step True out seg)"
  by (cases out) (auto simp: clean_step_def entries_def normal_segment_def)

lemma clean_rooted_fold:
  "entries out \<Longrightarrow> \<forall>s\<in>set segs. CHR ''/'' \<notin> set s \<Longrightarrow> entries (foldl (clean_step True) out segs)"
  by (induction segs arbitrary: out) (simp_all add: clean_rooted_step)

lemma clean_absolute:
  assumes "absolute_path s"
  shows "\<exists>segs. entries segs \<and> path_clean s = rooted segs"
proof -
  let ?out = "foldl (clean_step True) [] (split_on (CHR ''/'') s)"
  have "entries ?out"
    by (rule clean_rooted_fold) (use split_on_parts in \<open>auto simp: entries_def\<close>)
  then have "entries (rev ?out)" by (simp add: entries_def)
  moreover have "path_clean s = rooted (rev ?out)"
    using assms by (simp add: path_clean_def rooted_def absolute_path_def Let_def)
  ultimately show ?thesis by blast
qed

lemma clean_rooted_slash:
  assumes "entries segs" and "segs \<noteq> []"
  shows "path_clean (rooted segs @ ''/'') = rooted segs"
proof -
  have split: "split_on (CHR ''/'') (rooted segs @ ''/'') = [] # segs @ [[]]"
    using assms split_on_append_gen [of "CHR ''/''" "join_with ''/'' segs" "[]"]
    by (simp add: rooted_def split_join entries_def)
  have "foldl (clean_step True) [] segs = rev segs @ []"
    by (rule clean_fold_normal) (use assms(1) in \<open>simp add: entries_def\<close>)
  then have "foldl (clean_step True) [] ([] # segs @ [[]]) = rev segs" by (simp add: clean_step_def)
  moreover have "has_prefix (rooted segs @ ''/'') ''/''" by (simp add: has_prefix_slash rooted_def)
  ultimately show ?thesis unfolding path_clean_def Let_def split by (simp add: rooted_def)
qed

lemma rooted_snoc: "segs \<noteq> [] \<Longrightarrow> rooted (segs @ [s]) = rooted segs @ ''/'' @ s"
  by (simp add: rooted_def join_with_append)

lemma dir_prefix: "CHR ''/'' \<notin> set s \<Longrightarrow> rev (dropWhile (\<lambda>c. c \<noteq> CHR ''/'') (rev (u @ CHR ''/'' # s))) = u @ ''/''"
  by (simp add: dropWhile_append)

lemma path_dir_rooted:
  assumes "entries segs"
  shows "path_dir (rooted segs) = rooted (butlast segs)"
proof (cases segs rule: rev_cases)
  case Nil
  have "path_clean ''/'' = ''/''" by code_simp
  then show ?thesis by (simp add: Nil path_dir_def rooted_def)
next
  case (snoc ss s)
  have s: "CHR ''/'' \<notin> set s" and ss: "entries ss" using assms by (auto simp: snoc entries_def)
  show ?thesis
  proof (cases "ss = []")
    case True
    have "path_clean ''/'' = ''/''" by code_simp
    moreover have "path_dir (rooted segs) = path_clean ''/''"
      using dir_prefix [OF s, of "[]"] by (simp add: snoc True path_dir_def rooted_def)
    ultimately show ?thesis by (simp add: snoc True rooted_def)
  next
    case False
    have "path_dir (rooted segs) = path_clean (rooted ss @ ''/'')"
      using dir_prefix [OF s, of "rooted ss"] by (simp add: snoc path_dir_def rooted_snoc [OF False])
    with clean_rooted_slash [OF ss False] show ?thesis by (simp add: snoc)
  qed
qed

lemma rooted_butlast: "entries segs \<Longrightarrow> rooted (butlast segs) = rooted segs \<longleftrightarrow> segs = []"
proof
  assume e: "entries segs" and eq: "rooted (butlast segs) = rooted segs"
  show "segs = []"
  proof (rule ccontr)
    assume ne: "segs \<noteq> []"
    then obtain ss s where segs: "segs = ss @ [s]" by (metis append_butlast_last_id)
    with e have s: "s \<noteq> []" by (simp add: entries_def normal_segment_def)
    show False using eq s by (cases "ss = []") (simp_all add: segs rooted_snoc, simp add: rooted_def)
  qed
qed simp

lemma length_segments: "entries segs \<Longrightarrow> length segs \<le> length (rooted segs)"
proof (induction segs rule: rev_induct)
  case (snoc s ss)
  then have "entries ss" by (simp add: entries_def)
  with snoc.IH have "length ss \<le> length (rooted ss)" .
  then show ?case by (cases "ss = []") (simp_all add: rooted_snoc, simp add: rooted_def)
qed simp

section \<open>The nearest repository\<close>

definition has_repository :: "scope_env \<Rightarrow> gostring list \<Rightarrow> bool" where
  "has_repository F segs \<longleftrightarrow> sv_stat F (filepath_join (rooted segs) ''.git'')"

lemma root_from_ends:
  assumes "entries segs" and "length segs < n"
  shows "root_from F n path (rooted segs) =
    Some (case find (\<lambda>k. has_repository F (take k segs)) (rev [0..<Suc (length segs)]) of
      None \<Rightarrow> path | Some k \<Rightarrow> rooted (take k segs))"
  using assms
proof (induction n arbitrary: segs)
  case (Suc n)
  show ?case
  proof (cases "has_repository F segs")
    case True
    then show ?thesis by (simp add: has_repository_def)
  next
    case False
    have dir: "path_dir (rooted segs) = rooted (butlast segs)" by (rule path_dir_rooted [OF Suc.prems(1)])
    show ?thesis
    proof (cases "segs = []")
      case True
      with False dir show ?thesis by (simp add: has_repository_def)
    next
      case ne: False
      have "entries (butlast segs)" using Suc.prems(1) by (auto simp: entries_def dest: in_set_butlastD)
      moreover have "length (butlast segs) < n" using Suc.prems(2) ne by (cases segs) simp_all
      ultimately have IH: "root_from F n path (rooted (butlast segs)) =
          Some (case find (\<lambda>k. has_repository F (take k (butlast segs))) (rev [0..<Suc (length (butlast segs))]) of
            None \<Rightarrow> path | Some k \<Rightarrow> rooted (take k (butlast segs)))"
        by (rule Suc.IH)
      have len: "Suc (length (butlast segs)) = length segs" using ne by (cases segs) simp_all
      have tk: "take k (butlast segs) = take k segs" if "k < length segs" for k
        using that by (rule take_butlast)
      have "find (\<lambda>k. has_repository F (take k (butlast segs))) (rev [0..<length segs]) =
          find (\<lambda>k. has_repository F (take k segs)) (rev [0..<length segs])"
        by (rule find_cong) (simp_all add: tk)
      moreover have "k < length segs" if "find P (rev [0..<length segs]) = Some k" for P k
        using that by (simp add: find_rev_upt_Some)
      ultimately show ?thesis
        using IH False dir rooted_butlast [OF Suc.prems(1)] ne tk
        by (auto simp: has_repository_def len split: option.splits)
    qed
  qed
qed simp

text \<open>
  C38. The search for a repository ends, with the nearest one: from the directory of a turn, which is absolute and clean, the
  walk reaches a result within as many steps as the path has bytes. The result is the innermost directory
  on the way up, the directory itself and the root included, that holds a \<open>.git\<close>, or the
  directory itself when none does.
\<close>
theorem repository_search_ends_at_nearest:
  assumes "normalizedScopePath F cwd = path" and "path \<noteq> []"
  shows "\<exists>segs. entries segs \<and> path = rooted segs \<and>
    root_from F (Suc (length path)) path path = Some (repositoryRoot F path) \<and>
    ((\<exists>k\<le>length segs. has_repository F (take k segs) \<and> repositoryRoot F path = rooted (take k segs) \<and>
        (\<forall>j. k < j \<longrightarrow> j \<le> length segs \<longrightarrow> \<not> has_repository F (take j segs))) \<or>
     (\<forall>k\<le>length segs. \<not> has_repository F (take k segs)) \<and> repositoryRoot F path = path)"
proof -
  from assms obtain v where "absolute_path v" "path = path_clean v"
    by (auto simp: normalizedScopePath_def Let_def split: if_splits)
  with clean_absolute obtain segs where segs: "entries segs" "path = rooted segs" by blast
  let ?P = "\<lambda>k. has_repository F (take k segs)"
  have "length segs < Suc (length path)" using length_segments [OF segs(1)] segs(2) by simp
  from root_from_ends [OF segs(1) this, of F path] segs(2)
  have r: "root_from F (Suc (length path)) path path =
      Some (case find ?P (rev [0..<Suc (length segs)]) of None \<Rightarrow> path | Some k \<Rightarrow> rooted (take k segs))"
    by simp
  then have root: "repositoryRoot F path =
      (case find ?P (rev [0..<Suc (length segs)]) of None \<Rightarrow> path | Some k \<Rightarrow> rooted (take k segs))"
    by (simp only: repositoryRoot_def option.case)
  have "(\<exists>k\<le>length segs. ?P k \<and> repositoryRoot F path = rooted (take k segs) \<and>
      (\<forall>j. k < j \<longrightarrow> j \<le> length segs \<longrightarrow> \<not> ?P j)) \<or> (\<forall>k\<le>length segs. \<not> ?P k) \<and> repositoryRoot F path = path"
  proof (cases "find ?P (rev [0..<Suc (length segs)])")
    case None
    then have "\<forall>k\<le>length segs. \<not> ?P k" unfolding find_rev_upt_None by (simp add: less_Suc_eq_le)
    with root None show ?thesis by simp
  next
    case (Some k)
    then have "k \<le> length segs" "?P k" "\<forall>j. k < j \<longrightarrow> j \<le> length segs \<longrightarrow> \<not> ?P j"
      unfolding find_rev_upt_Some by (simp_all add: less_Suc_eq_le)
    with root Some show ?thesis by auto
  qed
  with segs r root show ?thesis by (intro exI [of _ segs]) simp
qed

section \<open>Scopes\<close>

lemma mset_groups:
  "distinct ks \<Longrightarrow> f ` set xs \<subseteq> set ks \<Longrightarrow> mset (concat (map (\<lambda>k. filter (\<lambda>x. f x = k) xs) ks)) = mset xs"
proof (induction ks arbitrary: xs)
  case (Cons k ks)
  let ?rest = "filter (\<lambda>x. f x \<noteq> k) xs"
  have "f ` set ?rest \<subseteq> set ks" using Cons.prems by auto
  then have IH: "mset (concat (map (\<lambda>k. filter (\<lambda>x. f x = k) ?rest) ks)) = mset ?rest"
    using Cons.prems(1) by (intro Cons.IH) simp_all
  have "filter (\<lambda>x. f x = k') ?rest = filter (\<lambda>x. f x = k') xs" if "k' \<in> set ks" for k'
    using Cons.prems(1) that by (auto intro: filter_cong)
  then have "map (\<lambda>k. filter (\<lambda>x. f x = k) ?rest) ks = map (\<lambda>k. filter (\<lambda>x. f x = k) xs) ks" by (intro map_cong) simp_all
  with IH have "mset (concat (map (\<lambda>k. filter (\<lambda>x. f x = k) xs) ks)) = mset ?rest" by (simp only:)
  moreover have "mset (filter (\<lambda>x. f x = k) xs) + mset ?rest = mset xs"
    using multiset_partition [of "mset xs" "\<lambda>x. f x = k"] by (simp flip: mset_filter)
  ultimately show ?case by simp
qed simp

text \<open>
  C37. Every session is analyzed once: the scopes of a project share out its sessions, none lost and none repeated. Different
  scopes have different identities, so that issues of one kind in two scopes are kept apart, and the sessions of
  a scope of a local project are those that worked in its directory.
\<close>
theorem scopes_partition_sessions:
  "mset (concat (map pp_sessions (scopedProjects F project))) = mset (pp_sessions project) \<and>
   (localPathIdentity (ip_Identity (pp_project project)) \<longrightarrow>
     distinct (map effectiveScopeIdentity (scopedProjects F project)) \<and>
     (\<forall>scoped\<in>set (scopedProjects F project). pp_sessions scoped = filter (\<lambda>s.
       sessionScopePath F s (ip_Path (pp_project project)) = ip_Path (pp_project scoped)) (pp_sessions project)))"
proof (cases "localPathIdentity (ip_Identity (pp_project project))")
  case False
  then show ?thesis by (simp add: scopedProjects_def)
next
  case True
  let ?f = "\<lambda>s. sessionScopePath F s (ip_Path (pp_project project))"
  let ?m = "group_by ?f (pp_sessions project)"
  have s: "scopedProjects F project = map (scopedProject project ?m) (sortedKeys ?m)"
    using True by (simp add: scopedProjects_def Let_def)
  have k: "distinct (sortedKeys ?m)" "set (sortedKeys ?m) = ?f ` set (pp_sessions project)"
    by (simp_all add: distinct_sortedKeys)
  have sess: "pp_sessions (scopedProject project ?m scope) = filter (\<lambda>s. ?f s = scope) (pp_sessions project)" for scope
    by (simp add: scopedProject_def)
  have ne: "ip_Identity (pp_project project) \<noteq> []"
    using True by (auto simp: localPathIdentity_def absolute_path_def has_prefix_def)
  have id: "effectiveScopeIdentity (scopedProject project ?m scope) = ip_Identity (pp_project project) @
      (if scope \<noteq> ip_Path (pp_project project) then [CHR 0x00] @ scope else [])" for scope
    using ne by (simp add: effectiveScopeIdentity_def scopedProject_def)
  have "mset (concat (map pp_sessions (scopedProjects F project))) = mset (pp_sessions project)"
    unfolding s map_map o_def sess by (rule mset_groups) (use k in simp_all)
  moreover have "distinct (map effectiveScopeIdentity (scopedProjects F project))"
    unfolding s map_map o_def id using k(1) by (auto simp: distinct_map inj_on_def)
  ultimately show ?thesis using True by (auto simp: s sess) (simp_all add: scopedProject_def)
qed

end
