(* ===== verification/Issue_Example.thy ===== *)
theory Issue_Example
  imports Issue_Window Issue_Cost Issue_Tokens Issue_Exact Issue_Groups Issue_Roots
    Traj_Example "HOL-Library.Code_Target_Nat"
begin

text \<open>
  A project with one session on which the properties of the issue detectors are checked: two commands that
  fail three times each, with nothing said about the error.
\<close>

definition asciiOnly :: unicode where
  "asciiOnly = \<lparr>uc_lower = (\<lambda>r. r), uc_fold = (\<lambda>r. r), uc_letter = (\<lambda>r. False), uc_digit = (\<lambda>r. False), uc_punct = (\<lambda>r. False)\<rparr>"

definition exampleEnv :: text_env where
  "exampleEnv = \<lparr>te_unicode = asciiOnly, te_json = (\<lambda>s. None), te_members = (\<lambda>s. None), te_compact = (\<lambda>s. None), te_print = (\<lambda>v. []),
     te_hash = (\<lambda>s. s), te_issue_hash = (\<lambda>s. s)\<rparr>"

definition callTurn :: "int \<Rightarrow> gostring \<Rightarrow> Turn" where
  "callTurn i command = exampleTurn i RoleToolCall ''Bash'' (zero_payload\<lparr>pl_RawCommand := command\<rparr>)"

definition failedTurn :: "int \<Rightarrow> Turn" where
  "failedTurn i = exampleTurn i RoleToolResult ''Bash'' (zero_payload\<lparr>pl_Text := ''no'', pl_ToolIsError := Some True\<rparr>)"

definition retryTurns :: "Turn list" where
  "retryTurns =
    [callTurn 0 ''ls'', failedTurn 1, callTurn 2 ''ls'', failedTurn 3, callTurn 4 ''ls'', failedTurn 5,
     callTurn 6 ''ps'', failedTurn 7, callTurn 8 ''ps'', failedTurn 9, callTurn 10 ''ps'', failedTurn 11]"

definition retrySession :: IssueSession where
  "retrySession = \<lparr>ss_Metadata = di_Session exampleInput, ss_Turns = retryTurns\<rparr>"

definition retryProject :: preparedProject where
  "retryProject = \<lparr>pp_project = \<lparr>ip_Identity = ''p'', ip_Path = []\<rparr>, pp_scopeIdentity = ''p'', pp_config = no_config,
     pp_sessions = [retrySession], pp_now = 100\<rparr>"

definition exampleScopes :: scope_env where
  "exampleScopes = \<lparr>sv_stat = (\<lambda>path. path = ''/w/.git''), sv_url_path = (\<lambda>url. None)\<rparr>"

definition retryInput :: ProjectInput where
  "retryInput = \<lparr>pi_Project = \<lparr>ip_Identity = ''p'', ip_Path = []\<rparr>, pi_Config = no_config,
     pi_Sessions = [retrySession], pi_Now = 100\<rparr>"

section \<open>Retries\<close>

lemma example_commands:
  "normalizeCommand exampleEnv ''ls'' = ''ls''" "normalizeCommand exampleEnv ''ps'' = ''ps''"
  "classifyCommand exampleEnv no_config ''ls'' = ''other''" "classifyCommand exampleEnv no_config ''ps'' = ''other''"
  by code_simp+

lemma call_infos:
  "commandInfo exampleEnv no_config (callTurn i ''ls'') = Some (''other'', ''ls'', ''ls'')"
  "commandInfo exampleEnv no_config (callTurn i ''ps'') = Some (''other'', ''ps'', ''ps'')"
proof -
  have t: "trim_space ''ls'' = ''ls''" "trim_space ''ps'' = ''ps''" by code_simp+
  have r: "pl_RawCommand (tn_Payload (callTurn i c)) = c" for c by (simp add: callTurn_def exampleTurn_def)
  show "commandInfo exampleEnv no_config (callTurn i ''ls'') = Some (''other'', ''ls'', ''ls'')"
    "commandInfo exampleEnv no_config (callTurn i ''ps'') = Some (''other'', ''ps'', ''ps'')"
    by (simp_all add: commandInfo_def rawCommandOf_def r t example_commands Let_def)
qed

lemma failed_infos: "commandInfo exampleEnv no_config (failedTurn i) = None"
proof -
  have "pl_RawCommand (tn_Payload (failedTurn i)) = []" "tn_Role (failedTurn i) = RoleToolResult"
    by (simp_all add: failedTurn_def exampleTurn_def zero_payload_def)
  then show ?thesis by (simp add: commandInfo_def rawCommandOf_def)
qed

definition attempt :: "int \<Rightarrow> gostring \<Rightarrow> failedAttempt" where
  "attempt i command = \<lparr>fa_callIndex = nat i, fa_resultIndex = nat (i + 1), fa_class = ''other'', fa_normalized = command,
     fa_raw = command, fa_errorSig = [], fa_call = callTurn i command, fa_result = failedTurn (i + 1)\<rparr>"

lemma example_attempts:
  "failedCommandAttempts exampleEnv retrySession no_config =
    [attempt 0 ''ls'', attempt 2 ''ls'', attempt 4 ''ls'', attempt 6 ''ps'', attempt 8 ''ps'', attempt 10 ''ps'']"
proof -
  have m: "matchingToolResult exampleEnv retryTurns 0 (callTurn 0 ''ls'') = Some (1, failedTurn 1)"
    "matchingToolResult exampleEnv retryTurns 2 (callTurn 2 ''ls'') = Some (3, failedTurn 3)"
    "matchingToolResult exampleEnv retryTurns 4 (callTurn 4 ''ls'') = Some (5, failedTurn 5)"
    "matchingToolResult exampleEnv retryTurns 6 (callTurn 6 ''ps'') = Some (7, failedTurn 7)"
    "matchingToolResult exampleEnv retryTurns 8 (callTurn 8 ''ps'') = Some (9, failedTurn 9)"
    "matchingToolResult exampleEnv retryTurns 10 (callTurn 10 ''ps'') = Some (11, failedTurn 11)"
    by code_simp+
  have f: "turnFailed exampleEnv (failedTurn i)" "normalizedErrorSignature exampleEnv (failedTurn i) = []"
    "tn_Role (callTurn i c) = RoleToolCall" for i c
  proof -
    have "pl_ToolResult (tn_Payload (failedTurn i)) = []" by (simp add: failedTurn_def exampleTurn_def zero_payload_def)
    moreover have "firstSpecificErrorLine exampleEnv [] = []" "structuredResultFailure exampleEnv [] = (False, False, [])"
      by code_simp+
    ultimately show "normalizedErrorSignature exampleEnv (failedTurn i) = []" by (simp add: normalizedErrorSignature_def)
    show "turnFailed exampleEnv (failedTurn i)" "tn_Role (callTurn i c) = RoleToolCall"
      by (simp_all add: failedTurn_def callTurn_def exampleTurn_def turnFailed_def)
  qed
  have e: "enumerate 0 retryTurns = [(0, callTurn 0 ''ls''), (1, failedTurn 1), (2, callTurn 2 ''ls''), (3, failedTurn 3),
      (4, callTurn 4 ''ls''), (5, failedTurn 5), (6, callTurn 6 ''ps''), (7, failedTurn 7), (8, callTurn 8 ''ps''),
      (9, failedTurn 9), (10, callTurn 10 ''ps''), (11, failedTurn 11)]"
    by (simp add: retryTurns_def numeral_eq_Suc)
  show ?thesis
    unfolding failedCommandAttempts_def retrySession_def IssueSession.simps e
    by (simp add: failedAttemptAt_def call_infos failed_infos m f attempt_def List.map_filter_simps)
qed

text \<open>The orders of a scope in which the commands of a session come in a given order.\<close>

definition ordersWith :: "key_order \<Rightarrow> nat \<Rightarrow> scope_orders" where
  "ordersWith order i = \<lparr>so_retry = (\<lambda>i. order), so_recurring = (\<lambda>ks. ks), so_permission = (\<lambda>ks. ks),
     so_thrash = (\<lambda>i ks. ks), so_groups = (\<lambda>ks. ks), so_cost = (\<lambda>key i ks. ks)\<rparr>"

lemma retry_loops:
  "detectRetryLoops exampleEnv (\<lambda>i. order) retryProject =
    (let byCommand = group_by retryKey
       [attempt 0 ''ls'', attempt 2 ''ls'', attempt 4 ''ls'', attempt 6 ''ps'', attempt 8 ''ps'', attempt 10 ''ps''] in
     concat (map (\<lambda>key.
       let attempts = sort_key fa_resultIndex (map_get byCommand key) in
       case bestWindow (map fa_resultIndex attempts) of (bestStart, bestEnd) \<Rightarrow>
         if bestEnd - bestStart \<ge> 3
         then retryLoopObservations exampleEnv retryProject retrySession (drop bestStart (take bestEnd attempts)) else [])
       (order (map fst byCommand))))"
proof -
  have "enumerate 0 (pp_sessions retryProject) = [(0, retrySession)]" "pp_config retryProject = no_config"
    by (simp_all add: retryProject_def)
  then show ?thesis by (simp add: detectRetryLoops_def sessionRetryLoops_def example_attempts)
qed

abbreviation lsLoop :: "observation list" where
  "lsLoop \<equiv> retryLoopObservations exampleEnv retryProject retrySession [attempt 0 ''ls'', attempt 2 ''ls'', attempt 4 ''ls'']"
abbreviation psLoop :: "observation list" where
  "psLoop \<equiv> retryLoopObservations exampleEnv retryProject retrySession [attempt 6 ''ps'', attempt 8 ''ps'', attempt 10 ''ps'']"

lemma example_windows:
  "group_by retryKey [attempt 0 ''ls'', attempt 2 ''ls'', attempt 4 ''ls'', attempt 6 ''ps'', attempt 8 ''ps'', attempt 10 ''ps''] =
    [(''other'' @ [CHR 0x00] @ ''ls'', [attempt 0 ''ls'', attempt 2 ''ls'', attempt 4 ''ls'']),
     (''other'' @ [CHR 0x00] @ ''ps'', [attempt 6 ''ps'', attempt 8 ''ps'', attempt 10 ''ps''])]"
  by (simp add: group_by_def retryKey_def attempt_def)

lemma best_windows: "bestWindow [1, 3, 5] = (0, 3)" "bestWindow [7, 9, 11] = (0, 3)"
  by code_simp+

lemma retry_loops_in_order:
  "detectRetryLoops exampleEnv (\<lambda>i ks. ks) retryProject = lsLoop @ psLoop"
  "detectRetryLoops exampleEnv (\<lambda>i. rev) retryProject = psLoop @ lsLoop"
proof -
  let ?ls = "[attempt 0 ''ls'', attempt 2 ''ls'', attempt 4 ''ls'']" and ?ps = "[attempt 6 ''ps'', attempt 8 ''ps'', attempt 10 ''ps'']"
  let ?m = "[(''other'' @ [CHR 0x00] @ ''ls'', ?ls), (''other'' @ [CHR 0x00] @ ''ps'', ?ps)]"
  let ?loop = "\<lambda>attempts. case bestWindow (map fa_resultIndex attempts) of (bestStart, bestEnd) \<Rightarrow>
    if bestEnd - bestStart \<ge> 3
    then retryLoopObservations exampleEnv retryProject retrySession (drop bestStart (take bestEnd attempts)) else []"
  have r: "fa_resultIndex (attempt i c) = nat (i + 1)" for i c by (simp add: attempt_def)
  have o: "sort_key fa_resultIndex ?ls = ?ls" "sort_key fa_resultIndex ?ps = ?ps"
    by (simp_all add: r)
  have w: "?loop ?ls = lsLoop" "?loop ?ps = psLoop"
    by (simp_all add: r best_windows [unfolded One_nat_def])
  have g: "map_get ?m (''other'' @ [CHR 0x00] @ ''ls'') = ?ls" "map_get ?m (''other'' @ [CHR 0x00] @ ''ps'') = ?ps"
    by (simp_all add: map_get_def)
  define h where "h = (\<lambda>key. ?loop (sort_key fa_resultIndex (map_get ?m key)))"
  have h: "h (''other'' @ [CHR 0x00] @ ''ls'') = lsLoop" "h (''other'' @ [CHR 0x00] @ ''ps'') = psLoop"
    unfolding h_def g o w by (rule refl)+
  have "map fst ?m = [''other'' @ [CHR 0x00] @ ''ls'', ''other'' @ [CHR 0x00] @ ''ps'']" by simp
  then have d: "detectRetryLoops exampleEnv (\<lambda>i. order) retryProject =
      concat (map h (order [''other'' @ [CHR 0x00] @ ''ls'', ''other'' @ [CHR 0x00] @ ''ps'']))" for order
    unfolding h_def by (simp only: retry_loops example_windows Let_def)
  show "detectRetryLoops exampleEnv (\<lambda>i ks. ks) retryProject = lsLoop @ psLoop"
    unfolding d [of "\<lambda>ks. ks"] list.map h by simp
  show "detectRetryLoops exampleEnv (\<lambda>i. rev) retryProject = psLoop @ lsLoop"
    unfolding d [of rev] rev.simps append.simps list.map h [unfolded append.simps] by simp
qed

abbreviation loopKey :: gostring where
  "loopKey \<equiv> DetectorRetryLoop @ [CHR 0x00] @ ''p'' @ [CHR 0x00] @ ''other'' @ [CHR 0x00] @ ''structured command failure''"

lemma retry_observation:
  assumes "ob \<in> set (lsLoop @ psLoop)"
  shows "complete_observation ob" "groupKey ob = loopKey" "observed_sessions ob = {''s''}"
    "ob_detectorID ob = DetectorRetryLoop"
  using assms
  by (auto simp: retryLoopObservations_def observationsOf_def attempt_def Let_def complete_observation_def groupKey_def
    observed_sessions_def span_key_def windowSpan_def sessionRef_def retrySession_def exampleInput_def retryProject_def
    failedTurn_def exampleTurn_def time_zero_def in_set_enumerate_eq split: if_splits)

lemma retry_loops_nonempty: "lsLoop \<noteq> []" "psLoop \<noteq> []" "length lsLoop = 3" "length psLoop = 3"
  "ob_subject (hd lsLoop) = CHR 0x60 # ''ls'' @ [CHR 0x60]" "ob_subject (hd psLoop) = CHR 0x60 # ''ps'' @ [CHR 0x60]"
proof -
  have c: "commandSubject ''ls'' = CHR 0x60 # ''ls'' @ [CHR 0x60]" "commandSubject ''ps'' = CHR 0x60 # ''ps'' @ [CHR 0x60]"
    by code_simp+
  show "lsLoop \<noteq> []" "psLoop \<noteq> []" "length lsLoop = 3" "length psLoop = 3"
    "ob_subject (hd lsLoop) = CHR 0x60 # ''ls'' @ [CHR 0x60]" "ob_subject (hd psLoop) = CHR 0x60 # ''ps'' @ [CHR 0x60]"
    by (simp_all add: retryLoopObservations_def observationsOf_def Let_def attempt_def c numeral_3_eq_3)
qed

lemma absorbed_excerpts: "og_excerpts (foldl absorb g vs) = foldl mergeExcerpts (og_excerpts g) (map ob_excerpts vs)"
  by (induction vs arbitrary: g) (simp_all add: absorb_def)

abbreviation failure :: "int \<Rightarrow> Excerpt" where "failure i \<equiv> excerptFromTurn exampleEnv (failedTurn i)"

lemma loop_excerpts:
  "map ob_excerpts lsLoop = [[failure 1, failure 3, failure 5], [failure 3], [failure 5]]"
  "map ob_excerpts psLoop = [[failure 7, failure 9, failure 11], [failure 9], [failure 11]]"
  by (simp_all add: retryLoopObservations_def observationsOf_def Let_def attempt_def excerptsOf_def)

lemma merged_loops:
  "length (foldl mergeExcerpts [] (map ob_excerpts (lsLoop @ psLoop))) = 5"
  "length (foldl mergeExcerpts [] (map ob_excerpts (psLoop @ lsLoop))) = 5"
  unfolding map_append loop_excerpts by code_simp+

lemma group_by_constant: "xs \<noteq> [] \<Longrightarrow> \<forall>x\<in>set xs. f x = k \<Longrightarrow> group_by f xs = [(k, xs)]"
proof (induction xs rule: rev_induct)
  case (snoc x xs)
  then show ?case by (cases "xs = []") (simp_all add: group_by_snoc, simp add: group_by_def)
qed simp

lemma retry_headline:
  assumes "obs = lsLoop @ psLoop \<or> obs = psLoop @ lsLoop"
  shows "map is_Headline (aggregateIssues exampleEnv (ordersWith order 0) retryProject obs) =
    [headline DetectorRetryLoop (ob_subject (hd obs)) 6 1]"
proof -
  have ob: "complete_observation v" "groupKey v = loopKey" "observed_sessions v = {''s''}" "ob_detectorID v = DetectorRetryLoop"
    if "v \<in> set obs" for v
    using retry_observation [of v] assms that by auto
  have ne: "obs \<noteq> []" using assms retry_loops_nonempty by auto
  have "filter complete_observation obs = obs" using ob(1) by (auto simp: filter_id_conv)
  then have g: "observation_groups obs = [(loopKey, obs)]"
    using group_by_constant [OF ne, of groupKey loopKey] ob(2) by (simp add: observation_groups_def)
  have "length (og_excerpts (groupOf obs)) = 5"
    using assms merged_loops by (auto simp: groupOf_def absorbed_excerpts new_group_def)
  moreover have "length (groupSessions (groupOf obs)) = 1"
  proof -
    have "(\<Union>v\<in>set obs. observed_sessions v) = {''s''}" using ob(3) ne by (auto simp: neq_Nil_conv)
    then show ?thesis
      using groupOf_props(9,10) [OF ne] distinct_card [of "map fst (og_sessions (groupOf obs))"] by (simp add: groupSessions_def)
  qed
  moreover have "og_subject (groupOf obs) = ob_subject (hd obs)" "length (og_occurrences (groupOf obs)) = 6"
    "og_detectorID (groupOf obs) = DetectorRetryLoop"
    using groupOf_props(1,3) [OF ne] ob(4) [OF hd_in_set [OF ne]] assms retry_loops_nonempty
    by (auto simp: groupOf_def absorb_fields new_group_def)
  ultimately show ?thesis
    by (simp add: aggregateIssues_def g ordersWith_def map_get_def sortIssues_def sort_slice_def insert_right_def issueOf_def Let_def)
qed

text \<open>
  The order in which a map is ranged over shows in the answer: two commands of one session with the same class and
  no error of their own share an issue, and the headline names the command whose loop came first.
\<close>
theorem retry_headline_depends_on_map_order:
  "map is_Headline (aggregateIssues exampleEnv (ordersWith (\<lambda>ks. ks) 0) retryProject
      (detectRetryLoops exampleEnv (\<lambda>i ks. ks) retryProject)) =
    [CHR 0x60 # ''ls'' @ [CHR 0x60] @ '' failed 6 times across 1 sessions.''] \<and>
   map is_Headline (aggregateIssues exampleEnv (ordersWith rev 0) retryProject
      (detectRetryLoops exampleEnv (\<lambda>i. rev) retryProject)) =
    [CHR 0x60 # ''ps'' @ [CHR 0x60] @ '' failed 6 times across 1 sessions.'']"
proof -
  have "headline DetectorRetryLoop (CHR 0x60 # ''ls'' @ [CHR 0x60]) 6 1 = CHR 0x60 # ''ls'' @ [CHR 0x60] @ '' failed 6 times across 1 sessions.''"
    "headline DetectorRetryLoop (CHR 0x60 # ''ps'' @ [CHR 0x60]) 6 1 = CHR 0x60 # ''ps'' @ [CHR 0x60] @ '' failed 6 times across 1 sessions.''"
    by code_simp+
  then show ?thesis
    using retry_headline [of "lsLoop @ psLoop" "\<lambda>ks. ks"] retry_headline [of "psLoop @ lsLoop" rev] retry_loops_nonempty
    by (simp only: retry_loops_in_order hd_append2 simp_thms)
qed

end
