(* ===== verification/Issue_Retained.thy ===== *)
theory Issue_Retained
  imports Issue_Classify Cand_Properties
begin

text \<open>
  The verification commands the classifier retains: they are parts of what was run, and the records of procedures
  the candidate compiler makes with the classifier hold such commands.
\<close>

section \<open>Parts of a command line\<close>

definition part_of :: "gostring \<Rightarrow> gostring \<Rightarrow> bool" where
  "part_of p s \<longleftrightarrow> (\<exists>u v. s = u @ p @ v)"

lemma part_of_refl: "part_of s s"
  unfolding part_of_def by (rule exI [of _ "[]"], rule exI [of _ "[]"]) simp

lemma part_of_trans: "part_of a b \<Longrightarrow> part_of b c \<Longrightarrow> part_of a c"
  unfolding part_of_def by (metis append.assoc)

lemma part_of_trim: "part_of (trim_space s) s"
  using trim_space_infix [of s] by (simp add: part_of_def)

lemma find_and_and_parts:
  "find_and_and q e before s = Some (left, right) \<Longrightarrow> rev before @ s = left @ ''&&'' @ right"
  by (induction q e before s rule: find_and_and.induct) (auto split: if_splits option.splits)

lemma split_part:
  assumes "splitTopLevelAndAnd s = Some (left, right)"
  shows "part_of right s"
proof -
  from assms obtain l r where lr: "find_and_and None False [] s = Some (l, r)" "right = trim_space r"
    by (auto simp: splitTopLevelAndAnd_def split: option.splits if_splits)
  from find_and_and_parts [OF lr(1)] have "s = (l @ ''&&'') @ r @ []" by simp
  then have "part_of r s" unfolding part_of_def by blast
  with part_of_trans [OF part_of_trim] lr(2) show ?thesis by simp
qed

lemma unwrapped_part: "c \<in> set (unwrapped E n s) \<Longrightarrow> part_of c s"
proof (induction n arbitrary: s)
  case (Suc n)
  then obtain left right where lr: "splitTopLevelAndAnd s = Some (left, right)"
      "c = right \<or> c \<in> set (unwrapped E n right)"
    by (cases "splitTopLevelAndAnd s") (auto split: if_splits)
  from lr(2) Suc.IH [of right] part_of_refl have "part_of c right" by blast
  from part_of_trans [OF this split_part [OF lr(1)]] show ?case .
qed simp

lemma unwrapped_wrapped:
  "unwrapped E n s \<noteq> [] \<Longrightarrow> \<exists>left right. splitTopLevelAndAnd s = Some (left, right) \<and> workingDirectoryWrapper E left"
  by (cases n; cases "splitTopLevelAndAnd s") (auto split: if_splits)

lemma candidate_part: "c \<in> set (verificationCommandCandidates E raw) \<Longrightarrow> part_of c raw"
  using unwrapped_part part_of_trans part_of_trim
  by (fastforce simp: verificationCommandCandidates_def Let_def split: if_splits)

lemma RetainedVerificationCommand_Some:
  assumes "RetainedVerificationCommand E config turn = Some (cls, command)"
  shows "cls \<in> set verificationClasses" "command \<in> set (verificationCommandCandidates E (rawCommandOf E turn))"
    "classifyCommandCandidate E config command = cls"
  using assms by (auto simp: RetainedVerificationCommand_def Let_def find_Some_iff in_set_conv_nth split: if_splits)

section \<open>The two readings of a verification\<close>

lemma verificationClassFromWords_range:
  "verificationClassFromWords E v \<in> insert ''other'' (set verificationClasses)"
  by (simp add: verificationClassFromWords_def verificationClasses_def Let_def)

lemma verificationClassFromExecutable_range:
  "verificationClassFromExecutable E v \<in> insert ''other'' (set verificationClasses)"
  by (simp add: verificationClassFromExecutable_def verificationClasses_def Let_def)

lemma executableClass_range: "executableClass E n ws \<in> insert ''other'' (set verificationClasses)"
proof -
  define S where "S = insert ''other'' (set verificationClasses)"
  have c: "''test'' \<in> S" "''build'' \<in> S" "''typecheck'' \<in> S" "''lint'' \<in> S" "''format_check'' \<in> S"
    "verificationClassFromWords E v \<in> S" "verificationClassFromExecutable E v \<in> S" for v
    using verificationClassFromWords_range verificationClassFromExecutable_range
    by (simp_all add: S_def verificationClasses_def)
  show ?thesis unfolding executableClass_def Let_def S_def [symmetric] by (simp add: c)
qed

lemma candidate_range: "classifyCommandCandidate E config raw \<in> insert ''other'' (set verificationClasses)"
proof -
  have b: "''build'' \<in> insert ''other'' (set verificationClasses)" by (simp add: verificationClasses_def)
  have "cls \<in> insert ''other'' (set verificationClasses)" if "configuredClass E config n = Some cls" for cls n
    using that b verificationClassFromWords_range [of E]
    by (auto simp: configuredClass_def Let_def split: option.splits if_splits)
  then show ?thesis
    using executableClass_range [of E] by (auto simp: classifyCommandCandidate_def Let_def split: option.splits list.splits)
qed

lemma find_map: "find P (map f xs) = map_option f (find (P \<circ> f) xs)"
  by (induction xs) auto

lemma other_not_verification: "''other'' \<notin> set verificationClasses"
  by (simp add: verificationClasses_def)

text \<open>
  C36. The two readings of a verification agree: a turn with a command counts as a verification for the issue detectors
  exactly when the classifier of the derivation retains a verification command from it. The command retained is part of
  the command line that was run; it is the whole line without the spaces around it, or the line begins with a
  change of directory; and its class is one of the five classes of verification.
\<close>
theorem verification_readings_agree:
  assumes "commandInfo E config turn = Some info"
  shows "(isVerificationTurn E config turn \<longleftrightarrow> RetainedVerificationCommand E config turn \<noteq> None) \<and>
    (\<forall>cls command. RetainedVerificationCommand E config turn = Some (cls, command) \<longrightarrow>
      cls \<in> set verificationClasses \<and> fst info = cls \<and> part_of command (rawCommandOf E turn) \<and>
      (command = trim_space (rawCommandOf E turn) \<or>
       (\<exists>left right. splitTopLevelAndAnd (trim_space (rawCommandOf E turn)) = Some (left, right) \<and>
         workingDirectoryWrapper E left)))"
proof -
  let ?raw = "rawCommandOf E turn" and ?f = "classifyCommandCandidate E config"
  let ?cs = "verificationCommandCandidates E ?raw"
  from assms have raw: "?raw \<noteq> []" and info: "fst info = classifyCommand E config ?raw"
    by (auto simp: commandInfo_def Let_def split: if_splits)
  have P: "(\<lambda>cls. cls \<noteq> ''other'') \<circ> ?f = (\<lambda>c. ?f c \<in> set verificationClasses)"
    using candidate_range [of E config] other_not_verification by fastforce
  have found: "RetainedVerificationCommand E config turn =
      map_option (\<lambda>c. (?f c, c)) (find (\<lambda>c. ?f c \<in> set verificationClasses) ?cs)"
    using raw by (simp add: RetainedVerificationCommand_def find_map o_def)
  have cls: "classifyCommand E config ?raw =
      (case find (\<lambda>c. ?f c \<in> set verificationClasses) ?cs of None \<Rightarrow> ''other'' | Some c \<Rightarrow> ?f c)"
    unfolding classifyCommand_def find_map P by (simp split: option.split)
  have a: "isVerificationTurn E config turn \<longleftrightarrow> fst info \<in> set verificationClasses"
    using assms by (simp add: isVerificationTurn_def split: prod.split)
  have "isVerificationTurn E config turn \<longleftrightarrow> RetainedVerificationCommand E config turn \<noteq> None"
  proof (cases "find (\<lambda>c. ?f c \<in> set verificationClasses) ?cs")
    case None
    with other_not_verification show ?thesis unfolding a info cls found by simp
  next
    case (Some c)
    then have "?f c \<in> set verificationClasses" by (auto simp: find_Some_iff)
    with Some show ?thesis unfolding a info cls found by simp
  qed
  moreover have "cls' \<in> set verificationClasses \<and> fst info = cls' \<and> part_of command ?raw \<and>
      (command = trim_space ?raw \<or>
       (\<exists>left right. splitTopLevelAndAnd (trim_space ?raw) = Some (left, right) \<and> workingDirectoryWrapper E left))"
    if r: "RetainedVerificationCommand E config turn = Some (cls', command)" for cls' command
  proof -
    note s = RetainedVerificationCommand_Some [OF r]
    from r found have "find (\<lambda>c. ?f c \<in> set verificationClasses) ?cs = Some command" by auto
    with info cls s(3) have "fst info = cls'" by simp
    moreover have "command = trim_space ?raw \<or> unwrapped E 4 (trim_space ?raw) \<noteq> []"
      using s(2) by (auto simp: verificationCommandCandidates_def Let_def split: if_splits)
    ultimately show ?thesis using s(1) candidate_part [OF s(2)] unwrapped_wrapped by blast
  qed
  ultimately show ?thesis by blast
qed

section \<open>Procedures\<close>

lemma commandRefs_located:
  assumes "foldl (commandRef P outcome) (Some (None, None)) refs = Some (Some (call, callRef), res)"
  shows "lookupTurn P callRef = Some call"
proof -
  define inv where "inv = (\<lambda>s. \<forall>t ref (res :: located).
    s = Some (Some (t, ref), res) \<longrightarrow> lookupTurn P ref = Some t)"
  have step: "inv (commandRef P outcome s ref)" if "inv s" for s ref
    using that by (cases s) (auto simp: inv_def commandRef_def split: option.splits Role.splits if_splits)
  have "inv s \<Longrightarrow> inv (foldl (commandRef P outcome) s refs)" for s
  proof (induction refs arbitrary: s)
    case (Cons ref refs)
    from Cons.IH [OF step [OF Cons.prems]] show ?case by simp
  qed simp
  from this [of "Some (None, None)"] assms show ?thesis by (simp add: inv_def)
qed

text \<open>
  What the candidate compiler relies on in the rules it is given: a verification command has one of a few classes and is a
  part of the command line of the turn.
\<close>

locale verification_source =
  fixes rules :: compile_rules and classes :: "gostring list" and command_line :: "Turn \<Rightarrow> gostring"
  assumes verification: "cr_VerificationCommand rules key turn = Some (cls, command) \<Longrightarrow>
    cls \<in> set classes \<and> part_of command (command_line turn)"
begin

lemma record_verifies:
  assumes "procedureRecord rules P outcome = Some r"
  shows "spr_CommandClass r \<in> set classes \<and>
    (\<exists>call. lookupTurn P (spr_VerifierCallRef r) = Some call \<and> part_of (spr_RawCommand r) (command_line call))"
proof -
  from assms obtain call callRef res resultRef cls command where
    c: "commandOutcomeTurns P outcome = Some (call, callRef, res, resultRef)"
      "cr_VerificationCommand rules (oc_SessionKey outcome) call = Some (cls, command)"
    and r: "spr_CommandClass r = cls" "spr_RawCommand r = command" "spr_VerifierCallRef r = callRef"
    by (auto simp: procedureRecord_def Let_def split: if_splits option.splits)
  have "lookupTurn P callRef = Some call"
    using c(1) commandRefs_located by (auto simp: commandOutcomeTurns_def split: option.splits if_splits)
  with verification [OF c(2)] r show ?thesis by blast
qed

end

interpretation classified: verification_source "classifier E configs session" verificationClasses "rawCommandOf E" for E configs session
proof
  fix key turn cls command
  assume "cr_VerificationCommand (classifier E configs session) key turn = Some (cls, command)"
  then have r: "RetainedVerificationCommand E (configs key) turn = Some (cls, command)" by (simp add: classifier_def)
  note s = RetainedVerificationCommand_Some [OF r]
  from s candidate_part [OF s(2)] show "cls \<in> set verificationClasses \<and> part_of command (rawCommandOf E turn)" by blast
qed

text \<open>
  C35. A procedure verifies with what was run: a record the compiler makes with the classifier names, as its
  verification, a part of the command line of the call it cites, a turn of the input, and its class is one of the five.
\<close>
theorem procedures_verify_with_what_was_run:
  assumes "procedureRecord (classifier E configs session) P outcome = Some r"
  shows "spr_CommandClass r \<in> set verificationClasses \<and>
    (\<exists>call. lookupTurn P (spr_VerifierCallRef r) = Some call \<and> part_of (spr_RawCommand r) (rawCommandOf E call))"
  using assms by (rule classified.record_verifies)

end
