(* ===== verification/Issue_Witness.thy ===== *)
theory Issue_Witness
  imports Issue_Example Issue_Retained Cand_Example
begin

text \<open>The properties of the issue detectors on concrete sessions.\<close>

section \<open>Costs\<close>

definition billedTurn :: "int \<Rightarrow> int \<Rightarrow> float64 option \<Rightarrow> Turn" where
  "billedTurn i tokens usd = (exampleTurn i RoleAssistant [] zero_payload)\<lparr>tn_InputTokens := Some tokens, tn_CostUSD := usd\<rparr>"

definition billedSession :: IssueSession where
  "billedSession = \<lparr>ss_Metadata = di_Session exampleInput,
     ss_Turns = [billedTurn 0 0 None, billedTurn 1 7 None, billedTurn 2 5 (Some (FloatFinite 1)), billedTurn 3 0 None]\<rparr>"

definition billedProject :: preparedProject where
  "billedProject = retryProject\<lparr>pp_sessions := [billedSession]\<rparr>"

theorem turns_are_charged_once_witness:
  "let spans = [windowSpan billedSession 0 2, windowSpan billedSession 1 3];
       cost = attributedCost (\<lambda>i ks. ks) billedProject spans [] in
   ct_WastedTokens cost = 12 \<and> ct_LowerBound cost \<and> ct_WastedUSD cost \<noteq> None"
proof -
  let ?spans = "[windowSpan billedSession 0 2, windowSpan billedSession 1 3]"
  let ?sel = "{(key, i). selects (pp_sessions billedProject) ?spans key i}"
  have s: "sessionOf (pp_sessions billedProject) k = (if k = ''s'' then Some billedSession else None)" for k
    by (simp add: sessionOf_def billedProject_def billedSession_def exampleInput_def)
  have k: "span_key (windowSpan billedSession a b) = ''s''" for a b
    by (simp add: span_key_def windowSpan_def sessionRef_def billedSession_def exampleInput_def)
  have l: "length (turns_of (pp_sessions billedProject) ''s'') = 4" by (simp add: turns_of_def s billedSession_def)
  have "?sel = {''s''} \<times> {0, 1, 2, 3}"
    unfolding selects_def using s k l by (auto simp: windowSpan_def)
  moreover have t: "turns_of (pp_sessions billedProject) ''s'' = ss_Turns billedSession" by (simp add: turns_of_def s)
  moreover have tok: "turnTokens (ss_Turns billedSession ! 0) = 0" "turnTokens (ss_Turns billedSession ! 1) = 7"
    "turnTokens (ss_Turns billedSession ! 2) = 5" "turnTokens (ss_Turns billedSession ! 3) = 0"
    "tn_CostUSD (ss_Turns billedSession ! 1) = None" "tn_CostUSD (ss_Turns billedSession ! 2) \<noteq> None"
    by code_simp+
  ultimately have c: "(\<Sum>place\<in>?sel. turnTokens (turn_at billedProject place)) = 12"
    and e: "(''s'', 1) \<in> ?sel" "turn_at billedProject (''s'', 1) = ss_Turns billedSession ! 1"
      "(''s'', 2) \<in> ?sel" "turn_at billedProject (''s'', 2) = ss_Turns billedSession ! 2"
    by (simp_all add: sum.cartesian_product' [symmetric] sum.Sigma [symmetric])
  have "wrap64 12 = 12" by code_simp
  moreover have "\<exists>place\<in>?sel. tn_CostUSD (turn_at billedProject place) = None \<and> turnTokens (turn_at billedProject place) > 0"
    using e tok by (intro bexI [of _ "(''s'', 1)"]) simp_all
  moreover have "\<not> (\<forall>place\<in>?sel. tn_CostUSD (turn_at billedProject place) = None)"
    using e tok by force
  ultimately show ?thesis
    using turns_are_charged_once [of "\<lambda>i ks. ks" ?spans billedProject "[]", OF refl list.distinct(2)] c
    unfolding Let_def by simp
qed

section \<open>Command lines and verification\<close>

definition verifyTurn :: Turn where
  "verifyTurn = callTurn 1 ''cd src && go test''"

theorem tokens_are_bounded_witness:
  "firstLogicalCommandTokens ''go  'a b'; ls'' = Some [''go'', ''a b''] \<and> length (trim_space ''go  'a b'; ls'') \<le> 16384"
proof -
  have t: "firstLogicalCommandTokens ''go  'a b'; ls'' = Some [''go'', ''a b'']" by code_simp
  from tokens_are_bounded [OF t] t show ?thesis by blast
qed

theorem quoted_words_are_read_back_witness:
  "firstLogicalCommandTokens (join_with '' '' (map quoted [''go'', ''a; b'']) @ '' | wc'') = Some [''go'', ''a; b'']"
proof (rule quoted_words_are_read_back)
  show "command_end '' | wc''" by code_simp
  show "trim_space (join_with '' '' (map quoted [''go'', ''a; b'']) @ '' | wc'') =
      join_with '' '' (map quoted [''go'', ''a; b'']) @ '' | wc''" by code_simp
  show "length (join_with '' '' (map quoted [''go'', ''a; b'']) @ '' | wc'') \<le> 16384" by (simp add: quoted_def)
qed simp_all

theorem verification_readings_agree_witness:
  "RetainedVerificationCommand exampleEnv no_config verifyTurn = Some (''test'', ''go test'') \<and>
   isVerificationTurn exampleEnv no_config verifyTurn \<and> part_of ''go test'' (rawCommandOf exampleEnv verifyTurn)"
proof -
  have r: "RetainedVerificationCommand exampleEnv no_config verifyTurn = Some (''test'', ''go test'')" by code_simp
  have "commandInfo exampleEnv no_config verifyTurn \<noteq> None" by code_simp
  then obtain info where i: "commandInfo exampleEnv no_config verifyTurn = Some info" by blast
  from verification_readings_agree [OF i] r show ?thesis by auto
qed

definition pathEnv :: text_env where
  "pathEnv = exampleEnv\<lparr>te_json := (\<lambda>s. if s = ''j'' then Some (JObject [(''path'', JString ''a.go'')]) else None)\<rparr>"

definition pathEdit :: "int \<Rightarrow> Turn" where
  "pathEdit i = exampleTurn i RoleToolCall ''Edit'' (zero_payload\<lparr>pl_ToolCallID := ''b'', pl_ToolInput := ''j''\<rparr>)"

definition procedurePlan :: compiler where
  "procedurePlan = \<lparr>cp_projectIdentity = ''p'', cp_turns = [pathEdit 2, testTurn ''go test'', resultTurn], cp_ambiguousTurns = [],
     cp_edges = [verifiesEdge], cp_outcomes = [passOutcome]\<rparr>"

theorem procedures_verify_with_what_was_run_witness:
  "\<exists>r. procedureRecord (classifier pathEnv (\<lambda>key. no_config) ''s'') procedurePlan passOutcome = Some r \<and>
     spr_CommandClass r = ''test'' \<and> spr_RawCommand r = ''go test'' \<and> spr_MutationPaths r = [''a.go''] \<and>
     part_of (spr_RawCommand r) (rawCommandOf pathEnv (testTurn ''go test''))"
proof -
  have p: "map_option (\<lambda>r. (spr_CommandClass r, spr_RawCommand r, spr_MutationPaths r, lookupTurn procedurePlan (spr_VerifierCallRef r)))
      (procedureRecord (classifier pathEnv (\<lambda>key. no_config) ''s'') procedurePlan passOutcome) =
    Some (''test'', ''go test'', [''a.go''], Some (testTurn ''go test''))"
    by code_simp
  then obtain r where r: "procedureRecord (classifier pathEnv (\<lambda>key. no_config) ''s'') procedurePlan passOutcome = Some r"
    "spr_CommandClass r = ''test''" "spr_RawCommand r = ''go test''" "spr_MutationPaths r = [''a.go'']"
    "lookupTurn procedurePlan (spr_VerifierCallRef r) = Some (testTurn ''go test'')"
    by auto
  from procedures_verify_with_what_was_run [OF r(1)] r show ?thesis by auto
qed

section \<open>What the detectors report\<close>

definition claimTurns :: "Turn list" where
  "claimTurns = [exampleTurn 0 RoleUser [] (zero_payload\<lparr>pl_Text := ''fix it''\<rparr>), pathEdit 1,
     exampleTurn 2 RoleAssistant [] (zero_payload\<lparr>pl_Text := ''All done''\<rparr>)]"

theorem unverified_claims_are_exact_witness:
  "unverifiedClaims pathEnv no_config claimTurns = [(1, 2)] \<and>
   claims_completion claimTurns 2 \<and> same_task claimTurns 1 2 \<and> editedFiles pathEnv (claimTurns ! 1) \<noteq> []"
proof -
  have c: "unverifiedClaims pathEnv no_config claimTurns = [(1, 2)]" by code_simp
  then have "(1, 2) \<in> set (unverifiedClaims pathEnv no_config claimTurns)" by simp
  then show ?thesis unfolding unverified_claims_are_exact using c by auto
qed

definition permissionTurns :: "gostring \<Rightarrow> Turn list" where
  "permissionTurns answer = concat (replicate 5 [callTurn 0 ''ls'', exampleTurn 1 RoleUser [] (zero_payload\<lparr>pl_Text := ''yes''\<rparr>)]) @
     [callTurn 2 ''ps'', exampleTurn 3 RoleUser [] (zero_payload\<lparr>pl_Text := answer\<rparr>)]"

definition permissionProject :: preparedProject where
  "permissionProject = retryProject\<lparr>pp_sessions := [retrySession\<lparr>ss_Turns := permissionTurns ''no''\<rparr>]\<rparr>"

theorem permission_suggestions_are_exact_witness:
  "(\<exists>ob\<in>set (detectPermissionChurn exampleEnv (\<lambda>ks. ks) permissionProject). ob_fingerprint ob = ''bash'' @ [CHR 0x00] @ ''ls'') \<and>
   \<not> (\<exists>ob\<in>set (detectPermissionChurn exampleEnv (\<lambda>ks. ks) permissionProject). ob_fingerprint ob = ''bash'' @ [CHR 0x00] @ ''ps'')"
proof -
  have "map (\<lambda>(p, a). (p, a \<noteq> None)) (permissionAnswers exampleEnv permissionProject) =
      replicate 5 (''bash'' @ [CHR 0x00] @ ''ls'', True) @ [(''bash'' @ [CHR 0x00] @ ''ps'', False)]"
    by code_simp
  then have c: "map (\<lambda>(p, a). (p, a \<noteq> None)) (permissionAnswers exampleEnv permissionProject) = \<dots>" .
  have n: "length (filter (\<lambda>(p, a). p = q \<and> a \<noteq> None) xs) = length (filter (\<lambda>(p, b). p = q \<and> b) (map (\<lambda>(p, a). (p, a \<noteq> None)) xs))"
    and d: "(q, None) \<in> set xs \<longleftrightarrow> (q, False) \<in> set (map (\<lambda>(p, a). (p, a \<noteq> None)) xs)" for q and xs :: "(gostring \<times> approval option) list"
    by (induction xs) (auto split: prod.splits)
  show ?thesis
    unfolding permission_suggestions_are_exact [of "\<lambda>ks. ks", OF refl] n d c by simp
qed

definition failureTurn :: "gostring \<Rightarrow> Turn" where
  "failureTurn text = exampleTurn 1 RoleToolResult ''Bash'' (zero_payload\<lparr>pl_ToolResult := text, pl_ToolIsError := Some True\<rparr>)"

definition recurringProject :: preparedProject where
  "recurringProject = retryProject\<lparr>pp_sessions :=
     [retrySession\<lparr>ss_Turns := [callTurn 0 ''ls'', failureTurn ''error: gone'']\<rparr>,
      retrySession\<lparr>ss_Turns := [callTurn 0 ''ps'', failureTurn ''Error:  gone'']\<rparr>,
      retrySession\<lparr>ss_Turns := [callTurn 0 ''ls'', failureTurn ''error: here'']\<rparr>]\<rparr>"

theorem recurring_errors_are_exact_witness:
  "(\<exists>ob\<in>set (detectRecurringErrors exampleEnv (\<lambda>ks. ks) recurringProject). ob_fingerprint ob = ''p'' @ [CHR 0x00] @ ''error: gone'') \<and>
   \<not> (\<exists>ob\<in>set (detectRecurringErrors exampleEnv (\<lambda>ks. ks) recurringProject). ob_fingerprint ob = ''p'' @ [CHR 0x00] @ ''error: here'')"
proof -
  have p: "ip_Identity (pp_project recurringProject) = ''p''" by (simp add: recurringProject_def retryProject_def)
  have "map (\<lambda>s. map fa_errorSig (failedCommandAttempts exampleEnv s (pp_config recurringProject))) (pp_sessions recurringProject) =
      [[''error: gone''], [''error: gone''], [''error: here'']]"
    by code_simp
  then have c: "map (\<lambda>s. map fa_errorSig (failedCommandAttempts exampleEnv s (pp_config recurringProject))) (pp_sessions recurringProject) = \<dots>" .
  have n: "length (filter (failed_with E config q) xs) =
      length (filter (\<lambda>sigs. q \<in> set sigs) (map (\<lambda>s. map fa_errorSig (failedCommandAttempts E s config)) xs))" for E config q xs
    by (induction xs) (auto simp: failed_with_def)
  have "?thesis = (2 \<le> length (filter (failed_with exampleEnv (pp_config recurringProject) ''error: gone'') (pp_sessions recurringProject)) \<and>
      \<not> 2 \<le> length (filter (failed_with exampleEnv (pp_config recurringProject) ''error: here'') (pp_sessions recurringProject)))"
    using recurring_errors_are_exact [of "\<lambda>ks. ks" exampleEnv recurringProject, OF refl] by (simp add: p)
  also have "\<dots>" unfolding n c by simp
  finally show ?thesis .
qed

section \<open>Scopes\<close>

theorem repository_search_ends_at_nearest_witness:
  "repositoryRoot exampleScopes ''/w/a/b'' = ''/w'' \<and> repositoryRoot exampleScopes ''/x/a'' = ''/x/a'' \<and>
   root_from exampleScopes (Suc (length ''/w/a/b'')) ''/w/a/b'' ''/w/a/b'' = Some ''/w''"
proof -
  have n: "normalizedScopePath exampleScopes '' /w//a/./b '' = ''/w/a/b''" by code_simp
  have r: "repositoryRoot exampleScopes ''/w/a/b'' = ''/w''" "repositoryRoot exampleScopes ''/x/a'' = ''/x/a''" by code_simp+
  have "root_from exampleScopes (Suc (length ''/w/a/b'')) ''/w/a/b'' ''/w/a/b'' = Some (repositoryRoot exampleScopes ''/w/a/b'')"
    using repository_search_ends_at_nearest [OF n list.distinct(2)] by blast
  with r show ?thesis by simp
qed

definition placedSession :: "gostring \<Rightarrow> IssueSession" where
  "placedSession path = retrySession\<lparr>ss_Turns := [exampleTurn 0 RoleUser [] (zero_payload\<lparr>pl_CWD := path\<rparr>)]\<rparr>"

definition placedProject :: preparedProject where
  "placedProject = retryProject\<lparr>pp_project := \<lparr>ip_Identity = ''/x'', ip_Path = ''/x''\<rparr>,
     pp_sessions := [placedSession ''/w/a'', placedSession ''/x'', placedSession ''/w/b'']\<rparr>"

theorem scopes_partition_sessions_witness:
  "map ip_Path (map pp_project (scopedProjects exampleScopes placedProject)) = [''/w'', ''/x''] \<and>
   distinct (map effectiveScopeIdentity (scopedProjects exampleScopes placedProject)) \<and>
   map (length \<circ> pp_sessions) (scopedProjects exampleScopes placedProject) = [2, 1]"
proof -
  have l: "localPathIdentity (ip_Identity (pp_project placedProject))" by code_simp
  have "map ip_Path (map pp_project (scopedProjects exampleScopes placedProject)) = [''/w'', ''/x'']"
    "map (length \<circ> pp_sessions) (scopedProjects exampleScopes placedProject) = [2, 1]"
    by code_simp+
  with l show ?thesis using scopes_partition_sessions [of exampleScopes placedProject] by blast
qed

section \<open>Issues\<close>

lemma UN_constant_list: "xs \<noteq> [] \<Longrightarrow> \<forall>x\<in>set xs. f x = A \<Longrightarrow> (\<Union>x\<in>set xs. f x) = A"
  by (cases xs) auto

lemma example_groups:
  "filter (\<lambda>v. complete_observation v \<and> groupKey v = loopKey) (lsLoop @ psLoop) = lsLoop @ psLoop"
  using retry_observation(1,2) by (auto simp: filter_id_conv)

theorem issues_summarise_their_observations_witness:
  "\<exists>x\<in>set (aggregateIssues exampleEnv (ordersWith (\<lambda>ks. ks) 0) retryProject (lsLoop @ psLoop)).
     is_DetectorID x = DetectorRetryLoop \<and> is_SessionCount x = 1 \<and> 2 \<le> length (is_Excerpts x)"
proof -
  let ?obs = "lsLoop @ psLoop" and ?orders = "ordersWith (\<lambda>ks. ks) 0"
  let ?members = "\<lambda>key. filter (\<lambda>v. complete_observation v \<and> groupKey v = key) ?obs"
  let ?issue = "\<lambda>key. issueOf exampleEnv (so_cost ?orders key) retryProject (groupOf (?members key))"
  have orders: "mset (so_groups ?orders ks) = mset ks" for ks by (simp add: ordersWith_def)
  have ne: "?obs \<noteq> []" using retry_loops_nonempty by auto
  have five: "length (og_excerpts (groupOf ?obs)) = 5"
    using merged_loops by (simp add: groupOf_def absorbed_excerpts new_group_def)
  from issues_summarise_their_observations [of ?orders ?obs exampleEnv retryProject, OF orders]
  obtain keys where k: "\<forall>key. key \<in> set keys \<longleftrightarrow> ?members key \<noteq> [] \<and> 2 \<le> length (og_excerpts (groupOf (?members key)))"
    and m: "mset (aggregateIssues exampleEnv ?orders retryProject ?obs) = mset (map ?issue keys)"
    and x: "\<forall>key\<in>set keys. let x = ?issue key in
      is_DetectorID x = ob_detectorID (hd (?members key)) \<and>
      is_FirstSeen x = Min (ob_firstSeen ` set (?members key)) \<and> is_LastSeen x = Max (ob_lastSeen ` set (?members key)) \<and>
      is_SessionCount x = card (\<Union>v\<in>set (?members key). observed_sessions v) \<and>
      2 \<le> length (is_Excerpts x) \<and> length (is_Excerpts x) \<le> 5 \<and> distinct (map excerptKey (is_Excerpts x)) \<and>
      set (is_Excerpts x) \<subseteq> (\<Union>v\<in>set (?members key). set (ob_excerpts v))"
    by blast
  have key: "loopKey \<in> set keys"
    unfolding spec [OF k, of loopKey] example_groups five using ne by simp
  have i: "?issue loopKey \<in> set (aggregateIssues exampleEnv ?orders retryProject ?obs)"
    unfolding mset_eq_setD [OF m] set_map by (rule imageI [OF key])
  have "(\<Union>v\<in>set ?obs. observed_sessions v) = {''s''}"
    by (rule UN_constant_list [OF ne]) (intro ballI, rule retry_observation(3))
  then have c: "card (\<Union>v\<in>set ?obs. observed_sessions v) = 1" by simp
  have d: "ob_detectorID (hd ?obs) = DetectorRetryLoop" by (rule retry_observation(4) [OF hd_in_set [OF ne]])
  note y = bspec [OF x key, unfolded Let_def example_groups c d]
  show ?thesis by (rule bexI [OF _ i [unfolded example_groups]]) (simp only: y simp_thms)
qed

end
