(* ===== verification/Issue_Cancel.thy ===== *)
theory Issue_Cancel
  imports Issue_Engine
begin

text \<open>
  Contexts that end: an analysis polls its context a number of times that depends on its input alone, and either
  reports the context's error or answers as if the context had never ended.
\<close>

section \<open>Polling a number of times\<close>

text \<open>
  \<open>f\<close> polls \<open>k\<close> times: with a context that lives that long it answers as with one that always
  lives, with any other it answers with the error of the context.
\<close>

definition polls_times :: "(ctx_error \<Rightarrow> 'r) \<Rightarrow> (ctx \<Rightarrow> 'r \<times> ctx) \<Rightarrow> nat \<Rightarrow> bool" where
  "polls_times err f k \<longleftrightarrow> snd (f Live) = Live \<and>
    (\<forall>n e. f (DoneAfter n e) = (if n < k then (err e, DoneAfter 0 e) else (fst (f Live), DoneAfter (n - k) e)))"

lemma polls_times_return: "polls_times err (\<lambda>c. (r, c)) 0"
  by (simp add: polls_times_def)

lemma polls_times_bind:
  assumes "polls_times err f k" and "polls_times err' (g (fst (f Live))) k'" and "\<And>e c. g (err e) c = (err' e, c)"
  shows "polls_times err' (\<lambda>c. case f c of (r, c) \<Rightarrow> g r c) (k + k')"
proof -
  obtain r where live: "f Live = (r, Live)" using assms(1) by (cases "f Live") (simp add: polls_times_def)
  have done_: "f (DoneAfter n e) = (if n < k then (err e, DoneAfter 0 e) else (r, DoneAfter (n - k) e))" for n e
    using assms(1) by (simp add: polls_times_def live)
  have g: "snd (g r Live) = Live" "g r (DoneAfter n e) =
      (if n < k' then (err' e, DoneAfter 0 e) else (fst (g r Live), DoneAfter (n - k') e))" for n e
    using assms(2) by (simp_all add: polls_times_def live)
  show ?thesis by (simp add: polls_times_def live done_ g assms(3)) auto
qed

definition polls_some :: "(ctx_error \<Rightarrow> 'r) \<Rightarrow> (ctx \<Rightarrow> 'r \<times> ctx) \<Rightarrow> bool" where
  "polls_some err f \<longleftrightarrow> (\<exists>k. polls_times err f k)"

lemma polls_some_return [simp]: "polls_some err (Pair r)"
  unfolding polls_some_def using polls_times_return by (rule exI)

lemma polls_some_bind:
  assumes "polls_some err f" and "\<And>r. polls_some err' (g r)" and "\<And>e c. g (err e) c = (err' e, c)"
  shows "polls_some err' (\<lambda>c. case f c of (r, c) \<Rightarrow> g r c)"
proof -
  from assms(1) obtain k where k: "polls_times err f k" unfolding polls_some_def by blast
  from assms(2) obtain k' where k': "polls_times err' (g (fst (f Live))) k'" unfolding polls_some_def by blast
  from polls_times_bind [OF k k' assms(3)] show ?thesis unfolding polls_some_def by (rule exI)
qed

lemma polls_some_poll: "polls_some Some ctx_poll"
proof -
  have "ctx_poll (DoneAfter n e) = (if n < 1 then (Some e, DoneAfter 0 e) else (None, DoneAfter (n - 1) e))" for n e
    by (cases n) simp_all
  then have "polls_times Some ctx_poll 1" by (simp add: polls_times_def)
  then show ?thesis unfolding polls_some_def by (rule exI)
qed

lemma polls_some_polls: "polls_some Some (polls k)"
proof (induction k)
  case 0
  have "polls 0 = Pair None" by (rule ext) simp
  then show ?case by simp
next
  case (Suc k)
  have e: "polls (Suc k) = (\<lambda>c. case ctx_poll c of (r, c) \<Rightarrow> case_option (polls k c) (\<lambda>e. (Some e, c)) r)"
    by (rule ext) (simp split: prod.split option.split)
  show ?case unfolding e
  proof (rule polls_some_bind [OF polls_some_poll])
    show "polls_some Some (\<lambda>c. case_option (polls k c) (\<lambda>e. (Some e, c)) r)" for r
      by (cases r) (simp_all add: Suc)
  qed simp
qed

lemma polls_some_sweep: "polls_some Some (sweep_poll i)"
  by (cases "i mod 32 = 0") (simp_all add: sweep_poll_def [abs_def] polls_some_poll)

section \<open>The stages of an analysis\<close>

abbreviation done_error :: "ctx_error \<Rightarrow> issue_error + 'a" where
  "done_error \<equiv> \<lambda>e. Inl (ContextDone e)"

lemma prepare_sessions_polls: "polls_some done_error (prepare_sessions identity i turn_count prepared sessions)"
proof (induction sessions arbitrary: i turn_count prepared)
  case Nil
  have "prepare_sessions identity i turn_count prepared [] = Pair (Inr prepared)" by (rule ext) simp
  then show ?case by simp
next
  case (Cons session sessions)
  let ?turns = "ordered_turns (ss_Turns session)"
  let ?bad = "ts_SessionKey (ss_Metadata session) = [] \<or> ts_ProjectIdentity (ss_Metadata session) \<noteq> identity"
  let ?rest = "prepare_sessions identity (Suc i) (turn_count + length ?turns)
    (prepared @ [\<lparr>ss_Metadata = ss_Metadata session, ss_Turns = ?turns\<rparr>]) sessions"
  let ?body = "\<lambda>c. if ?bad then (Inl SessionInvalid, c)
    else if turn_count + length ?turns > maxProjectTurns then (Inl TurnLimit, c) else ?rest c"
  have e: "prepare_sessions identity i turn_count prepared (session # sessions) =
      (\<lambda>c. case sweep_poll i c of (r, c) \<Rightarrow> case_option (?body c) (\<lambda>e. (Inl (ContextDone e), c)) r)"
    by (rule ext) (simp add: Let_def split: prod.split option.split)
  have body: "polls_some done_error ?body"
    by (cases ?bad; cases "turn_count + length ?turns > maxProjectTurns") (simp_all add: Cons.IH)
  show ?case unfolding e
  proof (rule polls_some_bind [OF polls_some_sweep])
    show "polls_some done_error (\<lambda>c. case_option (?body c) (\<lambda>e. (Inl (ContextDone e), c)) r)" for r
      by (cases r) (use body in simp_all)
  qed simp
qed

lemma prepareProject_polls: "polls_some done_error (prepareProject input)"
proof -
  let ?p = "\<lparr>ip_Identity = trim_space (ip_Identity (pi_Project input)), ip_Path = trim_space (ip_Path (pi_Project input))\<rparr>"
  let ?bad = "ip_Identity ?p = [] \<or> pi_Now input = time_zero"
  let ?g = "\<lambda>r c. case r of Inl e \<Rightarrow> (Inl e, c)
    | Inr sessions \<Rightarrow> (Inr \<lparr>pp_project = ?p, pp_scopeIdentity = ip_Identity ?p, pp_config = pi_Config input,
        pp_sessions = sort_key session_key_of sessions, pp_now = pi_Now input\<rparr>, c)"
  let ?f = "prepare_sessions (ip_Identity ?p) 0 0 [] (pi_Sessions input)"
  have e: "prepareProject input = (\<lambda>c. if ?bad then (Inl ProjectInvalid, c) else case ?f c of (r, c) \<Rightarrow> ?g r c)"
    by (rule ext) (simp add: prepareProject_def Let_def split: prod.split sum.split)
  have "polls_some done_error (\<lambda>c. case ?f c of (r, c) \<Rightarrow> ?g r c)"
  proof (rule polls_some_bind [OF prepare_sessions_polls])
    show "polls_some done_error (?g r)" for r by (cases r) simp_all
  qed simp
  then show ?thesis unfolding e by (cases ?bad) simp_all
qed

lemma run_detectors_polls: "polls_some Inl (run_detectors ds)"
proof (induction ds)
  case Nil
  have "run_detectors [] = Pair (Inr [])" by (rule ext) simp
  then show ?case by simp
next
  case (Cons d ds)
  obtain n vs where d: "d = (n, vs)" by (cases d)
  let ?h = "\<lambda>r c. case r of Inl e \<Rightarrow> (Inl e, c) | Inr rest \<Rightarrow> (Inr (vs @ rest), c)"
  let ?body = "\<lambda>c. case run_detectors ds c of (r, c) \<Rightarrow> ?h r c"
  have e: "run_detectors (d # ds) =
      (\<lambda>c. case polls (Suc n) c of (r, c) \<Rightarrow> case_option (?body c) (\<lambda>e. (Inl e, c)) r)"
    by (rule ext) (simp add: d split: prod.split option.split sum.split del: polls.simps)
  have body: "polls_some Inl ?body"
  proof (rule polls_some_bind [OF Cons.IH])
    show "polls_some Inl (?h r)" for r by (cases r) simp_all
  qed simp
  show ?case unfolding e
  proof (rule polls_some_bind [OF polls_some_polls])
    show "polls_some Inl (\<lambda>c. case_option (?body c) (\<lambda>e. (Inl e, c)) r)" for r by (cases r) (use body in simp_all)
  qed simp
qed

lemma analyzePreparedProject_polls: "polls_some Inl (analyzePreparedProject E orders project)"
proof -
  obtain corrections candidates where found: "detectRepeatedCorrections E project = (corrections, candidates)" by fastforce
  let ?h = "\<lambda>observations r c. case r of Some e \<Rightarrow> (Inl e, c)
    | None \<Rightarrow> (Inr (observations @ corrections, candidates), c)"
  let ?g = "\<lambda>r c. case r of Inl e \<Rightarrow> (Inl e, c)
    | Inr observations \<Rightarrow> (case polls (turn_polls project) c of (r, c) \<Rightarrow> ?h observations r c)"
  have e: "analyzePreparedProject E orders project =
      (\<lambda>c. case run_detectors (detectors E orders project) c of (r, c) \<Rightarrow> ?g r c)"
    by (rule ext) (simp add: analyzePreparedProject_def found split: prod.split option.split sum.split)
  have h: "polls_some Inl (\<lambda>c. case polls (turn_polls project) c of (r, c) \<Rightarrow> ?h observations r c)" for observations
  proof (rule polls_some_bind [OF polls_some_polls])
    show "polls_some Inl (?h observations r)" for r by (cases r) simp_all
  qed simp
  show ?thesis unfolding e
  proof (rule polls_some_bind [OF run_detectors_polls])
    show "polls_some Inl (?g r)" for r by (cases r) (use h in simp_all)
  qed simp
qed

lemma analyze_scopes_polls: "polls_some Inl (analyze_scopes E orders i projects)"
proof (induction projects arbitrary: i)
  case Nil
  have "analyze_scopes E orders i [] = Pair (Inr ([], [], []))" by (rule ext) simp
  then show ?case by simp
next
  case (Cons scoped rest)
  let ?add = "\<lambda>observations candidates r c. case r of Inl e \<Rightarrow> (Inl e, c)
    | Inr (os, cs, is) \<Rightarrow> (Inr (observations @ os, candidates @ cs, aggregateIssues E (orders i) scoped observations @ is), c)"
  let ?tail = "\<lambda>observations candidates c. case analyze_scopes E orders (Suc i) rest c of (r, c) \<Rightarrow> ?add observations candidates r c"
  let ?g = "\<lambda>r c. case r of Inl e \<Rightarrow> (Inl e, c) | Inr (observations, candidates) \<Rightarrow> ?tail observations candidates c"
  have e: "analyze_scopes E orders i (scoped # rest) =
      (\<lambda>c. case analyzePreparedProject E (orders i) scoped c of (r, c) \<Rightarrow> ?g r c)"
    by (rule ext) (simp split: prod.split sum.split)
  have tail: "polls_some Inl (?tail observations candidates)" for observations candidates
  proof (rule polls_some_bind [OF Cons.IH])
    show "polls_some Inl (?add observations candidates r)" for r
      by (cases r) (simp_all add: case_prod_beta)
  qed simp
  show ?case unfolding e
  proof (rule polls_some_bind [OF analyzePreparedProject_polls])
    show "polls_some Inl (?g r)" for r
    proof (cases r)
      case (Inr p)
      then show ?thesis using tail [of "fst p" "snd p"] by (simp add: case_prod_beta)
    qed simp
  qed simp
qed

text \<open>
  C28. Cancellation is all or nothing: for every input there is a number of polls such that a context that ends later
  changes nothing, and one that ends earlier yields its error and no issue at all.
\<close>
theorem cancellation_is_all_or_nothing:
  "\<exists>k. \<forall>n e. fst (AnalyzeProject E F orders order input (DoneAfter n e)) =
    (if n < k then Inl (ContextDone e) else fst (AnalyzeProject E F orders order input Live))"
proof -
  let ?finish = "\<lambda>project r c. case r of Inl e \<Rightarrow> (Inl (ContextDone e), c)
    | Inr (observations, candidates, issues) \<Rightarrow>
        (Inr \<lparr>an_Issues = sortIssues issues, an_CorrectionCandidates = candidates,
           an_AttributedCost = attributedCost order project
             (concat (map ob_costSpans observations)) (concat (map ob_timeSpans observations))\<rparr>, c)"
  let ?scopes = "\<lambda>project. analyze_scopes E orders 0 (scopedProjects F project)"
  let ?g = "\<lambda>r c. case r of Inl e \<Rightarrow> (Inl e, c) | Inr project \<Rightarrow> (case ?scopes project c of (r, c) \<Rightarrow> ?finish project r c)"
  have e: "AnalyzeProject E F orders order input = (\<lambda>c. case prepareProject input c of (r, c) \<Rightarrow> ?g r c)"
    by (rule ext) (simp add: AnalyzeProject_def split: prod.split sum.split)
  have scopes: "polls_some done_error (\<lambda>c. case ?scopes project c of (r, c) \<Rightarrow> ?finish project r c)" for project
  proof (rule polls_some_bind [OF analyze_scopes_polls])
    show "polls_some done_error (?finish project r)" for r by (cases r) (simp_all add: case_prod_beta)
  qed simp
  have "polls_some done_error (AnalyzeProject E F orders order input)"
    unfolding e
  proof (rule polls_some_bind [OF prepareProject_polls])
    show "polls_some done_error (?g r)" for r by (cases r) (use scopes in simp_all)
  qed simp
  then show ?thesis by (auto simp: polls_some_def polls_times_def)
qed

end
