(* ===== verification/Spec2Isabelle.thy ===== *)
theory Spec2Isabelle
  imports Detect_Catalog Command_Safe UUIDv7 Init_Status Eval_Properties Cand_Example Issue_Witness Issue_Cancel
begin

text \<open>
  The Belay engine (\<open>internal/\<close> of the repository, in Go) records what coding agents do in
  sessions, detects issues in the recorded events, and turns what a user approves into experiences:
  instructions with a scope, guidance and a verifier. This development models the pure core of that
  program and proves what makes it correct. Everything the program decides without I/O is in two
  groups of packages.

  Detection (\<open>internal/detection\<close>). \<open>Event_Model\<close> has the canonical events
  (\<open>internal/canonical/model\<close>), \<open>Detect_Types\<close> the inputs and results. \<open>Detect_Prepare\<close>
  and \<open>Detect_Session\<close> model \<open>prepare.go\<close>: sorting, citations, fingerprint dimensions,
  identities of tools and commands. \<open>Detect_Coalesce\<close> models \<open>coalesce.go\<close>, which joins the
  two observations of one event that a historical and a live source make. \<open>Detect_Attempts\<close> models
  \<open>attempts.go\<close>, which pairs commands with their results. \<open>Detect_Detectors\<close> models the six
  detectors of \<open>detectors.go\<close>, and \<open>Detect_Catalog\<close> the catalog that runs them
  (\<open>catalog.go\<close>): slots, timeouts, panics and errors of detectors, bounds, duplicates, sorting.
  The events flow from a session input through preparation into every detector, and the matches from the
  detectors through the catalog into its result.

  Experiences (\<open>internal/experience\<close>). \<open>Exp_Model\<close> has the contracts (\<open>enums.go\<close>,
  \<open>model.go\<close>, \<open>verifier.go\<close>), \<open>Exp_Normalize\<close> their canonical content and identifiers
  (\<open>hash.go\<close>), \<open>Exp_Paths\<close> the validators of strings and paths and the path patterns
  (\<open>validate.go\<close>, \<open>pathmatch.go\<close>), \<open>Exp_Validate\<close> the validation of every contract
  (\<open>validate.go\<close>), \<open>Exp_Lifecycle\<close> the lifecycle actions (\<open>lifecycle.go\<close>),
  \<open>Exp_Conflict\<close> the conflict preflight of a proposal (\<open>conflict.go\<close>) and \<open>Exp_Approval\<close>
  the contracts of approvals (\<open>approval.go\<close>). \<open>Exp_Scope\<close> says what a scope means, as the set of the
  contexts of work in it, with the files they touch; the last two are held against it.

  Evaluation (\<open>internal/experience/evaluate\<close>): whether an experience that was delivered to a session
  was followed. \<open>Eval_Model\<close> has the facts of the session and the validation of the input,
  \<open>Eval_Verify\<close> the evaluators of the nine kinds of verifiers, \<open>Eval_Evaluate\<close> opportunity,
  applicability, task outcome and the bounded result. \<open>Eval_Sound\<close> shows that every step of the
  result builder only adds to it and leaves evidence for what it decides, \<open>Eval_Gaps\<close> which gaps
  can be reported, and \<open>Eval_Properties\<close> what this says of the whole evaluation.

  Trajectories (\<open>internal/trajectory\<close>): what caused what in a session. \<open>Traj_Model\<close> has the
  transcripts (\<open>internal/transcript/model.go\<close>) and the contracts of edges and outcomes,
  \<open>Traj_Derive\<close> their derivation (\<open>derive/derive.go\<close>). \<open>Traj_Builder\<close> shows that every
  step of the derivation only adds to the result, \<open>Traj_Edges\<close> which edges and outcomes each adds,
  \<open>Traj_Properties\<close>, \<open>Traj_Valid\<close> and \<open>Traj_Order\<close> what this says of the whole, and
  \<open>Traj_Example\<close> evaluates it on a session.

  Candidates (\<open>internal/experience/candidatecompiler\<close>): what a project might learn from its sessions.
  \<open>Cand_Episode\<close> has the grouping of successful verifications by a union-find into episodes
  (\<open>episode.go\<close>), \<open>Cand_Compile\<close> the compilation of candidates of the three families from the
  turns and the derived edges and outcomes (\<open>compiler.go\<close>). \<open>Cand_Groups\<close> shows that the
  union-find returns and computes connected components, \<open>Cand_Properties\<close> what holds of every compiled
  candidate and of compilation after derivation, and \<open>Cand_Example\<close> evaluates it, with
  \<open>Code_Target_Nat\<close> because the limits of the validators are large numbers.

  Issues (\<open>internal/detection/transcriptissues\<close>): what goes wrong again and again in the transcripts of a
  project, and what it costs. \<open>Text_Regex\<close> has Go's regular expressions, with the leftmost-first match as an
  executable search and what a pattern denotes as an inductive relation, \<open>Text_Unicode\<close> folding and classes of runes,
  \<open>Time_Text\<close> the calendar and the text of an instant, \<open>Float64\<close> the arithmetic of \<open>float64\<close>.
  \<open>Issue_Text\<close> and \<open>Issue_Classify\<close> have the rules by which turns are read (\<open>classify.go\<close>): classes
  of commands, error signatures, edited files, corrections; \<open>Issue_Classify.classifier\<close> is the instance of the
  record \<open>text_rules\<close> that trajectories and candidates are parameterised by. \<open>Issue_Model\<close> has the issues
  (\<open>internal/issueintel/model.go\<close>) and the attribution of cost (\<open>helpers.go\<close>), \<open>Issue_Command\<close> and
  \<open>Issue_Conversation\<close> the eight detectors (\<open>command_detectors.go\<close>, \<open>conversation_detectors.go\<close>),
  \<open>Issue_Scope\<close> the directories a project is split into (\<open>scope.go\<close>) and \<open>Issue_Engine\<close> the
  analysis (\<open>engine.go\<close>): sessions are validated and ordered, split into scopes, run through the detectors, and
  the observations of each scope are grouped into issues. \<open>Issue_Window\<close>, \<open>Issue_Cost\<close>, \<open>Issue_Tokens\<close>,
  \<open>Issue_Exact\<close>, \<open>Issue_Groups\<close>, \<open>Issue_Roots\<close>, \<open>Issue_Cancel\<close> and \<open>Issue_Retained\<close> prove what
  holds of them, \<open>Issue_Example\<close> and \<open>Issue_Witness\<close> evaluate them.

  Smaller components: \<open>Command_Safe\<close> (\<open>internal/canonical/commandsafe\<close>), the allow-listed
  display of commands; \<open>UUIDv7\<close> (\<open>internal/canonical/model/uuidv7.go\<close>), identifiers with a
  timestamp; \<open>Init_Status\<close> (\<open>internal/initialization\<close>), the tracker of the historical scan.

  How the code is represented. A Go string is its byte list, compared bytewise; a struct is a record
  with one field per field; an enumeration of strings is a datatype whose last constructor holds every
  other string; a pointer is an option; an instant is its number of nanoseconds since year one and a
  duration a 64-bit word, so that \<open>Sub\<close> saturates and a negation wraps. A method that returns an
  error is a sum, an option or, where only nil matters, a truth value. A map is a partial function, or an
  association list where the code ranges over it, in which case the theorems hold for every order. An \<open>int\<close>
  is an integer; where the code adds or subtracts values that nothing bounds, the result wraps (\<open>wrap64\<close>).
  Parts of the Go standard library the code calls are in \<open>Prelude\<close>, \<open>Text_Runes\<close> (runes and lower case,
  with the table of Unicode 15) and, for \<open>path\<close>, in \<open>Exp_Paths\<close>. The JSON encoder and SHA-256, clocks, random bytes and detectors supplied from outside
  are parameters. Trajectories and candidates are parameterised by the rules by which a transcript is
  read (the record \<open>text_rules\<close>); the rules themselves are modelled with the issue detectors, over the tables of
  Unicode, the JSON decoder, \<open>os.Stat\<close> and \<open>url.Parse\<close> (the records \<open>text_env\<close> and \<open>scope_env\<close>).

  Interfaces. \<open>session_detector\<close> (\<open>Detect_Detectors\<close>) states what a detector promises the
  catalog and is interpreted on the six detectors; \<open>state_machine\<close> (\<open>Prelude\<close>) states what an
  invariant of a step relation is and is interpreted on the slots of the catalog, the tracker and the
  lifecycle; \<open>verification_source\<close> (\<open>Issue_Retained\<close>) states what the candidate compiler relies on in the
  rules it is given, and is interpreted on the classifier of the issue detectors.

  What the lemmas show. For detection: preparation loses and invents no event, coalescing joins only
  compatible and unambiguous pairs whatever the order of maps, attempts partition the command events,
  each detector reports exactly what its definition over the prepared session says, and the catalog
  reports exactly what the detectors found, within its bounds. For experiences: normal forms are
  canonical, validated paths cannot leave their directory and validated patterns mean what they say, a
  valid verifier is a tagged union, authority comes only from the approval of exactly that content, the
  lifecycle keeps it governed, the conflict preflight decides overlap and contradiction exactly, and a
  narrowed approval only narrows. For evaluation: every decision is cited even after truncation, a
  verdict needs the declared coverage, no gap is dropped, and the verdicts of file verifiers meet the
  same specification by which the preflight calls two verifiers opposed. For trajectories: results,
  verifications, repairs and corrections are linked to exactly what they are about, the derivation does
  not fail on valid records, and its answer depends on no order but that of the turns. For candidates: they
  are valid, inert and cite only unambiguous turns, corrections quote their user, episodes are the connected
  components of the links between verifications, and what was derived is accepted; but a command of several lines
  makes the compilation fail. For issues: command lines are read within their bounds, the readings of a verification agree,
  detectors report exactly what their definition over the turns says, windows are largest, no turn is charged twice, every
  session is analyzed in one scope, an issue summarises all its observations whatever the order of maps, and a cancelled
  analysis answers nothing; but which command a loop of retries is named after depends on the order of a map.


  Bounds. Recursions are structural or have a measure; no fuel is used except in trimming, where the
  length of the string bounds the rounds because each removes at least one byte, in the search for a repository, where the
  length of the path bounds the directories above it (\<open>Issue_Roots.repository_search_ends_at_nearest\<close>), and where
  the code itself counts rounds. The search for the root in the
  union-find is a partial function; that it returns is proved, by a rank along which the parents descend.

  Not modelled. Error texts; JSON decoding and encoding; the panic of encoding a year JSON cannot hold, so that
  the encoders are total; the location and the monotonic reading of a \<open>time.Time\<close>, so that the \<open>==\<close> by which
  \<open>SemanticResult.Validate\<close> compares two times is equality of instants;
  goroutines, beyond the choice of which channel is ready; the storage layer (SQL), the HTTP and MCP
  servers, the commands, file and process handling, and the benchmark runner, which are I/O. The impact
  measurement over stored evaluations and the mission pack builder are not modelled either.
\<close>

end
